(* ===== verification/Prelude.thy ===== *)
theory Prelude
  imports
    Main
    "HOL-Library.AList"
    "HOL-Library.Char_ord"
    "HOL-Library.List_Lexorder"
    "HOL-Library.Sublist"
begin

text \<open>
  Shared vocabulary of the development: the names of the model's basic types, the collections of
  rewrite rules the component proofs draw on, and the generic facts on lists, options and
  association lists that more than one component needs.

  Conventions. A Rust \<^verbatim>\<open>String\<close> or \<^verbatim>\<open>&str\<close> is its sequence of UTF-8 bytes, one
  \<^typ>\<open>char\<close> per byte, so \<^verbatim>\<open>len()\<close> is \<^const>\<open>length\<close> and byte-wise comparison is the
  lexicographic order of \<^verbatim>\<open>List_Lexorder\<close>. An \<^verbatim>\<open>i32\<close> is an \<^typ>\<open>int\<close>; where the
  source's arithmetic can leave the 32-bit range the wrap-around is written out (\<open>wrap_i32\<close>).
  A \<^verbatim>\<open>HashMap\<close> is an association list with distinct keys, so that its size and its iteration
  are available; a \<^verbatim>\<open>HashSet\<close> of strings is a list used through membership only.
\<close>

type_synonym bytes = string
type_synonym i32 = int

named_theorems str_simps "rewrite rules for the byte-string operations"
named_theorems path_simps "rewrite rules for path operations"
named_theorems rule_defs "definitions unfolded by rule-matching proofs"
named_theorems decision_defs "definitions unfolded by decision-pipeline proofs"

section \<open>Machine integers\<close>

text \<open>Two's complement wrap-around of release-mode \<^verbatim>\<open>i32\<close> arithmetic.\<close>

definition wrap_i32 :: "int \<Rightarrow> i32" where
  "wrap_i32 n = (n + 2 ^ 31) mod 2 ^ 32 - 2 ^ 31"

definition in_i32 :: "int \<Rightarrow> bool" where
  "in_i32 n \<longleftrightarrow> - (2 ^ 31) \<le> n \<and> n < 2 ^ 31"

text \<open>\<^verbatim>\<open>i64::saturating_sub\<close> and \<^verbatim>\<open>u32::saturating_add(1)\<close>.\<close>

definition sat_sub_i64 :: "int \<Rightarrow> int \<Rightarrow> int" where
  "sat_sub_i64 a b = max (- (2 ^ 63)) (min (2 ^ 63 - 1) (a - b))"

definition U64_MAX :: nat where
  "U64_MAX = 18446744073709551615"

definition sat_add_u64 :: "nat \<Rightarrow> nat \<Rightarrow> nat" where
  "sat_add_u64 a b = min (a + b) U64_MAX"

definition sat_inc_u32 :: "nat \<Rightarrow> nat" where
  "sat_inc_u32 n = min (n + 1) (2 ^ 32 - 1)"

lemma wrap_i32_range: "in_i32 (wrap_i32 n)"
  by (simp add: wrap_i32_def in_i32_def)

lemma wrap_i32_id: "in_i32 n \<Longrightarrow> wrap_i32 n = n"
  by (simp add: wrap_i32_def in_i32_def)

section \<open>Lists\<close>

lemma list_all_iff_set: "list_all P xs \<longleftrightarrow> (\<forall>x \<in> set xs. P x)"
  by (simp add: list_all_iff)

lemma dropWhile_sep [simp]: "c \<notin> set h \<Longrightarrow> dropWhile (\<lambda>x. x \<noteq> c) (h @ c # r) = c # r"
  by (induction h) auto

lemma takeWhile_sep [simp]: "c \<notin> set h \<Longrightarrow> takeWhile (\<lambda>x. x \<noteq> c) (h @ c # r) = h"
  by (induction h) auto

lemma takeWhile_no_sep [simp]: "c \<notin> set h \<Longrightarrow> takeWhile (\<lambda>x. x \<noteq> c) h = h"
  by (induction h) auto

lemma dropWhile_no_sep [simp]: "c \<notin> set h \<Longrightarrow> dropWhile (\<lambda>x. x \<noteq> c) h = []"
  by (induction h) auto

lemma butlast_snoc_last: "xs \<noteq> [] \<Longrightarrow> butlast xs @ [last xs] = xs"
  by simp

text \<open>
  Rust's \<^verbatim>\<open>dedup_by\<close> drops an element that is equivalent to the last one kept.
\<close>

fun dedup_by_aux :: "('a \<Rightarrow> 'a \<Rightarrow> bool) \<Rightarrow> 'a \<Rightarrow> 'a list \<Rightarrow> 'a list" where
  "dedup_by_aux eq kept [] = []"
| "dedup_by_aux eq kept (x # xs) =
     (if eq x kept then dedup_by_aux eq kept xs else x # dedup_by_aux eq x xs)"

fun dedup_by :: "('a \<Rightarrow> 'a \<Rightarrow> bool) \<Rightarrow> 'a list \<Rightarrow> 'a list" where
  "dedup_by eq [] = []"
| "dedup_by eq (x # xs) = x # dedup_by_aux eq x xs"

lemma dedup_by_aux_subset: "set (dedup_by_aux eq k xs) \<subseteq> set xs"
  by (induction xs arbitrary: k) auto

lemma dedup_by_subset: "set (dedup_by eq xs) \<subseteq> set xs"
  using dedup_by_aux_subset by (cases xs) fastforce+

lemma dedup_by_aux_covers:
  assumes refl: "\<And>a. eq a a"
  shows "x \<in> set xs \<Longrightarrow> \<exists>y \<in> insert k (set (dedup_by_aux eq k xs)). eq x y"
proof (induction xs arbitrary: k)
  case (Cons z zs)
  show ?case
  proof (cases "x = z")
    case True
    with refl [of z] show ?thesis by auto
  next
    case False
    with Cons.prems have "x \<in> set zs" by simp
    with Cons.IH [of k] Cons.IH [of z] show ?thesis by auto
  qed
qed simp

lemma dedup_by_covers:
  assumes "x \<in> set xs" and refl: "\<And>a. eq a a"
  shows "\<exists>y \<in> set (dedup_by eq xs). eq x y"
proof (cases xs)
  case Nil
  with assms show ?thesis by simp
next
  case (Cons z zs)
  show ?thesis
  proof (cases "x = z")
    case True
    with Cons refl show ?thesis by auto
  next
    case False
    with Cons assms(1) have "x \<in> set zs" by simp
    from dedup_by_aux_covers [of eq, OF refl this, of z] Cons show ?thesis by simp
  qed
qed

lemma dedup_by_aux_subseq: "subseq (dedup_by_aux eq k xs) xs"
  by (induction xs arbitrary: k) auto

lemma dedup_by_subseq: "subseq (dedup_by eq xs) xs"
  by (cases xs) (auto simp: dedup_by_aux_subseq)

lemma sorted_wrt_subseq: "subseq xs ys \<Longrightarrow> sorted_wrt P ys \<Longrightarrow> sorted_wrt P xs"
  by (induction rule: list_emb.induct) (auto dest: list_emb_set)

section \<open>Stable sorting by a key\<close>

text \<open>
  Rust's \<^verbatim>\<open>sort_by\<close> is a stable sort. Every comparator of the program compares a key derived
  from the element, so it is \<^const>\<open>sort_key\<close> at that key.
\<close>

lemma sort_key_same_set [simp]: "set (sort_key f xs) = set xs"
  by simp

text \<open>
  Rust's \<^verbatim>\<open>max_by\<close> keeps the last of several maximal elements: an element replaces the
  current maximum unless it is strictly smaller.
\<close>

fun max_by_key :: "('a \<Rightarrow> 'k::linorder) \<Rightarrow> 'a list \<Rightarrow> 'a option" where
  "max_by_key f [] = None"
| "max_by_key f (x # xs) = Some (foldl (\<lambda>m y. if f y < f m then m else y) x xs)"

lemma foldl_max_in:
  "foldl (\<lambda>m y. if f y < f m then m else y) (x :: 'a) xs \<in> insert x (set xs)"
  for f :: "'a \<Rightarrow> 'k::linorder"
proof (induction xs arbitrary: x)
  case (Cons y ys)
  show ?case using Cons.IH [of x] Cons.IH [of y] by auto
qed simp

lemma foldl_max_ge:
  fixes f :: "'a \<Rightarrow> 'k::linorder"
  shows "z \<in> insert x (set xs) \<Longrightarrow> f z \<le> f (foldl (\<lambda>m y. if f y < f m then m else y) x xs)"
proof (induction xs arbitrary: x z)
  case (Cons y ys)
  let ?m = "if f y < f x then x else y"
  have m: "f ?m \<le> f (foldl (\<lambda>m y. if f y < f m then m else y) ?m ys)"
    by (rule Cons.IH) simp
  show ?case
  proof (cases "z \<in> set ys")
    case True
    then show ?thesis using Cons.IH [of z ?m] by simp
  next
    case False
    with Cons.prems have "f z \<le> f ?m" by auto
    with m show ?thesis by (simp split: if_splits)
  qed
qed simp

lemma max_by_key_None [simp]: "max_by_key f xs = None \<longleftrightarrow> xs = []"
  by (cases xs) auto

lemma max_by_key_in: "max_by_key f xs = Some m \<Longrightarrow> m \<in> set xs"
  using foldl_max_in by (cases xs) (auto, fastforce)

lemma max_by_key_ge: "max_by_key f xs = Some m \<Longrightarrow> z \<in> set xs \<Longrightarrow> f z \<le> f m"
  by (cases xs) (auto intro: foldl_max_ge)

lemma max_by_key_rel:
  assumes "list_all2 R xs ys" and "\<And>x y. R x y \<Longrightarrow> f x = f y"
  shows "rel_option R (max_by_key f xs) (max_by_key f ys)"
proof -
  have "R x y \<Longrightarrow> R (foldl (\<lambda>m y. if f y < f m then m else y) x as) (foldl (\<lambda>m y. if f y < f m then m else y) y bs)"
    if "list_all2 R as bs" for x y as bs
    using that by (induction arbitrary: x y) (use assms(2) in auto)
  with assms(1) show ?thesis by (cases xs; cases ys) auto
qed

section \<open>Association lists as hash maps\<close>

abbreviation keys_of :: "('k \<times> 'v) list \<Rightarrow> 'k list" where
  "keys_of m \<equiv> map fst m"

lemma keys_update: "set (keys_of (AList.update k v m)) = insert k (set (keys_of m))"
  by (simp add: dom_update)

lemma map_of_delete [simp]: "map_of (AList.delete k m) = (map_of m)(k := None)"
  by (simp add: delete_conv')

lemma map_of_update [simp]: "map_of (AList.update k v m) = (map_of m)(k \<mapsto> v)"
  by (simp add: update_conv')

lemma length_delete_in:
  "distinct (keys_of m) \<Longrightarrow> k \<in> set (keys_of m) \<Longrightarrow> Suc (length (AList.delete k m)) = length m"
proof (induction m)
  case (Cons p m)
  obtain a b where p: "p = (a, b)" by (cases p)
  show ?case
  proof (cases "a = k")
    case True
    with Cons.prems p have "k \<notin> set (keys_of m)" by simp
    then have "AList.delete k m = m"
      by (simp add: AList.delete_idem)
    with True p show ?thesis by simp
  next
    case False
    with Cons p show ?thesis by simp
  qed
qed simp

end
