(* ===== verification/Rust_Str.thy ===== *)
theory Rust_Str
  imports Prelude
begin

text \<open>
  The part of Rust's standard string library the program uses, on byte strings: prefix and suffix
  tests, searching, splitting, trimming, ASCII case folding, replacement, and the decimal syntax of
  \<^verbatim>\<open>i32\<close>. Operations that Rust defines on code points (\<^verbatim>\<open>chars()\<close>, \<^verbatim>\<open>trim()\<close>) go
  through \<open>utf8_chars\<close>, which groups a lead byte with its continuation bytes.
\<close>

section \<open>Prefixes, suffixes, searching\<close>

definition starts_with_str :: "bytes \<Rightarrow> bytes \<Rightarrow> bool" where
  "starts_with_str s p = prefix p s"

definition ends_with_str :: "bytes \<Rightarrow> bytes \<Rightarrow> bool" where
  "ends_with_str s p = prefix (rev p) (rev s)"

definition strip_prefix :: "bytes \<Rightarrow> bytes \<Rightarrow> bytes option" where
  "strip_prefix s p = (if prefix p s then Some (drop (length p) s) else None)"

definition strip_suffix :: "bytes \<Rightarrow> bytes \<Rightarrow> bytes option" where
  "strip_suffix s p = (if ends_with_str s p then Some (take (length s - length p) s) else None)"

definition get_byte :: "bytes \<Rightarrow> nat \<Rightarrow> char option" where
  "get_byte s i = (if i < length s then Some (s ! i) else None)"

fun find_char :: "char \<Rightarrow> bytes \<Rightarrow> nat option" where
  "find_char c [] = None"
| "find_char c (x # xs) = (if x = c then Some 0 else map_option Suc (find_char c xs))"

fun rfind_char :: "char \<Rightarrow> bytes \<Rightarrow> nat option" where
  "rfind_char c [] = None"
| "rfind_char c (x # xs) =
     (case rfind_char c xs of Some i \<Rightarrow> Some (Suc i) | None \<Rightarrow> if x = c then Some 0 else None)"

fun find_str :: "bytes \<Rightarrow> bytes \<Rightarrow> nat option" where
  "find_str p [] = (if p = [] then Some 0 else None)"
| "find_str p (x # xs) = (if prefix p (x # xs) then Some 0 else map_option Suc (find_str p xs))"

definition contains_char :: "bytes \<Rightarrow> char \<Rightarrow> bool" where
  "contains_char s c = (c \<in> set s)"

fun contains_str :: "bytes \<Rightarrow> bytes \<Rightarrow> bool" where
  "contains_str [] p = (p = [])"
| "contains_str (x # xs) p = (prefix p (x # xs) \<or> contains_str xs p)"

lemma starts_with_str_iff [str_simps]: "starts_with_str s p \<longleftrightarrow> prefix p s"
  by (simp add: starts_with_str_def)

lemma ends_with_str_iff [str_simps]: "ends_with_str s p \<longleftrightarrow> suffix p s"
  by (simp add: ends_with_str_def suffix_to_prefix)

lemma ends_with_single: "ends_with_str s [c] \<longleftrightarrow> s \<noteq> [] \<and> last s = c"
  by (cases s rule: rev_cases) (auto simp: ends_with_str_def)

lemma strip_prefix_Some [str_simps]: "strip_prefix s p = Some r \<longleftrightarrow> s = p @ r"
  by (auto simp: strip_prefix_def prefix_def)

lemma strip_prefix_None [str_simps]: "strip_prefix s p = None \<longleftrightarrow> \<not> prefix p s"
  by (simp add: strip_prefix_def)

lemma strip_prefix_append [simp]: "strip_prefix (p @ r) p = Some r"
  by (simp add: strip_prefix_def)

lemma find_char_None: "find_char c s = None \<longleftrightarrow> c \<notin> set s"
  by (induction s) auto

lemma find_char_Some:
  "find_char c s = Some i \<longleftrightarrow> i < length s \<and> s ! i = c \<and> c \<notin> set (take i s)"
proof (induction s arbitrary: i)
  case (Cons x xs)
  then show ?case by (cases i) auto
qed simp

lemma find_char_eq_takeWhile:
  "find_char c s = Some i \<Longrightarrow>
     take i s = takeWhile (\<lambda>x. x \<noteq> c) s \<and> drop i s = dropWhile (\<lambda>x. x \<noteq> c) s"
  by (induction s arbitrary: i) (auto split: if_splits)

lemma rfind_char_None: "rfind_char c s = None \<longleftrightarrow> c \<notin> set s"
  by (induction s) (auto split: option.splits)

lemma rfind_char_Some:
  "rfind_char c s = Some i \<longleftrightarrow> i < length s \<and> s ! i = c \<and> c \<notin> set (drop (Suc i) s)"
proof (induction s arbitrary: i)
  case (Cons x xs)
  show ?case
  proof (cases "rfind_char c xs")
    case None
    then have "c \<notin> set xs" by (simp add: rfind_char_None)
    moreover have "set (drop i xs) \<subseteq> set xs" by (rule set_drop_subset)
    ultimately show ?thesis using None by (cases i) (auto dest: nth_mem)
  next
    case (Some j)
    with Cons.IH have j: "j < length xs" "xs ! j = c" "c \<notin> set (drop (Suc j) xs)" by auto
    then have "c \<in> set xs" by auto
    then show ?thesis using Some Cons.IH [of "i - 1"] by (cases i) auto
  qed
qed simp

lemma contains_str_iff [str_simps]: "contains_str s p \<longleftrightarrow> sublist p s"
  by (induction s) (auto simp: sublist_Cons_right)

section \<open>Splitting\<close>

text \<open>\<^verbatim>\<open>str::split\<close> at a character: \<open>n\<close> separators give \<open>n + 1\<close> pieces.\<close>

fun split_char :: "char \<Rightarrow> bytes \<Rightarrow> bytes list" where
  "split_char c [] = [[]]"
| "split_char c (x # xs) =
     (if x = c then [] # split_char c xs
      else case split_char c xs of [] \<Rightarrow> [[x]] | y # ys \<Rightarrow> (x # y) # ys)"

fun join_char :: "char \<Rightarrow> bytes list \<Rightarrow> bytes" where
  "join_char c [] = []"
| "join_char c [x] = x"
| "join_char c (x # xs) = x @ c # join_char c xs"

text \<open>The idiom \<^verbatim>\<open>split(c).filter(|p| !p.is_empty())\<close>.\<close>

definition nonempty_parts :: "char \<Rightarrow> bytes \<Rightarrow> bytes list" where
  "nonempty_parts c s = filter (\<lambda>p. p \<noteq> []) (split_char c s)"

lemma split_char_nonempty [simp]: "split_char c s \<noteq> []"
  by (induction s) (auto split: list.splits)

lemma split_char_no_sep: "c \<notin> set s \<Longrightarrow> split_char c s = [s]"
  by (induction s) auto

lemma split_char_append_sep: "split_char c (a @ c # b) = split_char c a @ split_char c b"
  by (induction a) (auto split: list.splits)

lemma split_char_pieces: "p \<in> set (split_char c s) \<Longrightarrow> c \<notin> set p"
  by (induction s arbitrary: p) (auto split: list.splits if_splits)

lemma join_split_char: "join_char c (split_char c s) = s"
proof (induction s)
  case (Cons x xs)
  obtain y ys where yys: "split_char c xs = y # ys"
    using split_char_nonempty [of c xs] by (cases "split_char c xs") auto
  with Cons.IH show ?case by (cases ys) auto
qed simp

lemma set_join_char: "p \<in> set ps \<Longrightarrow> set p \<subseteq> set (join_char c ps)"
  by (induction c ps rule: join_char.induct) auto

lemma split_join_char:
  "ps \<noteq> [] \<Longrightarrow> (\<And>p. p \<in> set ps \<Longrightarrow> c \<notin> set p) \<Longrightarrow> split_char c (join_char c ps) = ps"
proof (induction c ps rule: join_char.induct)
  case (3 c x y zs)
  then show ?case by (simp add: split_char_append_sep split_char_no_sep)
qed (auto simp: split_char_no_sep)

lemma hd_split_char: "hd (split_char c s) = takeWhile (\<lambda>x. x \<noteq> c) s"
  by (induction s) (auto split: list.splits)

lemma nonempty_parts_nil [simp]: "nonempty_parts c [] = []"
  by (simp add: nonempty_parts_def)

lemma nonempty_parts_sep [simp]: "nonempty_parts c (c # s) = nonempty_parts c s"
  by (simp add: nonempty_parts_def)

lemma nonempty_parts_append_sep:
  "nonempty_parts c (a @ c # b) = nonempty_parts c a @ nonempty_parts c b"
  by (simp add: nonempty_parts_def split_char_append_sep)

lemma nonempty_parts_no_sep: "c \<notin> set s \<Longrightarrow> nonempty_parts c s = (if s = [] then [] else [s])"
  by (simp add: nonempty_parts_def split_char_no_sep)

lemma nonempty_parts_mem: "p \<in> set (nonempty_parts c s) \<Longrightarrow> p \<noteq> [] \<and> c \<notin> set p"
  by (auto simp: nonempty_parts_def dest: split_char_pieces)

lemma nonempty_parts_empty_iff: "nonempty_parts c s = [] \<longleftrightarrow> set s \<subseteq> {c}"
  by (induction s) (auto simp: nonempty_parts_def split: list.splits)

section \<open>Trimming\<close>

definition trim_end_char :: "char \<Rightarrow> bytes \<Rightarrow> bytes" where
  "trim_end_char c s = rev (dropWhile (\<lambda>x. x = c) (rev s))"

lemma trim_end_char_id: "s = [] \<or> last s \<noteq> c \<Longrightarrow> trim_end_char c s = s"
  by (cases s rule: rev_cases) (auto simp: trim_end_char_def)

lemma trim_end_char_snoc [simp]: "trim_end_char c (s @ [c]) = trim_end_char c s"
  by (simp add: trim_end_char_def)

lemma trim_end_char_last: "trim_end_char c s = [] \<or> last (trim_end_char c s) \<noteq> c"
proof (cases "dropWhile (\<lambda>x. x = c) (rev s)")
  case Nil
  then show ?thesis by (simp add: trim_end_char_def)
next
  case (Cons a list)
  then have "a \<noteq> c" by (metis (mono_tags) dropWhile_eq_Cons_conv)
  with Cons show ?thesis by (simp add: trim_end_char_def)
qed

lemma trim_end_char_prefix: "\<exists>n. s = trim_end_char c s @ replicate n c"
proof (induction s rule: rev_induct)
  case (snoc x xs)
  then obtain n where "xs = trim_end_char c xs @ replicate n c" by blast
  then show ?case
    by (cases "x = c") (auto simp: trim_end_char_id replicate_append_same [symmetric]
        intro: exI [of _ "Suc n"] exI [of _ 0])
qed (simp add: trim_end_char_def)

text \<open>
  UTF-8: a code point is a byte that is not of the form \<^verbatim>\<open>10xxxxxx\<close>, with the continuation
  bytes that follow it. \<^verbatim>\<open>chars()\<close> is the list of code points, each as its bytes.
\<close>

fun is_cont_byte :: "char \<Rightarrow> bool" where
  "is_cont_byte (Char b0 b1 b2 b3 b4 b5 b6 b7) = (b7 \<and> \<not> b6)"

function utf8_chars :: "bytes \<Rightarrow> bytes list" where
  "utf8_chars [] = []"
| "utf8_chars (c # cs) = (c # takeWhile is_cont_byte cs) # utf8_chars (dropWhile is_cont_byte cs)"
  by pat_completeness auto
termination
  by (relation "measure length") (auto simp: le_imp_less_Suc length_dropWhile_le)

lemma concat_utf8_chars [simp]: "concat (utf8_chars s) = s"
  by (induction s rule: utf8_chars.induct) auto

fun is_ascii :: "char \<Rightarrow> bool" where
  "is_ascii (Char b0 b1 b2 b3 b4 b5 b6 b7) = (\<not> b7)"

lemma is_ascii_not_cont: "is_ascii c \<Longrightarrow> \<not> is_cont_byte c"
  by (cases c) auto

lemma utf8_chars_ascii: "list_all is_ascii s \<Longrightarrow> utf8_chars s = map (\<lambda>c. [c]) s"
proof (induction s rule: utf8_chars.induct)
  case (2 c cs)
  have "cs = [] \<or> \<not> is_cont_byte (hd cs)"
    using 2(2) by (cases cs) (auto dest: is_ascii_not_cont)
  then have "takeWhile is_cont_byte cs = []" "dropWhile is_cont_byte cs = cs"
    by (cases cs; simp)+
  with 2 show ?case by simp
qed simp

text \<open>\<^verbatim>\<open>char::is_whitespace\<close>: the code points with the property \<^verbatim>\<open>White_Space\<close>.\<close>

definition unicode_whitespace :: "nat list list" where
  "unicode_whitespace =
     [[9], [10], [11], [12], [13], [32], [194, 133], [194, 160], [225, 154, 128],
      [226, 128, 128], [226, 128, 129], [226, 128, 130], [226, 128, 131], [226, 128, 132],
      [226, 128, 133], [226, 128, 134], [226, 128, 135], [226, 128, 136], [226, 128, 137],
      [226, 128, 138], [226, 128, 168], [226, 128, 169], [226, 128, 175], [226, 129, 159],
      [227, 128, 128]]"

definition is_whitespace :: "bytes \<Rightarrow> bool" where
  "is_whitespace cp = (map of_char cp \<in> set unicode_whitespace)"

definition trim_start :: "bytes \<Rightarrow> bytes" where
  "trim_start s = concat (dropWhile is_whitespace (utf8_chars s))"

definition trim_end :: "bytes \<Rightarrow> bytes" where
  "trim_end s = concat (rev (dropWhile is_whitespace (rev (utf8_chars s))))"

definition trim :: "bytes \<Rightarrow> bytes" where
  "trim s = trim_end (trim_start s)"

section \<open>ASCII classes and case folding\<close>

definition is_ascii_upper :: "char \<Rightarrow> bool" where
  "is_ascii_upper c \<longleftrightarrow> 65 \<le> (of_char c :: nat) \<and> (of_char c :: nat) \<le> 90"

definition is_ascii_lower :: "char \<Rightarrow> bool" where
  "is_ascii_lower c \<longleftrightarrow> 97 \<le> (of_char c :: nat) \<and> (of_char c :: nat) \<le> 122"

definition is_ascii_digit :: "char \<Rightarrow> bool" where
  "is_ascii_digit c \<longleftrightarrow> 48 \<le> (of_char c :: nat) \<and> (of_char c :: nat) \<le> 57"

definition is_ascii_alphanumeric :: "char \<Rightarrow> bool" where
  "is_ascii_alphanumeric c \<longleftrightarrow> is_ascii_upper c \<or> is_ascii_lower c \<or> is_ascii_digit c"

fun set_bit5 :: "char \<Rightarrow> char" where
  "set_bit5 (Char b0 b1 b2 b3 b4 b5 b6 b7) = Char b0 b1 b2 b3 b4 True b6 b7"

definition ascii_lower :: "char \<Rightarrow> char" where
  "ascii_lower c = (if is_ascii_upper c then set_bit5 c else c)"

definition to_ascii_lowercase :: "bytes \<Rightarrow> bytes" where
  "to_ascii_lowercase = map ascii_lower"

definition eq_ignore_ascii_case :: "bytes \<Rightarrow> bytes \<Rightarrow> bool" where
  "eq_ignore_ascii_case a b = (map ascii_lower a = map ascii_lower b)"

lemma ascii_lower_idem [simp]: "ascii_lower (ascii_lower c) = ascii_lower c"
  by (cases c) (auto simp: ascii_lower_def is_ascii_upper_def)

lemma to_ascii_lowercase_append [simp]:
  "to_ascii_lowercase (a @ b) = to_ascii_lowercase a @ to_ascii_lowercase b"
  by (simp add: to_ascii_lowercase_def)

lemma to_ascii_lowercase_Nil [simp]: "to_ascii_lowercase [] = []"
  by (simp add: to_ascii_lowercase_def)

lemma to_ascii_lowercase_Cons [simp]:
  "to_ascii_lowercase (c # s) = ascii_lower c # to_ascii_lowercase s"
  by (simp add: to_ascii_lowercase_def)

lemma to_ascii_lowercase_eq_Nil [simp]: "to_ascii_lowercase s = [] \<longleftrightarrow> s = []"
  by (simp add: to_ascii_lowercase_def)

lemma length_to_ascii_lowercase [simp]: "length (to_ascii_lowercase s) = length s"
  by (simp add: to_ascii_lowercase_def)

lemma to_ascii_lowercase_idem [simp]:
  "to_ascii_lowercase (to_ascii_lowercase s) = to_ascii_lowercase s"
  by (simp add: to_ascii_lowercase_def)

lemma take_to_ascii_lowercase: "take n (to_ascii_lowercase s) = to_ascii_lowercase (take n s)"
  by (simp add: to_ascii_lowercase_def take_map)

lemma drop_to_ascii_lowercase: "drop n (to_ascii_lowercase s) = to_ascii_lowercase (drop n s)"
  by (simp add: to_ascii_lowercase_def drop_map)

lemma eq_ignore_ascii_case_iff [str_simps]:
  "eq_ignore_ascii_case a b \<longleftrightarrow> to_ascii_lowercase a = to_ascii_lowercase b"
  by (simp add: eq_ignore_ascii_case_def to_ascii_lowercase_def)

lemma eq_ignore_ascii_case_refl [simp]: "eq_ignore_ascii_case a a"
  by (simp add: str_simps)

lemma eq_ignore_ascii_case_length: "eq_ignore_ascii_case a b \<Longrightarrow> length a = length b"
  unfolding eq_ignore_ascii_case_def by (rule map_eq_imp_length_eq)

text \<open>The separator, the wildcards and the digits are fixed by case folding.\<close>

lemma ascii_lower_slash [simp]: "ascii_lower c = CHR ''/'' \<longleftrightarrow> c = CHR ''/''"
  by (cases c) (auto simp: ascii_lower_def is_ascii_upper_def)

lemma ascii_lower_slash' [simp]: "CHR ''/'' = ascii_lower c \<longleftrightarrow> c = CHR ''/''"
  by (subst eq_commute) simp

lemma ascii_lower_star [simp]: "ascii_lower c = CHR ''*'' \<longleftrightarrow> c = CHR ''*''"
  by (cases c) (auto simp: ascii_lower_def is_ascii_upper_def)

lemma ascii_lower_quest [simp]: "ascii_lower c = CHR ''?'' \<longleftrightarrow> c = CHR ''?''"
  by (cases c) (auto simp: ascii_lower_def is_ascii_upper_def)

lemma ascii_lower_cont [simp]: "is_cont_byte (ascii_lower c) = is_cont_byte c"
  by (cases c) (auto simp: ascii_lower_def is_ascii_upper_def)

lemma utf8_chars_lower: "utf8_chars (to_ascii_lowercase s) = map to_ascii_lowercase (utf8_chars s)"
  by (induction s rule: utf8_chars.induct)
    (simp_all add: to_ascii_lowercase_def takeWhile_map dropWhile_map comp_def)

lemma eq_ignore_case_chars:
  "eq_ignore_ascii_case a b \<longleftrightarrow> list_all2 eq_ignore_ascii_case (utf8_chars a) (utf8_chars b)"
proof -
  have "eq_ignore_ascii_case a b \<longleftrightarrow> utf8_chars (to_ascii_lowercase a) = utf8_chars (to_ascii_lowercase b)"
    unfolding str_simps by (metis concat_utf8_chars)
  also have "\<dots> \<longleftrightarrow> list_all2 eq_ignore_ascii_case (utf8_chars a) (utf8_chars b)"
    unfolding utf8_chars_lower list_eq_iff_nth_eq list_all2_conv_all_nth eq_ignore_ascii_case_iff
    by auto
  finally show ?thesis .
qed

lemma utf8_chars_mem: "ch \<in> set (utf8_chars s) \<Longrightarrow> set ch \<subseteq> set s"
  by (metis concat_utf8_chars set_concat UN_upper)

lemma split_char_map_lower:
  "split_char (CHR ''/'') (to_ascii_lowercase s) = map to_ascii_lowercase (split_char (CHR ''/'') s)"
  by (induction s) (auto split: list.splits)

lemma nonempty_parts_lower:
  "nonempty_parts (CHR ''/'') (to_ascii_lowercase s)
     = map to_ascii_lowercase (nonempty_parts (CHR ''/'') s)"
  by (simp add: nonempty_parts_def split_char_map_lower filter_map comp_def)

section \<open>Replacement\<close>

text \<open>
  \<^verbatim>\<open>str::replace\<close> for a nonempty pattern: non-overlapping occurrences from left to right.
\<close>

function str_replace :: "bytes \<Rightarrow> bytes \<Rightarrow> bytes \<Rightarrow> bytes" where
  "str_replace p r [] = []"
| "str_replace p r (c # cs) =
     (if p \<noteq> [] \<and> prefix p (c # cs) then r @ str_replace p r (drop (length p - 1) cs)
      else c # str_replace p r cs)"
  by pat_completeness auto
termination
  by (relation "measure (\<lambda>(p, r, s). length s)") auto

text \<open>\<^verbatim>\<open>str::replacen(p, r, 1)\<close> for a nonempty pattern.\<close>

fun str_replace_first :: "bytes \<Rightarrow> bytes \<Rightarrow> bytes \<Rightarrow> bytes" where
  "str_replace_first p r [] = []"
| "str_replace_first p r (c # cs) =
     (if p \<noteq> [] \<and> prefix p (c # cs) then r @ drop (length p - 1) cs
      else c # str_replace_first p r cs)"

lemma str_replace_absent: "\<not> sublist p s \<Longrightarrow> str_replace p r s = s"
  by (induction p r s rule: str_replace.induct) (auto simp: sublist_Cons_right)

section \<open>Decimal integers\<close>

definition digit_char :: "nat \<Rightarrow> char" where
  "digit_char d = ''0123456789'' ! (d mod 10)"

fun show_nat :: "nat \<Rightarrow> bytes" where
  "show_nat n = (if n < 10 then [digit_char n] else show_nat (n div 10) @ [digit_char n])"

declare show_nat.simps [simp del]

text \<open>\<^verbatim>\<open>Display\<close> of an \<^verbatim>\<open>i32\<close>.\<close>

definition fmt_i32 :: "i32 \<Rightarrow> bytes" where
  "fmt_i32 n = (if n < 0 then CHR ''-'' # show_nat (nat (- n)) else show_nat (nat n))"

definition digit_val :: "char \<Rightarrow> nat" where
  "digit_val c = of_char c - 48"

definition digits_value :: "bytes \<Rightarrow> nat" where
  "digits_value ds = foldl (\<lambda>a c. 10 * a + digit_val c) 0 ds"

text \<open>\<^verbatim>\<open>str::parse::<i32>\<close>: an optional sign, at least one digit, in range.\<close>

definition parse_digits :: "bytes \<Rightarrow> nat option" where
  "parse_digits ds = (if ds \<noteq> [] \<and> list_all is_ascii_digit ds then Some (digits_value ds) else None)"

definition parse_i32 :: "bytes \<Rightarrow> i32 option" where
  "parse_i32 s =
     (let (neg, ds) = (case s of
          [] \<Rightarrow> (False, [])
        | c # cs \<Rightarrow> if c = CHR ''-'' then (True, cs) else if c = CHR ''+'' then (False, cs)
                    else (False, c # cs))
      in case parse_digits ds of
           None \<Rightarrow> None
         | Some n \<Rightarrow>
             (let v = (if neg then - int n else int n)
              in if in_i32 v then Some v else None))"

lemma digit_cases: "d < 10 \<Longrightarrow> d \<in> {0, 1, 2, 3, 4, 5, 6, 7, 8, 9 :: nat}"
  by auto

lemma digit_char_digit: "is_ascii_digit (digit_char d)"
  using digit_cases [of "d mod 10"]
  by (auto simp: digit_char_def is_ascii_digit_def)

lemma digit_val_digit_char: "digit_val (digit_char d) = d mod 10"
  using digit_cases [of "d mod 10"]
  by (auto simp: digit_char_def digit_val_def)

lemma show_nat_digits: "list_all is_ascii_digit (show_nat n)"
  by (induction n rule: show_nat.induct) (subst show_nat.simps, auto simp: digit_char_digit)

lemma show_nat_nonempty: "show_nat n \<noteq> []"
  by (subst show_nat.simps) simp

lemma digits_value_snoc: "digits_value (ds @ [c]) = 10 * digits_value ds + digit_val c"
  by (simp add: digits_value_def)

lemma digits_value_show_nat: "digits_value (show_nat n) = n"
proof (induction n rule: show_nat.induct)
  case (1 n)
  show ?case
  proof (cases "n < 10")
    case True
    then show ?thesis
      by (subst show_nat.simps) (simp add: digits_value_def digit_val_digit_char)
  next
    case False
    with 1 show ?thesis
      by (subst show_nat.simps) (simp add: digits_value_snoc digit_val_digit_char)
  qed
qed

lemma parse_digits_show_nat: "parse_digits (show_nat n) = Some n"
  by (simp add: parse_digits_def show_nat_nonempty show_nat_digits digits_value_show_nat)

lemma digit_not_sign: "is_ascii_digit c \<Longrightarrow> c \<noteq> CHR ''-'' \<and> c \<noteq> CHR ''+'' \<and> c \<noteq> CHR ''/''"
  by (auto simp: is_ascii_digit_def)

lemma fmt_i32_no_slash: "CHR ''/'' \<notin> set (fmt_i32 n)"
  using show_nat_digits [of "nat n"] show_nat_digits [of "nat (- n)"]
  by (auto simp: fmt_i32_def list_all_iff dest: digit_not_sign)

lemma fmt_i32_nonempty: "fmt_i32 n \<noteq> []"
  by (simp add: fmt_i32_def show_nat_nonempty)

lemma parse_show_nat:
  assumes "in_i32 (int n)"
  shows "parse_i32 (show_nat n) = Some (int n)"
proof -
  obtain c cs where s: "show_nat n = c # cs"
    using show_nat_nonempty by (cases "show_nat n") auto
  have "is_ascii_digit c" using show_nat_digits [of n] s by simp
  then have "c \<noteq> CHR ''-''" "c \<noteq> CHR ''+''" by (auto dest: digit_not_sign)
  with s parse_digits_show_nat [of n] assms show ?thesis
    by (simp add: parse_i32_def)
qed

lemma parse_fmt_i32: "in_i32 n \<Longrightarrow> parse_i32 (fmt_i32 n) = Some n"
proof (cases "n < 0")
  case True
  assume "in_i32 n"
  with True show ?thesis by (simp add: fmt_i32_def parse_i32_def parse_digits_show_nat)
next
  case False
  assume "in_i32 n"
  with False show ?thesis by (simp add: fmt_i32_def parse_show_nat)
qed

end
