(* ===== verification/Paths.thy ===== *)
theory Paths
  imports Rust_Str "HOL-Library.Product_Lexorder"
begin

text \<open>
  The pure path tools of \<^verbatim>\<open>src/platform/paths.rs\<close>: slash folding, dot-segment folding,
  case-insensitive ordering, containment tests, suffixes and joining. The alias-resolving and
  cached \<^verbatim>\<open>normalize\<close> is in \<^verbatim>\<open>Paths_Normalize\<close>.
\<close>

abbreviation slash :: char where
  "slash \<equiv> CHR ''/''"

section \<open>Model\<close>

definition DATA_MEDIA_PREFIX :: bytes where
  "DATA_MEDIA_PREFIX = ''/data/media/''"

definition STORAGE_EMULATED_PREFIX :: bytes where
  "STORAGE_EMULATED_PREFIX = ''/storage/emulated/''"

text \<open>The loop of \<^verbatim>\<open>collapse_redundant_slashes\<close>; the flag is \<^verbatim>\<open>is_last_slash\<close>.\<close>

fun collapse_slashes_loop :: "bool \<Rightarrow> bytes \<Rightarrow> bytes" where
  "collapse_slashes_loop is_last_slash [] = []"
| "collapse_slashes_loop is_last_slash (ch # rest) =
     (if ch = slash then
        (if is_last_slash then collapse_slashes_loop True rest
         else slash # collapse_slashes_loop True rest)
      else ch # collapse_slashes_loop False rest)"

definition collapse_redundant_slashes :: "bytes \<Rightarrow> bytes" where
  "collapse_redundant_slashes path =
     (let result = collapse_slashes_loop False path
      in if 1 < length result \<and> ends_with_str result ''/'' then butlast result else result)"

definition normalize_syntax :: "bytes \<Rightarrow> bytes" where
  "normalize_syntax path =
     (if \<not> contains_str path ''//'' \<and> (length path \<le> 1 \<or> \<not> ends_with_str path ''/'') then path
      else collapse_redundant_slashes path)"

definition dot_segment_step :: "bool \<Rightarrow> bytes list \<Rightarrow> bytes \<Rightarrow> bytes list" where
  "dot_segment_step is_abs segments segment =
     (if segment = [] \<or> segment = ''.'' then segments
      else if segment = ''..'' then
        (if segments \<noteq> [] \<and> last segments \<noteq> ''..'' then butlast segments
         else if is_abs then segments
         else segments @ [''..''])
      else segments @ [segment])"

definition collapse_dot_segments :: "bytes \<Rightarrow> bytes" where
  "collapse_dot_segments path =
     (let is_abs = starts_with_str path ''/'';
          segments = foldl (dot_segment_step is_abs) [] (split_char slash path)
      in (if is_abs then ''/'' else []) @ join_char slash segments)"

text \<open>
  The scan of \<^verbatim>\<open>has_unsafe_segments\<close> over the text that starts at \<^verbatim>\<open>start\<close>.
\<close>

function unsafe_segments_loop :: "bytes \<Rightarrow> bool" where
  "unsafe_segments_loop rest =
     (let segment = takeWhile (\<lambda>c. c \<noteq> slash) rest
      in if segment = ''.'' \<or> segment = ''..'' then True
         else case dropWhile (\<lambda>c. c \<noteq> slash) rest of
                [] \<Rightarrow> False
              | _ # rest' \<Rightarrow> unsafe_segments_loop rest')"
  by pat_completeness auto
termination
proof (relation "measure length")
  fix rest seg x y
  assume "dropWhile (\<lambda>c. c \<noteq> slash) rest = x # y"
  then have "length (x # y) \<le> length rest" by (metis length_dropWhile_le)
  then show "(y, rest) \<in> measure length" by simp
qed simp

declare unsafe_segments_loop.simps [simp del]

definition has_unsafe_segments :: "bytes \<Rightarrow> bool" where
  "has_unsafe_segments path = (path = [] \<or> unsafe_segments_loop path)"

definition needs_dot_segment_collapse :: "bytes \<Rightarrow> bool" where
  "needs_dot_segment_collapse path = (contains_char path CHR ''.'' \<and> has_unsafe_segments path)"

definition resolve_placeholders :: "bytes \<Rightarrow> bytes \<Rightarrow> bytes \<Rightarrow> bytes" where
  "resolve_placeholders path app_data_dir redirect_target =
     (let resolved = path;
          resolved = (if app_data_dir \<noteq> [] then
              str_replace ''$APP_DATA_DIR'' app_data_dir
                (str_replace ''${APP_DATA_DIR}'' app_data_dir resolved)
            else resolved)
      in if redirect_target \<noteq> [] then
           str_replace ''$REDIRECT_TARGET'' redirect_target
             (str_replace ''${REDIRECT_TARGET}'' redirect_target resolved)
         else resolved)"

definition match_key :: "bytes \<Rightarrow> bytes" where
  "match_key path = to_ascii_lowercase path"

definition eq_ignore_case :: "bytes \<Rightarrow> bytes \<Rightarrow> bool" where
  "eq_ignore_case left right = eq_ignore_ascii_case left right"

definition sort_dedup_paths_case_insensitive :: "bytes list \<Rightarrow> bytes list" where
  "sort_dedup_paths_case_insensitive ps =
     dedup_by eq_ignore_case (sort_key (\<lambda>a. (match_key a, a)) ps)"

definition sort_dedup_paths_longest_first_case_insensitive :: "bytes list \<Rightarrow> bytes list" where
  "sort_dedup_paths_longest_first_case_insensitive ps =
     dedup_by eq_ignore_case (sort_key (\<lambda>a. (- int (length a), match_key a, a)) ps)"

definition starts_with_ignore_case :: "bytes \<Rightarrow> bytes \<Rightarrow> bool" where
  "starts_with_ignore_case path pre =
     (length pre \<le> length path \<and> eq_ignore_ascii_case (take (length pre) path) pre)"

definition is_same_or_child :: "bytes \<Rightarrow> bytes \<Rightarrow> bool" where
  "is_same_or_child path root =
     (if path = [] \<or> root = [] then False
      else let root = trim_end_char slash root
           in eq_ignore_ascii_case path root
              \<or> (length root < length path \<and> get_byte path (length root) = Some slash
                 \<and> starts_with_ignore_case path root))"

definition child_suffix :: "bytes \<Rightarrow> bytes \<Rightarrow> bytes option" where
  "child_suffix path root =
     (if eq_ignore_ascii_case path root then Some []
      else if root = [] \<or> length path \<le> length root then None
      else if get_byte path (length root) \<noteq> Some slash \<or> \<not> starts_with_ignore_case path root
        then None
      else Some (drop (length root) path))"

definition is_child :: "bytes \<Rightarrow> bytes \<Rightarrow> bool" where
  "is_child path root =
     (case child_suffix path root of None \<Rightarrow> False | Some suff \<Rightarrow> suff \<noteq> [])"

definition relative_child_path :: "bytes \<Rightarrow> bytes \<Rightarrow> bytes option" where
  "relative_child_path path root =
     (case child_suffix path root of None \<Rightarrow> None | Some suff \<Rightarrow> strip_prefix suff ''/'')"

definition path_join :: "bytes \<Rightarrow> bytes \<Rightarrow> bytes" where
  "path_join base relative =
     (if base = [] then relative
      else if relative = [] then base
      else if starts_with_str relative ''/'' then relative
      else (if ends_with_str base ''/'' then base else base @ ''/'') @ relative)"

definition is_absolute :: "bytes \<Rightarrow> bool" where
  "is_absolute path = (path \<noteq> [] \<and> starts_with_str path ''/'')"

section \<open>Canonical absolute paths\<close>

abbreviation segs :: "bytes \<Rightarrow> bytes list" where
  "segs \<equiv> nonempty_parts slash"

text \<open>
  The normal form slash folding aims at: an absolute path that is exactly its nonempty components
  joined by single separators.
\<close>

definition canonical :: "bytes \<Rightarrow> bool" where
  "canonical p = (p = slash # join_char slash (segs p))"

lemma prefix_slash_iff [simp]: "prefix ''/'' p \<longleftrightarrow> p \<noteq> [] \<and> hd p = slash"
  by (cases p) auto

lemma sublist_slashes_Cons:
  "sublist ''//'' (x # s) \<longleftrightarrow> (x = slash \<and> s \<noteq> [] \<and> hd s = slash) \<or> sublist ''//'' s"
  by (cases s) (auto simp: sublist_Cons_right)

lemma join_char_eq_Nil:
  "(\<And>p. p \<in> set ps \<Longrightarrow> p \<noteq> []) \<Longrightarrow> join_char c ps = [] \<longleftrightarrow> ps = []"
  by (cases ps rule: list.exhaust; cases "tl ps") auto

lemma join_char_append:
  "ps \<noteq> [] \<Longrightarrow> qs \<noteq> [] \<Longrightarrow> join_char c (ps @ qs) = join_char c ps @ c # join_char c qs"
proof (induction c ps rule: join_char.induct)
  case (2 c x)
  then show ?case by (cases qs) auto
next
  case (3 c x y zs)
  then show ?case by simp
qed simp

lemma join_char_hd:
  "(\<And>p. p \<in> set ps \<Longrightarrow> p \<noteq> [] \<and> c \<notin> set p) \<Longrightarrow> ps \<noteq> [] \<Longrightarrow> hd (join_char c ps) \<noteq> c"
  by (cases ps rule: list.exhaust; cases "tl ps") (auto simp: hd_append dest: hd_in_set)

lemma join_char_last:
  "(\<And>p. p \<in> set ps \<Longrightarrow> p \<noteq> [] \<and> c \<notin> set p) \<Longrightarrow> ps \<noteq> [] \<Longrightarrow> last (join_char c ps) \<noteq> c"
proof (induction c ps rule: join_char.induct)
  case (2 c x)
  then show ?case using last_in_set by fastforce
next
  case (3 c x y zs)
  have "join_char c (y # zs) \<noteq> []"
    using 3(2) by (subst join_char_eq_Nil) auto
  then have "last (join_char c (x # y # zs)) = last (join_char c (y # zs))" by simp
  moreover have "last (join_char c (y # zs)) \<noteq> c" by (rule 3(1)) (use 3(2) in auto)
  ultimately show ?case by simp
qed simp

lemma no_double_slash_single: "slash \<notin> set x \<Longrightarrow> \<not> sublist ''//'' x"
  by (auto simp: sublist_def)

lemma no_double_slash_sep:
  "slash \<notin> set x \<Longrightarrow> \<not> sublist ''//'' s \<Longrightarrow> s = [] \<or> hd s \<noteq> slash \<Longrightarrow> \<not> sublist ''//'' (x @ slash # s)"
  by (induction x) (auto simp: sublist_slashes_Cons hd_append)

lemma join_char_no_double:
  "(\<And>p. p \<in> set ps \<Longrightarrow> p \<noteq> [] \<and> slash \<notin> set p) \<Longrightarrow> \<not> sublist ''//'' (join_char slash ps)"
proof (induction slash ps rule: join_char.induct)
  case (2 x)
  then show ?case by (simp add: no_double_slash_single)
next
  case (3 x y zs)
  have "hd (join_char slash (y # zs)) \<noteq> slash"
    by (rule join_char_hd) (use 3(2) in auto)
  then show ?case using 3 by (simp add: no_double_slash_sep)
qed simp

lemma join_segs_of_clean:
  "\<not> sublist ''//'' (slash # t) \<Longrightarrow> t = [] \<or> last t \<noteq> slash \<Longrightarrow> join_char slash (segs t) = t"
proof (induction t rule: length_induct)
  case (1 t)
  show ?case
  proof (cases "slash \<in> set t")
    case False
    then show ?thesis by (simp add: nonempty_parts_no_sep)
  next
    case True
    then obtain a b where t: "t = a @ slash # b" and a: "slash \<notin> set a"
      by (meson split_list_first)
    have a_ne: "a \<noteq> []" using 1(2) t by (auto simp: sublist_slashes_Cons)
    have b_ne: "b \<noteq> []" using 1(3) t by auto
    have "sublist (slash # b) (slash # t)" unfolding t by (simp add: sublist_append_rightI sublist_Cons_right)
    then have nb: "\<not> sublist ''//'' (slash # b)" using 1(2) by (metis sublist_order.order_trans)
    have "b = [] \<or> last b \<noteq> slash" using 1(3) t b_ne by auto
    with nb t have b: "join_char slash (segs b) = b" by (intro 1(1) [rule_format]) auto
    then have "segs b \<noteq> []" using b_ne by auto
    with b a a_ne t show ?thesis
      by (cases "segs b") (auto simp: nonempty_parts_append_sep nonempty_parts_no_sep)
  qed
qed

lemma canonical_iff:
  "canonical p \<longleftrightarrow>
     p \<noteq> [] \<and> hd p = slash \<and> \<not> sublist ''//'' p \<and> (p = ''/'' \<or> last p \<noteq> slash)"
proof
  assume c: "canonical p"
  let ?j = "join_char slash (segs p)"
  have p: "p = slash # ?j" using c by (simp add: canonical_def)
  have parts: "\<And>q. q \<in> set (segs p) \<Longrightarrow> q \<noteq> [] \<and> slash \<notin> set q"
    by (auto dest: nonempty_parts_mem)
  have "\<not> sublist ''//'' ?j" using parts by (rule join_char_no_double)
  moreover have "?j = [] \<or> hd ?j \<noteq> slash \<and> last ?j \<noteq> slash"
    using join_char_hd [OF parts] join_char_last [OF parts] by (cases "segs p = []") auto
  ultimately have "\<not> sublist ''//'' (slash # ?j) \<and> (?j = [] \<or> last ?j \<noteq> slash)"
    by (auto simp: sublist_slashes_Cons)
  then show "p \<noteq> [] \<and> hd p = slash \<and> \<not> sublist ''//'' p \<and> (p = ''/'' \<or> last p \<noteq> slash)"
    by (subst (1 2 3 4 5) p) auto
next
  assume "p \<noteq> [] \<and> hd p = slash \<and> \<not> sublist ''//'' p \<and> (p = ''/'' \<or> last p \<noteq> slash)"
  then obtain t where t: "p = slash # t" "\<not> sublist ''//'' (slash # t)" "t = [] \<or> last t \<noteq> slash"
    by (cases p) (auto split: if_splits)
  then show "canonical p" by (simp add: canonical_def join_segs_of_clean)
qed

lemma join_char_map_lower:
  "join_char slash (map to_ascii_lowercase ps) = to_ascii_lowercase (join_char slash ps)"
  by (induction slash ps rule: join_char.induct) (auto simp: ascii_lower_def is_ascii_upper_def)

lemma segs_lower [path_simps]: "segs (to_ascii_lowercase p) = map to_ascii_lowercase (segs p)"
  by (rule nonempty_parts_lower)

lemma canonical_lower: "canonical p \<Longrightarrow> canonical (to_ascii_lowercase p)"
  unfolding canonical_def segs_lower join_char_map_lower
  by (metis ascii_lower_slash to_ascii_lowercase_Cons)

lemma segs_join:
  "(\<And>p. p \<in> set ps \<Longrightarrow> p \<noteq> [] \<and> slash \<notin> set p) \<Longrightarrow> segs (slash # join_char slash ps) = ps"
proof (cases "ps = []")
  case False
  assume parts: "\<And>p. p \<in> set ps \<Longrightarrow> p \<noteq> [] \<and> slash \<notin> set p"
  then have "split_char slash (join_char slash ps) = ps"
    using False by (intro split_join_char) auto
  then show ?thesis using parts by (auto simp: nonempty_parts_def filter_id_conv)
qed simp

lemma canonical_join:
  "(\<And>p. p \<in> set ps \<Longrightarrow> p \<noteq> [] \<and> slash \<notin> set p) \<Longrightarrow> canonical (slash # join_char slash ps)"
  using segs_join [of ps] by (simp add: canonical_def)

lemma segs_inj: "canonical p \<Longrightarrow> canonical q \<Longrightarrow> segs p = segs q \<Longrightarrow> p = q"
  by (metis canonical_def)

section \<open>Containment\<close>

lemma starts_with_ignore_case_iff [path_simps]:
  "starts_with_ignore_case p r \<longleftrightarrow> prefix (to_ascii_lowercase r) (to_ascii_lowercase p)"
proof -
  have "prefix a b \<longleftrightarrow> length a \<le> length b \<and> take (length a) b = a" for a b :: bytes
    by (metis append_eq_conv_conj append_take_drop_id prefix_def prefix_length_le)
  then show ?thesis
    by (simp add: starts_with_ignore_case_def str_simps take_to_ascii_lowercase)
qed

lemma lower_nth_slash: "i < length p \<Longrightarrow> to_ascii_lowercase p ! i = slash \<longleftrightarrow> p ! i = slash"
  by (simp add: to_ascii_lowercase_def)

lemma below_root_iff:
  "length r < length p \<and> get_byte p (length r) = Some slash \<and> starts_with_ignore_case p r
     \<longleftrightarrow> prefix (to_ascii_lowercase r @ ''/'') (to_ascii_lowercase p)"
proof -
  have "prefix (a @ [c]) b \<longleftrightarrow> length a < length b \<and> b ! length a = c \<and> prefix a b" for a b :: bytes and c
  proof
    assume "prefix (a @ [c]) b"
    then obtain z where "b = (a @ [c]) @ z" by (auto simp: prefix_def)
    then show "length a < length b \<and> b ! length a = c \<and> prefix a b" by auto
  next
    assume *: "length a < length b \<and> b ! length a = c \<and> prefix a b"
    then obtain z where b: "b = a @ z" by (auto simp: prefix_def)
    with * obtain y where "z = c # y" by (cases z) auto
    with b show "prefix (a @ [c]) b" by simp
  qed
  then show ?thesis
    by (auto simp: get_byte_def path_simps lower_nth_slash)
qed

lemma is_same_or_child_iff [path_simps]:
  "is_same_or_child p root \<longleftrightarrow> p \<noteq> [] \<and> root \<noteq> [] \<and>
     (let r = to_ascii_lowercase (trim_end_char slash root)
      in to_ascii_lowercase p = r \<or> prefix (r @ ''/'') (to_ascii_lowercase p))"
  unfolding is_same_or_child_def by (auto simp: below_root_iff str_simps Let_def)

lemma child_suffix_eq:
  "child_suffix p root =
     (if to_ascii_lowercase p = to_ascii_lowercase root then Some []
      else if root \<noteq> [] \<and> prefix (to_ascii_lowercase root @ ''/'') (to_ascii_lowercase p)
        then Some (drop (length root) p) else None)"
  using below_root_iff [of root p] by (auto simp: child_suffix_def str_simps)

lemma child_suffix_Some:
  assumes "child_suffix p root = Some s"
  shows "\<exists>q. p = q @ s \<and> to_ascii_lowercase q = to_ascii_lowercase root \<and> (s = [] \<or> hd s = slash)"
proof (cases "to_ascii_lowercase p = to_ascii_lowercase root")
  case True
  with assms show ?thesis by (auto simp: child_suffix_eq)
next
  case False
  with assms have pre: "prefix (to_ascii_lowercase root @ ''/'') (to_ascii_lowercase p)"
    and s: "s = drop (length root) p" by (auto simp: child_suffix_eq split: if_splits)
  let ?q = "take (length root) p"
  from pre have len: "length root < length p" by (auto dest: prefix_length_le)
  from pre have "prefix (to_ascii_lowercase root) (to_ascii_lowercase p)"
    by (meson append_prefixD)
  then have "to_ascii_lowercase ?q = to_ascii_lowercase root"
    by (metis length_to_ascii_lowercase append_eq_conv_conj prefix_def take_to_ascii_lowercase)
  moreover have "hd s = slash"
    using pre below_root_iff [of root p] len
    by (auto simp: s get_byte_def hd_drop_conv_nth)
  ultimately show ?thesis using s by (intro exI [of _ ?q]) simp
qed

lemma child_suffix_append:
  assumes "to_ascii_lowercase q = to_ascii_lowercase root" and "root \<noteq> []" and "s = [] \<or> hd s = slash"
  shows "child_suffix (q @ s) root = Some s"
proof (cases s)
  case Nil
  with assms show ?thesis by (simp add: child_suffix_eq)
next
  case (Cons c s')
  have len: "length q = length root"
    using assms(1) by (metis length_to_ascii_lowercase)
  from Cons assms(3) have "c = slash" by simp
  with Cons assms len show ?thesis
    by (auto simp: child_suffix_eq ascii_lower_def is_ascii_upper_def)
qed

lemma child_suffix_Some_iff:
  "root \<noteq> [] \<Longrightarrow> child_suffix p root = Some s \<longleftrightarrow>
     (\<exists>q. p = q @ s \<and> to_ascii_lowercase q = to_ascii_lowercase root \<and> (s = [] \<or> hd s = slash))"
  using child_suffix_Some child_suffix_append by blast

lemma child_suffix_None_iff:
  "root \<noteq> [] \<Longrightarrow> child_suffix p root = None \<longleftrightarrow>
     to_ascii_lowercase p \<noteq> to_ascii_lowercase root
     \<and> \<not> prefix (to_ascii_lowercase root @ ''/'') (to_ascii_lowercase p)"
  by (simp add: child_suffix_eq)

lemma is_child_iff:
  "is_child p root \<longleftrightarrow> root \<noteq> [] \<and> prefix (to_ascii_lowercase root @ ''/'') (to_ascii_lowercase p)"
proof -
  have "\<not> prefix (a @ ''/'') b" if "b = a" for a b :: bytes
    using that by (auto dest: prefix_length_le)
  moreover have "length root < length p" if "prefix (to_ascii_lowercase root @ ''/'') (to_ascii_lowercase p)"
    using that by (auto dest: prefix_length_le)
  ultimately show ?thesis by (auto simp: is_child_def child_suffix_eq)
qed

text \<open>Component-wise reading of string containment.\<close>

lemma canonical_trim: "canonical r \<Longrightarrow> r \<noteq> ''/'' \<Longrightarrow> trim_end_char slash r = r"
  by (rule trim_end_char_id) (auto simp: canonical_iff)

lemma canonical_prefix_iff:
  assumes "canonical p" and "canonical r" and "r \<noteq> ''/''"
  shows "p = r \<or> prefix (r @ ''/'') p \<longleftrightarrow> prefix (segs r) (segs p)"
proof
  assume "p = r \<or> prefix (r @ ''/'') p"
  then show "prefix (segs r) (segs p)"
    by (auto simp: prefix_def nonempty_parts_append_sep)
next
  assume "prefix (segs r) (segs p)"
  then obtain t where t: "segs p = segs r @ t" by (auto simp: prefix_def)
  have r: "r = slash # join_char slash (segs r)" and p: "p = slash # join_char slash (segs r @ t)"
    using assms t by (simp_all add: canonical_def)
  have "segs r \<noteq> []" using r assms(3) by auto
  show "p = r \<or> prefix (r @ ''/'') p"
  proof (cases "t = []")
    case True
    with p r show ?thesis by simp
  next
    case False
    with p \<open>segs r \<noteq> []\<close>
    have "p = (slash # join_char slash (segs r)) @ slash # join_char slash t"
      by (simp add: join_char_append)
    then have "p = r @ slash # join_char slash t" by (simp only: r [symmetric])
    then show ?thesis by (simp add: prefix_def)
  qed
qed

lemma lower_eq_slash: "to_ascii_lowercase r = ''/'' \<longleftrightarrow> r = ''/''"
  by (cases r) auto

lemma is_same_or_child_segs:
  assumes "canonical p" and "canonical r" and "r \<noteq> ''/''"
  shows "is_same_or_child p r \<longleftrightarrow>
    prefix (map to_ascii_lowercase (segs r)) (map to_ascii_lowercase (segs p))"
proof -
  have "p \<noteq> []" "r \<noteq> []" using assms(1,2) by (auto simp: canonical_iff)
  then show ?thesis
    using canonical_prefix_iff [OF canonical_lower canonical_lower, of p r] assms
    by (simp add: path_simps canonical_trim lower_eq_slash Let_def)
qed

lemma is_child_segs:
  assumes "canonical p" and "canonical r" and "r \<noteq> ''/''"
  shows "is_child p r \<longleftrightarrow>
    strict_prefix (map to_ascii_lowercase (segs r)) (map to_ascii_lowercase (segs p))"
proof -
  have ne: "\<not> prefix (a @ ''/'') a" for a :: bytes by (auto dest: prefix_length_le)
  have "r \<noteq> []" using assms(2) by (auto simp: canonical_iff)
  then have "is_child p r \<longleftrightarrow> prefix (to_ascii_lowercase r @ ''/'') (to_ascii_lowercase p)"
    by (simp add: is_child_iff)
  also have "\<dots> \<longleftrightarrow> prefix (segs (to_ascii_lowercase r)) (segs (to_ascii_lowercase p))
      \<and> to_ascii_lowercase p \<noteq> to_ascii_lowercase r"
    using canonical_prefix_iff [OF canonical_lower canonical_lower, of p r] assms ne
    by (auto simp: lower_eq_slash)
  also have "to_ascii_lowercase p = to_ascii_lowercase r
      \<longleftrightarrow> segs (to_ascii_lowercase r) = segs (to_ascii_lowercase p)"
    using segs_inj [OF canonical_lower canonical_lower, of p r] assms by auto
  finally show ?thesis by (auto simp: segs_lower strict_prefix_def)
qed

section \<open>Slash folding\<close>

lemma collapse_loop_segs:
  "slash \<notin> set u \<Longrightarrow> (b \<longrightarrow> u = []) \<Longrightarrow> segs (u @ collapse_slashes_loop b s) = segs (u @ s)"
proof (induction b s arbitrary: u rule: collapse_slashes_loop.induct)
  case (2 b ch rest)
  show ?case
  proof (cases "ch = slash")
    case True
    with 2(1,2) [of "[]"] 2(4,5) show ?thesis
      by (auto simp: nonempty_parts_append_sep)
  next
    case False
    with 2(3) [of "u @ [ch]"] 2(4) show ?thesis by simp
  qed
qed simp

lemma collapse_loop_no_double:
  "\<not> sublist ''//'' (collapse_slashes_loop b s)
    \<and> (b \<longrightarrow> collapse_slashes_loop b s = [] \<or> hd (collapse_slashes_loop b s) \<noteq> slash)"
  by (induction b s rule: collapse_slashes_loop.induct) (auto simp: sublist_slashes_Cons)

lemma collapse_loop_hd: "s \<noteq> [] \<Longrightarrow> collapse_slashes_loop False s \<noteq> [] \<and> hd (collapse_slashes_loop False s) = hd s"
  by (cases s) auto

lemma segs_snoc_slash: "segs (s @ [slash]) = segs s"
  using nonempty_parts_append_sep [of slash s "[]"] by simp

lemma normalize_syntax_facts:
  assumes "p \<noteq> []"
  defines "r \<equiv> normalize_syntax p"
  shows "r \<noteq> [] \<and> hd r = hd p \<and> segs r = segs p \<and> \<not> sublist ''//'' r
    \<and> (r = ''/'' \<or> last r \<noteq> slash)"
proof (cases "\<not> contains_str p ''//'' \<and> (length p \<le> 1 \<or> \<not> ends_with_str p ''/'')")
  case True
  then have "r = p" by (simp add: r_def normalize_syntax_def)
  moreover have "p = ''/'' \<or> last p \<noteq> slash"
    using True assms(1) by (cases p; cases "tl p") (auto simp: ends_with_single)
  ultimately show ?thesis using True assms(1) by (simp add: str_simps)
next
  case False
  let ?c = "collapse_slashes_loop False p"
  note hd = collapse_loop_hd [OF assms(1)]
  have sg: "segs ?c = segs p" using collapse_loop_segs [of "[]" False p] by simp
  have nd: "\<not> sublist ''//'' ?c" using collapse_loop_no_double [of False p] by simp
  have r: "r = (if 1 < length ?c \<and> last ?c = slash then butlast ?c else ?c)"
    using False hd by (auto simp: r_def normalize_syntax_def collapse_redundant_slashes_def Let_def
        ends_with_single)
  show ?thesis
  proof (cases "1 < length ?c \<and> last ?c = slash")
    case True
    then obtain x ys where c: "?c = x # ys @ [slash]"
      by (cases ?c; cases "tl ?c" rule: rev_cases) auto
    have "r = x # ys" using True r c by simp
    moreover have "\<not> sublist ''//'' (x # ys)"
      using nd unfolding c by (metis append_Cons sublist_append_rightI sublist_order.order_trans)
    moreover have "last (x # ys) \<noteq> slash"
    proof
      assume "last (x # ys) = slash"
      then obtain zs where "x # ys = zs @ [slash]"
        by (metis append_butlast_last_id list.distinct(1))
      then have "?c = zs @ ''//''" using c by (metis append_Cons append_assoc append_Nil)
      then show False using nd by (simp add: sublist_append_leftI)
    qed
    moreover have "segs (x # ys) = segs p"
      using sg c segs_snoc_slash [of "x # ys"] by simp
    ultimately show ?thesis using hd c by auto
  next
    case False
    then have "r = ?c" using r by auto
    moreover have "?c = ''/'' \<or> last ?c \<noteq> slash"
      using False hd by (cases ?c; cases "tl ?c") auto
    ultimately show ?thesis using hd sg nd by simp
  qed
qed

lemma normalize_syntax_nil [simp]: "normalize_syntax [] = []"
  by (simp add: normalize_syntax_def)

lemma normalize_syntax_abs: "p \<noteq> [] \<Longrightarrow> hd p = slash \<Longrightarrow> canonical (normalize_syntax p)"
  using normalize_syntax_facts [of p] by (simp add: canonical_iff)

text \<open>
  Slash folding is exactly re-joining the nonempty components with single separators, with
  a leading separator kept for an absolute path: no component is lost, reordered or changed, and
  neither a double nor a trailing separator survives.
\<close>

theorem normalize_syntax_joins_components:
  "normalize_syntax p =
     (if p \<noteq> [] \<and> hd p = slash then ''/'' else []) @ join_char slash (nonempty_parts slash p)"
proof (cases "p = []")
  case False
  let ?r = "normalize_syntax p"
  note facts = normalize_syntax_facts [OF False]
  show ?thesis
  proof (cases "hd p = slash")
    case True
    with False have "?r = slash # join_char slash (segs ?r)"
      using normalize_syntax_abs by (simp add: canonical_def)
    with True False facts show ?thesis by simp
  next
    case f: False
    with facts have "\<not> sublist ''//'' (slash # ?r)" by (simp add: sublist_slashes_Cons)
    moreover have "?r = [] \<or> last ?r \<noteq> slash" using facts f by auto
    ultimately have "join_char slash (segs ?r) = ?r" by (rule join_segs_of_clean)
    with f facts show ?thesis by simp
  qed
qed simp

section \<open>Dot segments\<close>

lemma unsafe_segments_loop_iff:
  "unsafe_segments_loop s \<longleftrightarrow> ''.'' \<in> set (split_char slash s) \<or> ''..'' \<in> set (split_char slash s)"
proof (induction s rule: unsafe_segments_loop.induct)
  case (1 s)
  show ?case
  proof (cases "slash \<in> set s")
    case False
    then have t: "takeWhile (\<lambda>c. c \<noteq> slash) s = s" and d: "dropWhile (\<lambda>c. c \<noteq> slash) s = []"
      by (auto simp: takeWhile_eq_all_conv dropWhile_eq_Nil_conv)
    from False have "split_char slash s = [s]" by (rule split_char_no_sep)
    then show ?thesis
      by (simp add: unsafe_segments_loop.simps [of s] t d) blast
  next
    case True
    then obtain h rest where s: "s = h @ slash # rest" and h: "slash \<notin> set h"
      by (meson split_list_first)
    then have t: "takeWhile (\<lambda>c. c \<noteq> slash) s = h"
      and d: "dropWhile (\<lambda>c. c \<noteq> slash) s = slash # rest"
      by auto
    have "split_char slash s = h # split_char slash rest"
      using h by (simp add: s split_char_append_sep split_char_no_sep)
    then show ?thesis
      using 1 [OF refl _ d] by (simp add: unsafe_segments_loop.simps [of s] t d) blast
  qed
qed

lemma has_unsafe_segments_iff:
  "has_unsafe_segments p \<longleftrightarrow> p = [] \<or> ''.'' \<in> set (segs p) \<or> ''..'' \<in> set (segs p)"
  by (auto simp: has_unsafe_segments_def unsafe_segments_loop_iff nonempty_parts_def)

text \<open>
  POSIX resolution of a component list from a directory, without symbolic links: the parent of the
  root is the root.
\<close>

fun resolve_walk :: "bytes list \<Rightarrow> bytes list \<Rightarrow> bytes list" where
  "resolve_walk cwd [] = cwd"
| "resolve_walk cwd (s # ss) =
     resolve_walk (if s = [] \<or> s = ''.'' then cwd else if s = ''..'' then butlast cwd else cwd @ [s]) ss"

definition plain_segment :: "bytes \<Rightarrow> bool" where
  "plain_segment s \<longleftrightarrow> s \<noteq> [] \<and> s \<noteq> ''.'' \<and> s \<noteq> ''..'' \<and> slash \<notin> set s"

lemma dot_fold_walk:
  "list_all plain_segment acc \<Longrightarrow> (\<And>s. s \<in> set ss \<Longrightarrow> slash \<notin> set s) \<Longrightarrow>
     foldl (dot_segment_step True) acc ss = resolve_walk acc ss \<and> list_all plain_segment (resolve_walk acc ss)"
proof (induction ss arbitrary: acc)
  case (Cons s ss)
  let ?acc = "if s = [] \<or> s = ''.'' then acc else if s = ''..'' then butlast acc else acc @ [s]"
  have "list_all plain_segment ?acc"
    using Cons.prems by (auto simp: list_all_iff plain_segment_def dest: in_set_butlastD)
  moreover have "acc \<noteq> [] \<Longrightarrow> last acc \<noteq> ''..''"
    using Cons.prems(1) last_in_set [of acc] by (auto simp: list_all_iff plain_segment_def)
  then have "dot_segment_step True acc s = ?acc"
    by (cases "acc = []") (simp_all add: dot_segment_step_def)
  ultimately show ?case using Cons.IH [of ?acc] Cons.prems(2) by simp
qed simp

lemma collapse_dot_join:
  assumes "is_absolute p"
  shows "collapse_dot_segments p = slash # join_char slash (resolve_walk [] (split_char slash p))
    \<and> list_all plain_segment (resolve_walk [] (split_char slash p))
    \<and> segs (collapse_dot_segments p) = resolve_walk [] (split_char slash p)"
proof -
  let ?w = "resolve_walk [] (split_char slash p)"
  have fold: "foldl (dot_segment_step True) [] (split_char slash p) = ?w"
    and plain: "list_all plain_segment ?w"
    using dot_fold_walk [of "[]" "split_char slash p"] by (auto dest: split_char_pieces)
  have c: "collapse_dot_segments p = slash # join_char slash ?w"
    using assms fold by (simp add: collapse_dot_segments_def is_absolute_def str_simps)
  have "segs (slash # join_char slash ?w) = ?w"
    by (rule segs_join) (use plain in \<open>auto simp: list_all_iff plain_segment_def\<close>)
  with c plain show ?thesis by simp
qed

lemma resolve_walk_plain:
  "''.'' \<notin> set ss \<Longrightarrow> ''..'' \<notin> set ss \<Longrightarrow> resolve_walk cwd ss = cwd @ filter (\<lambda>s. s \<noteq> []) ss"
  by (induction ss arbitrary: cwd) auto

lemma resolve_walk_safe: "\<not> has_unsafe_segments p \<Longrightarrow> resolve_walk [] (split_char slash p) = segs p"
  by (subst resolve_walk_plain) (auto simp: has_unsafe_segments_def unsafe_segments_loop_iff nonempty_parts_def)

text \<open>
  For an absolute path, dot folding yields the canonical path of the directory the kernel's
  component walk reaches: the components of the result are the walk's, no \<^verbatim>\<open>.\<close> or \<^verbatim>\<open>..\<close>
  segment remains (so a rule match on the result sees the path that is really opened), and the
  result is in normal form.
\<close>

theorem collapse_dot_segments_resolves:
  assumes "is_absolute p"
  shows "nonempty_parts slash (collapse_dot_segments p) = resolve_walk [] (split_char slash p)
    \<and> \<not> has_unsafe_segments (collapse_dot_segments p) \<and> canonical (collapse_dot_segments p)"
proof -
  note join = collapse_dot_join [OF assms]
  have c: "collapse_dot_segments p = slash # join_char slash (resolve_walk [] (split_char slash p))"
    and sg: "segs (collapse_dot_segments p) = resolve_walk [] (split_char slash p)"
    and plain: "list_all plain_segment (resolve_walk [] (split_char slash p))" using join by blast+
  have "canonical (collapse_dot_segments p)" unfolding canonical_def sg by (rule c)
  moreover have "\<not> has_unsafe_segments (collapse_dot_segments p)"
    unfolding has_unsafe_segments_iff sg using plain c by (auto simp: list_all_iff plain_segment_def)
  ultimately show ?thesis using sg by blast
qed

theorem collapse_dot_segments_resolves_witness:
  "is_absolute ''/a/../b/./c'' \<and> nonempty_parts slash (collapse_dot_segments ''/a/../b/./c'') = [''b'', ''c'']
    \<and> \<not> has_unsafe_segments (collapse_dot_segments ''/a/../b/./c'')"
proof -
  have "is_absolute ''/a/../b/./c''" by (simp add: is_absolute_def str_simps)
  from collapse_dot_segments_resolves [OF this] this show ?thesis by simp
qed

end
