(* ===== verification/Paths_Alias.thy ===== *)
theory Paths_Alias
  imports Paths
begin

text \<open>
  \<^verbatim>\<open>src/platform/paths_alias.rs\<close>: the other names Android gives to shared storage and their
  resolution to \<^verbatim>\<open>/storage/emulated/<user>\<close>.
\<close>

section \<open>Model\<close>

definition all_digits :: "bytes \<Rightarrow> bool" where
  "all_digits s = list_all is_ascii_digit s"

definition has_potential_storage_alias :: "bytes \<Rightarrow> bool" where
  "has_potential_storage_alias path =
     (starts_with_str path ''/sdcard'' \<or> starts_with_str path ''/storage/self/primary''
      \<or> starts_with_str path ''/mnt/'' \<or> starts_with_str path DATA_MEDIA_PREFIX)"

definition resolve_sdcard_alias :: "bytes \<Rightarrow> bytes" where
  "resolve_sdcard_alias path =
     (case strip_prefix path ''/sdcard'' of
        Some suff \<Rightarrow> ''/storage/emulated/0'' @ suff
      | None \<Rightarrow> path)"

definition resolve_self_primary_alias :: "bytes \<Rightarrow> bytes" where
  "resolve_self_primary_alias path =
     (case strip_prefix path ''/storage/self/primary'' of
        Some suff \<Rightarrow> ''/storage/emulated/0'' @ suff
      | None \<Rightarrow> path)"

definition resolve_mnt_user_primary_alias :: "bytes \<Rightarrow> bytes" where
  "resolve_mnt_user_primary_alias path =
     (case strip_prefix path ''/mnt/user/'' of
        None \<Rightarrow> path
      | Some rest \<Rightarrow>
          (case find_char slash rest of
             None \<Rightarrow> path
           | Some user_end \<Rightarrow>
               if user_end = 0 then path
               else if \<not> all_digits (take user_end rest) then path
               else (case strip_prefix (drop user_end rest) ''/primary'' of
                       None \<Rightarrow> path
                     | Some tail \<Rightarrow> ''/storage/emulated/'' @ take user_end rest @ tail)))"

text \<open>
  The common tail of the three \<^verbatim>\<open>.../emulated/<user>\<close> resolvers: \<open>rest\<close> starts at the user
  segment, which must be a nonempty digit string.
\<close>

definition resolve_user_tail :: "bytes \<Rightarrow> bytes \<Rightarrow> bytes" where
  "resolve_user_tail path rest =
     (let user_end = (case find_char slash rest of Some idx \<Rightarrow> idx | None \<Rightarrow> length rest)
      in if user_end = 0 then path
         else if \<not> all_digits (take user_end rest) then path
         else if user_end = length rest then ''/storage/emulated/'' @ take user_end rest
         else ''/storage/emulated/'' @ take user_end rest @ drop user_end rest)"

definition resolve_mnt_runtime_alias :: "bytes \<Rightarrow> bytes" where
  "resolve_mnt_runtime_alias path =
     (case strip_prefix path ''/mnt/runtime/'' of
        None \<Rightarrow> path
      | Some rest \<Rightarrow>
          (case find_char slash rest of
             None \<Rightarrow> path
           | Some tier_end \<Rightarrow>
               if take tier_end rest \<notin> {''default'', ''read'', ''write'', ''full''} then path
               else (case strip_prefix (drop tier_end rest) ''/emulated/'' of
                       None \<Rightarrow> path
                     | Some user_rest \<Rightarrow> resolve_user_tail path user_rest)))"

definition MNT_EMULATED_PREFIXES :: "bytes list" where
  "MNT_EMULATED_PREFIXES =
     [''/mnt/user/'', ''/mnt/installer/'', ''/mnt/androidwritable/'', ''/mnt/pass_through/'']"

definition resolve_mnt_emulated_alias :: "bytes \<Rightarrow> bytes" where
  "resolve_mnt_emulated_alias path =
     (case find (\<lambda>pre. starts_with_str path pre) MNT_EMULATED_PREFIXES of
        None \<Rightarrow> path
      | Some pre \<Rightarrow>
          (let rest = drop (length pre) path
           in case find_char slash rest of
                None \<Rightarrow> path
              | Some owner_end \<Rightarrow>
                  if owner_end = 0 then path
                  else if \<not> all_digits (take owner_end rest) then path
                  else (case strip_prefix (drop owner_end rest) ''/emulated/'' of
                          None \<Rightarrow> path
                        | Some user_rest \<Rightarrow> resolve_user_tail path user_rest)))"

definition resolve_data_media_alias :: "bytes \<Rightarrow> bytes" where
  "resolve_data_media_alias path =
     (case strip_prefix path ''/data/media/'' of
        None \<Rightarrow> path
      | Some rest \<Rightarrow> resolve_user_tail path rest)"

definition resolve_storage_alias :: "bytes \<Rightarrow> bytes" where
  "resolve_storage_alias path =
     (if starts_with_str path ''/sdcard'' then resolve_sdcard_alias path
      else if starts_with_str path ''/storage/self/primary'' then resolve_self_primary_alias path
      else if starts_with_str path ''/mnt/runtime/'' then resolve_mnt_runtime_alias path
      else if starts_with_str path ''/mnt/user/'' then
        (let primary = resolve_mnt_user_primary_alias path
         in if primary \<noteq> path then primary else resolve_mnt_emulated_alias path)
      else if starts_with_str path ''/mnt/installer/'' \<or> starts_with_str path ''/mnt/androidwritable/''
           \<or> starts_with_str path ''/mnt/pass_through/'' then resolve_mnt_emulated_alias path
      else if starts_with_str path DATA_MEDIA_PREFIX then resolve_data_media_alias path
      else path)"

section \<open>Shape of a resolved alias\<close>

text \<open>
  Every resolver either returns its argument or moves a tail of it below
  \<^verbatim>\<open>/storage/emulated/<digits>\<close>.
\<close>

definition alias_moved :: "bytes \<Rightarrow> bytes \<Rightarrow> bool" where
  "alias_moved path r \<longleftrightarrow>
     (\<exists>user tail pre. r = ''/storage/emulated/'' @ user @ tail \<and> user \<noteq> [] \<and> all_digits user
        \<and> pre \<noteq> [] \<and> path = pre @ tail)"

lemma alias_movedI:
  "user \<noteq> [] \<Longrightarrow> all_digits user \<Longrightarrow> path = pre @ tail \<Longrightarrow> pre \<noteq> [] \<Longrightarrow>
     alias_moved path (''/storage/emulated/'' @ user @ tail)"
  unfolding alias_moved_def by blast

lemma all_digits_zero [simp]: "all_digits ''0''"
  by (simp add: all_digits_def is_ascii_digit_def)

lemma all_digits_no_slash: "all_digits u \<Longrightarrow> slash \<notin> set u"
  by (auto simp: all_digits_def list_all_iff dest: digit_not_sign)

lemma sdcard_alias_shape: "resolve_sdcard_alias path = path \<or> alias_moved path (resolve_sdcard_alias path)"
proof (cases "strip_prefix path ''/sdcard''")
  case (Some suff)
  then have "path = ''/sdcard'' @ suff" by (simp add: str_simps)
  from alias_movedI [of "''0''", OF _ _ this] Some show ?thesis
    by (simp add: resolve_sdcard_alias_def)
qed (simp add: resolve_sdcard_alias_def)

lemma self_primary_alias_shape:
  "resolve_self_primary_alias path = path \<or> alias_moved path (resolve_self_primary_alias path)"
proof (cases "strip_prefix path ''/storage/self/primary''")
  case (Some suff)
  then have "path = ''/storage/self/primary'' @ suff" by (simp add: str_simps)
  from alias_movedI [of "''0''", OF _ _ this] Some show ?thesis
    by (simp add: resolve_self_primary_alias_def)
qed (simp add: resolve_self_primary_alias_def)

lemma user_tail_shape:
  assumes "path = pre @ rest" and "pre \<noteq> []"
  shows "resolve_user_tail path rest = path \<or> alias_moved path (resolve_user_tail path rest)"
proof -
  define n where "n = (case find_char slash rest of Some idx \<Rightarrow> idx | None \<Rightarrow> length rest)"
  have path: "path = (pre @ take n rest) @ drop n rest" using assms(1) by simp
  have r: "resolve_user_tail path rest =
      (if n = 0 \<or> \<not> all_digits (take n rest) then path
       else ''/storage/emulated/'' @ take n rest @ drop n rest)"
    by (auto simp: resolve_user_tail_def n_def Let_def)
  show ?thesis
  proof (cases "n = 0 \<or> \<not> all_digits (take n rest)")
    case True
    then show ?thesis using r by simp
  next
    case False
    then have "take n rest \<noteq> []" by (cases rest) (auto simp: n_def)
    with False assms(2) have "alias_moved path (''/storage/emulated/'' @ take n rest @ drop n rest)"
      by (intro alias_movedI [OF _ _ path]) auto
    with False r show ?thesis by simp
  qed
qed

lemma user_primary_alias_shape:
  "resolve_mnt_user_primary_alias path = path \<or> alias_moved path (resolve_mnt_user_primary_alias path)"
proof (rule disjCI)
  assume moved: "\<not> alias_moved path (resolve_mnt_user_primary_alias path)"
  show "resolve_mnt_user_primary_alias path = path"
  proof (rule ccontr)
    assume ne: "resolve_mnt_user_primary_alias path \<noteq> path"
    then obtain rest n tail where rest: "path = ''/mnt/user/'' @ rest"
      and n: "find_char slash rest = Some n" "n \<noteq> 0" "all_digits (take n rest)"
      and tail: "drop n rest = ''/primary'' @ tail"
      and eq: "resolve_mnt_user_primary_alias path = ''/storage/emulated/'' @ take n rest @ tail"
      by (auto simp: resolve_mnt_user_primary_alias_def str_simps split: option.splits if_splits)
    have "path = (''/mnt/user/'' @ take n rest @ ''/primary'') @ tail"
      using rest tail by (metis append.assoc append_take_drop_id)
    moreover have "take n rest \<noteq> []" using n by (auto simp: find_char_Some)
    ultimately have "alias_moved path (''/storage/emulated/'' @ take n rest @ tail)"
      using n(3) by (intro alias_movedI) auto
    then show False using moved eq by simp
  qed
qed

lemma runtime_alias_shape:
  "resolve_mnt_runtime_alias path = path \<or> alias_moved path (resolve_mnt_runtime_alias path)"
proof (cases "strip_prefix path ''/mnt/runtime/''")
  case None
  then show ?thesis by (simp add: resolve_mnt_runtime_alias_def)
next
  case (Some rest)
  then have path: "path = ''/mnt/runtime/'' @ rest" by (simp add: str_simps)
  have "resolve_user_tail path u = path \<or> alias_moved path (resolve_user_tail path u)"
    if "drop n rest = ''/emulated/'' @ u" for n u
  proof (rule user_tail_shape [of _ "''/mnt/runtime/'' @ take n rest @ ''/emulated/''"])
    show "path = (''/mnt/runtime/'' @ take n rest @ ''/emulated/'') @ u"
      using that path by (metis append.assoc append_take_drop_id)
  qed simp
  then show ?thesis
    using Some by (auto simp: resolve_mnt_runtime_alias_def str_simps split: option.splits)
qed

lemma emulated_alias_shape:
  "resolve_mnt_emulated_alias path = path \<or> alias_moved path (resolve_mnt_emulated_alias path)"
proof (cases "find (\<lambda>pre. starts_with_str path pre) MNT_EMULATED_PREFIXES")
  case None
  then show ?thesis by (simp add: resolve_mnt_emulated_alias_def)
next
  case (Some pre)
  let ?rest = "drop (length pre) path"
  from Some have "starts_with_str path pre" by (auto simp: find_Some_iff)
  then have path: "path = pre @ ?rest"
    by (auto simp: str_simps prefix_def)
  have "resolve_user_tail path u = path \<or> alias_moved path (resolve_user_tail path u)"
    if "drop n ?rest = ''/emulated/'' @ u" for n u
  proof (rule user_tail_shape [of _ "pre @ take n ?rest @ ''/emulated/''"])
    show "path = (pre @ take n ?rest @ ''/emulated/'') @ u"
      using that path by (metis append.assoc append_take_drop_id)
  qed simp
  then show ?thesis
    using Some by (auto simp: resolve_mnt_emulated_alias_def Let_def str_simps split: option.splits)
qed

lemma data_media_alias_shape:
  "resolve_data_media_alias path = path \<or> alias_moved path (resolve_data_media_alias path)"
proof (cases "strip_prefix path ''/data/media/''")
  case (Some rest)
  then have "path = ''/data/media/'' @ rest" by (simp add: str_simps)
  from user_tail_shape [OF this] Some show ?thesis by (simp add: resolve_data_media_alias_def)
qed (simp add: resolve_data_media_alias_def)

lemmas alias_shapes =
  sdcard_alias_shape self_primary_alias_shape user_primary_alias_shape runtime_alias_shape
  emulated_alias_shape data_media_alias_shape

lemma resolve_storage_alias_shape:
  "resolve_storage_alias path = path \<or> alias_moved path (resolve_storage_alias path)"
  unfolding resolve_storage_alias_def Let_def using alias_shapes [of path] by auto

lemma resolve_storage_alias_id: "\<not> has_potential_storage_alias path \<Longrightarrow> resolve_storage_alias path = path"
  by (auto simp: has_potential_storage_alias_def resolve_storage_alias_def str_simps prefix_def)

lemma no_double_append:
  "\<not> sublist ''//'' a \<Longrightarrow> \<not> sublist ''//'' b \<Longrightarrow> a = [] \<or> last a \<noteq> slash \<Longrightarrow> \<not> sublist ''//'' (a @ b)"
  by (induction a) (auto simp: sublist_slashes_Cons hd_append split: if_splits)

lemma alias_moved_canonical:
  assumes "canonical path" and "alias_moved path r"
  shows "canonical r \<and> \<not> has_potential_storage_alias r"
proof -
  from assms(2) obtain u t pre where r: "r = ''/storage/emulated/'' @ u @ t" and u: "u \<noteq> []"
    "all_digits u" and path: "path = pre @ t" and pre: "pre \<noteq> []"
    unfolding alias_moved_def by blast
  have "sublist t path" by (simp add: path)
  with assms(1) have t: "\<not> sublist ''//'' t"
    by (metis canonical_iff sublist_order.order_trans)
  have us: "slash \<notin> set u" using u(2) by (rule all_digits_no_slash)
  then have lu: "last u \<noteq> slash" using u(1) by (metis last_in_set)
  have "\<not> sublist ''//'' (''/storage/emulated/'' @ u)"
    using us u(1) no_double_slash_single [OF us]
    by (cases u) (auto simp: sublist_slashes_Cons)
  then have "\<not> sublist ''//'' r"
    using no_double_append [of "''/storage/emulated/'' @ u" t] t lu u(1) r by simp
  moreover have "t = [] \<or> last t \<noteq> slash"
    using assms(1) path pre by (cases pre) (auto simp: canonical_iff)
  ultimately have "canonical r"
    using r lu u(1) by (auto simp: canonical_iff last_append split: if_splits)
  moreover have "\<not> has_potential_storage_alias r"
    by (simp add: r has_potential_storage_alias_def starts_with_str_def DATA_MEDIA_PREFIX_def)
  ultimately show ?thesis by simp
qed

end
