(* ===== verification/Lru_Cache.thy ===== *)
theory Lru_Cache
  imports Prelude
begin

text \<open>
  \<^verbatim>\<open>src/platform/lru_cache.rs\<close>: the bounded least-recently-used cache, its invariant, its
  refinement of a recency list, and the interface \<open>memo_cache\<close> under which the path
  normaliser and the monitor filter memoise their results.
\<close>

section \<open>Model\<close>

record ('k, 'v) lru_cache =
  capacity :: nat
  entries :: "('k \<times> 'v) list"
  order :: "'k list"

definition lru_new :: "nat \<Rightarrow> ('k, 'v) lru_cache" where
  "lru_new cap = \<lparr>capacity = cap, entries = [], order = []\<rparr>"

definition lru_get :: "'k \<Rightarrow> ('k, 'v) lru_cache \<Rightarrow> 'v option \<times> ('k, 'v) lru_cache" where
  "lru_get k c =
     (case map_of (entries c) k of
        None \<Rightarrow> (None, c)
      | Some v \<Rightarrow> (Some v, c\<lparr>order := filter (\<lambda>item. item \<noteq> k) (order c) @ [k]\<rparr>))"

text \<open>The eviction loop: pop the oldest key while the map exceeds the capacity.\<close>

fun lru_evict_loop :: "nat \<Rightarrow> ('k \<times> 'v) list \<Rightarrow> 'k list \<Rightarrow> ('k \<times> 'v) list \<times> 'k list" where
  "lru_evict_loop cap es [] = (es, [])"
| "lru_evict_loop cap es (oldest # rest) =
     (if cap < length es then lru_evict_loop cap (AList.delete oldest es) rest
      else (es, oldest # rest))"

definition lru_insert :: "'k \<Rightarrow> 'v \<Rightarrow> ('k, 'v) lru_cache \<Rightarrow> ('k, 'v) lru_cache" where
  "lru_insert k v c =
     (let es = AList.update k v (entries c);
          ord = filter (\<lambda>item. item \<noteq> k) (order c) @ [k];
          (es', ord') = lru_evict_loop (capacity c) es ord
      in c\<lparr>entries := es', order := ord'\<rparr>)"

definition lru_clear :: "('k, 'v) lru_cache \<Rightarrow> ('k, 'v) lru_cache" where
  "lru_clear c = c\<lparr>entries := [], order := []\<rparr>"

section \<open>Invariant and abstraction\<close>

text \<open>The recency queue lists exactly the stored keys, each once.\<close>

definition lru_consistent :: "('k \<times> 'v) list \<Rightarrow> 'k list \<Rightarrow> bool" where
  "lru_consistent es ord \<longleftrightarrow> distinct (keys_of es) \<and> distinct ord \<and> set ord = set (keys_of es)"

definition lru_invar :: "('k, 'v) lru_cache \<Rightarrow> bool" where
  "lru_invar c \<longleftrightarrow> lru_consistent (entries c) (order c) \<and> length (entries c) \<le> capacity c"

definition lru_content :: "('k, 'v) lru_cache \<Rightarrow> 'k \<Rightarrow> 'v option" where
  "lru_content c = map_of (entries c)"

text \<open>The abstract cache: key/value pairs from the least to the most recently used.\<close>

definition lru_abs :: "('k, 'v) lru_cache \<Rightarrow> ('k \<times> 'v) list" where
  "lru_abs c = map (\<lambda>k. (k, the (map_of (entries c) k))) (order c)"

definition touch :: "'k \<Rightarrow> 'v \<Rightarrow> ('k \<times> 'v) list \<Rightarrow> ('k \<times> 'v) list" where
  "touch k v xs = filter (\<lambda>p. fst p \<noteq> k) xs @ [(k, v)]"

lemma lru_consistent_length: "lru_consistent es ord \<Longrightarrow> length es = length ord"
  unfolding lru_consistent_def by (metis distinct_card length_map)

lemma lru_consistent_touch:
  "lru_consistent es ord \<Longrightarrow>
     lru_consistent (AList.update k v es) (filter (\<lambda>item. item \<noteq> k) ord @ [k])"
  by (auto simp: lru_consistent_def distinct_update dom_update)

lemma lru_consistent_pop:
  assumes "lru_consistent es (x # ord)"
  shows "lru_consistent (AList.delete x es) ord"
  using assms unfolding lru_consistent_def
  by (auto simp: delete_keys distinct_removeAll)

lemma lru_evict_loop_spec:
  assumes "lru_consistent es ord" and "lru_evict_loop cap es ord = (es', ord')"
  shows "lru_consistent es' ord' \<and> length es' \<le> cap \<and> ord' = drop (length ord - cap) ord
    \<and> (\<forall>k \<in> set ord'. map_of es' k = map_of es k)"
  using assms
proof (induction cap es ord rule: lru_evict_loop.induct)
  case (1 cap es)
  then show ?case using lru_consistent_length by fastforce
next
  case (2 cap es x ord)
  note len = lru_consistent_length [OF 2(2)]
  show ?case
  proof (cases "cap < length es")
    case True
    from 2(2) have pop: "lru_consistent (AList.delete x es) ord" by (rule lru_consistent_pop)
    from 2(2) have x: "x \<notin> set ord" by (simp add: lru_consistent_def)
    from True 2(3) have "lru_evict_loop cap (AList.delete x es) ord = (es', ord')" by simp
    from 2(1) [OF True pop this] have IH: "lru_consistent es' ord'" "length es' \<le> cap"
      "ord' = drop (length ord - cap) ord"
      "\<forall>k \<in> set ord'. map_of es' k = map_of (AList.delete x es) k" by auto
    from IH(3) x have "x \<notin> set ord'" by (metis in_set_dropD)
    with IH True len show ?thesis by (auto simp: Suc_diff_le)
  next
    case False
    with 2 len show ?thesis by auto
  qed
qed

section \<open>The interface clients memoise through\<close>

text \<open>
  A cache is sound for a function when it is well formed and stores only values of that function.
\<close>

definition cache_sound ::
    "('c \<Rightarrow> bool) \<Rightarrow> ('c \<Rightarrow> 'k \<Rightarrow> 'v option) \<Rightarrow> ('k \<Rightarrow> 'v) \<Rightarrow> 'c \<Rightarrow> bool" where
  "cache_sound ok cont f c \<longleftrightarrow> ok c \<and> (\<forall>k v. cont c k = Some v \<longrightarrow> v = f k)"

locale memo_cache =
  fixes lookup :: "'k \<Rightarrow> 'c \<Rightarrow> 'v option \<times> 'c"
    and store :: "'k \<Rightarrow> 'v \<Rightarrow> 'c \<Rightarrow> 'c"
    and wipe :: "'c \<Rightarrow> 'c"
    and content :: "'c \<Rightarrow> 'k \<Rightarrow> 'v option"
    and invar :: "'c \<Rightarrow> bool"
  assumes lookup_result: "invar c \<Longrightarrow> fst (lookup k c) = content c k"
    and lookup_content: "invar c \<Longrightarrow> content (snd (lookup k c)) = content c"
    and lookup_invar: "invar c \<Longrightarrow> invar (snd (lookup k c))"
    and store_content:
      "invar c \<Longrightarrow> content (store k v c) j = Some w \<Longrightarrow> (if j = k then w = v else content c j = Some w)"
    and store_invar: "invar c \<Longrightarrow> invar (store k v c)"
    and wipe_content: "content (wipe c) j = None"
    and wipe_invar: "invar c \<Longrightarrow> invar (wipe c)"
begin

lemma lookup_sound_value:
  "cache_sound invar content f c \<Longrightarrow> fst (lookup k c) = Some v \<Longrightarrow> v = f k"
  by (simp add: cache_sound_def lookup_result)

lemma lookup_sound: "cache_sound invar content f c \<Longrightarrow> cache_sound invar content f (snd (lookup k c))"
  by (simp add: cache_sound_def lookup_content lookup_invar)

lemma store_sound: "cache_sound invar content f c \<Longrightarrow> cache_sound invar content f (store k (f k) c)"
  unfolding cache_sound_def by (metis store_content store_invar)

lemma wipe_sound: "invar c \<Longrightarrow> cache_sound invar content f (wipe c)"
  by (simp add: cache_sound_def wipe_content wipe_invar)

end

section \<open>The cache implements the interface\<close>

lemma lru_insert_fields:
  assumes "lru_invar c"
  shows "lru_consistent (entries (lru_insert k v c)) (order (lru_insert k v c))"
    and "length (entries (lru_insert k v c)) \<le> capacity c"
    and "order (lru_insert k v c) =
      (let ord = filter (\<lambda>item. item \<noteq> k) (order c) @ [k] in drop (length ord - capacity c) ord)"
    and "capacity (lru_insert k v c) = capacity c"
    and "x \<in> set (order (lru_insert k v c)) \<Longrightarrow>
      map_of (entries (lru_insert k v c)) x = ((map_of (entries c))(k \<mapsto> v)) x"
proof -
  define ord where "ord = filter (\<lambda>item. item \<noteq> k) (order c) @ [k]"
  define es where "es = AList.update k v (entries c)"
  obtain es' ord' where ev: "lru_evict_loop (capacity c) es ord = (es', ord')"
    by (cases "lru_evict_loop (capacity c) es ord")
  from assms have "lru_consistent es ord"
    by (simp add: lru_invar_def lru_consistent_touch es_def ord_def)
  from lru_evict_loop_spec [OF this ev] have spec: "lru_consistent es' ord'"
    "length es' \<le> capacity c" "ord' = drop (length ord - capacity c) ord"
    "\<forall>x \<in> set ord'. map_of es' x = ((map_of (entries c))(k \<mapsto> v)) x"
    by (auto simp: es_def)
  have ins: "lru_insert k v c = c\<lparr>entries := es', order := ord'\<rparr>"
    using ev by (simp add: lru_insert_def Let_def es_def ord_def)
  show "lru_consistent (entries (lru_insert k v c)) (order (lru_insert k v c))"
    and "length (entries (lru_insert k v c)) \<le> capacity c"
    and "capacity (lru_insert k v c) = capacity c"
    using spec by (simp_all add: ins)
  show "order (lru_insert k v c) =
      (let ord = filter (\<lambda>item. item \<noteq> k) (order c) @ [k] in drop (length ord - capacity c) ord)"
    using spec(3) by (simp add: ins Let_def ord_def)
  show "x \<in> set (order (lru_insert k v c)) \<Longrightarrow>
      map_of (entries (lru_insert k v c)) x = ((map_of (entries c))(k \<mapsto> v)) x"
    using spec(4) by (simp add: ins)
qed

lemma lru_new_invar: "lru_invar (lru_new cap)"
  by (simp add: lru_new_def lru_invar_def lru_consistent_def)

lemma lru_get_invar: "lru_invar c \<Longrightarrow> lru_invar (snd (lru_get k c))"
proof -
  assume inv: "lru_invar c"
  show ?thesis
  proof (cases "map_of (entries c) k")
    case None
    with inv show ?thesis by (simp add: lru_get_def)
  next
    case (Some v)
    then have "k \<in> set (keys_of (entries c))" by (metis domI dom_map_of_conv_image_fst list.set_map)
    with Some inv show ?thesis
      by (auto simp: lru_get_def lru_invar_def lru_consistent_def)
  qed
qed

lemma lru_insert_invar: "lru_invar c \<Longrightarrow> lru_invar (lru_insert k v c)"
  using lru_insert_fields(1,2,4) [of c k v] by (simp add: lru_invar_def)

lemma lru_order_content: "lru_invar c \<Longrightarrow> lru_content c j = Some w \<Longrightarrow> j \<in> set (order c)"
  by (auto simp: lru_content_def lru_invar_def lru_consistent_def dest: map_of_SomeD intro: rev_image_eqI)

lemma lru_insert_content:
  "lru_invar c \<Longrightarrow> lru_content (lru_insert k v c) j = Some w \<Longrightarrow>
     (if j = k then w = v else lru_content c j = Some w)"
  using lru_insert_fields(5) [of c j k v] lru_order_content [OF lru_insert_invar, of c k v j w]
  by (auto simp: lru_content_def)

interpretation lru: memo_cache lru_get lru_insert lru_clear lru_content lru_invar
proof
  fix c :: "('a, 'b) lru_cache" and k
  show "lru_invar c \<Longrightarrow> fst (lru_get k c) = lru_content c k"
    and "lru_invar c \<Longrightarrow> lru_content (snd (lru_get k c)) = lru_content c"
    by (auto simp: lru_get_def lru_content_def split: option.splits)
  show "lru_invar c \<Longrightarrow> lru_invar (snd (lru_get k c))" by (rule lru_get_invar)
  fix v j w
  show "lru_invar c \<Longrightarrow> lru_content (lru_insert k v c) j = Some w \<Longrightarrow>
     (if j = k then w = v else lru_content c j = Some w)" by (rule lru_insert_content)
  show "lru_invar c \<Longrightarrow> lru_invar (lru_insert k v c)" by (rule lru_insert_invar)
  show "lru_content (lru_clear c) j = None" by (simp add: lru_content_def lru_clear_def)
  show "lru_invar c \<Longrightarrow> lru_invar (lru_clear c)"
    by (simp add: lru_invar_def lru_clear_def lru_consistent_def)
qed

section \<open>Properties\<close>

lemma lru_abs_keys: "map fst (lru_abs c) = order c"
  by (simp add: lru_abs_def comp_def)

lemma lru_abs_touch:
  "map (\<lambda>x. (x, the (((map_of (entries c))(k \<mapsto> v)) x))) (filter (\<lambda>item. item \<noteq> k) (order c) @ [k])
     = touch k v (lru_abs c)"
  by (auto simp: touch_def lru_abs_def filter_map comp_def)

text \<open>
  (C32) An insertion into the cache is an insertion into a bounded recency list: the key moves to
  the most recent end with its new value, every other binding keeps its place, and when the list
  has outgrown the capacity exactly the least recently used bindings are dropped. The cache stays
  well formed, so it never holds more than its capacity.
\<close>

theorem lru_insert_refines:
  assumes "lru_invar c"
  shows "lru_abs (lru_insert k v c)
      = (let xs = touch k v (lru_abs c) in drop (length xs - capacity c) xs)
    \<and> lru_invar (lru_insert k v c) \<and> length (entries (lru_insert k v c)) \<le> capacity c"
proof -
  let ?ord = "filter (\<lambda>item. item \<noteq> k) (order c) @ [k]"
  let ?g = "\<lambda>x. (x, the (((map_of (entries c))(k \<mapsto> v)) x))"
  have "lru_abs (lru_insert k v c) = map ?g (order (lru_insert k v c))"
    using lru_insert_fields(5) [OF assms] by (simp add: lru_abs_def)
  also have "\<dots> = drop (length ?ord - capacity c) (map ?g ?ord)"
    by (simp only: lru_insert_fields(3) [OF assms] Let_def drop_map)
  also have "map ?g ?ord = touch k v (lru_abs c)"
    by (rule lru_abs_touch)
  finally have "lru_abs (lru_insert k v c)
      = drop (length ?ord - capacity c) (touch k v (lru_abs c))" .
  moreover have "length ?ord = length (touch k v (lru_abs c))"
    using arg_cong [OF lru_abs_touch [of c k v], of length] by simp
  ultimately show ?thesis
    using lru_insert_invar [OF assms] lru_insert_fields(2) [OF assms] by (simp add: Let_def)
qed

text \<open>The property at a full cache of capacity two: the oldest binding is evicted.\<close>

theorem lru_insert_refines_witness:
  "let c = \<lparr>capacity = 2, entries = [(''a'', 1), (''b'', 2)], order = [''b'', ''a'']\<rparr>
   in lru_invar c \<and> lru_abs (lru_insert ''c'' (3::nat) c) = [(''a'', 1), (''c'', 3)]"
proof -
  let ?c = "\<lparr>capacity = 2, entries = [(''a'', 1), (''b'', 2)], order = [''b'', ''a'']\<rparr>
    :: (string, nat) lru_cache"
  have inv: "lru_invar ?c" by (auto simp: lru_invar_def lru_consistent_def)
  from lru_insert_refines [OF inv, of "''c''" 3] inv show ?thesis
    by (simp add: Let_def touch_def lru_abs_def)
qed

text \<open>
  A hit moves the binding to the most recent end and returns its value; a miss changes nothing.
\<close>

lemma lru_get_refines:
  "lru_invar c \<Longrightarrow> lru_abs (snd (lru_get k c)) =
     (case map_of (lru_abs c) k of None \<Rightarrow> lru_abs c | Some v \<Rightarrow> touch k v (lru_abs c))"
proof -
  assume inv: "lru_invar c"
  have "map_of (lru_abs c) k = (if k \<in> set (order c) then Some (the (map_of (entries c) k)) else None)"
    by (simp add: lru_abs_def map_of_map_restrict restrict_map_def)
  moreover have "k \<in> set (order c) \<longleftrightarrow> map_of (entries c) k \<noteq> None"
    using inv by (simp add: lru_invar_def lru_consistent_def map_of_eq_None_iff)
  ultimately show ?thesis
    by (auto simp: lru_get_def touch_def lru_abs_def filter_map comp_def split: option.splits)
qed

text \<open>A stored value is found again as long as the cache can hold anything at all.\<close>

lemma lru_get_insert:
  assumes "lru_invar c" and "0 < capacity c"
  shows "fst (lru_get k (lru_insert k v c)) = Some v"
proof -
  have "k \<in> set (order (lru_insert k v c))"
    using lru_insert_fields(3) [OF assms(1), of k v] assms(2)
    by (auto simp: Let_def drop_append)
  from lru_insert_fields(5) [OF assms(1) this] show ?thesis
    by (simp add: lru_get_def)
qed

end
