(* ===== verification/Paths_Normalize.thy ===== *)
theory Paths_Normalize
  imports Paths_Alias Lru_Cache
begin

text \<open>
  \<^verbatim>\<open>paths::normalize\<close>: slash folding followed by alias resolution, behind a one-entry
  per-thread memo and a process-wide LRU cache that is consulted only when its lock is free.
  \<open>normalize\<close> is the function the caches memoise; \<open>normalize_cached\<close> is the code with its caches.
\<close>

section \<open>Model\<close>

definition PATH_CACHE_MAX_SIZE :: nat where
  "PATH_CACHE_MAX_SIZE = 256"

text \<open>The early return for paths that need no work.\<close>

definition is_already_normal :: "bytes \<Rightarrow> bool" where
  "is_already_normal path =
     (\<not> ends_with_str path ''/'' \<and> \<not> contains_str path ''//'' \<and> \<not> has_potential_storage_alias path)"

definition normalize :: "bytes \<Rightarrow> bytes" where
  "normalize path =
     (if path = [] then path
      else if is_already_normal path then path
      else resolve_storage_alias (normalize_syntax path))"

text \<open>
  The state \<^verbatim>\<open>normalize\<close> touches: the thread-local \<^verbatim>\<open>LAST_NORMALIZED_PATH\<close> of each thread
  and the shared \<^verbatim>\<open>PATH_NORMALIZE_CACHE\<close>.
\<close>

record normalize_state =
  last_normalized :: "nat \<Rightarrow> (bytes \<times> bytes) option"
  path_cache :: "(bytes, bytes) lru_cache"

definition normalize_state_init :: normalize_state where
  "normalize_state_init = \<lparr>last_normalized = (\<lambda>_. None), path_cache = lru_new PATH_CACHE_MAX_SIZE\<rparr>"

text \<open>
  One call by thread \<open>tid\<close>. \<open>lock1\<close> and \<open>lock2\<close> are the outcomes of the two
  \<^verbatim>\<open>try_lock\<close> calls.
\<close>

definition normalize_cached ::
    "nat \<Rightarrow> bool \<Rightarrow> bool \<Rightarrow> bytes \<Rightarrow> normalize_state \<Rightarrow> bytes \<times> normalize_state" where
  "normalize_cached tid lock1 lock2 path st =
     (if path = [] then (path, st)
      else if is_already_normal path then (path, st)
      else case Option.bind (last_normalized st tid) (\<lambda>(p, n). if p = path then Some n else None) of
        Some normalized \<Rightarrow> (normalized, st)
      | None \<Rightarrow>
          (let (hit, cache1) = (if lock1 then lru_get path (path_cache st) else (None, path_cache st))
           in case hit of
                Some normalized \<Rightarrow>
                  (normalized, st\<lparr>last_normalized := (last_normalized st)(tid := Some (path, normalized)),
                                  path_cache := cache1\<rparr>)
              | None \<Rightarrow>
                  (let normalized = resolve_storage_alias (normalize_syntax path);
                       cache2 = (if lock2 then lru_insert path normalized cache1 else cache1)
                   in (normalized, st\<lparr>path_cache := cache2\<rparr>))))"

text \<open>A history of calls by any threads with any lock outcomes, with the returned values.\<close>

fun normalize_run ::
    "(nat \<times> bool \<times> bool \<times> bytes) list \<Rightarrow> normalize_state \<Rightarrow> bytes list \<times> normalize_state" where
  "normalize_run [] st = ([], st)"
| "normalize_run ((tid, l1, l2, p) # calls) st =
     (let (r, st') = normalize_cached tid l1 l2 p st;
          (rs, st'') = normalize_run calls st'
      in (r # rs, st''))"

text \<open>\<^verbatim>\<open>paths::parent\<close>.\<close>

definition parent :: "bytes \<Rightarrow> bytes" where
  "parent path =
     (if path = [] \<or> path = ''/'' then path
      else let normalized = normalize path
           in case rfind_char slash normalized of
                Some pos \<Rightarrow> if pos = 0 then ''/'' else take pos normalized
              | None \<Rightarrow> [])"

section \<open>The memo caches are transparent\<close>

text \<open>Every memoised value is the value of the function on its key.\<close>

definition normalize_memo_ok :: "normalize_state \<Rightarrow> bool" where
  "normalize_memo_ok st \<longleftrightarrow>
     (\<forall>tid p n. last_normalized st tid = Some (p, n) \<longrightarrow>
        n = resolve_storage_alias (normalize_syntax p))
     \<and> cache_sound lru_invar lru_content (\<lambda>p. resolve_storage_alias (normalize_syntax p)) (path_cache st)"

lemma normalize_memo_init: "normalize_memo_ok normalize_state_init"
  by (simp add: normalize_memo_ok_def normalize_state_init_def cache_sound_def lru_new_invar)
    (simp add: lru_content_def lru_new_def)

text \<open>The shared-cache part of a call, reached when the thread's own memo does not apply.\<close>

lemma normalize_shared_step:
  fixes f defines "f \<equiv> (\<lambda>p. resolve_storage_alias (normalize_syntax p))"
  assumes ok: "normalize_memo_ok st"
    and look: "(if l1 then lru_get p (path_cache st) else (None, path_cache st)) = (hit, cache1)"
  shows "(hit = Some n \<longrightarrow> n = f p \<and>
            normalize_memo_ok (st\<lparr>last_normalized := (last_normalized st)(tid := Some (p, n)),
                                  path_cache := cache1\<rparr>))
    \<and> normalize_memo_ok (st\<lparr>path_cache := if l2 then lru_insert p (f p) cache1 else cache1\<rparr>)"
proof -
  from ok have sound: "cache_sound lru_invar lru_content f (path_cache st)"
    by (simp add: normalize_memo_ok_def f_def)
  have hit: "hit = Some n \<longrightarrow> n = f p"
    using look lru.lookup_sound_value [OF sound, of p n] by (auto split: if_splits)
  have c1: "cache_sound lru_invar lru_content f cache1"
    using look lru.lookup_sound [OF sound, of p] sound by (auto split: if_splits)
  have "cache_sound lru_invar lru_content f (lru_insert p (f p) cache1)"
    by (rule lru.store_sound [OF c1])
  with hit c1 ok show ?thesis by (auto simp: normalize_memo_ok_def f_def)
qed

lemma normalize_cached_step:
  assumes ok: "normalize_memo_ok st" and call: "normalize_cached tid l1 l2 p st = (r, st')"
  shows "r = normalize p \<and> normalize_memo_ok st'"
proof (cases "p = [] \<or> is_already_normal p")
  case True
  with assms show ?thesis by (auto simp: normalize_cached_def normalize_def)
next
  case False
  then have np: "normalize p = resolve_storage_alias (normalize_syntax p)"
    by (simp add: normalize_def)
  define memo where
    "memo = Option.bind (last_normalized st tid) (\<lambda>(q, n). if q = p then Some n else None)"
  show ?thesis
  proof (cases memo)
    case (Some n)
    then have "last_normalized st tid = Some (p, n)"
      by (auto simp: memo_def bind_eq_Some_conv split: if_splits)
    with ok np have "n = normalize p" by (simp add: normalize_memo_ok_def)
    with Some False call ok show ?thesis by (simp add: normalize_cached_def memo_def)
  next
    case None
    obtain hit cache1 where look:
      "(if l1 then lru_get p (path_cache st) else (None, path_cache st)) = (hit, cache1)"
      by (metis surj_pair)
    with None False call np normalize_shared_step [OF ok look] show ?thesis
      by (cases hit) (auto simp: normalize_cached_def memo_def look Let_def)
  qed
qed

lemma normalize_run_values:
  "normalize_memo_ok st \<Longrightarrow> fst (normalize_run calls st) = map (\<lambda>(tid, l1, l2, p). normalize p) calls"
proof (induction calls arbitrary: st)
  case (Cons c calls)
  obtain tid l1 l2 p where c: "c = (tid, l1, l2, p)" by (cases c)
  obtain r st' where call: "normalize_cached tid l1 l2 p st = (r, st')" by fastforce
  from normalize_cached_step [OF Cons.prems call] Cons.IH [of st'] call c show ?case
    by (simp add: Let_def split_beta)
qed simp

text \<open>
  (C26) The caches of \<^verbatim>\<open>normalize\<close> never change its result: in any history of calls, by any
  threads and with any outcomes of the \<^verbatim>\<open>try_lock\<close> attempts, every call returns the value of
  the uncached computation on its own argument.
\<close>

theorem normalize_caches_transparent:
  "fst (normalize_run calls normalize_state_init) = map (\<lambda>(tid, lock1, lock2, p). normalize p) calls"
  by (rule normalize_run_values [OF normalize_memo_init])

section \<open>Normal forms\<close>

lemma ends_slash_iff: "ends_with_str p ''/'' \<longleftrightarrow> p \<noteq> [] \<and> last p = slash"
  by (rule ends_with_single)

lemma normalize_syntax_canonical: "canonical p \<Longrightarrow> normalize_syntax p = p"
  using normalize_syntax_facts [of p] normalize_syntax_abs [of p]
  by (intro segs_inj) (auto simp: canonical_iff)


lemma normalize_syntax_idem [simp]: "normalize_syntax (normalize_syntax p) = normalize_syntax p"
proof (cases "p = []")
  case False
  from normalize_syntax_facts [OF False]
  have "\<not> contains_str (normalize_syntax p) ''//''"
    "length (normalize_syntax p) \<le> 1 \<or> \<not> ends_with_str (normalize_syntax p) ''/''"
    by (auto simp: str_simps [of "normalize_syntax p"] contains_str_iff ends_slash_iff)
  then show ?thesis by (simp add: normalize_syntax_def [of "normalize_syntax p"])
qed simp

lemma already_normal_canonical:
  "is_already_normal p \<Longrightarrow> is_absolute p \<Longrightarrow> canonical p"
  by (auto simp: is_already_normal_def is_absolute_def canonical_iff ends_slash_iff contains_str_iff
      starts_with_str_iff)

lemma canonical_already_normal:
  "canonical p \<Longrightarrow> p \<noteq> ''/'' \<Longrightarrow> \<not> has_potential_storage_alias p \<Longrightarrow> is_already_normal p"
  by (auto simp: is_already_normal_def canonical_iff ends_slash_iff contains_str_iff)

lemma normalize_canonical:
  assumes "is_absolute p"
  shows "canonical (normalize p)"
proof (cases "is_already_normal p")
  case True
  with assms have "canonical p" by (intro already_normal_canonical)
  with True show ?thesis by (auto simp: normalize_def)
next
  case False
  from assms have syn: "canonical (normalize_syntax p)"
    by (intro normalize_syntax_abs) (auto simp: is_absolute_def starts_with_str_iff)
  then have "canonical (resolve_storage_alias (normalize_syntax p))"
    using resolve_storage_alias_shape [of "normalize_syntax p"] alias_moved_canonical [OF syn] by auto
  with False assms show ?thesis by (auto simp: normalize_def is_absolute_def)
qed

lemma alias_absolute: "has_potential_storage_alias p \<Longrightarrow> is_absolute p"
  by (auto simp: has_potential_storage_alias_def is_absolute_def str_simps DATA_MEDIA_PREFIX_def prefix_def)

lemma normalize_of_canonical: "canonical p \<Longrightarrow> normalize p = resolve_storage_alias p"
  by (auto simp: normalize_def normalize_syntax_canonical is_already_normal_def resolve_storage_alias_id
      canonical_iff)

lemma resolve_storage_alias_idem:
  "canonical p \<Longrightarrow> resolve_storage_alias (resolve_storage_alias p) = resolve_storage_alias p"
  using resolve_storage_alias_shape [of p] alias_moved_canonical [of p]
  by (metis resolve_storage_alias_id)

lemma normalize_relative: "\<not> is_absolute p \<Longrightarrow> normalize p = normalize_syntax p"
proof (cases "p = []")
  case False
  assume rel: "\<not> is_absolute p"
  have "\<not> is_absolute (normalize_syntax p)"
    using rel False normalize_syntax_facts [OF False] by (auto simp: is_absolute_def starts_with_str_iff)
  then have "resolve_storage_alias (normalize_syntax p) = normalize_syntax p"
    by (metis alias_absolute resolve_storage_alias_id)
  moreover have "is_already_normal p \<Longrightarrow> normalize_syntax p = p"
    by (simp add: is_already_normal_def normalize_syntax_def)
  ultimately show ?thesis by (simp add: normalize_def)
qed (simp add: normalize_def)

lemma normalize_abs_eq: "is_absolute p \<Longrightarrow> normalize p = resolve_storage_alias (normalize_syntax p)"
proof -
  assume abs: "is_absolute p"
  then have syn: "canonical (normalize_syntax p)"
    by (intro normalize_syntax_abs) (auto simp: is_absolute_def starts_with_str_iff)
  show ?thesis
  proof (cases "is_already_normal p")
    case True
    from True abs have "canonical p" by (rule already_normal_canonical)
    with True show ?thesis
      by (simp add: normalize_def normalize_syntax_canonical is_already_normal_def resolve_storage_alias_id)
  next
    case False
    with abs show ?thesis by (auto simp: normalize_def is_absolute_def)
  qed
qed

lemma normalize_idem: "normalize (normalize p) = normalize p"
proof (cases "is_absolute p")
  case True
  then have syn: "canonical (normalize_syntax p)"
    by (intro normalize_syntax_abs) (auto simp: is_absolute_def starts_with_str_iff)
  have "normalize (normalize p) = resolve_storage_alias (normalize p)"
    by (rule normalize_of_canonical [OF normalize_canonical [OF True]])
  then show ?thesis
    using True by (simp add: normalize_abs_eq resolve_storage_alias_idem [OF syn])
next
  case False
  have "\<not> is_absolute (normalize_syntax p)"
    using False normalize_syntax_facts [of p] by (cases "p = []") (auto simp: is_absolute_def starts_with_str_iff)
  with False show ?thesis by (simp add: normalize_relative)
qed

text \<open>
  Normalisation is idempotent, and on an absolute path it always ends in normal form: a
  leading separator, no empty component and no trailing separator. Rules and requests that were
  normalised once can therefore be normalised again at any other entry point without change.
\<close>

theorem normalize_idempotent:
  "normalize (normalize p) = normalize p \<and> (is_absolute p \<longrightarrow> canonical (normalize p))"
  using normalize_idem normalize_canonical by blast

theorem normalize_idempotent_witness:
  "is_absolute ''/sdcard//DCIM/'' \<and> canonical (normalize ''/sdcard//DCIM/'')"
proof -
  have "is_absolute ''/sdcard//DCIM/''" by (simp add: is_absolute_def starts_with_str_def)
  then show ?thesis using normalize_idempotent [of "''/sdcard//DCIM/''"] by simp
qed

end
