(* ===== verification/Paths_Roots.thy ===== *)
theory Paths_Roots
  imports Paths_Normalize
begin

text \<open>
  \<^verbatim>\<open>src/platform/paths_roots.rs\<close> and \<^verbatim>\<open>src/platform/uid.rs\<close>: storage roots, user
  directories and the translations between the public view \<^verbatim>\<open>/storage/emulated/<user>\<close> and the
  backend view \<^verbatim>\<open>/data/media/<user>\<close>.
\<close>

section \<open>Model\<close>

definition ANDROID_USER_ID_OFFSET :: i32 where
  "ANDROID_USER_ID_OFFSET = 100000"

definition user_id_from_uid :: "i32 \<Rightarrow> i32" where
  "user_id_from_uid uid = (if 0 \<le> uid then uid div ANDROID_USER_ID_OFFSET else 0)"

text \<open>The idiom \<^verbatim>\<open>rest.is_empty() || rest.starts_with('/')\<close> after a stripped prefix.\<close>

definition strip_path_prefix :: "bytes \<Rightarrow> bytes \<Rightarrow> bytes option" where
  "strip_path_prefix path pre =
     (case strip_prefix path pre of
        None \<Rightarrow> None
      | Some rest \<Rightarrow> if rest = [] \<or> starts_with_str rest ''/'' then Some rest else None)"

definition resolve_user_path :: "bytes \<Rightarrow> i32 \<Rightarrow> bytes" where
  "resolve_user_path path user_id =
     (case strip_path_prefix path ''/data/data'' of
        Some rest \<Rightarrow> ''/data/user/'' @ fmt_i32 user_id @ rest
      | None \<Rightarrow>
          if user_id = 0 then path
          else (case strip_path_prefix path ''/storage/emulated/0'' of
                  Some rest \<Rightarrow> ''/storage/emulated/'' @ fmt_i32 user_id @ rest
                | None \<Rightarrow>
                    (case strip_path_prefix path ''/data/user/0'' of
                       Some rest \<Rightarrow> ''/data/user/'' @ fmt_i32 user_id @ rest
                     | None \<Rightarrow> path)))"

definition storage_user_root_for_user :: "i32 \<Rightarrow> bytes" where
  "storage_user_root_for_user user_id = STORAGE_EMULATED_PREFIX @ fmt_i32 user_id"

definition data_media_user_root_for_user :: "i32 \<Rightarrow> bytes" where
  "data_media_user_root_for_user user_id = DATA_MEDIA_PREFIX @ fmt_i32 user_id"

text \<open>\<^verbatim>\<open>MEDIA_REAL_ANCHOR_ROOT\<close> is a \<^verbatim>\<open>OnceLock\<close>: only the first registration takes effect.\<close>

type_synonym anchor_cell = "bytes option"

definition set_media_real_anchor_root :: "bytes \<Rightarrow> anchor_cell \<Rightarrow> anchor_cell" where
  "set_media_real_anchor_root anchor_root cell =
     (case cell of None \<Rightarrow> Some anchor_root | Some _ \<Rightarrow> cell)"

definition media_real_anchor_root :: "anchor_cell \<Rightarrow> bytes option" where
  "media_real_anchor_root cell = cell"

definition data_media_user_root_for_current_ns :: "anchor_cell \<Rightarrow> i32 \<Rightarrow> bytes" where
  "data_media_user_root_for_current_ns cell user_id =
     (case cell of
        Some anchor \<Rightarrow> if user_id = 0 then anchor else data_media_user_root_for_user user_id
      | None \<Rightarrow> data_media_user_root_for_user user_id)"

definition media_real_form_of :: "anchor_cell \<Rightarrow> bytes \<Rightarrow> bytes" where
  "media_real_form_of cell path =
     (case cell of
        None \<Rightarrow> path
      | Some anchor \<Rightarrow>
          (case strip_path_prefix path anchor of
             Some rest \<Rightarrow> ''/data/media'' @ rest
           | None \<Rightarrow> path))"

definition storage_alias_roots_for_user :: "i32 \<Rightarrow> bytes list" where
  "storage_alias_roots_for_user user_id =
     (let user_str = fmt_i32 user_id
      in [storage_user_root_for_user user_id,
          data_media_user_root_for_user user_id,
          ''/storage/self/primary'']
         @ (if user_id = 0 then [''/storage/emulated/legacy''] else [])
         @ [''/mnt/user/'' @ user_str @ ''/emulated/'' @ user_str,
            ''/mnt/runtime/default/emulated/'' @ user_str,
            ''/mnt/runtime/read/emulated/'' @ user_str,
            ''/mnt/runtime/write/emulated/'' @ user_str,
            ''/mnt/runtime/full/emulated/'' @ user_str,
            ''/mnt/installer/'' @ user_str @ ''/emulated/'' @ user_str,
            ''/mnt/installer/emulated/'' @ user_str,
            ''/mnt/androidwritable/'' @ user_str @ ''/emulated/'' @ user_str,
            ''/mnt/androidwritable/emulated/'' @ user_str,
            ''/mnt/pass_through/'' @ user_str @ ''/emulated/'' @ user_str,
            ''/mnt/pass_through/emulated/'' @ user_str])"

definition default_redirect_target :: "bytes \<Rightarrow> i32 \<Rightarrow> bytes" where
  "default_redirect_target package_name user_id =
     storage_user_root_for_user user_id @ ''/Android/data/'' @ package_name @ ''/sdcard''"

definition is_valid_package_name :: "bytes \<Rightarrow> bool" where
  "is_valid_package_name package_name =
     (package_name \<noteq> [] \<and> contains_char package_name CHR ''.''
      \<and> \<not> starts_with_str package_name ''.'' \<and> \<not> ends_with_str package_name ''.''
      \<and> list_all (\<lambda>ch. is_ascii_alphanumeric ch \<or> ch = CHR ''.'' \<or> ch = CHR ''_'' \<or> ch = CHR ''-'')
          package_name
      \<and> list_all (\<lambda>part. part \<noteq> []) (split_char CHR ''.'' package_name))"

definition is_default_redirect_backend_path :: "bytes \<Rightarrow> bool" where
  "is_default_redirect_backend_path path =
     (case strip_prefix (trim_end_char slash path) DATA_MEDIA_PREFIX of
        None \<Rightarrow> False
      | Some rest \<Rightarrow>
          (case nonempty_parts slash rest of
             [user_id, a, d, package_name, s] \<Rightarrow>
               all_digits user_id \<and> a = ''Android'' \<and> d = ''data''
               \<and> is_valid_package_name package_name \<and> s = ''sdcard''
           | _ \<Rightarrow> False))"

definition data_media_to_storage_path :: "bytes \<Rightarrow> bytes" where
  "data_media_to_storage_path path =
     (if \<not> starts_with_str path DATA_MEDIA_PREFIX then path
      else STORAGE_EMULATED_PREFIX @ drop (length DATA_MEDIA_PREFIX) path)"

definition storage_to_data_media_path :: "bytes \<Rightarrow> bytes" where
  "storage_to_data_media_path path =
     (if \<not> starts_with_str path STORAGE_EMULATED_PREFIX then path
      else DATA_MEDIA_PREFIX @ drop (length STORAGE_EMULATED_PREFIX) path)"

definition storage_relative_path_for_user :: "bytes \<Rightarrow> i32 \<Rightarrow> bytes option" where
  "storage_relative_path_for_user storage_path user_id =
     (case strip_prefix (normalize storage_path) (storage_user_root_for_user user_id @ ''/'') of
        None \<Rightarrow> None
      | Some suff \<Rightarrow> if suff = [] then None else Some suff)"

definition storage_to_data_media_for_user :: "bytes \<Rightarrow> i32 \<Rightarrow> bytes option" where
  "storage_to_data_media_for_user storage_path user_id =
     (case strip_prefix (normalize storage_path) (storage_user_root_for_user user_id @ ''/'') of
        None \<Rightarrow> None
      | Some suff \<Rightarrow>
          if suff = [] then None
          else Some (path_join (data_media_user_root_for_user user_id) suff))"

definition storage_user_root :: "bytes \<Rightarrow> bytes option" where
  "storage_user_root path =
     (case strip_prefix path STORAGE_EMULATED_PREFIX of
        None \<Rightarrow> None
      | Some rest \<Rightarrow>
          (let user_id = hd (split_char slash rest)
           in if user_id = [] \<or> \<not> all_digits user_id then None
              else Some (STORAGE_EMULATED_PREFIX @ user_id)))"

definition data_media_user_root :: "bytes \<Rightarrow> bytes option" where
  "data_media_user_root path =
     (case strip_prefix path DATA_MEDIA_PREFIX of
        None \<Rightarrow> None
      | Some rest \<Rightarrow>
          (let user_id = hd (split_char slash rest)
           in if user_id = [] \<or> \<not> all_digits user_id then None
              else Some (DATA_MEDIA_PREFIX @ user_id)))"

definition is_private_category :: "bytes \<Rightarrow> bool" where
  "is_private_category c \<longleftrightarrow> c = ''data'' \<or> c = ''media'' \<or> c = ''obb''"

definition android_private_data_media_root :: "bytes \<Rightarrow> bytes \<Rightarrow> i32 \<Rightarrow> bytes option" where
  "android_private_data_media_root normalized_path owner_package user_id =
     (case strip_prefix normalized_path (storage_user_root_for_user user_id @ ''/Android/'') of
        None \<Rightarrow> None
      | Some rest \<Rightarrow>
          (case nonempty_parts slash rest of
             category # owner # _ \<Rightarrow>
               if is_private_category category \<and> owner = owner_package
               then Some (data_media_user_root_for_user user_id @ ''/Android/'' @ category @ ''/''
                          @ owner_package)
               else None
           | _ \<Rightarrow> None))"

definition extract_user_id_from_storage_path :: "bytes \<Rightarrow> i32" where
  "extract_user_id_from_storage_path path =
     (case strip_prefix path ''/storage/emulated/'' of
        None \<Rightarrow> -1
      | Some rest \<Rightarrow>
          (let user_end = (case find_char slash rest of Some idx \<Rightarrow> idx | None \<Rightarrow> length rest)
           in if user_end = 0 then -1
              else if \<not> all_digits (take user_end rest) then -1
              else (case parse_i32 (take user_end rest) of Some n \<Rightarrow> n | None \<Rightarrow> -1)))"

definition extract_user_id_from_data_media_path :: "bytes \<Rightarrow> i32 option" where
  "extract_user_id_from_data_media_path path =
     (case strip_prefix (normalize_syntax path) DATA_MEDIA_PREFIX of
        None \<Rightarrow> None
      | Some rest \<Rightarrow>
          (case parse_i32 (hd (split_char slash rest)) of
             None \<Rightarrow> None
           | Some user \<Rightarrow> if 0 \<le> user then Some user else None))"

definition extract_android_private_path_owner :: "bytes \<Rightarrow> bytes" where
  "extract_android_private_path_owner path =
     (case strip_prefix path ''/storage/emulated/'' of
        None \<Rightarrow> []
      | Some rest \<Rightarrow>
          (case nonempty_parts slash rest of
             user_id # a # c # package_name # _ \<Rightarrow>
               if all_digits user_id \<and> a = ''Android'' \<and> is_private_category c
                  \<and> is_valid_package_name package_name
               then package_name else []
           | _ \<Rightarrow> []))"

section \<open>Decimal user ids\<close>

lemma fmt_i32_inj: "fmt_i32 a = fmt_i32 b \<Longrightarrow> a = b"
proof -
  have digit: "x \<noteq> CHR ''-''" if "x \<in> set (show_nat n)" for x n
    using that show_nat_digits [of n] by (auto simp: list_all_iff dest: digit_not_sign)
  have sn: "show_nat n = show_nat m \<Longrightarrow> n = m" for n m
    by (metis digits_value_show_nat)
  assume eq: "fmt_i32 a = fmt_i32 b"
  have "hd (show_nat n) \<noteq> CHR ''-''" for n
    by (rule digit [of _ n]) (simp add: show_nat_nonempty)
  then have "a < 0 \<longleftrightarrow> b < 0"
    using eq by (auto simp: fmt_i32_def split: if_splits) (metis list.sel(1))+
  then show ?thesis using eq by (auto simp: fmt_i32_def split: if_splits dest!: sn)
qed

lemma fmt_i32_zero [simp]: "fmt_i32 0 = ''0''"
  by (simp add: fmt_i32_def show_nat.simps [of 0] digit_char_def)

lemma fmt_i32_digits: "0 \<le> n \<Longrightarrow> all_digits (fmt_i32 n)"
  by (simp add: fmt_i32_def all_digits_def show_nat_digits)

lemma segment_append_eq:
  assumes "slash \<notin> set a" and "slash \<notin> set b" and "a @ r = b @ s"
    and "r = [] \<or> hd r = slash" and "s = [] \<or> hd s = slash"
  shows "a = b \<and> r = s"
proof -
  have tw: "takeWhile (\<lambda>c. c \<noteq> slash) (x @ t) = x" if "slash \<notin> set x" "t = [] \<or> hd t = slash" for x t :: bytes
    using that by (cases t) auto
  have "a = b" using tw [OF assms(1,4)] tw [OF assms(2,5)] assms(3) by metis
  with assms(3) show ?thesis by simp
qed

lemma strip_path_prefix_Some [path_simps]:
  "strip_path_prefix p pre = Some r \<longleftrightarrow> p = pre @ r \<and> (r = [] \<or> hd r = slash)"
  by (auto simp: strip_path_prefix_def str_simps split: option.splits)

lemma strip_path_prefix_user:
  assumes "slash \<notin> set u" and "r = [] \<or> hd r = slash"
  shows "strip_path_prefix (pre @ fmt_i32 n @ r) (pre @ u)
     = (if fmt_i32 n = u then Some r else None)"
proof (cases "strip_path_prefix (pre @ fmt_i32 n @ r) (pre @ u)")
  case None
  then have "fmt_i32 n \<noteq> u" using assms
    by (metis append.assoc option.distinct(1) strip_path_prefix_Some)
  with None show ?thesis by simp
next
  case (Some s)
  then have "fmt_i32 n @ r = u @ s" "s = [] \<or> hd s = slash" by (auto simp: path_simps)
  with assms fmt_i32_no_slash segment_append_eq have "fmt_i32 n = u \<and> r = s" by metis
  with Some show ?thesis by simp
qed

text \<open>
  Rewriting a path for a user is idempotent: a path that already names the user's own
  directory is never rewritten a second time, so the several entry points that each call
  \<^verbatim>\<open>resolve_user_path\<close> agree.
\<close>

theorem resolve_user_path_idempotent:
  "resolve_user_path (resolve_user_path p u) u = resolve_user_path p u"
proof -
  have dd: "strip_path_prefix (''/data/user/'' @ x) ''/data/data'' = None"
    "strip_path_prefix (''/storage/emulated/'' @ x) ''/data/data'' = None"
    "strip_path_prefix (''/data/user/'' @ x) ''/storage/emulated/0'' = None"
    "strip_path_prefix (''/storage/emulated/'' @ x) ''/data/user/0'' = None" for x
    by (simp_all add: strip_path_prefix_def strip_prefix_def)
  have zero: "slash \<notin> set ''0''" by simp
  have fz: "fmt_i32 u = ''0'' \<longleftrightarrow> u = 0" using fmt_i32_inj [of u 0] by auto
  have du: "strip_path_prefix (''/data/user/'' @ fmt_i32 u @ r) ''/data/user/0'' = (if u = 0 then Some r else None)"
    and se: "strip_path_prefix (''/storage/emulated/'' @ fmt_i32 u @ r) ''/storage/emulated/0''
        = (if u = 0 then Some r else None)"
    if "r = [] \<or> hd r = slash" for r
    using strip_path_prefix_user [OF zero that, of "''/data/user/''" u]
      strip_path_prefix_user [OF zero that, of "''/storage/emulated/''" u] fz by auto
  show ?thesis
  proof (cases "strip_path_prefix p ''/data/data''")
    case (Some r)
    then have r: "r = [] \<or> hd r = slash" by (simp add: path_simps)
    have "resolve_user_path p u = ''/data/user/'' @ fmt_i32 u @ r"
      using Some by (simp add: resolve_user_path_def)
    then show ?thesis using du [OF r] dd by (simp only: resolve_user_path_def) simp
  next
    case None
    show ?thesis
    proof (cases "u = 0")
      case False
      show ?thesis
      proof (cases "strip_path_prefix p ''/storage/emulated/0''")
        case (Some r)
        then have r: "r = [] \<or> hd r = slash" by (simp add: path_simps)
        have "resolve_user_path p u = ''/storage/emulated/'' @ fmt_i32 u @ r"
          using Some None False by (simp add: resolve_user_path_def)
        then show ?thesis using se [OF r] dd by (simp only: resolve_user_path_def) simp
      next
        case n2: None
        show ?thesis
        proof (cases "strip_path_prefix p ''/data/user/0''")
          case (Some r)
          then have r: "r = [] \<or> hd r = slash" by (simp add: path_simps)
          have "resolve_user_path p u = ''/data/user/'' @ fmt_i32 u @ r"
            using Some None n2 False by (simp add: resolve_user_path_def)
          then show ?thesis using du [OF r] dd by (simp only: resolve_user_path_def) simp
        next
          case n3: None
          with None n2 show ?thesis by (simp add: resolve_user_path_def)
        qed
      qed
    qed (use None in \<open>simp add: resolve_user_path_def\<close>)
  qed
qed

section \<open>Reading the user back from a path\<close>

lemma user_end_split:
  assumes "slash \<notin> set u" and "r = [] \<or> hd r = slash"
  shows "(case find_char slash (u @ r) of Some idx \<Rightarrow> idx | None \<Rightarrow> length (u @ r)) = length u"
proof (cases r)
  case Nil
  with assms have "find_char slash (u @ r) = None" by (simp add: find_char_None)
  with Nil show ?thesis by simp
next
  case (Cons c r')
  with assms have "find_char slash (u @ r) = Some (length u)"
    by (auto simp: find_char_Some)
  then show ?thesis by simp
qed

lemma extract_user_id_of_root:
  assumes "0 \<le> u" and "in_i32 u" and "r = [] \<or> hd r = slash"
  shows "extract_user_id_from_storage_path (storage_user_root_for_user u @ r) = u"
proof -
  have "strip_prefix (storage_user_root_for_user u @ r) ''/storage/emulated/'' = Some (fmt_i32 u @ r)"
    by (simp add: storage_user_root_for_user_def STORAGE_EMULATED_PREFIX_def str_simps)
  then show ?thesis
    using user_end_split [OF fmt_i32_no_slash assms(3), of u] assms(1,2)
    by (simp add: extract_user_id_from_storage_path_def Let_def fmt_i32_digits parse_fmt_i32 fmt_i32_nonempty)
qed

lemma hd_split_user: "slash \<notin> set u \<Longrightarrow> r = [] \<or> hd r = slash \<Longrightarrow> hd (split_char slash (u @ r)) = u"
  by (cases r) (auto simp: hd_split_char)

text \<open>
  The user id survives the trip through a path: printing a user's storage root, in either
  view, and appending any subpath gives a path from which the same id is read back.
\<close>

theorem user_id_roundtrip:
  assumes "0 \<le> u" and "in_i32 u" and "r = [] \<or> hd r = CHR ''/''"
  shows "extract_user_id_from_storage_path (storage_user_root_for_user u @ r) = u
    \<and> storage_user_root (storage_user_root_for_user u @ r) = Some (storage_user_root_for_user u)
    \<and> data_media_user_root (data_media_user_root_for_user u @ r) = Some (data_media_user_root_for_user u)
    \<and> data_media_to_storage_path (data_media_user_root_for_user u @ r) = storage_user_root_for_user u @ r
    \<and> storage_to_data_media_path (storage_user_root_for_user u @ r) = data_media_user_root_for_user u @ r"
proof (intro conjI)
  show "extract_user_id_from_storage_path (storage_user_root_for_user u @ r) = u"
    by (rule extract_user_id_of_root [OF assms])
  note user = hd_split_user [OF fmt_i32_no_slash assms(3), of u] fmt_i32_digits [OF assms(1)]
    fmt_i32_nonempty [of u]
  show "storage_user_root (storage_user_root_for_user u @ r) = Some (storage_user_root_for_user u)"
    using user by (simp add: storage_user_root_def storage_user_root_for_user_def Let_def)
  show "data_media_user_root (data_media_user_root_for_user u @ r) = Some (data_media_user_root_for_user u)"
    using user by (simp add: data_media_user_root_def data_media_user_root_for_user_def Let_def)
  show "data_media_to_storage_path (data_media_user_root_for_user u @ r) = storage_user_root_for_user u @ r"
    by (simp add: data_media_to_storage_path_def data_media_user_root_for_user_def
        storage_user_root_for_user_def str_simps)
  show "storage_to_data_media_path (storage_user_root_for_user u @ r) = data_media_user_root_for_user u @ r"
    by (simp add: storage_to_data_media_path_def data_media_user_root_for_user_def
        storage_user_root_for_user_def str_simps)
qed

theorem user_id_roundtrip_witness:
  "(0::int) \<le> 10 \<and> in_i32 10 \<and>
   extract_user_id_from_storage_path (storage_user_root_for_user 10 @ ''/DCIM'') = 10"
proof -
  have h: "(0::int) \<le> 10" "in_i32 10" "''/DCIM'' = [] \<or> hd ''/DCIM'' = CHR ''/''"
    by (simp_all add: in_i32_def)
  from user_id_roundtrip [OF h] h show ?thesis by simp
qed

section \<open>Which alias roots resolve\<close>

lemma user_tail_of_user:
  assumes "0 \<le> u" and "r = [] \<or> hd r = slash"
  shows "resolve_user_tail path (fmt_i32 u @ r) = storage_user_root_for_user u @ r"
  using user_end_split [OF fmt_i32_no_slash assms(2), of u] fmt_i32_digits [OF assms(1)]
    fmt_i32_nonempty [of u]
  by (simp add: resolve_user_tail_def Let_def storage_user_root_for_user_def STORAGE_EMULATED_PREFIX_def)

text \<open>
  Resolution of \<^verbatim>\<open>/mnt/<area>/<owner>/emulated/<user>\<close> for a numeric owner, and its refusal
  when the owner segment is not numeric.
\<close>

lemma mnt_emulated_owner:
  assumes pre: "find (\<lambda>pre. starts_with_str path pre) MNT_EMULATED_PREFIXES = Some pre"
    and path: "path = pre @ o' @ ''/emulated/'' @ fmt_i32 u" and "slash \<notin> set o'" and "o' \<noteq> []" and "0 \<le> u"
  shows "resolve_mnt_emulated_alias path
    = (if all_digits o' then storage_user_root_for_user u else path)"
proof -
  have "find_char slash (o' @ ''/emulated/'' @ fmt_i32 u) = Some (length o')"
    using assms(3) by (auto simp: find_char_Some)
  then show ?thesis
    using user_tail_of_user [OF assms(5), of "[]" path] assms(4) pre
    by (simp add: resolve_mnt_emulated_alias_def path Let_def strip_prefix_def)
qed

lemma canonical_components:
  "list_all (\<lambda>p. p \<noteq> [] \<and> slash \<notin> set p) ps \<Longrightarrow> canonical (slash # join_char slash ps)"
  by (rule canonical_join) (simp add: list_all_iff)

lemma normalize_components:
  assumes "list_all (\<lambda>p. p \<noteq> [] \<and> slash \<notin> set p) ps" and "path = slash # join_char slash ps"
  shows "normalize path = resolve_storage_alias path"
  using canonical_components [OF assms(1)] assms(2) by (simp add: normalize_of_canonical)

lemmas user_segment = fmt_i32_no_slash fmt_i32_nonempty

lemma normalize_storage_root: "normalize (storage_user_root_for_user u) = storage_user_root_for_user u"
proof -
  have "normalize (storage_user_root_for_user u) = resolve_storage_alias (storage_user_root_for_user u)"
    by (rule normalize_components [of "[''storage'', ''emulated'', fmt_i32 u]"])
      (simp_all add: user_segment storage_user_root_for_user_def STORAGE_EMULATED_PREFIX_def)
  also have "\<dots> = storage_user_root_for_user u"
    by (rule resolve_storage_alias_id) (simp add: has_potential_storage_alias_def starts_with_str_def
        storage_user_root_for_user_def STORAGE_EMULATED_PREFIX_def DATA_MEDIA_PREFIX_def)
  finally show ?thesis .
qed

lemma normalize_data_media_root:
  assumes "0 \<le> u"
  shows "normalize (data_media_user_root_for_user u) = storage_user_root_for_user u"
proof -
  have "normalize (data_media_user_root_for_user u) = resolve_storage_alias (data_media_user_root_for_user u)"
    by (rule normalize_components [of "[''data'', ''media'', fmt_i32 u]"])
      (simp_all add: user_segment data_media_user_root_for_user_def DATA_MEDIA_PREFIX_def)
  then show ?thesis using user_tail_of_user [OF assms, of "[]"]
    by (simp add: resolve_storage_alias_def resolve_data_media_alias_def starts_with_str_def
        data_media_user_root_for_user_def DATA_MEDIA_PREFIX_def strip_prefix_def)
qed

lemma normalize_runtime_root:
  assumes "0 \<le> u" and tier: "tier \<in> {''default'', ''read'', ''write'', ''full''}"
  shows "normalize (''/mnt/runtime/'' @ tier @ ''/emulated/'' @ fmt_i32 u) = storage_user_root_for_user u"
proof -
  let ?p = "''/mnt/runtime/'' @ tier @ ''/emulated/'' @ fmt_i32 u"
  have t: "slash \<notin> set tier" "tier \<noteq> []" using tier by auto
  have "normalize ?p = resolve_storage_alias ?p"
    by (rule normalize_components [of "[''mnt'', ''runtime'', tier, ''emulated'', fmt_i32 u]"])
      (simp_all add: user_segment t)
  also have "\<dots> = resolve_mnt_runtime_alias ?p"
    by (simp add: resolve_storage_alias_def starts_with_str_def)
  also have "\<dots> = storage_user_root_for_user u"
  proof -
    have "find_char slash (tier @ ''/emulated/'' @ fmt_i32 u) = Some (length tier)"
      using t by (auto simp: find_char_Some)
    then show ?thesis using user_tail_of_user [OF assms(1), of "[]" ?p] tier
      by (simp add: resolve_mnt_runtime_alias_def strip_prefix_def)
  qed
  finally show ?thesis .
qed

definition mnt_areas :: "bytes set" where
  "mnt_areas = {''installer'', ''androidwritable'', ''pass_through''}"

lemma resolve_mnt_area:
  assumes "area \<in> mnt_areas"
  shows "resolve_storage_alias (''/mnt/'' @ area @ ''/'' @ rest)
      = resolve_mnt_emulated_alias (''/mnt/'' @ area @ ''/'' @ rest)"
    and "find (\<lambda>pre. starts_with_str (''/mnt/'' @ area @ ''/'' @ rest) pre) MNT_EMULATED_PREFIXES
      = Some (''/mnt/'' @ area @ ''/'')"
proof -
  consider "area = ''installer''" | "area = ''androidwritable''" | "area = ''pass_through''"
    using assms unfolding mnt_areas_def by blast
  note area = this
  from area show "resolve_storage_alias (''/mnt/'' @ area @ ''/'' @ rest)
      = resolve_mnt_emulated_alias (''/mnt/'' @ area @ ''/'' @ rest)"
    by cases (simp_all only:, simp_all add: resolve_storage_alias_def starts_with_str_def)
  from area show "find (\<lambda>pre. starts_with_str (''/mnt/'' @ area @ ''/'' @ rest) pre) MNT_EMULATED_PREFIXES
      = Some (''/mnt/'' @ area @ ''/'')"
    by cases (simp_all add: starts_with_str_def MNT_EMULATED_PREFIXES_def)
qed

lemma normalize_mnt_area:
  assumes area: "area \<in> mnt_areas" and u: "0 \<le> u" and o': "slash \<notin> set o'" "o' \<noteq> []"
  shows "normalize (''/mnt/'' @ area @ ''/'' @ o' @ ''/emulated/'' @ fmt_i32 u)
    = (if all_digits o' then storage_user_root_for_user u
       else ''/mnt/'' @ area @ ''/'' @ o' @ ''/emulated/'' @ fmt_i32 u)"
proof -
  let ?p = "''/mnt/'' @ area @ ''/'' @ o' @ ''/emulated/'' @ fmt_i32 u"
  have a: "slash \<notin> set area" "area \<noteq> []" using area by (auto simp: mnt_areas_def)
  have "normalize ?p = resolve_storage_alias ?p"
    by (rule normalize_components [of "[''mnt'', area, o', ''emulated'', fmt_i32 u]"])
      (simp_all add: user_segment a o')
  also have "\<dots> = resolve_mnt_emulated_alias ?p" by (rule resolve_mnt_area [OF area])
  also have "\<dots> = (if all_digits o' then storage_user_root_for_user u else ?p)"
    by (rule mnt_emulated_owner [OF resolve_mnt_area(2) [OF area]]) (simp_all add: o' u)
  finally show ?thesis .
qed

lemma normalize_mnt_area_short:
  assumes area: "area \<in> mnt_areas"
  shows "normalize (''/mnt/'' @ area @ ''/emulated/'' @ fmt_i32 u) = ''/mnt/'' @ area @ ''/emulated/'' @ fmt_i32 u"
proof -
  let ?p = "''/mnt/'' @ area @ ''/emulated/'' @ fmt_i32 u"
  have a: "slash \<notin> set area" "area \<noteq> []" using area by (auto simp: mnt_areas_def)
  have "normalize ?p = resolve_storage_alias ?p"
    by (rule normalize_components [of "[''mnt'', area, ''emulated'', fmt_i32 u]"])
      (simp_all add: user_segment a)
  also have "\<dots> = ?p"
  proof -
    have "find_char slash (''emulated/'' @ fmt_i32 u) = Some 8" by (simp add: eval_nat_numeral)
    moreover have "\<not> all_digits ''emulated''" by (simp add: all_digits_def is_ascii_digit_def)
    ultimately show ?thesis
      using resolve_mnt_area [OF area, of "''emulated/'' @ fmt_i32 u"]
      by (simp add: resolve_mnt_emulated_alias_def Let_def)
  qed
  finally show ?thesis .
qed

lemma normalize_mnt_user:
  assumes "0 \<le> u"
  shows "normalize (''/mnt/user/'' @ fmt_i32 u @ ''/emulated/'' @ fmt_i32 u) = storage_user_root_for_user u"
proof -
  let ?p = "''/mnt/user/'' @ fmt_i32 u @ ''/emulated/'' @ fmt_i32 u"
  have "normalize ?p = resolve_storage_alias ?p"
    by (rule normalize_components [of "[''mnt'', ''user'', fmt_i32 u, ''emulated'', fmt_i32 u]"])
      (simp_all add: user_segment)
  also have "\<dots> = resolve_mnt_emulated_alias ?p"
  proof -
    have "find_char slash (fmt_i32 u @ ''/emulated/'' @ fmt_i32 u) = Some (length (fmt_i32 u))"
      by (auto simp: find_char_Some fmt_i32_no_slash)
    then have "resolve_mnt_user_primary_alias ?p = ?p"
      by (simp add: resolve_mnt_user_primary_alias_def strip_prefix_def)
    then show ?thesis by (simp add: resolve_storage_alias_def starts_with_str_def Let_def)
  qed
  also have "\<dots> = (if all_digits (fmt_i32 u) then storage_user_root_for_user u else ?p)"
    by (rule mnt_emulated_owner)
      (simp_all add: assms user_segment MNT_EMULATED_PREFIXES_def starts_with_str_def)
  finally show ?thesis using fmt_i32_digits [OF assms] by simp
qed

text \<open>
  Exactly which of the alias roots the mount code creates for a user are recognised by the
  resolver: the public and the backend root, the per-user and the four runtime views and the three
  owner-qualified views all normalise to \<^verbatim>\<open>/storage/emulated/<user>\<close>;
  \<^verbatim>\<open>/storage/self/primary\<close> always means user 0; and the three views without an owner
  segment, like \<^verbatim>\<open>/storage/emulated/legacy\<close>, stay what they are.
\<close>

theorem alias_roots_normalized:
  assumes "0 \<le> u"
  shows "map normalize (storage_alias_roots_for_user u) =
    (let root = storage_user_root_for_user u
     in [root, root, storage_user_root_for_user 0]
        @ (if u = 0 then [''/storage/emulated/legacy''] else [])
        @ [root, root, root, root, root,
           root, ''/mnt/installer/emulated/'' @ fmt_i32 u,
           root, ''/mnt/androidwritable/emulated/'' @ fmt_i32 u,
           root, ''/mnt/pass_through/emulated/'' @ fmt_i32 u])"
proof -
  have primary: "normalize ''/storage/self/primary'' = storage_user_root_for_user 0"
    by code_simp
  have legacy: "normalize ''/storage/emulated/legacy'' = ''/storage/emulated/legacy''"
    by code_simp
  have area: "normalize (''/mnt/installer/'' @ fmt_i32 u @ ''/emulated/'' @ fmt_i32 u) = storage_user_root_for_user u"
    "normalize (''/mnt/androidwritable/'' @ fmt_i32 u @ ''/emulated/'' @ fmt_i32 u) = storage_user_root_for_user u"
    "normalize (''/mnt/pass_through/'' @ fmt_i32 u @ ''/emulated/'' @ fmt_i32 u) = storage_user_root_for_user u"
    using normalize_mnt_area [of "''installer''" u "fmt_i32 u"] normalize_mnt_area [of "''androidwritable''" u "fmt_i32 u"]
      normalize_mnt_area [of "''pass_through''" u "fmt_i32 u"] assms fmt_i32_digits [OF assms]
    by (simp_all add: mnt_areas_def user_segment)
  have short: "normalize (''/mnt/installer/emulated/'' @ fmt_i32 u) = ''/mnt/installer/emulated/'' @ fmt_i32 u"
    "normalize (''/mnt/androidwritable/emulated/'' @ fmt_i32 u) = ''/mnt/androidwritable/emulated/'' @ fmt_i32 u"
    "normalize (''/mnt/pass_through/emulated/'' @ fmt_i32 u) = ''/mnt/pass_through/emulated/'' @ fmt_i32 u"
    using normalize_mnt_area_short [of "''installer''" u] normalize_mnt_area_short [of "''androidwritable''" u]
      normalize_mnt_area_short [of "''pass_through''" u]
    by (simp_all add: mnt_areas_def)
  have runtime: "normalize (''/mnt/runtime/default/emulated/'' @ fmt_i32 u) = storage_user_root_for_user u"
    "normalize (''/mnt/runtime/read/emulated/'' @ fmt_i32 u) = storage_user_root_for_user u"
    "normalize (''/mnt/runtime/write/emulated/'' @ fmt_i32 u) = storage_user_root_for_user u"
    "normalize (''/mnt/runtime/full/emulated/'' @ fmt_i32 u) = storage_user_root_for_user u"
    using normalize_runtime_root [OF assms, of "''default''"] normalize_runtime_root [OF assms, of "''read''"]
      normalize_runtime_root [OF assms, of "''write''"] normalize_runtime_root [OF assms, of "''full''"]
    by simp_all
  show ?thesis
    unfolding storage_alias_roots_for_user_def Let_def list.map map_append
    by (simp only: normalize_storage_root normalize_data_media_root [OF assms] primary legacy
        normalize_mnt_user [OF assms] area short runtime list.map map_append if_distrib [of "map normalize"])
qed

theorem alias_roots_normalized_witness:
  "(0::int) \<le> 0 \<and> normalize ''/mnt/installer/emulated/0'' = ''/mnt/installer/emulated/0''
   \<and> normalize ''/mnt/installer/0/emulated/0'' = ''/storage/emulated/0''"
proof -
  have "(0::int) \<le> 0" by simp
  from alias_roots_normalized [OF this] show ?thesis
    by (simp add: storage_alias_roots_for_user_def Let_def storage_user_root_for_user_def
        STORAGE_EMULATED_PREFIX_def)
qed

section \<open>The data-plane anchor\<close>

text \<open>
  Once the host process has registered the anchor that stands for \<^verbatim>\<open>/data/media/0\<close>,
  a data-plane path below the anchor is turned by \<^verbatim>\<open>media_real_form_of\<close> into
  \<^verbatim>\<open>/data/media\<close> followed by the rest of the path: the user segment \<^verbatim>\<open>/0\<close> of the path the
  anchor stands for is lost, so the result is never the \<^verbatim>\<open>/data/media/0/...\<close> form under
  which overlays are registered.
\<close>

theorem media_real_form_loses_user:
  fixes anchor rest :: bytes
  assumes "rest = [] \<or> hd rest = CHR ''/''"
  defines "cell \<equiv> set_media_real_anchor_root anchor None"
  shows "media_real_form_of cell (data_media_user_root_for_current_ns cell 0 @ rest) = ''/data/media'' @ rest
    \<and> media_real_form_of cell (data_media_user_root_for_current_ns cell 0 @ rest)
        \<noteq> data_media_user_root_for_user 0 @ rest"
proof -
  have "strip_path_prefix (anchor @ rest) anchor = Some rest"
    using assms(1) by (simp add: strip_path_prefix_Some)
  then have "media_real_form_of cell (data_media_user_root_for_current_ns cell 0 @ rest) = ''/data/media'' @ rest"
    by (simp add: cell_def set_media_real_anchor_root_def media_real_form_of_def
        data_media_user_root_for_current_ns_def)
  moreover have "''/data/media'' @ rest \<noteq> ''/data/media/0'' @ rest" by (auto dest: arg_cong [of _ _ length])
  ultimately show ?thesis
    by (simp add: data_media_user_root_for_user_def DATA_MEDIA_PREFIX_def)
qed

theorem media_real_form_loses_user_witness:
  "media_real_form_of (set_media_real_anchor_root ''/a/0'' None)
     (data_media_user_root_for_current_ns (set_media_real_anchor_root ''/a/0'' None) 0 @ ''/Download'')
   = ''/data/media/Download''"
proof -
  have "''/Download'' = [] \<or> hd ''/Download'' = CHR ''/''" by simp
  from media_real_form_loses_user [OF this, of "''/a/0''"] show ?thesis by simp
qed

end
