(* ===== verification/Paths_Safety.thy ===== *)
theory Paths_Safety
  imports Paths_Roots
begin

text \<open>
  Model of \<^verbatim>\<open>src/platform/paths_safety.rs\<close>: the predicates that refuse unsafe rule paths,
  protect application-private directories and recover the display path of a MediaStore pending
  file. (\<^verbatim>\<open>has_unsafe_segments\<close> of the same source file is in theory \<open>Paths\<close>, because
  the dot-segment code uses it.) The lemmas restate each scanner over path components.
\<close>

section \<open>Model\<close>

definition is_filtered_media_provider_path :: "bytes \<Rightarrow> bool" where
  "is_filtered_media_provider_path path \<longleftrightarrow>
     contains_str path ''/.transforms/'' \<or> ends_with_str path ''/.transforms''
     \<or> contains_str path ''/.picker_transcoded/'' \<or> ends_with_str path ''/.picker_transcoded''"

definition media_store_pending_display_path :: "bytes \<Rightarrow> bytes option" where
  "media_store_pending_display_path path =
     (case rfind_char slash path of
        None \<Rightarrow> None
      | Some sl \<Rightarrow>
          (case strip_prefix (drop (Suc sl) path) ''.pending-'' of
             None \<Rightarrow> None
           | Some pending_tail \<Rightarrow>
               (case find_char (CHR ''-'') pending_tail of
                  None \<Rightarrow> None
                | Some i \<Rightarrow>
                    (let display_name_start = i + 1
                     in if length pending_tail \<le> display_name_start then None
                        else Some (trim_end_char slash (take sl path) @ ''/''
                               @ drop display_name_start pending_tail)))))"

definition is_safe_namespace_path :: "bytes \<Rightarrow> bool" where
  "is_safe_namespace_path path =
     (if path = [] \<or> path = ''/'' \<or> \<not> is_absolute path \<or> has_unsafe_segments path then False
      else list_all (\<lambda>pre. path \<noteq> pre \<and> \<not> starts_with_str path (pre @ ''/''))
             [''/proc'', ''/sys'', ''/dev'', ''/data/adb''])"

definition is_application_private_root :: "bytes \<Rightarrow> bool" where
  "is_application_private_root path =
     (let normalized = trim_end_char slash (normalize path)
      in if normalized = [] then False
         else (case strip_prefix normalized STORAGE_EMULATED_PREFIX of
             Some rest \<Rightarrow>
               (case nonempty_parts slash rest of
                  [] \<Rightarrow> False
                | user_id # parts \<Rightarrow>
                    if user_id \<noteq> ''legacy'' \<and> \<not> list_all is_ascii_digit user_id then False
                    else (case parts of
                        [android, category, package] \<Rightarrow>
                          android = ''Android'' \<and> category \<in> {''data'', ''media'', ''obb''}
                          \<and> is_valid_package_name package
                      | _ \<Rightarrow> False))
           | None \<Rightarrow>
               (case nonempty_parts slash
                       (case strip_prefix normalized ''/'' of Some r \<Rightarrow> r | None \<Rightarrow> normalized) of
                  [first, second, package] \<Rightarrow>
                    first = ''data'' \<and> second = ''data'' \<and> is_valid_package_name package
                | first # second # user_id # package # parts \<Rightarrow>
                    first = ''data'' \<and> second \<in> {''user'', ''user_de''}
                    \<and> list_all is_ascii_digit user_id \<and> is_valid_package_name package \<and> parts = []
                | _ \<Rightarrow> False)))"

definition is_sqlite_database_or_sidecar_path :: "bytes \<Rightarrow> bool" where
  "is_sqlite_database_or_sidecar_path path =
     (let file_name = to_ascii_lowercase (last (split_char slash path))
      in list_ex (ends_with_str file_name)
           [''.db'', ''.db-shm'', ''.db-wal'', ''.db-journal'',
            ''.sqlite'', ''.sqlite-shm'', ''.sqlite-wal'', ''.sqlite-journal'',
            ''.sqlite3'', ''.sqlite3-shm'', ''.sqlite3-wal'', ''.sqlite3-journal''])"

section \<open>Pending files\<close>

lemma rfind_slash_split:
  "rfind_char slash p = Some i \<longleftrightarrow> (\<exists>d f. p = d @ slash # f \<and> slash \<notin> set f \<and> i = length d)"
proof -
  have "\<exists>d f. p = d @ slash # f \<and> slash \<notin> set f \<and> i = length d"
    if "i < length p" "p ! i = slash" "slash \<notin> set (drop (Suc i) p)"
    using that id_take_nth_drop [of i p]
    by (intro exI [of _ "take i p"] exI [of _ "drop (Suc i) p"]) simp
  then show ?thesis by (auto simp: rfind_char_Some nth_append)
qed

text \<open>
  \<^verbatim>\<open>media_store_pending_display_path\<close> inverts exactly the MediaStore naming scheme: it
  answers for a path if and only if its file name reads \<^verbatim>\<open>.pending-<id>-<name>\<close> with a
  dash-free id and a nonempty display name, and the answer is that name in the same directory.
  A display name that itself contains dashes is recovered whole.
\<close>

theorem pending_display_path_iff:
  "media_store_pending_display_path p = Some q \<longleftrightarrow>
     (\<exists>dir i name. p = dir @ ''/.pending-'' @ i @ ''-'' @ name \<and> slash \<notin> set i \<and> CHR ''-'' \<notin> set i
        \<and> name \<noteq> [] \<and> slash \<notin> set name \<and> q = trim_end_char slash dir @ ''/'' @ name)"
  (is "?l \<longleftrightarrow> ?r")
proof
  assume ?l
  then obtain sl tail k where sl: "rfind_char slash p = Some sl"
    and tail: "strip_prefix (drop (Suc sl) p) ''.pending-'' = Some tail"
    and k: "find_char (CHR ''-'') tail = Some k" and len: "k + 1 < length tail"
    and q: "q = trim_end_char slash (take sl p) @ ''/'' @ drop (k + 1) tail"
    by (auto simp: media_store_pending_display_path_def Let_def split: option.splits if_splits)
  from sl obtain d f where p: "p = d @ slash # f" "slash \<notin> set f" "sl = length d"
    by (auto simp: rfind_slash_split)
  from tail p have f: "f = ''.pending-'' @ tail" by (simp add: strip_prefix_Some)
  from k have t: "tail = take k tail @ ''-'' @ drop (k + 1) tail" "CHR ''-'' \<notin> set (take k tail)"
    using id_take_nth_drop [of k tail] by (simp_all add: find_char_Some)
  have "slash \<notin> set tail" using p f by simp
  then have "slash \<notin> set (take k tail)" "slash \<notin> set (drop (k + 1) tail)"
    by (auto dest: in_set_takeD in_set_dropD)
  then show ?r using p f q len t
    by (intro exI [of _ d] exI [of _ "take k tail"] exI [of _ "drop (k + 1) tail"]) simp
next
  assume ?r
  then obtain dir i name where p: "p = dir @ slash # (''.pending-'' @ i @ ''-'' @ name)"
    and i: "slash \<notin> set i" "CHR ''-'' \<notin> set i" and name: "name \<noteq> []" "slash \<notin> set name"
    and q: "q = trim_end_char slash dir @ ''/'' @ name" by auto
  have "rfind_char slash p = Some (length dir)"
    using p i name by (subst rfind_slash_split) (intro exI [of _ dir] exI, auto)
  moreover have "find_char (CHR ''-'') (i @ ''-'' @ name) = Some (length i)"
    using i by (auto simp: find_char_Some nth_append in_set_conv_nth)
  ultimately show ?l using p q name
    by (simp add: media_store_pending_display_path_def Let_def strip_prefix_def)
qed

section \<open>Protected directories\<close>

lemma canonical_not_root_segs: "canonical p \<Longrightarrow> p \<noteq> ''/'' \<Longrightarrow> segs p \<noteq> []"
  by (auto simp: canonical_def)

lemma canonical_under:
  assumes "canonical p" and "canonical r" and "r \<noteq> ''/''"
  shows "p \<noteq> r \<and> \<not> starts_with_str p (r @ ''/'') \<longleftrightarrow> \<not> prefix (segs r) (segs p)"
  using canonical_prefix_iff [OF assms] by (auto simp: starts_with_str_iff)

lemma prefix_one: "prefix [a] xs \<longleftrightarrow> xs \<noteq> [] \<and> hd xs = a"
  by (cases xs) auto

text \<open>
  On a normal-form path the namespace safety check is a check on components: the path has one,
  none of them is \<^verbatim>\<open>.\<close> or \<^verbatim>\<open>..\<close>, the first is not \<^verbatim>\<open>proc\<close>, \<^verbatim>\<open>sys\<close> or \<^verbatim>\<open>dev\<close>, and the
  first two are not \<^verbatim>\<open>data\<close>, \<^verbatim>\<open>adb\<close>. A sibling such as \<^verbatim>\<open>/devices\<close> is not refused.
\<close>

theorem safe_namespace_path_components:
  assumes "canonical p"
  shows "is_safe_namespace_path p \<longleftrightarrow>
    (let cs = nonempty_parts slash p
     in cs \<noteq> [] \<and> ''.'' \<notin> set cs \<and> ''..'' \<notin> set cs
        \<and> hd cs \<notin> {''proc'', ''sys'', ''dev''} \<and> take 2 cs \<noteq> [''data'', ''adb''])"
proof (cases "p = ''/''")
  case False
  have c: "canonical ''/proc''" "canonical ''/sys''" "canonical ''/dev''" "canonical ''/data/adb''"
    by code_simp+
  have s: "segs ''/proc'' = [''proc'']" "segs ''/sys'' = [''sys'']" "segs ''/dev'' = [''dev'']"
    "segs ''/data/adb'' = [''data'', ''adb'']"
    by code_simp+
  have "is_absolute p" "p \<noteq> []" using assms by (auto simp: canonical_iff is_absolute_def starts_with_str_iff)
  moreover have "prefix [''data'', ''adb''] cs \<longleftrightarrow> take 2 cs = [''data'', ''adb'']" for cs
    by (cases cs; cases "tl cs") auto
  ultimately show ?thesis
    using False canonical_not_root_segs [OF assms False] canonical_under [OF assms c(1), unfolded s prefix_one]
      canonical_under [OF assms c(2), unfolded s prefix_one] canonical_under [OF assms c(3), unfolded s prefix_one] canonical_under [OF assms c(4), unfolded s prefix_one]
    by (simp add: is_safe_namespace_path_def has_unsafe_segments_iff Let_def)
qed (simp add: is_safe_namespace_path_def)

theorem safe_namespace_path_components_witness:
  "canonical ''/data/adb2/x'' \<and> is_safe_namespace_path ''/data/adb2/x''"
proof -
  have c: "canonical ''/data/adb2/x''" by code_simp
  have "nonempty_parts slash ''/data/adb2/x'' = [''data'', ''adb2'', ''x'']" by code_simp
  with c safe_namespace_path_components [OF c] show ?thesis by simp
qed

definition private_root_components :: "bytes list \<Rightarrow> bool" where
  "private_root_components cs \<longleftrightarrow>
     (\<exists>user category package. cs = [''storage'', ''emulated'', user, ''Android'', category, package]
        \<and> (user = ''legacy'' \<or> list_all is_ascii_digit user) \<and> category \<in> {''data'', ''media'', ''obb''}
        \<and> is_valid_package_name package)
     \<or> (\<exists>package. cs = [''data'', ''data'', package] \<and> is_valid_package_name package)
     \<or> (\<exists>store user package. cs = [''data'', store, user, package] \<and> store \<in> {''user'', ''user_de''}
        \<and> list_all is_ascii_digit user \<and> is_valid_package_name package)"

lemma up_to_five_cases:
  obtains "xs = []" | a where "xs = [a]" | a b where "xs = [a, b]" | a b c where "xs = [a, b, c]"
  | a b c d where "xs = [a, b, c, d]" | a b c d e r where "xs = a # b # c # d # e # r"
  by (metis list.exhaust)

lemma private_root_prefix:
  "strip_prefix n STORAGE_EMULATED_PREFIX = Some rest \<Longrightarrow> segs n = [''storage'', ''emulated''] @ segs rest"
  using nonempty_parts_append_sep [of slash "''/storage/emulated''" rest]
  by (simp add: strip_prefix_Some STORAGE_EMULATED_PREFIX_def nonempty_parts_def)

lemma private_root_no_prefix:
  assumes "canonical n" and "strip_prefix n STORAGE_EMULATED_PREFIX = None" and "segs n = ''storage'' # ''emulated'' # cs"
  shows "cs = []"
proof (rule ccontr)
  assume "cs \<noteq> []"
  then have "n = ''/storage/emulated/'' @ join_char slash cs"
    using assms(1,3) by (cases cs) (simp_all add: canonical_def)
  with assms(2) show False by (simp add: strip_prefix_None STORAGE_EMULATED_PREFIX_def)
qed

text \<open>
  \<^verbatim>\<open>is_application_private_root\<close> accepts an absolute path exactly when its normal form
  consists of the components of one of the three private-root layouts: the
  \<^verbatim>\<open>Android/{data,media,obb}/<package>\<close> directory of a user's shared storage,
  \<^verbatim>\<open>/data/data/<package>\<close>, or \<^verbatim>\<open>/data/{user,user_de}/<user>/<package>\<close>. Neither a parent
  nor anything below such a directory is a private root.
\<close>

theorem application_private_root_components:
  assumes "is_absolute path"
  shows "is_application_private_root path
    \<longleftrightarrow> private_root_components (nonempty_parts slash (normalize path))"
proof -
  let ?n = "normalize path"
  have c: "canonical ?n" by (rule normalize_canonical [OF assms])
  then obtain t where t: "?n = slash # t" by (metis canonical_def)
  show ?thesis
  proof (cases "?n = ''/''")
    case True
    then show ?thesis
      by (simp add: is_application_private_root_def private_root_components_def trim_end_char_def Let_def)
  next
    case False
    with c have trim: "trim_end_char slash ?n = ?n" by (intro canonical_trim)
    show ?thesis
    proof (cases "strip_prefix ?n STORAGE_EMULATED_PREFIX")
      case (Some rest)
      have n: "segs ?n = [''storage'', ''emulated''] @ segs rest" by (rule private_root_prefix [OF Some])
      show ?thesis unfolding is_application_private_root_def private_root_components_def trim n Let_def Some
        by (cases "segs rest" rule: up_to_five_cases) (use t in \<open>simp_all\<close>)
    next
      case None
      have t': "(case strip_prefix ?n ''/'' of Some r \<Rightarrow> r | None \<Rightarrow> ?n) = t" "?n \<noteq> []"
        using t by (simp_all add: strip_prefix_def)
      have n: "segs t = segs ?n" using t by simp
      have "\<not> (\<exists>u x y z. segs ?n = [''storage'', ''emulated'', u, x, y, z])"
        using private_root_no_prefix [OF c None] by blast
      then show ?thesis
        unfolding is_application_private_root_def private_root_components_def trim Let_def None t' n option.case
        by (cases "segs ?n" rule: up_to_five_cases) (simp_all add: t')
    qed
  qed
qed

theorem application_private_root_components_witness:
  "is_absolute ''/sdcard/Android/data/com.x'' \<and> is_application_private_root ''/sdcard/Android/data/com.x''"
proof -
  have a: "is_absolute ''/sdcard/Android/data/com.x''" by code_simp
  have "nonempty_parts slash (normalize ''/sdcard/Android/data/com.x'')
      = [''storage'', ''emulated'', ''0'', ''Android'', ''data'', ''com.x'']" by code_simp
  moreover have "is_valid_package_name ''com.x''" "list_all is_ascii_digit ''0''" by code_simp+
  ultimately show ?thesis using a application_private_root_components [OF a]
    by (simp add: private_root_components_def)
qed

end
