(* ===== verification/Hook_Context.thy ===== *)
theory Hook_Context
  imports Paths_Safety
begin

text \<open>
  Model of \<^verbatim>\<open>src/hook/context.rs\<close>: what a hooked thread knows about the request it serves. The
  thread-local cells are the fields of \<^verbatim>\<open>hook_thread\<close>, the process-wide cells those of
  \<^verbatim>\<open>hook_process\<close>; each function takes the cells it touches and returns them. The clock
  \<^verbatim>\<open>monotonic_ms()\<close>, the process's own uid and the text of \<^verbatim>\<open>/proc/self/status\<close> are
  arguments.
\<close>

section \<open>Model: the cells\<close>

record hook_thread =
  caller_package :: bytes
  caller_uid :: i32
  caller_ts_ms :: int
  caller_from_external_signal :: bool
  caller_from_mapping_request_owner :: bool
  caller_scope_stack :: "(bytes \<times> i32) list"
  fuse_caller_uid :: i32
  fuse_caller_uid_ts_ms :: int
  fuse_caller_pid :: i32
  monitor_caller_pid :: i32
  monitor_caller_pid_ts_ms :: int
  monitor_caller_uid :: i32
  monitor_caller_uid_ts_ms :: int
  binder_saved_caller_uid :: i32
  binder_saved_caller_uid_ts_ms :: int
  binder_saved_caller_package :: bytes
  binder_identity_cleared :: bool
  reentry_depth :: nat
  provider_passthrough_depth :: nat
  provider_virtual_scope_depth :: nat
  provider_virtual_dirs :: "(bytes \<times> bytes) list"
  explicit_caller_decision_depth :: nat
  path_owner_inference_disabled_depth :: nat

definition hook_thread_new :: hook_thread where
  "hook_thread_new =
     \<lparr>caller_package = [], caller_uid = -1, caller_ts_ms = -1, caller_from_external_signal = False,
      caller_from_mapping_request_owner = False, caller_scope_stack = [],
      fuse_caller_uid = -1, fuse_caller_uid_ts_ms = -1, fuse_caller_pid = -1,
      monitor_caller_pid = -1, monitor_caller_pid_ts_ms = -1,
      monitor_caller_uid = -1, monitor_caller_uid_ts_ms = -1,
      binder_saved_caller_uid = -1, binder_saved_caller_uid_ts_ms = -1, binder_saved_caller_package = [],
      binder_identity_cleared = False, reentry_depth = 0, provider_passthrough_depth = 0,
      provider_virtual_scope_depth = 0, provider_virtual_dirs = [],
      explicit_caller_decision_depth = 0, path_owner_inference_disabled_depth = 0\<rparr>"

record system_fuse_request_slot =
  slot_uid :: i32
  slot_pid :: i32
  slot_at_ms :: int

record process_mapped_dir =
  md_request :: bytes
  md_target :: bytes
  md_at_ms :: int

record hook_process =
  cross_thread_caller_uid :: i32
  cross_thread_caller_pid :: i32
  cross_thread_caller_ts_ms :: int
  system_fuse_request :: system_fuse_request_slot
  process_mapped_dirs :: "process_mapped_dir list"

definition hook_process_new :: hook_process where
  "hook_process_new =
     \<lparr>cross_thread_caller_uid = -1, cross_thread_caller_pid = -1, cross_thread_caller_ts_ms = -1,
      system_fuse_request = \<lparr>slot_uid = -1, slot_pid = -1, slot_at_ms = -1\<rparr>, process_mapped_dirs = []\<rparr>"

definition CROSS_THREAD_CALLER_WINDOW_MS :: int where
  "CROSS_THREAD_CALLER_WINDOW_MS = 1500"

definition PROVIDER_PASSTHROUGH_VIRTUAL_DIR_MAX :: nat where
  "PROVIDER_PASSTHROUGH_VIRTUAL_DIR_MAX = 16"

definition MONITOR_CALLER_UID_WINDOW_MS :: int where
  "MONITOR_CALLER_UID_WINDOW_MS = 2000"

definition MONITOR_CALLER_PID_WINDOW_MS :: int where
  "MONITOR_CALLER_PID_WINDOW_MS = 2000"

definition PROCESS_MAPPED_DIR_TTL_MS :: int where
  "PROCESS_MAPPED_DIR_TTL_MS = 8000"

definition PROCESS_MAPPED_DIR_MAX :: nat where
  "PROCESS_MAPPED_DIR_MAX = 64"

section \<open>Model: evidence across threads\<close>

definition remember_cross_thread_caller :: "i32 \<Rightarrow> int \<Rightarrow> i32 \<Rightarrow> i32 \<Rightarrow> hook_process \<Rightarrow> hook_process" where
  "remember_cross_thread_caller self_uid now uid pid pr =
     (if uid < 0 then pr
      else if uid = self_uid then pr
      else pr\<lparr>cross_thread_caller_uid := uid,
              cross_thread_caller_pid := if 0 < pid then pid else -1,
              cross_thread_caller_ts_ms := now\<rparr>)"

definition cross_thread_caller_in_window :: "int \<Rightarrow> hook_process \<Rightarrow> (i32 \<times> i32) option" where
  "cross_thread_caller_in_window now pr =
     (let ts = cross_thread_caller_ts_ms pr; uid = cross_thread_caller_uid pr
      in if ts < 0 then None
         else if uid < 0 then None
         else if now < ts \<or> CROSS_THREAD_CALLER_WINDOW_MS < now - ts then None
         else Some (uid, cross_thread_caller_pid pr))"

text \<open>
  The fourth number of the \<^verbatim>\<open>Uid:\<close> line of the status text; the argument is what one \<^verbatim>\<open>read\<close>
  returned, \<^verbatim>\<open>None\<close> when the file could not be opened or read.
\<close>

fun uid_line_fields :: "bytes list \<Rightarrow> bytes list option" where
  "uid_line_fields [] = None"
| "uid_line_fields (line # rest) =
     (case strip_prefix line ''Uid:'' of
        Some columns \<Rightarrow> Some (concat (map (nonempty_parts (CHR 0x09)) (split_char (CHR '' '') columns)))
      | None \<Rightarrow> uid_line_fields rest)"

definition fsuid_from_proc_status :: "bytes option \<Rightarrow> i32" where
  "fsuid_from_proc_status status =
     (case status of
        None \<Rightarrow> -1
      | Some tx \<Rightarrow>
          (case uid_line_fields (split_char (CHR 0x0A) tx) of
             None \<Rightarrow> -1
           | Some columns \<Rightarrow>
               if 3 < length columns then (case parse_i32 (trim (columns ! 3)) of Some uid \<Rightarrow> uid | None \<Rightarrow> -1)
               else -1))"

definition monitor_caller_uid_in_window :: "int \<Rightarrow> hook_thread \<Rightarrow> i32 option" where
  "monitor_caller_uid_in_window now th =
     (let uid = monitor_caller_uid th; ts = monitor_caller_uid_ts_ms th
      in if uid < 0 then None
         else if ts < 0 \<or> now < ts \<or> MONITOR_CALLER_UID_WINDOW_MS < now - ts then None
         else Some uid)"

definition record_caller_uid ::
  "i32 \<Rightarrow> bytes option \<Rightarrow> int \<Rightarrow> hook_thread \<Rightarrow> hook_process \<Rightarrow> i32 \<times> bool" where
  "record_caller_uid self_uid status now th pr =
     (let direct = (case monitor_caller_uid_in_window now th of
                      Some uid \<Rightarrow> uid
                    | None \<Rightarrow> if 0 \<le> caller_uid th then caller_uid th else fsuid_from_proc_status status)
      in if direct \<noteq> self_uid then (direct, False)
         else (case cross_thread_caller_in_window now pr of
                 Some (external_uid, _) \<Rightarrow> (external_uid, True)
               | None \<Rightarrow> (direct, False)))"

definition get_effective_caller_pid_for_monitor :: "int \<Rightarrow> hook_thread \<Rightarrow> i32" where
  "get_effective_caller_pid_for_monitor now th =
     (let pid = monitor_caller_pid th; ts = monitor_caller_pid_ts_ms th
      in if pid \<le> 0 then -1
         else if ts < 0 \<or> now < ts \<or> MONITOR_CALLER_PID_WINDOW_MS < now - ts then -1
         else pid)"

definition record_caller_pid :: "int \<Rightarrow> bool \<Rightarrow> hook_thread \<Rightarrow> hook_process \<Rightarrow> i32" where
  "record_caller_pid now cross_thread th pr =
     (let pid = get_effective_caller_pid_for_monitor now th
      in if 0 < pid then pid
         else if cross_thread then
           (case cross_thread_caller_in_window now pr of Some (_, external_pid) \<Rightarrow> external_pid | None \<Rightarrow> -1)
         else -1)"

definition get_effective_caller_uid_for_monitor :: "bytes option \<Rightarrow> int \<Rightarrow> hook_thread \<Rightarrow> i32" where
  "get_effective_caller_uid_for_monitor status now th =
     (case monitor_caller_uid_in_window now th of
        Some uid \<Rightarrow> uid
      | None \<Rightarrow> if 0 \<le> caller_uid th then caller_uid th else fsuid_from_proc_status status)"

section \<open>Model: depth counters\<close>

definition ReentryGuard_enter :: "hook_thread \<Rightarrow> hook_thread" where
  "ReentryGuard_enter th = th\<lparr>reentry_depth := (reentry_depth th + 1) mod 2 ^ 32\<rparr>"

definition ReentryGuard_drop :: "hook_thread \<Rightarrow> hook_thread" where
  "ReentryGuard_drop th =
     (let current = reentry_depth th in if 0 < current then th\<lparr>reentry_depth := current - 1\<rparr> else th)"

definition is_reentrant :: "hook_thread \<Rightarrow> bool" where
  "is_reentrant th \<longleftrightarrow> 0 < reentry_depth th"

definition enter_explicit_caller_decision :: "hook_thread \<Rightarrow> hook_thread" where
  "enter_explicit_caller_decision th =
     th\<lparr>explicit_caller_decision_depth := sat_inc_u32 (explicit_caller_decision_depth th)\<rparr>"

definition ExplicitCallerDecisionGuard_drop :: "hook_thread \<Rightarrow> hook_thread" where
  "ExplicitCallerDecisionGuard_drop th =
     (let current = explicit_caller_decision_depth th
      in if 0 < current then th\<lparr>explicit_caller_decision_depth := current - 1\<rparr> else th)"

definition is_explicit_caller_decision_active :: "hook_thread \<Rightarrow> bool" where
  "is_explicit_caller_decision_active th \<longleftrightarrow> 0 < explicit_caller_decision_depth th"

definition enter_path_owner_inference_disabled :: "hook_thread \<Rightarrow> hook_thread" where
  "enter_path_owner_inference_disabled th =
     th\<lparr>path_owner_inference_disabled_depth := sat_inc_u32 (path_owner_inference_disabled_depth th)\<rparr>"

definition PathOwnerInferenceGuard_drop :: "hook_thread \<Rightarrow> hook_thread" where
  "PathOwnerInferenceGuard_drop th =
     (let current = path_owner_inference_disabled_depth th
      in if 0 < current then th\<lparr>path_owner_inference_disabled_depth := current - 1\<rparr> else th)"

definition is_path_owner_inference_disabled :: "hook_thread \<Rightarrow> bool" where
  "is_path_owner_inference_disabled th \<longleftrightarrow> 0 < path_owner_inference_disabled_depth th"

section \<open>Model: the current caller\<close>

definition set_current_caller_package :: "int \<Rightarrow> bytes \<Rightarrow> hook_thread \<Rightarrow> hook_thread" where
  "set_current_caller_package now name th =
     th\<lparr>caller_package := name, caller_ts_ms := now, caller_from_external_signal := False,
        caller_from_mapping_request_owner := False\<rparr>"

definition set_current_caller_uid :: "int \<Rightarrow> i32 \<Rightarrow> hook_thread \<Rightarrow> hook_thread" where
  "set_current_caller_uid now uid th =
     th\<lparr>caller_uid := uid, caller_ts_ms := now, caller_from_external_signal := False,
        caller_from_mapping_request_owner := False\<rparr>"

definition get_current_caller_age_ms :: "int \<Rightarrow> hook_thread \<Rightarrow> int" where
  "get_current_caller_age_ms now th =
     (let ts = caller_ts_ms th in if ts < 0 \<or> now < ts then -1 else now - ts)"

definition clear_current_caller :: "hook_thread \<Rightarrow> hook_thread" where
  "clear_current_caller th =
     th\<lparr>caller_package := [], caller_uid := -1, caller_ts_ms := -1, caller_from_external_signal := False,
        caller_from_mapping_request_owner := False\<rparr>"

definition set_current_caller_from_external_signal :: "int \<Rightarrow> bytes \<Rightarrow> i32 \<Rightarrow> hook_thread \<Rightarrow> hook_thread" where
  "set_current_caller_from_external_signal now package_name uid th =
     th\<lparr>caller_package := package_name, caller_uid := uid, caller_ts_ms := now,
        caller_from_external_signal := True\<rparr>"

definition set_current_caller_from_mapping_request_owner ::
  "int \<Rightarrow> bytes \<Rightarrow> i32 \<Rightarrow> hook_thread \<Rightarrow> hook_thread" where
  "set_current_caller_from_mapping_request_owner now package_name uid th =
     th\<lparr>caller_package := package_name, caller_uid := uid, caller_ts_ms := now,
        caller_from_external_signal := False, caller_from_mapping_request_owner := True\<rparr>"

definition push_current_caller_scope :: "int \<Rightarrow> bytes \<Rightarrow> i32 \<Rightarrow> hook_thread \<Rightarrow> hook_thread" where
  "push_current_caller_scope now package_name uid th =
     th\<lparr>caller_scope_stack := caller_scope_stack th @ [(caller_package th, caller_uid th)],
        caller_package := package_name, caller_uid := uid, caller_ts_ms := now,
        caller_from_external_signal := False, caller_from_mapping_request_owner := False\<rparr>"

definition pop_current_caller_scope :: "int \<Rightarrow> hook_thread \<Rightarrow> hook_thread" where
  "pop_current_caller_scope now th =
     (if caller_scope_stack th = [] then clear_current_caller th
      else let (package_name, uid) = last (caller_scope_stack th)
        in th\<lparr>caller_scope_stack := butlast (caller_scope_stack th),
              caller_package := package_name, caller_uid := uid,
              caller_ts_ms := if 0 \<le> uid then now else -1,
              caller_from_external_signal := False, caller_from_mapping_request_owner := False\<rparr>)"

definition is_current_caller_scope_active :: "hook_thread \<Rightarrow> bool" where
  "is_current_caller_scope_active th \<longleftrightarrow> caller_scope_stack th \<noteq> []"

section \<open>Model: request headers, monitor slots, binder identity\<close>

definition set_fuse_caller_uid :: "int \<Rightarrow> i32 \<Rightarrow> hook_thread \<Rightarrow> hook_thread" where
  "set_fuse_caller_uid now uid th = th\<lparr>fuse_caller_uid := uid, fuse_caller_uid_ts_ms := now\<rparr>"

definition set_fuse_caller_pid :: "i32 \<Rightarrow> hook_thread \<Rightarrow> hook_thread" where
  "set_fuse_caller_pid pid th = th\<lparr>fuse_caller_pid := pid\<rparr>"

definition get_fuse_caller_uid_age_ms :: "int \<Rightarrow> hook_thread \<Rightarrow> int" where
  "get_fuse_caller_uid_age_ms now th =
     (let ts = fuse_caller_uid_ts_ms th in if ts < 0 \<or> now < ts then -1 else now - ts)"

definition set_monitor_caller_pid :: "int \<Rightarrow> i32 \<Rightarrow> hook_thread \<Rightarrow> hook_thread" where
  "set_monitor_caller_pid now pid th =
     th\<lparr>monitor_caller_pid := pid, monitor_caller_pid_ts_ms := if 0 < pid then now else -1\<rparr>"

definition set_monitor_caller_uid :: "int \<Rightarrow> i32 \<Rightarrow> hook_thread \<Rightarrow> hook_thread" where
  "set_monitor_caller_uid now uid th =
     th\<lparr>monitor_caller_uid := uid, monitor_caller_uid_ts_ms := if 0 \<le> uid then now else -1\<rparr>"

definition clear_fuse_caller_uid :: "hook_thread \<Rightarrow> hook_thread" where
  "clear_fuse_caller_uid th = th\<lparr>fuse_caller_uid := -1, fuse_caller_uid_ts_ms := -1, fuse_caller_pid := -1\<rparr>"

definition set_system_fuse_request :: "int \<Rightarrow> i32 \<Rightarrow> i32 \<Rightarrow> hook_process \<Rightarrow> hook_process" where
  "set_system_fuse_request now uid pid pr =
     (if uid < 0 \<or> pid \<le> 0 then pr
      else pr\<lparr>system_fuse_request := \<lparr>slot_uid = uid, slot_pid = pid, slot_at_ms = now\<rparr>\<rparr>)"

definition take_recent_system_fuse_request ::
  "int \<Rightarrow> int \<Rightarrow> hook_process \<Rightarrow> (i32 \<times> i32) option \<times> hook_process" where
  "take_recent_system_fuse_request now max_age_ms pr =
     (let slot = system_fuse_request pr
      in if slot_uid slot < 0 \<or> slot_pid slot \<le> 0 then (None, pr)
         else let age = sat_sub_i64 now (slot_at_ms slot);
                  pr = pr\<lparr>system_fuse_request := \<lparr>slot_uid = -1, slot_pid = -1, slot_at_ms = -1\<rparr>\<rparr>
           in (if 0 \<le> age \<and> age \<le> max_age_ms then Some (slot_uid slot, slot_pid slot) else None, pr))"

definition set_binder_saved_caller_uid :: "int \<Rightarrow> i32 \<Rightarrow> hook_thread \<Rightarrow> hook_thread" where
  "set_binder_saved_caller_uid now uid th =
     th\<lparr>binder_saved_caller_uid := uid, binder_saved_caller_uid_ts_ms := now, binder_saved_caller_package := []\<rparr>"

definition set_binder_saved_caller_package :: "int \<Rightarrow> bytes \<Rightarrow> hook_thread \<Rightarrow> hook_thread" where
  "set_binder_saved_caller_package now package_name th =
     th\<lparr>binder_saved_caller_package := package_name, binder_saved_caller_uid_ts_ms := now\<rparr>"

definition get_binder_saved_caller_uid_age_ms :: "int \<Rightarrow> hook_thread \<Rightarrow> int" where
  "get_binder_saved_caller_uid_age_ms now th =
     (let ts = binder_saved_caller_uid_ts_ms th in if ts < 0 \<or> now < ts then -1 else now - ts)"

definition clear_binder_saved_caller_uid :: "hook_thread \<Rightarrow> hook_thread" where
  "clear_binder_saved_caller_uid th =
     th\<lparr>binder_saved_caller_uid := -1, binder_saved_caller_uid_ts_ms := -1, binder_saved_caller_package := []\<rparr>"

definition set_binder_identity_cleared :: "bool \<Rightarrow> hook_thread \<Rightarrow> hook_thread" where
  "set_binder_identity_cleared cleared th = th\<lparr>binder_identity_cleared := cleared\<rparr>"

section \<open>Model: directories that exist only for the provider\<close>

definition enter_provider_passthrough :: "hook_thread \<Rightarrow> hook_thread" where
  "enter_provider_passthrough th = th\<lparr>provider_passthrough_depth := sat_inc_u32 (provider_passthrough_depth th)\<rparr>"

definition is_provider_passthrough_active :: "hook_thread \<Rightarrow> bool" where
  "is_provider_passthrough_active th \<longleftrightarrow> 0 < provider_passthrough_depth th"

definition enter_provider_virtual_scope :: "hook_thread \<Rightarrow> hook_thread" where
  "enter_provider_virtual_scope th = th\<lparr>provider_virtual_scope_depth := sat_inc_u32 (provider_virtual_scope_depth th)\<rparr>"

definition is_provider_virtual_scope_active :: "hook_thread \<Rightarrow> bool" where
  "is_provider_virtual_scope_active th \<longleftrightarrow> 0 < provider_virtual_scope_depth th"

definition take_provider_virtual_dirs_if_idle :: "hook_thread \<Rightarrow> (bytes \<times> bytes) list \<times> hook_thread" where
  "take_provider_virtual_dirs_if_idle th =
     (if is_provider_passthrough_active th \<or> is_provider_virtual_scope_active th then ([], th)
      else (provider_virtual_dirs th, th\<lparr>provider_virtual_dirs := []\<rparr>))"

definition exit_provider_passthrough :: "hook_thread \<Rightarrow> (bytes \<times> bytes) list \<times> hook_thread" where
  "exit_provider_passthrough th =
     (let current = provider_passthrough_depth th
      in if current \<le> 1 then
           (let (virtual_dirs, th) = take_provider_virtual_dirs_if_idle (th\<lparr>provider_passthrough_depth := 0\<rparr>)
            in (virtual_dirs,
                if is_current_caller_scope_active th then th
                else set_binder_identity_cleared False (clear_binder_saved_caller_uid (clear_current_caller th))))
         else ([], th\<lparr>provider_passthrough_depth := current - 1\<rparr>))"

definition exit_provider_virtual_scope :: "hook_thread \<Rightarrow> (bytes \<times> bytes) list \<times> hook_thread" where
  "exit_provider_virtual_scope th =
     (let current = provider_virtual_scope_depth th
      in if current \<le> 1 then take_provider_virtual_dirs_if_idle (th\<lparr>provider_virtual_scope_depth := 0\<rparr>)
         else ([], th\<lparr>provider_virtual_scope_depth := current - 1\<rparr>))"

definition virtual_dir_key :: "bytes \<Rightarrow> bytes" where
  "virtual_dir_key path = data_media_to_storage_path path"

definition remember_provider_passthrough_virtual_dir :: "bytes \<Rightarrow> bytes \<Rightarrow> hook_thread \<Rightarrow> hook_thread" where
  "remember_provider_passthrough_virtual_dir public_path sandbox_path th =
     (if public_path = [] \<or> sandbox_path = [] then th
      else let key = virtual_dir_key public_path; dirs = provider_virtual_dirs th
        in if list_ex (\<lambda>(public, _). public = key) dirs then th
           else let dirs = (if PROVIDER_PASSTHROUGH_VIRTUAL_DIR_MAX \<le> length dirs then tl dirs else dirs)
             in th\<lparr>provider_virtual_dirs := dirs @ [(key, sandbox_path)]\<rparr>)"

definition provider_passthrough_virtual_dir_target :: "bytes \<Rightarrow> hook_thread \<Rightarrow> bytes option" where
  "provider_passthrough_virtual_dir_target public_path th =
     (if public_path = [] then None else map_of (provider_virtual_dirs th) (virtual_dir_key public_path))"

definition is_provider_passthrough_virtual_dir :: "bytes \<Rightarrow> hook_thread \<Rightarrow> bool" where
  "is_provider_passthrough_virtual_dir public_path th \<longleftrightarrow>
     public_path \<noteq> [] \<and> list_ex (\<lambda>(p, _). p = virtual_dir_key public_path) (provider_virtual_dirs th)"

text \<open>The derivation of a target from the longest registration above a path, used by both tables.\<close>

definition registration_covers :: "bytes \<Rightarrow> bytes \<times> bytes \<Rightarrow> bool" where
  "registration_covers key entry \<longleftrightarrow> key = fst entry \<or> starts_with_str key (fst entry @ ''/'')"

definition derive_target :: "bytes \<Rightarrow> (bytes \<times> bytes) list \<Rightarrow> bytes option" where
  "derive_target key dirs =
     (case max_by_key (length \<circ> fst) (filter (registration_covers key) dirs) of
        None \<Rightarrow> None
      | Some (public, target) \<Rightarrow>
          (case strip_prefix key public of
             None \<Rightarrow> None
           | Some rest \<Rightarrow>
               (let suff = dropWhile (\<lambda>c. c = slash) rest
                in Some (if suff = [] then target else target @ ''/'' @ suff))))"

definition provider_passthrough_virtual_query_target :: "bytes \<Rightarrow> hook_thread \<Rightarrow> bytes option" where
  "provider_passthrough_virtual_query_target path th =
     (if (\<not> is_provider_passthrough_active th \<and> \<not> is_provider_virtual_scope_active th) \<or> path = [] then None
      else derive_target (virtual_dir_key path) (provider_virtual_dirs th))"

definition provider_passthrough_virtual_query_dir :: "bytes \<Rightarrow> hook_thread \<Rightarrow> bytes option" where
  "provider_passthrough_virtual_query_dir path th =
     (if (\<not> is_provider_passthrough_active th \<and> \<not> is_provider_virtual_scope_active th) \<or> path = [] then None
      else if is_provider_passthrough_virtual_dir path th then Some path
      else (case media_store_pending_display_path path of
              None \<Rightarrow> None
            | Some _ \<Rightarrow>
                (let up = parent path
                 in if up \<noteq> [] \<and> is_provider_passthrough_virtual_dir up th then Some up else None)))"

section \<open>Model: mapped directories of the process\<close>

definition retain_live :: "int \<Rightarrow> process_mapped_dir list \<Rightarrow> process_mapped_dir list" where
  "retain_live now dirs = filter (\<lambda>dir. sat_sub_i64 now (md_at_ms dir) \<le> PROCESS_MAPPED_DIR_TTL_MS) dirs"

fun update_mapped_dir :: "bytes \<Rightarrow> bytes \<Rightarrow> int \<Rightarrow> process_mapped_dir list \<Rightarrow> process_mapped_dir list" where
  "update_mapped_dir request target now [] = []"
| "update_mapped_dir request target now (dir # dirs) =
     (if md_request dir = request then dir\<lparr>md_target := target, md_at_ms := now\<rparr> # dirs
      else dir # update_mapped_dir request target now dirs)"

definition remember_process_mapped_dir :: "int \<Rightarrow> bytes \<Rightarrow> bytes \<Rightarrow> hook_process \<Rightarrow> hook_process" where
  "remember_process_mapped_dir now request_path target_path pr =
     (if request_path = [] \<or> target_path = [] then pr
      else let request = virtual_dir_key request_path; target = data_media_to_storage_path target_path;
               dirs = retain_live now (process_mapped_dirs pr)
        in pr\<lparr>process_mapped_dirs :=
             (if list_ex (\<lambda>dir. md_request dir = request) dirs then update_mapped_dir request target now dirs
              else (if PROCESS_MAPPED_DIR_MAX \<le> length dirs then tl dirs else dirs)
                   @ [\<lparr>md_request = request, md_target = target, md_at_ms = now\<rparr>])\<rparr>)"

definition process_mapped_dir_target :: "int \<Rightarrow> bytes \<Rightarrow> hook_process \<Rightarrow> bytes option \<times> hook_process" where
  "process_mapped_dir_target now path pr =
     (if path = [] then (None, pr)
      else let dirs = retain_live now (process_mapped_dirs pr)
        in (derive_target (virtual_dir_key path) (map (\<lambda>dir. (md_request dir, md_target dir)) dirs),
            pr\<lparr>process_mapped_dirs := dirs\<rparr>))"

definition process_mapped_dir_count :: "int \<Rightarrow> hook_process \<Rightarrow> nat \<times> hook_process" where
  "process_mapped_dir_count now pr =
     (let dirs = retain_live now (process_mapped_dirs pr)
      in (length dirs, pr\<lparr>process_mapped_dirs := dirs\<rparr>))"

section \<open>Histories of a thread\<close>

datatype hook_event =
    SetPackage int bytes
  | SetUid int i32
  | ClearCaller
  | SetExternal int bytes i32
  | SetMappingOwner int bytes i32
  | PushScope int bytes i32
  | PopScope int
  | EnterPassthrough
  | ExitPassthrough
  | EnterVirtual
  | ExitVirtual
  | RememberVirtual bytes bytes

fun hook_step :: "hook_event \<Rightarrow> hook_thread \<Rightarrow> hook_thread" where
  "hook_step (SetPackage now name) th = set_current_caller_package now name th"
| "hook_step (SetUid now uid) th = set_current_caller_uid now uid th"
| "hook_step ClearCaller th = clear_current_caller th"
| "hook_step (SetExternal now name uid) th = set_current_caller_from_external_signal now name uid th"
| "hook_step (SetMappingOwner now name uid) th = set_current_caller_from_mapping_request_owner now name uid th"
| "hook_step (PushScope now name uid) th = push_current_caller_scope now name uid th"
| "hook_step (PopScope now) th = pop_current_caller_scope now th"
| "hook_step EnterPassthrough th = enter_provider_passthrough th"
| "hook_step ExitPassthrough th = snd (exit_provider_passthrough th)"
| "hook_step EnterVirtual th = enter_provider_virtual_scope th"
| "hook_step ExitVirtual th = snd (exit_provider_virtual_scope th)"
| "hook_step (RememberVirtual public sandbox) th = remember_provider_passthrough_virtual_dir public sandbox th"

definition hook_run :: "hook_event list \<Rightarrow> hook_thread \<Rightarrow> hook_thread" where
  "hook_run events th = foldl (\<lambda>th e. hook_step e th) th events"

text \<open>A history that closes every scope it opens and no other.\<close>

fun scopes_balanced :: "nat \<Rightarrow> hook_event list \<Rightarrow> bool" where
  "scopes_balanced n [] \<longleftrightarrow> n = 0"
| "scopes_balanced n (PushScope now name uid # events) \<longleftrightarrow> scopes_balanced (Suc n) events"
| "scopes_balanced n (PopScope now # events) \<longleftrightarrow> 0 < n \<and> scopes_balanced (n - 1) events"
| "scopes_balanced n (_ # events) \<longleftrightarrow> scopes_balanced n events"

lemmas hook_thread_defs = set_current_caller_package_def set_current_caller_uid_def clear_current_caller_def
  set_current_caller_from_external_signal_def set_current_caller_from_mapping_request_owner_def
  push_current_caller_scope_def pop_current_caller_scope_def enter_provider_passthrough_def
  exit_provider_passthrough_def enter_provider_virtual_scope_def exit_provider_virtual_scope_def
  take_provider_virtual_dirs_if_idle_def remember_provider_passthrough_virtual_dir_def
  clear_binder_saved_caller_uid_def set_binder_identity_cleared_def

definition is_scope_event :: "hook_event \<Rightarrow> bool" where
  "is_scope_event e = (case e of PushScope _ _ _ \<Rightarrow> True | PopScope _ \<Rightarrow> True | _ \<Rightarrow> False)"

lemma hook_step_keeps_stack:
  "\<not> is_scope_event e \<Longrightarrow> caller_scope_stack (hook_step e th) = caller_scope_stack th"
  by (cases e) (simp_all add: is_scope_event_def hook_thread_defs Let_def split_def)

lemma scopes_balanced_other:
  "\<not> is_scope_event e \<Longrightarrow> scopes_balanced n (e # events) \<longleftrightarrow> scopes_balanced n events"
  by (cases e) (simp_all add: is_scope_event_def)

lemma hook_run_stack:
  assumes "scopes_balanced (length opened) events" and "caller_scope_stack th = base @ opened"
  shows "caller_scope_stack (hook_run events th) = base"
  using assms
proof (induction events arbitrary: th opened)
  case (Cons e events)
  have run: "hook_run (e # events) th = hook_run events (hook_step e th)" by (simp add: hook_run_def)
  show ?case
  proof (cases "is_scope_event e")
    case False
    then show ?thesis
      using Cons.IH [of opened "hook_step e th"] Cons.prems by (simp add: run hook_step_keeps_stack scopes_balanced_other)
  next
    case True
    then consider (push) now name uid where "e = PushScope now name uid" | (pop) now where "e = PopScope now"
      by (auto simp: is_scope_event_def split: hook_event.splits)
    then show ?thesis
    proof cases
      case push
      then show ?thesis
        using Cons.IH [of "opened @ [(caller_package th, caller_uid th)]" "hook_step e th"] Cons.prems
        unfolding run by (simp add: push_current_caller_scope_def)
    next
      case pop
      then have "opened \<noteq> []" "scopes_balanced (length (butlast opened)) events" using Cons.prems(1) by auto
      then show ?thesis
        using Cons.IH [of "butlast opened" "hook_step e th"] Cons.prems(2) pop
        unfolding run by (simp add: pop_current_caller_scope_def Let_def split_def butlast_append)
    qed
  qed
qed (simp add: hook_run_def)

text \<open>
  Whatever a thread does inside a caller scope, closing the scope gives the thread the caller back
  that it had before: nested scopes, provider windows that end inside the scope and callers recorded
  inside it leave no trace.
\<close>

theorem caller_scope_restores:
  fixes th :: hook_thread and name :: bytes and uid :: i32 and now now' :: int
  assumes "scopes_balanced 0 events"
  defines "th' \<equiv> pop_current_caller_scope now' (hook_run events (push_current_caller_scope now name uid th))"
  shows "caller_package th' = caller_package th \<and> caller_uid th' = caller_uid th
    \<and> caller_scope_stack th' = caller_scope_stack th"
proof -
  let ?base = "caller_scope_stack th @ [(caller_package th, caller_uid th)]"
  have "caller_scope_stack (hook_run events (push_current_caller_scope now name uid th)) = ?base"
    using hook_run_stack [of "[]" events _ ?base] assms(1) by (simp add: push_current_caller_scope_def)
  then show ?thesis by (simp add: th'_def pop_current_caller_scope_def)
qed

theorem caller_scope_restores_witness:
  "caller_package (pop_current_caller_scope 9 (hook_run
      [SetExternal 3 ''b'' 10002, EnterPassthrough, PushScope 4 ''c'' 10003, PopScope 5, ExitPassthrough]
      (push_current_caller_scope 2 ''x'' 10009 (set_current_caller_package 1 ''a'' hook_thread_new)))) = ''a''"
proof -
  have "scopes_balanced 0 [SetExternal 3 ''b'' 10002, EnterPassthrough, PushScope 4 ''c'' 10003, PopScope 5, ExitPassthrough]"
    by simp
  from caller_scope_restores [OF this, of 9 2 "''x''" 10009 "set_current_caller_package 1 ''a'' hook_thread_new"]
  show ?thesis by (simp add: set_current_caller_package_def)
qed

section \<open>The table of mapped directories\<close>

text \<open>The states of the table under any calls at times that do not go backwards.\<close>

inductive mapped_reachable :: "int \<Rightarrow> hook_process \<Rightarrow> bool" where
  start: "0 \<le> now \<Longrightarrow> now < 2 ^ 63 \<Longrightarrow> mapped_reachable now hook_process_new"
| remember: "mapped_reachable t pr \<Longrightarrow> t \<le> now \<Longrightarrow> now < 2 ^ 63 \<Longrightarrow>
    mapped_reachable now (remember_process_mapped_dir now request_path target_path pr)"
| target: "mapped_reachable t pr \<Longrightarrow> t \<le> now \<Longrightarrow> now < 2 ^ 63 \<Longrightarrow>
    mapped_reachable now (snd (process_mapped_dir_target now path pr))"
| count: "mapped_reachable t pr \<Longrightarrow> t \<le> now \<Longrightarrow> now < 2 ^ 63 \<Longrightarrow>
    mapped_reachable now (snd (process_mapped_dir_count now pr))"

definition mapped_dirs_ok :: "int \<Rightarrow> process_mapped_dir list \<Rightarrow> bool" where
  "mapped_dirs_ok now dirs \<longleftrightarrow>
     length dirs \<le> PROCESS_MAPPED_DIR_MAX \<and> distinct (map md_request dirs)
     \<and> (\<forall>dir \<in> set dirs. 0 \<le> md_at_ms dir \<and> md_at_ms dir \<le> now)"

lemma mapped_dirs_ok_later: "mapped_dirs_ok t dirs \<Longrightarrow> t \<le> now \<Longrightarrow> mapped_dirs_ok now dirs"
  by (force simp: mapped_dirs_ok_def)

lemma mapped_dirs_ok_retain: "mapped_dirs_ok now dirs \<Longrightarrow> mapped_dirs_ok now (retain_live t dirs)"
  by (auto simp: mapped_dirs_ok_def retain_live_def distinct_map_filter intro: le_trans [OF length_filter_le])

lemma update_mapped_dir_requests: "map md_request (update_mapped_dir r t now dirs) = map md_request dirs"
  by (induction dirs) auto

lemma update_mapped_dir_mem:
  "dir \<in> set (update_mapped_dir r t now dirs) \<Longrightarrow>
    dir \<in> set dirs \<or> md_request dir = r \<and> md_target dir = t \<and> md_at_ms dir = now"
  by (induction dirs) (auto split: if_splits)

lemma update_mapped_dir_hit:
  "list_ex (\<lambda>dir. md_request dir = r) dirs \<Longrightarrow>
    \<exists>dir \<in> set (update_mapped_dir r t now dirs). md_request dir = r \<and> md_target dir = t \<and> md_at_ms dir = now"
  by (induction dirs) auto

lemma set_tl_subset: "set (tl xs) \<subseteq> set xs"
  by (cases xs) auto

lemma mapped_dirs_ok_remember:
  assumes "mapped_dirs_ok now dirs" and "0 \<le> now"
  shows "mapped_dirs_ok now
    (if list_ex (\<lambda>dir. md_request dir = r) dirs then update_mapped_dir r t now dirs
     else (if PROCESS_MAPPED_DIR_MAX \<le> length dirs then tl dirs else dirs)
          @ [\<lparr>md_request = r, md_target = t, md_at_ms = now\<rparr>])" (is "mapped_dirs_ok now (if ?hit then ?upd else ?app)")
proof (cases ?hit)
  case True
  have "length ?upd = length dirs" using arg_cong [OF update_mapped_dir_requests, of length] by simp
  then have "mapped_dirs_ok now ?upd"
    using assms update_mapped_dir_mem by (fastforce simp: mapped_dirs_ok_def update_mapped_dir_requests)
  then show ?thesis using True by simp
next
  case False
  have kept: "set (if PROCESS_MAPPED_DIR_MAX \<le> length dirs then tl dirs else dirs) \<subseteq> set dirs"
    by (auto dest: set_mp [OF set_tl_subset])
  have "r \<notin> md_request ` set dirs" using False by (auto simp: list_ex_iff)
  then have "mapped_dirs_ok now ?app"
    using assms kept by (auto simp: mapped_dirs_ok_def PROCESS_MAPPED_DIR_MAX_def map_tl distinct_tl dest: set_mp [OF set_tl_subset])
  then show ?thesis using False by simp
qed

lemma mapped_reachable_time: "mapped_reachable now pr \<Longrightarrow> 0 \<le> now \<and> now < 2 ^ 63"
  by (induction rule: mapped_reachable.induct) auto

lemma mapped_reachable_ok: "mapped_reachable now pr \<Longrightarrow> mapped_dirs_ok now (process_mapped_dirs pr)"
proof (induction rule: mapped_reachable.induct)
  case (start now)
  show ?case by (simp add: hook_process_new_def mapped_dirs_ok_def)
next
  case (remember t pr now request_path target_path)
  then have "mapped_dirs_ok now (process_mapped_dirs pr)" "0 \<le> now"
    using mapped_dirs_ok_later mapped_reachable_time by (blast, fastforce)
  then show ?case
    using mapped_dirs_ok_remember [OF mapped_dirs_ok_retain] by (simp add: remember_process_mapped_dir_def Let_def)
next
  case (target t pr now path)
  then show ?case
    using mapped_dirs_ok_later [of t _ now] by (simp add: process_mapped_dir_target_def Let_def mapped_dirs_ok_retain)
next
  case (count t pr now)
  then show ?case
    using mapped_dirs_ok_later [of t _ now] by (simp add: process_mapped_dir_count_def Let_def mapped_dirs_ok_retain)
qed

lemma derive_target_longest:
  assumes "(p, t) \<in> set dirs" and "distinct (map fst dirs)"
    and "\<And>e. e \<in> set dirs \<Longrightarrow> registration_covers (p @ ''/'' @ rest) e \<Longrightarrow> length (fst e) \<le> length p"
    and "rest \<noteq> []" and "hd rest \<noteq> slash"
  shows "derive_target (p @ ''/'' @ rest) dirs = Some (t @ ''/'' @ rest)"
proof -
  let ?key = "p @ ''/'' @ rest" let ?c = "filter (registration_covers (p @ ''/'' @ rest)) dirs"
  have mem: "(p, t) \<in> set ?c" using assms(1) by (simp add: registration_covers_def str_simps)
  then have "?c \<noteq> []" by (metis empty_iff empty_set)
  then have "max_by_key (length \<circ> fst) ?c \<noteq> None" by (simp only: max_by_key_None not_False_eq_True)
  then obtain e where e: "max_by_key (length \<circ> fst) ?c = Some e" by blast
  then have in_e: "e \<in> set dirs" "registration_covers ?key e" using max_by_key_in [OF e] by auto
  have "length p \<le> length (fst e)" using max_by_key_ge [OF e mem] by simp
  then have len: "length (fst e) = length p" using assms(3) [OF in_e] by simp
  have "prefix (fst e) ?key" using in_e(2) by (auto simp: registration_covers_def str_simps dest: append_prefixD)
  then have "fst e = p" using len by (auto simp: prefix_def append_eq_append_conv)
  then have "e = (p, t)" using in_e(1) assms(1,2) eq_key_imp_eq_value by (metis prod.collapse)
  moreover have "dropWhile (\<lambda>c. c = slash) (''/'' @ rest) = rest" using assms(4,5) by (cases rest) auto
  ultimately show ?thesis using e assms(4) by (simp add: derive_target_def Let_def)
qed

text \<open>
  A mapped directory that has just been registered is found: a query within eight seconds for a
  path below the request side is answered with the same path below the target, unless a longer
  registration lies in between; the registrations already there, the sixty-four slots and the names
  \<^verbatim>\<open>/data/media\<close> or \<^verbatim>\<open>/storage/emulated\<close> of the storage make no difference.
\<close>

theorem mapped_dir_answer:
  assumes "mapped_reachable now pr" and "request_path \<noteq> []" and "target_path \<noteq> []"
    and "now \<le> later" and "later \<le> now + 8000" and "later < 2 ^ 63"
    and "rest \<noteq> []" and "hd rest \<noteq> slash"
    and "starts_with_str request_path DATA_MEDIA_PREFIX \<or> \<not> starts_with_str (request_path @ ''/'' @ rest) DATA_MEDIA_PREFIX"
    and "\<forall>dir \<in> set (process_mapped_dirs pr).
      registration_covers (virtual_dir_key (request_path @ ''/'' @ rest)) (md_request dir, md_target dir)
        \<longrightarrow> length (md_request dir) \<le> length (virtual_dir_key request_path)"
  shows "fst (process_mapped_dir_target later (request_path @ ''/'' @ rest)
      (remember_process_mapped_dir now request_path target_path pr))
    = Some (data_media_to_storage_path target_path @ ''/'' @ rest)"
proof -
  let ?r = "virtual_dir_key request_path" let ?t = "data_media_to_storage_path target_path"
  let ?dirs = "process_mapped_dirs (remember_process_mapped_dir now request_path target_path pr)"
  let ?live = "retain_live later ?dirs" let ?table = "map (\<lambda>dir. (md_request dir, md_target dir)) ?live"
  have time: "0 \<le> now" "now < 2 ^ 63" using mapped_reachable_time [OF assms(1)] by auto
  have ok: "mapped_dirs_ok now ?dirs"
    using mapped_reachable_ok [OF mapped_reachable.remember [OF assms(1) order_refl time(2)]] .
  have key: "virtual_dir_key (request_path @ ''/'' @ rest) = ?r @ ''/'' @ rest"
    using assms(9) by (auto simp: virtual_dir_key_def data_media_to_storage_path_def str_simps prefix_def)
  have "\<exists>dir \<in> set ?dirs. md_request dir = ?r \<and> md_target dir = ?t \<and> md_at_ms dir = now"
    using assms(2,3) update_mapped_dir_hit [of ?r "retain_live now (process_mapped_dirs pr)" ?t now]
    by (auto simp: remember_process_mapped_dir_def Let_def)
  moreover have "sat_sub_i64 later now \<le> 8000" using assms(4,5) time by (simp add: sat_sub_i64_def)
  ultimately have mem: "(?r, ?t) \<in> set ?table" by (force simp: retain_live_def PROCESS_MAPPED_DIR_TTL_MS_def)
  have dist: "distinct (map fst ?table)"
    using ok by (simp add: mapped_dirs_ok_def retain_live_def comp_def distinct_map_filter)
  have longest: "length (fst e) \<le> length ?r" if e: "e \<in> set ?table" "registration_covers (?r @ ''/'' @ rest) e" for e
  proof -
    obtain dir where dir: "dir \<in> set ?dirs" "e = (md_request dir, md_target dir)"
      using e(1) by (auto simp: retain_live_def)
    from dir(1) have "md_request dir = ?r \<or> dir \<in> set (process_mapped_dirs pr)"
      using assms(2,3) by (auto simp: remember_process_mapped_dir_def Let_def retain_live_def split: if_splits
          dest!: update_mapped_dir_mem set_mp [OF set_tl_subset])
    then show ?thesis using assms(10) e(2) dir(2) key by auto
  qed
  show ?thesis
    using derive_target_longest [OF mem dist longest assms(7,8)] assms(2) key
    by (simp add: process_mapped_dir_target_def Let_def)
qed

theorem mapped_dir_answer_witness:
  "fst (process_mapped_dir_target 5000 ''/data/media/0/a/x/y''
     (remember_process_mapped_dir 10 ''/data/media/0/a'' ''/data/media/0/b'' hook_process_new))
   = Some ''/storage/emulated/0/b/x/y''"
proof -
  have "mapped_reachable 10 hook_process_new" by (rule mapped_reachable.start) simp_all
  moreover have "starts_with_str ''/data/media/0/a'' DATA_MEDIA_PREFIX" by code_simp
  moreover have "data_media_to_storage_path ''/data/media/0/b'' = ''/storage/emulated/0/b''" by code_simp
  ultimately show ?thesis
    using mapped_dir_answer [of 10 hook_process_new "''/data/media/0/a''" "''/data/media/0/b''" 5000 "''x/y''"]
    by (simp add: hook_process_new_def)
qed

lemma derive_target_Some:
  assumes "derive_target key dirs = Some answer"
  shows "\<exists>p t. (p, t) \<in> set dirs \<and> prefix p key \<and> prefix t answer"
proof -
  obtain p t rest where m: "max_by_key (length \<circ> fst) (filter (registration_covers key) dirs) = Some (p, t)"
    and r: "strip_prefix key p = Some rest"
    using assms by (auto simp: derive_target_def split: option.splits)
  have "(p, t) \<in> set dirs" using max_by_key_in [OF m] by simp
  moreover have "prefix t answer" using assms m r by (auto simp: derive_target_def Let_def split: if_splits)
  moreover have "prefix p key" using r by (auto simp: str_simps)
  ultimately show ?thesis by blast
qed

text \<open>
  The table of mapped directories never grows beyond sixty-four entries, never holds a request
  twice, and no query is answered from an entry older than eight seconds.
\<close>

theorem mapped_dirs_bounded:
  assumes "mapped_reachable t pr" and "t \<le> now" and "now < 2 ^ 63"
    and "process_mapped_dir_target now path pr = (answer, pr')"
  shows "length (process_mapped_dirs pr') \<le> 64 \<and> distinct (map md_request (process_mapped_dirs pr'))
    \<and> (path \<noteq> [] \<longrightarrow> (\<forall>dir \<in> set (process_mapped_dirs pr'). now - md_at_ms dir \<le> 8000))
    \<and> (answer \<noteq> None \<longrightarrow> (\<exists>dir \<in> set (process_mapped_dirs pr').
        prefix (md_request dir) (virtual_dir_key path) \<and> prefix (md_target dir) (the answer)))"
proof -
  have pr': "pr' = snd (process_mapped_dir_target now path pr)" using assms(4) by simp
  have ok: "mapped_dirs_ok now (process_mapped_dirs pr')"
    unfolding pr' by (rule mapped_reachable_ok [OF mapped_reachable.target [OF assms(1-3)]])
  moreover have "\<forall>dir \<in> set (process_mapped_dirs pr'). now - md_at_ms dir \<le> 8000" if "path \<noteq> []"
    using ok assms(3) that
    by (auto simp: pr' process_mapped_dir_target_def Let_def retain_live_def sat_sub_i64_def mapped_dirs_ok_def
        PROCESS_MAPPED_DIR_TTL_MS_def)
  moreover have "\<exists>dir \<in> set (process_mapped_dirs pr').
      prefix (md_request dir) (virtual_dir_key path) \<and> prefix (md_target dir) (the answer)" if "answer \<noteq> None"
    using assms(4) that derive_target_Some
    by (fastforce simp: process_mapped_dir_target_def Let_def split: if_splits)
  ultimately show ?thesis by (simp add: mapped_dirs_ok_def PROCESS_MAPPED_DIR_MAX_def)
qed

theorem mapped_dirs_bounded_witness:
  "length (process_mapped_dirs (snd (process_mapped_dir_target 20 ''/x'' hook_process_new))) \<le> 64"
proof -
  have "mapped_reachable 10 hook_process_new" by (rule mapped_reachable.start) simp_all
  from mapped_dirs_bounded [OF this, of 20 "''/x''"] show ?thesis
    by (cases "process_mapped_dir_target 20 ''/x'' hook_process_new") auto
qed

end
