(* ===== verification/Paths_Rules.thy ===== *)
theory Paths_Rules
  imports Paths_Safety
begin

text \<open>
  Model of \<^verbatim>\<open>src/platform/paths_rules.rs\<close>: matching of (possibly wildcarded) rule paths
  against target paths, the split of a rule list into includes and excludes, and the concrete
  directories a wildcard rule falls back to. The index-driven wildcard scanner is proved against a
  recursive definition of glob matching, and the byte-level fast path of \<^verbatim>\<open>matches\<close> against
  the component-wise slow path.
\<close>

section \<open>Model\<close>

definition contains_wildcards :: "bytes \<Rightarrow> bool" where
  "contains_wildcards path \<longleftrightarrow> contains_char path (CHR ''*'') \<or> contains_char path (CHR ''?'')"

text \<open>
  The scanner's loop. A \<^verbatim>\<open>char\<close> of the source is the byte string that encodes it. The result
  is the pattern index at which the loop over the text ends, \<^const>\<open>None\<close> for the early
  \<^verbatim>\<open>return false\<close>.
\<close>

function segment_pattern_loop ::
  "bytes list \<Rightarrow> bytes list \<Rightarrow> nat \<Rightarrow> nat \<Rightarrow> nat option \<Rightarrow> nat \<Rightarrow> nat option" where
  "segment_pattern_loop pat tx p t star m =
     (if length tx \<le> t then Some p
      else if p < length pat \<and> (pat ! p = ''?'' \<or> eq_ignore_ascii_case (pat ! p) (tx ! t)) then
        segment_pattern_loop pat tx (p + 1) (t + 1) star m
      else if p < length pat \<and> pat ! p = ''*'' then
        segment_pattern_loop pat tx (p + 1) t (Some p) t
      else (case star of
          Some s \<Rightarrow> segment_pattern_loop pat tx (s + 1) (m + 1) star (m + 1)
        | None \<Rightarrow> None))"
  by pat_completeness auto
termination
  by (relation "measures [\<lambda>(pat, tx, p, t, star, m).
                             case star of None \<Rightarrow> Suc (length tx) | Some _ \<Rightarrow> length tx - min m t,
                           \<lambda>(pat, tx, p, t, star, m). (length pat - p) + (length tx - t)]")
    (auto split: option.splits)

declare segment_pattern_loop.simps [simp del]

definition match_segment_pattern :: "bytes \<Rightarrow> bytes \<Rightarrow> bool" where
  "match_segment_pattern pattern tx =
     (if \<not> contains_char pattern (CHR ''*'') \<and> \<not> contains_char pattern (CHR ''?'') then
        eq_ignore_ascii_case pattern tx
      else let pattern_chars = utf8_chars pattern; text_chars = utf8_chars tx
        in (case segment_pattern_loop pattern_chars text_chars 0 0 None 0 of
              None \<Rightarrow> False
            | Some p \<Rightarrow> dropWhile (\<lambda>c. c = ''*'') (drop p pattern_chars) = []))"

definition trim_match_slashes :: "bytes \<Rightarrow> bytes" where
  "trim_match_slashes path = trim_end_char slash path"

definition matches :: "bytes \<Rightarrow> bytes \<Rightarrow> bool \<Rightarrow> bool" where
  "matches rule_path target_path is_recursive =
     (if rule_path = [] \<or> target_path = [] then False
      else if \<not> contains_wildcards rule_path \<and> \<not> contains_str rule_path ''//''
              \<and> \<not> contains_str target_path ''//'' then
        (let rule = trim_match_slashes rule_path; target = trim_match_slashes target_path
         in if rule = [] \<or> target = [] then False
            else if eq_ignore_ascii_case target rule then True
            else is_recursive \<and> length rule < length target
                 \<and> get_byte target (length rule) = Some slash \<and> starts_with_ignore_case target rule)
      else
        (let rule_segments = nonempty_parts slash rule_path;
             target_segments = nonempty_parts slash target_path
         in if rule_segments = [] \<or> length target_segments < length rule_segments then False
            else if \<not> list_all (\<lambda>(r, t). match_segment_pattern r t) (zip rule_segments target_segments) then False
            else if length target_segments = length rule_segments then True
            else is_recursive))"

fun split_exclusion_loop :: "bytes list \<Rightarrow> bytes list \<Rightarrow> bytes list \<Rightarrow> bytes list \<times> bytes list" where
  "split_exclusion_loop [] includes excludes = (includes, excludes)"
| "split_exclusion_loop (rule # rules) includes excludes =
     (let trimmed = trim rule
      in if trimmed = [] then split_exclusion_loop rules includes excludes
         else (case strip_prefix trimmed ''!'' of
             Some s \<Rightarrow>
               (let stripped = trim_start s
                in split_exclusion_loop rules includes
                     (if stripped \<noteq> [] then excludes @ [stripped] else excludes))
           | None \<Rightarrow> split_exclusion_loop rules (includes @ [trimmed]) excludes))"

definition split_exclusion_rules :: "bytes list \<Rightarrow> bytes list \<times> bytes list" where
  "split_exclusion_rules rules =
     (let (includes, excludes) = split_exclusion_loop rules [] []
      in (sort_dedup_paths_case_insensitive includes, sort_dedup_paths_case_insensitive excludes))"

definition overlapping_exclusion_rules :: "bytes list \<Rightarrow> bytes list \<Rightarrow> bytes list" where
  "overlapping_exclusion_rules includes excludes =
     sort_dedup_paths_case_insensitive
       (filter (\<lambda>excluded. list_ex (\<lambda>included. matches included excluded True \<or> matches excluded included True)
                  includes) excludes)"

definition concrete_prefix_before_wildcard :: "bytes \<Rightarrow> bytes" where
  "concrete_prefix_before_wildcard path =
     (let normalized = normalize path
      in if normalized = [] \<or> \<not> contains_wildcards normalized then normalized
         else (let kept = takeWhile (\<lambda>s. \<not> contains_wildcards s) (nonempty_parts slash normalized)
               in if kept = [] then []
                  else (let pre = join_char slash kept
                        in if starts_with_str normalized ''/'' then normalize (''/'' @ pre) else normalize pre)))"

definition wildcard_mount_fallback_parent :: "bytes \<Rightarrow> bytes \<Rightarrow> bytes option" where
  "wildcard_mount_fallback_parent resolved_path storage_root =
     (let normalized = normalize resolved_path
      in if normalized = [] \<or> \<not> contains_wildcards normalized then None
         else (let pre = concrete_prefix_before_wildcard normalized
               in if pre = [] \<or> eq_ignore_case pre storage_root \<or> \<not> is_child pre storage_root then None
                  else Some pre))"

definition is_terminal_file_wildcard_rule :: "bytes \<Rightarrow> bool" where
  "is_terminal_file_wildcard_rule path =
     (let segments = nonempty_parts slash path
      in if segments = [] then False
         else contains_wildcards (last segments) \<and> contains_char (last segments) (CHR ''.''))"

definition wildcard_policy_fallback_parent :: "bytes \<Rightarrow> bytes \<Rightarrow> bytes option" where
  "wildcard_policy_fallback_parent resolved_path storage_root =
     (let normalized = normalize resolved_path
      in if is_terminal_file_wildcard_rule normalized then None
         else wildcard_mount_fallback_parent normalized storage_root)"

definition matches_xldownload_alias :: "bytes \<Rightarrow> bytes \<Rightarrow> bool" where
  "matches_xldownload_alias rule_path target_path =
     (if rule_path = [] \<or> target_path = [] then False
      else let rule_segments = nonempty_parts slash rule_path;
               target_segments = nonempty_parts slash target_path
        in if rule_segments = [] \<or> length target_segments < length rule_segments then False
           else list_all (\<lambda>(r, t).
                  (eq_ignore_ascii_case r ''.xldownload'' \<and> eq_ignore_ascii_case t ''.xldownload'') \<or> r = t)
                (zip rule_segments target_segments))"

section \<open>The wildcard scanner\<close>

text \<open>Glob matching by recursion over the pattern: the meaning \<^verbatim>\<open>*\<close> and \<^verbatim>\<open>?\<close> should have.\<close>

fun glob :: "bytes list \<Rightarrow> bytes list \<Rightarrow> bool" where
  "glob [] ts \<longleftrightarrow> ts = []"
| "glob (p # ps) [] \<longleftrightarrow> p = ''*'' \<and> glob ps []"
| "glob (p # ps) (t # ts) \<longleftrightarrow>
     (if p = ''*'' then glob ps (t # ts) \<or> glob (p # ps) ts
      else (p = ''?'' \<or> eq_ignore_ascii_case p t) \<and> glob ps ts)"

lemma glob_star: "glob (''*'' # ps) ts \<longleftrightarrow> (\<exists>k \<le> length ts. glob ps (drop k ts))"
proof (induction ts)
  case (Cons t ts)
  have "(\<exists>k \<le> length (t # ts). glob ps (drop k (t # ts))) \<longleftrightarrow>
        glob ps (t # ts) \<or> (\<exists>k \<le> length ts. glob ps (drop k ts))"
    by (metis Suc_le_mono drop0 drop_Suc_Cons le0 length_Cons not0_implies_Suc)
  with Cons.IH show ?case by simp
qed simp

lemma glob_Nil: "glob ps [] \<longleftrightarrow> dropWhile (\<lambda>c. c = ''*'') ps = []"
  by (induction ps) auto

lemma glob_literal_prefix:
  assumes "''*'' \<notin> set q" and "glob (q @ ps) ts"
  shows "length q \<le> length ts" and "glob ps (drop (length q) ts)"
proof -
  have "length q \<le> length ts \<and> glob ps (drop (length q) ts)"
    using assms
  proof (induction q arbitrary: ts)
    case (Cons x q)
    then show ?case by (cases ts) auto
  qed simp
  then show "length q \<le> length ts" and "glob ps (drop (length q) ts)" by auto
qed

text \<open>
  Loop invariant of the scanner: since the last star the scanner has matched a star-free stretch of
  the pattern against a stretch of the text of the same length.
\<close>

definition scan_inv :: "bytes list \<Rightarrow> nat \<Rightarrow> nat \<Rightarrow> nat option \<Rightarrow> nat \<Rightarrow> bool" where
  "scan_inv pat p t star m \<longleftrightarrow> p \<le> length pat \<and>
     (\<forall>s. star = Some s \<longrightarrow> s < p \<and> m \<le> t \<and> p - (s + 1) = t - m
        \<and> ''*'' \<notin> set (take (p - (s + 1)) (drop (s + 1) pat)))"

definition scan_goal :: "bytes list \<Rightarrow> bytes list \<Rightarrow> nat \<Rightarrow> nat \<Rightarrow> nat option \<Rightarrow> nat \<Rightarrow> bool" where
  "scan_goal pat tx p t star m \<longleftrightarrow> glob (drop p pat) (drop t tx) \<or>
     (\<exists>s k. star = Some s \<and> m < k \<and> k \<le> length tx \<and> glob (drop (s + 1) pat) (drop k tx))"

lemma scan_stretch:
  assumes "scan_inv pat p t (Some s) m"
  obtains q where "drop (s + 1) pat = q @ drop p pat" "length q = t - m" "''*'' \<notin> set q" "m \<le> t"
proof
  let ?q = "take (p - (s + 1)) (drop (s + 1) pat)"
  have "s < p" using assms by (simp add: scan_inv_def)
  then have "p = (p - (s + 1)) + (s + 1)" by simp
  then show "drop (s + 1) pat = ?q @ drop p pat" by (metis append_take_drop_id drop_drop)
  show "length ?q = t - m" "''*'' \<notin> set ?q" "m \<le> t" using assms by (auto simp: scan_inv_def)
qed

lemma scan_literal:
  assumes inv: "scan_inv pat p t star m" and p: "p < length pat" "pat ! p \<noteq> ''*''" and t: "t < length tx"
    and step: "pat ! p = ''?'' \<or> eq_ignore_ascii_case (pat ! p) (tx ! t)"
  shows "scan_inv pat (p + 1) (t + 1) star m"
    and "scan_goal pat tx (p + 1) (t + 1) star m = scan_goal pat tx p t star m"
proof -
  have "take (Suc p - (s + 1)) (drop (s + 1) pat) = take (p - (s + 1)) (drop (s + 1) pat) @ [pat ! p]"
    if "s < p" for s
    using that p take_Suc_conv_app_nth [of "p - (s + 1)" "drop (s + 1) pat"] by (simp add: Suc_diff_Suc)
  then show "scan_inv pat (p + 1) (t + 1) star m"
    using inv p by (auto simp: scan_inv_def Suc_diff_le)
  have "glob (drop p pat) (drop t tx) \<longleftrightarrow> glob (drop (p + 1) pat) (drop (t + 1) tx)"
    using p t step by (simp add: Cons_nth_drop_Suc [symmetric])
  then show "scan_goal pat tx (p + 1) (t + 1) star m = scan_goal pat tx p t star m"
    by (simp add: scan_goal_def)
qed

lemma scan_star:
  assumes inv: "scan_inv pat p t star m" and p: "p < length pat" "pat ! p = ''*''" and t: "t < length tx"
  shows "scan_inv pat (p + 1) t (Some p) t"
    and "scan_goal pat tx (p + 1) t (Some p) t = scan_goal pat tx p t star m"
proof -
  show "scan_inv pat (p + 1) t (Some p) t" using p by (simp add: scan_inv_def)
  let ?rest = "drop (p + 1) pat"
  have drop_p: "drop p pat = ''*'' # ?rest" using p by (simp add: Cons_nth_drop_Suc [symmetric])
  have reach: "glob (''*'' # ?rest) (drop i tx) \<longleftrightarrow> (\<exists>k \<ge> i. k \<le> length tx \<and> glob ?rest (drop k tx))"
    if "i \<le> length tx" for i
  proof -
    have "\<exists>j \<le> length tx - i. glob ?rest (drop (j + i) tx)"
      if "i \<le> k" "k \<le> length tx" "glob ?rest (drop k tx)" for k
      using that by (intro exI [of _ "k - i"]) simp
    moreover have "\<exists>k \<ge> i. k \<le> length tx \<and> glob ?rest (drop k tx)"
      if "j \<le> length tx - i" "glob ?rest (drop (j + i) tx)" for j
      using that \<open>i \<le> length tx\<close> by (intro exI [of _ "j + i"]) simp
    ultimately have "(\<exists>j \<le> length tx - i. glob ?rest (drop (j + i) tx)) \<longleftrightarrow>
          (\<exists>k \<ge> i. k \<le> length tx \<and> glob ?rest (drop k tx))" by blast
    then show ?thesis unfolding glob_star by simp
  qed
  have older: "\<exists>k > t. k \<le> length tx \<and> glob ?rest (drop k tx)"
    if s: "star = Some s" and k: "m < k" "k \<le> length tx" "glob (drop (s + 1) pat) (drop k tx)" for s k
  proof -
    obtain q where q: "drop (s + 1) pat = q @ drop p pat" "length q = t - m" "''*'' \<notin> set q" "m \<le> t"
      using inv s scan_stretch [of pat p t s m] by metis
    then have "glob (q @ drop p pat) (drop k tx)" using k(3) by metis
    from glob_literal_prefix [OF q(3) this] q
    have len: "t - m \<le> length tx - k" and g: "glob (drop p pat) (drop (t - m + k) tx)"
      by (simp_all add: drop_p)
    moreover have "t < t - m + k" "t - m + k \<le> length tx" using len k q(4) by simp_all
    ultimately show ?thesis using reach [of "t - m + k"] unfolding drop_p by (meson less_le_trans)
  qed
  have "scan_goal pat tx (p + 1) t (Some p) t \<longleftrightarrow> (\<exists>k \<ge> t. k \<le> length tx \<and> glob ?rest (drop k tx))"
    using t unfolding scan_goal_def by (auto simp: le_less)
  also have "\<dots> \<longleftrightarrow> scan_goal pat tx p t star m"
    using reach [of t] older t unfolding scan_goal_def drop_p by (metis less_imp_le)
  finally show "scan_goal pat tx (p + 1) t (Some p) t = scan_goal pat tx p t star m" .
qed

lemma scan_retry:
  assumes inv: "scan_inv pat p t (Some s) m" and t: "t < length tx"
    and stuck: "\<not> glob (drop p pat) (drop t tx)"
  shows "scan_inv pat (s + 1) (m + 1) (Some s) (m + 1)"
    and "scan_goal pat tx (s + 1) (m + 1) (Some s) (m + 1) = scan_goal pat tx p t (Some s) m"
proof -
  show "scan_inv pat (s + 1) (m + 1) (Some s) (m + 1)" using inv by (auto simp: scan_inv_def)
  have m: "m + 1 \<le> length tx" using inv t by (auto simp: scan_inv_def)
  have "(\<exists>k > m. k \<le> length tx \<and> P k) \<longleftrightarrow> P (m + 1) \<or> (\<exists>k > m + 1. k \<le> length tx \<and> P k)" for P
    using m by (metis Suc_eq_plus1 Suc_lessI less_Suc_eq lessI less_trans)
  then show "scan_goal pat tx (s + 1) (m + 1) (Some s) (m + 1) = scan_goal pat tx p t (Some s) m"
    using stuck unfolding scan_goal_def by auto
qed

lemma scan_exit:
  assumes inv: "scan_inv pat p t star m" and t: "length tx \<le> t" "t \<le> length tx"
  shows "scan_goal pat tx p t star m \<longleftrightarrow> dropWhile (\<lambda>c. c = ''*'') (drop p pat) = []"
proof -
  have "\<not> glob (drop (s + 1) pat) (drop k tx)" if s: "star = Some s" and k: "m < k" "k \<le> length tx" for s k
  proof
    assume g: "glob (drop (s + 1) pat) (drop k tx)"
    obtain q where q: "drop (s + 1) pat = q @ drop p pat" "length q = t - m" "''*'' \<notin> set q" "m \<le> t"
      using inv s scan_stretch [of pat p t s m] by metis
    with g have "glob (q @ drop p pat) (drop k tx)" by metis
    from glob_literal_prefix(1) [OF q(3) this] q k t show False by simp
  qed
  then show ?thesis using t by (auto simp: scan_goal_def glob_Nil)
qed

lemma star_eq_ignore_case: "eq_ignore_ascii_case ''*'' c \<longleftrightarrow> c = ''*''"
proof -
  have "ascii_lower (CHR ''*'') = CHR ''*''" by simp
  then show ?thesis by (auto simp: eq_ignore_ascii_case_def) (metis ascii_lower_star)
qed

lemma segment_pattern_loop_correct:
  "scan_inv pat p t star m \<Longrightarrow> t \<le> length tx \<Longrightarrow> ''*'' \<notin> set tx \<Longrightarrow>
    (case segment_pattern_loop pat tx p t star m of
       None \<Rightarrow> \<not> scan_goal pat tx p t star m
     | Some q \<Rightarrow> scan_goal pat tx p t star m \<longleftrightarrow> dropWhile (\<lambda>c. c = ''*'') (drop q pat) = [])"
proof (induction pat tx p t star m rule: segment_pattern_loop.induct)
  case (1 pat tx p t star m)
  note inv = 1(4) and tl = 1(5)
  consider (exit) "length tx \<le> t"
    | (lit) "t < length tx" "p < length pat" "pat ! p = ''?'' \<or> eq_ignore_ascii_case (pat ! p) (tx ! t)"
    | (star) "t < length tx" "p < length pat" "pat ! p = ''*''"
        "\<not> (pat ! p = ''?'' \<or> eq_ignore_ascii_case (pat ! p) (tx ! t))"
    | (stuck) "t < length tx" "\<not> (p < length pat \<and> (pat ! p = ''?'' \<or> eq_ignore_ascii_case (pat ! p) (tx ! t)))"
        "\<not> (p < length pat \<and> pat ! p = ''*'')"
    by fastforce
  then show ?case
  proof cases
    case exit
    with scan_exit [OF inv exit tl] show ?thesis by (simp add: segment_pattern_loop.simps)
  next
    case lit
    with 1(6) have ns: "pat ! p \<noteq> ''*''" by (auto simp: star_eq_ignore_case dest: nth_mem)
    have "segment_pattern_loop pat tx p t star m = segment_pattern_loop pat tx (p + 1) (t + 1) star m"
      using lit by (subst segment_pattern_loop.simps) simp
    then show ?thesis
      using 1(1) lit scan_literal [OF inv lit(2) ns lit(1) lit(3)] 1(6)
      by (auto split: option.splits)
  next
    case star
    have "segment_pattern_loop pat tx p t star m = segment_pattern_loop pat tx (p + 1) t (Some p) t"
      using star by (subst segment_pattern_loop.simps) simp
    then show ?thesis using 1(2) star scan_star [OF inv star(2,3,1)] 1(6)
      by (auto split: option.splits)
  next
    case stuck
    have no: "\<not> glob (drop p pat) (drop t tx)"
      using stuck by (cases "p < length pat") (simp_all add: Cons_nth_drop_Suc [symmetric])
    show ?thesis
    proof (cases star)
      case None
      have "segment_pattern_loop pat tx p t star m = None"
        using stuck None by (subst segment_pattern_loop.simps) auto
      then show ?thesis using no None by (simp add: scan_goal_def)
    next
      case (Some s)
      note retry = scan_retry [OF inv [unfolded Some] stuck(1) no]
      have step: "segment_pattern_loop pat tx p t (Some s) m = segment_pattern_loop pat tx (s + 1) (m + 1) (Some s) (m + 1)"
        unfolding segment_pattern_loop.simps [of pat tx p t] using stuck by auto
      have "m + 1 \<le> length tx" using inv Some stuck(1) by (auto simp: scan_inv_def)
      then have "case segment_pattern_loop pat tx (s + 1) (m + 1) (Some s) (m + 1) of
          None \<Rightarrow> \<not> scan_goal pat tx (s + 1) (m + 1) (Some s) (m + 1)
        | Some q \<Rightarrow> scan_goal pat tx (s + 1) (m + 1) (Some s) (m + 1)
            \<longleftrightarrow> dropWhile (\<lambda>c. c = ''*'') (drop q pat) = []"
        using 1(3) [of s] stuck Some retry(1) 1(6) by auto
      then show ?thesis unfolding Some step retry(2) .
    qed
  qed
qed

lemma glob_literal:
  "''*'' \<notin> set ps \<Longrightarrow> ''?'' \<notin> set ps \<Longrightarrow> glob ps ts \<longleftrightarrow> list_all2 eq_ignore_ascii_case ps ts"
proof (induction ps arbitrary: ts)
  case (Cons p ps)
  then show ?case by (cases ts) auto
qed auto

text \<open>
  (C25) The index-driven scanner for one path component decides glob matching: on a component that
  contains no \<^verbatim>\<open>*\<close> itself, \<^verbatim>\<open>match_segment_pattern\<close> terminates and answers exactly as the recursive
  definition, where \<^verbatim>\<open>*\<close> stands for any run of code points, \<^verbatim>\<open>?\<close> for one, and everything else is
  compared ignoring ASCII case. Backtracking to the last star alone loses no match.
\<close>

theorem match_segment_pattern_glob:
  assumes "CHR ''*'' \<notin> set s"
  shows "match_segment_pattern pattern s \<longleftrightarrow> glob (utf8_chars pattern) (utf8_chars s)"
proof (cases "contains_wildcards pattern")
  case False
  then have "''*'' \<notin> set (utf8_chars pattern)" "''?'' \<notin> set (utf8_chars pattern)"
    by (auto simp: contains_wildcards_def contains_char_def dest: utf8_chars_mem)
  with False show ?thesis
    by (simp add: match_segment_pattern_def contains_wildcards_def eq_ignore_case_chars glob_literal)
next
  case True
  have "''*'' \<notin> set (utf8_chars s)" using assms by (auto dest: utf8_chars_mem)
  then have "case segment_pattern_loop (utf8_chars pattern) (utf8_chars s) 0 0 None 0 of
       None \<Rightarrow> \<not> scan_goal (utf8_chars pattern) (utf8_chars s) 0 0 None 0
     | Some q \<Rightarrow> scan_goal (utf8_chars pattern) (utf8_chars s) 0 0 None 0
         \<longleftrightarrow> dropWhile (\<lambda>c. c = ''*'') (drop q (utf8_chars pattern)) = []"
    by (intro segment_pattern_loop_correct) (simp_all add: scan_inv_def)
  with True show ?thesis
    by (auto simp: match_segment_pattern_def contains_wildcards_def scan_goal_def Let_def split: option.splits)
qed

theorem match_segment_pattern_glob_witness:
  "CHR ''*'' \<notin> set ''IMG_01.JPG'' \<and> match_segment_pattern ''img*?.jp*'' ''IMG_01.JPG''"
proof -
  have s: "CHR ''*'' \<notin> set ''IMG_01.JPG''" by simp
  have "glob (utf8_chars ''img*?.jp*'') (utf8_chars ''IMG_01.JPG'')" by code_simp
  with s match_segment_pattern_glob [OF s] show ?thesis by blast
qed

text \<open>
  The scanner is wrong on a component that contains a literal \<^verbatim>\<open>*\<close>, a legal file name byte: it
  compares the pattern's star with the text's star as ordinary characters first, records no
  backtracking point, and rejects; the pattern \<^verbatim>\<open>*\<close> that should match every name does not match
  the name \<^verbatim>\<open>*b\<close>.
\<close>

theorem match_segment_pattern_star_text:
  "\<not> match_segment_pattern ''*'' ''*b'' \<and> glob (utf8_chars ''*'') (utf8_chars ''*b'')"
  by code_simp

section \<open>Matching of whole paths\<close>

lemma trim_slashes_canonical:
  assumes "is_absolute p" and "\<not> contains_str p ''//''"
  defines "t \<equiv> trim_match_slashes p"
  shows "segs t = segs p" and "t = [] \<longleftrightarrow> segs p = []" and "t \<noteq> [] \<Longrightarrow> canonical t \<and> t \<noteq> ''/''"
proof -
  obtain n where p: "p = t @ replicate n slash"
    using trim_end_char_prefix [of p slash] by (auto simp: t_def trim_match_slashes_def)
  have last: "t = [] \<or> last t \<noteq> slash"
    using trim_end_char_last [of slash p] by (simp add: t_def trim_match_slashes_def)
  have "segs (t @ replicate k slash) = segs t" for k
  proof (induction k)
    case (Suc k)
    have "segs (t @ replicate (Suc k) slash) = segs ((t @ replicate k slash) @ [slash])"
      by (simp add: replicate_append_same)
    with Suc show ?case by (simp only: segs_snoc_slash)
  qed simp
  with p show segs: "segs t = segs p" by metis
  have "t \<noteq> [] \<Longrightarrow> hd t = slash" using assms(1) p by (auto simp: is_absolute_def starts_with_str_iff)
  moreover have "\<not> sublist ''//'' t"
    using assms(2) p unfolding contains_str_iff by (metis sublist_append_rightI sublist_order.order.trans)
  ultimately show c: "canonical t \<and> t \<noteq> ''/''" if "t \<noteq> []"
    using last that by (auto simp: canonical_iff)
  show "t = [] \<longleftrightarrow> segs p = []"
    using c canonical_not_root_segs [of t] segs by (metis nonempty_parts_nil)
qed

lemma map_lower_prefix:
  "list_all2 eq_ignore_ascii_case rs (take (length rs) ts) \<and> length rs \<le> length ts
    \<longleftrightarrow> prefix (map to_ascii_lowercase rs) (map to_ascii_lowercase ts)"
proof (induction rs arbitrary: ts)
  case (Cons r rs)
  then show ?case by (cases ts) (auto simp: eq_ignore_ascii_case_iff)
qed simp

lemma plain_segment_match:
  assumes "\<not> contains_wildcards p" and "s \<in> set (segs p)"
  shows "match_segment_pattern s t \<longleftrightarrow> eq_ignore_ascii_case s t"
proof -
  have "set s \<subseteq> set p"
    using assms(2) join_split_char [of slash p] set_join_char [of s "split_char slash p" slash]
    by (auto simp: nonempty_parts_def)
  then show ?thesis using assms(1)
    by (auto simp: contains_wildcards_def contains_char_def match_segment_pattern_def)
qed

lemma matches_fast_path:
  assumes "is_absolute rule" and "is_absolute target" and plain: "\<not> contains_wildcards rule"
    and "\<not> contains_str rule ''//''" and "\<not> contains_str target ''//''"
  shows "matches rule target rec \<longleftrightarrow> segs rule \<noteq> [] \<and>
    prefix (map to_ascii_lowercase (segs rule)) (map to_ascii_lowercase (segs target))
    \<and> (rec \<or> length (segs target) = length (segs rule))"
proof -
  let ?r = "trim_match_slashes rule" and ?t = "trim_match_slashes target"
  note r = trim_slashes_canonical [OF assms(1,4)] and t = trim_slashes_canonical [OF assms(2,5)]
  have ne: "rule \<noteq> []" "target \<noteq> []" using assms(1,2) by (auto simp: is_absolute_def starts_with_str_iff)
  show ?thesis
  proof (cases "?r = [] \<or> ?t = []")
    case True
    with r(2) t(2) ne assms(3-5) show ?thesis by (auto simp: matches_def Let_def)
  next
    case False
    then have c: "canonical ?r" "?r \<noteq> ''/''" "canonical ?t" using r(3) t(3) by auto
    have "matches rule target rec \<longleftrightarrow> eq_ignore_ascii_case ?t ?r \<or> (rec \<and> is_child ?t ?r)"
      using False ne assms(3-5) below_root_iff [of ?r ?t] by (auto simp: matches_def Let_def is_child_iff)
    also have "is_child ?t ?r \<longleftrightarrow>
        strict_prefix (map to_ascii_lowercase (segs rule)) (map to_ascii_lowercase (segs target))"
      using is_child_segs [OF c(3,1,2)] r(1) t(1) by simp
    also have "eq_ignore_ascii_case ?t ?r \<longleftrightarrow>
        map to_ascii_lowercase (segs target) = map to_ascii_lowercase (segs rule)"
      unfolding eq_ignore_ascii_case_iff
      using segs_inj [OF canonical_lower [OF c(3)] canonical_lower [OF c(1)]] r(1) t(1)
      by (metis segs_lower)
    finally have "matches rule target rec \<longleftrightarrow>
        map to_ascii_lowercase (segs target) = map to_ascii_lowercase (segs rule)
        \<or> (rec \<and> strict_prefix (map to_ascii_lowercase (segs rule)) (map to_ascii_lowercase (segs target)))" .
    moreover have "prefix a b \<and> length b = length a \<longleftrightarrow> b = a" for a b :: "bytes list"
      by (auto simp: prefix_def)
    ultimately show ?thesis using False r(2) unfolding strict_prefix_def
      by (metis length_map prefix_order.refl)
  qed
qed

lemma matches_by_components:
  assumes "is_absolute rule" and "is_absolute target"
  shows "matches rule target rec \<longleftrightarrow>
    (let rs = nonempty_parts slash rule; ts = nonempty_parts slash target
     in rs \<noteq> [] \<and> length rs \<le> length ts \<and> list_all2 match_segment_pattern rs (take (length rs) ts)
        \<and> (rec \<or> length ts = length rs))"
proof (cases "\<not> contains_wildcards rule \<and> \<not> contains_str rule ''//'' \<and> \<not> contains_str target ''//''")
  case True
  have "list_all2 match_segment_pattern (segs rule) xs \<longleftrightarrow> list_all2 eq_ignore_ascii_case (segs rule) xs" for xs
    using plain_segment_match True by (auto simp: list_all2_conv_all_nth)
  then show ?thesis
    using matches_fast_path [of rule target rec] assms True map_lower_prefix [of "segs rule" "segs target"]
    by (simp add: Let_def) blast
next
  case False
  have "list_all (\<lambda>(r, t). match_segment_pattern r t) (zip rs ts) \<longleftrightarrow>
      list_all2 match_segment_pattern rs (take (length rs) ts)" if "length rs \<le> length ts" for rs ts
    using that by (auto simp: list_all2_conv_all_nth list_all_length)
  with False assms show ?thesis
    by (auto simp: matches_def Let_def not_less is_absolute_def starts_with_str_iff)
qed

text \<open>
  For absolute paths, in whatever spelling, \<^verbatim>\<open>matches\<close> is a statement about components: the
  rule has at least one, each matches the component of the target at its position, and the
  target may continue below the rule only in recursive mode. In particular the byte-comparing fast
  path for rules without wildcards gives the same answers as the component-wise path.
\<close>

theorem matches_components:
  assumes "is_absolute rule" and "is_absolute target"
  shows "matches rule target rec \<longleftrightarrow>
    (let rs = nonempty_parts slash rule; ts = nonempty_parts slash target
     in rs \<noteq> [] \<and> length rs \<le> length ts \<and> list_all2 match_segment_pattern rs (take (length rs) ts)
        \<and> (rec \<or> length ts = length rs))"
  using assms by (rule matches_by_components)

theorem matches_components_witness:
  "is_absolute ''/a/b*/'' \<and> is_absolute ''/A/bc/d'' \<and> matches ''/a/b*/'' ''/A/bc/d'' True"
proof -
  have a: "is_absolute ''/a/b*/''" "is_absolute ''/A/bc/d''" by code_simp+
  have "nonempty_parts slash ''/a/b*/'' = [''a'', ''b*'']" "nonempty_parts slash ''/A/bc/d'' = [''A'', ''bc'', ''d'']"
    by code_simp+
  moreover have "match_segment_pattern ''a'' ''A''" "match_segment_pattern ''b*'' ''bc''" by code_simp+
  ultimately show ?thesis using a matches_components [OF a, of True] by simp
qed

section \<open>The cost of the scanner\<close>

text \<open>
  The scanner's loop with a counter of the iterations left; running out of them is \<^const>\<open>None\<close>.
\<close>

fun segment_pattern_bounded ::
  "nat \<Rightarrow> bytes list \<Rightarrow> bytes list \<Rightarrow> nat \<Rightarrow> nat \<Rightarrow> nat option \<Rightarrow> nat \<Rightarrow> nat option option" where
  "segment_pattern_bounded 0 pat tx p t star m = None"
| "segment_pattern_bounded (Suc n) pat tx p t star m =
     (if length tx \<le> t then Some (Some p)
      else if p < length pat \<and> (pat ! p = ''?'' \<or> eq_ignore_ascii_case (pat ! p) (tx ! t)) then
        segment_pattern_bounded n pat tx (p + 1) (t + 1) star m
      else if p < length pat \<and> pat ! p = ''*'' then
        segment_pattern_bounded n pat tx (p + 1) t (Some p) t
      else (case star of
          Some s \<Rightarrow> segment_pattern_bounded n pat tx (s + 1) (m + 1) star (m + 1)
        | None \<Rightarrow> Some None))"

text \<open>Iterations still possible: each backtracking moves the mark on, and in between the pattern index grows.\<close>

definition scan_budget :: "nat \<Rightarrow> nat \<Rightarrow> nat \<Rightarrow> nat \<Rightarrow> nat" where
  "scan_budget plen tlen p m = (tlen - m) * Suc plen + (plen - p) + 1"

lemma scan_budget_step: "p < plen \<Longrightarrow> m \<le> m' \<Longrightarrow> scan_budget plen tlen (Suc p) m' < scan_budget plen tlen p m"
proof -
  assume "p < plen" "m \<le> m'"
  then have "(tlen - m') * Suc plen \<le> (tlen - m) * Suc plen" by (intro mult_le_mono1) simp
  then show ?thesis using \<open>p < plen\<close> unfolding scan_budget_def by linarith
qed

lemma scan_budget_backtrack:
  "m < tlen \<Longrightarrow> p \<le> plen \<Longrightarrow> scan_budget plen tlen (Suc q) (Suc m) < scan_budget plen tlen p m"
proof -
  assume "m < tlen" "p \<le> plen"
  then have "(tlen - m) * Suc plen = (tlen - Suc m) * Suc plen + Suc plen"
    by (metis Suc_diff_Suc add.commute mult_Suc)
  then show ?thesis using \<open>p \<le> plen\<close> unfolding scan_budget_def by linarith
qed

lemma segment_pattern_bounded_eq:
  assumes "scan_budget (length pat) (length tx) p m \<le> n" and "m \<le> t" and "p \<le> length pat"
    and "\<forall>s. star = Some s \<longrightarrow> s < length pat"
  shows "segment_pattern_bounded n pat tx p t star m = Some (segment_pattern_loop pat tx p t star m)"
  using assms
proof (induction n arbitrary: p t star m)
  case 0
  then show ?case by (simp add: scan_budget_def)
next
  case (Suc n)
  note unfold = segment_pattern_loop.simps [of pat tx p t star m]
  consider (stop) "length tx \<le> t"
    | (char) "t < length tx" "p < length pat" "pat ! p = ''?'' \<or> eq_ignore_ascii_case (pat ! p) (tx ! t)"
    | (star) "t < length tx" "p < length pat" "\<not> (pat ! p = ''?'' \<or> eq_ignore_ascii_case (pat ! p) (tx ! t))" "pat ! p = ''*''"
    | (none) "t < length tx" "\<not> (p < length pat \<and> (pat ! p = ''?'' \<or> eq_ignore_ascii_case (pat ! p) (tx ! t)))"
        "\<not> (p < length pat \<and> pat ! p = ''*'')"
    by linarith
  then show ?case
  proof cases
    case stop
    then show ?thesis by (simp add: unfold)
  next
    case char
    then have "scan_budget (length pat) (length tx) (p + 1) m \<le> n"
      using scan_budget_step [of p "length pat" m m "length tx"] Suc.prems(1) by simp
    from Suc.IH [OF this, of "t + 1" star] Suc.prems char show ?thesis by (simp add: unfold)
  next
    case star
    then have "scan_budget (length pat) (length tx) (p + 1) t \<le> n"
      using scan_budget_step [of p "length pat" m t "length tx"] Suc.prems(1,2) by simp
    from Suc.IH [OF this, of t "Some p"] star show ?thesis by (simp add: unfold)
  next
    case none
    show ?thesis
    proof (cases star)
      case None
      then show ?thesis using none by (auto simp: segment_pattern_loop.simps [of pat tx p t None m])
    next
      case (Some s)
      then have "scan_budget (length pat) (length tx) (s + 1) (m + 1) \<le> n"
        using scan_budget_backtrack [of m "length tx" p "length pat" s] Suc.prems none(1) by simp
      from Suc.IH [OF this, of "m + 1" star] Suc.prems(4) Some none show ?thesis
        by (auto simp: segment_pattern_loop.simps [of pat tx p t "Some s" m] Suc_leI)
    qed
  qed
qed

text \<open>
  (C34) The wildcard scanner needs no more than a quadratic number of iterations: with a budget of
  (text length + 1) times (pattern length + 1), in characters, its loop has ended, whatever stars the
  pattern has. Backtracking cannot blow up.
\<close>

theorem segment_scan_quadratic:
  assumes "Suc (length text_chars) * Suc (length pattern_chars) \<le> n"
  shows "segment_pattern_bounded n pattern_chars text_chars 0 0 None 0
    = Some (segment_pattern_loop pattern_chars text_chars 0 0 None 0)"
  using assms by (intro segment_pattern_bounded_eq) (simp_all add: scan_budget_def)

theorem segment_scan_quadratic_witness:
  "segment_pattern_bounded 12 [''*'', ''a'', ''b''] [''a'', ''b''] 0 0 None 0
    = Some (segment_pattern_loop [''*'', ''a'', ''b''] [''a'', ''b''] 0 0 None 0)"
  by (rule segment_scan_quadratic) simp

end
