(* ===== verification/Domain.thy ===== *)
theory Domain
  imports Paths_Rules
begin

text \<open>
  Model of \<^verbatim>\<open>src/domain.rs\<close>: path mappings (a request root is served from a final root), the
  chain rewriting of a path by the longest matching root, its expansion into independent mount
  points, and the filter that removes cyclic or over-long mapping chains.

  The iteration order of a \<^verbatim>\<open>HashMap\<close> is not specified; \<open>key_order\<close> stands for it.
\<close>

section \<open>Model\<close>

definition MAX_PATH_MAPPING_DEPTH :: nat where
  "MAX_PATH_MAPPING_DEPTH = 10"

record path_mapping =
  request_path :: bytes
  final_path :: bytes

definition PathMapping_new :: "bytes \<Rightarrow> bytes \<Rightarrow> path_mapping" where
  "PathMapping_new req fin = \<lparr>request_path = req, final_path = fin\<rparr>"

definition sort_path_mappings_longest_request_first :: "path_mapping list \<Rightarrow> path_mapping list" where
  "sort_path_mappings_longest_request_first =
     sort_key (\<lambda>a. (- int (length (request_path a)), request_path a))"

definition sort_path_mappings_longest_request_first_case_insensitive ::
  "path_mapping list \<Rightarrow> path_mapping list" where
  "sort_path_mappings_longest_request_first_case_insensitive =
     sort_key (\<lambda>a. (- int (length (request_path a)), match_key (request_path a), request_path a))"

definition mappings_need_namespace_mount ::
  "i32 \<Rightarrow> bytes \<Rightarrow> bytes \<Rightarrow> path_mapping list \<Rightarrow> bool" where
  "mappings_need_namespace_mount uid app_data_dir redirect_target path_mappings =
     (if path_mappings = [] then False
      else let user_id = user_id_from_uid uid; storage_root = storage_user_root_for_user user_id
        in list_ex (\<lambda>mapping.
             list_ex (\<lambda>raw.
               (let resolved = resolve_user_path
                      (resolve_placeholders (normalize raw) app_data_dir redirect_target) user_id
                in resolved \<noteq> [] \<and> \<not> has_unsafe_segments resolved \<and> is_absolute resolved
                   \<and> \<not> is_same_or_child resolved storage_root))
               [request_path mapping, final_path mapping]) path_mappings)"

definition sort_path_mappings_shortest_request_first :: "path_mapping list \<Rightarrow> path_mapping list" where
  "sort_path_mappings_shortest_request_first =
     sort_key (\<lambda>a. (length (request_path a), request_path a))"

text \<open>One iteration: the covering mapping with the longest root, and what follows the root.\<close>

definition source_root :: "bool \<Rightarrow> path_mapping \<Rightarrow> bytes" where
  "source_root rvs mapping = (if rvs then final_path mapping else request_path mapping)"

definition target_root :: "bool \<Rightarrow> path_mapping \<Rightarrow> bytes" where
  "target_root rvs mapping = (if rvs then request_path mapping else final_path mapping)"

definition best_mapping ::
  "bool \<Rightarrow> path_mapping list \<Rightarrow> bytes \<Rightarrow> (path_mapping \<times> bytes) option" where
  "best_mapping rvs mappings current =
     max_by_key (\<lambda>(m, _). (length (source_root rvs m), match_key (source_root rvs m)))
       (List.map_filter (\<lambda>m. map_option (\<lambda>suff. (m, suff)) (child_suffix current (source_root rvs m)))
          mappings)"

fun map_chain_loop ::
  "nat \<Rightarrow> bool \<Rightarrow> path_mapping list \<Rightarrow> bytes \<Rightarrow> bool \<Rightarrow> bytes list \<Rightarrow> bytes" where
  "map_chain_loop 0 rvs mappings current changed visited = []"
| "map_chain_loop (Suc i) rvs mappings current changed visited =
     (case best_mapping rvs mappings current of
        None \<Rightarrow> if changed then current else []
      | Some (mapping, suff) \<Rightarrow>
          (let next = target_root rvs mapping @ suff
           in if match_key next \<in> set visited then []
              else map_chain_loop i rvs mappings next True (match_key next # visited)))"

definition map_mapping_chain :: "bytes \<Rightarrow> path_mapping list \<Rightarrow> bool \<Rightarrow> bytes" where
  "map_mapping_chain path mappings rvs =
     (if path = [] \<or> mappings = [] then []
      else map_chain_loop (MAX_PATH_MAPPING_DEPTH + 1) rvs mappings path False [match_key path])"

definition map_path_by_mappings :: "bytes \<Rightarrow> path_mapping list \<Rightarrow> bytes" where
  "map_path_by_mappings path mappings = map_mapping_chain path mappings False"

definition reverse_map_path_by_mappings :: "bytes \<Rightarrow> path_mapping list \<Rightarrow> bytes" where
  "reverse_map_path_by_mappings path mappings = map_mapping_chain path mappings True"

text \<open>
  The aliases one expanded request adds to the queue. A mapping is skipped when it does not cover
  the request, when it covers it exactly, or when the alias is already known.
\<close>

definition expansion_aliases :: "path_mapping list \<Rightarrow> bytes list \<Rightarrow> bytes \<Rightarrow> bytes list" where
  "expansion_aliases mappings seen request =
     List.map_filter (\<lambda>parent.
         case child_suffix request (final_path parent) of
           None \<Rightarrow> None
         | Some suff \<Rightarrow>
             if suff = [] then None
             else let alias = request_path parent @ suff
               in if match_key alias \<notin> set seen then Some alias else None) mappings"

lemma map_filter_length: "length (List.map_filter f xs) \<le> length xs"
  by (simp add: List.map_filter_def)

lemma expansion_aliases_length: "length (expansion_aliases ms seen r) \<le> length ms"
  by (simp add: expansion_aliases_def map_filter_length)

lemma expansion_measure:
  assumes "length as \<le> n" and "d < (10 :: nat)"
  shows "sum_list (map (\<lambda>a. Suc n ^ (11 - Suc d)) as) < Suc n ^ (11 - d)"
proof -
  have "sum_list (map (\<lambda>a. Suc n ^ (11 - Suc d)) as) = length as * Suc n ^ (10 - d)"
    by (simp add: sum_list_triv)
  also have "\<dots> < Suc n * Suc n ^ (10 - d)"
    using assms(1) by (intro mult_strict_right_mono) auto
  also have "\<dots> = Suc n ^ Suc (10 - d)" by simp
  also have "Suc (10 - d) = 11 - d" using assms(2) by simp
  finally show ?thesis .
qed

function expand_loop ::
  "path_mapping list \<Rightarrow> (bytes \<times> nat) list \<Rightarrow> bytes list \<Rightarrow> path_mapping list \<Rightarrow> path_mapping list" where
  "expand_loop mappings [] seen expanded = expanded"
| "expand_loop mappings ((request, depth) # pending) seen expanded =
     (if match_key request \<in> set seen then expand_loop mappings pending seen expanded
      else
        (let seen = match_key request # seen; target = map_path_by_mappings request mappings
         in if target = [] then expand_loop mappings pending seen expanded
            else
              (let expanded = expanded @ [PathMapping_new request target]
               in if MAX_PATH_MAPPING_DEPTH \<le> depth then expand_loop mappings pending seen expanded
                  else expand_loop mappings
                         (pending @ map (\<lambda>a. (a, depth + 1)) (expansion_aliases mappings seen request))
                         seen expanded)))"
  by pat_completeness auto
termination
proof (relation "measure (\<lambda>(ms, pending, _, _). sum_list (map (\<lambda>(_, d). Suc (length ms) ^ (11 - d)) pending))",
    goal_cases)
  case (5 ms request depth pending seen expanded seen' target expanded')
  have "sum_list (map (\<lambda>a. Suc (length ms) ^ (11 - Suc depth)) (expansion_aliases ms seen' request))
      < Suc (length ms) ^ (11 - depth)"
    using 5 by (intro expansion_measure expansion_aliases_length) (simp add: MAX_PATH_MAPPING_DEPTH_def)
  then show ?case by (simp add: comp_def)
qed auto

definition expand_namespace_path_mappings :: "path_mapping list \<Rightarrow> path_mapping list" where
  "expand_namespace_path_mappings mappings =
     expand_loop mappings (map (\<lambda>m. (request_path m, 0)) mappings) [] []"

definition dedup_path_mappings_by_request_case_insensitive :: "path_mapping list \<Rightarrow> path_mapping list" where
  "dedup_path_mappings_by_request_case_insensitive =
     dedup_by (\<lambda>a b. eq_ignore_case (request_path a) (request_path b))"

text \<open>
  The filter's view of the mapping list: a \<^verbatim>\<open>HashMap\<close> from folded request to folded final path.
  \<^verbatim>\<open>collect\<close> lets a later entry with the same key win.
\<close>

definition target_by_request :: "path_mapping list \<Rightarrow> (bytes \<times> bytes) list" where
  "target_by_request mappings =
     foldl (\<lambda>m mapping. AList.update (match_key (request_path mapping)) (match_key (final_path mapping)) m)
       [] mappings"

type_synonym visit_states = "bytes \<rightharpoonup> nat"

definition unvisited :: "(bytes \<times> bytes) list \<Rightarrow> visit_states \<Rightarrow> bytes set" where
  "unvisited m vs = {k \<in> set (keys_of m). vs k \<noteq> Some 1 \<and> vs k \<noteq> Some 2}"

function visit_mapping_cycle ::
  "bytes \<Rightarrow> (bytes \<times> bytes) list \<Rightarrow> visit_states \<Rightarrow> bytes list \<Rightarrow> bytes set
    \<Rightarrow> visit_states \<times> bytes list \<times> bytes set" where
  "visit_mapping_cycle source mappings visit_state stack cycles =
     (if visit_state source = Some 1 then
        (visit_state, stack,
         if source \<in> set stack then cycles \<union> set (dropWhile (\<lambda>path. path \<noteq> source) stack) else cycles)
      else if visit_state source = Some 2 then (visit_state, stack, cycles)
      else
        (let visit_state = visit_state(source \<mapsto> 1); stack = stack @ [source];
             (visit_state, stack, cycles) =
               (case map_of mappings source of
                  Some target \<Rightarrow> visit_mapping_cycle target mappings visit_state stack cycles
                | None \<Rightarrow> (visit_state, stack, cycles))
         in (visit_state(source \<mapsto> 2), butlast stack, cycles)))"
  by pat_completeness auto
termination
proof (relation "measure (\<lambda>(_, m, vs, _, _). card (unvisited m vs))", goal_cases)
  case (2 source m vs stack cycles vs' stack' target)
  have "source \<in> unvisited m vs" "source \<notin> unvisited m vs'" "unvisited m vs' \<subseteq> unvisited m vs"
    using 2 by (auto simp: unvisited_def dest: map_of_SomeD intro!: rev_image_eqI)
  then have "card (unvisited m vs') < card (unvisited m vs)"
    by (intro psubset_card_mono) (auto simp: unvisited_def)
  then show ?case by simp
qed simp

declare visit_mapping_cycle.simps [simp del]

definition detect_mapping_cycles :: "bytes list \<Rightarrow> (bytes \<times> bytes) list \<Rightarrow> bytes set" where
  "detect_mapping_cycles keys mappings =
     snd (snd (foldl (\<lambda>(vs, stack, cycles) source. visit_mapping_cycle source mappings vs stack cycles)
                 (Map.empty, [], {}) keys))"

function compute_mapping_depth ::
  "bytes \<Rightarrow> (bytes \<times> bytes) list \<Rightarrow> (bytes \<rightharpoonup> nat) \<Rightarrow> bytes set \<Rightarrow> nat \<times> (bytes \<rightharpoonup> nat) \<times> bytes set" where
  "compute_mapping_depth source mappings depths visiting =
     (if source \<in> visiting then (MAX_PATH_MAPPING_DEPTH + 1, depths, visiting)
      else (case depths source of
          Some depth \<Rightarrow> (depth, depths, visiting)
        | None \<Rightarrow>
            (case map_of mappings source of
               None \<Rightarrow> (0, depths, visiting)
             | Some target \<Rightarrow>
                 (let (d, depths, visiting) =
                        compute_mapping_depth target mappings depths (insert source visiting);
                      depth = 1 + d; visiting = visiting - {source}
                  in (depth, depths(source \<mapsto> depth), visiting)))))"
  by pat_completeness auto
termination
proof (relation "measure (\<lambda>(_, m, _, visiting). card (set (keys_of m) - visiting))", goal_cases)
  case (2 source m depths visiting target)
  have "source \<in> set (keys_of m)" using 2 by (force dest: map_of_SomeD)
  then have "card (set (keys_of m) - insert source visiting) < card (set (keys_of m) - visiting)"
    using 2 by (intro psubset_card_mono) auto
  then show ?case by simp
qed simp

declare compute_mapping_depth.simps [simp del]

definition detect_mapping_depths :: "bytes list \<Rightarrow> (bytes \<times> bytes) list \<Rightarrow> (bytes \<rightharpoonup> nat)" where
  "detect_mapping_depths keys mappings =
     foldl (\<lambda>depths source.
         if depths source = None then fst (snd (compute_mapping_depth source mappings depths {}))
         else depths) Map.empty keys"

definition filter_valid_path_mapping_chains ::
  "(bytes list \<Rightarrow> bytes list) \<Rightarrow> path_mapping list \<Rightarrow> path_mapping list" where
  "filter_valid_path_mapping_chains key_order mappings =
     (if mappings = [] then mappings
      else
        (let by_request = target_by_request mappings;
             keys = key_order (keys_of by_request);
             cyclic_sources = detect_mapping_cycles keys by_request;
             depths = detect_mapping_depths keys by_request;
             over_depth = (\<lambda>source. case depths source of
                             None \<Rightarrow> False | Some depth \<Rightarrow> MAX_PATH_MAPPING_DEPTH < depth)
         in if cyclic_sources = {} \<and> \<not> list_ex over_depth keys then mappings
            else filter (\<lambda>mapping.
                   (let source_key = match_key (request_path mapping)
                    in source_key \<notin> cyclic_sources \<and> \<not> over_depth source_key)) mappings))"

section \<open>Chains of mappings\<close>

text \<open>The chain that starts at a key leaves the map after at most so many steps.\<close>

fun chain_ends :: "(bytes \<rightharpoonup> bytes) \<Rightarrow> nat \<Rightarrow> bytes \<Rightarrow> bool" where
  "chain_ends m 0 k \<longleftrightarrow> m k = None"
| "chain_ends m (Suc n) k \<longleftrightarrow> (case m k of None \<Rightarrow> True | Some t \<Rightarrow> chain_ends m n t)"

abbreviation edge :: "(bytes \<rightharpoonup> bytes) \<Rightarrow> bytes \<Rightarrow> bytes \<Rightarrow> bool" where
  "edge m a b \<equiv> m a = Some b"

lemma chain_ends_step: "chain_ends m n a \<Longrightarrow> edge m a b \<Longrightarrow> \<exists>k < n. chain_ends m k b"
  by (cases n) auto

lemma chain_ends_trancl: "(edge m)\<^sup>+\<^sup>+ a b \<Longrightarrow> chain_ends m n a \<Longrightarrow> \<exists>k < n. chain_ends m k b"
proof (induction arbitrary: n rule: tranclp_induct)
  case (base b)
  then show ?case by (auto dest: chain_ends_step)
next
  case (step b c)
  then show ?case by (meson chain_ends_step less_trans)
qed

lemma cycle_never_ends:
  assumes "(edge m)\<^sup>+\<^sup>+ a a"
  shows "\<not> chain_ends m n a"
proof (induction n rule: less_induct)
  case (less n)
  with chain_ends_trancl [OF assms] show ?case by blast
qed

lemma closed_never_ends:
  assumes "\<And>x. x \<in> S \<Longrightarrow> \<exists>y \<in> S. edge m x y"
  shows "x \<in> S \<Longrightarrow> \<not> chain_ends m n x"
  by (induction n arbitrary: x) (use assms in fastforce)+

text \<open>What a computed depth means: the exact length of the chain, or anything over the limit if it never ends.\<close>

definition depth_ok :: "(bytes \<rightharpoonup> bytes) \<Rightarrow> bytes \<Rightarrow> nat \<Rightarrow> bool" where
  "depth_ok m k d \<longleftrightarrow> (\<forall>n. chain_ends m n k \<longleftrightarrow> d \<le> n) \<or> ((\<forall>n. \<not> chain_ends m n k) \<and> MAX_PATH_MAPPING_DEPTH < d)"

lemma depth_ok_step: "edge m k t \<Longrightarrow> depth_ok m t d \<Longrightarrow> depth_ok m k (Suc d)"
proof -
  assume e: "edge m k t" and ok: "depth_ok m t d"
  have "chain_ends m n k \<longleftrightarrow> (\<exists>n'. n = Suc n' \<and> chain_ends m n' t)" for n
    using e by (cases n) auto
  moreover have "(\<exists>n'. n = Suc n' \<and> d \<le> n') \<longleftrightarrow> Suc d \<le> n" for n by (cases n) auto
  ultimately show ?thesis using ok unfolding depth_ok_def by (metis less_SucI)
qed

lemma depth_ok_over: "depth_ok m k d \<Longrightarrow> MAX_PATH_MAPPING_DEPTH < d \<longleftrightarrow> \<not> chain_ends m MAX_PATH_MAPPING_DEPTH k"
  unfolding depth_ok_def by (metis not_le)

definition depths_ok :: "(bytes \<times> bytes) list \<Rightarrow> (bytes \<rightharpoonup> nat) \<Rightarrow> bool" where
  "depths_ok m depths \<longleftrightarrow> (\<forall>k d. depths k = Some d \<longrightarrow> depth_ok (map_of m) k d)"

lemma compute_mapping_depth_ok:
  assumes "depths_ok m depths" and "\<And>v. v \<in> visiting \<Longrightarrow> (edge (map_of m))\<^sup>+\<^sup>+ v source"
    and "compute_mapping_depth source m depths visiting = (d, depths', visiting')"
  shows "depth_ok (map_of m) source d \<and> depths_ok m depths' \<and> visiting' = visiting
    \<and> dom depths \<subseteq> dom depths' \<and> (visiting = {} \<and> source \<in> dom (map_of m) \<longrightarrow> source \<in> dom depths')"
  using assms
proof (induction source m depths visiting arbitrary: d depths' visiting' rule: compute_mapping_depth.induct)
  case (1 source m depths visiting)
  note IH = 1(1) and ok = 1(2) and path = 1(3) and run = 1(4) [unfolded compute_mapping_depth.simps [of source]]
  show ?case
  proof (cases "source \<in> visiting")
    case True
    then have "\<not> chain_ends (map_of m) n source" for n using path cycle_never_ends by blast
    then show ?thesis using True run ok by (auto simp: depth_ok_def)
  next
    case new: False
    show ?thesis
    proof (cases "depths source")
      case (Some x)
      then show ?thesis using new run ok by (auto simp: depths_ok_def)
    next
      case unknown: None
      show ?thesis
      proof (cases "map_of m source")
        case None
        then have "chain_ends (map_of m) n source" for n by (cases n) auto
        then show ?thesis using new unknown None run ok by (auto simp: depth_ok_def)
      next
        case (Some target)
        obtain d1 depths1 vis1 where rec:
          "compute_mapping_depth target m depths (insert source visiting) = (d1, depths1, vis1)"
          by (metis prod_cases3)
        have "depth_ok (map_of m) target d1 \<and> depths_ok m depths1 \<and> vis1 = insert source visiting
            \<and> dom depths \<subseteq> dom depths1"
        proof -
          have "(edge (map_of m))\<^sup>+\<^sup>+ v target" if "v \<in> insert source visiting" for v
            using that path Some by (blast intro: tranclp.intros)
          from IH [OF new unknown Some ok this rec] show ?thesis by blast
        qed
        moreover from this Some have "depth_ok (map_of m) source (Suc d1)" by (blast intro: depth_ok_step)
        ultimately show ?thesis using run new unknown Some rec
          by (auto simp: depths_ok_def split: if_splits)
      qed
    qed
  qed
qed

lemma detect_mapping_depths_ok:
  assumes "set keys \<subseteq> dom (map_of m)"
  shows "depths_ok m (detect_mapping_depths keys m) \<and> set keys \<subseteq> dom (detect_mapping_depths keys m)"
  using assms
proof (induction keys rule: rev_induct)
  case Nil
  then show ?case by (simp add: detect_mapping_depths_def depths_ok_def)
next
  case (snoc k keys)
  let ?d = "detect_mapping_depths keys m"
  obtain d depths visiting where run: "compute_mapping_depth k m ?d {} = (d, depths, visiting)"
    by (metis prod_cases3)
  from snoc compute_mapping_depth_ok [of m ?d "{}" k, OF _ _ run]
  have "depths_ok m depths \<and> dom ?d \<subseteq> dom depths \<and> k \<in> dom depths" by auto
  moreover have "detect_mapping_depths (keys @ [k]) m = (if ?d k = None then depths else ?d)"
    using run by (simp add: detect_mapping_depths_def)
  moreover have "set keys \<subseteq> dom ?d" "depths_ok m ?d" using snoc by simp_all
  ultimately show ?case by (simp add: domIff) (metis (no_types, lifting) domIff subset_iff)
qed

lemma successively_has_next:
  "successively R (xs @ [z]) \<Longrightarrow> y \<in> set xs \<Longrightarrow> \<exists>w \<in> set (xs @ [z]). R y w"
proof (induction xs)
  case (Cons x xs)
  show ?case
  proof (cases "y = x")
    case True
    with Cons.prems(1) show ?thesis by (cases xs) auto
  next
    case False
    with Cons show ?thesis by (auto simp: successively_Cons)
  qed
qed simp

lemma stack_cycle_never_ends:
  assumes "successively (edge m) (stack @ [source])" and "source \<in> set stack"
    and "x \<in> set (dropWhile (\<lambda>p. p \<noteq> source) stack)"
  shows "\<not> chain_ends m n x"
proof -
  obtain a b where stack: "stack = a @ source # b" "source \<notin> set a"
    using assms(2) by (meson split_list_first)
  let ?c = "source # b"
  have cyc: "successively (edge m) (?c @ [source])" using assms(1) stack
    by (simp add: successively_append_iff)
  have "\<exists>z \<in> set ?c. edge m y z" if "y \<in> set ?c" for y
    using successively_has_next [OF cyc that] by auto
  moreover have "x \<in> set ?c" using assms(3) stack by simp
  ultimately show ?thesis by (rule closed_never_ends)
qed

lemma visit_mapping_cycle_sound:
  assumes "successively (edge (map_of m)) (stack @ [source])"
    and "visit_mapping_cycle source m vs stack cycles = (vs', stack', cycles')"
  shows "stack' = stack \<and> (\<forall>x \<in> cycles' - cycles. \<forall>n. \<not> chain_ends (map_of m) n x)"
  using assms
proof (induction source m vs stack cycles arbitrary: vs' stack' cycles' rule: visit_mapping_cycle.induct)
  case (1 source m vs stack cycles)
  note run = 1(3) [unfolded visit_mapping_cycle.simps [of source]]
  show ?case
  proof (cases "vs source = Some 1 \<or> vs source = Some 2")
    case True
    then show ?thesis using run stack_cycle_never_ends [OF 1(2)] by (auto split: if_splits)
  next
    case False
    show ?thesis
    proof (cases "map_of m source")
      case None
      then show ?thesis using False run by (auto simp: Let_def)
    next
      case (Some target)
      obtain vs1 stack1 cycles1 where rec:
        "visit_mapping_cycle target m (vs(source \<mapsto> 1)) (stack @ [source]) cycles = (vs1, stack1, cycles1)"
        by (metis prod_cases3)
      have "successively (edge (map_of m)) ((stack @ [source]) @ [target])"
        using 1(2) Some by (simp add: successively_append_iff)
      with 1(1) False Some rec
      have "stack1 = stack @ [source] \<and> (\<forall>x \<in> cycles1 - cycles. \<forall>n. \<not> chain_ends (map_of m) n x)"
        by blast
      moreover have "stack' = butlast stack1 \<and> cycles' = cycles1"
        using run False Some rec by (auto simp: Let_def)
      ultimately show ?thesis by simp
    qed
  qed
qed

lemma detect_mapping_cycles_sound:
  "x \<in> detect_mapping_cycles keys m \<Longrightarrow> \<not> chain_ends (map_of m) n x"
proof -
  let ?f = "foldl (\<lambda>(vs, stack, cycles) source. visit_mapping_cycle source m vs stack cycles) (Map.empty, [], {})"
  have "fst (snd (?f keys)) = [] \<and> (\<forall>x \<in> snd (snd (?f keys)). \<forall>n. \<not> chain_ends (map_of m) n x)"
  proof (induction keys rule: rev_induct)
    case (snoc k keys)
    obtain vs stack cycles where f: "?f keys = (vs, stack, cycles)" by (metis prod_cases3)
    obtain vs' stack' cycles' where run: "visit_mapping_cycle k m vs stack cycles = (vs', stack', cycles')"
      by (metis prod_cases3)
    have "stack = []" using snoc f by simp
    then have "successively (edge (map_of m)) (stack @ [k])" by simp
    from visit_mapping_cycle_sound [OF this run] snoc f run \<open>stack = []\<close> show ?case by auto
  qed simp
  then show "x \<in> detect_mapping_cycles keys m \<Longrightarrow> \<not> chain_ends (map_of m) n x"
    by (simp add: detect_mapping_cycles_def)
qed

lemma target_by_request_keys:
  "dom (map_of (target_by_request ms)) = (\<lambda>m. match_key (request_path m)) ` set ms"
proof (induction ms rule: rev_induct)
  case (snoc m ms)
  have "map_of (target_by_request (ms @ [m])) =
      (map_of (target_by_request ms))(match_key (request_path m) \<mapsto> match_key (final_path m))"
    by (simp only: target_by_request_def foldl_append foldl.simps map_of_update)
  with snoc show ?case
    by (simp only: dom_fun_upd set_append list.set image_Un image_insert image_empty option.distinct
        if_False Un_insert_right sup_bot_right)
qed (simp add: target_by_request_def)

lemma filter_valid_chains_filter:
  assumes "\<And>ks. set (key_order ks) = set ks"
  shows "filter_valid_path_mapping_chains key_order ms =
    filter (\<lambda>m. chain_ends (map_of (target_by_request ms)) MAX_PATH_MAPPING_DEPTH (match_key (request_path m))) ms"
proof -
  let ?t = "target_by_request ms"
  let ?keys = "key_order (keys_of ?t)"
  let ?cyclic = "detect_mapping_cycles ?keys ?t" and ?depths = "detect_mapping_depths ?keys ?t"
  let ?over = "\<lambda>source. case ?depths source of None \<Rightarrow> False | Some depth \<Rightarrow> MAX_PATH_MAPPING_DEPTH < depth"
  have keys: "set ?keys = dom (map_of ?t)" by (simp add: assms dom_map_of_conv_image_fst)
  then have depths: "depths_ok ?t ?depths" "set ?keys \<subseteq> dom ?depths"
    using detect_mapping_depths_ok [of ?keys ?t] by simp_all
  have over: "?over k \<longleftrightarrow> \<not> chain_ends (map_of ?t) MAX_PATH_MAPPING_DEPTH k" if k: "k \<in> set ?keys" for k
  proof -
    from depths(2) k obtain d where d: "?depths k = Some d" by blast
    with depths(1) have "depth_ok (map_of ?t) k d" by (simp add: depths_ok_def)
    with d show ?thesis using depth_ok_over by simp
  qed
  have key: "match_key (request_path m) \<in> set ?keys" if "m \<in> set ms" for m
    using that unfolding keys target_by_request_keys by blast
  have keep: "match_key (request_path m) \<notin> ?cyclic \<and> \<not> ?over (match_key (request_path m))
      \<longleftrightarrow> chain_ends (map_of ?t) MAX_PATH_MAPPING_DEPTH (match_key (request_path m))" if "m \<in> set ms" for m
    using over [OF key [OF that]] detect_mapping_cycles_sound by blast
  have all: "chain_ends (map_of ?t) MAX_PATH_MAPPING_DEPTH (match_key (request_path m))"
    if "\<not> list_ex ?over ?keys" "m \<in> set ms" for m
    using that key [OF that(2)] over by (fastforce simp: list_ex_iff)
  consider "ms = []" | "ms \<noteq> []" "?cyclic = {} \<and> \<not> list_ex ?over ?keys"
    | "ms \<noteq> []" "\<not> (?cyclic = {} \<and> \<not> list_ex ?over ?keys)" by blast
  then show ?thesis
  proof cases
    case 2
    then have "filter (\<lambda>m. chain_ends (map_of ?t) MAX_PATH_MAPPING_DEPTH (match_key (request_path m))) ms = ms"
      using all by (intro filter_True) blast
    with 2 show ?thesis by (simp only: filter_valid_path_mapping_chains_def Let_def if_True if_False simp_thms)
  next
    case 3
    have "filter (\<lambda>m. match_key (request_path m) \<notin> ?cyclic \<and> \<not> ?over (match_key (request_path m))) ms =
        filter (\<lambda>m. chain_ends (map_of ?t) MAX_PATH_MAPPING_DEPTH (match_key (request_path m))) ms"
      using keep by (rule filter_cong [OF refl])
    with 3 show ?thesis by (simp only: filter_valid_path_mapping_chains_def Let_def if_True if_False simp_thms)
  qed (simp add: filter_valid_path_mapping_chains_def)
qed

text \<open>
  (C11) Whatever order the hash map is iterated in, the filter keeps a mapping exactly when the chain
  of mappings that starts at its request path ends within ten steps: a cycle, anything leading into
  one, and a chain that is too long are all dropped, and nothing else is. The chain is followed in
  the case-folded map in which the last mapping with a given request path wins.
\<close>

theorem filter_valid_chains_exact:
  assumes "\<And>ks. set (key_order ks) = set ks"
  shows "filter_valid_path_mapping_chains key_order ms =
    filter (\<lambda>m. chain_ends (map_of (target_by_request ms)) MAX_PATH_MAPPING_DEPTH (match_key (request_path m))) ms"
  by (rule filter_valid_chains_filter [OF assms])

theorem filter_valid_chains_exact_witness:
  "filter_valid_path_mapping_chains (\<lambda>ks. ks)
     [PathMapping_new ''/A'' ''/b'', PathMapping_new ''/B'' ''/a'', PathMapping_new ''/c'' ''/d'']
   = [PathMapping_new ''/c'' ''/d'']"
proof -
  have order: "\<And>ks :: bytes list. set ks = set ks" by simp
  show ?thesis unfolding filter_valid_chains_exact [of "\<lambda>ks. ks", OF order] by code_simp
qed

text \<open>Dropping mappings shortens chains, so what the filter keeps is valid on its own.\<close>

lemma chain_ends_restrict: "chain_ends m n k \<Longrightarrow> chain_ends (m |` S) n k"
  by (induction n arbitrary: k) (auto simp: restrict_map_def split: option.splits)

lemma target_by_request_filter:
  "map_of (target_by_request (filter (\<lambda>m. P (match_key (request_path m))) ms))
    = map_of (target_by_request ms) |` {k. P k}"
proof (induction ms rule: rev_induct)
  case (snoc m ms)
  have upd: "map_of (target_by_request (ms @ [m])) =
      (map_of (target_by_request ms))(match_key (request_path m) \<mapsto> match_key (final_path m))" for ms
    by (simp only: target_by_request_def foldl_append foldl.simps map_of_update)
  show ?case using snoc by (auto simp: upd restrict_map_def)
qed (simp add: target_by_request_def)

lemma filter_valid_chains_end:
  assumes "\<And>ks. set (key_order ks) = set ks"
    and "m \<in> set (filter_valid_path_mapping_chains key_order ms)"
  shows "chain_ends (map_of (target_by_request (filter_valid_path_mapping_chains key_order ms)))
    MAX_PATH_MAPPING_DEPTH (match_key (request_path m))"
  using assms(2) unfolding filter_valid_chains_filter [OF assms(1)]
    target_by_request_filter [of "chain_ends (map_of (target_by_request ms)) MAX_PATH_MAPPING_DEPTH"]
  by (auto intro: chain_ends_restrict)

section \<open>Rewriting a path along a chain\<close>

text \<open>One rewriting step as a specification: by a covering mapping with a root of maximal length.\<close>

definition longest_root_step :: "bool \<Rightarrow> path_mapping list \<Rightarrow> bytes \<Rightarrow> bytes \<Rightarrow> bool" where
  "longest_root_step rvs ms p q \<longleftrightarrow>
     (\<exists>m \<in> set ms. \<exists>suff. child_suffix p (source_root rvs m) = Some suff \<and> q = target_root rvs m @ suff
        \<and> (\<forall>m' \<in> set ms. child_suffix p (source_root rvs m') \<noteq> None
              \<longrightarrow> length (source_root rvs m') \<le> length (source_root rvs m)))"

definition uncovered :: "bool \<Rightarrow> path_mapping list \<Rightarrow> bytes \<Rightarrow> bool" where
  "uncovered rvs ms p \<longleftrightarrow> list_all (\<lambda>m. child_suffix p (source_root rvs m) = None) ms"

abbreviation distinct_roots :: "bool \<Rightarrow> path_mapping list \<Rightarrow> bool" where
  "distinct_roots rvs ms \<equiv> distinct (map (\<lambda>m. match_key (source_root rvs m)) ms)"

lemma set_map_filter: "set (List.map_filter f xs) = {y. \<exists>x \<in> set xs. f x = Some y}"
  by (force simp: List.map_filter_def)

lemma map_filter_eq_Nil: "List.map_filter f xs = [] \<longleftrightarrow> (\<forall>x \<in> set xs. f x = None)"
  by (auto simp: List.map_filter_def filter_empty_conv)

lemma best_mapping_None: "best_mapping rvs ms p = None \<longleftrightarrow> uncovered rvs ms p"
  by (simp add: best_mapping_def map_filter_eq_Nil uncovered_def list_all_iff)

lemma best_mapping_step:
  assumes "best_mapping rvs ms p = Some (m, suff)"
  shows "longest_root_step rvs ms p (target_root rvs m @ suff)"
proof -
  let ?c = "List.map_filter (\<lambda>m. map_option (\<lambda>suff. (m, suff)) (child_suffix p (source_root rvs m))) ms"
  let ?k = "\<lambda>(m, _). (length (source_root rvs m), match_key (source_root rvs m))"
  have best: "max_by_key ?k ?c = Some (m, suff)" using assms by (simp add: best_mapping_def)
  have "(m, suff) \<in> set ?c" by (rule max_by_key_in [OF best])
  then have m: "m \<in> set ms" "child_suffix p (source_root rvs m) = Some suff"
    by (auto simp: set_map_filter)
  have "length (source_root rvs m') \<le> length (source_root rvs m)"
    if m': "m' \<in> set ms" "child_suffix p (source_root rvs m') \<noteq> None" for m'
  proof -
    from m' obtain s' where "(m', s') \<in> set ?c" by (auto simp: set_map_filter)
    from max_by_key_ge [OF best this] show ?thesis by (auto simp: less_eq_prod_def)
  qed
  with m show ?thesis by (auto simp: longest_root_step_def)
qed

lemma covering_roots_same_key:
  assumes "child_suffix p r = Some a" and "child_suffix p r' = Some b" and "length r = length r'"
  shows "match_key r = match_key r' \<and> a = b"
proof -
  obtain q q' where q: "p = q @ a" "to_ascii_lowercase q = to_ascii_lowercase r"
    and q': "p = q' @ b" "to_ascii_lowercase q' = to_ascii_lowercase r'"
    using assms(1,2) child_suffix_Some by metis
  then have "length q = length q'" using assms(3) by (metis length_to_ascii_lowercase)
  with q q' show ?thesis by (simp add: match_key_def)
qed

lemma longest_root_step_unique:
  assumes "distinct_roots rvs ms" and "longest_root_step rvs ms p q" and "longest_root_step rvs ms p q'"
  shows "q = q'"
proof -
  obtain m a m' b where m: "m \<in> set ms" "child_suffix p (source_root rvs m) = Some a" "q = target_root rvs m @ a"
    and m': "m' \<in> set ms" "child_suffix p (source_root rvs m') = Some b" "q' = target_root rvs m' @ b"
    and len: "length (source_root rvs m) = length (source_root rvs m')"
    using assms(2,3) unfolding longest_root_step_def by (metis le_antisym option.distinct(1))
  from covering_roots_same_key [OF m(2) m'(2) len] assms(1) m m' show ?thesis
    by (auto simp: distinct_map dest: inj_onD)
qed

lemma step_not_uncovered: "longest_root_step rvs ms p q \<Longrightarrow> \<not> uncovered rvs ms p"
  by (auto simp: longest_root_step_def uncovered_def list_all_iff)

definition mapping_chain :: "bool \<Rightarrow> path_mapping list \<Rightarrow> bytes \<Rightarrow> bytes list \<Rightarrow> bool" where
  "mapping_chain rvs ms p ps \<longleftrightarrow> successively (longest_root_step rvs ms) (p # ps)
     \<and> uncovered rvs ms (last (p # ps))"

lemma mapping_chain_Nil: "mapping_chain rvs ms p [] \<longleftrightarrow> uncovered rvs ms p"
  by (simp add: mapping_chain_def)

lemma mapping_chain_Cons:
  "mapping_chain rvs ms p (q # ps) \<longleftrightarrow> longest_root_step rvs ms p q \<and> mapping_chain rvs ms q ps"
  by (auto simp: mapping_chain_def)

lemma map_chain_loop_sound:
  "map_chain_loop i rvs ms p changed visited = r \<Longrightarrow> r \<noteq> [] \<Longrightarrow>
     \<exists>ps. length ps < i \<and> (changed \<or> ps \<noteq> []) \<and> mapping_chain rvs ms p ps \<and> last (p # ps) = r
        \<and> distinct (map match_key ps) \<and> match_key ` set ps \<inter> set visited = {}"
proof (induction i rvs ms p changed visited rule: map_chain_loop.induct)
  case (2 i rvs ms p changed visited)
  show ?case
  proof (cases "best_mapping rvs ms p")
    case None
    then have "changed" "r = p" "uncovered rvs ms p"
      using 2(2,3) best_mapping_None [of rvs ms p] by (auto split: if_splits)
    then show ?thesis using 2(2) by (intro exI [of _ "[]"]) (simp add: mapping_chain_Nil)
  next
    case (Some ms')
    obtain m suff where ms': "ms' = (m, suff)" by (cases ms')
    let ?q = "target_root rvs m @ suff"
    have fresh: "match_key ?q \<notin> set visited"
      and rec: "map_chain_loop i rvs ms ?q True (match_key ?q # visited) = r"
      using 2(2,3) Some ms' by (auto simp: Let_def split: if_splits)
    from 2(1) [OF Some ms' [symmetric] refl fresh rec 2(3)] obtain ps where
      "length ps < i" "mapping_chain rvs ms ?q ps" "last (?q # ps) = r" "distinct (map match_key ps)"
      "match_key ` set ps \<inter> set (match_key ?q # visited) = {}" by blast
    moreover have "longest_root_step rvs ms p ?q" using Some ms' by (simp add: best_mapping_step)
    ultimately show ?thesis using fresh
      by (intro exI [of _ "?q # ps"]) (auto simp: mapping_chain_Cons)
  qed
qed simp

lemma map_chain_loop_complete:
  assumes "distinct_roots rvs ms"
  shows "length ps < i \<Longrightarrow> changed \<or> ps \<noteq> [] \<Longrightarrow> mapping_chain rvs ms p ps \<Longrightarrow> distinct (map match_key ps) \<Longrightarrow>
    match_key ` set ps \<inter> set visited = {} \<Longrightarrow> map_chain_loop i rvs ms p changed visited = last (p # ps)"
proof (induction ps arbitrary: i p changed visited)
  case Nil
  then obtain j where "i = Suc j" by (cases i) auto
  with Nil show ?case using best_mapping_None [of rvs ms p] by (auto simp: mapping_chain_Nil)
next
  case (Cons q ps)
  then obtain j where i: "i = Suc j" by (cases i) auto
  from Cons.prems(3) have step: "longest_root_step rvs ms p q" and chain: "mapping_chain rvs ms q ps"
    by (auto simp: mapping_chain_Cons)
  from step have "best_mapping rvs ms p \<noteq> None"
    using best_mapping_None step_not_uncovered by blast
  then obtain m suff where best: "best_mapping rvs ms p = Some (m, suff)" by auto
  have q: "target_root rvs m @ suff = q"
    by (rule longest_root_step_unique [OF assms best_mapping_step [OF best] step])
  have "map_chain_loop j rvs ms q True (match_key q # visited) = last (q # ps)"
    using Cons.prems i chain by (intro Cons.IH) auto
  then show ?case using i best q Cons.prems(5) by auto
qed

text \<open>
  (C5) A mapped path is the end of the chain of longest-prefix rewritings: with request paths that
  are pairwise different ignoring case, \<^verbatim>\<open>map_path_by_mappings\<close> returns a nonempty path
  \<open>r\<close> if and only if some nonempty chain of at most ten steps, each rewriting by a covering mapping of
  maximal request length, leads from the (nonempty) input to \<open>r\<close> without repeating a path up to case,
  and no mapping applies to \<open>r\<close> any more.
\<close>

theorem map_path_is_chain_end:
  assumes "distinct (map (\<lambda>m. match_key (request_path m)) ms)" and "r \<noteq> []"
  shows "map_path_by_mappings p ms = r \<longleftrightarrow>
    p \<noteq> [] \<and> (\<exists>ps. ps \<noteq> [] \<and> length ps \<le> MAX_PATH_MAPPING_DEPTH \<and> mapping_chain False ms p ps
       \<and> last ps = r \<and> distinct (map match_key (p # ps)))" (is "?l \<longleftrightarrow> ?r")
proof
  assume l: ?l
  with assms(2) have "p \<noteq> []" and
    loop: "map_chain_loop (MAX_PATH_MAPPING_DEPTH + 1) False ms p False [match_key p] = r"
    by (auto simp: map_path_by_mappings_def map_mapping_chain_def split: if_splits)
  then show ?r using map_chain_loop_sound [OF loop assms(2)] by auto
next
  assume ?r
  then obtain ps where ps: "p \<noteq> []" "ps \<noteq> []" "length ps < MAX_PATH_MAPPING_DEPTH + 1" "mapping_chain False ms p ps"
    "last ps = r" "distinct (map match_key (p # ps))" by auto
  then have "ms \<noteq> []" by (cases ps) (auto simp: mapping_chain_Cons longest_root_step_def)
  moreover have "map_chain_loop (MAX_PATH_MAPPING_DEPTH + 1) False ms p False [match_key p] = last (p # ps)"
    using ps assms(1) by (intro map_chain_loop_complete) (auto simp: source_root_def)
  ultimately show ?l using ps by (simp add: map_path_by_mappings_def map_mapping_chain_def)
qed

theorem map_path_is_chain_end_witness:
  "map_path_by_mappings ''/a/x'' [PathMapping_new ''/a'' ''/b'', PathMapping_new ''/b/x'' ''/c''] = ''/c''"
proof -
  let ?ms = "[PathMapping_new ''/a'' ''/b'', PathMapping_new ''/b/x'' ''/c'']"
  have d: "distinct (map (\<lambda>m. match_key (request_path m)) ?ms)" by code_simp
  have n: "''/c'' \<noteq> []" by simp
  have "best_mapping False ?ms ''/a/x'' = Some (PathMapping_new ''/a'' ''/b'', ''/x'')"
    "best_mapping False ?ms ''/b/x'' = Some (PathMapping_new ''/b/x'' ''/c'', [])" "uncovered False ?ms ''/c''"
    by code_simp+
  then have "mapping_chain False ?ms ''/a/x'' [''/b/x'', ''/c'']"
    by (auto simp: mapping_chain_Cons mapping_chain_Nil target_root_def PathMapping_new_def dest!: best_mapping_step)
  moreover have "distinct (map match_key [''/a/x'', ''/b/x'', ''/c''])" by code_simp
  ultimately have "\<exists>ps. ps \<noteq> [] \<and> length ps \<le> MAX_PATH_MAPPING_DEPTH \<and> mapping_chain False ?ms ''/a/x'' ps
      \<and> last ps = ''/c'' \<and> distinct (map match_key (''/a/x'' # ps))"
    by (intro exI [of _ "[''/b/x'', ''/c'']"]) (simp add: MAX_PATH_MAPPING_DEPTH_def)
  then show ?thesis using map_path_is_chain_end [OF d n, of "''/a/x''"] by blast
qed

section \<open>Expansion into mount points\<close>

text \<open>Mapping a path ignores the case of its letters, in the result as in the decision.\<close>

lemma child_suffix_key:
  assumes "match_key p = match_key p'"
  shows "rel_option (\<lambda>a b. match_key a = match_key b) (child_suffix p r) (child_suffix p' r)"
  using assms drop_to_ascii_lowercase [of "length r" p] drop_to_ascii_lowercase [of "length r" p']
  by (auto simp: child_suffix_eq match_key_def)

lemma map_filter_rel:
  "(\<And>x. rel_option R (f x) (g x)) \<Longrightarrow> list_all2 R (List.map_filter f xs) (List.map_filter g xs)"
proof (induction xs)
  case (Cons x xs)
  from Cons.prems [of x] Cons show ?case by (cases "f x"; cases "g x") (auto simp: List.map_filter_simps)
qed (simp add: List.map_filter_simps)

lemma best_mapping_key:
  assumes "match_key p = match_key p'"
  shows "rel_option (\<lambda>(m, a) (m', b). m = m' \<and> match_key a = match_key b)
    (best_mapping rvs ms p) (best_mapping rvs ms p')"
  unfolding best_mapping_def
proof (rule max_by_key_rel [OF map_filter_rel])
  show "rel_option (\<lambda>(m, a) (m', b). m = m' \<and> match_key a = match_key b)
      (map_option (Pair m) (child_suffix p (source_root rvs m)))
      (map_option (Pair m) (child_suffix p' (source_root rvs m)))" for m
    using child_suffix_key [OF assms, of "source_root rvs m"]
    by (cases "child_suffix p (source_root rvs m)"; cases "child_suffix p' (source_root rvs m)") auto
qed auto

lemma match_key_append: "match_key (a @ b) = match_key a @ match_key b"
  by (simp add: match_key_def)

lemma map_chain_loop_key:
  "match_key p = match_key p' \<Longrightarrow>
     match_key (map_chain_loop i rvs ms p changed visited) = match_key (map_chain_loop i rvs ms p' changed visited)"
proof (induction i arbitrary: p p' changed visited)
  case (Suc i)
  consider (stop) "best_mapping rvs ms p = None" "best_mapping rvs ms p' = None"
    | (step) m a b where "best_mapping rvs ms p = Some (m, a)" "best_mapping rvs ms p' = Some (m, b)"
        "match_key a = match_key b"
    using best_mapping_key [OF Suc.prems, of rvs ms] 
    by (cases "best_mapping rvs ms p"; cases "best_mapping rvs ms p'") (auto simp: split_beta)
  then show ?case
  proof cases
    case stop
    with Suc.prems show ?thesis by simp
  next
    case step
    then have next': "match_key (target_root rvs m @ a) = match_key (target_root rvs m @ b)"
      by (simp add: match_key_append)
    from Suc.IH [OF next'] step next' show ?thesis by (simp add: Let_def)
  qed
qed simp

lemma map_path_key:
  assumes "match_key p = match_key p'"
  shows "match_key (map_path_by_mappings p ms) = match_key (map_path_by_mappings p' ms)"
proof -
  have "p = [] \<longleftrightarrow> p' = []" using assms by (metis match_key_def to_ascii_lowercase_eq_Nil)
  then show ?thesis
    using assms map_chain_loop_key [OF assms, of "MAX_PATH_MAPPING_DEPTH + 1" False ms False "[match_key p']"]
    by (simp add: map_path_by_mappings_def map_mapping_chain_def del: map_chain_loop.simps)
qed

definition expand_inv :: "path_mapping list \<Rightarrow> bytes list \<Rightarrow> path_mapping list \<Rightarrow> bool" where
  "expand_inv ms seen expanded \<longleftrightarrow>
     distinct (map (\<lambda>e. match_key (request_path e)) expanded)
     \<and> (\<forall>e \<in> set expanded. match_key (request_path e) \<in> set seen
          \<and> final_path e = map_path_by_mappings (request_path e) ms \<and> final_path e \<noteq> [])
     \<and> (\<forall>k \<in> set seen. (\<exists>e \<in> set expanded. match_key (request_path e) = k)
          \<or> (\<exists>r. match_key r = k \<and> map_path_by_mappings r ms = []))"

lemma expand_inv_skip:
  "expand_inv ms seen expanded \<Longrightarrow> map_path_by_mappings r ms = [] \<Longrightarrow> expand_inv ms (match_key r # seen) expanded"
  by (auto simp: expand_inv_def)

lemma expand_inv_add:
  "expand_inv ms seen expanded \<Longrightarrow> match_key r \<notin> set seen \<Longrightarrow> map_path_by_mappings r ms \<noteq> [] \<Longrightarrow>
     expand_inv ms (match_key r # seen) (expanded @ [PathMapping_new r (map_path_by_mappings r ms)])"
  by (force simp: expand_inv_def PathMapping_new_def)

lemma expand_loop_inv:
  "expand_inv ms seen expanded \<Longrightarrow>
     \<exists>seen'. expand_inv ms seen' (expand_loop ms pending seen expanded)
       \<and> set seen \<subseteq> set seen' \<and> (\<forall>r \<in> set (map fst pending). match_key r \<in> set seen')"
proof (induction ms pending seen expanded rule: expand_loop.induct)
  case (2 ms request depth pending seen expanded)
  let ?seen = "match_key request # seen" and ?t = "map_path_by_mappings request ms"
  let ?exp = "expanded @ [PathMapping_new request ?t]"
  consider "match_key request \<in> set seen" | "match_key request \<notin> set seen" "?t = []"
    | "match_key request \<notin> set seen" "?t \<noteq> []" "MAX_PATH_MAPPING_DEPTH \<le> depth"
    | "match_key request \<notin> set seen" "?t \<noteq> []" "\<not> MAX_PATH_MAPPING_DEPTH \<le> depth" by blast
  then show ?case
  proof cases
    case 1
    from 2(1) [OF 1 2(5)] 1 show ?thesis by auto
  next
    case c: 2
    from 2(2) [OF c(1) refl refl c(2) expand_inv_skip [OF 2(5) c(2)]] c show ?thesis
      by (auto simp: Let_def)
  next
    case c: 3
    from 2(3) [OF c(1) refl refl c(2) refl c(3) expand_inv_add [OF 2(5) c(1,2)]] c show ?thesis
      by (auto simp: Let_def)
  next
    case c: 4
    from 2(4) [OF c(1) refl refl c(2) refl c(3) expand_inv_add [OF 2(5) c(1,2)]] c show ?thesis
      by (auto simp: Let_def)
  qed
qed auto

text \<open>
  The expansion of mapping chains terminates and produces independent mount points: no request
  occurs twice (ignoring case), every entry's target is the end of the request's own mapping chain and
  is never empty, and every configured mapping whose chain has an end is present as a direct entry.
\<close>

theorem expand_namespace_entries:
  shows "distinct (map (\<lambda>e. match_key (request_path e)) (expand_namespace_path_mappings ms))
    \<and> list_all (\<lambda>e. final_path e = map_path_by_mappings (request_path e) ms \<and> final_path e \<noteq> [])
        (expand_namespace_path_mappings ms)
    \<and> list_all (\<lambda>m. map_path_by_mappings (request_path m) ms = []
          \<or> match_key (request_path m) \<in> (\<lambda>e. match_key (request_path e)) ` set (expand_namespace_path_mappings ms)) ms"
proof -
  have "expand_inv ms [] []" by (simp add: expand_inv_def)
  from expand_loop_inv [OF this, of "map (\<lambda>m. (request_path m, 0)) ms"] obtain seen where
    inv: "expand_inv ms seen (expand_namespace_path_mappings ms)"
    and seen: "\<And>m. m \<in> set ms \<Longrightarrow> match_key (request_path m) \<in> set seen"
    by (auto simp: expand_namespace_path_mappings_def)
  have "map_path_by_mappings (request_path m) ms = []
      \<or> match_key (request_path m) \<in> (\<lambda>e. match_key (request_path e)) ` set (expand_namespace_path_mappings ms)"
    if m: "m \<in> set ms" for m
  proof -
    consider e where "e \<in> set (expand_namespace_path_mappings ms)" "match_key (request_path e) = match_key (request_path m)"
      | r where "match_key r = match_key (request_path m)" "map_path_by_mappings r ms = []"
      using inv seen [OF m] unfolding expand_inv_def by blast
    then show ?thesis
    proof cases
      case 1
      then show ?thesis by (metis imageI)
    next
      case 2
      with map_path_key [OF 2(1), of ms] show ?thesis
        by (metis match_key_def to_ascii_lowercase_Nil to_ascii_lowercase_eq_Nil)
    qed
  qed
  with inv show ?thesis unfolding expand_inv_def list_all_iff by blast
qed

section \<open>Cycles through subdirectories\<close>

text \<open>
  The chain filter looks at exact request paths only, while rewriting goes by prefixes: two mappings
  that lead into each other's subdirectories pass the filter, and a path they cover is then rewritten
  until the depth limit and not mapped at all.
\<close>

theorem nested_cycle_passes_filter:
  "let ms = [PathMapping_new ''/a'' ''/b/x'', PathMapping_new ''/b'' ''/a'']
   in filter_valid_path_mapping_chains (\<lambda>ks. ks) ms = ms \<and> map_path_by_mappings ''/a/f'' ms = []"
  by code_simp

end
