(* ===== verification/Shared_Uid.thy ===== *)
theory Shared_Uid
  imports Paths_Roots "HOL-Library.Word"
begin

text \<open>
  Model of \<^verbatim>\<open>src/redirect/policy.rs\<close>: the classification of system writer, media provider and
  monitor packages, and the process-wide table of packages per uid that is loaded from the file the
  daemon writes and reloaded when the file's fingerprint changes.

  The file is an input of the operations that read it: what \<^verbatim>\<open>metadata\<close> reports (size and
  modification time in nanoseconds) and what \<^verbatim>\<open>open\<close> and the line reader deliver, where a
  line is \<^const>\<open>None\<close> when reading it failed.
\<close>

unbundle bit_operations_syntax

section \<open>Model\<close>

definition MEDIA_PROVIDER_GOOGLE :: bytes where
  "MEDIA_PROVIDER_GOOGLE = ''com.google.android.providers.media.module''"

definition MEDIA_PROVIDER_AOSP :: bytes where
  "MEDIA_PROVIDER_AOSP = ''com.android.providers.media.module''"

definition MEDIA_PROVIDER_LEGACY :: bytes where
  "MEDIA_PROVIDER_LEGACY = ''com.android.providers.media''"

definition DOWNLOAD_PROVIDER :: bytes where
  "DOWNLOAD_PROVIDER = ''com.android.providers.downloads''"

definition DOWNLOAD_PROVIDER_UI :: bytes where
  "DOWNLOAD_PROVIDER_UI = ''com.android.providers.downloads.ui''"

definition EXTERNAL_STORAGE_PROVIDER :: bytes where
  "EXTERNAL_STORAGE_PROVIDER = ''com.android.externalstorage''"

definition MTP_PACKAGE :: bytes where
  "MTP_PACKAGE = ''com.android.mtp''"

definition CONFIG_DIR :: bytes where
  "CONFIG_DIR = ''/data/adb/modules/storage.redirect.x/config''"

definition SYSTEM_WRITER_UIDS_FILE :: bytes where
  "SYSTEM_WRITER_UIDS_FILE = ''/data/adb/modules/storage.redirect.x/config/system_writer_uids.list''"

definition is_media_provider_candidate :: "bytes \<Rightarrow> bool" where
  "is_media_provider_candidate package_name \<longleftrightarrow>
     package_name = MEDIA_PROVIDER_GOOGLE \<or> package_name = MEDIA_PROVIDER_AOSP
     \<or> package_name = MEDIA_PROVIDER_LEGACY"

definition is_system_writer_candidate :: "bytes \<Rightarrow> bool" where
  "is_system_writer_candidate package_name \<longleftrightarrow>
     is_media_provider_candidate package_name \<or> package_name = DOWNLOAD_PROVIDER"

definition is_system_writer_package :: "bytes \<Rightarrow> bool" where
  "is_system_writer_package package_name = is_system_writer_candidate package_name"

definition is_legacy_writer_process_name :: "bytes \<Rightarrow> bool" where
  "is_legacy_writer_process_name process_name \<longleftrightarrow> process_name = ''android.process.media''"

definition is_media_provider_package :: "bytes \<Rightarrow> bool" where
  "is_media_provider_package package_name = is_media_provider_candidate package_name"

definition media_provider_package_aliases :: "bytes \<Rightarrow> bytes list" where
  "media_provider_package_aliases package_name =
     (if \<not> is_media_provider_candidate package_name then []
      else let aliases = [MEDIA_PROVIDER_GOOGLE, MEDIA_PROVIDER_AOSP, MEDIA_PROVIDER_LEGACY]
        in (case find (\<lambda>alias. alias = package_name) aliases of None \<Rightarrow> [] | Some alias \<Rightarrow> [alias])
           @ filter (\<lambda>alias. alias \<noteq> package_name) aliases)"

definition is_file_monitor_bridge_package :: "bytes \<Rightarrow> bool" where
  "is_file_monitor_bridge_package package_name =
     (if package_name = [] then False
      else package_name = DOWNLOAD_PROVIDER \<or> package_name = MTP_PACKAGE
           \<or> package_name = EXTERNAL_STORAGE_PROVIDER)"

definition is_saf_native_monitor_bridge_package :: "bytes \<Rightarrow> bool" where
  "is_saf_native_monitor_bridge_package package_name \<longleftrightarrow>
     package_name = DOWNLOAD_PROVIDER \<or> package_name = EXTERNAL_STORAGE_PROVIDER"

definition is_file_monitor_ui_package :: "bytes \<Rightarrow> bool" where
  "is_file_monitor_ui_package package_name =
     (if package_name = [] then False
      else let normalized = to_ascii_lowercase package_name
        in normalized = DOWNLOAD_PROVIDER_UI \<or> contains_str normalized ''.documentsui''
           \<or> contains_str normalized ''.photopicker'' \<or> contains_str normalized ''.filemanager''
           \<or> contains_str normalized ''fileexplorer'' \<or> ends_with_str normalized ''.myfiles'')"

definition is_media_intermediate_package :: "bytes \<Rightarrow> bool" where
  "is_media_intermediate_package package_name =
     (if package_name = [] then False
      else if is_media_provider_candidate package_name then True
      else is_file_monitor_bridge_package package_name \<or> is_file_monitor_ui_package package_name)"

definition is_attribution_intermediate_package :: "bytes \<Rightarrow> bool" where
  "is_attribution_intermediate_package package_name =
     (if package_name = [] then False
      else if is_media_provider_candidate package_name then True
      else is_file_monitor_bridge_package package_name)"

definition is_overlay_or_rro_package :: "bytes \<Rightarrow> bool" where
  "is_overlay_or_rro_package package_name =
     (if package_name = [] then False
      else let normalized = to_ascii_lowercase package_name
        in contains_str normalized ''.overlay''
           \<or> starts_with_str normalized ''android.frameworkres.overlay''
           \<or> ends_with_str normalized ''.overlayable'')"

text \<open>The table of uids.\<close>

record shared_uid_state =
  uid_by_package :: "(bytes \<times> i32) list"
  packages_by_uid :: "(i32 \<times> bytes list) list"
  system_writer_shared_uids :: "i32 list"
  uid_file_path :: bytes
  last_fingerprint :: "64 word"
  is_loaded :: bool

definition shared_uid_state_default :: shared_uid_state where
  "shared_uid_state_default =
     \<lparr>uid_by_package = [], packages_by_uid = [], system_writer_shared_uids = [],
      uid_file_path = SYSTEM_WRITER_UIDS_FILE, last_fingerprint = 0, is_loaded = False\<rparr>"

record uid_file_view =
  file_meta :: "bytes \<Rightarrow> (64 word \<times> nat option) option"
  file_lines :: "bytes \<Rightarrow> bytes option list option"

definition is_trim_ascii_char :: "char \<Rightarrow> bool" where
  "is_trim_ascii_char c \<longleftrightarrow> (of_char c :: nat) \<in> {32, 9, 10, 13}"

definition trim_ascii :: "bytes \<Rightarrow> bytes" where
  "trim_ascii value = rev (dropWhile is_trim_ascii_char (rev (dropWhile is_trim_ascii_char value)))"

definition parse_line :: "bytes \<Rightarrow> (bytes \<times> i32) option" where
  "parse_line line =
     (let trimmed = trim_ascii line
      in if trimmed = [] \<or> starts_with_str trimmed ''#'' then None
         else (case find_char (CHR '':'') trimmed of
             None \<Rightarrow> None
           | Some separator \<Rightarrow>
               (let package_value = trim_ascii (take separator trimmed);
                    uid_value = trim_ascii (drop (separator + 1) trimmed)
                in if package_value = [] \<or> uid_value = [] then None
                   else if \<not> list_all is_ascii_digit uid_value then None
                   else (case parse_i32 uid_value of
                       None \<Rightarrow> None
                     | Some uid \<Rightarrow> if uid < 0 then None else Some (package_value, uid)))))"

definition is_shared_uid :: "i32 \<Rightarrow> (i32 \<times> bytes list) list \<Rightarrow> bool" where
  "is_shared_uid uid table =
     (case map_of table uid of None \<Rightarrow> False | Some packages \<Rightarrow> 2 \<le> length packages)"

definition uid_file_path_for_config_dir :: "bytes \<Rightarrow> bytes" where
  "uid_file_path_for_config_dir config_dir = str_replace_first CONFIG_DIR config_dir SYSTEM_WRITER_UIDS_FILE"

definition compute_uid_file_fingerprint :: "uid_file_view \<Rightarrow> bytes \<Rightarrow> 64 word" where
  "compute_uid_file_fingerprint view path =
     (case file_meta view path of
        None \<Rightarrow> 0
      | Some (len, modified) \<Rightarrow>
          len XOR (case modified of None \<Rightarrow> 0 | Some nanos \<Rightarrow> of_nat nanos))"

definition handle_uid_cache_open_failure :: "64 word \<Rightarrow> shared_uid_state \<Rightarrow> shared_uid_state" where
  "handle_uid_cache_open_failure fingerprint st =
     (if is_loaded st \<and> uid_by_package st \<noteq> [] then st\<lparr>last_fingerprint := fingerprint\<rparr>
      else st\<lparr>uid_by_package := [], packages_by_uid := [], system_writer_shared_uids := [],
              last_fingerprint := fingerprint, is_loaded := True\<rparr>)"

definition add_uid_entry ::
  "bytes \<times> i32 \<Rightarrow> (bytes \<times> i32) list \<times> (i32 \<times> bytes list) list
    \<Rightarrow> (bytes \<times> i32) list \<times> (i32 \<times> bytes list) list" where
  "add_uid_entry entry tables =
     (case (entry, tables) of ((package, uid), (by_package, by_uid)) \<Rightarrow>
        (AList.update package uid by_package,
         AList.update uid ((case map_of by_uid uid of None \<Rightarrow> [] | Some ps \<Rightarrow> ps) @ [package]) by_uid))"

fun load_uid_lines ::
  "bytes list \<Rightarrow> (bytes \<times> i32) list \<times> (i32 \<times> bytes list) list
    \<Rightarrow> (bytes \<times> i32) list \<times> (i32 \<times> bytes list) list" where
  "load_uid_lines [] tables = tables"
| "load_uid_lines (line # lines) tables =
     (case parse_line line of
        None \<Rightarrow> load_uid_lines lines tables
      | Some entry \<Rightarrow> load_uid_lines lines (add_uid_entry entry tables))"

definition load_shared_uid_cache :: "uid_file_view \<Rightarrow> 64 word \<Rightarrow> shared_uid_state \<Rightarrow> shared_uid_state" where
  "load_shared_uid_cache view fingerprint st =
     (case file_lines view (uid_file_path st) of
        None \<Rightarrow> handle_uid_cache_open_failure fingerprint st
      | Some ls \<Rightarrow>
          (let (by_package, by_uid) = load_uid_lines (map the (takeWhile (\<lambda>l. l \<noteq> None) ls)) ([], []);
               by_uid = map (\<lambda>(uid, packages). (uid, remdups_adj (sort packages))) by_uid;
               writer_uids = map fst (filter (\<lambda>(uid, packages). \<not> length packages < 2
                               \<and> list_ex is_system_writer_candidate packages) by_uid)
           in st\<lparr>uid_by_package := by_package, packages_by_uid := by_uid,
                 system_writer_shared_uids := writer_uids,
                 last_fingerprint := fingerprint, is_loaded := True\<rparr>))"

definition refresh_shared_uid_cache_locked :: "uid_file_view \<Rightarrow> bool \<Rightarrow> shared_uid_state \<Rightarrow> shared_uid_state" where
  "refresh_shared_uid_cache_locked view force st =
     (let fingerprint = compute_uid_file_fingerprint view (uid_file_path st)
      in if \<not> force \<and> is_loaded st \<and> fingerprint = last_fingerprint st then st
         else load_shared_uid_cache view fingerprint st)"

definition refresh_shared_uid_cache :: "uid_file_view \<Rightarrow> shared_uid_state \<Rightarrow> shared_uid_state" where
  "refresh_shared_uid_cache view st = refresh_shared_uid_cache_locked view False st"

definition set_shared_uid_config_dir :: "uid_file_view \<Rightarrow> bytes \<Rightarrow> shared_uid_state \<Rightarrow> shared_uid_state" where
  "set_shared_uid_config_dir view config_dir st =
     (if config_dir = [] then st
      else let path = uid_file_path_for_config_dir config_dir;
               source_changed = (uid_file_path st \<noteq> path);
               st = (if source_changed then st\<lparr>uid_file_path := path\<rparr> else st)
        in refresh_shared_uid_cache_locked view source_changed st)"

definition get_shared_group_members :: "shared_uid_state \<Rightarrow> bytes \<Rightarrow> bytes list" where
  "get_shared_group_members st package_name =
     (case map_of (uid_by_package st) package_name of
        None \<Rightarrow> []
      | Some uid \<Rightarrow>
          if \<not> is_shared_uid uid (packages_by_uid st) then []
          else (case map_of (packages_by_uid st) uid of None \<Rightarrow> [] | Some ps \<Rightarrow> ps))"

definition is_shared_group_package :: "shared_uid_state \<Rightarrow> bytes \<Rightarrow> bool" where
  "is_shared_group_package st package_name =
     (case map_of (uid_by_package st) package_name of
        None \<Rightarrow> False | Some uid \<Rightarrow> is_shared_uid uid (packages_by_uid st))"

definition get_packages_for_uid :: "shared_uid_state \<Rightarrow> i32 \<Rightarrow> bytes list" where
  "get_packages_for_uid st uid =
     (if uid < 0 then []
      else (case map_of (packages_by_uid st) uid of None \<Rightarrow> [] | Some ps \<Rightarrow> ps))"

definition get_all_package_names :: "shared_uid_state \<Rightarrow> bytes list" where
  "get_all_package_names st = remdups_adj (sort (keys_of (uid_by_package st)))"

definition get_uid_for_package :: "shared_uid_state \<Rightarrow> bytes \<Rightarrow> i32" where
  "get_uid_for_package st package_name =
     (if package_name = [] then -1
      else (case map_of (uid_by_package st) package_name of None \<Rightarrow> -1 | Some uid \<Rightarrow> uid))"

definition get_fresh_uid_for_package :: "uid_file_view \<Rightarrow> bytes \<Rightarrow> shared_uid_state \<Rightarrow> i32 \<times> shared_uid_state" where
  "get_fresh_uid_for_package view package_name st =
     (if package_name = [] then (-1, st)
      else let st = refresh_shared_uid_cache view st in (get_uid_for_package st package_name, st))"

definition media_provider_record_package :: "shared_uid_state \<Rightarrow> bytes" where
  "media_provider_record_package st =
     (case find (\<lambda>candidate. 0 \<le> get_uid_for_package st candidate)
             [MEDIA_PROVIDER_AOSP, MEDIA_PROVIDER_GOOGLE, MEDIA_PROVIDER_LEGACY] of
        None \<Rightarrow> MEDIA_PROVIDER_AOSP | Some candidate \<Rightarrow> candidate)"

definition get_shared_uid_packages_string :: "shared_uid_state \<Rightarrow> i32 \<Rightarrow> bytes" where
  "get_shared_uid_packages_string st uid =
     (let packages = get_packages_for_uid st uid
      in if length packages < 2 then [] else join_char (CHR '','') packages)"

definition is_shared_uid_process :: "shared_uid_state \<Rightarrow> i32 \<Rightarrow> bool" where
  "is_shared_uid_process st uid =
     (if uid < 0 then False else uid \<in> set (system_writer_shared_uids st))"

section \<open>The table invariant\<close>

text \<open>
  The two directions of the table agree, every group is sorted without duplicates, and the set of
  shared writer uids is exactly what the groups say.
\<close>

definition uid_table_ok :: "shared_uid_state \<Rightarrow> bool" where
  "uid_table_ok st \<longleftrightarrow>
     (\<forall>p u. map_of (uid_by_package st) p = Some u \<longrightarrow>
        (\<exists>ps. map_of (packages_by_uid st) u = Some ps \<and> p \<in> set ps))
     \<and> (\<forall>u ps. map_of (packages_by_uid st) u = Some ps \<longrightarrow>
          ps \<noteq> [] \<and> 0 \<le> u \<and> sorted ps \<and> distinct ps \<and> set ps \<subseteq> set (keys_of (uid_by_package st)))
     \<and> (\<forall>u. u \<in> set (system_writer_shared_uids st) \<longleftrightarrow>
          (\<exists>ps. map_of (packages_by_uid st) u = Some ps \<and> 2 \<le> length ps
             \<and> list_ex is_system_writer_candidate ps))"

definition raw_tables_ok :: "(bytes \<times> i32) list \<times> (i32 \<times> bytes list) list \<Rightarrow> bool" where
  "raw_tables_ok tables \<longleftrightarrow> distinct (keys_of (snd tables))
     \<and> (\<forall>p u. map_of (fst tables) p = Some u \<longrightarrow> (\<exists>ps. map_of (snd tables) u = Some ps \<and> p \<in> set ps))
     \<and> (\<forall>u ps. map_of (snd tables) u = Some ps \<longrightarrow> ps \<noteq> [] \<and> 0 \<le> u \<and> set ps \<subseteq> dom (map_of (fst tables)))"

lemma parse_line_uid: "parse_line line = Some (p, u) \<Longrightarrow> 0 \<le> u"
  by (auto simp: parse_line_def Let_def split: if_splits option.splits)

lemma add_uid_entry_ok:
  assumes "raw_tables_ok tables" and "0 \<le> u"
  shows "raw_tables_ok (add_uid_entry (p, u) tables)"
proof -
  obtain bp bu where t: "tables = (bp, bu)" by (cases tables)
  let ?old = "case map_of bu u of None \<Rightarrow> [] | Some ps \<Rightarrow> ps"
  have new: "add_uid_entry (p, u) tables = (AList.update p u bp, AList.update u (?old @ [p]) bu)"
    by (simp add: add_uid_entry_def t)
  have "distinct (keys_of (AList.update u (?old @ [p]) bu))"
    using assms(1) t by (simp add: raw_tables_ok_def distinct_update)
  moreover have "\<exists>ps. ((map_of bu)(u \<mapsto> ?old @ [p])) v = Some ps \<and> q \<in> set ps"
    if "((map_of bp)(p \<mapsto> u)) q = Some v" for q v
    using that assms(1) t by (cases "q = p"; cases "v = u") (fastforce simp: raw_tables_ok_def split: option.splits)+
  moreover have "ps \<noteq> [] \<and> 0 \<le> v \<and> set ps \<subseteq> dom ((map_of bp)(p \<mapsto> u))"
    if "((map_of bu)(u \<mapsto> ?old @ [p])) v = Some ps" for v ps
    using that assms t by (cases "v = u") (fastforce simp: raw_tables_ok_def split: option.splits if_splits)+
  ultimately show ?thesis
    unfolding new raw_tables_ok_def fst_conv snd_conv map_of_update by blast
qed

lemma load_uid_lines_ok: "raw_tables_ok tables \<Longrightarrow> raw_tables_ok (load_uid_lines lines tables)"
proof (induction lines tables rule: load_uid_lines.induct)
  case (2 line lines tables)
  then show ?case
    by (cases "parse_line line") (auto intro: add_uid_entry_ok dest: parse_line_uid)
qed simp

lemma map_of_map_values: "map_of (map (\<lambda>(k, v). (k, f v)) m) k = map_option f (map_of m k)"
  by (induction m) auto

lemma distinct_remdups_adj_sorted: "sorted xs \<Longrightarrow> distinct (remdups_adj xs)" for xs :: "'a::linorder list"
  by (induction xs rule: remdups_adj.induct) (auto simp: less_le)

lemma remdups_adj_sort: "sorted (remdups_adj (sort xs)) \<and> distinct (remdups_adj (sort xs))
    \<and> set (remdups_adj (sort xs)) = set xs" for xs :: "'a::linorder list"
  by (simp add: distinct_remdups_adj_sorted)

lemma load_shared_uid_cache_ok:
  assumes "uid_table_ok st"
  shows "uid_table_ok (load_shared_uid_cache view fp st)"
proof (cases "file_lines view (uid_file_path st)")
  case None
  then show ?thesis using assms
    by (auto simp: load_shared_uid_cache_def handle_uid_cache_open_failure_def uid_table_ok_def)
next
  case (Some ls)
  obtain bp bu where load: "load_uid_lines (map the (takeWhile (\<lambda>l. l \<noteq> None) ls)) ([], []) = (bp, bu)"
    by fastforce
  let ?bu = "map (\<lambda>(uid, packages). (uid, remdups_adj (sort packages))) bu"
  let ?w = "filter (\<lambda>(uid, packages). \<not> length packages < 2 \<and> list_ex is_system_writer_candidate packages) ?bu"
  have ok: "raw_tables_ok (bp, bu)"
    unfolding load [symmetric] by (rule load_uid_lines_ok) (simp add: raw_tables_ok_def)
  have get: "map_of ?bu u = map_option (\<lambda>ps. remdups_adj (sort ps)) (map_of bu u)" for u
    by (rule map_of_map_values)
  have "distinct (keys_of ?bu)" using ok by (simp add: raw_tables_ok_def split_beta comp_def)
  then have writers: "u \<in> set (map fst ?w) \<longleftrightarrow>
      (\<exists>ps. map_of ?bu u = Some ps \<and> 2 \<le> length ps \<and> list_ex is_system_writer_candidate ps)" for u
    by (subst map_of_eq_Some_iff) force+
  have new: "load_shared_uid_cache view fp st =
      st\<lparr>uid_by_package := bp, packages_by_uid := ?bu, system_writer_shared_uids := map fst ?w,
         last_fingerprint := fp, is_loaded := True\<rparr>"
    by (simp only: load_shared_uid_cache_def Some option.case load Let_def prod.case)
  have "\<exists>ps. map_of ?bu u = Some ps \<and> p \<in> set ps" if "map_of bp p = Some u" for p u
    using ok that by (fastforce simp: raw_tables_ok_def get)
  moreover have "ps \<noteq> [] \<and> 0 \<le> u \<and> sorted ps \<and> distinct ps \<and> set ps \<subseteq> set (keys_of bp)"
    if "map_of ?bu u = Some ps" for u ps
  proof -
    from that obtain qs where qs: "map_of bu u = Some qs" "ps = remdups_adj (sort qs)" by (auto simp: get)
    with ok have "qs \<noteq> []" "0 \<le> u" "set qs \<subseteq> set (keys_of bp)"
      by (auto simp: raw_tables_ok_def dom_map_of_conv_image_fst)
    with remdups_adj_sort [of qs] qs(2) show ?thesis by (metis set_empty)
  qed
  moreover have "uid_by_package (load_shared_uid_cache view fp st) = bp"
    "packages_by_uid (load_shared_uid_cache view fp st) = ?bu"
    "system_writer_shared_uids (load_shared_uid_cache view fp st) = map fst ?w"
    unfolding new by simp_all
  ultimately show ?thesis using writers unfolding uid_table_ok_def by simp
qed

text \<open>What other code may do to the table: refresh it, or point it to another configuration directory.\<close>

datatype uid_event =
  Refresh uid_file_view
| SetConfigDir uid_file_view bytes

fun uid_step :: "uid_event \<Rightarrow> shared_uid_state \<Rightarrow> shared_uid_state" where
  "uid_step (Refresh view) st = refresh_shared_uid_cache view st"
| "uid_step (SetConfigDir view dir) st = set_shared_uid_config_dir view dir st"

inductive uid_reachable :: "shared_uid_state \<Rightarrow> bool" where
  initial: "uid_reachable shared_uid_state_default"
| step: "uid_reachable st \<Longrightarrow> uid_reachable (uid_step e st)"

lemma uid_step_ok: "uid_table_ok st \<Longrightarrow> uid_table_ok (uid_step e st)"
proof (cases e)
  case (Refresh view)
  assume "uid_table_ok st"
  then show ?thesis using Refresh
    by (simp add: refresh_shared_uid_cache_def refresh_shared_uid_cache_locked_def Let_def load_shared_uid_cache_ok)
next
  case (SetConfigDir view dir)
  assume ok: "uid_table_ok st"
  then have "uid_table_ok (st\<lparr>uid_file_path := path\<rparr>)" for path by (simp add: uid_table_ok_def)
  then show ?thesis using SetConfigDir ok
    by (simp add: set_shared_uid_config_dir_def refresh_shared_uid_cache_locked_def Let_def load_shared_uid_cache_ok)
qed

lemma uid_reachable_ok: "uid_reachable st \<Longrightarrow> uid_table_ok st"
  by (induction rule: uid_reachable.induct)
    (auto simp: uid_step_ok, simp add: uid_table_ok_def shared_uid_state_default_def)

text \<open>
  However the uid table has been loaded and reloaded, the shared group of a package is a
  well-formed group: it is reported exactly when the package counts as shared, it then contains the
  package itself and at least one more, sorted and without duplicates, and each member is a known
  package.
\<close>

theorem shared_group_wellformed:
  assumes "uid_reachable st"
  shows "(is_shared_group_package st p \<longleftrightarrow> get_shared_group_members st p \<noteq> [])
    \<and> (is_shared_group_package st p \<longrightarrow>
         (let ms = get_shared_group_members st p
          in p \<in> set ms \<and> 2 \<le> length ms \<and> sorted ms \<and> distinct ms
             \<and> set ms \<subseteq> set (get_all_package_names st)))"
proof -
  have ok: "uid_table_ok st" by (rule uid_reachable_ok [OF assms])
  have names: "set (get_all_package_names st) = set (keys_of (uid_by_package st))"
    using remdups_adj_sort [of "keys_of (uid_by_package st)"] by (simp add: get_all_package_names_def)
  show ?thesis
  proof (cases "map_of (uid_by_package st) p")
    case None
    then show ?thesis by (simp add: is_shared_group_package_def get_shared_group_members_def)
  next
    case (Some u)
    with ok obtain ps where "map_of (packages_by_uid st) u = Some ps" "p \<in> set ps" "ps \<noteq> []" "sorted ps" "distinct ps"
      "set ps \<subseteq> set (keys_of (uid_by_package st))" by (fastforce simp: uid_table_ok_def)
    with Some names show ?thesis
      by (auto simp: is_shared_group_package_def get_shared_group_members_def is_shared_uid_def Let_def)
  qed
qed

definition demo_uid_view :: uid_file_view where
  "demo_uid_view =
     \<lparr>file_meta = (\<lambda>_. Some (40, Some 7)),
      file_lines = (\<lambda>_. Some [Some ''com.b:7'', Some ''# comment'', Some ''com.android.providers.media:7''])\<rparr>"

theorem shared_group_wellformed_witness:
  "is_shared_group_package (uid_step (Refresh demo_uid_view) shared_uid_state_default) ''com.b''
   \<and> ''com.b'' \<in> set (get_shared_group_members (uid_step (Refresh demo_uid_view) shared_uid_state_default) ''com.b'')"
proof -
  have r: "uid_reachable (uid_step (Refresh demo_uid_view) shared_uid_state_default)"
    by (intro uid_reachable.intros)
  have s: "is_shared_group_package (uid_step (Refresh demo_uid_view) shared_uid_state_default) ''com.b''"
    by code_simp
  with shared_group_wellformed [OF r, of "''com.b''"] show ?thesis by (simp add: Let_def)
qed

text \<open>
  The set of uids treated as shared system writers always matches the table: a uid is in it
  exactly when at least two known packages share it and one of them is a media provider or the
  download provider.
\<close>

theorem shared_writer_uid_iff:
  assumes "uid_reachable st" and "0 \<le> uid"
  shows "is_shared_uid_process st uid \<longleftrightarrow>
    2 \<le> length (get_packages_for_uid st uid)
    \<and> list_ex is_system_writer_package (get_packages_for_uid st uid)"
  using uid_reachable_ok [OF assms(1)] assms(2)
  by (auto simp: uid_table_ok_def is_shared_uid_process_def get_packages_for_uid_def
      is_system_writer_package_def list_ex_iff split: option.splits)

theorem shared_writer_uid_iff_witness:
  "uid_reachable (uid_step (Refresh demo_uid_view) shared_uid_state_default) \<and> (0 :: int) \<le> 7
   \<and> is_shared_uid_process (uid_step (Refresh demo_uid_view) shared_uid_state_default) 7"
proof -
  have r: "uid_reachable (uid_step (Refresh demo_uid_view) shared_uid_state_default)"
    by (intro uid_reachable.intros)
  have n: "(0 :: int) \<le> 7" by simp
  have "2 \<le> length (get_packages_for_uid (uid_step (Refresh demo_uid_view) shared_uid_state_default) 7)
      \<and> list_ex is_system_writer_package (get_packages_for_uid (uid_step (Refresh demo_uid_view) shared_uid_state_default) 7)"
    by code_simp
  with r n shared_writer_uid_iff [OF r n] show ?thesis by blast
qed

end
