(* ===== verification/Settings.thy ===== *)
theory Settings
  imports Domain Shared_Uid "HOL-Library.Multiset"
begin

text \<open>
  Model of the data of \<^verbatim>\<open>src/config.rs\<close> (profiles, flags, the settings state), of the JSON
  values the configuration is read from (\<^verbatim>\<open>serde_json::Value\<close>, the parser itself is a parameter
  of the theories that use it), of the pure parts of \<^verbatim>\<open>src/config.rs\<close>, and of
  \<^verbatim>\<open>src/config/consensus.rs\<close>.
\<close>

section \<open>JSON values\<close>

datatype json =
  JNull
| JBool bool
| JNumber int
| JString bytes
| JArray "json list"
| JObject "(bytes \<times> json) list"

fun json_get :: "bytes \<Rightarrow> json \<Rightarrow> json option" where
  "json_get k (JObject fs) = map_of fs k"
| "json_get k _ = None"

fun as_bool :: "json \<Rightarrow> bool option" where
  "as_bool (JBool b) = Some b"
| "as_bool _ = None"

fun as_str :: "json \<Rightarrow> bytes option" where
  "as_str (JString s) = Some s"
| "as_str _ = None"

fun as_array :: "json \<Rightarrow> json list option" where
  "as_array (JArray xs) = Some xs"
| "as_array _ = None"

fun as_object :: "json \<Rightarrow> (bytes \<times> json) list option" where
  "as_object (JObject fs) = Some fs"
| "as_object _ = None"

text \<open>The idiom \<^verbatim>\<open>value.and_then(Value::as_bool).unwrap_or(default)\<close>.\<close>

definition bool_or :: "bool \<Rightarrow> json option \<Rightarrow> bool" where
  "bool_or d v = (case Option.bind v as_bool of Some b \<Rightarrow> b | None \<Rightarrow> d)"

section \<open>Model of the settings data\<close>

datatype storage_backend_mode = Auto | Fuse | Namespace

definition StorageBackendMode_parse :: "bytes option \<Rightarrow> bool \<Rightarrow> storage_backend_mode" where
  "StorageBackendMode_parse value legacy_fuse_enabled = Auto"

fun StorageBackendMode_as_str :: "storage_backend_mode \<Rightarrow> bytes" where
  "StorageBackendMode_as_str Auto = ''auto''"
| "StorageBackendMode_as_str Fuse = ''fuse''"
| "StorageBackendMode_as_str Namespace = ''namespace''"

record user_profile =
  is_enabled :: bool
  is_mapping_mode_only :: bool
  allowed_real_paths :: "bytes list"
  excluded_real_paths :: "bytes list"
  sandboxed_paths :: "bytes list"
  read_only_paths :: "bytes list"
  path_mappings :: "path_mapping list"

text \<open>An \<^verbatim>\<open>AppProfile\<close> has one field, the profiles by user id.\<close>

type_synonym app_profile = "(i32 \<times> user_profile) list"

record resolved_user_profile =
  rp_user_id :: i32
  rp_redirect_target :: bytes
  rp_is_mapping_mode_only :: bool
  rp_allowed_real_paths :: "bytes list"
  rp_excluded_real_paths :: "bytes list"
  rp_sandboxed_paths :: "bytes list"
  rp_read_only_paths :: "bytes list"
  rp_path_mappings :: "path_mapping list"

definition SELF_PACKAGE_NAME :: bytes where
  "SELF_PACKAGE_NAME = ''com.storage.redirect.x''"

definition should_capture_unconfigured_app :: "bytes \<Rightarrow> i32 \<Rightarrow> bool \<Rightarrow> bool" where
  "should_capture_unconfigured_app package_name uid enabled \<longleftrightarrow>
     enabled \<and> package_name \<noteq> [] \<and> package_name \<noteq> SELF_PACKAGE_NAME
     \<and> 10000 \<le> uid \<and> uid < 90000
     \<and> \<not> is_system_writer_package package_name
     \<and> \<not> is_file_monitor_bridge_package package_name
     \<and> \<not> is_file_monitor_ui_package package_name"

text \<open>
  The probe state file: \<^verbatim>\<open>lines()\<close> splits at line feeds, drops one trailing carriage return
  per line, and yields nothing after a final line feed.
\<close>

definition rust_lines :: "bytes \<Rightarrow> bytes list" where
  "rust_lines s =
     (let ls = split_char (CHR 0x0A) s;
          ls = (if last ls = [] then butlast ls else ls)
      in map (\<lambda>l. case strip_suffix l [CHR 0x0D] of Some l' \<Rightarrow> l' | None \<Rightarrow> l) ls)"

definition probe_status_of :: "bytes \<Rightarrow> bool option" where
  "probe_status_of value =
     (if value = ''ok'' then Some True else if value = ''broken'' then Some False else None)"

fun probe_lines_loop :: "bytes \<Rightarrow> bytes list \<Rightarrow> bool \<Rightarrow> bool option \<Rightarrow> bool \<times> bool option" where
  "probe_lines_loop boot_id [] boot_matches status = (boot_matches, status)"
| "probe_lines_loop boot_id (line # lines) boot_matches status =
     (case strip_prefix line ''boot='' of
        Some i \<Rightarrow> probe_lines_loop boot_id lines (i \<noteq> [] \<and> i = boot_id) status
      | None \<Rightarrow>
          (case strip_prefix line ''status='' of
             Some value \<Rightarrow> probe_lines_loop boot_id lines boot_matches (probe_status_of value)
           | None \<Rightarrow> probe_lines_loop boot_id lines boot_matches status))"

definition fuse_passthrough_probe_state :: "bytes \<Rightarrow> bytes option \<Rightarrow> bool option" where
  "fuse_passthrough_probe_state boot_id state_file =
     (case state_file of
        None \<Rightarrow> None
      | Some content \<Rightarrow>
          (let (boot_matches, status) = probe_lines_loop boot_id (rust_lines content) False None
           in if boot_matches then status else None))"

definition write_fuse_passthrough_probe_state :: "bytes \<Rightarrow> bool \<Rightarrow> bytes option \<Rightarrow> bytes option" where
  "write_fuse_passthrough_probe_state boot_id ok state_file =
     (if boot_id = [] then state_file
      else Some (''boot='' @ boot_id @ [CHR 0x0A] @ ''status='' @ (if ok then ''ok'' else ''broken'')
                 @ [CHR 0x0A]))"

record raw_user_profile_flags =
  raw_has_config :: bool
  raw_is_enabled :: bool
  raw_is_mapping_mode_only :: bool

record user_redirect_enablement =
  enabled_in_memory :: bool
  has_raw_config :: bool
  enabled_in_raw :: bool
  en_is_mapping_mode_only :: bool

definition UserRedirectEnablement_is_enabled :: "user_redirect_enablement \<Rightarrow> bool" where
  "UserRedirectEnablement_is_enabled e = (if has_raw_config e then enabled_in_raw e else enabled_in_memory e)"

record monitor_filter_config =
  excluded_paths :: "bytes list"
  excluded_operations :: "bytes list"

definition MonitorFilterConfig_default :: monitor_filter_config where
  "MonitorFilterConfig_default =
     \<lparr>excluded_paths = [''/storage/emulated/*/Android/data''],
      excluded_operations =
        [''open:read'', ''open*:read'', ''provider_open:read'', ''unlink*'', ''delete*'', ''rmdir*'',
         ''link*'', ''symlink*'', ''truncate*'', ''ftruncate*'', ''chmod*'', ''fchmod*'', ''utimens*'',
         ''futimens*'', ''attrib*'']\<rparr>"

record settings_state =
  config_dir :: bytes
  is_file_monitor_enabled :: bool
  is_fuse_fix_enabled :: bool
  storage_backend :: storage_backend_mode
  is_verbose_logging_enabled :: bool
  monitor_filters :: monitor_filter_config
  apps :: "(bytes \<times> app_profile) list"
  settings_loaded :: bool
  settings_fingerprint :: "64 word"
  invalid_packages :: "bytes list"

definition SettingsState_new :: settings_state where
  "SettingsState_new =
     \<lparr>config_dir = CONFIG_DIR, is_file_monitor_enabled = False, is_fuse_fix_enabled = True,
      storage_backend = Auto, is_verbose_logging_enabled = False,
      monitor_filters = MonitorFilterConfig_default, apps = [], settings_loaded = False,
      settings_fingerprint = 0, invalid_packages = []\<rparr>"

record settings_hub =
  hub_state :: settings_state
  config_version :: "64 word"

definition SettingsHub_new :: settings_hub where
  "SettingsHub_new = \<lparr>hub_state = SettingsState_new, config_version = 0\<rparr>"

definition bump_config_version :: "settings_hub \<Rightarrow> settings_hub" where
  "bump_config_version hub = hub\<lparr>config_version := config_version hub + 1\<rparr>"

definition resolve_profile :: "bytes \<Rightarrow> i32 \<Rightarrow> user_profile \<Rightarrow> resolved_user_profile" where
  "resolve_profile package_name user_id user =
     \<lparr>rp_user_id = user_id, rp_redirect_target = default_redirect_target package_name user_id,
      rp_is_mapping_mode_only = is_mapping_mode_only user,
      rp_allowed_real_paths = allowed_real_paths user,
      rp_excluded_real_paths = excluded_real_paths user,
      rp_sandboxed_paths = sandboxed_paths user,
      rp_read_only_paths = read_only_paths user,
      rp_path_mappings = path_mappings user\<rparr>"

definition snapshot_resolve_profile ::
  "(bytes \<times> app_profile) list \<Rightarrow> bytes \<Rightarrow> i32 \<Rightarrow> resolved_user_profile option" where
  "snapshot_resolve_profile snapshot_apps package_name app_uid =
     (if package_name = SELF_PACKAGE_NAME then None
      else let user_id = user_id_from_uid app_uid
        in (case map_of snapshot_apps package_name of
              None \<Rightarrow> None
            | Some app \<Rightarrow>
                (case map_of app user_id of
                   None \<Rightarrow> None
                 | Some user \<Rightarrow>
                     if \<not> is_enabled user then None else Some (resolve_profile package_name user_id user))))"

section \<open>Model of the shared-group consensus\<close>

definition normalize_mappings :: "path_mapping list \<Rightarrow> path_mapping list" where
  "normalize_mappings mappings =
     sort_key (\<lambda>m. (match_key (request_path m), match_key (final_path m), request_path m, final_path m))
       (filter (\<lambda>m. request_path m \<noteq> [] \<and> final_path m \<noteq> []) mappings)"

definition sort_paths_for_equivalence :: "bytes list \<Rightarrow> bytes list" where
  "sort_paths_for_equivalence = sort_key (\<lambda>p. (match_key p, p))"

definition path_lists_equal_ignore_case :: "bytes list \<Rightarrow> bytes list \<Rightarrow> bool" where
  "path_lists_equal_ignore_case left right =
     (if length left \<noteq> length right then False
      else list_all (\<lambda>(l, r). eq_ignore_case l r)
             (zip (sort_paths_for_equivalence left) (sort_paths_for_equivalence right)))"

definition is_user_profile_equivalent :: "user_profile \<Rightarrow> user_profile \<Rightarrow> bool" where
  "is_user_profile_equivalent left right =
     (if is_enabled left \<noteq> is_enabled right then False
      else if is_mapping_mode_only left \<noteq> is_mapping_mode_only right then False
      else if \<not> path_lists_equal_ignore_case (allowed_real_paths left) (allowed_real_paths right) then False
      else if \<not> path_lists_equal_ignore_case (excluded_real_paths left) (excluded_real_paths right) then False
      else if \<not> path_lists_equal_ignore_case (sandboxed_paths left) (sandboxed_paths right) then False
      else if \<not> path_lists_equal_ignore_case (read_only_paths left) (read_only_paths right) then False
      else let ls = normalize_mappings (path_mappings left); rs = normalize_mappings (path_mappings right)
        in if length ls \<noteq> length rs then False
           else list_all (\<lambda>(l, r). eq_ignore_case (request_path l) (request_path r)
                  \<and> eq_ignore_case (final_path l) (final_path r)) (zip ls rs))"

fun collect_group_profiles ::
  "(bytes \<times> app_profile) list \<Rightarrow> i32 \<Rightarrow> bytes list \<Rightarrow> user_profile list option" where
  "collect_group_profiles all_apps user_id [] = Some []"
| "collect_group_profiles all_apps user_id (member # members) =
     (case map_of all_apps member of
        None \<Rightarrow> None
      | Some app \<Rightarrow>
          (case map_of app user_id of
             None \<Rightarrow> None
           | Some user \<Rightarrow> map_option ((#) user) (collect_group_profiles all_apps user_id members)))"

definition is_shared_group_consistent ::
  "shared_uid_state \<Rightarrow> (bytes \<times> app_profile) list \<Rightarrow> bytes \<Rightarrow> i32 \<Rightarrow> bool" where
  "is_shared_group_consistent uids all_apps package_name user_id =
     (let group_members = get_shared_group_members uids package_name
      in if group_members = [] then True
         else (case collect_group_profiles all_apps user_id group_members of
             None \<Rightarrow> False
           | Some [] \<Rightarrow> False
           | Some (base # others) \<Rightarrow> list_all (is_user_profile_equivalent base) others))"

section \<open>Equivalence of profiles\<close>

lemma map_sort_key:
  fixes f :: "'a \<Rightarrow> 'k::linorder" and h :: "'a \<Rightarrow> 'l::linorder"
  assumes "\<And>x y. h x \<le> h y \<Longrightarrow> f x \<le> f y"
  shows "map f (sort_key h xs) = sort (map f xs)"
proof (rule properties_for_sort [symmetric])
  have "sorted_wrt (\<lambda>x y. h x \<le> h y) (sort_key h xs)"
    using sorted_sort_key [of h xs] by (simp add: sorted_map)
  then have "sorted_wrt (\<lambda>x y. f x \<le> f y) (sort_key h xs)"
    by (rule sorted_wrt_mono_rel [rotated]) (auto intro: assms)
  then show "sorted (map f (sort_key h xs))" by (simp add: sorted_map)
qed simp

lemma zip_all_eq:
  "length xs = length ys \<Longrightarrow> list_all (\<lambda>(x, y). f x = f y) (zip xs ys) \<longleftrightarrow> map f xs = map f ys"
  by (induction xs ys rule: list_induct2) auto

lemma sort_eq_iff_mset: "sort xs = sort ys \<longleftrightarrow> mset xs = mset ys" for xs :: "'a::linorder list"
  by (metis mset_sort properties_for_sort sorted_sort)

lemma path_lists_equal_iff:
  "path_lists_equal_ignore_case l r \<longleftrightarrow> mset (map match_key l) = mset (map match_key r)"
proof -
  have "length l = length r" if "mset (map match_key l) = mset (map match_key r)"
    using that by (metis mset_eq_length length_map)
  moreover have "list_all (\<lambda>(a, b). eq_ignore_case a b) (zip (sort_paths_for_equivalence l) (sort_paths_for_equivalence r))
      \<longleftrightarrow> mset (map match_key l) = mset (map match_key r)" if "length l = length r"
  proof -
    have keys: "map match_key (sort_paths_for_equivalence xs) = sort (map match_key xs)" for xs
      unfolding sort_paths_for_equivalence_def by (rule map_sort_key) (auto simp: less_eq_prod_def)
    have eq: "(\<lambda>(a, b). eq_ignore_case a b) = (\<lambda>(a, b). match_key a = match_key b)"
      by (auto simp: eq_ignore_case_def eq_ignore_ascii_case_iff match_key_def)
    have "length (sort_paths_for_equivalence l) = length (sort_paths_for_equivalence r)"
      using that by (simp add: sort_paths_for_equivalence_def)
    then show ?thesis unfolding eq by (subst zip_all_eq) (simp_all only: keys sort_eq_iff_mset)
  qed
  ultimately show ?thesis by (auto simp: path_lists_equal_ignore_case_def)
qed

text \<open>The part of a mapping list the consensus compares.\<close>

definition mapping_keys :: "path_mapping list \<Rightarrow> (bytes \<times> bytes) list" where
  "mapping_keys ms =
     map (\<lambda>m. (match_key (request_path m), match_key (final_path m)))
       (filter (\<lambda>m. request_path m \<noteq> [] \<and> final_path m \<noteq> []) ms)"

lemma normalize_mappings_keys:
  "map (\<lambda>m. (match_key (request_path m), match_key (final_path m))) (normalize_mappings ms)
    = sort (mapping_keys ms)"
  unfolding normalize_mappings_def mapping_keys_def
  by (rule map_sort_key) (auto simp: less_eq_prod_def)

lemma mapping_lists_equal_iff:
  fixes ls rs :: "path_mapping list"
  defines "l \<equiv> normalize_mappings ls" and "r \<equiv> normalize_mappings rs"
  shows "length l = length r \<and> list_all (\<lambda>(a, b). eq_ignore_case (request_path a) (request_path b)
        \<and> eq_ignore_case (final_path a) (final_path b)) (zip l r)
    \<longleftrightarrow> mset (mapping_keys ls) = mset (mapping_keys rs)"
proof -
  let ?k = "\<lambda>m. (match_key (request_path m), match_key (final_path m))"
  have keys: "map ?k l = sort (mapping_keys ls)" "map ?k r = sort (mapping_keys rs)"
    unfolding l_def r_def by (rule normalize_mappings_keys)+
  have eq: "(\<lambda>(a, b). eq_ignore_case (request_path a) (request_path b)
        \<and> eq_ignore_case (final_path a) (final_path b)) = (\<lambda>(a, b). ?k a = ?k b)"
    by (auto simp: eq_ignore_case_def eq_ignore_ascii_case_iff match_key_def)
  have sorts: "sort (mapping_keys ls) = sort (mapping_keys rs) \<longleftrightarrow> mset (mapping_keys ls) = mset (mapping_keys rs)"
    by (rule sort_eq_iff_mset)
  show ?thesis
  proof (cases "length l = length r")
    case True
    then show ?thesis unfolding eq by (simp only: zip_all_eq keys sorts simp_thms)
  next
    case False
    then have "map ?k l \<noteq> map ?k r" by (auto dest: map_eq_imp_length_eq)
    then show ?thesis using False sorts by (simp only: keys simp_thms)
  qed
qed

text \<open>
  Two user profiles count as equivalent exactly when their switches agree and their path lists
  and nonempty mappings are the same multisets ignoring case: order and case never matter, and
  multiplicities do. In particular the relation is symmetric and transitive, so the outcome of the
  shared-group check does not depend on which member is taken as reference.
\<close>

theorem profile_equivalence_iff:
  "is_user_profile_equivalent a b \<longleftrightarrow>
     is_enabled a = is_enabled b \<and> is_mapping_mode_only a = is_mapping_mode_only b
     \<and> mset (map match_key (allowed_real_paths a)) = mset (map match_key (allowed_real_paths b))
     \<and> mset (map match_key (excluded_real_paths a)) = mset (map match_key (excluded_real_paths b))
     \<and> mset (map match_key (sandboxed_paths a)) = mset (map match_key (sandboxed_paths b))
     \<and> mset (map match_key (read_only_paths a)) = mset (map match_key (read_only_paths b))
     \<and> mset (mapping_keys (path_mappings a)) = mset (mapping_keys (path_mappings b))"
  unfolding is_user_profile_equivalent_def path_lists_equal_iff
  using mapping_lists_equal_iff [of "path_mappings a" "path_mappings b"]
  by (simp add: Let_def split del: if_split cong: if_cong) (auto split: if_splits)

section \<open>The probe state file\<close>

lemma strip_suffix_None_last: "c \<notin> set l \<Longrightarrow> strip_suffix l [c] = None"
  by (auto simp: strip_suffix_def ends_with_str_iff suffix_def)

lemma rust_lines_two:
  assumes "CHR 0x0A \<notin> set a" "CHR 0x0A \<notin> set b" "CHR 0x0D \<notin> set a" "CHR 0x0D \<notin> set b"
  shows "rust_lines (a @ [CHR 0x0A] @ b @ [CHR 0x0A]) = [a, b]"
proof -
  have "split_char (CHR 0x0A) (a @ [CHR 0x0A] @ b @ [CHR 0x0A]) = [a, b, []]"
    using assms split_char_append_sep [of "CHR 0x0A" a "b @ [CHR 0x0A]"] split_char_append_sep [of "CHR 0x0A" b "[]"]
    by (simp add: split_char_no_sep)
  then show ?thesis using assms by (simp add: rust_lines_def strip_suffix_None_last)
qed

text \<open>
  The recorded result of the kernel passthrough probe is read back as written during the boot
  that wrote it, and is forgotten in every other boot, so that a new kernel is always probed again.
\<close>

theorem probe_state_roundtrip:
  assumes "boot \<noteq> []" and "CHR 0x0A \<notin> set boot" and "CHR 0x0D \<notin> set boot"
  shows "fuse_passthrough_probe_state now (write_fuse_passthrough_probe_state boot ok file)
    = (if now = boot then Some ok else None)"
proof -
  let ?v = "if ok then ''ok'' else ''broken''"
  have "rust_lines ((''boot='' @ boot) @ [CHR 0x0A] @ (''status='' @ ?v) @ [CHR 0x0A]) = [''boot='' @ boot, ''status='' @ ?v]"
    using assms by (intro rust_lines_two) auto
  then show ?thesis using assms
    by (auto simp: fuse_passthrough_probe_state_def write_fuse_passthrough_probe_state_def strip_prefix_def
        probe_status_of_def)
qed

theorem probe_state_roundtrip_witness:
  "fuse_passthrough_probe_state ''b1'' (write_fuse_passthrough_probe_state ''b1'' True None) = Some True"
proof -
  have "''b1'' \<noteq> []" "CHR 0x0A \<notin> set ''b1''" "CHR 0x0D \<notin> set ''b1''" by simp_all
  from probe_state_roundtrip [OF this, of "''b1''" True None] show ?thesis by simp
qed

end
