(* ===== verification/Ingest.thy ===== *)
theory Ingest
  imports Settings
begin

text \<open>
  Model of \<^verbatim>\<open>src/config/ingest.rs\<close>: from the text of a configuration file to the settings state.
  Two functions are parameters: \<open>json_parse\<close> is \<^verbatim>\<open>serde_json::from_str\<close> (\<^const>\<open>None\<close> for a
  parse error; an object is a list of members in the order in which it is iterated), and \<open>lower\<close>
  is the Unicode \<^verbatim>\<open>str::to_lowercase\<close>, whose tables are not part of the repository.
  \<open>key_order\<close> is the iteration order of the hash map in the mapping-chain filter.

  The lemmas show that whatever the file says, a parsed profile is well formed: rule paths lie
  strictly inside the user's storage and mappings are safe, distinct and free of long chains.
\<close>

section \<open>Model: global and monitor filter configuration\<close>

definition parse_global_config ::
  "(bytes \<Rightarrow> json option) \<Rightarrow> bytes \<Rightarrow> settings_state \<Rightarrow> bool \<times> settings_state" where
  "parse_global_config json_parse content st =
     (case json_parse content of
        None \<Rightarrow> (False, st)
      | Some parsed \<Rightarrow>
          (True, st\<lparr>is_file_monitor_enabled := bool_or False (json_get ''file_monitor_enabled'' parsed),
                   is_fuse_fix_enabled := bool_or True (json_get ''fuse_fix_enabled'' parsed),
                   storage_backend := StorageBackendMode_parse
                     (Option.bind (json_get ''storage_backend_mode'' parsed) as_str) False,
                   is_verbose_logging_enabled := bool_or False (json_get ''verbose_logging_enabled'' parsed)\<rparr>))"

text \<open>A string or an array of strings; other array items are skipped.\<close>

definition string_items :: "json \<Rightarrow> bytes list" where
  "string_items value =
     (case as_str value of
        Some raw \<Rightarrow> [raw]
      | None \<Rightarrow> (case as_array value of None \<Rightarrow> [] | Some items \<Rightarrow> List.map_filter as_str items))"

definition parse_filter_list_with :: "json option \<Rightarrow> (bytes \<Rightarrow> bytes option) \<Rightarrow> bytes list" where
  "parse_filter_list_with value push =
     (case value of
        None \<Rightarrow> []
      | Some value \<Rightarrow> remdups_adj (sort (List.map_filter push (string_items value))))"

definition push_filter_pattern :: "bytes \<Rightarrow> bytes option" where
  "push_filter_pattern raw =
     (let value = trim raw
      in if value = [] \<or> contains_char value (CHR 0x00) \<or> 512 < length value then None else Some value)"

definition parse_filter_list :: "json option \<Rightarrow> bytes list" where
  "parse_filter_list value = parse_filter_list_with value push_filter_pattern"

definition is_legacy_default_monitor_operation_filter :: "(bytes \<Rightarrow> bytes) \<Rightarrow> bytes list \<Rightarrow> bool" where
  "is_legacy_default_monitor_operation_filter lower operations =
     (if length operations = 4 then
        sort (map lower operations) = [''delete*'', ''open:read'', ''rename*'', ''unlink*'']
      else if length operations = 15 then
        sort (map lower operations) =
          [''attrib*'', ''chmod*'', ''delete*'', ''fchmod*'', ''ftruncate*'', ''futimens*'', ''link*'',
           ''open*:read'', ''open:read'', ''rename*'', ''rmdir*'', ''symlink*'', ''truncate*'', ''unlink*'',
           ''utimens*'']
      else False)"

definition normalize_monitor_operation_defaults :: "(bytes \<Rightarrow> bytes) \<Rightarrow> bytes list \<Rightarrow> bytes list" where
  "normalize_monitor_operation_defaults lower operations =
     (if is_legacy_default_monitor_operation_filter lower operations then
        excluded_operations MonitorFilterConfig_default
      else remdups_adj (sort (List.map_filter (\<lambda>value.
             (let value = lower (trim value)
              in if value \<noteq> [] \<and> \<not> contains_char value slash then Some value else None)) operations)))"

fun collapse_filter_path_slashes :: "bool \<Rightarrow> bytes \<Rightarrow> bytes" where
  "collapse_filter_path_slashes last_was_slash [] = []"
| "collapse_filter_path_slashes last_was_slash (ch # rest) =
     (if ch = slash then
        (if last_was_slash then collapse_filter_path_slashes True rest
         else ch # collapse_filter_path_slashes True rest)
      else ch # collapse_filter_path_slashes False rest)"

definition trim_start_char :: "char \<Rightarrow> bytes \<Rightarrow> bytes" where
  "trim_start_char c s = dropWhile (\<lambda>x. x = c) s"

definition has_storage_root_prefix :: "bytes \<Rightarrow> bool" where
  "has_storage_root_prefix path =
     (let lower = to_ascii_lowercase (trim_start_char slash path)
      in lower = ''sdcard'' \<or> starts_with_str lower ''sdcard/''
         \<or> lower = ''storage/emulated'' \<or> starts_with_str lower ''storage/emulated/''
         \<or> lower = ''storage/self/primary'' \<or> starts_with_str lower ''storage/self/primary/''
         \<or> lower = ''data/media'' \<or> starts_with_str lower ''data/media/'')"

definition is_forbidden_filter_char :: "char \<Rightarrow> bool" where
  "is_forbidden_filter_char ch \<longleftrightarrow>
     ch \<in> {CHR ''<'', CHR ''>'', CHR '':'', CHR 0x22, CHR ''|''} \<or> (of_char ch :: nat) \<le> 31"

definition sanitize_monitor_path_filter :: "bytes \<Rightarrow> bool \<Rightarrow> bytes option" where
  "sanitize_monitor_path_filter raw allow_legacy_absolute =
     (let trimmed = trim raw
      in if trimmed = [] \<or> contains_char trimmed (CHR 0x00) \<or> 512 < length trimmed then None
         else let value = collapse_filter_path_slashes False
                            (map (\<lambda>c. if c = CHR 0x5C then slash else c) trimmed)
           in if starts_with_str value ''!'' then None
              else if has_storage_root_prefix (trim_start_char slash value) then None
              else if starts_with_str value ''/'' \<and> \<not> allow_legacy_absolute then None
              else let value = (if starts_with_str value ''/'' then trim_start_char slash value else value);
                       value = trim_end_char slash (trim_start_char slash value)
                in if value = [] \<or> list_ex (\<lambda>s. s = ''.'' \<or> s = ''..'') (split_char slash value)
                      \<or> has_storage_root_prefix value \<or> list_ex is_forbidden_filter_char value then None
                   else Some value)"

definition push_monitor_path_filter_pattern :: "bytes \<Rightarrow> bytes option" where
  "push_monitor_path_filter_pattern raw =
     (case sanitize_monitor_path_filter raw True of
        None \<Rightarrow> None | Some value \<Rightarrow> Some (''/storage/emulated/*/'' @ value))"

definition parse_monitor_path_filter_list :: "json option \<Rightarrow> bytes list" where
  "parse_monitor_path_filter_list value = parse_filter_list_with value push_monitor_path_filter_pattern"

definition parse_monitor_filter_config ::
  "(bytes \<Rightarrow> json option) \<Rightarrow> (bytes \<Rightarrow> bytes) \<Rightarrow> bytes \<Rightarrow> settings_state \<Rightarrow> bool \<times> settings_state" where
  "parse_monitor_filter_config json_parse lower content st =
     (case json_parse content of
        None \<Rightarrow> (False, st)
      | Some parsed \<Rightarrow>
          (True, st\<lparr>monitor_filters :=
             \<lparr>excluded_paths = parse_monitor_path_filter_list (json_get ''excluded_paths'' parsed),
              excluded_operations = normalize_monitor_operation_defaults lower
                (parse_filter_list (json_get ''excluded_operations'' parsed))\<rparr>\<rparr>))"

section \<open>Model: application configuration\<close>

definition try_parse_user_id :: "bytes \<Rightarrow> i32 option" where
  "try_parse_user_id value =
     (if value = [] then None
      else if \<not> list_all is_ascii_digit value then None
      else (case parse_i32 value of
          None \<Rightarrow> None | Some parsed \<Rightarrow> if parsed < 0 then None else Some parsed))"

definition normalize_paths :: "bytes list \<Rightarrow> bytes list" where
  "normalize_paths path_list = (if path_list = [] then path_list else sort_dedup_paths_case_insensitive path_list)"

definition resolve_allowed_path_rule_for_user :: "bytes \<Rightarrow> bytes \<Rightarrow> (bool \<times> bytes) option" where
  "resolve_allowed_path_rule_for_user raw_path storage_root =
     (let raw_trimmed = trim raw_path
      in if raw_trimmed = [] then None
         else let (is_excluded, path_body) =
                    (case strip_prefix raw_trimmed ''!'' of
                       Some stripped \<Rightarrow> (True, trim_start stripped) | None \<Rightarrow> (False, raw_trimmed));
                  normalized = normalize path_body
           in if normalized = [] then None
              else if has_unsafe_segments normalized then None
              else if starts_with_str normalized ''/'' then None
              else let normalized = normalize (path_join storage_root normalized)
                in if eq_ignore_case normalized storage_root then None
                   else if \<not> is_child normalized storage_root then None
                   else Some (is_excluded, normalized))"

definition resolve_allowed_path_for_user :: "bytes \<Rightarrow> bytes \<Rightarrow> bytes" where
  "resolve_allowed_path_for_user raw_path storage_root =
     (case resolve_allowed_path_rule_for_user raw_path storage_root of
        None \<Rightarrow> []
      | Some (is_excluded, resolved) \<Rightarrow> if is_excluded then [] else resolved)"

definition resolve_mapping_path_for_user :: "bytes \<Rightarrow> i32 \<Rightarrow> bytes \<Rightarrow> bytes" where
  "resolve_mapping_path_for_user raw_path user_id storage_root =
     (let raw = trim raw_path
      in if raw = [] then []
         else let resolved = resolve_user_path (normalize raw) user_id
           in if resolved = [] \<or> has_unsafe_segments resolved then []
              else let resolved = (if \<not> is_absolute resolved then normalize (path_join storage_root resolved)
                                   else resolved)
                in if \<not> is_safe_namespace_path resolved then [] else resolved)"

definition resolve_mapping_request_path_for_user :: "bytes \<Rightarrow> i32 \<Rightarrow> bytes \<Rightarrow> bytes" where
  "resolve_mapping_request_path_for_user raw_path user_id storage_root =
     (let resolved = resolve_mapping_path_for_user raw_path user_id storage_root
      in if is_application_private_root resolved then [] else resolved)"

definition rule_with_mark :: "bool \<times> bytes \<Rightarrow> bytes" where
  "rule_with_mark rule = (case rule of (is_excluded, resolved) \<Rightarrow> if is_excluded then ''!'' @ resolved else resolved)"

definition push_sandboxed_path :: "bytes \<Rightarrow> bytes \<Rightarrow> bytes list \<Rightarrow> bytes list" where
  "push_sandboxed_path raw storage_root acc =
     (case resolve_allowed_path_rule_for_user raw storage_root of
        None \<Rightarrow> acc | Some rule \<Rightarrow> acc @ [rule_with_mark rule])"

definition parse_sandboxed_paths :: "json option \<Rightarrow> bytes \<Rightarrow> bytes list \<Rightarrow> bytes list" where
  "parse_sandboxed_paths value storage_root acc =
     (case value of
        None \<Rightarrow> acc
      | Some value \<Rightarrow>
          if as_str value = None \<and> as_array value = None then acc
          else normalize_paths (foldl (\<lambda>acc raw. push_sandboxed_path raw storage_root acc) acc (string_items value)))"

definition push_read_only_path :: "bytes \<Rightarrow> bytes \<Rightarrow> bytes list \<Rightarrow> bytes list" where
  "push_read_only_path raw storage_root acc =
     (case resolve_allowed_path_rule_for_user raw storage_root of
        None \<Rightarrow> acc | Some rule \<Rightarrow> acc @ [rule_with_mark rule])"

definition parse_read_only_paths :: "json option \<Rightarrow> bytes \<Rightarrow> bytes list \<Rightarrow> bytes list" where
  "parse_read_only_paths value storage_root acc =
     (case value of
        None \<Rightarrow> acc
      | Some value \<Rightarrow>
          if as_str value = None \<and> as_array value = None then acc
          else normalize_paths (foldl (\<lambda>acc raw. push_read_only_path raw storage_root acc) acc (string_items value)))"

definition remove_excluded_read_only_paths :: "bytes list \<Rightarrow> bytes list \<Rightarrow> bytes list" where
  "remove_excluded_read_only_paths excluded read_only =
     (if excluded = [] \<or> read_only = [] then read_only
      else filter (\<lambda>path. if starts_with_str (trim_start path) ''!'' then True
                          else \<not> list_ex (\<lambda>e. matches e path True) excluded) read_only)"

text \<open>The allow list: \<^verbatim>\<open>!\<close> rules go to the excluded list.\<close>

definition push_allowed_rule :: "bytes \<Rightarrow> bytes \<Rightarrow> user_profile \<Rightarrow> user_profile" where
  "push_allowed_rule raw storage_root profile =
     (case resolve_allowed_path_rule_for_user raw storage_root of
        None \<Rightarrow> profile
      | Some (is_excluded, resolved) \<Rightarrow>
          if resolved = [] then profile
          else if is_excluded then profile\<lparr>excluded_real_paths := excluded_real_paths profile @ [resolved]\<rparr>
          else profile\<lparr>allowed_real_paths := allowed_real_paths profile @ [resolved]\<rparr>)"

definition push_excluded_rule :: "bytes \<Rightarrow> bytes \<Rightarrow> user_profile \<Rightarrow> user_profile" where
  "push_excluded_rule raw storage_root profile =
     (let raw = (case strip_prefix raw ''!'' of Some r \<Rightarrow> r | None \<Rightarrow> raw);
          resolved = resolve_allowed_path_for_user raw storage_root
      in if resolved = [] then profile
         else profile\<lparr>excluded_real_paths := excluded_real_paths profile @ [resolved]\<rparr>)"

text \<open>
  Inserting a mapping: a repeated request path (ignoring case) overrides the target of the earlier
  entry, found through the index.
\<close>

definition upsert_mapping ::
  "i32 \<Rightarrow> bytes \<Rightarrow> bytes \<times> bytes \<Rightarrow> (bytes \<times> nat) list \<times> path_mapping list
    \<Rightarrow> (bytes \<times> nat) list \<times> path_mapping list" where
  "upsert_mapping user_id storage_root raws acc =
     (case (raws, acc) of ((current_raw, target_raw), (index, mappings)) \<Rightarrow>
        (let resolved_current = resolve_mapping_request_path_for_user current_raw user_id storage_root
         in if resolved_current = [] then acc
            else let resolved_target = resolve_mapping_path_for_user target_raw user_id storage_root
              in if resolved_target = [] then acc
                 else if eq_ignore_case resolved_current resolved_target then acc
                 else let current_key = match_key resolved_current
                   in (case map_of index current_key of
                         Some idx \<Rightarrow>
                           (index, if idx < length mappings
                                   then mappings[idx := (mappings ! idx)\<lparr>final_path := resolved_target\<rparr>]
                                   else mappings)
                       | None \<Rightarrow>
                           (AList.update current_key (length mappings) index,
                            mappings @ [PathMapping_new resolved_current resolved_target]))))"

definition mapping_pairs :: "json \<Rightarrow> (bytes \<times> bytes) list" where
  "mapping_pairs value =
     (case as_object value of
        Some members \<Rightarrow> List.map_filter (\<lambda>(k, v). map_option (Pair k) (as_str v)) members
      | None \<Rightarrow>
          (case as_array value of
             None \<Rightarrow> []
           | Some items \<Rightarrow>
               List.map_filter (\<lambda>item.
                 (case as_object item of
                    None \<Rightarrow> None
                  | Some obj \<Rightarrow>
                      (case (map_of obj ''request_path'', map_of obj ''final_path'') of
                         (Some c, Some t) \<Rightarrow>
                           (case (as_str c, as_str t) of (Some c, Some t) \<Rightarrow> Some (c, t) | _ \<Rightarrow> None)
                       | _ \<Rightarrow> None))) items))"

definition empty_user_profile :: user_profile where
  "empty_user_profile =
     \<lparr>is_enabled = True, is_mapping_mode_only = False, allowed_real_paths = [], excluded_real_paths = [],
      sandboxed_paths = [], read_only_paths = [], path_mappings = []\<rparr>"

definition parse_allowed_section :: "json option \<Rightarrow> bytes \<Rightarrow> user_profile \<Rightarrow> user_profile" where
  "parse_allowed_section value storage_root profile =
     (case Option.bind value as_array of
        None \<Rightarrow> profile
      | Some items \<Rightarrow>
          (let profile = foldl (\<lambda>p raw. push_allowed_rule raw storage_root p) profile (List.map_filter as_str items)
           in profile\<lparr>allowed_real_paths := normalize_paths (allowed_real_paths profile),
                      excluded_real_paths := normalize_paths (excluded_real_paths profile)\<rparr>))"

definition parse_excluded_section :: "json option \<Rightarrow> bytes \<Rightarrow> user_profile \<Rightarrow> user_profile" where
  "parse_excluded_section value storage_root profile =
     (case Option.bind value as_array of
        None \<Rightarrow> profile
      | Some items \<Rightarrow>
          (let profile = foldl (\<lambda>p raw. push_excluded_rule raw storage_root p) profile (List.map_filter as_str items)
           in profile\<lparr>excluded_real_paths := normalize_paths (excluded_real_paths profile)\<rparr>))"

definition parse_mappings_section :: "json option \<Rightarrow> i32 \<Rightarrow> bytes \<Rightarrow> path_mapping list" where
  "parse_mappings_section value user_id storage_root =
     (case value of
        None \<Rightarrow> []
      | Some value \<Rightarrow>
          snd (foldl (\<lambda>acc raws. upsert_mapping user_id storage_root raws acc) ([], []) (mapping_pairs value)))"

definition parse_real_path_sections :: "i32 \<Rightarrow> (bytes \<times> json) list \<Rightarrow> user_profile" where
  "parse_real_path_sections user_id user_obj =
     (let storage_root = storage_user_root_for_user user_id;
          profile = empty_user_profile
            \<lparr>is_enabled := bool_or True (map_of user_obj ''enabled''),
             is_mapping_mode_only := bool_or False (map_of user_obj ''mapping_mode_only'')\<rparr>;
          profile = parse_allowed_section (map_of user_obj ''allowed_real_paths'') storage_root profile
      in parse_excluded_section (map_of user_obj ''excluded_real_paths'') storage_root profile)"

definition parse_user_profile ::
  "(bytes list \<Rightarrow> bytes list) \<Rightarrow> i32 \<Rightarrow> (bytes \<times> json) list \<Rightarrow> user_profile" where
  "parse_user_profile key_order user_id user_obj =
     (let storage_root = storage_user_root_for_user user_id;
          profile = parse_real_path_sections user_id user_obj;
          profile = profile\<lparr>sandboxed_paths :=
             parse_sandboxed_paths (map_of user_obj ''sandboxed_paths'') storage_root (sandboxed_paths profile)\<rparr>;
          profile = profile\<lparr>read_only_paths :=
             parse_read_only_paths (map_of user_obj ''read_only_paths'') storage_root (read_only_paths profile)\<rparr>;
          profile = profile\<lparr>read_only_paths :=
             remove_excluded_read_only_paths (excluded_real_paths profile) (read_only_paths profile)\<rparr>;
          mappings = parse_mappings_section (map_of user_obj ''path_mappings'') user_id storage_root;
          mappings = filter_valid_path_mapping_chains key_order mappings
      in profile\<lparr>path_mappings := filter_valid_path_mapping_chains key_order mappings\<rparr>)"

definition parse_users :: "(bytes list \<Rightarrow> bytes list) \<Rightarrow> (bytes \<times> json) list \<Rightarrow> app_profile" where
  "parse_users key_order users_map =
     foldl (\<lambda>app (user_key, user_value).
         (case try_parse_user_id user_key of
            None \<Rightarrow> app
          | Some user_id \<Rightarrow>
              (case as_object user_value of
                 None \<Rightarrow> app
               | Some user_obj \<Rightarrow> AList.update user_id (parse_user_profile key_order user_id user_obj) app)))
       [] users_map"

definition parse_app_config ::
  "(bytes \<Rightarrow> json option) \<Rightarrow> (bytes list \<Rightarrow> bytes list) \<Rightarrow> bytes \<Rightarrow> bytes \<Rightarrow> settings_state
    \<Rightarrow> bool \<times> settings_state" where
  "parse_app_config json_parse key_order package_name content st =
     (case json_parse content of
        None \<Rightarrow> (False, st)
      | Some parsed \<Rightarrow>
          (case Option.bind (json_get ''users'' parsed) as_object of
             None \<Rightarrow> (False, st)
           | Some users_map \<Rightarrow>
               (let app = parse_users key_order users_map
                in if app = [] then (False, st)
                   else (True, st\<lparr>apps := AList.update package_name app (apps st)\<rparr>))))"

section \<open>Rule paths\<close>

text \<open>A rule path as the rest of the program expects it: a normal form strictly inside the user's storage.\<close>

definition rule_path_ok :: "i32 \<Rightarrow> bytes \<Rightarrow> bool" where
  "rule_path_ok user_id p \<longleftrightarrow>
     is_child p (storage_user_root_for_user user_id) \<and> \<not> has_unsafe_segments p \<and> normalize p = p"

lemma storage_root_components:
  "storage_user_root_for_user u = slash # join_char slash [''storage'', ''emulated'', fmt_i32 u]"
  "p \<in> set [''storage'', ''emulated'', fmt_i32 u] \<Longrightarrow> p \<noteq> [] \<and> slash \<notin> set p"
  by (auto simp: storage_user_root_for_user_def STORAGE_EMULATED_PREFIX_def user_segment)

lemma storage_root_segs: "segs (storage_user_root_for_user u) = [''storage'', ''emulated'', fmt_i32 u]"
  unfolding storage_root_components(1) by (rule segs_join) (rule storage_root_components(2))

lemma storage_root_canonical: "canonical (storage_user_root_for_user u)"
  unfolding storage_root_components(1) by (rule canonical_join) (rule storage_root_components(2))

lemma fmt_i32_not_dots: "fmt_i32 u \<noteq> ''.'' \<and> fmt_i32 u \<noteq> ''..''"
proof -
  have "last (fmt_i32 u) \<in> set (fmt_i32 u)" using fmt_i32_nonempty by simp
  moreover have "c \<noteq> CHR ''.''" if "c \<in> set (fmt_i32 u)" for c
    using that show_nat_digits [of "nat \<bar>u\<bar>"]
    by (auto simp: fmt_i32_def list_all_iff is_ascii_digit_def split: if_splits)
  ultimately show ?thesis by (metis last.simps list.set_intros(1))
qed

lemma normalize_join_storage:
  fixes u :: i32
  assumes rel: "r \<noteq> []" "hd r \<noteq> slash"
  defines "n \<equiv> normalize (path_join (storage_user_root_for_user u) r)"
  shows "canonical n \<and> segs n = [''storage'', ''emulated'', fmt_i32 u] @ segs r"
proof -
  let ?root = "storage_user_root_for_user u"
  have root: "?root \<noteq> []" "last ?root \<noteq> slash"
    using storage_root_canonical [of u] fmt_i32_no_slash [of u] fmt_i32_nonempty [of u]
    by (auto simp: storage_user_root_for_user_def STORAGE_EMULATED_PREFIX_def dest: last_in_set)
  have j: "path_join ?root r = ?root @ slash # r"
    using rel root by (simp add: path_join_def starts_with_str_iff ends_with_single)
  have abs: "is_absolute (?root @ slash # r)"
    by (simp add: is_absolute_def starts_with_str_def storage_user_root_for_user_def STORAGE_EMULATED_PREFIX_def)
  let ?s = "normalize_syntax (?root @ slash # r)"
  have s: "canonical ?s" "segs ?s = [''storage'', ''emulated'', fmt_i32 u] @ segs r"
    using normalize_syntax_facts [of "?root @ slash # r"] normalize_syntax_abs [of "?root @ slash # r"] abs
    by (auto simp: nonempty_parts_append_sep storage_root_segs is_absolute_def starts_with_str_iff)
  then have "?s = ''/storage/emulated/'' @ join_char slash (fmt_i32 u # segs r)" by (simp add: canonical_def)
  then have "resolve_storage_alias ?s = ?s"
    by (intro resolve_storage_alias_id)
      (simp add: has_potential_storage_alias_def starts_with_str_def DATA_MEDIA_PREFIX_def)
  then show ?thesis using s abs by (simp add: n_def j normalize_abs_eq)
qed

lemma resolve_allowed_rule_ok:
  assumes "resolve_allowed_path_rule_for_user raw (storage_user_root_for_user u) = Some (e, p)"
  shows "rule_path_ok u p"
proof -
  obtain r where r: "r \<noteq> []" "\<not> has_unsafe_segments r" "\<not> starts_with_str r ''/''"
    and p: "p = normalize (path_join (storage_user_root_for_user u) r)" "is_child p (storage_user_root_for_user u)"
    using assms by (auto simp: resolve_allowed_path_rule_for_user_def Let_def split: if_splits prod.splits)
  from r have "hd r \<noteq> slash" by (simp add: starts_with_str_iff)
  from normalize_join_storage [OF r(1) this, of u] p(1)
  have "segs p = [''storage'', ''emulated'', fmt_i32 u] @ segs r" "canonical p" by simp_all
  then have "\<not> has_unsafe_segments p"
    using r(2) fmt_i32_not_dots [of u] by (auto simp: has_unsafe_segments_iff canonical_iff)
  then show ?thesis using p normalize_idem by (simp add: rule_path_ok_def)
qed

lemma normalize_paths_subset: "set (normalize_paths ps) \<subseteq> set ps"
  using dedup_by_subset [of eq_ignore_case "sort_key (\<lambda>a. (match_key a, a)) ps"]
  by (simp add: normalize_paths_def sort_dedup_paths_case_insensitive_def)

lemma resolve_allowed_path_ok:
  "resolve_allowed_path_for_user raw (storage_user_root_for_user u) = p \<Longrightarrow> p \<noteq> [] \<Longrightarrow> rule_path_ok u p"
  by (auto simp: resolve_allowed_path_for_user_def dest: resolve_allowed_rule_ok split: option.splits if_splits)

text \<open>Sandbox and read-only lists keep the exclusion mark in front of the path.\<close>

definition marked_path_ok :: "i32 \<Rightarrow> bytes \<Rightarrow> bool" where
  "marked_path_ok u r \<longleftrightarrow> rule_path_ok u (case strip_prefix r ''!'' of Some p \<Rightarrow> p | None \<Rightarrow> r)"

lemma is_child_nonempty: "is_child p r \<Longrightarrow> p \<noteq> []"
  by (auto simp: is_child_iff)

lemma rule_path_absolute: "rule_path_ok u p \<Longrightarrow> p \<noteq> [] \<and> hd p = slash"
proof -
  assume "rule_path_ok u p"
  then have "prefix (to_ascii_lowercase (storage_user_root_for_user u) @ ''/'') (to_ascii_lowercase p)"
    by (simp add: rule_path_ok_def is_child_iff)
  moreover have "ascii_lower slash = slash" by simp
  ultimately show ?thesis by (cases p) (simp_all add: storage_root_components(1))
qed

lemma rule_with_mark_ok: "rule_path_ok u p \<Longrightarrow> marked_path_ok u (rule_with_mark (e, p))"
  using rule_path_absolute [of u p]
  by (cases p) (auto simp: marked_path_ok_def rule_with_mark_def strip_prefix_def starts_with_str_iff split: option.splits)

lemma push_marked_ok:
  assumes "list_all (marked_path_ok u) acc"
  shows "list_all (marked_path_ok u) (foldl (\<lambda>acc raw. push_sandboxed_path raw (storage_user_root_for_user u) acc) acc raws)"
    and "list_all (marked_path_ok u) (foldl (\<lambda>acc raw. push_read_only_path raw (storage_user_root_for_user u) acc) acc raws)"
proof -
  let ?root = "storage_user_root_for_user u"
  have one: "list_all (marked_path_ok u) (push_sandboxed_path raw ?root acc)"
    "push_read_only_path raw ?root acc = push_sandboxed_path raw ?root acc"
    if "list_all (marked_path_ok u) acc" for raw acc
    using that rule_with_mark_ok resolve_allowed_rule_ok [of raw u]
    by (auto simp: push_sandboxed_path_def push_read_only_path_def split: option.splits)
  have "list_all (marked_path_ok u) (foldl (\<lambda>acc raw. push_sandboxed_path raw ?root acc) acc raws)
      \<and> foldl (\<lambda>acc raw. push_read_only_path raw ?root acc) acc raws
        = foldl (\<lambda>acc raw. push_sandboxed_path raw ?root acc) acc raws"
    using assms by (induction raws arbitrary: acc) (simp_all add: one)
  then show "list_all (marked_path_ok u) (foldl (\<lambda>acc raw. push_sandboxed_path raw ?root acc) acc raws)"
    and "list_all (marked_path_ok u) (foldl (\<lambda>acc raw. push_read_only_path raw ?root acc) acc raws)"
    by simp_all
qed

lemma parse_marked_ok:
  assumes "list_all (marked_path_ok u) acc"
  shows "list_all (marked_path_ok u) (parse_sandboxed_paths v (storage_user_root_for_user u) acc)"
  "list_all (marked_path_ok u) (parse_read_only_paths v (storage_user_root_for_user u) acc)"
  using assms push_marked_ok [OF assms] normalize_paths_subset
  by (auto simp: parse_sandboxed_paths_def parse_read_only_paths_def list_all_iff split: option.splits) blast+

lemma remove_excluded_subset: "set (remove_excluded_read_only_paths ex ro) \<subseteq> set ro"
  by (auto simp: remove_excluded_read_only_paths_def)

definition profile_rules_ok :: "i32 \<Rightarrow> user_profile \<Rightarrow> bool" where
  "profile_rules_ok u p \<longleftrightarrow> list_all (rule_path_ok u) (allowed_real_paths p)
     \<and> list_all (rule_path_ok u) (excluded_real_paths p)
     \<and> list_all (marked_path_ok u) (sandboxed_paths p) \<and> list_all (marked_path_ok u) (read_only_paths p)"

lemma foldl_inv: "P a \<Longrightarrow> (\<And>a x. P a \<Longrightarrow> P (f a x)) \<Longrightarrow> P (foldl f a xs)"
  by (induction xs arbitrary: a) auto

lemma push_rules_ok:
  assumes "profile_rules_ok u p"
  shows "profile_rules_ok u (push_allowed_rule raw (storage_user_root_for_user u) p)"
    and "profile_rules_ok u (push_excluded_rule raw (storage_user_root_for_user u) p)"
  using assms
  by (auto simp: push_allowed_rule_def push_excluded_rule_def profile_rules_ok_def Let_def
      intro: resolve_allowed_path_ok [OF refl] dest: resolve_allowed_rule_ok split: option.splits)

lemma normalize_paths_ok: "list_all P ps \<Longrightarrow> list_all P (normalize_paths ps)"
  using normalize_paths_subset by (auto simp: list_all_iff)

lemma parse_sections_ok:
  assumes "profile_rules_ok u p"
  shows "profile_rules_ok u (parse_allowed_section v (storage_user_root_for_user u) p)"
    and "profile_rules_ok u (parse_excluded_section v (storage_user_root_for_user u) p)"
proof -
  have "profile_rules_ok u (foldl (\<lambda>p raw. push_allowed_rule raw (storage_user_root_for_user u) p) p raws)"
    and "profile_rules_ok u (foldl (\<lambda>p raw. push_excluded_rule raw (storage_user_root_for_user u) p) p raws)" for raws
    using assms by (auto intro!: foldl_inv push_rules_ok)
  then show "profile_rules_ok u (parse_allowed_section v (storage_user_root_for_user u) p)"
    and "profile_rules_ok u (parse_excluded_section v (storage_user_root_for_user u) p)"
    using assms by (auto simp: parse_allowed_section_def parse_excluded_section_def Let_def
        profile_rules_ok_def normalize_paths_ok split: option.splits)
qed

section \<open>Mappings\<close>

definition mapping_ok :: "path_mapping \<Rightarrow> bool" where
  "mapping_ok m \<longleftrightarrow> is_safe_namespace_path (request_path m) \<and> \<not> is_application_private_root (request_path m)
     \<and> is_safe_namespace_path (final_path m) \<and> \<not> eq_ignore_case (request_path m) (final_path m)"

abbreviation request_keys :: "path_mapping list \<Rightarrow> bytes list" where
  "request_keys ms \<equiv> map (\<lambda>m. match_key (request_path m)) ms"

definition upsert_inv :: "(bytes \<times> nat) list \<times> path_mapping list \<Rightarrow> bool" where
  "upsert_inv acc \<longleftrightarrow> distinct (request_keys (snd acc)) \<and> list_all mapping_ok (snd acc)
     \<and> (\<forall>k i. map_of (fst acc) k = Some i \<longleftrightarrow> i < length (snd acc) \<and> request_keys (snd acc) ! i = k)"

lemma resolve_mapping_path_safe:
  "resolve_mapping_path_for_user raw u root = p \<Longrightarrow> p \<noteq> [] \<Longrightarrow> is_safe_namespace_path p"
  by (auto simp: resolve_mapping_path_for_user_def Let_def split: if_splits)

lemma eq_ignore_case_key: "eq_ignore_case a b \<longleftrightarrow> match_key a = match_key b"
  by (simp add: eq_ignore_case_def eq_ignore_ascii_case_iff match_key_def)

lemma upsert_mapping_inv:
  assumes inv: "upsert_inv acc"
  shows "upsert_inv (upsert_mapping u root raws acc)"
proof -
  obtain index ms c t where acc: "acc = (index, ms)" "raws = (c, t)" by (cases acc; cases raws)
  let ?c = "resolve_mapping_request_path_for_user c u root" and ?t = "resolve_mapping_path_for_user t u root"
  show ?thesis
  proof (cases "?c = [] \<or> ?t = [] \<or> eq_ignore_case ?c ?t")
    case True
    then show ?thesis using inv acc by (auto simp: upsert_mapping_def Let_def)
  next
    case False
    have "?c = resolve_mapping_path_for_user c u root" "\<not> is_application_private_root ?c"
      using False by (auto simp: resolve_mapping_request_path_for_user_def Let_def split: if_splits)
    then have safe: "is_safe_namespace_path ?c" "\<not> is_application_private_root ?c" "is_safe_namespace_path ?t"
      using False resolve_mapping_path_safe by metis+
    show ?thesis
    proof (cases "map_of index (match_key ?c)")
      case None
      then have new: "upsert_mapping u root raws acc =
          (AList.update (match_key ?c) (length ms) index, ms @ [PathMapping_new ?c ?t])"
        using False acc by (simp add: upsert_mapping_def Let_def)
      let ?ms = "ms @ [PathMapping_new ?c ?t]"
      have keys: "request_keys ?ms = request_keys ms @ [match_key ?c]" by (simp add: PathMapping_new_def)
      have ind: "map_of index k = Some i \<longleftrightarrow> i < length ms \<and> request_keys ms ! i = k" for k i
        using inv acc by (simp add: upsert_inv_def)
      have fresh: "match_key ?c \<notin> set (request_keys ms)"
      proof
        assume "match_key ?c \<in> set (request_keys ms)"
        then obtain i where "i < length ms" "request_keys ms ! i = match_key ?c"
          by (metis in_set_conv_nth length_map)
        then have "map_of index (match_key ?c) = Some i" by (simp only: ind simp_thms)
        with None show False by simp
      qed
      have "((map_of index)(match_key ?c \<mapsto> length ms)) k = Some i \<longleftrightarrow>
          i < length ?ms \<and> (request_keys ms @ [match_key ?c]) ! i = k" for k i
      proof (cases "k = match_key ?c")
        case True
        have "request_keys ms ! i \<noteq> match_key ?c" if "i < length ms"
          using fresh that by (metis length_map nth_mem)
        then show ?thesis using True by (auto simp: nth_append less_Suc_eq simp del: nth_map)
      next
        case False
        then show ?thesis using ind [of k i] by (auto simp: nth_append less_Suc_eq simp del: nth_map)
      qed
      moreover have "mapping_ok (PathMapping_new ?c ?t)"
        using safe False by (simp add: mapping_ok_def PathMapping_new_def)
      ultimately show ?thesis using inv acc fresh unfolding new upsert_inv_def fst_conv snd_conv keys map_of_update
        by simp
    next
      case (Some i)
      then have i: "i < length ms" "match_key (request_path (ms ! i)) = match_key ?c"
        using inv acc by (auto simp: upsert_inv_def)
      let ?ms = "ms[i := (ms ! i)\<lparr>final_path := ?t\<rparr>]"
      have new: "upsert_mapping u root raws acc = (index, ?ms)"
        using False acc Some i by (simp add: upsert_mapping_def Let_def)
      have keys: "request_keys ?ms = request_keys ms" using i(1) by (simp add: map_update list_update_same_conv)
      have "mapping_ok ((ms ! i)\<lparr>final_path := ?t\<rparr>)"
        using inv acc i safe False by (auto simp: upsert_inv_def mapping_ok_def list_all_length eq_ignore_case_key)
      then have "list_all mapping_ok ?ms" using inv acc i
        by (auto simp: upsert_inv_def list_all_length nth_list_update)
      then show ?thesis using inv acc keys unfolding new upsert_inv_def by simp
    qed
  qed
qed

lemma upsert_all_inv:
  "upsert_inv acc \<Longrightarrow> upsert_inv (foldl (\<lambda>acc raws. upsert_mapping u root raws acc) acc pairs)"
  by (induction pairs arbitrary: acc) (simp_all add: upsert_mapping_inv)

definition mappings_ok :: "path_mapping list \<Rightarrow> bool" where
  "mappings_ok ms \<longleftrightarrow> distinct (request_keys ms) \<and> list_all mapping_ok ms
     \<and> list_all (\<lambda>m. chain_ends (map_of (target_by_request ms)) MAX_PATH_MAPPING_DEPTH (match_key (request_path m))) ms"

lemma filter_valid_mappings_ok:
  assumes "\<And>ks. set (key_order ks) = set ks" and "distinct (request_keys ms)" and "list_all mapping_ok ms"
  shows "mappings_ok (filter_valid_path_mapping_chains key_order ms)"
proof -
  let ?f = "filter_valid_path_mapping_chains key_order ms"
  have "list_all (\<lambda>m. chain_ends (map_of (target_by_request ?f)) MAX_PATH_MAPPING_DEPTH (match_key (request_path m))) ?f"
    using filter_valid_chains_end [OF assms(1)] by (simp add: list_all_iff)
  moreover have "distinct (request_keys ?f)" "list_all mapping_ok ?f"
    using assms(2,3) unfolding filter_valid_chains_filter [OF assms(1)] list_all_iff
    by (simp_all add: distinct_map_filter)
  ultimately show ?thesis by (simp add: mappings_ok_def)
qed

section \<open>Parsed profiles\<close>

definition profile_ok :: "i32 \<Rightarrow> user_profile \<Rightarrow> bool" where
  "profile_ok user_id p \<longleftrightarrow>
     list_all (rule_path_ok user_id) (allowed_real_paths p)
     \<and> list_all (rule_path_ok user_id) (excluded_real_paths p)
     \<and> list_all (marked_path_ok user_id) (sandboxed_paths p)
     \<and> list_all (marked_path_ok user_id) (read_only_paths p)
     \<and> mappings_ok (path_mappings p)"

lemma parse_user_profile_ok:
  assumes "\<And>ks. set (key_order ks) = set ks"
  shows "profile_ok user_id (parse_user_profile key_order user_id user_obj)"
proof -
  let ?root = "storage_user_root_for_user user_id"
  define p where "p = parse_real_path_sections user_id user_obj"
  let ?ms = "parse_mappings_section (map_of user_obj ''path_mappings'') user_id ?root"
  have rules: "profile_rules_ok user_id p" unfolding p_def parse_real_path_sections_def Let_def
    by (intro parse_sections_ok) (simp add: profile_rules_ok_def empty_user_profile_def)
  then have marked: "list_all (marked_path_ok user_id) (parse_sandboxed_paths v ?root (sandboxed_paths p))"
    "list_all (marked_path_ok user_id) (parse_read_only_paths v ?root (read_only_paths p))" for v
    by (auto simp: profile_rules_ok_def intro: parse_marked_ok)
  have "upsert_inv (([], []) :: (bytes \<times> nat) list \<times> path_mapping list)" by (simp add: upsert_inv_def)
  then have "distinct (request_keys ?ms)" "list_all mapping_ok ?ms"
    using upsert_all_inv [of "([], [])"]
    by (auto simp: parse_mappings_section_def upsert_inv_def split: option.splits)
  from filter_valid_mappings_ok [OF assms this]
  have "mappings_ok (filter_valid_path_mapping_chains key_order (filter_valid_path_mapping_chains key_order ?ms))"
    by (intro filter_valid_mappings_ok assms) (auto simp: mappings_ok_def)
  moreover have "list_all (marked_path_ok user_id)
      (remove_excluded_read_only_paths ex (parse_read_only_paths v ?root (read_only_paths p)))" for ex v
    using marked(2) [of v] remove_excluded_subset [of ex] unfolding list_all_iff by blast
  moreover have "parse_user_profile key_order user_id user_obj = p
      \<lparr>sandboxed_paths := parse_sandboxed_paths (map_of user_obj ''sandboxed_paths'') ?root (sandboxed_paths p),
       read_only_paths := remove_excluded_read_only_paths (excluded_real_paths p)
         (parse_read_only_paths (map_of user_obj ''read_only_paths'') ?root (read_only_paths p)),
       path_mappings := filter_valid_path_mapping_chains key_order (filter_valid_path_mapping_chains key_order ?ms)\<rparr>"
    unfolding p_def parse_user_profile_def Let_def by simp
  ultimately show ?thesis using rules marked(1) unfolding profile_ok_def profile_rules_ok_def by simp
qed

text \<open>An application's profiles: one well-formed profile per nonnegative user id.\<close>

definition app_ok :: "app_profile \<Rightarrow> bool" where
  "app_ok app \<longleftrightarrow> app \<noteq> [] \<and> distinct (keys_of app) \<and> list_all (\<lambda>(u, p). 0 \<le> u \<and> profile_ok u p) app"

lemma try_parse_user_id_nonneg: "try_parse_user_id v = Some u \<Longrightarrow> 0 \<le> u"
  by (auto simp: try_parse_user_id_def split: if_splits option.splits)

lemma set_update_subset: "set (AList.update k v m) \<subseteq> insert (k, v) (set m)"
  by (induction m) auto

lemma parse_users_ok:
  assumes "\<And>ks. set (key_order ks) = set ks"
  shows "parse_users key_order users = [] \<or> app_ok (parse_users key_order users)"
proof -
  let ?P = "\<lambda>app. distinct (keys_of app) \<and> list_all (\<lambda>(u, p). 0 \<le> u \<and> profile_ok u p) app"
  have "?P (parse_users key_order users)"
    unfolding parse_users_def
  proof (rule foldl_inv)
    fix app and x :: "bytes \<times> json"
    assume inv: "?P app"
    have upd: "?P (AList.update u (parse_user_profile key_order u obj) app)" if "0 \<le> u" for u obj
      using inv that parse_user_profile_ok [OF assms] set_update_subset
      by (fastforce simp: list_all_iff distinct_update)
    show "?P (case x of (user_key, user_value) \<Rightarrow>
        (case try_parse_user_id user_key of None \<Rightarrow> app
         | Some user_id \<Rightarrow> (case as_object user_value of None \<Rightarrow> app
             | Some user_obj \<Rightarrow> AList.update user_id (parse_user_profile key_order user_id user_obj) app)))"
      using inv upd try_parse_user_id_nonneg by (auto split: prod.split option.split)
  qed simp
  then show ?thesis by (auto simp: app_ok_def)
qed

text \<open>
  (C28) Whatever a user's section of a configuration file contains, the parsed profile is well formed:
  every allowed and excluded path is in normal form, free of dot segments and strictly inside that
  user's shared storage, sandbox and read-only rules are such paths up to a leading exclusion mark,
  and the mappings have pairwise different requests (ignoring case), never start at an application's
  private root or at an unsafe path, never map a path to itself, and form no chain of more than ten
  steps. Malformed entries cannot break this: they are skipped one by one.
\<close>

theorem parsed_profile_wellformed:
  assumes "\<And>ks. set (key_order ks) = set ks"
  shows "(let p = parse_user_profile key_order user_id user_obj
    in list_all (rule_path_ok user_id) (allowed_real_paths p)
       \<and> list_all (rule_path_ok user_id) (excluded_real_paths p)
       \<and> list_all (marked_path_ok user_id) (sandboxed_paths p)
       \<and> list_all (marked_path_ok user_id) (read_only_paths p)
       \<and> mappings_ok (path_mappings p))"
  using parse_user_profile_ok [OF assms] by (simp add: profile_ok_def Let_def)

definition demo_user_obj :: "(bytes \<times> json) list" where
  "demo_user_obj =
     [(''allowed_real_paths'', JArray [JString ''DCIM/'', JString ''../x'', JString ''!Download/tmp'']),
      (''path_mappings'', JObject [(''Pictures'', JString ''Download/p'')])]"

theorem parsed_profile_wellformed_witness:
  "list_all (rule_path_ok 0) (allowed_real_paths (parse_user_profile (\<lambda>ks. ks) 0 demo_user_obj))
   \<and> mappings_ok (path_mappings (parse_user_profile (\<lambda>ks. ks) 0 demo_user_obj))"
proof -
  have order: "\<And>ks :: bytes list. set ks = set ks" by simp
  from parsed_profile_wellformed [of "\<lambda>ks. ks" 0 demo_user_obj, OF order] show ?thesis by (simp add: Let_def)
qed

end
