(* ===== verification/Fingerprint.thy ===== *)
theory Fingerprint
  imports Settings
begin

text \<open>
  Model of \<^verbatim>\<open>src/config/fingerprint.rs\<close>: the 64-bit FNV hash over the file metadata of the
  configuration directory by which a reload decides whether anything changed, and the list of
  configured packages it collects on the way. Arithmetic is on 64-bit words, so the wrapping
  multiplication is the word product. What \<^verbatim>\<open>stat\<close> and \<^verbatim>\<open>read_dir\<close> report is an
  input; \<^verbatim>\<open>read_dir\<close> delivers names in no particular order. (The marker files of
  \<^verbatim>\<open>should_log_config_summary_once\<close> only control logging and are left out.)
\<close>

section \<open>Model\<close>

definition FNV_OFFSET_BASIS :: "64 word" where
  "FNV_OFFSET_BASIS = 1469598103934665603"

definition FNV_PRIME :: "64 word" where
  "FNV_PRIME = 1099511628211"

definition fnv_byte :: "64 word \<Rightarrow> char \<Rightarrow> 64 word" where
  "fnv_byte hash b = (hash XOR word_of_nat (of_char b)) * FNV_PRIME"

definition fnv_update :: "64 word \<Rightarrow> bytes \<Rightarrow> 64 word" where
  "fnv_update hash bs = foldl fnv_byte hash bs"

definition fnv_update_str :: "64 word \<Rightarrow> bytes \<Rightarrow> 64 word" where
  "fnv_update_str hash value = fnv_update hash value"

definition to_le_bytes :: "64 word \<Rightarrow> bytes" where
  "to_le_bytes v = map (\<lambda>i. char_of (unat (drop_bit (8 * i) v) mod 256)) [0, 1, 2, 3, 4, 5, 6, 7]"

definition fnv_update_u64 :: "64 word \<Rightarrow> 64 word \<Rightarrow> 64 word" where
  "fnv_update_u64 hash value = fnv_update hash (to_le_bytes value)"

record file_stat =
  st_dev :: "64 word"
  st_ino :: "64 word"
  st_mtime :: "64 word"
  st_mtime_nsec :: "64 word"
  st_size :: "64 word"

definition add_file_stat :: "(bytes \<Rightarrow> file_stat option) \<Rightarrow> 64 word \<Rightarrow> bytes \<Rightarrow> 64 word" where
  "add_file_stat stat_of hash path =
     (case (if contains_char path (CHR 0x00) then None else stat_of path) of
        None \<Rightarrow> fnv_update_u64 (fnv_update_str hash path) 0
      | Some st \<Rightarrow>
          fnv_update_u64 (fnv_update_u64 (fnv_update_u64 (fnv_update_u64 (fnv_update_u64
            (fnv_update_str hash path) (st_dev st)) (st_ino st)) (st_mtime st)) (st_mtime_nsec st)) (st_size st))"

definition GLOBAL_CONFIG_FILE :: bytes where
  "GLOBAL_CONFIG_FILE = ''global.json''"

definition MONITOR_FILTERS_CONFIG_FILE :: bytes where
  "MONITOR_FILTERS_CONFIG_FILE = ''file_monitor_filters.json''"

definition APPS_CONFIG_DIR :: bytes where
  "APPS_CONFIG_DIR = ''apps''"

record config_fingerprint =
  fp_hash :: "64 word"
  fp_app_packages :: "bytes list"

definition config_file_entries :: "bytes \<Rightarrow> bytes list \<Rightarrow> (bytes \<times> bytes option) list" where
  "config_file_entries apps_dir names =
     sort_key fst (map (\<lambda>name. (path_join apps_dir name,
         (case strip_suffix name ''.json'' of
            Some value \<Rightarrow> if value \<noteq> [] then Some value else None
          | None \<Rightarrow> None)))
       (filter (\<lambda>name. ends_with_str name ''.json'') names))"

definition compute_config_fingerprint_snapshot ::
  "(bytes \<Rightarrow> file_stat option) \<Rightarrow> (bytes \<Rightarrow> bytes list option) \<Rightarrow> bytes \<Rightarrow> config_fingerprint" where
  "compute_config_fingerprint_snapshot stat_of read_dir dir =
     (let hash = fnv_update_str FNV_OFFSET_BASIS ''srx_config_v2'';
          hash = add_file_stat stat_of hash (path_join dir GLOBAL_CONFIG_FILE);
          hash = add_file_stat stat_of hash (path_join dir MONITOR_FILTERS_CONFIG_FILE);
          apps_dir = path_join dir APPS_CONFIG_DIR
      in case read_dir apps_dir of
           None \<Rightarrow> \<lparr>fp_hash = fnv_update_str hash ''apps_dir_missing'', fp_app_packages = []\<rparr>
         | Some names \<Rightarrow>
             (let config_files = config_file_entries apps_dir names;
                  hash = fnv_update_u64 hash (word_of_nat (length config_files))
              in \<lparr>fp_hash = foldl (\<lambda>h (path, _). add_file_stat stat_of h path) hash config_files,
                  fp_app_packages = List.map_filter snd config_files\<rparr>))"

section \<open>Sensitivity of the hash\<close>

text \<open>The FNV prime is odd, so multiplication by it can be undone modulo two to the 64.\<close>

definition FNV_PRIME_INV :: "64 word" where
  "FNV_PRIME_INV = 14886173955864302971"

lemma fnv_prime_inverse: "FNV_PRIME * FNV_PRIME_INV = 1"
  by (simp add: FNV_PRIME_def FNV_PRIME_INV_def)

lemma fnv_byte_inj: "fnv_byte h b = fnv_byte h' b' \<longleftrightarrow> h XOR word_of_nat (of_char b) = h' XOR word_of_nat (of_char b')"
proof -
  have "x = y" if "x * FNV_PRIME = y * FNV_PRIME" for x y :: "64 word"
  proof -
    have "x * (FNV_PRIME * FNV_PRIME_INV) = y * (FNV_PRIME * FNV_PRIME_INV)"
      using arg_cong [OF that, of "\<lambda>z. z * FNV_PRIME_INV"] by (simp only: mult.assoc)
    then show ?thesis by (simp only: fnv_prime_inverse mult_1_right)
  qed
  from this [of "h XOR word_of_nat (of_char b)" "h' XOR word_of_nat (of_char b')"]
  show ?thesis by (auto simp: fnv_byte_def)
qed

lemma xor_right_inj:
  fixes x y z :: "64 word"
  assumes "x XOR z = y XOR z"
  shows "x = y"
proof -
  have undo: "(a XOR z) XOR z = a" for a :: "64 word"
    by (rule bit_word_eqI) (auto simp: bit_xor_iff)
  have "x = (x XOR z) XOR z" by (rule undo [symmetric])
  also have "\<dots> = (y XOR z) XOR z" by (simp only: assms)
  also have "\<dots> = y" by (rule undo)
  finally show ?thesis .
qed

lemma xor_cancel: "x XOR z = y XOR z \<longleftrightarrow> x = y" "z XOR x = z XOR y \<longleftrightarrow> x = y" for x y z :: "64 word"
proof -
  show "x XOR z = y XOR z \<longleftrightarrow> x = y" using xor_right_inj by blast
  then show "z XOR x = z XOR y \<longleftrightarrow> x = y" by (simp only: xor.commute [of z])
qed

lemma of_char_word_inj: "(word_of_nat (of_char b) :: 64 word) = word_of_nat (of_char c) \<longleftrightarrow> b = c"
proof
  assume eq: "(word_of_nat (of_char b) :: 64 word) = word_of_nat (of_char c)"
  have "(of_char d :: nat) < 2 ^ 64" for d
  proof -
    have "(of_char d :: nat) < 256" by (rule nat_of_char_less_256)
    also have "(256 :: nat) \<le> 2 ^ 64" by simp
    finally show ?thesis .
  qed
  then have "(of_char b :: nat) = of_char c"
    using arg_cong [OF eq, of unat] by (simp add: unat_of_nat take_bit_nat_eq_self)
  then show "b = c" by (simp add: of_char_eq_iff)
qed simp

lemma fnv_update_inj: "fnv_update h bs = fnv_update h' bs \<longleftrightarrow> h = h'"
  by (induction bs arbitrary: h h') (simp_all add: fnv_update_def fnv_byte_inj xor_cancel)

text \<open>
  The configuration hash never misses a change of a single byte: if the hashed byte streams of two
  directory states differ in exactly one position, their 64-bit hashes differ, whatever precedes or
  follows. (Absorbing a byte is a permutation of the 64-bit words because the FNV prime is odd.)
\<close>

theorem fnv_detects_byte_change:
  assumes "b \<noteq> c"
  shows "fnv_update hash (before @ b # after) \<noteq> fnv_update hash (before @ c # after)"
proof -
  have split: "fnv_update hash (before @ x # after) = fnv_update (fnv_byte (fnv_update hash before) x) after" for x
    by (simp add: fnv_update_def)
  show ?thesis using assms by (simp add: split fnv_update_inj fnv_byte_inj xor_cancel of_char_word_inj)
qed

theorem fnv_detects_byte_change_witness:
  "CHR ''a'' \<noteq> CHR ''b'' \<and> fnv_update FNV_OFFSET_BASIS ''xay'' \<noteq> fnv_update FNV_OFFSET_BASIS ''xby''"
proof -
  have "CHR ''a'' \<noteq> CHR ''b''" by simp
  from fnv_detects_byte_change [OF this, of FNV_OFFSET_BASIS "''x''" "''y''"] show ?thesis by simp
qed

section \<open>Independence of the directory order\<close>

lemma path_join_inj:
  assumes "dir \<noteq> []" and "a \<noteq> []" "slash \<notin> set a" and "b \<noteq> []" "slash \<notin> set b"
  shows "path_join dir a = path_join dir b \<longleftrightarrow> a = b"
proof -
  have join: "path_join dir x = (if ends_with_str dir ''/'' then dir else dir @ ''/'') @ x"
    if "x \<noteq> []" "slash \<notin> set x" for x
    using assms(1) that by (cases x) (auto simp: path_join_def starts_with_str_def)
  show ?thesis by (simp only: join [OF assms(2,3)] join [OF assms(4,5)] same_append_eq)
qed

text \<open>
  The fingerprint and the package list do not depend on the order in which the directory is
  listed: two listings with the same file names give the same result, so a reload is never
  triggered by readdir order alone.
\<close>

theorem fingerprint_order_independent:
  assumes "mset names = mset names'" and "distinct names" and "\<And>n. n \<in> set names \<Longrightarrow> n \<noteq> [] \<and> slash \<notin> set n"
    and "dir \<noteq> []"
  shows "compute_config_fingerprint_snapshot stat_of (\<lambda>_. Some names) dir
    = compute_config_fingerprint_snapshot stat_of (\<lambda>_. Some names') dir"
proof -
  let ?apps = "path_join dir APPS_CONFIG_DIR"
  let ?e = "\<lambda>name. (path_join ?apps name, case strip_suffix name ''.json'' of
      Some value \<Rightarrow> if value \<noteq> [] then Some value else None | None \<Rightarrow> None)"
  let ?l = "\<lambda>ns. map ?e (filter (\<lambda>name. ends_with_str name ''.json'') ns)"
  have apps: "?apps \<noteq> []" using assms(4) by (simp add: path_join_def APPS_CONFIG_DIR_def)
  have "inj_on fst (set (?l names))"
    using assms(3) path_join_inj [OF apps] by (auto simp: inj_on_def)
  moreover have "mset (?l names) = mset (sort_key fst (?l names'))"
    using assms(1) by (simp add: mset_filter)
  ultimately have "sort_key fst (?l names) = sort_key fst (?l names')"
    by (intro sort_key_inj_key_eq) simp_all
  then have "config_file_entries ?apps names = config_file_entries ?apps names'"
    by (simp only: config_file_entries_def)
  then show ?thesis by (simp only: compute_config_fingerprint_snapshot_def Let_def option.case)
qed

theorem fingerprint_order_independent_witness:
  "compute_config_fingerprint_snapshot (\<lambda>_. None) (\<lambda>_. Some [''b.json'', ''a.json'']) ''/c''
   = compute_config_fingerprint_snapshot (\<lambda>_. None) (\<lambda>_. Some [''a.json'', ''b.json'']) ''/c''"
  by (rule fingerprint_order_independent) auto

end
