(* ===== verification/Source.thy ===== *)
theory Source
  imports Ingest Fingerprint
begin

text \<open>
  Model of \<^verbatim>\<open>src/config/source.rs\<close>: loading the configuration directory into the settings hub
  and reloading it. What the operating system reports is an input, the record \<open>config_env\<close>: the
  outcome of every metadata call and of every file read, separately for the first attempt and for
  the retry 50 ms later, so a file that is being rewritten can be seen truncated first and complete
  afterwards. Nothing relates the answers to one another. The operations that take the hub's lock
  more than once are split at the lock boundaries, and \<open>hub_step\<close> interleaves them. Log output
  and the flag \<^verbatim>\<open>should_log_summary\<close>, which only selects log lines, are left out.
\<close>

section \<open>Model: reading files\<close>

definition MAX_CONFIG_FILE_BYTES :: nat where
  "MAX_CONFIG_FILE_BYTES = 1024 * 1024"

text \<open>
  A file as \<^verbatim>\<open>read_file\<close> meets it: missing, metadata not readable, or a length together with the
  content (\<^const>\<open>None\<close> when opening or reading fails or the bytes are not UTF-8).
\<close>

datatype file_view = NotFound | StatFailed | FileView nat "bytes option"

record config_env =
  env_json :: "bytes \<Rightarrow> json option"
  env_lower :: "bytes \<Rightarrow> bytes"
  env_order :: "bytes list \<Rightarrow> bytes list"
  env_exists :: "nat \<Rightarrow> bytes \<Rightarrow> bool"
  env_file :: "nat \<Rightarrow> bytes \<Rightarrow> file_view"
  env_stat :: "bytes \<Rightarrow> file_stat option"
  env_dir :: "bytes \<Rightarrow> bytes list option"

text \<open>The result is the content with the two out-parameters \<^verbatim>\<open>is_too_large\<close> and \<^verbatim>\<open>read_failed\<close>.\<close>

fun read_file :: "file_view \<Rightarrow> bytes \<times> bool \<times> bool" where
  "read_file NotFound = ([], False, False)"
| "read_file StatFailed = ([], False, True)"
| "read_file (FileView len content) =
     (if MAX_CONFIG_FILE_BYTES < len then ([], True, False)
      else (case content of None \<Rightarrow> ([], False, True) | Some c \<Rightarrow> (c, False, False)))"

definition attempt :: "bool \<Rightarrow> nat" where
  "attempt allow_mid_write_retry = (if allow_mid_write_retry then 0 else 1)"

section \<open>Model: the three kinds of configuration file\<close>

function load_global_config_inner :: "config_env \<Rightarrow> settings_state \<Rightarrow> bool \<Rightarrow> bool \<times> settings_state" where
  "load_global_config_inner env st allow_mid_write_retry =
     (let global_path = path_join (config_dir st) GLOBAL_CONFIG_FILE;
          (content, is_too_large, read_failed) = read_file (env_file env (attempt allow_mid_write_retry) global_path)
      in if is_too_large then (False, st)
         else if read_failed then (False, st)
         else if content = [] then
           (let is_existing = env_exists env (attempt allow_mid_write_retry) global_path
            in if is_existing \<and> allow_mid_write_retry then load_global_config_inner env st False
               else (True, st\<lparr>is_file_monitor_enabled := False, is_fuse_fix_enabled := True,
                             storage_backend := Auto, is_verbose_logging_enabled := False\<rparr>))
         else parse_global_config (env_json env) content st)"
  by auto
termination
  by (relation "measure (\<lambda>(env, st, retry). if retry then 1 else 0)") auto

declare load_global_config_inner.simps [simp del]

definition load_global_config :: "config_env \<Rightarrow> settings_state \<Rightarrow> bool \<times> settings_state" where
  "load_global_config env st = load_global_config_inner env st True"

definition load_monitor_filter_config :: "config_env \<Rightarrow> settings_state \<Rightarrow> bool \<times> settings_state" where
  "load_monitor_filter_config env st =
     (let filter_path = path_join (config_dir st) MONITOR_FILTERS_CONFIG_FILE;
          (content, is_too_large, read_failed) = read_file (env_file env 0 filter_path)
      in if is_too_large then (False, st)
         else if read_failed then (False, st)
         else if content = [] then (True, st)
         else parse_monitor_filter_config (env_json env) (env_lower env) content st)"

definition mark_invalid :: "bytes \<Rightarrow> settings_state \<Rightarrow> settings_state" where
  "mark_invalid package_name st = st\<lparr>invalid_packages := List.insert package_name (invalid_packages st)\<rparr>"

definition unmark_invalid :: "bytes \<Rightarrow> settings_state \<Rightarrow> settings_state" where
  "unmark_invalid package_name st = st\<lparr>invalid_packages := removeAll package_name (invalid_packages st)\<rparr>"

definition app_config_path :: "bytes \<Rightarrow> bytes \<Rightarrow> bytes" where
  "app_config_path dir package_name = path_join (path_join dir APPS_CONFIG_DIR) (package_name @ ''.json'')"

function load_app_config_inner ::
  "config_env \<Rightarrow> settings_state \<Rightarrow> bytes \<Rightarrow> bool \<Rightarrow> bool \<times> settings_state" where
  "load_app_config_inner env st package_name allow_mid_write_retry =
     (if package_name = SELF_PACKAGE_NAME then (False, st)
      else let app_path = app_config_path (config_dir st) package_name;
               is_existing = env_exists env (attempt allow_mid_write_retry) app_path;
               (content, is_too_large, read_failed) = read_file (env_file env (attempt allow_mid_write_retry) app_path)
        in if content = [] then
             (if is_too_large then (False, mark_invalid package_name st)
              else if is_existing \<or> read_failed then
                (if allow_mid_write_retry then load_app_config_inner env st package_name False
                 else (False, if is_existing then mark_invalid package_name st else st))
              else (False, st))
           else (let (is_ok, st') = parse_app_config (env_json env) (env_order env) package_name content st
             in if \<not> is_ok \<and> is_existing then
                  (if allow_mid_write_retry then load_app_config_inner env st' package_name False
                   else (is_ok, mark_invalid package_name st'))
                else (is_ok, unmark_invalid package_name st')))"
  by auto
termination
  by (relation "measure (\<lambda>(env, st, pkg, retry). if retry then 1 else 0)") auto

declare load_app_config_inner.simps [simp del]

definition load_app_config :: "config_env \<Rightarrow> settings_state \<Rightarrow> bytes \<Rightarrow> bool \<times> settings_state" where
  "load_app_config env st package_name = load_app_config_inner env st package_name True"

definition load_app_configs :: "config_env \<Rightarrow> settings_state \<Rightarrow> bytes list \<Rightarrow> settings_state" where
  "load_app_configs env st packages = foldl (\<lambda>st package_name. snd (load_app_config env st package_name)) st packages"

section \<open>Model: init and reload\<close>

text \<open>
  \<^verbatim>\<open>init\<close> takes the lock twice: to store the directory and look at \<^verbatim>\<open>is_loaded\<close>, and to install
  the state it has loaded in between without the lock.
\<close>

definition init_begin :: "bytes option \<Rightarrow> settings_hub \<Rightarrow> settings_hub" where
  "init_begin dir hub =
     (case dir of
        Some d \<Rightarrow> if d \<noteq> [] then hub\<lparr>hub_state := (hub_state hub)\<lparr>config_dir := d\<rparr>\<rparr> else hub
      | None \<Rightarrow> hub)"

definition init_load :: "config_env \<Rightarrow> bytes \<Rightarrow> settings_state" where
  "init_load env dir =
     (let st = SettingsState_new\<lparr>config_dir := dir\<rparr>;
          snapshot = compute_config_fingerprint_snapshot (env_stat env) (env_dir env) (config_dir st);
          st = st\<lparr>settings_fingerprint := fp_hash snapshot\<rparr>;
          (_, st) = load_global_config env st;
          (_, st) = load_monitor_filter_config env st;
          st = load_app_configs env st (fp_app_packages snapshot)
      in st\<lparr>settings_loaded := True\<rparr>)"

definition init_commit :: "settings_state \<Rightarrow> settings_hub \<Rightarrow> settings_hub" where
  "init_commit loaded hub =
     (if settings_loaded (hub_state hub) then hub else bump_config_version (hub\<lparr>hub_state := loaded\<rparr>))"

definition init :: "config_env \<Rightarrow> bytes option \<Rightarrow> settings_hub \<Rightarrow> settings_hub" where
  "init env dir hub =
     (let hub = init_begin dir hub
      in if settings_loaded (hub_state hub) then hub
         else init_commit (init_load env (config_dir (hub_state hub))) hub)"

definition seed_loaded_state_from_current :: "settings_state \<Rightarrow> settings_state \<Rightarrow> settings_state" where
  "seed_loaded_state_from_current current loaded =
     (if \<not> settings_loaded current then loaded
      else loaded\<lparr>is_file_monitor_enabled := is_file_monitor_enabled current,
                  is_fuse_fix_enabled := is_fuse_fix_enabled current,
                  storage_backend := storage_backend current,
                  is_verbose_logging_enabled := is_verbose_logging_enabled current,
                  monitor_filters := monitor_filters current\<rparr>)"

text \<open>
  \<^verbatim>\<open>reload_from_dir\<close> takes the lock three times: for the flag and fingerprint it compares, for the
  switches it copies, and to install the result.
\<close>

definition reload_needed :: "bool \<Rightarrow> bool \<Rightarrow> 64 word \<Rightarrow> 64 word \<Rightarrow> bool" where
  "reload_needed force loaded last_fp fingerprint \<longleftrightarrow>
     force \<or> \<not> loaded \<or> fingerprint \<noteq> last_fp"

definition reload_load :: "config_env \<Rightarrow> bytes \<Rightarrow> config_fingerprint \<Rightarrow> settings_state \<Rightarrow> settings_state" where
  "reload_load env dir snapshot current =
     (let st = seed_loaded_state_from_current current (SettingsState_new\<lparr>config_dir := dir\<rparr>);
          (_, st) = load_global_config env st;
          (_, st) = load_monitor_filter_config env st;
          st = load_app_configs env st (fp_app_packages snapshot)
      in st\<lparr>settings_loaded := True, settings_fingerprint := fp_hash snapshot\<rparr>)"

definition reload_commit :: "settings_state \<Rightarrow> settings_hub \<Rightarrow> settings_hub" where
  "reload_commit loaded hub =
     (if config_dir (hub_state hub) \<noteq> config_dir loaded then hub
      else bump_config_version (hub\<lparr>hub_state := loaded\<rparr>))"

definition reload_from_dir :: "config_env \<Rightarrow> bytes \<Rightarrow> bool \<Rightarrow> settings_hub \<Rightarrow> settings_hub" where
  "reload_from_dir env dir force hub =
     (let st = hub_state hub;
          snapshot = compute_config_fingerprint_snapshot (env_stat env) (env_dir env) dir
      in if \<not> reload_needed force (settings_loaded st) (settings_fingerprint st) (fp_hash snapshot) then hub
         else reload_commit (reload_load env dir snapshot st) hub)"

definition reload_if_changed :: "config_env \<Rightarrow> settings_hub \<Rightarrow> settings_hub" where
  "reload_if_changed env hub = reload_from_dir env (config_dir (hub_state hub)) False hub"

definition reload_force :: "config_env \<Rightarrow> settings_hub \<Rightarrow> settings_hub" where
  "reload_force env hub = reload_from_dir env (config_dir (hub_state hub)) True hub"

text \<open>
  Several threads call these operations. A job is a call between two of its critical sections: it
  carries what the call has copied out of the hub so far.
\<close>

datatype hub_job =
  InitLoad bytes
| InitCommit settings_state
| ReloadCheck bytes bool
| ReloadSeed bytes config_fingerprint
| ReloadCommit settings_state

definition env_ok :: "config_env \<Rightarrow> bool" where
  "env_ok env \<longleftrightarrow> (\<forall>ks. set (env_order env ks) = set ks)"

inductive hub_step :: "settings_hub \<times> hub_job list \<Rightarrow> settings_hub \<times> hub_job list \<Rightarrow> bool" where
  begin_loaded: "settings_loaded (hub_state hub) \<Longrightarrow> hub_step (hub, jobs) (init_begin dir hub, jobs)"
| begin_load: "\<not> settings_loaded (hub_state hub) \<Longrightarrow>
    hub_step (hub, jobs) (init_begin dir hub, InitLoad (config_dir (hub_state (init_begin dir hub))) # jobs)"
| init_loaded: "env_ok env \<Longrightarrow> hub_step (hub, js @ InitLoad dir # js') (hub, js @ InitCommit (init_load env dir) # js')"
| init_done: "hub_step (hub, js @ InitCommit loaded # js') (init_commit loaded hub, js @ js')"
| reload_call: "hub_step (hub, jobs) (hub, ReloadCheck (config_dir (hub_state hub)) force # jobs)"
| reload_checked: "env_ok env \<Longrightarrow> snapshot = compute_config_fingerprint_snapshot (env_stat env) (env_dir env) dir \<Longrightarrow>
    reload_needed force (settings_loaded (hub_state hub)) (settings_fingerprint (hub_state hub)) (fp_hash snapshot) \<Longrightarrow>
    hub_step (hub, js @ ReloadCheck dir force # js') (hub, js @ ReloadSeed dir snapshot # js')"
| reload_skip: "env_ok env \<Longrightarrow> snapshot = compute_config_fingerprint_snapshot (env_stat env) (env_dir env) dir \<Longrightarrow>
    \<not> reload_needed force (settings_loaded (hub_state hub)) (settings_fingerprint (hub_state hub)) (fp_hash snapshot) \<Longrightarrow>
    hub_step (hub, js @ ReloadCheck dir force # js') (hub, js @ js')"
| reload_loaded: "env_ok env \<Longrightarrow>
    hub_step (hub, js @ ReloadSeed dir snapshot # js') (hub, js @ ReloadCommit (reload_load env dir snapshot (hub_state hub)) # js')"
| reload_done: "hub_step (hub, js @ ReloadCommit loaded # js') (reload_commit loaded hub, js @ js')"

inductive hub_reachable :: "settings_hub \<times> hub_job list \<Rightarrow> bool" where
  start: "hub_reachable (SettingsHub_new, [])"
| step: "hub_reachable s \<Longrightarrow> hub_step s s' \<Longrightarrow> hub_reachable s'"

section \<open>What loading changes\<close>

lemma parse_global_frame:
  assumes "parse_global_config jp c st = (ok, st')"
  shows "config_dir st' = config_dir st" "apps st' = apps st" "invalid_packages st' = invalid_packages st"
    "monitor_filters st' = monitor_filters st" "settings_loaded st' = settings_loaded st" "\<not> ok \<Longrightarrow> st' = st"
  using assms by (auto simp: parse_global_config_def split: option.splits)

lemmas global_first = load_global_config_inner.simps [of _ _ True]
lemmas global_final = load_global_config_inner.simps [of _ _ False]

lemma load_global_final_frame:
  assumes "load_global_config_inner env st False = (ok, st')"
  shows "config_dir st' = config_dir st \<and> apps st' = apps st \<and> invalid_packages st' = invalid_packages st
     \<and> monitor_filters st' = monitor_filters st \<and> settings_loaded st' = settings_loaded st \<and> (\<not> ok \<longrightarrow> st' = st)"
  using assms parse_global_frame by (auto simp: global_final Let_def split: if_splits prod.splits)

lemma load_global_inner_frame:
  assumes "load_global_config_inner env st True = (ok, st')"
  shows "config_dir st' = config_dir st \<and> apps st' = apps st \<and> invalid_packages st' = invalid_packages st
     \<and> monitor_filters st' = monitor_filters st \<and> settings_loaded st' = settings_loaded st \<and> (\<not> ok \<longrightarrow> st' = st)"
  using assms parse_global_frame load_global_final_frame [of env st ok st']
  by (auto simp: global_first Let_def split: if_splits prod.splits)

lemma load_global_frame:
  assumes "load_global_config env st = (ok, st')"
  shows "config_dir st' = config_dir st" "apps st' = apps st" "invalid_packages st' = invalid_packages st"
    "monitor_filters st' = monitor_filters st" "settings_loaded st' = settings_loaded st" "\<not> ok \<Longrightarrow> st' = st"
  using assms load_global_inner_frame [of env st ok st'] by (simp_all add: load_global_config_def)

lemma load_filter_frame:
  assumes "load_monitor_filter_config env st = (ok, st')"
  shows "st' = st\<lparr>monitor_filters := monitor_filters st'\<rparr>" "\<not> ok \<Longrightarrow> st' = st"
  using assms by (auto simp: load_monitor_filter_config_def parse_monitor_filter_config_def Let_def
      split: prod.splits if_splits option.splits)

section \<open>Loading applications\<close>

text \<open>
  What loading one application can do: nothing, report the package as invalid, or store a
  well-formed profile for it.
\<close>

definition stores_app :: "bytes \<Rightarrow> settings_state \<Rightarrow> settings_state \<Rightarrow> bool" where
  "stores_app pkg st st' \<longleftrightarrow> (\<exists>app. app_ok app \<and> st' = unmark_invalid pkg (st\<lparr>apps := AList.update pkg app (apps st)\<rparr>))"

lemma parse_app_config_cases:
  assumes "env_ok env"
  shows "parse_app_config (env_json env) (env_order env) pkg c st = (False, st)
    \<or> (\<exists>app. app_ok app \<and> parse_app_config (env_json env) (env_order env) pkg c st
          = (True, st\<lparr>apps := AList.update pkg app (apps st)\<rparr>))"
  using parse_users_ok [of "env_order env"] assms
  by (auto simp: parse_app_config_def env_ok_def Let_def split: option.splits)

definition app_outcome :: "bytes \<Rightarrow> settings_state \<Rightarrow> bool \<times> settings_state \<Rightarrow> bool" where
  "app_outcome pkg st r \<longleftrightarrow>
     (if fst r then pkg \<noteq> SELF_PACKAGE_NAME \<and> stores_app pkg st (snd r)
      else snd r = st \<or> snd r = mark_invalid pkg st \<or> snd r = unmark_invalid pkg st)"

lemma app_outcome_simps [simp]:
  "app_outcome pkg st (False, st)" "app_outcome pkg st (False, mark_invalid pkg st)"
  "app_outcome pkg st (False, unmark_invalid pkg st)"
  "pkg \<noteq> SELF_PACKAGE_NAME \<Longrightarrow> app_ok app \<Longrightarrow>
     app_outcome pkg st (True, unmark_invalid pkg (st\<lparr>apps := AList.update pkg app (apps st)\<rparr>))"
  by (auto simp: app_outcome_def stores_app_def)

lemma load_app_outcome_step:
  assumes "env_ok env" and retry: "retry \<Longrightarrow> app_outcome pkg st (load_app_config_inner env st pkg False)"
  shows "app_outcome pkg st (load_app_config_inner env st pkg retry)"
proof -
  obtain c l f where rf: "read_file (env_file env (attempt retry) (app_config_path (config_dir st) pkg)) = (c, l, f)"
    by (metis prod_cases3)
  from parse_app_config_cases [OF assms(1), of pkg c st]
  consider (bad) "parse_app_config (env_json env) (env_order env) pkg c st = (False, st)"
    | (good) app where "app_ok app" "parse_app_config (env_json env) (env_order env) pkg c st
        = (True, st\<lparr>apps := AList.update pkg app (apps st)\<rparr>)" by blast
  then show ?thesis
  proof cases
    case bad
    then show ?thesis using retry
      by (subst load_app_config_inner.simps) (simp add: rf Let_def)
  next
    case good
    then show ?thesis using retry
      by (subst load_app_config_inner.simps) (simp add: rf Let_def)
  qed
qed

lemma load_app_outcome: "env_ok env \<Longrightarrow> app_outcome pkg st (load_app_config env st pkg)"
  unfolding load_app_config_def by (rule load_app_outcome_step, assumption, rule load_app_outcome_step) simp_all

text \<open>The applications of a settings state: distinct names, well-formed profiles, never the module's own package.\<close>

definition apps_ok :: "(bytes \<times> app_profile) list \<Rightarrow> bool" where
  "apps_ok as \<longleftrightarrow> distinct (keys_of as) \<and> SELF_PACKAGE_NAME \<notin> set (keys_of as) \<and> list_all (app_ok \<circ> snd) as"

lemma apps_ok_update: "apps_ok as \<Longrightarrow> app_ok app \<Longrightarrow> pkg \<noteq> SELF_PACKAGE_NAME \<Longrightarrow> apps_ok (AList.update pkg app as)"
  using set_update_subset [of pkg app as] keys_update [of pkg app as]
  by (fastforce simp: apps_ok_def list_all_iff distinct_update)

lemma load_app_ok: "env_ok env \<Longrightarrow> apps_ok (apps st) \<Longrightarrow> apps_ok (apps (snd (load_app_config env st pkg)))"
  using load_app_outcome [of env pkg st]
  by (auto simp: app_outcome_def stores_app_def mark_invalid_def unmark_invalid_def apps_ok_update split: if_splits)

lemma load_apps_ok: "env_ok env \<Longrightarrow> apps_ok (apps st) \<Longrightarrow> apps_ok (apps (load_app_configs env st pkgs))"
  unfolding load_app_configs_def by (rule foldl_inv) (simp_all add: load_app_ok)

lemma load_app_frame:
  assumes "env_ok env"
  shows "snd (load_app_config env st pkg) = st
    \<lparr>apps := apps (snd (load_app_config env st pkg)), invalid_packages := invalid_packages (snd (load_app_config env st pkg))\<rparr>"
  using load_app_outcome [OF assms, of pkg st]
  by (auto simp: app_outcome_def stores_app_def mark_invalid_def unmark_invalid_def split: if_splits)

lemma load_apps_frame:
  assumes "env_ok env"
  shows "load_app_configs env st pkgs = st
    \<lparr>apps := apps (load_app_configs env st pkgs), invalid_packages := invalid_packages (load_app_configs env st pkgs)\<rparr>"
  unfolding load_app_configs_def
proof (rule foldl_inv)
  fix st' pkg
  assume "st' = st\<lparr>apps := apps st', invalid_packages := invalid_packages st'\<rparr>"
  with load_app_frame [OF assms, of st' pkg]
  show "snd (load_app_config env st' pkg) = st\<lparr>apps := apps (snd (load_app_config env st' pkg)),
      invalid_packages := invalid_packages (snd (load_app_config env st' pkg))\<rparr>"
    by (metis (no_types, lifting) settings_state.surjective settings_state.update_convs(7,10))
qed simp

section \<open>The settings hub under interleaving\<close>

lemma init_load_ok:
  assumes "env_ok env"
  shows "apps_ok (apps (init_load env dir))" "settings_loaded (init_load env dir)" "config_dir (init_load env dir) = dir"
proof -
  let ?st = "SettingsState_new\<lparr>config_dir := dir,
    settings_fingerprint := fp_hash (compute_config_fingerprint_snapshot (env_stat env) (env_dir env) dir)\<rparr>"
  obtain ok g where g: "load_global_config env ?st = (ok, g)" by fastforce
  obtain ok' f where f: "load_monitor_filter_config env g = (ok', f)" by fastforce
  have base: "apps f = []" "config_dir f = dir"
    using load_global_frame [OF g] arg_cong [OF load_filter_frame(1) [OF f], of apps]
      arg_cong [OF load_filter_frame(1) [OF f], of config_dir] by (simp_all add: SettingsState_new_def)
  have "apps_ok (apps (load_app_configs env f pkgs))" for pkgs
    using load_apps_ok [OF assms, of f pkgs] base by (simp add: apps_ok_def)
  moreover have "config_dir (load_app_configs env f pkgs) = dir" for pkgs
    using arg_cong [OF load_apps_frame [OF assms, of f pkgs], of config_dir] base by simp
  ultimately show "apps_ok (apps (init_load env dir))" "settings_loaded (init_load env dir)"
    "config_dir (init_load env dir) = dir"
    using g f by (simp_all add: init_load_def Let_def)
qed

lemma seed_frame:
  "apps (seed_loaded_state_from_current c l) = apps l" "config_dir (seed_loaded_state_from_current c l) = config_dir l"
  "invalid_packages (seed_loaded_state_from_current c l) = invalid_packages l"
  by (simp_all add: seed_loaded_state_from_current_def)

lemma reload_load_ok:
  assumes "env_ok env"
  shows "apps_ok (apps (reload_load env dir snap cur))" "settings_loaded (reload_load env dir snap cur)"
    "config_dir (reload_load env dir snap cur) = dir"
proof -
  let ?st = "seed_loaded_state_from_current cur (SettingsState_new\<lparr>config_dir := dir\<rparr>)"
  obtain ok g where g: "load_global_config env ?st = (ok, g)" by fastforce
  obtain ok' f where f: "load_monitor_filter_config env g = (ok', f)" by fastforce
  have base: "apps f = []" "config_dir f = dir"
    using load_global_frame [OF g] arg_cong [OF load_filter_frame(1) [OF f], of apps]
      arg_cong [OF load_filter_frame(1) [OF f], of config_dir] by (simp_all add: SettingsState_new_def seed_frame)
  have "apps_ok (apps (load_app_configs env f pkgs))" for pkgs
    using load_apps_ok [OF assms, of f pkgs] base by (simp add: apps_ok_def)
  moreover have "config_dir (load_app_configs env f pkgs) = dir" for pkgs
    using arg_cong [OF load_apps_frame [OF assms, of f pkgs], of config_dir] base by simp
  ultimately show "apps_ok (apps (reload_load env dir snap cur))" "settings_loaded (reload_load env dir snap cur)"
    "config_dir (reload_load env dir snap cur) = dir"
    using g f by (simp_all add: reload_load_def Let_def)
qed

fun job_ok :: "hub_job \<Rightarrow> bool" where
  "job_ok (InitCommit loaded) \<longleftrightarrow> apps_ok (apps loaded) \<and> settings_loaded loaded"
| "job_ok (ReloadCommit loaded) \<longleftrightarrow> apps_ok (apps loaded) \<and> settings_loaded loaded"
| "job_ok _ \<longleftrightarrow> True"

definition hub_inv :: "settings_hub \<times> hub_job list \<Rightarrow> bool" where
  "hub_inv s \<longleftrightarrow> apps_ok (apps (hub_state (fst s))) \<and> list_all job_ok (snd s)"

lemmas hub_op_defs = init_begin_def init_commit_def reload_commit_def bump_config_version_def

lemma init_begin_frame:
  "hub_state (init_begin dir hub) = (hub_state hub)\<lparr>config_dir := config_dir (hub_state (init_begin dir hub))\<rparr>"
  "config_version (init_begin dir hub) = config_version hub"
  by (simp_all add: init_begin_def split: option.split)

lemma hub_step_inv: "hub_step s s' \<Longrightarrow> hub_inv s \<Longrightarrow> hub_inv s'"
proof (induction rule: hub_step.induct)
  case (begin_loaded hub jobs dir)
  then show ?case using arg_cong [OF init_begin_frame(1) [of dir hub], of apps] by (simp add: hub_inv_def)
next
  case (begin_load hub jobs dir)
  then show ?case using arg_cong [OF init_begin_frame(1) [of dir hub], of apps] by (simp add: hub_inv_def)
qed (auto simp: hub_inv_def hub_op_defs init_load_ok reload_load_ok)

lemma hub_reachable_inv: "hub_reachable s \<Longrightarrow> hub_inv s"
  by (induction rule: hub_reachable.induct)
    (auto simp: hub_step_inv, simp add: hub_inv_def SettingsHub_new_def SettingsState_new_def apps_ok_def)

text \<open>The undisturbed calls are runs of the step relation.\<close>

lemma init_reachable:
  assumes "hub_reachable (hub, jobs)" and "env_ok env"
  shows "hub_reachable (init env dir hub, jobs)"
proof (cases "settings_loaded (hub_state hub)")
  case True
  moreover have "settings_loaded (hub_state (init_begin dir hub)) = settings_loaded (hub_state hub)"
    using arg_cong [OF init_begin_frame(1) [of dir hub], of settings_loaded] by simp
  ultimately show ?thesis using assms
    by (auto simp: init_def Let_def intro: hub_reachable.step hub_step.begin_loaded)
next
  case False
  let ?hub = "init_begin dir hub" let ?dir = "config_dir (hub_state (init_begin dir hub))"
  have "\<not> settings_loaded (hub_state ?hub)"
    using False arg_cong [OF init_begin_frame(1) [of dir hub], of settings_loaded] by simp
  moreover have "hub_reachable (?hub, InitLoad ?dir # jobs)"
    using assms(1) False by (auto intro: hub_reachable.step hub_step.begin_load)
  then have "hub_reachable (?hub, InitCommit (init_load env ?dir) # jobs)"
    using hub_step.init_loaded [OF assms(2), of ?hub "[]" ?dir jobs] by (auto intro: hub_reachable.step)
  then have "hub_reachable (init_commit (init_load env ?dir) ?hub, jobs)"
    using hub_step.init_done [of ?hub "[]" "init_load env ?dir" jobs] by (auto intro: hub_reachable.step)
  ultimately show ?thesis by (simp add: init_def Let_def)
qed

lemma reload_reachable:
  assumes "hub_reachable (hub, jobs)" and "env_ok env"
  shows "hub_reachable (reload_from_dir env (config_dir (hub_state hub)) force hub, jobs)"
proof -
  let ?dir = "config_dir (hub_state hub)" and ?st = "hub_state hub"
  let ?snap = "compute_config_fingerprint_snapshot (env_stat env) (env_dir env) ?dir"
  show ?thesis
  proof (cases "reload_needed force (settings_loaded ?st) (settings_fingerprint ?st) (fp_hash ?snap)")
    case True
    have "hub_reachable (hub, ReloadCheck ?dir force # jobs)"
      using assms(1) by (rule hub_reachable.step) (rule hub_step.reload_call)
    then have "hub_reachable (hub, ReloadSeed ?dir ?snap # jobs)"
      using hub_step.reload_checked [OF assms(2) refl True, of "[]"] by (auto intro: hub_reachable.step)
    then have "hub_reachable (hub, ReloadCommit (reload_load env ?dir ?snap ?st) # jobs)"
      using hub_step.reload_loaded [OF assms(2), of hub "[]"] by (auto intro: hub_reachable.step)
    then have "hub_reachable (reload_commit (reload_load env ?dir ?snap ?st) hub, jobs)"
      using hub_step.reload_done [of hub "[]"] by (auto intro: hub_reachable.step)
    then show ?thesis using True by (simp add: reload_from_dir_def Let_def)
  qed (use assms in \<open>simp add: reload_from_dir_def Let_def\<close>)
qed

definition demo_env :: config_env where
  "demo_env =
     \<lparr>env_json = (\<lambda>_. Some (JObject [(''users'', JObject [(''0'', JObject [])])])), env_lower = (\<lambda>s. s),
      env_order = (\<lambda>ks. ks), env_exists = (\<lambda>_ path. ends_with_str path ''/a.json''),
      env_file = (\<lambda>_ path. if ends_with_str path ''/a.json'' then FileView 2 (Some ''{}'') else NotFound),
      env_stat = (\<lambda>_. None), env_dir = (\<lambda>_. Some [''a.json''])\<rparr>"

lemma demo_env_ok: "env_ok demo_env"
  by (simp add: env_ok_def demo_env_def)

text \<open>
  (C21) Under every interleaving of \<^verbatim>\<open>init\<close>, \<^verbatim>\<open>reload_if_changed\<close> and \<^verbatim>\<open>reload_force\<close> calls, over
  file systems that change, fail and show half-written files, every profile the hub ever holds is
  well formed: it belongs to a package other than the module's own, to a nonnegative user, its rule
  paths are normal forms inside that user's storage and its mappings are safe and end.
\<close>

theorem settings_hub_wellformed:
  assumes "hub_reachable (hub, jobs)"
    and "map_of (apps (hub_state hub)) package_name = Some app" and "map_of app user_id = Some profile"
  shows "package_name \<noteq> SELF_PACKAGE_NAME \<and> 0 \<le> user_id \<and> profile_ok user_id profile"
proof -
  have "apps_ok (apps (hub_state hub))" using hub_reachable_inv [OF assms(1)] by (simp add: hub_inv_def)
  moreover have "(package_name, app) \<in> set (apps (hub_state hub))" "(user_id, profile) \<in> set app"
    using assms(2,3) by (simp_all add: map_of_SomeD)
  ultimately show ?thesis by (force simp: apps_ok_def app_ok_def list_all_iff)
qed

lemma demo_paths:
  "read_file (env_file demo_env n (path_join ''/c'' GLOBAL_CONFIG_FILE)) = ([], False, False)"
  "read_file (env_file demo_env n (path_join ''/c'' MONITOR_FILTERS_CONFIG_FILE)) = ([], False, False)"
  "env_exists demo_env n (path_join ''/c'' GLOBAL_CONFIG_FILE) = False"
  "read_file (env_file demo_env n (app_config_path ''/c'' ''a'')) = (''{}'', False, False)"
  "env_exists demo_env n (app_config_path ''/c'' ''a'') = True"
proof -
  have "\<not> ends_with_str (path_join ''/c'' GLOBAL_CONFIG_FILE) ''/a.json''"
    "\<not> ends_with_str (path_join ''/c'' MONITOR_FILTERS_CONFIG_FILE) ''/a.json''"
    "ends_with_str (app_config_path ''/c'' ''a'') ''/a.json''" by code_simp+
  then show "read_file (env_file demo_env n (path_join ''/c'' GLOBAL_CONFIG_FILE)) = ([], False, False)"
    "read_file (env_file demo_env n (path_join ''/c'' MONITOR_FILTERS_CONFIG_FILE)) = ([], False, False)"
    "env_exists demo_env n (path_join ''/c'' GLOBAL_CONFIG_FILE) = False"
    "read_file (env_file demo_env n (app_config_path ''/c'' ''a'')) = (''{}'', False, False)"
    "env_exists demo_env n (app_config_path ''/c'' ''a'') = True"
    by (simp_all add: demo_env_def MAX_CONFIG_FILE_BYTES_def)
qed

lemma demo_packages:
  "fp_app_packages (compute_config_fingerprint_snapshot (env_stat demo_env) (env_dir demo_env) ''/c'') = [''a'']"
proof -
  have "List.map_filter snd (config_file_entries (path_join ''/c'' APPS_CONFIG_DIR) [''a.json'']) = [''a'']"
    by code_simp
  then show ?thesis by (simp add: compute_config_fingerprint_snapshot_def demo_env_def Let_def)
qed

lemma demo_parse:
  "parse_app_config (env_json demo_env) (env_order demo_env) ''a'' ''{}'' st
    = (True, st\<lparr>apps := AList.update ''a'' [(0, empty_user_profile)] (apps st)\<rparr>)"
proof -
  have "parse_users (\<lambda>ks. ks) [(''0'', JObject [])] = [(0, empty_user_profile)]" by code_simp
  then show ?thesis by (simp add: parse_app_config_def demo_env_def)
qed

lemma demo_loaded: "apps (init_load demo_env ''/c'') = [(''a'', [(0, empty_user_profile)])]"
proof -
  have self: "''a'' \<noteq> SELF_PACKAGE_NAME" by (simp add: SELF_PACKAGE_NAME_def)
  show ?thesis
    by (simp add: init_load_def load_global_config_def global_first load_monitor_filter_config_def
        load_app_configs_def load_app_config_def load_app_config_inner.simps [of _ _ _ True] demo_paths demo_packages
        demo_parse self SettingsState_new_def unmark_invalid_def Let_def)
qed

theorem settings_hub_wellformed_witness:
  "map_of (apps (hub_state (init demo_env (Some ''/c'') SettingsHub_new))) ''a'' = Some [(0, empty_user_profile)]
   \<and> profile_ok 0 empty_user_profile"
proof -
  have a: "map_of (apps (hub_state (init demo_env (Some ''/c'') SettingsHub_new))) ''a'' = Some [(0, empty_user_profile)]"
    using demo_loaded
    by (simp add: init_def init_begin_def init_commit_def bump_config_version_def SettingsHub_new_def SettingsState_new_def)
  have r: "hub_reachable (init demo_env (Some ''/c'') SettingsHub_new, [])"
    by (intro init_reachable hub_reachable.start demo_env_ok)
  from settings_hub_wellformed [OF r a, of 0 empty_user_profile] a show ?thesis by simp
qed

text \<open>
  The version counter guards every cache of configuration answers: in a reachable state, a step
  either leaves the version and everything in the state but the directory name alone, or it raises the
  version by one and installs a loaded state. In particular a loaded hub stays loaded.
\<close>

theorem hub_step_version:
  assumes "hub_reachable (hub, jobs)" and "hub_step (hub, jobs) (hub', jobs')"
  shows "(config_version hub' = config_version hub
      \<and> hub_state hub' = (hub_state hub)\<lparr>config_dir := config_dir (hub_state hub')\<rparr>)
    \<or> (config_version hub' = config_version hub + 1 \<and> settings_loaded (hub_state hub'))"
proof -
  have "list_all job_ok jobs" using hub_reachable_inv [OF assms(1)] by (simp add: hub_inv_def)
  with assms(2) show ?thesis
    using init_begin_frame by cases (auto simp: init_commit_def reload_commit_def bump_config_version_def)
qed

theorem hub_step_version_witness:
  "hub_reachable (SettingsHub_new, []) \<and> config_version (init_begin (Some ''/c'') SettingsHub_new) = 0"
proof -
  have r: "hub_reachable (SettingsHub_new, [])" by (rule hub_reachable.start)
  have n: "\<not> settings_loaded (hub_state SettingsHub_new)" by (simp add: SettingsHub_new_def SettingsState_new_def)
  from hub_step_version [OF r hub_step.begin_load [OF n, of "[]" "Some ''/c''"]] r show ?thesis
    by (simp add: SettingsHub_new_def SettingsState_new_def init_begin_def)
qed

section \<open>Reload takes effect and comes to rest\<close>

lemma reload_load_fingerprint: "settings_fingerprint (reload_load env dir snap cur) = fp_hash snap"
  by (simp add: reload_load_def Let_def split: prod.split)



section \<open>Unreadable and half-written files\<close>

text \<open>A file that exists but gives no configuration: too large, not readable, or not JSON.\<close>

definition unusable :: "config_env \<Rightarrow> file_view \<Rightarrow> bool" where
  "unusable env v \<longleftrightarrow> (case read_file v of (c, too_large, failed) \<Rightarrow> too_large \<or> failed \<or> (c \<noteq> [] \<and> env_json env c = None))"

lemma read_file_flags: "read_file v = (c, l, f) \<Longrightarrow> l \<or> f \<Longrightarrow> c = []"
  by (cases v) (auto split: if_splits option.splits)

lemma load_unusable:
  "unusable env (env_file env 0 (path_join (config_dir st) GLOBAL_CONFIG_FILE)) \<Longrightarrow> load_global_config env st = (False, st)"
  "unusable env (env_file env 0 (path_join (config_dir st) MONITOR_FILTERS_CONFIG_FILE)) \<Longrightarrow>
     load_monitor_filter_config env st = (False, st)"
  by (auto simp: unusable_def load_global_config_def global_first load_monitor_filter_config_def attempt_def
      parse_global_config_def parse_monitor_filter_config_def Let_def split: prod.splits)

lemma load_filter_missing:
  "read_file (env_file env 0 (path_join (config_dir st) MONITOR_FILTERS_CONFIG_FILE)) = ([], False, False) \<Longrightarrow>
     load_monitor_filter_config env st = (True, st)"
  by (simp add: load_monitor_filter_config_def)

lemma reload_force_state:
  assumes "env_ok env"
  shows "hub_state (reload_force env hub) = reload_load env (config_dir (hub_state hub))
    (compute_config_fingerprint_snapshot (env_stat env) (env_dir env) (config_dir (hub_state hub))) (hub_state hub)"
  using reload_load_ok(3) [OF assms]
  by (simp add: reload_force_def reload_from_dir_def reload_needed_def reload_commit_def bump_config_version_def Let_def)

text \<open>The fields of a reloaded state, one loader at a time.\<close>

lemma reload_load_fields:
  assumes "env_ok env" and "settings_loaded cur"
    and g: "load_global_config env (seed_loaded_state_from_current cur (SettingsState_new\<lparr>config_dir := dir\<rparr>)) = (ok, st1)"
    and f: "load_monitor_filter_config env st1 = (ok', st2)"
  shows "is_file_monitor_enabled (reload_load env dir snap cur) = is_file_monitor_enabled st1"
    "is_fuse_fix_enabled (reload_load env dir snap cur) = is_fuse_fix_enabled st1"
    "storage_backend (reload_load env dir snap cur) = storage_backend st1"
    "is_verbose_logging_enabled (reload_load env dir snap cur) = is_verbose_logging_enabled st1"
    "monitor_filters (reload_load env dir snap cur) = monitor_filters st2"
    "apps (reload_load env dir snap cur) = apps (load_app_configs env st2 (fp_app_packages snap))"
    "config_dir st1 = dir" "config_dir st2 = dir" "apps st2 = []" "monitor_filters st1 = monitor_filters cur"
proof -
  obtain as inv where l: "load_app_configs env st2 (fp_app_packages snap) = st2\<lparr>apps := as, invalid_packages := inv\<rparr>"
    using load_apps_frame [OF assms(1), of st2 "fp_app_packages snap"] by blast
  obtain mf where mf: "st2 = st1\<lparr>monitor_filters := mf\<rparr>" using load_filter_frame(1) [OF f] by blast
  have r: "reload_load env dir snap cur = (load_app_configs env st2 (fp_app_packages snap))
      \<lparr>settings_loaded := True, settings_fingerprint := fp_hash snap\<rparr>"
    using g f by (simp add: reload_load_def Let_def)
  show "is_file_monitor_enabled (reload_load env dir snap cur) = is_file_monitor_enabled st1"
    "is_fuse_fix_enabled (reload_load env dir snap cur) = is_fuse_fix_enabled st1"
    "storage_backend (reload_load env dir snap cur) = storage_backend st1"
    "is_verbose_logging_enabled (reload_load env dir snap cur) = is_verbose_logging_enabled st1"
    "monitor_filters (reload_load env dir snap cur) = monitor_filters st2"
    "apps (reload_load env dir snap cur) = apps (load_app_configs env st2 (fp_app_packages snap))"
    unfolding r l by (simp_all add: mf)
  show "config_dir st1 = dir" "config_dir st2 = dir" "apps st2 = []" "monitor_filters st1 = monitor_filters cur"
    using load_global_frame [OF g] assms(2) by (simp_all add: mf seed_loaded_state_from_current_def SettingsState_new_def)
qed

text \<open>
  (C33) A reload never loses the switches to a read error: when the global file is too large, cannot be
  read or is not JSON, all four global switches keep the value in force before, and in the same way
  an unusable filter file keeps the monitor filters.
\<close>

theorem reload_keeps_on_error:
  fixes hub :: settings_hub
  defines "st \<equiv> hub_state hub"
  assumes "env_ok env" and "settings_loaded st"
  shows "(unusable env (env_file env 0 (path_join (config_dir st) GLOBAL_CONFIG_FILE)) \<longrightarrow>
      is_file_monitor_enabled (hub_state (reload_force env hub)) = is_file_monitor_enabled st
      \<and> is_fuse_fix_enabled (hub_state (reload_force env hub)) = is_fuse_fix_enabled st
      \<and> storage_backend (hub_state (reload_force env hub)) = storage_backend st
      \<and> is_verbose_logging_enabled (hub_state (reload_force env hub)) = is_verbose_logging_enabled st)
    \<and> (unusable env (env_file env 0 (path_join (config_dir st) MONITOR_FILTERS_CONFIG_FILE)) \<longrightarrow>
      monitor_filters (hub_state (reload_force env hub)) = monitor_filters st)"
proof -
  let ?seed = "seed_loaded_state_from_current st (SettingsState_new\<lparr>config_dir := config_dir st\<rparr>)"
  obtain ok st1 where g: "load_global_config env ?seed = (ok, st1)" by fastforce
  obtain ok' st2 where f: "load_monitor_filter_config env st1 = (ok', st2)" by fastforce
  note fields = reload_load_fields [OF assms(2,3) g f]
  have "st1 = ?seed" if "unusable env (env_file env 0 (path_join (config_dir st) GLOBAL_CONFIG_FILE))"
    using load_unusable(1) [of env ?seed] that g by (simp add: seed_frame)
  moreover have "st2 = st1" if "unusable env (env_file env 0 (path_join (config_dir st) MONITOR_FILTERS_CONFIG_FILE))"
    using load_unusable(2) [of env st1] that f fields(7) by simp
  ultimately show ?thesis
    unfolding reload_force_state [OF assms(2)] st_def [symmetric] fields(1-5)
    using assms(3) fields(10) by (auto simp: seed_loaded_state_from_current_def)
qed

text \<open>
  Deleting (or emptying) the filter file does not restore the default filters of a running
  module: a reload keeps the filters in force, while a fresh load of the same directory uses the
  defaults.
\<close>

theorem reload_keeps_deleted_filters:
  fixes hub :: settings_hub
  defines "st \<equiv> hub_state hub"
  assumes "env_ok env" and "settings_loaded st"
    and "env_file env 0 (path_join (config_dir st) MONITOR_FILTERS_CONFIG_FILE) = NotFound"
  shows "monitor_filters (hub_state (reload_force env hub)) = monitor_filters st
    \<and> monitor_filters (init_load env (config_dir st)) = MonitorFilterConfig_default"
proof
  let ?seed = "seed_loaded_state_from_current st (SettingsState_new\<lparr>config_dir := config_dir st\<rparr>)"
  obtain ok st1 where g: "load_global_config env ?seed = (ok, st1)" by fastforce
  obtain ok' st2 where f: "load_monitor_filter_config env st1 = (ok', st2)" by fastforce
  note fields = reload_load_fields [OF assms(2,3) g f]
  have "st2 = st1" using load_filter_missing [of env st1] assms(4) f fields(7) by simp
  then show "monitor_filters (hub_state (reload_force env hub)) = monitor_filters st"
    unfolding reload_force_state [OF assms(2)] st_def [symmetric] fields(5) using fields(10) by simp
next
  let ?st = "SettingsState_new\<lparr>config_dir := config_dir st, settings_fingerprint :=
    fp_hash (compute_config_fingerprint_snapshot (env_stat env) (env_dir env) (config_dir st))\<rparr>"
  obtain ok st1 where g: "load_global_config env ?st = (ok, st1)" by fastforce
  have "config_dir st1 = config_dir st" "monitor_filters st1 = MonitorFilterConfig_default"
    using load_global_frame(1,4) [OF g] by (simp_all add: SettingsState_new_def)
  moreover have "monitor_filters (load_app_configs env st1 pkgs) = monitor_filters st1" for pkgs
    using arg_cong [OF load_apps_frame [OF assms(2), of st1 pkgs], of monitor_filters] by simp
  ultimately show "monitor_filters (init_load env (config_dir st)) = MonitorFilterConfig_default"
    using load_filter_missing [of env st1] assms(4) g by (simp add: init_load_def Let_def)
qed

text \<open>
  Loading a package whose file gives no JSON in either attempt stores nothing for it, and the other
  packages do not touch its entry.
\<close>

lemma load_app_broken:
  assumes "\<And>n. fst (read_file (env_file env n (app_config_path (config_dir st) pkg))) = []
      \<or> env_json env (fst (read_file (env_file env n (app_config_path (config_dir st) pkg)))) = None"
  shows "\<not> fst (load_app_config env st pkg)"
proof -
  have one: "\<not> fst (load_app_config_inner env st pkg retry)"
    if "retry \<Longrightarrow> \<not> fst (load_app_config_inner env st pkg False)" for retry
  proof -
    obtain c l f where rf: "read_file (env_file env (attempt retry) (app_config_path (config_dir st) pkg)) = (c, l, f)"
      by (metis prod_cases3)
    then consider "c = []" | "c \<noteq> []" "parse_app_config (env_json env) (env_order env) pkg c st = (False, st)"
      using assms [of "attempt retry"] by (cases "c = []") (auto simp: parse_app_config_def)
    then show ?thesis using that
      by cases (subst load_app_config_inner.simps, simp add: rf Let_def)+
  qed
  show ?thesis unfolding load_app_config_def by (rule one, rule one) simp
qed

lemma load_app_other:
  assumes "env_ok env" and "map_of (apps st) pkg = None" and "\<not> fst (load_app_config env st pkg)"
  shows "map_of (apps (snd (load_app_config env st p))) pkg = None"
  using load_app_outcome [OF assms(1), of p st] assms(2,3)
  by (cases "p = pkg") (auto simp: app_outcome_def stores_app_def mark_invalid_def unmark_invalid_def split: if_splits)

lemma load_apps_broken:
  assumes "env_ok env" and "map_of (apps st) pkg = None"
    and "\<And>n. fst (read_file (env_file env n (app_config_path (config_dir st) pkg))) = []
      \<or> env_json env (fst (read_file (env_file env n (app_config_path (config_dir st) pkg)))) = None"
  shows "map_of (apps (load_app_configs env st pkgs)) pkg = None"
proof -
  have "map_of (apps (load_app_configs env st pkgs)) pkg = None \<and> config_dir (load_app_configs env st pkgs) = config_dir st"
    unfolding load_app_configs_def
  proof (rule foldl_inv)
    fix st' :: settings_state and p
    assume inv: "map_of (apps st') pkg = None \<and> config_dir st' = config_dir st"
    then have "\<not> fst (load_app_config env st' pkg)" using assms(3) by (intro load_app_broken) simp
    then have "map_of (apps (snd (load_app_config env st' p))) pkg = None"
      using inv by (intro load_app_other assms(1)) simp_all
    moreover have "config_dir (snd (load_app_config env st' p)) = config_dir st'"
      using arg_cong [OF load_app_frame [OF assms(1), of st' p], of config_dir] by simp
    ultimately show "map_of (apps (snd (load_app_config env st' p))) pkg = None
        \<and> config_dir (snd (load_app_config env st' p)) = config_dir st" using inv by simp
  qed (simp add: assms(2))
  then show ?thesis ..
qed

text \<open>
  A reload that meets a damaged application file forgets the application: when neither attempt
  yields JSON, the reloaded state has no profile for the package, whatever was in force before.
  (The comment at \<^verbatim>\<open>seed_loaded_state_from_current\<close> says the old entry is kept.)
\<close>

theorem reload_drops_corrupt_app:
  fixes hub :: settings_hub
  defines "st \<equiv> hub_state hub"
  assumes "env_ok env" and "settings_loaded st"
    and "\<And>n. fst (read_file (env_file env n (app_config_path (config_dir st) package_name))) = []
      \<or> env_json env (fst (read_file (env_file env n (app_config_path (config_dir st) package_name)))) = None"
  shows "map_of (apps (hub_state (reload_force env hub))) package_name = None"
proof -
  let ?seed = "seed_loaded_state_from_current st (SettingsState_new\<lparr>config_dir := config_dir st\<rparr>)"
  obtain ok st1 where g: "load_global_config env ?seed = (ok, st1)" by fastforce
  obtain ok' st2 where f: "load_monitor_filter_config env st1 = (ok', st2)" by fastforce
  note fields = reload_load_fields [OF assms(2,3) g f]
  show ?thesis
    unfolding reload_force_state [OF assms(2)] st_def [symmetric] fields(6)
    by (rule load_apps_broken [OF assms(2)]) (simp_all add: fields(8,9) assms(4))
qed

text \<open>
  A half-written application file heals itself: when the first read of an existing file is empty
  or not JSON and the second read, 50 ms later, is complete, loading succeeds with the profiles of the
  second read and the package is not reported as invalid.
\<close>

theorem load_app_retry_heals:
  fixes st :: settings_state and package_name :: bytes
  defines "path \<equiv> app_config_path (config_dir st) package_name"
  assumes "package_name \<noteq> SELF_PACKAGE_NAME"
    and "env_exists env 0 path" and "read_file (env_file env 0 path) = (c, False, failed)"
    and "c = [] \<or> env_json env c = None"
    and "read_file (env_file env 1 path) = (c', False, False)" and "c' \<noteq> []"
    and "parse_app_config (env_json env) (env_order env) package_name c' st = (True, st')"
  shows "load_app_config env st package_name = (True, unmark_invalid package_name st')"
proof -
  have "load_app_config_inner env st package_name False = (True, unmark_invalid package_name st')"
    using assms(2,6-8) by (subst load_app_config_inner.simps) (simp add: attempt_def path_def Let_def)
  moreover have "load_app_config_inner env st package_name True = load_app_config_inner env st package_name False"
  proof (cases "c = []")
    case True
    then show ?thesis using assms(2-4)
      by (subst load_app_config_inner.simps) (simp add: attempt_def path_def Let_def)
  next
    case False
    then show ?thesis using assms(2-5)
      by (subst load_app_config_inner.simps) (simp add: attempt_def path_def Let_def parse_app_config_def)
  qed
  ultimately show ?thesis by (simp add: load_app_config_def)
qed

text \<open>A concrete directory: the application file is truncated at first and complete at the retry; nothing else can be read.\<close>

definition heal_env :: config_env where
  "heal_env = demo_env\<lparr>env_file := (\<lambda>n path. if ends_with_str path ''/a.json'' then FileView n (if n = 0 then Some [] else Some ''{}'') else StatFailed)\<rparr>"

definition loaded_hub :: settings_hub where
  "loaded_hub = SettingsHub_new\<lparr>hub_state := SettingsState_new
     \<lparr>config_dir := ''/c'', settings_loaded := True, is_file_monitor_enabled := True,
      monitor_filters := \<lparr>excluded_paths = [], excluded_operations = []\<rparr>,
      apps := [(''b'', [(0, empty_user_profile)])]\<rparr>\<rparr>"

theorem load_app_retry_heals_witness:
  "load_app_config heal_env (SettingsState_new\<lparr>config_dir := ''/c''\<rparr>) ''a''
    = (True, unmark_invalid ''a'' (SettingsState_new\<lparr>config_dir := ''/c'', apps := [(''a'', [(0, empty_user_profile)])]\<rparr>))"
proof -
  let ?st = "SettingsState_new\<lparr>config_dir := ''/c''\<rparr>"
  have p: "ends_with_str (app_config_path ''/c'' ''a'') ''/a.json''" by code_simp
  show ?thesis
    by (rule load_app_retry_heals [where st = ?st and c = "[]" and failed = False and c' = "''{}''"])
      (use p demo_parse [of ?st] in \<open>simp_all add: heal_env_def demo_env_def SELF_PACKAGE_NAME_def
        MAX_CONFIG_FILE_BYTES_def SettingsState_new_def\<close>)
qed

lemma loaded_hub_facts:
  "env_ok heal_env" "settings_loaded (hub_state loaded_hub)" "config_dir (hub_state loaded_hub) = ''/c''"
  by (simp_all add: env_ok_def heal_env_def demo_env_def loaded_hub_def)

lemma heal_paths:
  "env_file heal_env n (path_join ''/c'' GLOBAL_CONFIG_FILE) = StatFailed"
  "env_file heal_env n (app_config_path ''/c'' ''b'') = StatFailed"
proof -
  have "\<not> ends_with_str (path_join ''/c'' GLOBAL_CONFIG_FILE) ''/a.json''"
    "\<not> ends_with_str (app_config_path ''/c'' ''b'') ''/a.json''" by code_simp+
  then show "env_file heal_env n (path_join ''/c'' GLOBAL_CONFIG_FILE) = StatFailed"
    "env_file heal_env n (app_config_path ''/c'' ''b'') = StatFailed" by (simp_all add: heal_env_def)
qed

theorem reload_keeps_on_error_witness:
  "is_file_monitor_enabled (hub_state (reload_force heal_env loaded_hub))"
  using reload_keeps_on_error [of heal_env loaded_hub] loaded_hub_facts heal_paths(1) [of 0]
  by (simp add: unusable_def) (simp add: loaded_hub_def)

theorem reload_drops_corrupt_app_witness:
  "map_of (apps (hub_state loaded_hub)) ''b'' \<noteq> None \<and> map_of (apps (hub_state (reload_force heal_env loaded_hub))) ''b'' = None"
  using reload_drops_corrupt_app [of heal_env loaded_hub "''b''"] loaded_hub_facts heal_paths(2)
  by (simp add: loaded_hub_def)

theorem reload_keeps_deleted_filters_witness:
  "excluded_operations (monitor_filters (hub_state (reload_force demo_env loaded_hub))) = []
   \<and> excluded_operations (monitor_filters (init_load demo_env ''/c'')) \<noteq> []"
proof -
  have "\<not> ends_with_str (path_join ''/c'' MONITOR_FILTERS_CONFIG_FILE) ''/a.json''" by code_simp
  then have "env_file demo_env 0 (path_join ''/c'' MONITOR_FILTERS_CONFIG_FILE) = NotFound" by (simp add: demo_env_def)
  from reload_keeps_deleted_filters [of demo_env loaded_hub] demo_env_ok loaded_hub_facts this
  show ?thesis by (simp add: MonitorFilterConfig_default_def) (simp add: loaded_hub_def)
qed

end
