(* ===== verification/Raw_Scan.thy ===== *)
theory Raw_Scan
  imports Source
begin

text \<open>
  Model of \<^verbatim>\<open>src/config/raw_scan.rs\<close>: reading a package's configuration file directly, past the
  settings state, with a small per-thread cache in front. The operating system's answers are the
  record \<open>raw_env\<close>; the clock is an argument. The lemmas bound the cache and the age of what it
  returns, and relate the second parser of the file format to the one of \<^verbatim>\<open>ingest.rs\<close>. (The probe
  counter only thins log lines and is left out.)
\<close>

section \<open>Model\<close>

definition RAW_CACHE_TTL_MS :: int where
  "RAW_CACHE_TTL_MS = 1000"

definition RAW_CACHE_CAP :: nat where
  "RAW_CACHE_CAP = 128"

record raw_cache_entry =
  ce_package_name :: bytes
  ce_user_id :: i32
  ce_config_version :: "64 word"
  ce_cached_at_ms :: int
  ce_is_enabled :: bool
  ce_is_mapping_mode_only :: bool
  ce_sandboxed_paths :: "bytes list"
  ce_read_only_paths :: "bytes list"
  ce_has_config :: bool

definition CacheEntry_missing :: "bytes \<Rightarrow> i32 \<Rightarrow> 64 word \<Rightarrow> int \<Rightarrow> raw_cache_entry" where
  "CacheEntry_missing package_name user_id version cached_at_ms =
     \<lparr>ce_package_name = package_name, ce_user_id = user_id, ce_config_version = version,
      ce_cached_at_ms = cached_at_ms, ce_is_enabled = False, ce_is_mapping_mode_only = False,
      ce_sandboxed_paths = [], ce_read_only_paths = [], ce_has_config = False\<rparr>"

text \<open>The two thread-local cells.\<close>

record raw_cache =
  rc_entries :: "raw_cache_entry list"
  rc_version :: "64 word"

definition raw_cache_new :: raw_cache where
  "raw_cache_new = \<lparr>rc_entries = [], rc_version = 0\<rparr>"

record raw_env =
  raw_json :: "bytes \<Rightarrow> json option"
  raw_exists :: "bytes \<Rightarrow> bool"
  raw_read :: "bytes \<Rightarrow> bytes option"
  raw_is_dir :: "bytes \<Rightarrow> bool"
  raw_dir :: "bytes \<Rightarrow> bytes list option"

definition push_raw_sandboxed_path :: "bytes list \<Rightarrow> bytes \<Rightarrow> i32 \<Rightarrow> bytes list" where
  "push_raw_sandboxed_path paths raw_path user_id =
     (let raw_path = trim raw_path
      in if raw_path = [] then paths
         else let normalized = normalize raw_path
           in if normalized = [] \<or> starts_with_str normalized ''/'' \<or> has_unsafe_segments normalized then paths
              else let storage_root = storage_user_root_for_user user_id;
                       resolved = normalize (path_join storage_root normalized)
                in if \<not> is_child resolved storage_root then paths else paths @ [resolved])"

definition parse_raw_sandboxed_paths :: "json option \<Rightarrow> i32 \<Rightarrow> bytes list" where
  "parse_raw_sandboxed_paths value user_id =
     (case value of
        None \<Rightarrow> []
      | Some value \<Rightarrow> sort_dedup_paths_case_insensitive
          (foldl (\<lambda>paths path. push_raw_sandboxed_path paths path user_id) [] (string_items value)))"

definition push_raw_read_only_path :: "bytes list \<Rightarrow> bytes \<Rightarrow> i32 \<Rightarrow> bytes list" where
  "push_raw_read_only_path paths raw_path user_id =
     (let raw_path = trim raw_path
      in if raw_path = [] then paths
         else let (excluded, body) = (case strip_prefix raw_path ''!'' of
                      Some stripped \<Rightarrow> (True, trim_start stripped) | None \<Rightarrow> (False, raw_path));
                  normalized = normalize body
           in if normalized = [] \<or> starts_with_str normalized ''/'' \<or> has_unsafe_segments normalized then paths
              else let storage_root = storage_user_root_for_user user_id;
                       resolved = normalize (path_join storage_root normalized)
                in if \<not> is_child resolved storage_root then paths
                   else paths @ [if excluded then ''!'' @ resolved else resolved])"

definition parse_raw_read_only_paths :: "json option \<Rightarrow> i32 \<Rightarrow> bytes list" where
  "parse_raw_read_only_paths value user_id =
     (case value of
        None \<Rightarrow> []
      | Some value \<Rightarrow> sort_dedup_paths_case_insensitive
          (foldl (\<lambda>paths path. push_raw_read_only_path paths path user_id) [] (string_items value)))"

text \<open>The user's object of a configuration file, if the text is JSON and has one.\<close>

definition raw_user_object :: "raw_env \<Rightarrow> bytes \<Rightarrow> i32 \<Rightarrow> (bytes \<times> json) list option" where
  "raw_user_object env content user_id =
     (if content = [] then None
      else case raw_json env content of
        None \<Rightarrow> None
      | Some json \<Rightarrow>
          (case Option.bind (json_get ''users'' json) as_object of
             None \<Rightarrow> None
           | Some users \<Rightarrow> Option.bind (map_of users (fmt_i32 user_id)) as_object))"

definition parse_raw_config_entry ::
  "raw_env \<Rightarrow> bytes \<Rightarrow> i32 \<Rightarrow> bytes \<Rightarrow> 64 word \<Rightarrow> int \<Rightarrow> raw_cache_entry" where
  "parse_raw_config_entry env package_name user_id resolved_path version now_ms =
     (let content = (case raw_read env resolved_path of Some c \<Rightarrow> c | None \<Rightarrow> [])
      in case raw_user_object env content user_id of
           None \<Rightarrow> CacheEntry_missing package_name user_id version now_ms
         | Some user \<Rightarrow>
             \<lparr>ce_package_name = package_name, ce_user_id = user_id, ce_config_version = version,
              ce_cached_at_ms = now_ms,
              ce_is_enabled = (case map_of user ''enabled'' of
                 None \<Rightarrow> True | Some value \<Rightarrow> (case as_bool value of Some b \<Rightarrow> b | None \<Rightarrow> False)),
              ce_is_mapping_mode_only = bool_or False (map_of user ''mapping_mode_only''),
              ce_sandboxed_paths = parse_raw_sandboxed_paths (map_of user ''sandboxed_paths'') user_id,
              ce_read_only_paths = parse_raw_read_only_paths (map_of user ''read_only_paths'') user_id,
              ce_has_config = True\<rparr>)"

definition load_raw_config_entry ::
  "raw_env \<Rightarrow> bytes \<Rightarrow> i32 \<Rightarrow> bytes \<Rightarrow> 64 word \<Rightarrow> int \<Rightarrow> raw_cache_entry" where
  "load_raw_config_entry env package_name user_id dir version now_ms =
     (let config_path = app_config_path dir package_name;
          fallback_path = app_config_path CONFIG_DIR package_name
      in if raw_exists env config_path then
           parse_raw_config_entry env package_name user_id config_path version now_ms
         else if raw_exists env fallback_path then
           parse_raw_config_entry env package_name user_id fallback_path version now_ms
         else CacheEntry_missing package_name user_id version now_ms)"

definition invalidate_cache_on_version_change :: "64 word \<Rightarrow> raw_cache \<Rightarrow> raw_cache" where
  "invalidate_cache_on_version_change current_version c =
     (if rc_version c \<noteq> current_version then \<lparr>rc_entries = [], rc_version = current_version\<rparr> else c)"

text \<open>Saturating subtraction of \<^verbatim>\<open>i64\<close> values.\<close>

definition entry_key :: "raw_cache_entry \<Rightarrow> bytes \<times> i32" where
  "entry_key e = (ce_package_name e, ce_user_id e)"

definition lookup_cached_entry ::
  "bytes \<Rightarrow> i32 \<Rightarrow> 64 word \<Rightarrow> int \<Rightarrow> raw_cache \<Rightarrow> raw_cache_entry option" where
  "lookup_cached_entry package_name user_id version now_ms c =
     (case find (\<lambda>e. ce_user_id e = user_id \<and> ce_package_name e = package_name) (rc_entries c) of
        None \<Rightarrow> None
      | Some e \<Rightarrow>
          if ce_config_version e \<noteq> version then None
          else if RAW_CACHE_TTL_MS < sat_sub_i64 now_ms (ce_cached_at_ms e) then None
          else Some e)"

text \<open>Replacing the first entry of a key in place.\<close>

fun replace_entry :: "bytes \<Rightarrow> i32 \<Rightarrow> raw_cache_entry \<Rightarrow> raw_cache_entry list \<Rightarrow> raw_cache_entry list option" where
  "replace_entry package_name user_id entry [] = None"
| "replace_entry package_name user_id entry (e # es) =
     (if ce_user_id e = user_id \<and> ce_package_name e = package_name then Some (entry # es)
      else map_option ((#) e) (replace_entry package_name user_id entry es))"

definition upsert_entry :: "bytes \<Rightarrow> i32 \<Rightarrow> raw_cache_entry \<Rightarrow> raw_cache \<Rightarrow> raw_cache" where
  "upsert_entry package_name user_id entry c =
     (case replace_entry package_name user_id entry (rc_entries c) of
        Some es \<Rightarrow> c\<lparr>rc_entries := es\<rparr>
      | None \<Rightarrow>
          (let es = (if RAW_CACHE_CAP \<le> length (rc_entries c) then tl (rc_entries c) else rc_entries c)
           in c\<lparr>rc_entries := es @ [entry]\<rparr>))"

definition ensure_raw_config_cache_entry ::
  "raw_env \<Rightarrow> int \<Rightarrow> settings_hub \<Rightarrow> bytes \<Rightarrow> i32 \<Rightarrow> raw_cache \<Rightarrow> raw_cache_entry option \<times> raw_cache" where
  "ensure_raw_config_cache_entry env now_ms hub package_name user_id c =
     (if package_name = [] \<or> user_id < 0 \<or> package_name = SELF_PACKAGE_NAME then (None, c)
      else let dir = config_dir (hub_state hub)
        in if dir = [] then (None, c)
           else let version = config_version hub;
                    c = invalidate_cache_on_version_change version c
             in (case lookup_cached_entry package_name user_id version now_ms c of
                   Some cached \<Rightarrow> (Some cached, c)
                 | None \<Rightarrow>
                     (let entry = load_raw_config_entry env package_name user_id dir version now_ms
                      in (Some entry, upsert_entry package_name user_id entry c))))"

definition raw_flags_from_cache_entry :: "raw_cache_entry \<Rightarrow> raw_user_profile_flags" where
  "raw_flags_from_cache_entry e =
     \<lparr>raw_has_config = ce_has_config e, raw_is_enabled = (ce_has_config e \<and> ce_is_enabled e),
      raw_is_mapping_mode_only = (ce_has_config e \<and> ce_is_enabled e \<and> ce_is_mapping_mode_only e)\<rparr>"

definition raw_flags_default :: raw_user_profile_flags where
  "raw_flags_default = \<lparr>raw_has_config = False, raw_is_enabled = False, raw_is_mapping_mode_only = False\<rparr>"

definition get_user_flags_in_raw_config ::
  "raw_env \<Rightarrow> int \<Rightarrow> settings_hub \<Rightarrow> bytes \<Rightarrow> i32 \<Rightarrow> raw_cache \<Rightarrow> raw_user_profile_flags \<times> raw_cache" where
  "get_user_flags_in_raw_config env now_ms hub package_name user_id c =
     (case ensure_raw_config_cache_entry env now_ms hub package_name user_id c of
        (Some e, c) \<Rightarrow> (raw_flags_from_cache_entry e, c) | (None, c) \<Rightarrow> (raw_flags_default, c))"

definition has_enabled_user_profile_in_raw_config ::
  "raw_env \<Rightarrow> int \<Rightarrow> settings_hub \<Rightarrow> bytes \<Rightarrow> i32 \<Rightarrow> raw_cache \<Rightarrow> bool \<times> raw_cache" where
  "has_enabled_user_profile_in_raw_config env now_ms hub package_name user_id c =
     (case get_user_flags_in_raw_config env now_ms hub package_name user_id c of
        (flags, c) \<Rightarrow> (raw_is_enabled flags, c))"

definition get_user_sandboxed_paths_in_raw_config ::
  "raw_env \<Rightarrow> int \<Rightarrow> settings_hub \<Rightarrow> bytes \<Rightarrow> i32 \<Rightarrow> raw_cache \<Rightarrow> bytes list \<times> raw_cache" where
  "get_user_sandboxed_paths_in_raw_config env now_ms hub package_name user_id c =
     (case ensure_raw_config_cache_entry env now_ms hub package_name user_id c of
        (Some e, c) \<Rightarrow> (if ce_has_config e \<and> ce_is_enabled e then ce_sandboxed_paths e else [], c)
      | (None, c) \<Rightarrow> ([], c))"

definition get_user_read_only_paths_in_raw_config ::
  "raw_env \<Rightarrow> int \<Rightarrow> settings_hub \<Rightarrow> bytes \<Rightarrow> i32 \<Rightarrow> raw_cache \<Rightarrow> bytes list \<times> raw_cache" where
  "get_user_read_only_paths_in_raw_config env now_ms hub package_name user_id c =
     (case ensure_raw_config_cache_entry env now_ms hub package_name user_id c of
        (Some e, c) \<Rightarrow> (if ce_has_config e \<and> ce_is_enabled e then ce_read_only_paths e else [], c)
      | (None, c) \<Rightarrow> ([], c))"

definition scan_raw_apps_dir_for_enabled_user :: "raw_env \<Rightarrow> bytes \<Rightarrow> i32 \<Rightarrow> bool" where
  "scan_raw_apps_dir_for_enabled_user env apps_dir user_id =
     (case raw_dir env apps_dir of
        None \<Rightarrow> False
      | Some names \<Rightarrow> list_ex (\<lambda>name.
          (case strip_suffix name ''.json'' of
             None \<Rightarrow> False
           | Some package_name \<Rightarrow>
               if package_name = [] \<or> package_name = SELF_PACKAGE_NAME then False
               else let e = parse_raw_config_entry env package_name user_id (path_join apps_dir name) 0 0
                 in ce_has_config e \<and> ce_is_enabled e)) names)"

definition has_any_enabled_user_profile_in_raw_config :: "raw_env \<Rightarrow> settings_hub \<Rightarrow> i32 \<Rightarrow> bool" where
  "has_any_enabled_user_profile_in_raw_config env hub user_id =
     (if user_id < 0 then False
      else let dir = config_dir (hub_state hub)
        in if dir = [] then False
           else let apps_dir = path_join dir APPS_CONFIG_DIR
             in if raw_is_dir env apps_dir then scan_raw_apps_dir_for_enabled_user env apps_dir user_id
                else dir \<noteq> CONFIG_DIR \<and>
                  scan_raw_apps_dir_for_enabled_user env (path_join CONFIG_DIR APPS_CONFIG_DIR) user_id)"

section \<open>The second parser of the file format\<close>

lemma push_raw_read_only_eq:
  "push_raw_read_only_path acc raw u = push_read_only_path raw (storage_user_root_for_user u) acc"
proof -
  have eq: "eq_ignore_case p r \<Longrightarrow> \<not> is_child p r" for p r
    by (auto simp: is_child_iff eq_ignore_case_key match_key_def dest: prefix_length_le)
  show ?thesis
    by (auto simp: push_raw_read_only_path_def push_read_only_path_def resolve_allowed_path_rule_for_user_def
        rule_with_mark_def Let_def eq split: option.splits prod.splits if_splits)
qed

lemma foldl_cong_fun: "(\<And>a x. x \<in> set xs \<Longrightarrow> f a x = g a x) \<Longrightarrow> foldl f a xs = foldl g a xs"
  by (induction xs arbitrary: a) auto

lemma sort_dedup_empty: "sort_dedup_paths_case_insensitive [] = []"
  by (simp add: sort_dedup_paths_case_insensitive_def)

lemma string_items_other: "as_str v = None \<Longrightarrow> as_array v = None \<Longrightarrow> string_items v = []"
  by (simp add: string_items_def)

text \<open>
  The two parsers of the read-only rules agree: reading the rules straight from the file gives
  the same list as the loader puts into the profile before it drops the excluded ones.
\<close>

theorem raw_read_only_agrees:
  "parse_raw_read_only_paths value user_id = parse_read_only_paths value (storage_user_root_for_user user_id) []"
  by (auto simp: parse_raw_read_only_paths_def parse_read_only_paths_def push_raw_read_only_eq normalize_paths_def
      sort_dedup_empty string_items_other split: option.splits)

text \<open>
  The sandbox rules agree only as long as no rule carries the exclusion mark.
\<close>

lemma push_raw_sandboxed_eq:
  assumes "strip_prefix (trim raw) ''!'' = None"
  shows "push_raw_sandboxed_path acc raw u = push_sandboxed_path raw (storage_user_root_for_user u) acc"
proof -
  have "push_raw_sandboxed_path acc raw u = push_raw_read_only_path acc raw u"
    using assms by (simp add: push_raw_sandboxed_path_def push_raw_read_only_path_def Let_def)
  then show ?thesis by (simp add: push_raw_read_only_eq push_read_only_path_def push_sandboxed_path_def)
qed

text \<open>
  The two parsers of the sandbox rules agree on rules without an exclusion mark, and only on
  those: the direct scan takes the mark of \<^verbatim>\<open>!a\<close> for a part of the directory name, where the loader
  stores an exclusion of \<^verbatim>\<open>a\<close>.
\<close>

theorem raw_sandboxed_agrees_unmarked:
  "((\<forall>raw \<in> set (string_items value). strip_prefix (trim raw) ''!'' = None) \<longrightarrow>
      parse_raw_sandboxed_paths (Some value) user_id
        = parse_sandboxed_paths (Some value) (storage_user_root_for_user user_id) [])
   \<and> parse_raw_sandboxed_paths (Some (JString ''!a'')) 0 = [''/storage/emulated/0/!a'']
   \<and> parse_sandboxed_paths (Some (JString ''!a'')) (storage_user_root_for_user 0) [] = [''!/storage/emulated/0/a'']"
proof (intro conjI impI)
  assume "\<forall>raw \<in> set (string_items value). strip_prefix (trim raw) ''!'' = None"
  then have "foldl (\<lambda>paths path. push_raw_sandboxed_path paths path user_id) [] (string_items value)
      = foldl (\<lambda>acc raw. push_sandboxed_path raw (storage_user_root_for_user user_id) acc) [] (string_items value)"
    by (intro foldl_cong_fun) (simp add: push_raw_sandboxed_eq)
  then show "parse_raw_sandboxed_paths (Some value) user_id
      = parse_sandboxed_paths (Some value) (storage_user_root_for_user user_id) []"
    by (auto simp: parse_raw_sandboxed_paths_def parse_sandboxed_paths_def normalize_paths_def
        sort_dedup_empty string_items_other)
qed code_simp+

theorem raw_sandboxed_agrees_unmarked_witness:
  "parse_raw_sandboxed_paths (Some (JArray [JString ''Music'', JString '' b/c ''])) 0
     = parse_sandboxed_paths (Some (JArray [JString ''Music'', JString '' b/c ''])) (storage_user_root_for_user 0) []
   \<and> parse_sandboxed_paths (Some (JArray [JString ''Music'', JString '' b/c ''])) (storage_user_root_for_user 0) []
     = [''/storage/emulated/0/b/c'', ''/storage/emulated/0/Music'']"
proof -
  have "\<forall>raw \<in> set (string_items (JArray [JString ''Music'', JString '' b/c ''])). strip_prefix (trim raw) ''!'' = None"
    by code_simp
  moreover have "parse_sandboxed_paths (Some (JArray [JString ''Music'', JString '' b/c ''])) (storage_user_root_for_user 0) []
     = [''/storage/emulated/0/b/c'', ''/storage/emulated/0/Music'']" by code_simp
  ultimately show ?thesis using raw_sandboxed_agrees_unmarked [of "JArray [JString ''Music'', JString '' b/c '']" 0] by blast
qed

text \<open>
  The switch is read differently: a user section whose \<^verbatim>\<open>enabled\<close> member is not a boolean is
  enabled for the loader and disabled for the direct scan; on absent and boolean members they agree.
\<close>

theorem raw_enabled_agrees_iff_boolean:
  assumes "raw_read env path = Some content" and "raw_user_object env content user_id = Some user"
  shows "ce_is_enabled (parse_raw_config_entry env package_name user_id path version now_ms)
      = is_enabled (parse_user_profile key_order user_id user)
    \<longleftrightarrow> (case map_of user ''enabled'' of None \<Rightarrow> True | Some v \<Rightarrow> as_bool v \<noteq> None)"
proof -
  have inv: "is_enabled (foldl (\<lambda>p raw. push_allowed_rule raw root p) p raws) = is_enabled p"
    "is_enabled (foldl (\<lambda>p raw. push_excluded_rule raw root p) p raws) = is_enabled p" for root p raws
    by (induction raws arbitrary: p) (auto simp: push_allowed_rule_def push_excluded_rule_def Let_def split: option.splits)
  have "is_enabled (parse_user_profile key_order user_id user) = bool_or True (map_of user ''enabled'')"
    by (simp add: parse_user_profile_def parse_real_path_sections_def parse_allowed_section_def
        parse_excluded_section_def inv Let_def split: option.splits)
  then show ?thesis using assms
    by (auto simp: parse_raw_config_entry_def bool_or_def split: option.splits)
qed

definition demo_raw_env :: raw_env where
  "demo_raw_env =
     \<lparr>raw_json = (\<lambda>_. Some (JObject [(''users'', JObject [(''0'', JObject [(''enabled'', JNumber 1)])])])),
      raw_exists = (\<lambda>_. True), raw_read = (\<lambda>_. Some ''{}''), raw_is_dir = (\<lambda>_. True), raw_dir = (\<lambda>_. None)\<rparr>"

theorem raw_enabled_agrees_iff_boolean_witness:
  "ce_is_enabled (parse_raw_config_entry demo_raw_env ''a'' 0 ''/p'' 0 0)
    \<noteq> is_enabled (parse_user_profile (\<lambda>ks. ks) 0 [(''enabled'', JNumber 1)])"
proof -
  have r: "raw_read demo_raw_env ''/p'' = Some ''{}''" by (simp add: demo_raw_env_def)
  have u: "raw_user_object demo_raw_env ''{}'' 0 = Some [(''enabled'', JNumber 1)]" by code_simp
  from raw_enabled_agrees_iff_boolean [OF r u, of "''a''" 0 0 "\<lambda>ks. ks"] show ?thesis by simp
qed

section \<open>The cache\<close>

text \<open>The calls a thread has made, and the cache they leave.\<close>

type_synonym raw_call = "raw_env \<times> int \<times> settings_hub \<times> bytes \<times> i32"

definition raw_call_step :: "raw_cache \<Rightarrow> raw_call \<Rightarrow> raw_cache" where
  "raw_call_step c call =
     (case call of (env, now, hub, pkg, u) \<Rightarrow> snd (ensure_raw_config_cache_entry env now hub pkg u c))"

definition raw_run :: "raw_call list \<Rightarrow> raw_cache" where
  "raw_run calls = foldl raw_call_step raw_cache_new calls"

definition loaded_by :: "raw_cache_entry \<Rightarrow> raw_call \<Rightarrow> bool" where
  "loaded_by e call \<longleftrightarrow>
     (case call of (env, now, hub, _, _) \<Rightarrow>
        e = load_raw_config_entry env (ce_package_name e) (ce_user_id e) (config_dir (hub_state hub)) (config_version hub) now)"

definition raw_cache_ok :: "raw_call list \<Rightarrow> raw_cache \<Rightarrow> bool" where
  "raw_cache_ok calls c \<longleftrightarrow> length (rc_entries c) \<le> RAW_CACHE_CAP
     \<and> (\<forall>e \<in> set (rc_entries c). \<exists>call \<in> set calls. loaded_by e call)"

lemma load_raw_fields:
  "ce_package_name (load_raw_config_entry env pkg u dir v now) = pkg"
  "ce_user_id (load_raw_config_entry env pkg u dir v now) = u"
  "ce_config_version (load_raw_config_entry env pkg u dir v now) = v"
  "ce_cached_at_ms (load_raw_config_entry env pkg u dir v now) = now"
  by (simp_all add: load_raw_config_entry_def parse_raw_config_entry_def CacheEntry_missing_def Let_def split: option.split)

lemma replace_entry_Some:
  "replace_entry pkg u e es = Some es' \<Longrightarrow> length es' = length es \<and> set es' \<subseteq> insert e (set es)"
proof (induction es arbitrary: es')
  case (Cons x es)
  then show ?case by (auto split: if_splits)
qed simp

lemma upsert_entry_ok:
  assumes "length (rc_entries c) \<le> RAW_CACHE_CAP"
  shows "length (rc_entries (upsert_entry pkg u e c)) \<le> RAW_CACHE_CAP"
    "set (rc_entries (upsert_entry pkg u e c)) \<subseteq> insert e (set (rc_entries c))"
proof -
  have tl: "set (tl xs) \<subseteq> set xs" for xs :: "raw_cache_entry list" by (cases xs) auto
  show "length (rc_entries (upsert_entry pkg u e c)) \<le> RAW_CACHE_CAP"
    using assms replace_entry_Some [of pkg u e "rc_entries c"]
    by (auto simp: upsert_entry_def RAW_CACHE_CAP_def Let_def split: option.splits)
  show "set (rc_entries (upsert_entry pkg u e c)) \<subseteq> insert e (set (rc_entries c))"
    using replace_entry_Some [of pkg u e "rc_entries c"] tl [of "rc_entries c"]
    by (auto simp: upsert_entry_def Let_def split: option.splits)
qed

text \<open>One call: the answer is a cached or a new entry, and the cache stays within its bounds.\<close>

lemma ensure_raw_step:
  assumes inv: "raw_cache_ok calls c"
    and run: "ensure_raw_config_cache_entry env now hub pkg u c = (r, c')"
  shows "raw_cache_ok (calls @ [(env, now, hub, pkg, u)]) c'"
    "r = Some e \<Longrightarrow> ce_package_name e = pkg \<and> ce_user_id e = u \<and> ce_config_version e = config_version hub
       \<and> sat_sub_i64 now (ce_cached_at_ms e) \<le> RAW_CACHE_TTL_MS
       \<and> (\<exists>call \<in> set (calls @ [(env, now, hub, pkg, u)]). loaded_by e call)"
proof -
  let ?call = "(env, now, hub, pkg, u)" and ?v = "config_version hub"
  let ?c = "invalidate_cache_on_version_change ?v c"
  let ?e = "load_raw_config_entry env pkg u (config_dir (hub_state hub)) ?v now"
  have inv': "raw_cache_ok calls ?c" using inv by (auto simp: raw_cache_ok_def invalidate_cache_on_version_change_def)
  have new: "loaded_by ?e ?call" by (simp add: loaded_by_def load_raw_fields)
  have zero: "sat_sub_i64 now now \<le> RAW_CACHE_TTL_MS" by (simp add: sat_sub_i64_def RAW_CACHE_TTL_MS_def)
  consider (skip) "r = None" "c' = c"
    | (hit) e' where "lookup_cached_entry pkg u ?v now ?c = Some e'" "r = Some e'" "c' = ?c"
    | (miss) "r = Some ?e" "c' = upsert_entry pkg u ?e ?c"
  proof (cases "pkg = [] \<or> u < 0 \<or> pkg = SELF_PACKAGE_NAME \<or> config_dir (hub_state hub) = []")
    case True
    then have "ensure_raw_config_cache_entry env now hub pkg u c = (None, c)"
      unfolding ensure_raw_config_cache_entry_def Let_def by (elim disjE) simp_all
    with run have "r = None" "c' = c" by simp_all
    then show ?thesis by (rule skip)
  next
    case False
    with run hit miss show ?thesis
      by (cases "lookup_cached_entry pkg u ?v now ?c") (auto simp: ensure_raw_config_cache_entry_def Let_def)
  qed
  then have "raw_cache_ok (calls @ [?call]) c' \<and> (r = Some e \<longrightarrow> ce_package_name e = pkg \<and> ce_user_id e = u
      \<and> ce_config_version e = ?v \<and> sat_sub_i64 now (ce_cached_at_ms e) \<le> RAW_CACHE_TTL_MS
      \<and> (\<exists>call \<in> set (calls @ [?call]). loaded_by e call))"
  proof cases
    case skip
    then show ?thesis using inv by (auto simp: raw_cache_ok_def)
  next
    case hit
    then have "e' \<in> set (rc_entries ?c)" "ce_package_name e' = pkg" "ce_user_id e' = u" "ce_config_version e' = ?v"
      "sat_sub_i64 now (ce_cached_at_ms e') \<le> RAW_CACHE_TTL_MS"
      by (auto simp: lookup_cached_entry_def find_Some_iff split: option.splits if_splits)
    then show ?thesis using hit inv' by (auto simp: raw_cache_ok_def)
  next
    case miss
    have "length (rc_entries ?c) \<le> RAW_CACHE_CAP" using inv' by (simp add: raw_cache_ok_def)
    from upsert_entry_ok [OF this, of pkg u ?e] have "raw_cache_ok (calls @ [?call]) c'"
      using inv' miss(2) new by (auto simp: raw_cache_ok_def)
    then show ?thesis using miss(1) new zero by (auto simp: load_raw_fields)
  qed
  then show "raw_cache_ok (calls @ [?call]) c'"
    "r = Some e \<Longrightarrow> ce_package_name e = pkg \<and> ce_user_id e = u \<and> ce_config_version e = ?v
       \<and> sat_sub_i64 now (ce_cached_at_ms e) \<le> RAW_CACHE_TTL_MS
       \<and> (\<exists>call \<in> set (calls @ [?call]). loaded_by e call)" by auto
qed

lemma raw_run_ok: "raw_cache_ok calls (raw_run calls)"
proof (induction calls rule: rev_induct)
  case (snoc call calls)
  obtain env now hub pkg u where call: "call = (env, now, hub, pkg, u)" by (metis prod_cases5)
  obtain r c' where "ensure_raw_config_cache_entry env now hub pkg u (raw_run calls) = (r, c')" by fastforce
  from ensure_raw_step(1) [OF snoc this] this show ?case by (simp add: raw_run_def raw_call_step_def call)
qed (simp add: raw_run_def raw_cache_ok_def raw_cache_new_def)

text \<open>
  (C30) After any sequence of calls, over a file system and a clock that may change between them, the
  thread's cache holds at most 128 entries, and an answer is never older than the cache's lifetime:
  it is what loading the package's file gave at some call made at most one second before, under the
  configuration version that is current now.
\<close>

theorem raw_answer_fresh:
  assumes "ensure_raw_config_cache_entry env now_ms hub package_name user_id (raw_run calls) = (Some e, c)"
  shows "length (rc_entries c) \<le> 128 \<and>
    (\<exists>(env', now', hub', _) \<in> set (calls @ [(env, now_ms, hub, package_name, user_id)]).
       e = load_raw_config_entry env' package_name user_id (config_dir (hub_state hub')) (config_version hub') now'
       \<and> config_version hub' = config_version hub \<and> sat_sub_i64 now_ms now' \<le> 1000)"
proof -
  note step = ensure_raw_step [OF raw_run_ok assms]
  from step(2) [OF refl] obtain call where e: "ce_package_name e = package_name" "ce_user_id e = user_id"
    "ce_config_version e = config_version hub" "sat_sub_i64 now_ms (ce_cached_at_ms e) \<le> RAW_CACHE_TTL_MS"
    and call: "call \<in> set (calls @ [(env, now_ms, hub, package_name, user_id)])" "loaded_by e call" by blast
  obtain env' now' hub' p u where c: "call = (env', now', hub', p, u)" by (metis prod_cases5)
  then have l: "e = load_raw_config_entry env' package_name user_id (config_dir (hub_state hub')) (config_version hub') now'"
    using call(2) e by (simp add: loaded_by_def)
  then have "ce_config_version e = config_version hub'" "ce_cached_at_ms e = now'" by (metis load_raw_fields(3,4))+
  with e l call(1) c step(1) show ?thesis
    by (fastforce simp: raw_cache_ok_def RAW_CACHE_CAP_def RAW_CACHE_TTL_MS_def)
qed

theorem raw_answer_fresh_witness:
  "let c = snd (ensure_raw_config_cache_entry demo_raw_env 5 SettingsHub_new ''a'' 0 (raw_run []))
   in length (rc_entries c) \<le> 128"
proof -
  have "''a'' \<noteq> SELF_PACKAGE_NAME" "CONFIG_DIR \<noteq> []" by (simp_all add: SELF_PACKAGE_NAME_def CONFIG_DIR_def)
  then have "\<exists>e c. ensure_raw_config_cache_entry demo_raw_env 5 SettingsHub_new ''a'' 0 (raw_run []) = (Some e, c)"
    by (simp add: ensure_raw_config_cache_entry_def SettingsHub_new_def SettingsState_new_def Let_def split: option.split)
  then obtain e c where "ensure_raw_config_cache_entry demo_raw_env 5 SettingsHub_new ''a'' 0 (raw_run []) = (Some e, c)"
    by blast
  from raw_answer_fresh [OF this] this show ?thesis by (simp add: Let_def)
qed

end
