(* ===== verification/Merge.thy ===== *)
theory Merge
  imports Raw_Scan
begin

text \<open>
  Model of \<^verbatim>\<open>src/config/merge.rs\<close>: the mappings of all applications of a user merged into one list,
  and the resolution of a path to the application that owns it. The applications are a hash map, so
  the list \<^const>\<open>apps\<close> is traversed in no particular order; the theorems hold for every order, and
  the ownership theorem shows that its answer does not depend on it. \<^verbatim>\<open>policy\<close>'s uid table is the
  argument \<open>uids\<close>.
\<close>

section \<open>Model\<close>

datatype package_path_match_mode = Redirect | Enabled | MappingRequest | MappingTarget | Monitor

definition DOWNLOAD_PROVIDER_PACKAGE :: bytes where
  "DOWNLOAD_PROVIDER_PACKAGE = ''com.android.providers.downloads''"

definition DOWNLOAD_PROVIDER_UI_PACKAGE :: bytes where
  "DOWNLOAD_PROVIDER_UI_PACKAGE = ''com.android.providers.downloads.ui''"

definition is_public_storage_collection_root :: "bytes \<Rightarrow> bool" where
  "is_public_storage_collection_root segment \<longleftrightarrow>
     to_ascii_lowercase segment \<in> set
       [''alarms'', ''android'', ''audiobooks'', ''dcim'', ''documents'', ''download'', ''downloads'', ''movies'',
        ''music'', ''notifications'', ''pictures'', ''podcasts'', ''recordings'', ''ringtones'']"

definition is_public_media_collection_child :: "bytes \<Rightarrow> bool" where
  "is_public_media_collection_child segment \<longleftrightarrow>
     to_ascii_lowercase segment \<in> set [''camera'', ''screenshot'', ''screenshots'']"

definition merge_resolve_mapping_path_for_user :: "i32 \<Rightarrow> bytes \<Rightarrow> bytes" where
  "merge_resolve_mapping_path_for_user user_id path =
     (let storage_root = storage_user_root_for_user user_id;
          resolved = resolve_user_path (normalize path) user_id
      in if resolved = [] \<or> has_unsafe_segments resolved then []
         else let resolved = (if \<not> is_absolute resolved then normalize (path_join storage_root resolved) else resolved)
           in if \<not> is_safe_namespace_path resolved then [] else resolved)"

definition merge_resolve_mapping_request_path_for_user :: "i32 \<Rightarrow> bytes \<Rightarrow> bytes" where
  "merge_resolve_mapping_request_path_for_user user_id path =
     (let resolved = merge_resolve_mapping_path_for_user user_id path
      in if is_application_private_root resolved then [] else resolved)"

definition resolve_mapping_request_storage_path_for_user :: "i32 \<Rightarrow> bytes \<Rightarrow> bytes" where
  "resolve_mapping_request_storage_path_for_user user_id path =
     (let resolved = merge_resolve_mapping_request_path_for_user user_id path
      in if \<not> is_child resolved (storage_user_root_for_user user_id) then [] else resolved)"

definition is_specific_storage_owner_hint :: "i32 \<Rightarrow> bytes \<Rightarrow> bool" where
  "is_specific_storage_owner_hint user_id path =
     (let resolved_path = resolve_mapping_request_storage_path_for_user user_id path
      in case storage_relative_path_for_user resolved_path user_id of
           None \<Rightarrow> False
         | Some relative_path \<Rightarrow>
             (case nonempty_parts slash relative_path of
                [] \<Rightarrow> False
              | [first_segment] \<Rightarrow> \<not> is_public_storage_collection_root first_segment
              | first_segment # second_segment # _ \<Rightarrow> \<not> is_public_media_collection_child second_segment))"

definition is_specific_mapping_request_owner_hint :: "i32 \<Rightarrow> bytes \<Rightarrow> bool" where
  "is_specific_mapping_request_owner_hint user_id path = is_specific_storage_owner_hint user_id path"

definition is_specific_mapping_target_owner_hint :: "i32 \<Rightarrow> bytes \<Rightarrow> bool" where
  "is_specific_mapping_target_owner_hint user_id path =
     (let resolved_path = merge_resolve_mapping_path_for_user user_id path
      in if resolved_path = [] then False
         else if is_same_or_child resolved_path (storage_user_root_for_user user_id) then
           is_specific_storage_owner_hint user_id resolved_path
         else True)"

definition is_valid_mapping_target_for_redirect_owner :: "i32 \<Rightarrow> bytes \<Rightarrow> bool" where
  "is_valid_mapping_target_for_redirect_owner user_id path \<longleftrightarrow> merge_resolve_mapping_path_for_user user_id path \<noteq> []"

text \<open>The packages with the longest matching rule so far, and the length of that rule.\<close>

definition update_matched_packages :: "bytes \<Rightarrow> bytes \<Rightarrow> bytes \<Rightarrow> bytes list \<times> nat \<Rightarrow> bytes list \<times> nat" where
  "update_matched_packages package_name rule normalized acc =
     (case acc of (matched_packages, matched_prefix_len) \<Rightarrow>
        if rule = [] \<or> \<not> matches rule normalized True then acc
        else let prefix_len = length rule
          in if prefix_len < matched_prefix_len then acc
             else if matched_prefix_len < prefix_len then ([package_name], prefix_len)
             else if \<not> list_ex (\<lambda>matched. matched = package_name) matched_packages
               then (matched_packages @ [package_name], matched_prefix_len)
             else acc)"

fun should_match_mapping_target_for_mode :: "package_path_match_mode \<Rightarrow> i32 \<Rightarrow> bytes \<Rightarrow> bool" where
  "should_match_mapping_target_for_mode Redirect user_id path = False"
| "should_match_mapping_target_for_mode MappingRequest user_id path = False"
| "should_match_mapping_target_for_mode MappingTarget user_id path = True"
| "should_match_mapping_target_for_mode Enabled user_id path = True"
| "should_match_mapping_target_for_mode Monitor user_id path = is_specific_mapping_target_owner_hint user_id path"

definition should_match_default_redirect_target_for_mode :: "package_path_match_mode \<Rightarrow> bool" where
  "should_match_default_redirect_target_for_mode mode \<longleftrightarrow> mode \<noteq> MappingRequest \<and> mode \<noteq> MappingTarget"

definition prefer_download_provider_match :: "bytes list \<Rightarrow> bytes option" where
  "prefer_download_provider_match packages =
     (if length packages < 2 then None
      else if \<not> list_ex (\<lambda>p. p = DOWNLOAD_PROVIDER_PACKAGE) packages then None
      else if list_all (\<lambda>p. p = DOWNLOAD_PROVIDER_PACKAGE \<or> p = DOWNLOAD_PROVIDER_UI_PACKAGE) packages
        then Some DOWNLOAD_PROVIDER_PACKAGE
      else None)"

definition match_mapping_rules ::
  "i32 \<Rightarrow> package_path_match_mode \<Rightarrow> bytes \<Rightarrow> bytes \<Rightarrow> bytes list \<times> nat \<Rightarrow> path_mapping \<Rightarrow> bytes list \<times> nat" where
  "match_mapping_rules user_id mode package_name normalized acc mapping =
     (let req = merge_resolve_mapping_request_path_for_user user_id (request_path mapping);
          fin = merge_resolve_mapping_path_for_user user_id (final_path mapping)
      in if req = [] \<or> fin = [] \<or> \<not> is_valid_mapping_target_for_redirect_owner user_id fin then acc
         else let acc = (if is_specific_mapping_request_owner_hint user_id req
                           then update_matched_packages package_name req normalized acc else acc)
           in if should_match_mapping_target_for_mode mode user_id fin
              then update_matched_packages package_name fin normalized acc else acc)"

definition enabled_profile :: "app_profile \<Rightarrow> i32 \<Rightarrow> user_profile option" where
  "enabled_profile app user_id =
     (case map_of app user_id of Some user \<Rightarrow> if is_enabled user then Some user else None | None \<Rightarrow> None)"

definition match_app_rules ::
  "i32 \<Rightarrow> package_path_match_mode \<Rightarrow> bytes \<Rightarrow> bytes list \<times> nat \<Rightarrow> bytes \<times> app_profile \<Rightarrow> bytes list \<times> nat" where
  "match_app_rules user_id mode normalized acc entry =
     (case entry of (package_name, app) \<Rightarrow>
        if package_name = SELF_PACKAGE_NAME \<or> is_system_writer_package package_name then acc
        else (case enabled_profile app user_id of
            None \<Rightarrow> acc
          | Some user \<Rightarrow>
              (let acc = (if should_match_default_redirect_target_for_mode mode
                            then update_matched_packages package_name (default_redirect_target package_name user_id) normalized acc
                            else acc)
               in foldl (match_mapping_rules user_id mode package_name normalized) acc (path_mappings user))))"

definition resolve_package_by_path_in_apps ::
  "(bytes \<times> app_profile) list \<Rightarrow> i32 \<Rightarrow> bytes \<Rightarrow> package_path_match_mode \<Rightarrow> bytes" where
  "resolve_package_by_path_in_apps all_apps user_id path mode =
     (let normalized = normalize path;
          (matched_packages, _) = foldl (match_app_rules user_id mode normalized) ([], 0) all_apps
      in if length matched_packages = 1 then hd matched_packages
         else (case prefer_download_provider_match matched_packages of Some p \<Rightarrow> p | None \<Rightarrow> []))"

definition resolve_redirect_package_by_path_for_user :: "settings_state \<Rightarrow> i32 \<Rightarrow> bytes \<Rightarrow> bytes" where
  "resolve_redirect_package_by_path_for_user st app_uid path =
     (if \<not> settings_loaded st \<or> path = [] then []
      else resolve_package_by_path_in_apps (apps st) (user_id_from_uid app_uid) path Redirect)"

definition resolve_enabled_package_by_path_for_user :: "settings_state \<Rightarrow> i32 \<Rightarrow> bytes \<Rightarrow> bytes" where
  "resolve_enabled_package_by_path_for_user st user_id path =
     (if \<not> settings_loaded st \<or> user_id < 0 \<or> path = [] then []
      else resolve_package_by_path_in_apps (apps st) user_id path Enabled)"

definition resolve_mapping_request_package_by_path_for_user :: "settings_state \<Rightarrow> i32 \<Rightarrow> bytes \<Rightarrow> bytes" where
  "resolve_mapping_request_package_by_path_for_user st user_id path =
     (if \<not> settings_loaded st \<or> user_id < 0 \<or> path = [] then []
      else resolve_package_by_path_in_apps (apps st) user_id path MappingRequest)"

definition resolve_mapping_target_package_by_path_for_user :: "settings_state \<Rightarrow> i32 \<Rightarrow> bytes \<Rightarrow> bytes" where
  "resolve_mapping_target_package_by_path_for_user st user_id path =
     (if \<not> settings_loaded st \<or> user_id < 0 \<or> path = [] then []
      else resolve_package_by_path_in_apps (apps st) user_id path MappingTarget)"

definition resolve_monitor_package_by_path_for_user :: "settings_state \<Rightarrow> i32 \<Rightarrow> bytes \<Rightarrow> bytes" where
  "resolve_monitor_package_by_path_for_user st user_id path =
     (if \<not> settings_loaded st \<or> user_id < 0 \<or> path = [] then []
      else resolve_package_by_path_in_apps (apps st) user_id path Monitor)"

definition is_public_mapping_target_path :: "i32 \<Rightarrow> bytes \<Rightarrow> bool" where
  "is_public_mapping_target_path user_id path =
     (if path = [] \<or> has_unsafe_segments path then False
      else if \<not> is_child path (storage_user_root_for_user user_id) then False
      else extract_android_private_path_owner path = [])"

definition is_public_mapping_target_path_for_user :: "settings_state \<Rightarrow> i32 \<Rightarrow> bytes \<Rightarrow> bool" where
  "is_public_mapping_target_path_for_user st user_id path =
     (if \<not> settings_loaded st \<or> user_id < 0 \<or> path = [] then False
      else let normalized = normalize path
        in if \<not> is_public_mapping_target_path user_id normalized then False
           else list_ex (\<lambda>(package_name, app).
             if package_name = SELF_PACKAGE_NAME \<or> is_system_writer_package package_name then False
             else (case enabled_profile app user_id of
                 None \<Rightarrow> False
               | Some user \<Rightarrow> list_ex (\<lambda>mapping.
                   (let fin = normalize (final_path mapping)
                    in is_public_mapping_target_path user_id fin \<and> is_same_or_child normalized fin))
                   (path_mappings user))) (apps st))"

text \<open>
  Merging the mappings: the accumulator holds the merged list, the targets by request key and the
  keys of the shared groups already applied.
\<close>

type_synonym merge_acc = "path_mapping list \<times> (bytes \<times> bytes) list \<times> bytes list"

definition merge_mapping ::
  "i32 \<Rightarrow> path_mapping list \<times> (bytes \<times> bytes) list \<Rightarrow> path_mapping \<Rightarrow> path_mapping list \<times> (bytes \<times> bytes) list" where
  "merge_mapping user_id acc mapping =
     (case acc of (merged, target_by_current) \<Rightarrow>
        if request_path mapping = [] \<or> final_path mapping = [] then acc
        else if \<not> is_valid_mapping_target_for_redirect_owner user_id (final_path mapping) then acc
        else let request_key = match_key (request_path mapping)
          in (case map_of target_by_current request_key of
                Some _ \<Rightarrow> acc
              | None \<Rightarrow> (merged @ [mapping], AList.update request_key (final_path mapping) target_by_current)))"

text \<open>The shared-group guard: \<^const>\<open>None\<close> skips the package.\<close>

definition shared_group_guard ::
  "shared_uid_state \<Rightarrow> (bytes \<times> app_profile) list \<Rightarrow> i32 \<Rightarrow> bytes \<Rightarrow> bytes list \<Rightarrow> bytes list option" where
  "shared_group_guard uids all_apps user_id package_name applied_shared_keys =
     (if is_shared_group_package uids package_name then
        (let members = sort (get_shared_group_members uids package_name)
         in if members = [] then None
            else let group_key = join_char CHR ''|'' members
              in if group_key \<noteq> [] \<and> group_key \<in> set applied_shared_keys then None
                 else if \<not> is_shared_group_consistent uids all_apps package_name user_id then None
                 else Some (if group_key \<noteq> [] then List.insert group_key applied_shared_keys else applied_shared_keys))
      else Some applied_shared_keys)"

definition merge_app ::
  "shared_uid_state \<Rightarrow> (bytes \<times> app_profile) list \<Rightarrow> i32 \<Rightarrow> merge_acc \<Rightarrow> bytes \<times> app_profile \<Rightarrow> merge_acc" where
  "merge_app uids all_apps user_id acc entry =
     (case (acc, entry) of ((merged, targets, applied), (package_name, app)) \<Rightarrow>
        (case shared_group_guard uids all_apps user_id package_name applied of
           None \<Rightarrow> acc
         | Some applied \<Rightarrow>
             (case enabled_profile app user_id of
                None \<Rightarrow> (merged, targets, applied)
              | Some user \<Rightarrow>
                  (case foldl (merge_mapping user_id) (merged, targets) (path_mappings user) of
                     (merged, targets) \<Rightarrow> (merged, targets, applied)))))"

definition get_merged_path_mappings_for_user :: "shared_uid_state \<Rightarrow> settings_state \<Rightarrow> i32 \<Rightarrow> path_mapping list" where
  "get_merged_path_mappings_for_user uids st app_uid =
     (if \<not> settings_loaded st then []
      else case foldl (merge_app uids (apps st) (user_id_from_uid app_uid)) ([], [], []) (apps st) of
        (merged, _, _) \<Rightarrow> sort_path_mappings_longest_request_first merged)"

section \<open>Ownership of a path\<close>

text \<open>The rules by which a mapping speaks for its application, and those of an application.\<close>

definition mapping_owner_rules :: "i32 \<Rightarrow> package_path_match_mode \<Rightarrow> path_mapping \<Rightarrow> bytes list" where
  "mapping_owner_rules user_id mode mapping =
     (let req = merge_resolve_mapping_request_path_for_user user_id (request_path mapping);
          fin = merge_resolve_mapping_path_for_user user_id (final_path mapping)
      in if req = [] \<or> fin = [] \<or> \<not> is_valid_mapping_target_for_redirect_owner user_id fin then []
         else (if is_specific_mapping_request_owner_hint user_id req then [req] else [])
            @ (if should_match_mapping_target_for_mode mode user_id fin then [fin] else []))"

definition app_owner_rules :: "i32 \<Rightarrow> package_path_match_mode \<Rightarrow> bytes \<times> app_profile \<Rightarrow> (bytes \<times> bytes) list" where
  "app_owner_rules user_id mode entry =
     (case entry of (p, app) \<Rightarrow>
        if p = SELF_PACKAGE_NAME \<or> is_system_writer_package p then []
        else (case enabled_profile app user_id of
            None \<Rightarrow> []
          | Some user \<Rightarrow>
              map (Pair p) ((if should_match_default_redirect_target_for_mode mode
                             then [default_redirect_target p user_id] else [])
                @ concat (map (mapping_owner_rules user_id mode) (path_mappings user)))))"

lemma match_mapping_rules_fold:
  "match_mapping_rules u mode p n acc m
    = foldl (\<lambda>acc (p, r). update_matched_packages p r n acc) acc (map (Pair p) (mapping_owner_rules u mode m))"
  by (simp add: match_mapping_rules_def mapping_owner_rules_def Let_def)

lemma match_mappings_fold:
  "foldl (match_mapping_rules u mode p n) acc ms
    = foldl (\<lambda>acc (p, r). update_matched_packages p r n acc) acc (map (Pair p) (concat (map (mapping_owner_rules u mode) ms)))"
  by (induction ms arbitrary: acc) (simp_all add: match_mapping_rules_fold)

lemma match_app_rules_fold:
  "match_app_rules u mode n acc entry
    = foldl (\<lambda>acc (p, r). update_matched_packages p r n acc) acc (app_owner_rules u mode entry)"
  by (simp add: match_app_rules_def app_owner_rules_def match_mappings_fold Let_def split: prod.split option.split)

lemma match_apps_fold:
  "foldl (match_app_rules u mode n) acc as
    = foldl (\<lambda>acc (p, r). update_matched_packages p r n acc) acc (concat (map (app_owner_rules u mode) as))"
  by (induction as arbitrary: acc) (simp_all add: match_app_rules_fold)

text \<open>The rules of a list that match the path.\<close>

definition matching_rules :: "bytes \<Rightarrow> (bytes \<times> bytes) list \<Rightarrow> (bytes \<times> bytes) set" where
  "matching_rules n cs = {(p, r). (p, r) \<in> set cs \<and> r \<noteq> [] \<and> matches r n True}"

definition best_match_inv :: "(bytes \<times> bytes) set \<Rightarrow> bytes list \<times> nat \<Rightarrow> bool" where
  "best_match_inv M acc \<longleftrightarrow> distinct (fst acc) \<and> (\<forall>(p, r) \<in> M. length r \<le> snd acc)
     \<and> set (fst acc) = {p. \<exists>r. (p, r) \<in> M \<and> length r = snd acc} \<and> (if M = {} then snd acc = 0 else fst acc \<noteq> [])"

lemma update_matched_inv:
  assumes inv: "best_match_inv (matching_rules n cs) acc"
  shows "best_match_inv (matching_rules n (cs @ [(p, r)])) (update_matched_packages p r n acc)"
proof (cases "r = [] \<or> \<not> matches r n True")
  case True
  then have "matching_rules n (cs @ [(p, r)]) = matching_rules n cs" by (auto simp: matching_rules_def)
  with True inv show ?thesis by (auto simp: update_matched_packages_def split: prod.split)
next
  case False
  let ?M = "matching_rules n cs"
  obtain ps len where acc: "acc = (ps, len)" by (cases acc)
  have M: "matching_rules n (cs @ [(p, r)]) = insert (p, r) ?M" using False by (auto simp: matching_rules_def)
  have facts: "distinct ps" "\<And>p r. (p, r) \<in> ?M \<Longrightarrow> length r \<le> len"
    "set ps = {p. \<exists>r. (p, r) \<in> ?M \<and> length r = len}" "if ?M = {} then len = 0 else ps \<noteq> []"
    using inv acc by (auto simp: best_match_inv_def split: if_splits)
  consider (shorter) "length r < len" | (longer) "len < length r" | (same) "length r = len" by linarith
  then show ?thesis
  proof cases
    case shorter
    then have "ps \<noteq> []" using facts(4) by (auto split: if_splits)
    with shorter False show ?thesis using facts
      by (auto simp: best_match_inv_def M acc update_matched_packages_def)
  next
    case longer
    with False show ?thesis using facts(2)
      by (fastforce simp: best_match_inv_def M acc update_matched_packages_def)
  next
    case same
    with False show ?thesis using facts
      by (auto simp: best_match_inv_def M acc update_matched_packages_def list_ex_iff)
  qed
qed

lemma matched_packages_spec:
  "best_match_inv (matching_rules n cs) (foldl (\<lambda>acc (p, r). update_matched_packages p r n acc) ([], 0) cs)"
proof (induction cs rule: rev_induct)
  case Nil
  show ?case by (simp add: best_match_inv_def matching_rules_def)
next
  case (snoc c cs)
  obtain p r where "c = (p, r)" by (cases c)
  with update_matched_inv [OF snoc, of p r] show ?case by simp
qed

text \<open>An application owns a path through a rule when it may own paths at all and the rule matches.\<close>

definition owns_by_rule ::
  "(bytes \<times> app_profile) list \<Rightarrow> i32 \<Rightarrow> package_path_match_mode \<Rightarrow> bytes \<Rightarrow> bytes \<Rightarrow> bytes \<Rightarrow> bool" where
  "owns_by_rule all_apps user_id mode normalized p r \<longleftrightarrow>
     (\<exists>app user. (p, app) \<in> set all_apps \<and> p \<noteq> SELF_PACKAGE_NAME \<and> \<not> is_system_writer_package p
        \<and> enabled_profile app user_id = Some user \<and> r \<noteq> [] \<and> matches r normalized True
        \<and> (should_match_default_redirect_target_for_mode mode \<and> r = default_redirect_target p user_id
            \<or> (\<exists>m \<in> set (path_mappings user). r \<in> set (mapping_owner_rules user_id mode m))))"

definition path_owners :: "(bytes \<times> app_profile) list \<Rightarrow> i32 \<Rightarrow> package_path_match_mode \<Rightarrow> bytes \<Rightarrow> bytes set" where
  "path_owners all_apps user_id mode normalized =
     {p. \<exists>r. owns_by_rule all_apps user_id mode normalized p r
        \<and> (\<forall>p' r'. owns_by_rule all_apps user_id mode normalized p' r' \<longrightarrow> length r' \<le> length r)}"

lemma app_owner_rules_in:
  "(p, r) \<in> set (app_owner_rules u mode a) \<longleftrightarrow>
     (\<exists>app user. a = (p, app) \<and> p \<noteq> SELF_PACKAGE_NAME \<and> \<not> is_system_writer_package p
        \<and> enabled_profile app u = Some user
        \<and> (should_match_default_redirect_target_for_mode mode \<and> r = default_redirect_target p u
            \<or> (\<exists>m \<in> set (path_mappings user). r \<in> set (mapping_owner_rules u mode m))))"
proof (cases a)
  case (Pair q app)
  have pairs: "(p, r) \<in> Pair q ` S \<longleftrightarrow> p = q \<and> r \<in> S" for S by auto
  show ?thesis
    by (cases "enabled_profile app u") (auto simp: Pair app_owner_rules_def pairs)
qed

lemma owns_by_rule_iff:
  "owns_by_rule as u mode n p r \<longleftrightarrow> (p, r) \<in> matching_rules n (concat (map (app_owner_rules u mode) as))"
  by (auto simp: owns_by_rule_def matching_rules_def app_owner_rules_in)

lemma no_download_provider_owner:
  assumes "\<forall>p \<in> set ps. \<not> is_system_writer_package p"
  shows "prefer_download_provider_match ps = None"
  using assms by (auto simp: prefer_download_provider_match_def list_ex_iff is_system_writer_package_def
      is_system_writer_candidate_def DOWNLOAD_PROVIDER_def DOWNLOAD_PROVIDER_PACKAGE_def)

text \<open>
  (C24) The owner of a path is the application with the longest matching ownership rule, if there is
  exactly one such application, and otherwise nobody: the answer depends only on the set of
  configured applications, not on the order in which the hash map yields them. (The preference for
  the download provider among several candidates never takes effect, because the provider is a
  system writer and such packages are never candidates.)
\<close>

theorem resolve_package_unique_owner:
  fixes all_apps :: "(bytes \<times> app_profile) list" and user_id :: i32 and path :: bytes
    and mode :: package_path_match_mode
  defines "owner \<equiv> resolve_package_by_path_in_apps all_apps user_id path mode"
    and "owners \<equiv> path_owners all_apps user_id mode (normalize path)"
  shows "(if \<exists>p. owners = {p} then owners = {owner} else owner = [])"
proof -
  let ?cs = "concat (map (app_owner_rules user_id mode) all_apps)"
  let ?M = "matching_rules (normalize path) ?cs"
  obtain ps len where f: "foldl (match_app_rules user_id mode (normalize path)) ([], 0) all_apps = (ps, len)" by fastforce
  have inv: "best_match_inv ?M (ps, len)"
    using matched_packages_spec [of "normalize path" ?cs] f by (simp add: match_apps_fold)
  have own: "owns_by_rule all_apps user_id mode (normalize path) p r \<longleftrightarrow> (p, r) \<in> ?M" for p r
    by (rule owns_by_rule_iff)
  have max: "length r \<le> len" if "(p, r) \<in> ?M" for p r using inv that by (auto simp: best_match_inv_def)
  have ps: "p \<in> set ps \<longleftrightarrow> (\<exists>r. (p, r) \<in> ?M \<and> length r = len)" for p using inv by (simp add: best_match_inv_def)
  have ne: "?M \<noteq> {} \<Longrightarrow> ps \<noteq> []" using inv by (auto simp: best_match_inv_def)
  have "owners = set ps"
  proof (rule set_eqI)
    fix p
    have "length r = len" if r: "(p, r) \<in> ?M" "\<forall>p' r'. (p', r') \<in> ?M \<longrightarrow> length r' \<le> length r" for r
    proof -
      have "hd ps \<in> set ps" using ne r(1) by (intro hd_in_set) blast
      then obtain r' where "(hd ps, r') \<in> ?M" "length r' = len" using ps [of "hd ps"] by blast
      with r max show ?thesis by (metis le_antisym)
    qed
    with ps max show "p \<in> owners \<longleftrightarrow> p \<in> set ps" unfolding owners_def path_owners_def own by auto
  qed
  moreover have "prefer_download_provider_match ps = None"
    using ps own by (intro no_download_provider_owner) (auto simp: owns_by_rule_def)
  moreover have "distinct ps" using inv by (simp add: best_match_inv_def)
  ultimately show ?thesis
    using f by (cases ps rule: remdups_adj.cases) (auto simp: owner_def resolve_package_by_path_in_apps_def Let_def)
qed

section \<open>Merged mappings\<close>

text \<open>What the merged list may contain: mappings of enabled applications with a valid target.\<close>

definition mergeable :: "(bytes \<times> app_profile) list \<Rightarrow> i32 \<Rightarrow> path_mapping \<Rightarrow> bool" where
  "mergeable all_apps user_id m \<longleftrightarrow>
     (\<exists>p app user. (p, app) \<in> set all_apps \<and> enabled_profile app user_id = Some user \<and> m \<in> set (path_mappings user))
     \<and> request_path m \<noteq> [] \<and> is_valid_mapping_target_for_redirect_owner user_id (final_path m)"

definition merge_inv :: "(path_mapping \<Rightarrow> bool) \<Rightarrow> path_mapping list \<times> (bytes \<times> bytes) list \<Rightarrow> bool" where
  "merge_inv P acc \<longleftrightarrow> distinct (request_keys (fst acc)) \<and> list_all P (fst acc)
     \<and> set (keys_of (snd acc)) = set (request_keys (fst acc))"

lemma merge_mapping_inv:
  assumes "merge_inv P acc"
    and "request_path m \<noteq> [] \<Longrightarrow> is_valid_mapping_target_for_redirect_owner u (final_path m) \<Longrightarrow> P m"
  shows "merge_inv P (merge_mapping u acc m)"
proof -
  obtain ms ts where acc: "acc = (ms, ts)" by (cases acc)
  have "map_of ts k = None \<longleftrightarrow> k \<notin> set (request_keys ms)" for k
    using assms(1) acc by (simp add: merge_inv_def map_of_eq_None_iff)
  then show ?thesis using assms acc
    by (auto simp: merge_inv_def merge_mapping_def dom_update Let_def split: option.splits)
qed

lemma merge_mappings_inv:
  assumes "merge_inv P acc"
    and "\<And>m. m \<in> set ms \<Longrightarrow> request_path m \<noteq> [] \<Longrightarrow> is_valid_mapping_target_for_redirect_owner u (final_path m) \<Longrightarrow> P m"
  shows "merge_inv P (foldl (merge_mapping u) acc ms)"
  using assms by (induction ms arbitrary: acc) (simp_all add: merge_mapping_inv)

lemma merge_apps_inv:
  assumes "merge_inv (mergeable all u) (ms, ts)" and "set as \<subseteq> set all"
    and "foldl (merge_app uids all u) (ms, ts, ap) as = (ms', ts', ap')"
  shows "merge_inv (mergeable all u) (ms', ts')"
  using assms
proof (induction as arbitrary: ms ts ap)
  case (Cons a as)
  obtain p app where a: "a = (p, app)" by (cases a)
  obtain ms1 ts1 ap1 where step: "merge_app uids all u (ms, ts, ap) a = (ms1, ts1, ap1)" by (metis prod_cases3)
  have "merge_inv (mergeable all u) (foldl (merge_mapping u) (ms, ts) (path_mappings user))"
    if "enabled_profile app u = Some user" for user
  proof (rule merge_mappings_inv [OF Cons.prems(1)])
    fix m
    assume "m \<in> set (path_mappings user)" "request_path m \<noteq> []" "is_valid_mapping_target_for_redirect_owner u (final_path m)"
    moreover have "(p, app) \<in> set all" using Cons.prems(2) a by simp
    ultimately show "mergeable all u m" using that by (auto simp: mergeable_def)
  qed
  then have "merge_inv (mergeable all u) (ms1, ts1)"
    using step Cons.prems(1) by (auto simp: merge_app_def a split: option.splits prod.splits)
  then show ?case using Cons.IH [of ms1 ts1 ap1] Cons.prems(2,3) step by simp
qed simp

text \<open>
  The merged mapping list is a function of the request path: no two entries have the same request
  path up to case, so two applications never fight over a directory; every entry is a mapping of an
  enabled application with a safe target, and longer request paths come first.
\<close>

theorem merged_mappings_wellformed:
  fixes st :: settings_state and app_uid :: i32 and uids :: shared_uid_state
  defines "ms \<equiv> get_merged_path_mappings_for_user uids st app_uid"
  shows "distinct (request_keys ms) \<and> list_all (mergeable (apps st) (user_id_from_uid app_uid)) ms
    \<and> sorted_wrt (\<lambda>a b. length (request_path b) \<le> length (request_path a)) ms"
proof (cases "settings_loaded st")
  case True
  let ?u = "user_id_from_uid app_uid"
  let ?k = "\<lambda>a :: path_mapping. (- int (length (request_path a)), request_path a)"
  obtain ms' ts' ap' where f: "foldl (merge_app uids (apps st) ?u) ([], [], []) (apps st) = (ms', ts', ap')"
    by (metis prod_cases3)
  have "merge_inv (mergeable (apps st) ?u) ([], [])" by (simp add: merge_inv_def)
  from merge_apps_inv [OF this subset_refl f]
  have inv: "distinct (request_keys ms')" "list_all (mergeable (apps st) ?u) ms'" by (simp_all add: merge_inv_def)
  have ms: "ms = sort_key ?k ms'"
    using True f by (simp add: ms_def get_merged_path_mappings_for_user_def sort_path_mappings_longest_request_first_def)
  have "sorted_wrt (\<lambda>a b. ?k a \<le> ?k b) ms" using sorted_sort_key [of ?k ms'] by (simp add: ms sorted_map)
  then have "sorted_wrt (\<lambda>a b. length (request_path b) \<le> length (request_path a)) ms"
    by (rule sorted_wrt_mono_rel [rotated]) (auto simp: less_eq_prod_def)
  moreover have "distinct (request_keys ms)"
    using inv(1) unfolding ms by (simp add: distinct_map inj_on_def)
  ultimately show ?thesis using inv(2) by (simp add: ms list_all_iff)
qed (simp add: ms_def get_merged_path_mappings_for_user_def)

end
