(* ===== verification/Inspect.thy ===== *)
theory Inspect
  imports Merge
begin

text \<open>
  Model of \<^verbatim>\<open>src/config/inspect.rs\<close>: the questions other components ask of the settings hub, and the
  monitor filter with its cache of earlier answers. A log line is written for some answers; the
  counters that thin those lines are left out.
\<close>

section \<open>Model: queries\<close>

definition find_enabled_user_profile :: "settings_state \<Rightarrow> bytes \<Rightarrow> i32 \<Rightarrow> (i32 \<times> user_profile) option" where
  "find_enabled_user_profile st package_name app_uid =
     (if \<not> settings_loaded st \<or> package_name = SELF_PACKAGE_NAME then None
      else (case map_of (apps st) package_name of
          None \<Rightarrow> None
        | Some app \<Rightarrow>
            (let user_id = user_id_from_uid app_uid
             in case map_of app user_id of
                  None \<Rightarrow> None
                | Some user \<Rightarrow> if is_enabled user then Some (user_id, user) else None)))"

definition get_resolved_user_profile_snapshot :: "settings_state \<Rightarrow> bytes \<Rightarrow> i32 \<Rightarrow> resolved_user_profile option" where
  "get_resolved_user_profile_snapshot st package_name app_uid =
     (case find_enabled_user_profile st package_name app_uid of
        None \<Rightarrow> None
      | Some (user_id, user) \<Rightarrow>
          Some \<lparr>rp_user_id = user_id, rp_redirect_target = default_redirect_target package_name user_id,
                rp_is_mapping_mode_only = is_mapping_mode_only user,
                rp_allowed_real_paths = allowed_real_paths user,
                rp_excluded_real_paths = excluded_real_paths user,
                rp_sandboxed_paths = sandboxed_paths user,
                rp_read_only_paths = read_only_paths user,
                rp_path_mappings = path_mappings user\<rparr>)"

text \<open>\<^verbatim>\<open>ResolvedUserProfileFlags\<close> has one field, the mapping-mode switch.\<close>

definition get_resolved_user_profile_flags :: "settings_state \<Rightarrow> bytes \<Rightarrow> i32 \<Rightarrow> bool option" where
  "get_resolved_user_profile_flags st package_name app_uid =
     (case find_enabled_user_profile st package_name app_uid of
        None \<Rightarrow> None | Some (_, user) \<Rightarrow> Some (is_mapping_mode_only user))"

definition should_redirect :: "settings_state \<Rightarrow> bytes \<Rightarrow> i32 \<Rightarrow> bool" where
  "should_redirect st package_name app_uid \<longleftrightarrow> get_resolved_user_profile_flags st package_name app_uid \<noteq> None"

definition is_user_profile_enabled_in_memory :: "settings_state \<Rightarrow> bytes \<Rightarrow> i32 \<Rightarrow> bool" where
  "is_user_profile_enabled_in_memory st package_name user_id =
     (if package_name = [] \<or> user_id < 0 then False
      else if \<not> settings_loaded st then False
      else (case map_of (apps st) package_name of
          None \<Rightarrow> False
        | Some app \<Rightarrow> (case map_of app user_id of None \<Rightarrow> False | Some profile \<Rightarrow> is_enabled profile)))"

definition get_user_redirect_enablement ::
  "raw_env \<Rightarrow> int \<Rightarrow> settings_hub \<Rightarrow> bytes \<Rightarrow> i32 \<Rightarrow> i32 \<Rightarrow> raw_cache \<Rightarrow> user_redirect_enablement \<times> raw_cache" where
  "get_user_redirect_enablement env now_ms hub package_name app_uid user_id c =
     (let memory_flags = get_resolved_user_profile_flags (hub_state hub) package_name app_uid;
          (raw_flags, c) = get_user_flags_in_raw_config env now_ms hub package_name user_id c
      in (\<lparr>enabled_in_memory = (memory_flags \<noteq> None), has_raw_config = raw_has_config raw_flags,
           enabled_in_raw = raw_is_enabled raw_flags,
           en_is_mapping_mode_only = ((case memory_flags of Some m \<Rightarrow> m | None \<Rightarrow> False)
             \<or> raw_is_mapping_mode_only raw_flags)\<rparr>, c))"

definition should_monitor :: "settings_state \<Rightarrow> bytes \<Rightarrow> i32 \<Rightarrow> bool" where
  "should_monitor st package_name app_uid =
     (if package_name = SELF_PACKAGE_NAME then False
      else if \<not> settings_loaded st \<or> \<not> is_file_monitor_enabled st then False
      else if is_system_writer_package package_name then True
      else if is_file_monitor_bridge_package package_name then True
      else if is_file_monitor_ui_package package_name then True
      else should_capture_unconfigured_app package_name app_uid True)"

record monitor_app_spec =
  spec_package_name :: bytes
  spec_user_id :: i32
  spec_profile :: user_profile

definition app_specs_of :: "bytes \<times> app_profile \<Rightarrow> monitor_app_spec list" where
  "app_specs_of entry =
     (case entry of (package_name, app) \<Rightarrow>
        if package_name = SELF_PACKAGE_NAME \<or> is_system_writer_package package_name then []
        else map (\<lambda>(user_id, profile).
          \<lparr>spec_package_name = package_name, spec_user_id = user_id, spec_profile = profile\<rparr>) app)"

definition spec_key :: "monitor_app_spec \<Rightarrow> i32 \<times> bytes" where
  "spec_key s = (spec_user_id s, spec_package_name s)"

definition get_daemon_monitor_config_snapshot :: "settings_state \<Rightarrow> monitor_app_spec list \<times> bool" where
  "get_daemon_monitor_config_snapshot st =
     (if \<not> settings_loaded st then ([], False)
      else if apps st = [] then ([], is_file_monitor_enabled st)
      else (sort_key spec_key (concat (map app_specs_of (apps st))), is_file_monitor_enabled st))"

definition get_daemon_reconcile_config_snapshot ::
  "settings_state \<Rightarrow> (bytes \<times> app_profile) list \<times> storage_backend_mode \<times> bool" where
  "get_daemon_reconcile_config_snapshot st =
     (if settings_loaded st then apps st else [], storage_backend st, is_file_monitor_enabled st)"

definition has_enabled_redirect_apps_for_user :: "settings_state \<Rightarrow> i32 \<Rightarrow> bool" where
  "has_enabled_redirect_apps_for_user st app_uid =
     (if \<not> settings_loaded st then False
      else let user_id = user_id_from_uid app_uid
        in list_ex (\<lambda>(_, app). enabled_profile app user_id \<noteq> None) (apps st))"

definition has_effective_enabled_redirect_apps_for_user :: "raw_env \<Rightarrow> settings_hub \<Rightarrow> i32 \<Rightarrow> bool" where
  "has_effective_enabled_redirect_apps_for_user env hub app_uid =
     (if has_enabled_redirect_apps_for_user (hub_state hub) app_uid then True
      else has_any_enabled_user_profile_in_raw_config env hub (user_id_from_uid app_uid))"

definition has_enabled_read_only_paths_for_user :: "settings_state \<Rightarrow> i32 \<Rightarrow> bool" where
  "has_enabled_read_only_paths_for_user st user_id =
     (if \<not> settings_loaded st \<or> user_id < 0 then False
      else list_ex (\<lambda>(_, app). case enabled_profile app user_id of
          None \<Rightarrow> False | Some profile \<Rightarrow> list_ex (\<lambda>path. path \<noteq> []) (read_only_paths profile)) (apps st))"

definition get_app_count :: "settings_state \<Rightarrow> nat" where
  "get_app_count st = length (apps st)"

section \<open>Model: the monitor filter\<close>

definition MONITOR_PATH_CACHE_SIZE :: nat where
  "MONITOR_PATH_CACHE_SIZE = 128"

record monitor_path_match_cache =
  mc_config_version :: "64 word"
  mc_entries :: "(bytes, bool) lru_cache"

definition MonitorPathMatchCache_new :: monitor_path_match_cache where
  "MonitorPathMatchCache_new = \<lparr>mc_config_version = 0, mc_entries = lru_new MONITOR_PATH_CACHE_SIZE\<rparr>"

definition prepare_version :: "64 word \<Rightarrow> monitor_path_match_cache \<Rightarrow> bool \<times> monitor_path_match_cache" where
  "prepare_version version c =
     (if mc_config_version c = version then (True, c)
      else if version < mc_config_version c then (False, c)
      else (True, \<lparr>mc_config_version = version, mc_entries = lru_clear (mc_entries c)\<rparr>))"

definition has_monitor_path_wildcard :: "bytes \<Rightarrow> bool" where
  "has_monitor_path_wildcard pattern \<longleftrightarrow> contains_char pattern CHR ''*'' \<or> contains_char pattern CHR ''?''"

definition monitor_path_filter_matches :: "bytes \<Rightarrow> bytes \<Rightarrow> bool" where
  "monitor_path_filter_matches rule path =
     (if rule = [] \<or> path = [] then False
      else if \<not> has_monitor_path_wildcard rule then is_same_or_child path rule
      else if matches rule path True then True
      else (case strip_suffix rule ''/**'' of Some base \<Rightarrow> matches base path True | None \<Rightarrow> False))"

definition monitor_operation_filter_matches :: "bytes \<Rightarrow> bytes \<Rightarrow> bool" where
  "monitor_operation_filter_matches rule operation =
     (if rule = [] \<or> operation = [] then False else matches rule operation False)"

definition monitor_filter_result :: "monitor_filter_config \<Rightarrow> bytes \<Rightarrow> bytes \<Rightarrow> bool" where
  "monitor_filter_result filters normalized_path op =
     (list_ex (\<lambda>rule. monitor_path_filter_matches rule normalized_path) (excluded_paths filters)
      \<or> list_ex (\<lambda>rule. monitor_operation_filter_matches rule op) (excluded_operations filters))"

definition monitor_cache_key :: "bytes \<Rightarrow> bytes \<Rightarrow> bytes" where
  "monitor_cache_key normalized_path op = normalized_path @ CHR ''|'' # op"

text \<open>The two critical sections of a call; the flag is the outcome of \<^verbatim>\<open>try_lock\<close>.\<close>

definition monitor_cache_lookup ::
  "bool \<Rightarrow> 64 word \<Rightarrow> bytes \<Rightarrow> monitor_path_match_cache \<Rightarrow> bool option \<times> monitor_path_match_cache" where
  "monitor_cache_lookup lock version key c =
     (if \<not> lock then (None, c)
      else case prepare_version version c of
        (False, c) \<Rightarrow> (None, c)
      | (True, c) \<Rightarrow> (case lru_get key (mc_entries c) of (r, es) \<Rightarrow> (r, c\<lparr>mc_entries := es\<rparr>)))"

definition monitor_cache_store ::
  "bool \<Rightarrow> 64 word \<Rightarrow> bytes \<Rightarrow> bool \<Rightarrow> monitor_path_match_cache \<Rightarrow> monitor_path_match_cache" where
  "monitor_cache_store lock version key result c =
     (if \<not> lock then c
      else case prepare_version version c of
        (False, c) \<Rightarrow> c
      | (True, c) \<Rightarrow> c\<lparr>mc_entries := lru_insert key result (mc_entries c)\<rparr>)"

definition should_filter_monitor_record_locked_for_version ::
  "bool \<Rightarrow> bool \<Rightarrow> monitor_filter_config \<Rightarrow> 64 word \<Rightarrow> bytes \<Rightarrow> bytes \<Rightarrow> monitor_path_match_cache
    \<Rightarrow> bool \<times> monitor_path_match_cache" where
  "should_filter_monitor_record_locked_for_version lock1 lock2 filters version path operation c =
     (let normalized_path = normalize path;
          cache_key = monitor_cache_key normalized_path operation
      in case monitor_cache_lookup lock1 version cache_key c of
           (Some cached_result, c) \<Rightarrow> (cached_result, c)
         | (None, c) \<Rightarrow>
             (let result = monitor_filter_result filters normalized_path operation
              in (result, monitor_cache_store lock2 version cache_key result c)))"

definition should_filter_monitor_record ::
  "bool \<Rightarrow> bool \<Rightarrow> settings_hub \<Rightarrow> bytes \<Rightarrow> bytes \<Rightarrow> monitor_path_match_cache \<Rightarrow> bool \<times> monitor_path_match_cache" where
  "should_filter_monitor_record lock1 lock2 hub path operation c =
     should_filter_monitor_record_locked_for_version lock1 lock2 (monitor_filters (hub_state hub)) (config_version hub)
       path operation c"

section \<open>The monitor cache never changes an answer\<close>

text \<open>Operation names contain no bar, so a key determines the path and the operation.\<close>

definition split_key :: "bytes \<Rightarrow> bytes \<times> bytes" where
  "split_key key =
     (rev (tl (dropWhile (\<lambda>c. c \<noteq> CHR ''|'') (rev key))), rev (takeWhile (\<lambda>c. c \<noteq> CHR ''|'') (rev key)))"

lemma split_monitor_key: "CHR ''|'' \<notin> set op \<Longrightarrow> split_key (monitor_cache_key p op) = (p, op)"
  by (simp add: split_key_def monitor_cache_key_def)

definition answer_for_key :: "monitor_filter_config \<Rightarrow> bytes \<Rightarrow> bool" where
  "answer_for_key filters key = monitor_filter_result filters (fst (split_key key)) (snd (split_key key))"

lemma answer_for_monitor_key:
  "CHR ''|'' \<notin> set op \<Longrightarrow> answer_for_key filters (monitor_cache_key p op) = monitor_filter_result filters p op"
  by (simp add: answer_for_key_def split_monitor_key)

text \<open>\<open>F\<close> gives the filters in force at each configuration version.\<close>

definition monitor_cache_sound :: "(64 word \<Rightarrow> monitor_filter_config) \<Rightarrow> monitor_path_match_cache \<Rightarrow> bool" where
  "monitor_cache_sound F c \<longleftrightarrow> cache_sound lru_invar lru_content (answer_for_key (F (mc_config_version c))) (mc_entries c)"

lemma prepare_version_sound:
  assumes "monitor_cache_sound F c" and "prepare_version v c = (ok, c')"
  shows "monitor_cache_sound F c'" "ok \<Longrightarrow> mc_config_version c' = v"
  using assms lru.wipe_sound [of "mc_entries c" "answer_for_key (F v)"]
  by (auto simp: prepare_version_def monitor_cache_sound_def cache_sound_def split: if_splits)

lemma monitor_lookup_sound:
  assumes "monitor_cache_sound F c" and "monitor_cache_lookup lock v key c = (r, c')"
  shows "monitor_cache_sound F c'" "r = Some b \<Longrightarrow> b = answer_for_key (F v) key"
proof -
  obtain ok d where d: "prepare_version v c = (ok, d)" by fastforce
  note prep = prepare_version_sound [OF assms(1) d]
  obtain r' es where g: "lru_get key (mc_entries d) = (r', es)" by fastforce
  have "cache_sound lru_invar lru_content (answer_for_key (F (mc_config_version d))) es"
    using lru.lookup_sound [of _ "mc_entries d" key] prep(1) g by (simp add: monitor_cache_sound_def)
  moreover have "b = answer_for_key (F (mc_config_version d)) key" if "r' = Some b"
    using lru.lookup_sound_value [of _ "mc_entries d" key b] prep(1) g that by (simp add: monitor_cache_sound_def)
  ultimately show "monitor_cache_sound F c'" "r = Some b \<Longrightarrow> b = answer_for_key (F v) key"
    using assms prep d g by (auto simp: monitor_cache_lookup_def monitor_cache_sound_def split: if_splits bool.splits)
qed

lemma monitor_store_sound:
  assumes "monitor_cache_sound F c"
  shows "monitor_cache_sound F (monitor_cache_store lock v key (answer_for_key (F v) key) c)"
proof -
  obtain ok d where d: "prepare_version v c = (ok, d)" by fastforce
  note prep = prepare_version_sound [OF assms d]
  show ?thesis using assms prep d lru.store_sound [of "answer_for_key (F v)" "mc_entries d" key]
    by (auto simp: monitor_cache_store_def monitor_cache_sound_def split: bool.split)
qed

text \<open>
  The states of the shared cache while threads run their two critical sections in any order, each
  under the version it read together with the filters.
\<close>

inductive monitor_cache_reachable :: "(64 word \<Rightarrow> monitor_filter_config) \<Rightarrow> monitor_path_match_cache \<Rightarrow> bool"
  for F :: "64 word \<Rightarrow> monitor_filter_config" where
  fresh: "monitor_cache_reachable F MonitorPathMatchCache_new"
| lookup: "monitor_cache_reachable F c \<Longrightarrow>
    monitor_cache_reachable F (snd (monitor_cache_lookup lock v (monitor_cache_key p op) c))"
| store: "monitor_cache_reachable F c \<Longrightarrow> CHR ''|'' \<notin> set op \<Longrightarrow>
    monitor_cache_reachable F (monitor_cache_store lock v (monitor_cache_key p op) (monitor_filter_result (F v) p op) c)"

lemma monitor_cache_reachable_sound: "monitor_cache_reachable F c \<Longrightarrow> monitor_cache_sound F c"
proof (induction rule: monitor_cache_reachable.induct)
  case fresh
  show ?case
    by (simp add: monitor_cache_sound_def cache_sound_def MonitorPathMatchCache_new_def lru_new_invar)
      (simp add: lru_content_def lru_new_def)
next
  case (lookup c lock v p op)
  then show ?case using monitor_lookup_sound(1) [of F c] by (metis prod.collapse)
next
  case (store c op lock v p)
  then show ?case using monitor_store_sound [of F c lock v "monitor_cache_key p op"]
    by (simp add: answer_for_monitor_key)
qed

text \<open>
  (C29) The filter cache is transparent: whatever other threads have looked up and stored, in any
  interleaving and under any mixture of old and new configuration versions, a call answers exactly
  what evaluating the filter rules of its own configuration version answers.
\<close>

theorem monitor_filter_cache_transparent:
  assumes "monitor_cache_reachable F c" and "CHR ''|'' \<notin> set operation"
    and "F (config_version hub) = monitor_filters (hub_state hub)"
  shows "fst (should_filter_monitor_record lock1 lock2 hub path operation c)
    = monitor_filter_result (monitor_filters (hub_state hub)) (normalize path) operation"
proof -
  obtain r c' where l: "monitor_cache_lookup lock1 (config_version hub) (monitor_cache_key (normalize path) operation) c = (r, c')"
    by fastforce
  from monitor_lookup_sound(2) [OF monitor_cache_reachable_sound [OF assms(1)] l]
  show ?thesis using l assms(2,3)
    by (cases r) (auto simp: should_filter_monitor_record_def should_filter_monitor_record_locked_for_version_def
        Let_def answer_for_monitor_key)
qed

theorem monitor_filter_cache_transparent_witness:
  "\<not> fst (should_filter_monitor_record True True loaded_hub ''/a'' ''open''
      (monitor_cache_store True 0 (monitor_cache_key ''/a'' ''open'') False MonitorPathMatchCache_new))"
proof -
  let ?F = "\<lambda>_. monitor_filters (hub_state loaded_hub)"
  have u: "monitor_filter_result (monitor_filters (hub_state loaded_hub)) p op = False" for p op
    by (simp add: monitor_filter_result_def loaded_hub_def)
  have n: "CHR ''|'' \<notin> set ''open''" by simp
  have r: "monitor_cache_reachable ?F
      (monitor_cache_store True 0 (monitor_cache_key ''/a'' ''open'') False MonitorPathMatchCache_new)"
    using monitor_cache_reachable.store [OF monitor_cache_reachable.fresh [of ?F] n, of True 0 "''/a''"] by (simp add: u)
  from monitor_filter_cache_transparent [OF r n, of loaded_hub] show ?thesis by (simp add: u)
qed

section \<open>Snapshots\<close>

text \<open>
  The daemon's snapshot and the hub resolve profiles alike: resolving a package against the
  applications of a reconcile snapshot gives what the hub itself answers in the same state.
\<close>

theorem reconcile_snapshot_agrees:
  "snapshot_resolve_profile (fst (get_daemon_reconcile_config_snapshot st)) package_name app_uid
    = get_resolved_user_profile_snapshot st package_name app_uid"
  by (simp add: snapshot_resolve_profile_def get_daemon_reconcile_config_snapshot_def
      get_resolved_user_profile_snapshot_def find_enabled_user_profile_def resolve_profile_def Let_def split: option.split)

end
