(* ===== verification/Writer.thy ===== *)
theory Writer
  imports Inspect
begin

text \<open>
  Model of \<^verbatim>\<open>src/redirect/writer.rs\<close>: the rules and mappings that apply when a system process writes
  on behalf of an application (the caller), with the three per-thread caches in front of them, and
  the resolution of the caller itself.

  What a call meets is the record \<open>writer_env\<close>: the settings hub, the answers of the file system to
  the raw configuration scan, the clock, the FUSE capability of the device
  (\<^verbatim>\<open>fuse_redirect::config\<close>), the uid list file and whether inference from paths is switched off
  (\<^verbatim>\<open>hook::context\<close>). \<open>we_order\<close> is the order in which the hash map of the chain filter is
  iterated. The logging functions and their counters are left out.
\<close>

section \<open>Model: environment and caches\<close>

definition ANDROID_APP_UID_START :: i32 where
  "ANDROID_APP_UID_START = 10000"

text \<open>What \<^verbatim>\<open>expand_mount_fallbacks_for_mode\<close> asks of the device.\<close>

record fuse_view =
  fuse_available :: bool
  scope_budget_exhausted :: "bytes \<Rightarrow> bool"

fun expand_mount_fallbacks_for_mode :: "fuse_view \<Rightarrow> storage_backend_mode \<Rightarrow> bytes \<Rightarrow> bool" where
  "expand_mount_fallbacks_for_mode fuse Namespace scope = True"
| "expand_mount_fallbacks_for_mode fuse Fuse scope = False"
| "expand_mount_fallbacks_for_mode fuse Auto scope = (\<not> fuse_available fuse \<or> scope_budget_exhausted fuse scope)"

record writer_env =
  we_hub :: settings_hub
  we_raw :: raw_env
  we_now :: int
  we_fuse :: fuse_view
  we_order :: "bytes list \<Rightarrow> bytes list"
  we_uid_file :: uid_file_view
  we_inference_disabled :: bool

abbreviation we_state :: "writer_env \<Rightarrow> settings_state" where
  "we_state env \<equiv> hub_state (we_hub env)"

record caller_mapping_cache =
  cm_package_name :: bytes
  cm_caller_uid :: i32
  cm_config_version :: "64 word"
  cm_mappings :: "path_mapping list"

record caller_target_cache =
  ct_package_name :: bytes
  ct_caller_uid :: i32
  ct_config_version :: "64 word"
  ct_redirect_target :: bytes

record caller_allowed_cache =
  ca_package_name :: bytes
  ca_caller_uid :: i32
  ca_config_version :: "64 word"
  ca_is_loaded :: bool
  ca_allowed_real_paths :: "bytes list"
  ca_excluded_real_paths :: "bytes list"
  ca_sandboxed_paths :: "bytes list"
  ca_read_only_paths :: "bytes list"
  ca_read_only_excluded_paths :: "bytes list"

text \<open>The caches of one thread; the raw configuration cache belongs to the thread as well.\<close>

record writer_caches =
  wc_mapping :: caller_mapping_cache
  wc_target :: caller_target_cache
  wc_allowed :: caller_allowed_cache
  wc_raw :: raw_cache

definition writer_caches_new :: writer_caches where
  "writer_caches_new =
     \<lparr>wc_mapping = \<lparr>cm_package_name = [], cm_caller_uid = -1, cm_config_version = 0, cm_mappings = []\<rparr>,
      wc_target = \<lparr>ct_package_name = [], ct_caller_uid = -1, ct_config_version = 0, ct_redirect_target = []\<rparr>,
      wc_allowed = \<lparr>ca_package_name = [], ca_caller_uid = -1, ca_config_version = 0, ca_is_loaded = False,
        ca_allowed_real_paths = [], ca_excluded_real_paths = [], ca_sandboxed_paths = [],
        ca_read_only_paths = [], ca_read_only_excluded_paths = []\<rparr>,
      wc_raw = raw_cache_new\<rparr>"

datatype caller_real_path_kind = KAllowed | KExcluded | KSandboxed | KReadOnlyExcluded

fun CallerAllowedCache_paths :: "caller_allowed_cache \<Rightarrow> caller_real_path_kind \<Rightarrow> bytes list" where
  "CallerAllowedCache_paths c KAllowed = ca_allowed_real_paths c"
| "CallerAllowedCache_paths c KExcluded = ca_excluded_real_paths c"
| "CallerAllowedCache_paths c KSandboxed = ca_sandboxed_paths c"
| "CallerAllowedCache_paths c KReadOnlyExcluded = ca_read_only_excluded_paths c"

definition CallerAllowedCache_is_valid_for :: "caller_allowed_cache \<Rightarrow> bytes \<Rightarrow> i32 \<Rightarrow> 64 word \<Rightarrow> bool" where
  "CallerAllowedCache_is_valid_for c package_name caller_uid version \<longleftrightarrow>
     ca_package_name c = package_name \<and> ca_caller_uid c = caller_uid
     \<and> ca_config_version c = version \<and> ca_is_loaded c"

section \<open>Model: effective profile and mappings\<close>

definition normalize_download_provider_package :: "bytes \<Rightarrow> bytes" where
  "normalize_download_provider_package package_name =
     (if package_name = DOWNLOAD_PROVIDER then DOWNLOAD_PROVIDER_UI else package_name)"

definition or_if_empty :: "'a list \<Rightarrow> 'a list \<Rightarrow> 'a list" where
  "or_if_empty primary fallback = (if primary = [] then fallback else primary)"

definition get_effective_profile :: "settings_state \<Rightarrow> bytes \<Rightarrow> i32 \<Rightarrow> resolved_user_profile option" where
  "get_effective_profile st caller_package caller_uid =
     (let profile = get_resolved_user_profile_snapshot st caller_package caller_uid
      in if caller_package \<noteq> DOWNLOAD_PROVIDER then profile
         else let fallback = get_resolved_user_profile_snapshot st
                    (normalize_download_provider_package caller_package) caller_uid
           in (case (profile, fallback) of
                 (Some p, Some f) \<Rightarrow>
                   Some (p\<lparr>rp_allowed_real_paths := or_if_empty (rp_allowed_real_paths p) (rp_allowed_real_paths f),
                           rp_excluded_real_paths := or_if_empty (rp_excluded_real_paths p) (rp_excluded_real_paths f),
                           rp_sandboxed_paths := or_if_empty (rp_sandboxed_paths p) (rp_sandboxed_paths f),
                           rp_read_only_paths := or_if_empty (rp_read_only_paths p) (rp_read_only_paths f),
                           rp_path_mappings := or_if_empty (rp_path_mappings p) (rp_path_mappings f)\<rparr>)
               | (Some p, None) \<Rightarrow> Some p
               | (None, f) \<Rightarrow> f))"

definition get_effective_path_mappings :: "settings_state \<Rightarrow> bytes \<Rightarrow> i32 \<Rightarrow> path_mapping list" where
  "get_effective_path_mappings st caller_package caller_uid =
     (case get_effective_profile st caller_package caller_uid of
        Some profile \<Rightarrow> rp_path_mappings profile | None \<Rightarrow> [])"

text \<open>One round of the loop: the request keys seen so far and the mappings collected.\<close>

definition add_caller_mapping ::
  "i32 \<Rightarrow> bytes list \<times> path_mapping list \<Rightarrow> path_mapping \<Rightarrow> bytes list \<times> path_mapping list" where
  "add_caller_mapping user_id acc mapping =
     (case acc of (seen_current, mappings) \<Rightarrow>
        (let current_path = resolve_user_path (normalize (request_path mapping)) user_id;
             target_path = resolve_user_path (normalize (final_path mapping)) user_id
         in if current_path = [] \<or> target_path = [] then acc
            else if has_unsafe_segments current_path \<or> has_unsafe_segments target_path then acc
            else if \<not> is_safe_namespace_path current_path \<or> \<not> is_safe_namespace_path target_path then acc
            else if is_application_private_root current_path then acc
            else if eq_ignore_case current_path target_path then acc
            else if match_key current_path \<in> set seen_current then acc
            else (List.insert (match_key current_path) seen_current,
                  mappings @ [PathMapping_new current_path target_path])))"

definition build_caller_mappings ::
  "(bytes list \<Rightarrow> bytes list) \<Rightarrow> settings_state \<Rightarrow> bytes \<Rightarrow> i32 \<Rightarrow> path_mapping list" where
  "build_caller_mappings key_order st caller_package caller_uid =
     (if caller_package = [] \<or> caller_uid < ANDROID_APP_UID_START then []
      else let raw_mappings = get_effective_path_mappings st caller_package caller_uid
        in if raw_mappings = [] then []
           else let user_id = user_id_from_uid caller_uid;
                    (_, mappings) = foldl (add_caller_mapping user_id) ([], []) raw_mappings
             in filter_valid_path_mapping_chains key_order (sort_path_mappings_longest_request_first mappings))"

definition with_caller_mappings ::
  "writer_env \<Rightarrow> bytes \<Rightarrow> i32 \<Rightarrow> writer_caches \<Rightarrow> path_mapping list \<times> writer_caches" where
  "with_caller_mappings env caller_package caller_uid caches =
     (let cache = wc_mapping caches; version = config_version (we_hub env)
      in if cm_package_name cache \<noteq> caller_package \<or> cm_caller_uid cache \<noteq> caller_uid
            \<or> cm_config_version cache \<noteq> version
         then let mappings = build_caller_mappings (we_order env) (we_state env) caller_package caller_uid
           in (mappings, caches\<lparr>wc_mapping := \<lparr>cm_package_name = caller_package, cm_caller_uid = caller_uid,
                 cm_config_version = version, cm_mappings = mappings\<rparr>\<rparr>)
         else (cm_mappings cache, caches))"

definition map_path_by_caller_mappings :: "bytes \<Rightarrow> path_mapping list \<Rightarrow> bytes" where
  "map_path_by_caller_mappings path mappings = map_path_by_mappings path mappings"

definition reverse_map_path_by_caller_mappings :: "bytes \<Rightarrow> path_mapping list \<Rightarrow> bytes" where
  "reverse_map_path_by_caller_mappings path mappings = reverse_map_path_by_mappings path mappings"

definition map_caller_path :: "writer_env \<Rightarrow> bytes \<Rightarrow> bytes \<Rightarrow> i32 \<Rightarrow> writer_caches \<Rightarrow> bytes \<times> writer_caches" where
  "map_caller_path env path caller_package caller_uid caches =
     (case with_caller_mappings env caller_package caller_uid caches of
        (mappings, caches) \<Rightarrow> (map_path_by_caller_mappings path mappings, caches))"

definition reverse_map_caller_path ::
  "writer_env \<Rightarrow> bytes \<Rightarrow> bytes \<Rightarrow> i32 \<Rightarrow> writer_caches \<Rightarrow> bytes \<times> writer_caches" where
  "reverse_map_caller_path env path caller_package caller_uid caches =
     (case with_caller_mappings env caller_package caller_uid caches of
        (mappings, caches) \<Rightarrow> (reverse_map_path_by_caller_mappings path mappings, caches))"

definition get_caller_mappings ::
  "writer_env \<Rightarrow> bytes \<Rightarrow> i32 \<Rightarrow> writer_caches \<Rightarrow> path_mapping list \<times> writer_caches" where
  "get_caller_mappings env caller_package caller_uid caches = with_caller_mappings env caller_package caller_uid caches"

definition is_path_in_caller_mapping_request :: "bytes \<Rightarrow> path_mapping list \<Rightarrow> bool" where
  "is_path_in_caller_mapping_request path mappings =
     list_ex (\<lambda>mapping. child_suffix path (request_path mapping) \<noteq> None) mappings"

definition reverse_readlink_sandbox_path :: "bytes \<Rightarrow> bytes" where
  "reverse_readlink_sandbox_path path =
     (let storage_path = data_media_to_storage_path path
      in case find_str ''/Android/data/'' storage_path of
           None \<Rightarrow> storage_path
         | Some pos \<Rightarrow>
             (let aft = drop (pos + length ''/Android/data/'') storage_path
              in case find_char slash aft of
                   None \<Rightarrow> storage_path
                 | Some sl \<Rightarrow>
                     (case strip_prefix (drop sl aft) ''/sdcard'' of
                        Some stripped \<Rightarrow> take pos storage_path @ stripped
                      | None \<Rightarrow> storage_path)))"

section \<open>Model: redirect targets\<close>

definition compute_caller_redirect_target :: "settings_state \<Rightarrow> bytes \<Rightarrow> i32 \<Rightarrow> bytes" where
  "compute_caller_redirect_target st caller_package caller_uid =
     (if caller_package = [] \<or> caller_uid < ANDROID_APP_UID_START then []
      else (case get_resolved_user_profile_snapshot st caller_package caller_uid of
          None \<Rightarrow> []
        | Some profile \<Rightarrow>
            (let resolved = resolve_user_path (normalize (rp_redirect_target profile)) (rp_user_id profile)
             in if resolved \<noteq> [] \<and> \<not> has_unsafe_segments resolved then resolved else [])))"

definition get_caller_default_redirect_target ::
  "writer_env \<Rightarrow> bytes \<Rightarrow> i32 \<Rightarrow> writer_caches \<Rightarrow> bytes \<times> writer_caches" where
  "get_caller_default_redirect_target env caller_package caller_uid caches =
     (let cache = wc_target caches; version = config_version (we_hub env)
      in if ct_package_name cache = caller_package \<and> ct_caller_uid cache = caller_uid
            \<and> ct_config_version cache = version
         then (ct_redirect_target cache, caches)
         else let target = compute_caller_redirect_target (we_state env) caller_package caller_uid
           in (target, caches\<lparr>wc_target := \<lparr>ct_package_name = caller_package, ct_caller_uid = caller_uid,
                 ct_config_version = version, ct_redirect_target = target\<rparr>\<rparr>))"

definition resolve_system_writer_redirect_target ::
  "writer_env \<Rightarrow> bytes \<Rightarrow> i32 \<Rightarrow> i32 \<Rightarrow> bool \<Rightarrow> writer_caches \<Rightarrow> bytes \<times> writer_caches" where
  "resolve_system_writer_redirect_target env caller_package caller_uid user_id is_caller_from_inferred_mapping caches =
     (if caller_package = [] \<or> user_id < 0 then ([], caches)
      else let (target, caches) = get_caller_default_redirect_target env caller_package caller_uid caches
        in if target \<noteq> [] then (target, caches)
           else let (raw_enabled, raw) = has_enabled_user_profile_in_raw_config (we_raw env) (we_now env) (we_hub env)
                      caller_package user_id (wc_raw caches);
                    caches = caches\<lparr>wc_raw := raw\<rparr>
             in if \<not> is_caller_from_inferred_mapping \<and> \<not> raw_enabled then ([], caches)
                else let target = resolve_user_path (normalize (default_redirect_target caller_package user_id)) user_id
                  in if target = [] \<or> has_unsafe_segments target then ([], caches) else (target, caches))"

definition map_path_by_caller_fallback :: "bytes \<Rightarrow> bytes \<Rightarrow> i32 \<Rightarrow> bytes" where
  "map_path_by_caller_fallback normalized_path redirect_target user_id =
     (if normalized_path = [] \<or> redirect_target = [] then []
      else let storage_root = storage_user_root_for_user user_id
        in if is_same_or_child normalized_path redirect_target then []
           else if eq_ignore_case normalized_path storage_root then redirect_target
           else (case child_suffix normalized_path storage_root of
               None \<Rightarrow> []
             | Some suff \<Rightarrow>
                 if suff = [] then redirect_target
                 else let fallback = redirect_target @ suff
                   in if has_unsafe_segments fallback then [] else fallback))"

text \<open>The effective uid is an in-out parameter; the product and sum are \<^verbatim>\<open>i32\<close> arithmetic.\<close>

definition resolve_system_writer_user_id :: "bytes \<Rightarrow> i32 \<Rightarrow> i32 \<times> i32" where
  "resolve_system_writer_user_id normalized_path effective_caller_uid =
     (if ANDROID_APP_UID_START \<le> effective_caller_uid
      then (user_id_from_uid effective_caller_uid, effective_caller_uid)
      else let user_id = extract_user_id_from_storage_path normalized_path
        in if 0 \<le> user_id
           then (user_id, wrap_i32 (wrap_i32 (user_id * ANDROID_USER_ID_OFFSET) + ANDROID_APP_UID_START))
           else (user_id, effective_caller_uid))"

text \<open>
  The three in-out parameters (uid, package, inferred flag) and the uid table, which a fresh lookup
  refreshes.
\<close>

definition maybe_override_system_writer_caller_by_path ::
  "writer_env \<Rightarrow> bytes \<Rightarrow> i32 \<Rightarrow> i32 \<Rightarrow> i32 \<times> bytes \<times> bool \<Rightarrow> shared_uid_state \<Rightarrow> (i32 \<times> bytes \<times> bool) \<times> shared_uid_state" where
  "maybe_override_system_writer_caller_by_path env normalized_path self_uid user_id caller uids =
     (case caller of (caller_uid, caller_package, inferred_flag) \<Rightarrow>
        if user_id < 0 then (caller, uids)
        else if we_inference_disabled env then (caller, uids)
        else let inferred = resolve_redirect_package_by_path_for_user (we_state env) caller_uid normalized_path
          in if inferred = [] then (caller, uids)
             else let (inferred_uid, uids) = get_fresh_uid_for_package (we_uid_file env) inferred uids
               in if caller_package = [] \<and> ANDROID_APP_UID_START \<le> caller_uid \<and> caller_uid \<noteq> self_uid
                     \<and> inferred_uid \<noteq> caller_uid
                  then (caller, uids)
                  else if \<not> (caller_package = [] \<or> is_system_writer_package caller_package) then (caller, uids)
                  else ((if ANDROID_APP_UID_START \<le> inferred_uid then inferred_uid else caller_uid, inferred, True), uids))"

definition is_path_in_user_storage :: "bytes \<Rightarrow> i32 \<Rightarrow> bool" where
  "is_path_in_user_storage resolved_path user_id =
     (if resolved_path = [] \<or> user_id < 0 then False
      else is_child resolved_path (storage_user_root_for_user user_id))"

section \<open>Model: path rules of the caller\<close>

definition append_real_path_rule :: "bytes list \<Rightarrow> bytes \<Rightarrow> bool \<Rightarrow> bytes \<Rightarrow> bool \<Rightarrow> bytes list" where
  "append_real_path_rule target resolved excluded storage_root expand_mount_fallbacks =
     (let resolved = (if expand_mount_fallbacks \<and> contains_wildcards resolved then
            (case wildcard_policy_fallback_parent resolved storage_root of Some fallback \<Rightarrow> fallback | None \<Rightarrow> resolved)
          else resolved)
      in target @ [if excluded then ''!'' @ resolved else resolved])"

definition split_mark :: "bytes \<Rightarrow> bool \<times> bytes" where
  "split_mark rule = (case strip_prefix rule ''!'' of Some stripped \<Rightarrow> (True, trim_start stripped) | None \<Rightarrow> (False, rule))"

definition expand_wildcard_mount_fallback_rules :: "bytes list \<Rightarrow> i32 \<Rightarrow> bool \<Rightarrow> bytes list" where
  "expand_wildcard_mount_fallback_rules rules caller_uid expand_mount_fallbacks =
     (if \<not> expand_mount_fallbacks then rules
      else let storage_root = storage_user_root_for_user (user_id_from_uid caller_uid)
        in sort_dedup_paths_case_insensitive
             (foldl (\<lambda>expanded rule.
                (let trimmed = trim rule
                 in if trimmed = [] then expanded
                    else case split_mark trimmed of (excluded, body) \<Rightarrow>
                      append_real_path_rule expanded body excluded storage_root (\<not> excluded))) [] rules))"

definition append_raw_profile_path ::
  "i32 \<Rightarrow> bytes \<Rightarrow> bool \<Rightarrow> bool \<Rightarrow> bytes list \<Rightarrow> bytes \<Rightarrow> bytes list" where
  "append_raw_profile_path user_id storage_root allow_wildcards expand_mount_fallbacks target raw_path =
     (case split_mark (trim raw_path) of (excluded, body) \<Rightarrow>
        if excluded \<and> \<not> allow_wildcards then target
        else let resolved = resolve_user_path (normalize body) user_id
          in if resolved = [] \<or> has_unsafe_segments resolved then target
             else if \<not> allow_wildcards \<and> contains_wildcards resolved then target
             else if \<not> is_child resolved storage_root then target
             else append_real_path_rule target resolved excluded storage_root (expand_mount_fallbacks \<and> \<not> excluded))"

definition append_raw_profile_paths ::
  "bytes list \<Rightarrow> bytes list \<Rightarrow> i32 \<Rightarrow> bytes \<Rightarrow> bool \<Rightarrow> bool \<Rightarrow> bytes list" where
  "append_raw_profile_paths target raw_paths user_id storage_root allow_wildcards expand_mount_fallbacks =
     foldl (append_raw_profile_path user_id storage_root allow_wildcards expand_mount_fallbacks) target raw_paths"

text \<open>The cache cleared for a caller.\<close>

definition empty_allowed_cache :: "bytes \<Rightarrow> i32 \<Rightarrow> 64 word \<Rightarrow> caller_allowed_cache" where
  "empty_allowed_cache caller_package caller_uid version =
     \<lparr>ca_package_name = caller_package, ca_caller_uid = caller_uid, ca_config_version = version, ca_is_loaded = True,
      ca_allowed_real_paths = [], ca_excluded_real_paths = [], ca_sandboxed_paths = [],
      ca_read_only_paths = [], ca_read_only_excluded_paths = []\<rparr>"

definition apply_effective_profile ::
  "settings_state \<Rightarrow> bytes \<Rightarrow> i32 \<Rightarrow> bool \<Rightarrow> caller_allowed_cache \<Rightarrow> caller_allowed_cache" where
  "apply_effective_profile st caller_package caller_uid expand_mount_fallbacks cache =
     (case get_effective_profile st caller_package caller_uid of
        None \<Rightarrow> cache
      | Some profile \<Rightarrow>
          cache\<lparr>ca_allowed_real_paths := expand_wildcard_mount_fallback_rules (rp_allowed_real_paths profile) caller_uid False,
                ca_excluded_real_paths := rp_excluded_real_paths profile,
                ca_sandboxed_paths := rp_sandboxed_paths profile,
                ca_read_only_paths := expand_wildcard_mount_fallback_rules (rp_read_only_paths profile) caller_uid
                  expand_mount_fallbacks\<rparr>)"

definition finish_read_only_paths :: "bytes list \<Rightarrow> bytes list \<times> bytes list" where
  "finish_read_only_paths rules =
     (let (included, excluded) = split_exclusion_rules (sort_dedup_paths_case_insensitive rules)
      in (included, overlapping_exclusion_rules included excluded))"

definition refresh_caller_real_paths_cache ::
  "writer_env \<Rightarrow> bytes \<Rightarrow> i32 \<Rightarrow> raw_cache \<Rightarrow> caller_allowed_cache \<times> raw_cache" where
  "refresh_caller_real_paths_cache env caller_package caller_uid raw =
     (let cache = empty_allowed_cache caller_package caller_uid (config_version (we_hub env))
      in if caller_package = [] \<or> caller_uid < ANDROID_APP_UID_START then (cache, raw)
         else let expand = expand_mount_fallbacks_for_mode (we_fuse env) (storage_backend (we_state env)) caller_package;
                  cache = apply_effective_profile (we_state env) caller_package caller_uid expand cache;
                  user_id = user_id_from_uid caller_uid;
                  storage_root = storage_user_root_for_user user_id;
                  (raw_sandboxed, raw) = get_user_sandboxed_paths_in_raw_config (we_raw env) (we_now env) (we_hub env)
                    caller_package user_id raw;
                  sandboxed = sort_dedup_paths_case_insensitive
                    (append_raw_profile_paths (ca_sandboxed_paths cache) raw_sandboxed user_id storage_root False False);
                  (raw_read_only, raw) = get_user_read_only_paths_in_raw_config (we_raw env) (we_now env) (we_hub env)
                    caller_package user_id raw;
                  (included, excluded) = finish_read_only_paths
                    (append_raw_profile_paths (ca_read_only_paths cache) raw_read_only user_id storage_root True expand)
           in (cache\<lparr>ca_sandboxed_paths := sandboxed, ca_read_only_paths := included,
                     ca_read_only_excluded_paths := excluded\<rparr>, raw))"

definition with_cached_caller_allowed_cache ::
  "writer_env \<Rightarrow> bytes \<Rightarrow> i32 \<Rightarrow> writer_caches \<Rightarrow> caller_allowed_cache \<times> writer_caches" where
  "with_cached_caller_allowed_cache env caller_package caller_uid caches =
     (if CallerAllowedCache_is_valid_for (wc_allowed caches) caller_package caller_uid (config_version (we_hub env))
      then (wc_allowed caches, caches)
      else case refresh_caller_real_paths_cache env caller_package caller_uid (wc_raw caches) of
        (cache, raw) \<Rightarrow> (cache, caches\<lparr>wc_allowed := cache, wc_raw := raw\<rparr>))"

definition with_cached_caller_real_paths ::
  "writer_env \<Rightarrow> bytes \<Rightarrow> i32 \<Rightarrow> caller_real_path_kind \<Rightarrow> writer_caches \<Rightarrow> bytes list \<times> writer_caches" where
  "with_cached_caller_real_paths env caller_package caller_uid kind caches =
     (case with_cached_caller_allowed_cache env caller_package caller_uid caches of
        (cache, caches) \<Rightarrow> (CallerAllowedCache_paths cache kind, caches))"

definition caller_path_matches :: "bytes \<Rightarrow> bytes \<Rightarrow> bool \<Rightarrow> bool" where
  "caller_path_matches configured resolved_path include_xldownload_alias \<longleftrightarrow>
     matches configured resolved_path True
     \<or> (include_xldownload_alias \<and> matches_xldownload_alias configured resolved_path)"

definition caller_path_list_matches :: "bytes list \<Rightarrow> bytes \<Rightarrow> bool \<Rightarrow> bool" where
  "caller_path_list_matches configured_paths resolved_path include_xldownload_alias =
     (let pending_display_path = media_store_pending_display_path resolved_path
      in list_ex (\<lambda>configured. configured \<noteq> []
           \<and> (caller_path_matches configured resolved_path include_xldownload_alias
              \<or> (case pending_display_path of
                    Some display_path \<Rightarrow> caller_path_matches configured display_path include_xldownload_alias
                  | None \<Rightarrow> False))) configured_paths)"

definition caller_has_no_path_rules :: "writer_env \<Rightarrow> bytes \<Rightarrow> i32 \<Rightarrow> writer_caches \<Rightarrow> bool \<times> writer_caches" where
  "caller_has_no_path_rules env caller_package caller_uid caches =
     (case with_cached_caller_allowed_cache env caller_package caller_uid caches of
        (cache, caches) \<Rightarrow>
          (ca_allowed_real_paths cache = [] \<and> ca_excluded_real_paths cache = [] \<and> ca_sandboxed_paths cache = []
           \<and> ca_read_only_paths cache = [] \<and> ca_read_only_excluded_paths cache = [], caches))"

definition is_path_allowed_by_caller_real_paths ::
  "writer_env \<Rightarrow> bytes \<Rightarrow> bytes \<Rightarrow> i32 \<Rightarrow> writer_caches \<Rightarrow> bool \<times> writer_caches" where
  "is_path_allowed_by_caller_real_paths env resolved_path caller_package caller_uid caches =
     (if resolved_path = [] then (False, caches)
      else case with_cached_caller_real_paths env caller_package caller_uid KAllowed caches of
        (ps, caches) \<Rightarrow> (caller_path_list_matches ps resolved_path True, caches))"

definition is_path_parent_of_caller_allowed_real_path ::
  "writer_env \<Rightarrow> bytes \<Rightarrow> bytes \<Rightarrow> i32 \<Rightarrow> writer_caches \<Rightarrow> bool \<times> writer_caches" where
  "is_path_parent_of_caller_allowed_real_path env resolved_path caller_package caller_uid caches =
     (if resolved_path = [] \<or> caller_uid < ANDROID_APP_UID_START then (False, caches)
      else let normalized_path = data_media_to_storage_path (normalize resolved_path);
               storage_root = storage_user_root_for_user (user_id_from_uid caller_uid)
        in if \<not> is_child normalized_path storage_root then (False, caches)
           else case with_cached_caller_real_paths env caller_package caller_uid KAllowed caches of
             (configured_paths, caches) \<Rightarrow>
               (list_ex (\<lambda>configured.
                  (let configured = trim configured
                   in if configured = [] \<or> starts_with_str configured ''!'' then False
                      else let concrete_prefix = concrete_prefix_before_wildcard configured
                        in concrete_prefix \<noteq> [] \<and> is_same_or_child concrete_prefix normalized_path)) configured_paths,
                caches))"

definition is_path_excluded_by_caller_real_paths ::
  "writer_env \<Rightarrow> bytes \<Rightarrow> bytes \<Rightarrow> i32 \<Rightarrow> writer_caches \<Rightarrow> bool \<times> writer_caches" where
  "is_path_excluded_by_caller_real_paths env resolved_path caller_package caller_uid caches =
     (if resolved_path = [] then (False, caches)
      else case with_cached_caller_real_paths env caller_package caller_uid KExcluded caches of
        (ps, caches) \<Rightarrow> (caller_path_list_matches ps resolved_path False, caches))"

definition is_path_sandboxed_by_caller_paths ::
  "writer_env \<Rightarrow> bytes \<Rightarrow> bytes \<Rightarrow> i32 \<Rightarrow> writer_caches \<Rightarrow> bool \<times> writer_caches" where
  "is_path_sandboxed_by_caller_paths env resolved_path caller_package caller_uid caches =
     (if resolved_path = [] then (False, caches)
      else case with_cached_caller_real_paths env caller_package caller_uid KSandboxed caches of
        (ps, caches) \<Rightarrow>
          (let (includes, excludes) = split_exclusion_rules ps
           in (caller_path_list_matches includes resolved_path True
               \<and> \<not> caller_path_list_matches excludes resolved_path True, caches)))"

definition is_path_read_only_by_caller_paths ::
  "writer_env \<Rightarrow> bytes \<Rightarrow> bytes \<Rightarrow> i32 \<Rightarrow> writer_caches \<Rightarrow> bool \<times> writer_caches" where
  "is_path_read_only_by_caller_paths env resolved_path caller_package caller_uid caches =
     (if resolved_path = [] then (False, caches)
      else case with_cached_caller_allowed_cache env caller_package caller_uid caches of
        (cache, caches) \<Rightarrow>
          (caller_path_list_matches (ca_read_only_paths cache) resolved_path True
           \<and> \<not> caller_path_list_matches (ca_read_only_excluded_paths cache) resolved_path True, caches))"

definition is_path_read_only_excluded_by_caller_paths ::
  "writer_env \<Rightarrow> bytes \<Rightarrow> bytes \<Rightarrow> i32 \<Rightarrow> writer_caches \<Rightarrow> bool \<times> writer_caches" where
  "is_path_read_only_excluded_by_caller_paths env resolved_path caller_package caller_uid caches =
     (if resolved_path = [] then (False, caches)
      else case with_cached_caller_real_paths env caller_package caller_uid KReadOnlyExcluded caches of
        (ps, caches) \<Rightarrow> (caller_path_list_matches ps resolved_path True, caches))"

definition cache_says_read_only :: "caller_allowed_cache \<Rightarrow> bytes \<Rightarrow> bool" where
  "cache_says_read_only cache path \<longleftrightarrow>
     \<not> caller_path_list_matches (ca_excluded_real_paths cache) path False
     \<and> caller_path_list_matches (ca_read_only_paths cache) path True
     \<and> \<not> caller_path_list_matches (ca_read_only_excluded_paths cache) path True"

definition is_caller_path_read_only ::
  "writer_env \<Rightarrow> bytes \<Rightarrow> bytes \<Rightarrow> i32 \<Rightarrow> writer_caches \<Rightarrow> bool \<times> writer_caches" where
  "is_caller_path_read_only env path caller_package caller_uid caches =
     (if path = [] then (False, caches)
      else case with_cached_caller_allowed_cache env caller_package caller_uid caches of
        (cache, caches) \<Rightarrow> (cache_says_read_only cache path, caches))"

definition read_only_check_path_by_caller_paths ::
  "writer_env \<Rightarrow> bytes \<Rightarrow> bytes \<Rightarrow> i32 \<Rightarrow> writer_caches \<Rightarrow> bytes \<times> writer_caches" where
  "read_only_check_path_by_caller_paths env resolved_path caller_package caller_uid caches =
     (let (mapped_path, caches) = map_caller_path env resolved_path caller_package caller_uid caches
      in if mapped_path \<noteq> [] \<and> mapped_path \<noteq> resolved_path then
           (case is_caller_path_read_only env mapped_path caller_package caller_uid caches of
              (ro, caches) \<Rightarrow> (if ro then mapped_path else [], caches))
         else
           (case is_caller_path_read_only env resolved_path caller_package caller_uid caches of
              (ro, caches) \<Rightarrow> (if ro then resolved_path else [], caches)))"

definition is_path_or_mapped_target_read_only_by_caller_paths ::
  "writer_env \<Rightarrow> bytes \<Rightarrow> bytes \<Rightarrow> i32 \<Rightarrow> writer_caches \<Rightarrow> bool \<times> writer_caches" where
  "is_path_or_mapped_target_read_only_by_caller_paths env resolved_path caller_package caller_uid caches =
     (case read_only_check_path_by_caller_paths env resolved_path caller_package caller_uid caches of
        (p, caches) \<Rightarrow> (p \<noteq> [], caches))"

section \<open>One-entry caches\<close>

text \<open>
  The three caches of this file hold one entry each: the answer for the last caller and configuration
  version. A cache is sound for a relation between keys and answers when a hit is related to its key.
\<close>

definition slot_sound :: "('k \<Rightarrow> 'c \<Rightarrow> bool) \<Rightarrow> ('c \<Rightarrow> 'v) \<Rightarrow> ('k \<Rightarrow> 'v \<Rightarrow> bool) \<Rightarrow> 'c \<Rightarrow> bool" where
  "slot_sound hit val R c \<longleftrightarrow> (\<forall>k. hit k c \<longrightarrow> R k (val c))"

locale slot_cache =
  fixes hit :: "'k \<Rightarrow> 'c \<Rightarrow> bool"
    and val :: "'c \<Rightarrow> 'v"
    and fill :: "'k \<Rightarrow> 'v \<Rightarrow> 'c"
  assumes fill_hit: "hit j (fill k v) \<longleftrightarrow> j = k"
    and fill_val: "val (fill k v) = v"
begin

lemma fill_sound: "R k v \<Longrightarrow> slot_sound hit val R (fill k v)"
  by (simp add: slot_sound_def fill_hit fill_val)

lemma serve_answer:
  "slot_sound hit val R c \<Longrightarrow> R k v \<Longrightarrow> R k (if hit k c then val c else v)"
  by (simp add: slot_sound_def)

lemma serve_sound:
  "slot_sound hit val R c \<Longrightarrow> R k v \<Longrightarrow> slot_sound hit val R (if hit k c then c else fill k v)"
  by (simp add: fill_sound)

end

type_synonym caller_key = "bytes \<times> i32 \<times> 64 word"

definition mapping_hit :: "caller_key \<Rightarrow> caller_mapping_cache \<Rightarrow> bool" where
  "mapping_hit k c \<longleftrightarrow> k = (cm_package_name c, cm_caller_uid c, cm_config_version c)"

definition mapping_fill :: "caller_key \<Rightarrow> path_mapping list \<Rightarrow> caller_mapping_cache" where
  "mapping_fill k ms = (case k of (p, u, v) \<Rightarrow>
     \<lparr>cm_package_name = p, cm_caller_uid = u, cm_config_version = v, cm_mappings = ms\<rparr>)"

definition target_hit :: "caller_key \<Rightarrow> caller_target_cache \<Rightarrow> bool" where
  "target_hit k c \<longleftrightarrow> k = (ct_package_name c, ct_caller_uid c, ct_config_version c)"

definition target_fill :: "caller_key \<Rightarrow> bytes \<Rightarrow> caller_target_cache" where
  "target_fill k t = (case k of (p, u, v) \<Rightarrow>
     \<lparr>ct_package_name = p, ct_caller_uid = u, ct_config_version = v, ct_redirect_target = t\<rparr>)"

interpretation mapping_slot: slot_cache mapping_hit cm_mappings mapping_fill
  by unfold_locales (auto simp: mapping_hit_def mapping_fill_def split: prod.split)

interpretation target_slot: slot_cache target_hit ct_redirect_target target_fill
  by unfold_locales (auto simp: target_hit_def target_fill_def split: prod.split)

lemma with_caller_mappings_slot:
  fixes env :: writer_env and p :: bytes and u :: i32
  defines "k \<equiv> (p, u, config_version (we_hub env))"
    and "v \<equiv> build_caller_mappings (we_order env) (we_state env) p u"
  shows "fst (with_caller_mappings env p u cs) = (if mapping_hit k (wc_mapping cs) then cm_mappings (wc_mapping cs) else v)"
    "wc_mapping (snd (with_caller_mappings env p u cs))
      = (if mapping_hit k (wc_mapping cs) then wc_mapping cs else mapping_fill k v)"
    "wc_target (snd (with_caller_mappings env p u cs)) = wc_target cs"
  by (auto simp: with_caller_mappings_def mapping_hit_def mapping_fill_def k_def v_def Let_def)

lemma get_caller_target_slot:
  fixes env :: writer_env and p :: bytes and u :: i32
  defines "k \<equiv> (p, u, config_version (we_hub env))"
    and "v \<equiv> compute_caller_redirect_target (we_state env) p u"
  shows "fst (get_caller_default_redirect_target env p u cs)
      = (if target_hit k (wc_target cs) then ct_redirect_target (wc_target cs) else v)"
    "wc_target (snd (get_caller_default_redirect_target env p u cs))
      = (if target_hit k (wc_target cs) then wc_target cs else target_fill k v)"
    "wc_mapping (snd (get_caller_default_redirect_target env p u cs)) = wc_mapping cs"
  by (auto simp: get_caller_default_redirect_target_def target_hit_def target_fill_def k_def v_def Let_def)

text \<open>
  \<open>H\<close> gives the profiles in force at each configuration version. The answers depend on nothing else,
  not even on the hash order of the chain filter.
\<close>

definition agrees :: "(64 word \<Rightarrow> bool \<times> (bytes \<times> app_profile) list) \<Rightarrow> writer_env \<Rightarrow> bool" where
  "agrees H env \<longleftrightarrow> H (config_version (we_hub env)) = (settings_loaded (we_state env), apps (we_state env))
     \<and> (\<forall>ks. set (we_order env ks) = set ks)"

definition state_of :: "bool \<times> (bytes \<times> app_profile) list \<Rightarrow> settings_state" where
  "state_of h = SettingsState_new\<lparr>settings_loaded := fst h, apps := snd h\<rparr>"

lemma resolved_profile_cong:
  "settings_loaded st = settings_loaded st' \<Longrightarrow> apps st = apps st' \<Longrightarrow>
     get_resolved_user_profile_snapshot st p u = get_resolved_user_profile_snapshot st' p u"
  by (simp add: get_resolved_user_profile_snapshot_def find_enabled_user_profile_def)

lemma build_caller_mappings_agrees:
  assumes "agrees H env"
  shows "build_caller_mappings (we_order env) (we_state env) p u
    = build_caller_mappings (\<lambda>ks. ks) (state_of (H (config_version (we_hub env)))) p u"
proof -
  let ?st = "state_of (H (config_version (we_hub env)))"
  have res: "get_resolved_user_profile_snapshot (we_state env) q u = get_resolved_user_profile_snapshot ?st q u" for q
    using assms by (intro resolved_profile_cong) (simp_all add: agrees_def state_of_def)
  have prof: "get_effective_path_mappings (we_state env) p u = get_effective_path_mappings ?st p u"
    by (simp only: get_effective_path_mappings_def get_effective_profile_def res)
  have "\<And>ks. set (we_order env ks) = set ks" using assms by (simp add: agrees_def)
  from filter_valid_chains_filter [OF this] filter_valid_chains_filter [of "\<lambda>ks. ks"]
  have "filter_valid_path_mapping_chains (we_order env) ms = filter_valid_path_mapping_chains (\<lambda>ks. ks) ms" for ms
    by simp
  then show ?thesis by (simp only: build_caller_mappings_def prof)
qed

lemma compute_caller_target_agrees:
  assumes "agrees H env"
  shows "compute_caller_redirect_target (we_state env) p u
    = compute_caller_redirect_target (state_of (H (config_version (we_hub env)))) p u"
proof -
  have "get_resolved_user_profile_snapshot (we_state env) p u
      = get_resolved_user_profile_snapshot (state_of (H (config_version (we_hub env)))) p u"
    using assms by (intro resolved_profile_cong) (simp_all add: agrees_def state_of_def)
  then show ?thesis by (simp add: compute_caller_redirect_target_def)
qed

text \<open>The caches a thread can have after any calls, under any sequence of configurations.\<close>

inductive writer_reachable :: "(64 word \<Rightarrow> bool \<times> (bytes \<times> app_profile) list) \<Rightarrow> writer_caches \<Rightarrow> bool"
  for H :: "64 word \<Rightarrow> bool \<times> (bytes \<times> app_profile) list" where
  start: "writer_reachable H writer_caches_new"
| mappings: "writer_reachable H cs \<Longrightarrow> agrees H env \<Longrightarrow> writer_reachable H (snd (with_caller_mappings env p u cs))"
| target: "writer_reachable H cs \<Longrightarrow> agrees H env \<Longrightarrow>
    writer_reachable H (snd (get_caller_default_redirect_target env p u cs))"
| allowed: "writer_reachable H cs \<Longrightarrow> agrees H env \<Longrightarrow>
    writer_reachable H (snd (with_cached_caller_allowed_cache env p u cs))"
| raw: "writer_reachable H cs \<Longrightarrow> writer_reachable H (cs\<lparr>wc_raw := raw\<rparr>)"

definition mapping_answer :: "(64 word \<Rightarrow> bool \<times> (bytes \<times> app_profile) list) \<Rightarrow> caller_key \<Rightarrow> path_mapping list \<Rightarrow> bool" where
  "mapping_answer H k ms \<longleftrightarrow> (case k of (p, u, v) \<Rightarrow> ms = build_caller_mappings (\<lambda>ks. ks) (state_of (H v)) p u)"

definition target_answer :: "(64 word \<Rightarrow> bool \<times> (bytes \<times> app_profile) list) \<Rightarrow> caller_key \<Rightarrow> bytes \<Rightarrow> bool" where
  "target_answer H k t \<longleftrightarrow> (case k of (p, u, v) \<Rightarrow> t = compute_caller_redirect_target (state_of (H v)) p u)"

definition writer_caches_sound :: "(64 word \<Rightarrow> bool \<times> (bytes \<times> app_profile) list) \<Rightarrow> writer_caches \<Rightarrow> bool" where
  "writer_caches_sound H cs \<longleftrightarrow> slot_sound mapping_hit cm_mappings (mapping_answer H) (wc_mapping cs)
     \<and> slot_sound target_hit ct_redirect_target (target_answer H) (wc_target cs)"

lemma answers_agree:
  assumes "agrees H env"
  shows "mapping_answer H (p, u, config_version (we_hub env)) (build_caller_mappings (we_order env) (we_state env) p u)"
    "target_answer H (p, u, config_version (we_hub env)) (compute_caller_redirect_target (we_state env) p u)"
  by (simp_all add: mapping_answer_def target_answer_def build_caller_mappings_agrees [OF assms]
      compute_caller_target_agrees [OF assms])

lemma writer_reachable_sound: "writer_reachable H cs \<Longrightarrow> writer_caches_sound H cs"
proof (induction rule: writer_reachable.induct)
  case start
  show ?case
    by (simp add: writer_caches_sound_def slot_sound_def writer_caches_new_def mapping_hit_def target_hit_def
        mapping_answer_def target_answer_def build_caller_mappings_def compute_caller_redirect_target_def)
next
  case (mappings cs env p u)
  then have "slot_sound mapping_hit cm_mappings (mapping_answer H) (wc_mapping cs)"
    by (simp add: writer_caches_sound_def)
  from mapping_slot.serve_sound [of "mapping_answer H", OF this answers_agree(1) [OF mappings.hyps(2), of p u]] mappings
  show ?case unfolding writer_caches_sound_def with_caller_mappings_slot(2,3) by simp
next
  case (target cs env p u)
  then have "slot_sound target_hit ct_redirect_target (target_answer H) (wc_target cs)"
    by (simp add: writer_caches_sound_def)
  from target_slot.serve_sound [of "target_answer H", OF this answers_agree(2) [OF target.hyps(2), of p u]] target
  show ?case unfolding writer_caches_sound_def get_caller_target_slot(2,3) by simp
next
  case (allowed cs env p u)
  then show ?case by (simp add: writer_caches_sound_def with_cached_caller_allowed_cache_def split: prod.split)
next
  case (raw cs r)
  then show ?case by (simp add: writer_caches_sound_def)
qed

text \<open>
  (C23) The caller caches are transparent: after any sequence of calls for any callers and under any
  sequence of configurations, the mappings and the redirect target a thread uses for a caller are
  those computed from the profiles in force now.
\<close>

theorem caller_caches_transparent:
  assumes "writer_reachable H caches" and "agrees H env"
  shows "fst (with_caller_mappings env caller_package caller_uid caches)
      = build_caller_mappings (we_order env) (we_state env) caller_package caller_uid
    \<and> fst (get_caller_default_redirect_target env caller_package caller_uid caches)
      = compute_caller_redirect_target (we_state env) caller_package caller_uid"
proof -
  note sound = writer_reachable_sound [OF assms(1), unfolded writer_caches_sound_def]
  have "mapping_answer H (caller_package, caller_uid, config_version (we_hub env))
      (fst (with_caller_mappings env caller_package caller_uid caches))"
    unfolding with_caller_mappings_slot(1)
    by (rule mapping_slot.serve_answer [of "mapping_answer H", OF conjunct1 [OF sound] answers_agree(1) [OF assms(2)]])
  moreover have "target_answer H (caller_package, caller_uid, config_version (we_hub env))
      (fst (get_caller_default_redirect_target env caller_package caller_uid caches))"
    unfolding get_caller_target_slot(1)
    by (rule target_slot.serve_answer [of "target_answer H", OF conjunct2 [OF sound] answers_agree(2) [OF assms(2)]])
  ultimately show ?thesis
    by (simp add: mapping_answer_def target_answer_def build_caller_mappings_agrees [OF assms(2)]
        compute_caller_target_agrees [OF assms(2)])
qed

definition demo_writer_env :: writer_env where
  "demo_writer_env =
     \<lparr>we_hub = loaded_hub, we_raw = demo_raw_env, we_now = 0,
      we_fuse = \<lparr>fuse_available = True, scope_budget_exhausted = (\<lambda>_. False)\<rparr>, we_order = (\<lambda>ks. ks),
      we_uid_file = demo_uid_view, we_inference_disabled = False\<rparr>"

theorem caller_caches_transparent_witness:
  "fst (with_caller_mappings demo_writer_env ''b'' 10001
      (snd (get_caller_default_redirect_target demo_writer_env ''a'' 10002 writer_caches_new)))
    = build_caller_mappings (\<lambda>ks. ks) (hub_state loaded_hub) ''b'' 10001"
proof -
  let ?H = "\<lambda>_. (settings_loaded (hub_state loaded_hub), apps (hub_state loaded_hub))"
  have a: "agrees ?H demo_writer_env" by (simp add: agrees_def demo_writer_env_def)
  have r: "writer_reachable ?H (snd (get_caller_default_redirect_target demo_writer_env ''a'' 10002 writer_caches_new))"
    by (intro writer_reachable.intros a)
  from caller_caches_transparent [OF r a, of "''b''" 10001] show ?thesis by (simp add: demo_writer_env_def)
qed

section \<open>The caller's mappings\<close>

definition caller_mapping_inv :: "bytes list \<times> path_mapping list \<Rightarrow> bool" where
  "caller_mapping_inv acc \<longleftrightarrow> set (fst acc) = set (request_keys (snd acc)) \<and> distinct (request_keys (snd acc))
     \<and> list_all mapping_ok (snd acc)"

lemma add_caller_mapping_inv: "caller_mapping_inv acc \<Longrightarrow> caller_mapping_inv (add_caller_mapping u acc m)"
  by (auto simp: caller_mapping_inv_def add_caller_mapping_def PathMapping_new_def mapping_ok_def Let_def split: prod.split)

text \<open>
  Whatever the configuration holds, the mappings used for a caller are well formed: pairwise
  different requests (ignoring case), safe at both ends, never starting at a private root, never from
  a path to itself, and without chains of more than ten steps, so rewriting a caller's path ends.
\<close>

theorem caller_mappings_wellformed:
  assumes "\<And>ks. set (key_order ks) = set ks"
  shows "mappings_ok (build_caller_mappings key_order st caller_package caller_uid)"
proof -
  have ok: "mappings_ok (filter_valid_path_mapping_chains key_order (sort_path_mappings_longest_request_first ms))"
    if "foldl (add_caller_mapping u) ([], []) raw = (seen, ms)" for u raw seen ms
  proof (rule filter_valid_mappings_ok [OF assms])
    have "caller_mapping_inv (foldl (add_caller_mapping u) ([], []) raw)"
      by (rule foldl_inv) (simp_all add: add_caller_mapping_inv, simp add: caller_mapping_inv_def)
    then have inv: "distinct (request_keys ms)" "list_all mapping_ok ms" using that by (simp_all add: caller_mapping_inv_def)
    then show "list_all mapping_ok (sort_path_mappings_longest_request_first ms)"
      by (simp add: sort_path_mappings_longest_request_first_def list_all_iff)
    show "distinct (request_keys (sort_path_mappings_longest_request_first ms))"
      using inv(1) by (simp add: sort_path_mappings_longest_request_first_def distinct_map inj_on_def)
  qed
  have nil: "mappings_ok []" by (simp add: mappings_ok_def)
  show ?thesis using ok nil by (simp add: build_caller_mappings_def Let_def split: prod.split)
qed

theorem caller_mappings_wellformed_witness:
  "(\<forall>ks :: bytes list. set (rev ks) = set ks) \<and> mappings_ok (build_caller_mappings rev (hub_state loaded_hub) ''b'' 10001)"
proof -
  have "\<And>ks :: bytes list. set (rev ks) = set ks" by simp
  from caller_mappings_wellformed [OF this, of "hub_state loaded_hub" "''b''" 10001] show ?thesis by simp
qed

section \<open>The user of a low uid\<close>

text \<open>
  The user id a system writer takes from a path survives the detour through the effective uid for
  all users up to 21474: the uid made up for the user belongs to that user again. For user 21475 the
  32-bit product wraps and the effective uid is negative.
\<close>

theorem system_writer_uid_bounds:
  fixes normalized_path :: bytes
  defines "user \<equiv> extract_user_id_from_storage_path normalized_path"
  assumes "effective_caller_uid < ANDROID_APP_UID_START" and "0 \<le> user"
  shows "(user \<le> 21474 \<longrightarrow>
      resolve_system_writer_user_id normalized_path effective_caller_uid = (user, user * 100000 + 10000)
      \<and> user_id_from_uid (snd (resolve_system_writer_user_id normalized_path effective_caller_uid)) = user)
    \<and> (user = 21475 \<longrightarrow> snd (resolve_system_writer_user_id normalized_path effective_caller_uid) < 0)"
proof -
  have r: "resolve_system_writer_user_id normalized_path effective_caller_uid
      = (user, wrap_i32 (wrap_i32 (user * 100000) + 10000))"
    using assms(2,3) by (simp add: resolve_system_writer_user_id_def Let_def user_def ANDROID_APP_UID_START_def
        ANDROID_USER_ID_OFFSET_def)
  have "wrap_i32 (wrap_i32 (user * 100000) + 10000) = user * 100000 + 10000" if "user \<le> 21474"
    using assms(3) that by (subst (1 2) wrap_i32_id) (simp_all add: in_i32_def wrap_i32_id)
  moreover have "wrap_i32 (wrap_i32 (21475 * 100000) + 10000) < 0" by (simp add: wrap_i32_def)
  ultimately show ?thesis using assms(3) by (auto simp: r user_id_from_uid_def ANDROID_USER_ID_OFFSET_def)
qed

theorem system_writer_uid_bounds_witness:
  "resolve_system_writer_user_id ''/storage/emulated/7/a'' 1000 = (7, 710000)"
proof -
  have u: "extract_user_id_from_storage_path ''/storage/emulated/7/a'' = 7" by code_simp
  have "(1000 :: i32) < ANDROID_APP_UID_START" "0 \<le> extract_user_id_from_storage_path ''/storage/emulated/7/a''"
    by (simp_all add: ANDROID_APP_UID_START_def u)
  from system_writer_uid_bounds [OF this] show ?thesis by (simp add: u)
qed

section \<open>Sandbox paths and back\<close>

lemma find_str_skip: "x \<noteq> hd p \<Longrightarrow> p \<noteq> [] \<Longrightarrow> find_str p (x # xs) = map_option Suc (find_str p xs)"
  by (cases p) auto

lemma find_str_skip_all: "hd p \<notin> set xs \<Longrightarrow> p \<noteq> [] \<Longrightarrow> find_str p (xs @ ys) = map_option ((+) (length xs)) (find_str p ys)"
proof (induction xs)
  case Nil
  show ?case by (simp add: option.map_ident)
next
  case (Cons x xs)
  then have "find_str p (x # xs @ ys) = map_option Suc (find_str p (xs @ ys))" by (intro find_str_skip) auto
  then show ?case using Cons by (simp only: append_Cons) (simp add: option.map_comp comp_def)
qed

lemma find_str_here: "find_str p (p @ xs) = Some 0"
proof (cases "p @ xs")
  case (Cons a as)
  moreover from this have "prefix p (a # as)" by (metis prefix_def)
  ultimately show ?thesis by simp
qed simp

lemma find_private_dir:
  "find_str ''/Android/data/'' (storage_user_root_for_user u @ ''/Android/data/'' @ r) = Some (length (storage_user_root_for_user u))"
proof -
  have no: "CHR ''/'' \<notin> set (fmt_i32 u)" by (rule fmt_i32_no_slash)
  have "find_str ''/Android/data/'' (fmt_i32 u @ ''/Android/data/'' @ r) = Some (length (fmt_i32 u))"
    by (subst find_str_skip_all) (use no find_str_here [of "''/Android/data/''"] in simp_all)
  moreover obtain c cs where "fmt_i32 u = c # cs" using fmt_i32_nonempty by (cases "fmt_i32 u") auto
  moreover have "c \<noteq> CHR ''A''" if "fmt_i32 u = c # cs" for c cs
    using that show_nat_digits [of "nat \<bar>u\<bar>"]
    by (auto simp: fmt_i32_def list_all_iff is_ascii_digit_def split: if_splits)
  ultimately show ?thesis
    by (simp add: storage_user_root_for_user_def STORAGE_EMULATED_PREFIX_def)
qed

lemma find_char_first: "c \<notin> set xs \<Longrightarrow> find_char c (xs @ c # ys) = Some (length xs)"
  by (induction xs) auto

lemma reverse_readlink_target:
  assumes "slash \<notin> set pkg"
  shows "reverse_readlink_sandbox_path (default_redirect_target pkg u @ suff) = storage_user_root_for_user u @ suff"
proof -
  let ?root = "storage_user_root_for_user u"
  have "data_media_to_storage_path (default_redirect_target pkg u @ suff) = ?root @ ''/Android/data/'' @ pkg @ ''/sdcard'' @ suff"
    by (simp add: data_media_to_storage_path_def default_redirect_target_def storage_user_root_for_user_def
        STORAGE_EMULATED_PREFIX_def DATA_MEDIA_PREFIX_def starts_with_str_def)
  moreover have "find_char slash (pkg @ ''/sdcard'' @ suff) = Some (length pkg)"
    using find_char_first [OF assms, of "''sdcard'' @ suff"] by simp
  ultimately show ?thesis
    using find_private_dir [of u "pkg @ ''/sdcard'' @ suff"]
    by (simp add: reverse_readlink_sandbox_path_def Let_def strip_prefix_def)
qed

text \<open>
  Redirecting a path into an application's sandbox and reading the link back is the identity: for
  a path of the user's storage that the fallback redirects, the reverse translation of the result, in
  its storage form and in its backend form under \<^verbatim>\<open>/data/media\<close>, is the path the application asked for.
\<close>

theorem sandbox_readlink_roundtrip:
  assumes "map_path_by_caller_fallback path (default_redirect_target package_name user_id) user_id = r" and "r \<noteq> []"
    and "prefix (storage_user_root_for_user user_id) path" and "slash \<notin> set package_name"
  shows "reverse_readlink_sandbox_path r = path \<and> reverse_readlink_sandbox_path (storage_to_data_media_path r) = path"
proof -
  let ?root = "storage_user_root_for_user user_id" and ?target = "default_redirect_target package_name user_id"
  obtain suff where p: "path = ?root @ suff" using assms(3) by (auto simp: prefix_def)
  have r: "r = ?target @ suff"
  proof (cases "suff = []")
    case True
    then show ?thesis using assms(1,2) p
      by (auto simp: map_path_by_caller_fallback_def Let_def eq_ignore_case_key split: if_splits)
  next
    case False
    then have "\<not> eq_ignore_case path ?root" using p by (auto simp: eq_ignore_case_key match_key_def to_ascii_lowercase_def)
    then show ?thesis using assms(1,2) p False
      by (auto simp: map_path_by_caller_fallback_def Let_def child_suffix_def eq_ignore_case_def split: if_splits option.splits)
  qed
  have there: "data_media_to_storage_path (storage_to_data_media_path r) = r"
    by (simp add: r data_media_to_storage_path_def storage_to_data_media_path_def default_redirect_target_def
        storage_user_root_for_user_def STORAGE_EMULATED_PREFIX_def DATA_MEDIA_PREFIX_def starts_with_str_def)
  have same: "data_media_to_storage_path r = r"
    by (simp add: r data_media_to_storage_path_def default_redirect_target_def
        storage_user_root_for_user_def STORAGE_EMULATED_PREFIX_def DATA_MEDIA_PREFIX_def starts_with_str_def)
  have "reverse_readlink_sandbox_path (storage_to_data_media_path r) = reverse_readlink_sandbox_path r"
    unfolding reverse_readlink_sandbox_path_def there same ..
  then show ?thesis using reverse_readlink_target [OF assms(4), of user_id suff] p r by simp
qed

theorem sandbox_readlink_roundtrip_witness:
  "reverse_readlink_sandbox_path ''/data/media/0/Android/data/com.a/sdcard/DCIM'' = ''/storage/emulated/0/DCIM''"
proof -
  let ?r = "''/storage/emulated/0/Android/data/com.a/sdcard/DCIM''"
  have a: "map_path_by_caller_fallback ''/storage/emulated/0/DCIM'' (default_redirect_target ''com.a'' 0) 0 = ?r"
    by code_simp
  have p: "prefix (storage_user_root_for_user 0) ''/storage/emulated/0/DCIM''" by code_simp
  have m: "storage_to_data_media_path ?r = ''/data/media/0/Android/data/com.a/sdcard/DCIM''" by code_simp
  have s: "?r \<noteq> []" "slash \<notin> set ''com.a''" by simp_all
  from sandbox_readlink_roundtrip [OF a s(1) p s(2)] show ?thesis by (simp add: m)
qed

text \<open>The sandbox segment is stripped without looking at where it ends.\<close>

lemma readlink_no_boundary:
  "reverse_readlink_sandbox_path ''/storage/emulated/0/Android/data/com.a/sdcard2/x'' = ''/storage/emulated/02/x''"
  by code_simp

end
