(* ===== verification/Router.thy ===== *)
theory Router
  imports Writer
begin

text \<open>
  Model of \<^verbatim>\<open>src/redirect/router.rs\<close>: the path router of an application process. Configuring it
  compiles the profile's rule lists into indices by first path segment and resolves the mappings; the
  queries then run on an immutable snapshot. The lemmas show that the index answers like a scan of all
  rules, and that a configured router only holds rules inside the user's storage.
\<close>

section \<open>Model: the rule index\<close>

record router_path_index =
  idx_entries :: "bytes list"
  idx_buckets :: "(bytes \<times> nat list) list"
  idx_fallback :: "nat list"

definition router_path_first_segment_ref :: "bytes \<Rightarrow> bytes option" where
  "router_path_first_segment_ref path =
     (case strip_prefix path ''/'' of
        None \<Rightarrow> None
      | Some trimmed \<Rightarrow>
          (let segment = hd (split_char slash trimmed)
           in if segment \<noteq> [] then Some segment else None))"

definition router_path_first_segment :: "bytes \<Rightarrow> bytes option" where
  "router_path_first_segment path =
     (case router_path_first_segment_ref path of
        None \<Rightarrow> None
      | Some segment \<Rightarrow> if contains_wildcards segment then None else Some (to_ascii_lowercase segment))"

definition RouterPathIndex_default :: router_path_index where
  "RouterPathIndex_default = \<lparr>idx_entries = [], idx_buckets = [], idx_fallback = []\<rparr>"

definition bucket_push :: "bytes \<Rightarrow> nat \<Rightarrow> (bytes \<times> nat list) list \<Rightarrow> (bytes \<times> nat list) list" where
  "bucket_push key i buckets =
     AList.update key ((case map_of buckets key of Some is \<Rightarrow> is | None \<Rightarrow> []) @ [i]) buckets"

text \<open>One round of the loop over the numbered entries.\<close>

definition index_pattern :: "router_path_index \<Rightarrow> nat \<times> bytes \<Rightarrow> router_path_index" where
  "index_pattern index entry =
     (case entry of (i, pattern) \<Rightarrow>
        (case router_path_first_segment pattern of
           Some key \<Rightarrow> index\<lparr>idx_buckets := bucket_push key i (idx_buckets index)\<rparr>
         | None \<Rightarrow> index\<lparr>idx_fallback := idx_fallback index @ [i]\<rparr>))"

definition RouterPathIndex_new :: "bytes list \<Rightarrow> router_path_index" where
  "RouterPathIndex_new rules =
     foldl index_pattern \<lparr>idx_entries = rules, idx_buckets = [], idx_fallback = []\<rparr> (List.enumerate 0 rules)"

definition index_candidates :: "router_path_index \<Rightarrow> bytes \<Rightarrow> nat list" where
  "index_candidates index resolved_path =
     (let first_segment = router_path_first_segment_ref resolved_path
      in concat (map snd (filter (\<lambda>(key, _).
           (case first_segment of Some segment \<Rightarrow> eq_ignore_ascii_case key segment | None \<Rightarrow> False))
           (idx_buckets index)))
         @ idx_fallback index)"

definition rule_applies :: "bytes \<Rightarrow> bytes \<Rightarrow> bool \<Rightarrow> bool" where
  "rule_applies configured resolved_path include_xldownload_alias \<longleftrightarrow>
     configured \<noteq> []
     \<and> (matches configured resolved_path True
        \<or> (include_xldownload_alias \<and> matches_xldownload_alias configured resolved_path))"

definition RouterPathIndex_matches :: "router_path_index \<Rightarrow> bytes \<Rightarrow> bool \<Rightarrow> bool" where
  "RouterPathIndex_matches index resolved_path include_xldownload_alias =
     list_ex (\<lambda>i. rule_applies (idx_entries index ! i) resolved_path include_xldownload_alias)
       (index_candidates index resolved_path)"

section \<open>Model: configuration\<close>

datatype redirect_action = ActAllow | ActRedirect | ActDenyReadOnly

record redirect_decision =
  rd_action :: redirect_action
  rd_new_path :: bytes
  rd_is_mapping :: bool

definition is_redirect :: "redirect_decision \<Rightarrow> bool" where
  "is_redirect d \<longleftrightarrow> rd_action d = ActRedirect"

definition is_denied :: "redirect_decision \<Rightarrow> bool" where
  "is_denied d \<longleftrightarrow> rd_action d = ActDenyReadOnly"

record router_state =
  rs_current_package :: bytes
  rs_user_id :: i32
  rs_storage_root :: bytes
  rs_redirect_target :: bytes
  rs_allowed_real_paths :: router_path_index
  rs_excluded_real_paths :: router_path_index
  rs_sandboxed_paths :: router_path_index
  rs_sandboxed_excluded_paths :: router_path_index
  rs_read_only_paths :: router_path_index
  rs_read_only_excluded_paths :: router_path_index
  rs_path_mappings :: "path_mapping list"
  rs_is_mapping_mode_only :: bool

definition RouterState_new :: router_state where
  "RouterState_new =
     \<lparr>rs_current_package = [], rs_user_id = 0, rs_storage_root = [], rs_redirect_target = [],
      rs_allowed_real_paths = RouterPathIndex_default, rs_excluded_real_paths = RouterPathIndex_default,
      rs_sandboxed_paths = RouterPathIndex_default, rs_sandboxed_excluded_paths = RouterPathIndex_default,
      rs_read_only_paths = RouterPathIndex_default, rs_read_only_excluded_paths = RouterPathIndex_default,
      rs_path_mappings = [], rs_is_mapping_mode_only = False\<rparr>"

definition resolve_router_storage_path :: "bytes \<Rightarrow> i32 \<Rightarrow> bytes \<Rightarrow> bytes option" where
  "resolve_router_storage_path path user_id storage_root =
     (let resolved = normalize path
      in if has_unsafe_segments resolved then None
         else let resolved = resolve_user_path resolved user_id
           in if resolved = [] \<or> \<not> is_child resolved storage_root then None else Some resolved)"

definition append_router_path :: "bytes list \<Rightarrow> bytes \<Rightarrow> bytes \<Rightarrow> bool \<Rightarrow> bytes list" where
  "append_router_path resolved path storage_root expand_mount_fallbacks =
     (if \<not> expand_mount_fallbacks \<or> \<not> contains_wildcards path then resolved @ [path]
      else (case wildcard_policy_fallback_parent path storage_root of
          Some fallback \<Rightarrow> resolved @ [fallback]
        | None \<Rightarrow> resolved @ [path]))"

definition resolve_router_path_list :: "bytes list \<Rightarrow> i32 \<Rightarrow> bytes \<Rightarrow> bool \<Rightarrow> bytes list" where
  "resolve_router_path_list paths_in user_id storage_root expand_mount_fallbacks =
     sort_dedup_paths_case_insensitive
       (foldl (\<lambda>resolved path.
          (case resolve_router_storage_path path user_id storage_root of
             None \<Rightarrow> resolved
           | Some path \<Rightarrow> append_router_path resolved path storage_root expand_mount_fallbacks)) [] paths_in)"

definition sort_longest_first :: "bytes list \<Rightarrow> bytes list" where
  "sort_longest_first = sort_key (\<lambda>a. (- int (length a), a))"

definition resolve_router_sandboxed_paths :: "bytes list \<Rightarrow> i32 \<Rightarrow> bytes \<Rightarrow> bytes list" where
  "resolve_router_sandboxed_paths paths_in user_id storage_root =
     sort_longest_first (resolve_router_path_list paths_in user_id storage_root False)"

definition resolve_router_read_only_paths :: "bytes list \<Rightarrow> i32 \<Rightarrow> bytes \<Rightarrow> bool \<Rightarrow> bytes list" where
  "resolve_router_read_only_paths paths_in user_id storage_root expand_mount_fallbacks =
     sort_longest_first (resolve_router_path_list paths_in user_id storage_root expand_mount_fallbacks)"

definition add_router_mapping :: "i32 \<Rightarrow> bytes \<Rightarrow> path_mapping list \<Rightarrow> path_mapping \<Rightarrow> path_mapping list" where
  "add_router_mapping user_id storage_root mappings mapping =
     (case resolve_router_storage_path (request_path mapping) user_id storage_root of
        None \<Rightarrow> mappings
      | Some current_path \<Rightarrow>
          if is_application_private_root current_path then mappings
          else (case resolve_router_storage_path (final_path mapping) user_id storage_root of
              None \<Rightarrow> mappings
            | Some target_path \<Rightarrow>
                if eq_ignore_case current_path target_path then mappings
                else mappings @ [PathMapping_new current_path target_path]))"

definition resolve_router_mappings ::
  "(bytes list \<Rightarrow> bytes list) \<Rightarrow> path_mapping list \<Rightarrow> i32 \<Rightarrow> bytes \<Rightarrow> path_mapping list" where
  "resolve_router_mappings key_order mappings user_id storage_root =
     filter_valid_path_mapping_chains key_order
       (dedup_path_mappings_by_request_case_insensitive
         (sort_path_mappings_longest_request_first_case_insensitive
           (foldl (add_router_mapping user_id storage_root) [] mappings)))"

definition configure ::
  "(bytes list \<Rightarrow> bytes list) \<Rightarrow> fuse_view \<Rightarrow> storage_backend_mode \<Rightarrow> bytes \<Rightarrow> i32 \<Rightarrow> bytes \<Rightarrow> bytes list \<Rightarrow> bytes list
    \<Rightarrow> bytes list \<Rightarrow> bytes list \<Rightarrow> path_mapping list \<Rightarrow> bool \<Rightarrow> router_state" where
  "configure key_order fuse mode package_name app_uid target allowed excluded sandboxed read_only mappings
      mapping_mode_only =
     (let user_id = user_id_from_uid app_uid;
          storage_root = storage_user_root_for_user user_id;
          expand = expand_mount_fallbacks_for_mode fuse mode package_name;
          (sandbox_includes, sandbox_excludes) = split_exclusion_rules sandboxed;
          (read_only_includes, read_only_excludes) = split_exclusion_rules read_only;
          read_only_index = RouterPathIndex_new
            (resolve_router_read_only_paths read_only_includes user_id storage_root expand);
          excluded_read_only = resolve_router_read_only_paths read_only_excludes user_id storage_root False
      in \<lparr>rs_current_package = package_name, rs_user_id = user_id, rs_storage_root = storage_root,
          rs_redirect_target = resolve_user_path (normalize target) user_id,
          rs_allowed_real_paths = RouterPathIndex_new (resolve_router_path_list allowed user_id storage_root expand),
          rs_excluded_real_paths = RouterPathIndex_new (resolve_router_path_list excluded user_id storage_root False),
          rs_sandboxed_paths = RouterPathIndex_new (resolve_router_sandboxed_paths sandbox_includes user_id storage_root),
          rs_sandboxed_excluded_paths =
            RouterPathIndex_new (resolve_router_sandboxed_paths sandbox_excludes user_id storage_root),
          rs_read_only_paths = read_only_index,
          rs_read_only_excluded_paths =
            RouterPathIndex_new (overlapping_exclusion_rules (idx_entries read_only_index) excluded_read_only),
          rs_path_mappings = resolve_router_mappings key_order mappings user_id storage_root,
          rs_is_mapping_mode_only = mapping_mode_only\<rparr>)"

section \<open>Model: queries\<close>

definition is_path_excluded_locked :: "router_state \<Rightarrow> bytes \<Rightarrow> bool" where
  "is_path_excluded_locked st resolved_path = RouterPathIndex_matches (rs_excluded_real_paths st) resolved_path True"

definition is_path_allowed_real_locked :: "router_state \<Rightarrow> bytes \<Rightarrow> bool" where
  "is_path_allowed_real_locked st resolved_path \<longleftrightarrow>
     \<not> is_path_excluded_locked st resolved_path
     \<and> RouterPathIndex_matches (rs_allowed_real_paths st) resolved_path True"

definition is_path_read_only_locked :: "router_state \<Rightarrow> bytes \<Rightarrow> bool" where
  "is_path_read_only_locked st resolved_path \<longleftrightarrow>
     \<not> is_path_excluded_locked st resolved_path
     \<and> \<not> RouterPathIndex_matches (rs_read_only_excluded_paths st) resolved_path True
     \<and> RouterPathIndex_matches (rs_read_only_paths st) resolved_path True"

definition read_only_check_path_locked :: "router_state \<Rightarrow> bytes \<Rightarrow> bytes" where
  "read_only_check_path_locked st resolved_path =
     (let mapped_path = map_path_by_caller_mappings resolved_path (rs_path_mappings st)
      in if mapped_path \<noteq> [] \<and> mapped_path \<noteq> resolved_path then
           (if is_path_read_only_locked st mapped_path then mapped_path else [])
         else if is_path_read_only_locked st resolved_path then resolved_path
         else [])"

definition is_path_excluded :: "router_state \<Rightarrow> bytes \<Rightarrow> bool" where
  "is_path_excluded st resolved_path = (if resolved_path = [] then False else is_path_excluded_locked st resolved_path)"

definition is_path_allowed_real :: "router_state \<Rightarrow> bytes \<Rightarrow> bool" where
  "is_path_allowed_real st resolved_path =
     (if resolved_path = [] then False else is_path_allowed_real_locked st resolved_path)"

definition is_path_sandboxed :: "router_state \<Rightarrow> bytes \<Rightarrow> bool" where
  "is_path_sandboxed st resolved_path =
     (if resolved_path = [] then False
      else rs_is_mapping_mode_only st \<and> RouterPathIndex_matches (rs_sandboxed_paths st) resolved_path True
        \<and> \<not> RouterPathIndex_matches (rs_sandboxed_excluded_paths st) resolved_path True)"

definition router_map_path :: "router_state \<Rightarrow> bytes \<Rightarrow> bytes" where
  "router_map_path st resolved_path =
     (if resolved_path = [] then [] else map_path_by_caller_mappings resolved_path (rs_path_mappings st))"

definition is_path_mapping_target :: "router_state \<Rightarrow> bytes \<Rightarrow> bool" where
  "is_path_mapping_target st resolved_path =
     (if resolved_path = [] then False
      else list_ex (\<lambda>mapping. is_same_or_child resolved_path (final_path mapping)) (rs_path_mappings st))"

definition read_only_check_path :: "router_state \<Rightarrow> bytes \<Rightarrow> bytes" where
  "read_only_check_path st resolved_path =
     (if resolved_path = [] then [] else read_only_check_path_locked st resolved_path)"

definition is_path_readable_by_read_only_rule :: "router_state \<Rightarrow> bytes \<Rightarrow> bool" where
  "is_path_readable_by_read_only_rule st resolved_path =
     (if resolved_path = [] then False else is_path_read_only_locked st resolved_path)"

section \<open>The index is a linear scan\<close>

definition bucket :: "router_path_index \<Rightarrow> bytes \<Rightarrow> nat set" where
  "bucket idx k = set (case map_of (idx_buckets idx) k of Some is \<Rightarrow> is | None \<Rightarrow> [])"

lemma index_pattern_fields:
  "idx_entries (index_pattern idx (i, pat)) = idx_entries idx"
  "set (idx_fallback (index_pattern idx (i, pat)))
    = set (idx_fallback idx) \<union> (if router_path_first_segment pat = None then {i} else {})"
  "bucket (index_pattern idx (i, pat)) k = bucket idx k \<union> (if router_path_first_segment pat = Some k then {i} else {})"
  "distinct (keys_of (idx_buckets idx)) \<Longrightarrow> distinct (keys_of (idx_buckets (index_pattern idx (i, pat))))"
  by (auto simp: index_pattern_def bucket_def bucket_push_def distinct_update split: option.splits)

lemma index_fold_fields:
  "idx_entries (foldl index_pattern idx ps) = idx_entries idx
   \<and> set (idx_fallback (foldl index_pattern idx ps))
      = set (idx_fallback idx) \<union> {i. \<exists>pat. (i, pat) \<in> set ps \<and> router_path_first_segment pat = None}
   \<and> bucket (foldl index_pattern idx ps) k
      = bucket idx k \<union> {i. \<exists>pat. (i, pat) \<in> set ps \<and> router_path_first_segment pat = Some k}
   \<and> (distinct (keys_of (idx_buckets idx)) \<longrightarrow> distinct (keys_of (idx_buckets (foldl index_pattern idx ps))))"
proof (induction ps arbitrary: idx)
  case (Cons x ps)
  obtain i pat where "x = (i, pat)" by (cases x)
  then show ?case using Cons.IH [of "index_pattern idx (i, pat)"] by (auto simp: index_pattern_fields)
qed simp

lemma in_enumerate: "(i, x) \<in> set (List.enumerate 0 xs) \<longleftrightarrow> i < length xs \<and> xs ! i = x"
  by (auto simp: in_set_enumerate_eq)

lemma router_index_fields:
  "idx_entries (RouterPathIndex_new rules) = rules"
  "set (idx_fallback (RouterPathIndex_new rules)) = {i. i < length rules \<and> router_path_first_segment (rules ! i) = None}"
  "bucket (RouterPathIndex_new rules) k = {i. i < length rules \<and> router_path_first_segment (rules ! i) = Some k}"
  "distinct (keys_of (idx_buckets (RouterPathIndex_new rules)))"
proof -
  let ?base = "\<lparr>idx_entries = rules, idx_buckets = [], idx_fallback = []\<rparr>"
  have base: "bucket ?base k = {}" by (simp add: bucket_def)
  note fold = index_fold_fields [of ?base "List.enumerate 0 rules" k, folded RouterPathIndex_new_def, unfolded base]
  show "idx_entries (RouterPathIndex_new rules) = rules" "distinct (keys_of (idx_buckets (RouterPathIndex_new rules)))"
    using fold by simp_all
  show "set (idx_fallback (RouterPathIndex_new rules)) = {i. i < length rules \<and> router_path_first_segment (rules ! i) = None}"
    "bucket (RouterPathIndex_new rules) k = {i. i < length rules \<and> router_path_first_segment (rules ! i) = Some k}"
    using fold by (simp_all add: in_enumerate)
qed

lemma index_candidates_set:
  assumes "router_path_first_segment_ref path = Some seg"
  shows "set (index_candidates (RouterPathIndex_new rules) path)
    = {i. i < length rules \<and> (case router_path_first_segment (rules ! i) of
         None \<Rightarrow> True | Some k \<Rightarrow> eq_ignore_ascii_case k seg)}"
proof -
  let ?idx = "RouterPathIndex_new rules"
  have "(k, is) \<in> set (idx_buckets ?idx) \<longleftrightarrow> map_of (idx_buckets ?idx) k = Some is" for k "is"
    using router_index_fields(4) [of rules] by (simp add: map_of_eq_Some_iff)
  then have "set (concat (map snd (filter (\<lambda>(key, _). eq_ignore_ascii_case key seg) (idx_buckets ?idx))))
      = {i. \<exists>k. eq_ignore_ascii_case k seg \<and> i \<in> bucket ?idx k}"
    by (force simp: bucket_def split: option.splits)
  then show ?thesis
    by (auto simp: index_candidates_def assms Let_def router_index_fields split: option.splits)
qed

text \<open>Only the rules whose first segment can match are candidates, and the others do not apply.\<close>

lemma first_segment_ref_segs:
  assumes "router_path_first_segment_ref path = Some seg"
  shows "is_absolute path" "\<exists>rest. segs path = seg # rest"
proof -
  obtain t where t: "path = slash # t" "seg = hd (split_char slash t)" "seg \<noteq> []"
    using assms by (auto simp: router_path_first_segment_ref_def Let_def strip_prefix_Some split: option.splits if_splits)
  then show "is_absolute path" by (simp add: is_absolute_def starts_with_str_def)
  have "segs path = segs t" using t(1) by (simp add: nonempty_parts_def)
  moreover have "split_char slash t = seg # tl (split_char slash t)"
    using t(2) by (cases "split_char slash t") (use split_char_nonempty [of slash t] in auto)
  then have "segs t = seg # filter (\<lambda>p. p \<noteq> []) (tl (split_char slash t))"
    using t(3) by (metis (mono_tags, lifting) filter.simps(2) nonempty_parts_def)
  ultimately show "\<exists>rest. segs path = seg # rest" by auto
qed

lemma rule_applies_first_segment:
  assumes "rule_applies rule path al" and "router_path_first_segment_ref path = Some seg"
    and "router_path_first_segment rule = Some k"
  shows "eq_ignore_ascii_case k seg"
proof -
  obtain s where s: "router_path_first_segment_ref rule = Some s" "\<not> contains_wildcards s" "k = to_ascii_lowercase s"
    using assms(3) by (auto simp: router_path_first_segment_def split: option.splits if_splits)
  obtain r1 r2 where segs: "segs rule = s # r1" "segs path = seg # r2"
    using first_segment_ref_segs(2) [OF s(1)] first_segment_ref_segs(2) [OF assms(2)] by blast
  note abs = first_segment_ref_segs(1) [OF s(1)] first_segment_ref_segs(1) [OF assms(2)]
  have "match_segment_pattern s seg" if "matches rule path True"
    using that segs by (simp add: matches_by_components [OF abs] Let_def)
  then have "eq_ignore_ascii_case s seg" if "matches rule path True"
    using that s(2) by (simp add: match_segment_pattern_def contains_wildcards_def)
  moreover have "eq_ignore_ascii_case s seg" if "matches_xldownload_alias rule path"
    using that segs by (auto simp: matches_xldownload_alias_def Let_def eq_ignore_ascii_case_iff split: if_splits)
  ultimately have "eq_ignore_ascii_case s seg" using assms(1) by (auto simp: rule_applies_def)
  then show ?thesis by (simp add: s(3) eq_ignore_ascii_case_iff)
qed

text \<open>
  (C22) The compiled index never changes an answer: for every list of rules and every absolute path
  with a first component, looking up the bucket of that component (and the rules that start with a
  wildcard) finds a matching rule exactly when a scan of the whole list does.
\<close>

theorem router_index_is_linear_scan:
  assumes "router_path_first_segment_ref resolved_path \<noteq> None"
  shows "RouterPathIndex_matches (RouterPathIndex_new rules) resolved_path include_xldownload_alias
    \<longleftrightarrow> list_ex (\<lambda>rule. rule_applies rule resolved_path include_xldownload_alias) rules"
proof -
  obtain seg where seg: "router_path_first_segment_ref resolved_path = Some seg" using assms by blast
  have "RouterPathIndex_matches (RouterPathIndex_new rules) resolved_path include_xldownload_alias \<longleftrightarrow>
      (\<exists>i < length rules. rule_applies (rules ! i) resolved_path include_xldownload_alias
        \<and> (case router_path_first_segment (rules ! i) of None \<Rightarrow> True | Some k \<Rightarrow> eq_ignore_ascii_case k seg))"
    by (auto simp: RouterPathIndex_matches_def list_ex_iff index_candidates_set [OF seg] router_index_fields(1))
  also have "\<dots> \<longleftrightarrow> (\<exists>i < length rules. rule_applies (rules ! i) resolved_path include_xldownload_alias)"
    using rule_applies_first_segment [OF _ seg] by (auto split: option.splits)
  finally show ?thesis by (simp add: list_ex_length)
qed

theorem router_index_is_linear_scan_witness:
  "RouterPathIndex_matches (RouterPathIndex_new [''/a/x'', ''/*/b'']) ''/c/b'' False"
proof -
  have f: "router_path_first_segment_ref ''/c/b'' \<noteq> None" by code_simp
  have "list_ex (\<lambda>rule. rule_applies rule ''/c/b'' False) [''/a/x'', ''/*/b'']" by code_simp
  then show ?thesis by (simp only: router_index_is_linear_scan [OF f])
qed

section \<open>A configured router stays inside the storage\<close>

lemma resolve_router_storage_path_child:
  "resolve_router_storage_path p u root = Some r \<Longrightarrow> is_child r root"
  by (auto simp: resolve_router_storage_path_def Let_def split: if_splits)

lemma policy_fallback_child: "wildcard_policy_fallback_parent p root = Some r \<Longrightarrow> is_child r root"
  by (auto simp: wildcard_policy_fallback_parent_def wildcard_mount_fallback_parent_def Let_def split: if_splits)

lemma sort_dedup_subset: "set (sort_dedup_paths_case_insensitive ps) \<subseteq> set ps"
  using dedup_by_subset [of eq_ignore_case "sort_key (\<lambda>a. (match_key a, a)) ps"]
  by (simp add: sort_dedup_paths_case_insensitive_def)

lemma router_path_list_inside: "r \<in> set (resolve_router_path_list ps u root ex) \<Longrightarrow> is_child r root"
proof -
  let ?f = "\<lambda>resolved path. case resolve_router_storage_path path u root of
      None \<Rightarrow> resolved | Some path \<Rightarrow> append_router_path resolved path root ex"
  have "\<forall>r \<in> set (foldl ?f [] ps). is_child r root"
  proof (rule foldl_inv)
    fix acc p
    assume "\<forall>r \<in> set acc. is_child r root"
    then show "\<forall>r \<in> set (?f acc p). is_child r root"
      using resolve_router_storage_path_child policy_fallback_child
      by (auto simp: append_router_path_def split: option.splits)
  qed simp
  moreover assume "r \<in> set (resolve_router_path_list ps u root ex)"
  ultimately show ?thesis using sort_dedup_subset unfolding resolve_router_path_list_def by blast
qed

lemma router_lists_inside:
  "r \<in> set (resolve_router_sandboxed_paths ps u root) \<Longrightarrow> is_child r root"
  "r \<in> set (resolve_router_read_only_paths ps u root ex) \<Longrightarrow> is_child r root"
  using router_path_list_inside
  by (auto simp: resolve_router_sandboxed_paths_def resolve_router_read_only_paths_def sort_longest_first_def)

lemma overlapping_subset: "set (overlapping_exclusion_rules inc exc) \<subseteq> set exc"
  using sort_dedup_subset by (fastforce simp: overlapping_exclusion_rules_def)

text \<open>Rules the router holds, over all its lists.\<close>

definition router_rules :: "router_state \<Rightarrow> bytes list" where
  "router_rules st =
     idx_entries (rs_allowed_real_paths st) @ idx_entries (rs_excluded_real_paths st)
     @ idx_entries (rs_sandboxed_paths st) @ idx_entries (rs_sandboxed_excluded_paths st)
     @ idx_entries (rs_read_only_paths st) @ idx_entries (rs_read_only_excluded_paths st)"

definition router_mapping_ok :: "bytes \<Rightarrow> path_mapping \<Rightarrow> bool" where
  "router_mapping_ok root m \<longleftrightarrow> is_child (request_path m) root \<and> is_child (final_path m) root
     \<and> \<not> is_application_private_root (request_path m) \<and> \<not> eq_ignore_case (request_path m) (final_path m)"

lemma router_mappings_ok: "list_all (router_mapping_ok root) (resolve_router_mappings key_order ms u root)"
  if "\<And>ks. set (key_order ks) = set ks"
proof -
  have "list_all (router_mapping_ok root) (foldl (add_router_mapping u root) [] ms)"
    by (rule foldl_inv) (auto simp: add_router_mapping_def router_mapping_ok_def PathMapping_new_def
        dest: resolve_router_storage_path_child split: option.splits)
  then show ?thesis
    using dedup_by_subset
    unfolding resolve_router_mappings_def filter_valid_chains_filter [OF that] list_all_iff
      dedup_path_mappings_by_request_case_insensitive_def sort_path_mappings_longest_request_first_case_insensitive_def
    by fastforce
qed

lemma configure_fields:
  fixes key_order fuse mode package_name app_uid target allowed excluded sandboxed read_only mappings mapping_only
  defines "st \<equiv> configure key_order fuse mode package_name app_uid target allowed excluded sandboxed read_only mappings mapping_only"
    and "u \<equiv> user_id_from_uid app_uid"
  shows "rs_storage_root st = storage_user_root_for_user u"
    "rs_path_mappings st = resolve_router_mappings key_order mappings u (storage_user_root_for_user u)"
    "r \<in> set (router_rules st) \<Longrightarrow> is_child r (storage_user_root_for_user u)"
proof -
  show "rs_storage_root st = storage_user_root_for_user u"
    "rs_path_mappings st = resolve_router_mappings key_order mappings u (storage_user_root_for_user u)"
    by (simp_all add: st_def u_def configure_def Let_def split: prod.split)
  show "r \<in> set (router_rules st) \<Longrightarrow> is_child r (storage_user_root_for_user u)"
    using router_path_list_inside router_lists_inside overlapping_subset
    by (fastforce simp: st_def u_def configure_def router_rules_def router_index_fields(1) Let_def split: prod.splits)
qed

lemma map_chain_inside:
  assumes "\<And>m. m \<in> set ms \<Longrightarrow> is_child (final_path m) root" and "changed \<Longrightarrow> is_child cur root"
    and "map_chain_loop i False ms cur changed visited \<noteq> []"
  shows "is_child (map_chain_loop i False ms cur changed visited) root"
  using assms(2,3)
proof (induction i arbitrary: cur changed visited)
  case (Suc i)
  show ?case
  proof (cases "best_mapping False ms cur")
    case None
    then show ?thesis using Suc.prems by (auto split: if_splits)
  next
    case (Some ms')
    obtain m suff where b: "best_mapping False ms cur = Some (m, suff)" using Some by (cases ms') auto
    then have "m \<in> set ms"
      using max_by_key_in unfolding best_mapping_def by (fastforce simp: List.map_filter_def)
    then have "is_child (final_path m) root" by (rule assms(1))
    then have "is_child (final_path m @ suff) root" by (auto simp: is_child_iff prefix_def)
    then show ?thesis using Suc.IH [of True "final_path m @ suff"] Suc.prems(2) b
      by (auto simp: target_root_def Let_def split: if_splits)
  qed
qed simp

lemma map_path_inside:
  assumes "\<And>m. m \<in> set ms \<Longrightarrow> is_child (final_path m) root"
  shows "map_path_by_mappings p ms = [] \<or> is_child (map_path_by_mappings p ms) root"
proof (cases "p = [] \<or> ms = []")
  case False
  let ?loop = "map_chain_loop (MAX_PATH_MAPPING_DEPTH + 1) False ms p False [match_key p]"
  have "map_path_by_mappings p ms = ?loop"
    using False unfolding map_path_by_mappings_def map_mapping_chain_def by (simp only: if_False)
  moreover have "is_child ?loop root" if "?loop \<noteq> []"
    using assms that by (intro map_chain_inside) simp_all
  ultimately show ?thesis by metis
qed (auto simp: map_path_by_mappings_def map_mapping_chain_def)


definition demo_fuse :: fuse_view where
  "demo_fuse = \<lparr>fuse_available = False, scope_budget_exhausted = (\<lambda>_. False)\<rparr>"

definition demo_router :: router_state where
  "demo_router = configure (\<lambda>ks. ks) demo_fuse Namespace ''p'' 0 [] [''/storage/emulated/0/D/a*''] [] [] []
     [PathMapping_new ''/storage/emulated/0/A'' ''/storage/emulated/0/B''] False"


text \<open>
  Under the namespace backend the router and the system writer disagree on a wildcard allow rule:
  the router replaces \<^verbatim>\<open>D/a*\<close> by its parent \<^verbatim>\<open>D\<close> and so allows the sibling \<^verbatim>\<open>D/z\<close>, which the rule does
  not name; the writer, by its comment on purpose, keeps the wildcard.
\<close>

theorem router_widens_wildcard_allow:
  "is_path_allowed_real demo_router ''/storage/emulated/0/D/z''
   \<and> \<not> caller_path_list_matches
       (expand_wildcard_mount_fallback_rules [''/storage/emulated/0/D/a*''] 0 False) ''/storage/emulated/0/D/z'' True"
  by code_simp

end
