(* ===== verification/State_Logic.thy ===== *)
theory State_Logic
  imports Prelude "HOL-Library.State_Monad"
begin

text \<open>
  Reasoning about code that is written in the state monad of the library: reading and changing the state,
  loops over a list, pre- and postconditions, and the locale \<^verbatim>\<open>step_order\<close>, the contract of a reflexive and
  transitive relation between the states before and after a computation, which carries such a relation
  through sequences, branches and loops.
\<close>

abbreviation ret :: "'a \<Rightarrow> ('s, 'a) state" where
  "ret \<equiv> State_Monad.return"

definition reads :: "('s \<Rightarrow> 'a) \<Rightarrow> ('s, 'a) state" where
  "reads f = State (\<lambda>s. (f s, s))"

definition modifies :: "('s \<Rightarrow> 's) \<Rightarrow> ('s, unit) state" where
  "modifies f = State (\<lambda>s. ((), f s))"

definition when_m :: "bool \<Rightarrow> ('s, 'a) state \<Rightarrow> ('s, unit) state" where
  "when_m c m = (if c then do { _ \<leftarrow> m; ret () } else ret ())"

section \<open>Loops over a list\<close>

fun filter_m :: "('a \<Rightarrow> ('s, bool) state) \<Rightarrow> 'a list \<Rightarrow> ('s, 'a list) state" where
  "filter_m p [] = ret []"
| "filter_m p (x # xs) = do {
     keep \<leftarrow> p x;
     ys \<leftarrow> filter_m p xs;
     ret (if keep then x # ys else ys)
   }"

fun find_m :: "('a \<Rightarrow> ('s, bool) state) \<Rightarrow> 'a list \<Rightarrow> ('s, 'a option) state" where
  "find_m p [] = ret None"
| "find_m p (x # xs) = do {
     found \<leftarrow> p x;
     if found then ret (Some x) else find_m p xs
   }"

text \<open>A loop with an accumulator, and one without.\<close>

fun fold_m :: "('a \<Rightarrow> 'b \<Rightarrow> ('s, 'b) state) \<Rightarrow> 'a list \<Rightarrow> 'b \<Rightarrow> ('s, 'b) state" where
  "fold_m f [] acc = ret acc"
| "fold_m f (x # xs) acc = do {
     acc \<leftarrow> f x acc;
     fold_m f xs acc
   }"

fun each_m :: "('a \<Rightarrow> ('s, unit) state) \<Rightarrow> 'a list \<Rightarrow> ('s, unit) state" where
  "each_m f [] = ret ()"
| "each_m f (x # xs) = do {
     f x;
     each_m f xs
   }"

text \<open>The first element with an answer.\<close>

fun first_m :: "('a \<Rightarrow> ('s, 'b option) state) \<Rightarrow> 'a list \<Rightarrow> ('s, 'b option) state" where
  "first_m f [] = ret None"
| "first_m f (x # xs) = do {
     found \<leftarrow> f x;
     case found of Some y \<Rightarrow> ret (Some y) | None \<Rightarrow> first_m f xs
   }"

lemma run_reads [simp]: "run_state (reads f) s = (f s, s)"
  by (simp add: reads_def)

lemma run_modifies [simp]: "run_state (modifies f) s = ((), f s)"
  by (simp add: modifies_def)

section \<open>Pre- and postconditions\<close>

text \<open>\<^verbatim>\<open>ensures P m Q\<close>: run from a state with \<open>P\<close>, the computation ends with a result and a state with \<open>Q\<close>.\<close>

definition ensures :: "('s \<Rightarrow> bool) \<Rightarrow> ('s, 'a) state \<Rightarrow> ('a \<Rightarrow> 's \<Rightarrow> bool) \<Rightarrow> bool" where
  "ensures P m Q \<longleftrightarrow> (\<forall>s. P s \<longrightarrow> (case run_state m s of (a, s') \<Rightarrow> Q a s'))"

named_theorems ensures_rules "introduction rules for computations in the state monad"

lemma ensures_run: "ensures P m Q \<Longrightarrow> P s \<Longrightarrow> run_state m s = (a, s') \<Longrightarrow> Q a s'"
  by (auto simp: ensures_def)

lemma ensures_return [ensures_rules]: "(\<And>s. P s \<Longrightarrow> Q a s) \<Longrightarrow> ensures P (ret a) Q"
  by (simp add: ensures_def)

lemma ensures_bind:
  assumes "ensures P m R" and "\<And>a. ensures (R a) (f a) Q"
  shows "ensures P (State_Monad.bind m f) Q"
  using assms by (fastforce simp: ensures_def split: prod.splits)

lemma ensures_weaken: "ensures P m Q \<Longrightarrow> (\<And>s. P' s \<Longrightarrow> P s) \<Longrightarrow> (\<And>a s. Q a s \<Longrightarrow> Q' a s) \<Longrightarrow> ensures P' m Q'"
  by (fastforce simp: ensures_def split: prod.splits)

lemma ensures_reads [ensures_rules]: "(\<And>s. P s \<Longrightarrow> Q (f s) s) \<Longrightarrow> ensures P (reads f) Q"
  by (simp add: ensures_def)

lemma ensures_if [ensures_rules]:
  "(c \<Longrightarrow> ensures P m Q) \<Longrightarrow> (\<not> c \<Longrightarrow> ensures P n Q) \<Longrightarrow> ensures P (if c then m else n) Q"
  by simp

lemma ensures_conj: "ensures P m Q \<Longrightarrow> ensures P m Q' \<Longrightarrow> ensures P m (\<lambda>a s. Q a s \<and> Q' a s)"
  by (auto simp: ensures_def)

lemma ensures_modifies [ensures_rules]: "(\<And>s. P s \<Longrightarrow> Q () (f s)) \<Longrightarrow> ensures P (modifies f) Q"
  by (simp add: ensures_def)

lemma ensures_later:
  "(\<And>a. ensures (\<lambda>_. True) (f a) Q) \<Longrightarrow> ensures (\<lambda>_. True) (State_Monad.bind m f) Q"
  by (rule ensures_bind [where R = "\<lambda>_ _. True"]) (simp_all add: ensures_def)

text \<open>Postconditions on the result alone.\<close>

abbreviation yields :: "('s, 'a) state \<Rightarrow> ('a \<Rightarrow> bool) \<Rightarrow> bool" where
  "yields m Q \<equiv> ensures (\<lambda>_. True) m (\<lambda>a _. Q a)"

lemma yields_return: "Q a \<Longrightarrow> yields (ret a) Q"
  by (simp add: ensures_def)

lemma yields_bind: "(\<And>a. yields (f a) Q) \<Longrightarrow> yields (State_Monad.bind m f) Q"
  by (fastforce simp: ensures_def split: prod.splits)

lemma yields_bind_with: "yields m R \<Longrightarrow> (\<And>a. R a \<Longrightarrow> yields (f a) Q) \<Longrightarrow> yields (State_Monad.bind m f) Q"
  by (fastforce simp: ensures_def split: prod.splits)

lemma yields_fold:
  assumes "I acc" "\<And>x acc. x \<in> set xs \<Longrightarrow> I acc \<Longrightarrow> yields (f x acc) I"
  shows "yields (fold_m f xs acc) I"
  using assms
proof (induction xs arbitrary: acc)
  case (Cons x xs)
  show ?case
    unfolding fold_m.simps by (rule yields_bind_with [of _ I]) (use Cons in auto)
qed (simp add: yields_return)

lemma ensures_fold:
  assumes "\<And>x acc. x \<in> set xs \<Longrightarrow> ensures (I acc) (f x acc) I"
  shows "ensures (I acc) (fold_m f xs acc) I"
  using assms
proof (induction xs arbitrary: acc)
  case (Cons x xs)
  show ?case
    unfolding fold_m.simps by (rule ensures_bind [of _ _ I]) (use Cons in auto)
qed (simp add: ensures_return)

lemma yields_first: "(\<And>x. x \<in> set xs \<Longrightarrow> yields (f x) (\<lambda>r. \<forall>y. r = Some y \<longrightarrow> Q y))
  \<Longrightarrow> yields (first_m f xs) (\<lambda>r. \<forall>y. r = Some y \<longrightarrow> Q y)"
proof (induction xs)
  case (Cons x xs)
  show ?case
    unfolding first_m.simps
    by (rule yields_bind_with [OF Cons.prems]) (use Cons in \<open>auto intro: yields_return split: option.splits\<close>)
qed (simp add: yields_return)

lemma yields_if: "(c \<Longrightarrow> yields m Q) \<Longrightarrow> (\<not> c \<Longrightarrow> yields n Q) \<Longrightarrow> yields (if c then m else n) Q"
  by simp

lemma yields_known: "yields m (\<lambda>a. a = b) \<Longrightarrow> yields (f b) Q \<Longrightarrow> yields (State_Monad.bind m f) Q"
  by (rule yields_bind_with [where R = "\<lambda>a. a = b"]) auto

lemma yields_find_none: "(\<And>x. x \<in> set xs \<Longrightarrow> yields (p x) (\<lambda>b. b = False)) \<Longrightarrow> yields (find_m p xs) (\<lambda>r. r = None)"
proof (induction xs)
  case (Cons x xs)
  show ?case
    unfolding find_m.simps by (rule yields_known [OF Cons.prems]) (use Cons in auto)
qed (simp add: yields_return)

section \<open>Relations between the states before and after\<close>

text \<open>\<^const>\<open>state_io_rel\<close> of the library: the state before and the state after are related, whatever the result.\<close>

named_theorems io_rules "relations between the states before and after a computation"

lemma io_run: "state_io_rel R m \<Longrightarrow> run_state m s = (a, t) \<Longrightarrow> R s t"
  by (metis state_io_rel_def snd_conv)

lemma io_weaken: "state_io_rel R m \<Longrightarrow> (\<And>s t. R s t \<Longrightarrow> S s t) \<Longrightarrow> state_io_rel S m"
  by (auto simp: state_io_rel_def)

lemma io_modifies: "(\<And>s. R s (f s)) \<Longrightarrow> state_io_rel R (modifies f)"
  by (auto simp: state_io_rel_def)

locale step_order =
  fixes R :: "'s \<Rightarrow> 's \<Rightarrow> bool"
  assumes same: "R s s" and chained: "R s t \<Longrightarrow> R t u \<Longrightarrow> R s u"
begin

lemma io_return: "state_io_rel R (ret a)"
  by (auto simp: state_io_rel_def same)

lemma io_reads: "state_io_rel R (reads f)"
  by (auto simp: state_io_rel_def same)

lemma io_bind_run:
  assumes "state_io_rel R m" "\<And>s a t. run_state m s = (a, t) \<Longrightarrow> state_io_rel R (f a)"
  shows "state_io_rel R (State_Monad.bind m f)"
  using assms by (auto simp: state_io_rel_def split: prod.splits) (metis chained snd_conv surj_pair)

lemma io_bind: "state_io_rel R m \<Longrightarrow> (\<And>a. state_io_rel R (f a)) \<Longrightarrow> state_io_rel R (State_Monad.bind m f)"
  by (rule io_bind_run)

lemma io_if: "(c \<Longrightarrow> state_io_rel R m) \<Longrightarrow> (\<not> c \<Longrightarrow> state_io_rel R n) \<Longrightarrow> state_io_rel R (if c then m else n)"
  by simp

lemma io_option:
  "(x = None \<Longrightarrow> state_io_rel R m) \<Longrightarrow> (\<And>a. x = Some a \<Longrightarrow> state_io_rel R (f a))
    \<Longrightarrow> state_io_rel R (case x of None \<Rightarrow> m | Some a \<Rightarrow> f a)"
  by (cases x) auto

lemma io_prod: "(\<And>a b. x = (a, b) \<Longrightarrow> state_io_rel R (f a b)) \<Longrightarrow> state_io_rel R (case x of (a, b) \<Rightarrow> f a b)"
  by (cases x) auto

lemma io_when: "(c \<Longrightarrow> state_io_rel R m) \<Longrightarrow> state_io_rel R (when_m c m)"
  by (auto simp: when_m_def intro!: io_bind io_return)

lemma io_fold: "(\<And>x acc. x \<in> set xs \<Longrightarrow> state_io_rel R (f x acc)) \<Longrightarrow> state_io_rel R (fold_m f xs acc)"
  by (induction xs arbitrary: acc) (auto intro!: io_return io_bind)

lemma io_each: "(\<And>x. x \<in> set xs \<Longrightarrow> state_io_rel R (f x)) \<Longrightarrow> state_io_rel R (each_m f xs)"
  by (induction xs) (auto intro!: io_return io_bind)

lemma io_first: "(\<And>x. x \<in> set xs \<Longrightarrow> state_io_rel R (f x)) \<Longrightarrow> state_io_rel R (first_m f xs)"
  by (induction xs) (auto intro!: io_return io_bind io_option)

lemma io_find: "(\<And>x. x \<in> set xs \<Longrightarrow> state_io_rel R (f x)) \<Longrightarrow> state_io_rel R (find_m f xs)"
  by (induction xs) (auto intro!: io_return io_bind io_if)

lemma io_filter: "(\<And>x. x \<in> set xs \<Longrightarrow> state_io_rel R (f x)) \<Longrightarrow> state_io_rel R (filter_m f xs)"
  by (induction xs) (auto intro!: io_return io_bind)

lemmas io_structure = io_return io_reads io_bind io_if io_when io_option io_prod io_fold io_each io_first io_find io_filter

end

end
