(* ===== verification/Engine_State.thy ===== *)
theory Engine_State
  imports Hook_Context Router State_Logic
begin

text \<open>
  What the redirect engine works on. The engine threads a state through many calls (the thread's
  caller context and caches, the uid table, the settings hub, the router of the process), so its
  model uses the state monad; calls of the lower components are lifted into it. The theory also
  holds \<^verbatim>\<open>src/hook/reload.rs\<close>, the throttle in front of a reload of the configuration, and a
  small calculus of pre- and postconditions for the engine's proofs.

  \<^verbatim>\<open>engine_world\<close> is what a decision takes from outside: the file system, the clock (one reading
  per decision, and the time an event-driven reload took), the FUSE back end and the answers of the file monitor to questions about earlier
  requests, call stacks and the download table. What the engine tells the monitor is the list
  \<^verbatim>\<open>es_notes\<close>. The refresh of monitor switches and FUSE fixes after a reload does not feed back into
  a decision and is left out.
\<close>

section \<open>Model: state and world\<close>

record engine_world =
  ew_config :: config_env
  ew_raw :: raw_env
  ew_now :: int
  ew_event_reload_ms :: int
  ew_fuse :: fuse_view
  ew_order :: "bytes list \<Rightarrow> bytes list"
  ew_uid_file :: uid_file_view
  ew_recent_identity :: "bytes \<Rightarrow> i32 \<Rightarrow> bytes option"
  ew_download_owner :: "bytes \<Rightarrow> bytes option"
  ew_download_group :: "i32 \<Rightarrow> bool"
  ew_stack_owner :: "bytes list \<Rightarrow> bytes option"

datatype engine_note =
    OwnerHint bytes bytes i32
  | CallerHint bytes bytes bytes i32 i32
  | AuditCaller bytes

record engine_state =
  es_thread :: hook_thread
  es_caches :: writer_caches
  es_uids :: shared_uid_state
  es_hub :: settings_hub
  es_router :: router_state
  es_notes :: "engine_note list"
  es_watch_events :: "bool list"
  es_last_reload_check_ms :: int
  es_force_reload_until_ms :: int
  es_writer_reload_check_ms :: int

abbreviation es_settings :: "engine_state \<Rightarrow> settings_state" where
  "es_settings s \<equiv> hub_state (es_hub s)"

definition writer_env_of :: "engine_world \<Rightarrow> engine_state \<Rightarrow> writer_env" where
  "writer_env_of w s =
     \<lparr>we_hub = es_hub s, we_raw = ew_raw w, we_now = ew_now w, we_fuse = ew_fuse w, we_order = ew_order w,
      we_uid_file = ew_uid_file w, we_inference_disabled = is_path_owner_inference_disabled (es_thread s)\<rparr>"

section \<open>Model: calls of the components below\<close>

definition writer_call ::
  "engine_world \<Rightarrow> (writer_env \<Rightarrow> writer_caches \<Rightarrow> 'a \<times> writer_caches) \<Rightarrow> (engine_state, 'a) state" where
  "writer_call w f = State (\<lambda>s. case f (writer_env_of w s) (es_caches s) of (a, c) \<Rightarrow> (a, s\<lparr>es_caches := c\<rparr>))"

definition uid_call :: "(shared_uid_state \<Rightarrow> 'a \<times> shared_uid_state) \<Rightarrow> (engine_state, 'a) state" where
  "uid_call f = State (\<lambda>s. case f (es_uids s) of (a, u) \<Rightarrow> (a, s\<lparr>es_uids := u\<rparr>))"

definition thread_update :: "(hook_thread \<Rightarrow> hook_thread) \<Rightarrow> (engine_state, unit) state" where
  "thread_update f = State (\<lambda>s. ((), s\<lparr>es_thread := f (es_thread s)\<rparr>))"

definition engine_note :: "engine_note \<Rightarrow> (engine_state, unit) state" where
  "engine_note n = State (\<lambda>s. ((), s\<lparr>es_notes := es_notes s @ [n]\<rparr>))"

definition fresh_uid :: "engine_world \<Rightarrow> bytes \<Rightarrow> (engine_state, i32) state" where
  "fresh_uid w package_name = uid_call (get_fresh_uid_for_package (ew_uid_file w) package_name)"

definition redirect_enablement ::
  "engine_world \<Rightarrow> bytes \<Rightarrow> i32 \<Rightarrow> i32 \<Rightarrow> (engine_state, user_redirect_enablement) state" where
  "redirect_enablement w package_name app_uid user_id =
     writer_call w (\<lambda>env caches.
       (case get_user_redirect_enablement (we_raw env) (we_now env) (we_hub env) package_name app_uid user_id
               (wc_raw caches) of
          (e, raw) \<Rightarrow> (e, caches\<lparr>wc_raw := raw\<rparr>)))"

definition is_redirect_enabled :: "engine_world \<Rightarrow> i32 \<Rightarrow> i32 \<Rightarrow> bytes \<Rightarrow> (engine_state, bool) state" where
  "is_redirect_enabled w app_uid user_id package_name = do {
     e \<leftarrow> redirect_enablement w package_name app_uid user_id;
     State_Monad.return (UserRedirectEnablement_is_enabled e)
   }"

section \<open>Model: throttled reloads\<close>

definition RUNTIME_CONFIG_RELOAD_INTERVAL_MS :: int where
  "RUNTIME_CONFIG_RELOAD_INTERVAL_MS = 1000"

definition RUNTIME_CONFIG_EVENT_RELOAD_INTERVAL_MS :: int where
  "RUNTIME_CONFIG_EVENT_RELOAD_INTERVAL_MS = 100"

definition RUNTIME_CONFIG_EVENT_RELOAD_WINDOW_MS :: int where
  "RUNTIME_CONFIG_EVENT_RELOAD_WINDOW_MS = 1500"

datatype runtime_reload_check = Skipped | Checked bool

definition did_reload :: "runtime_reload_check \<Rightarrow> bool" where
  "did_reload c \<longleftrightarrow> c = Checked True"

text \<open>\<^verbatim>\<open>watcher::poll_changed\<close> drains the notifications of the configuration directory.\<close>

definition poll_changed :: "(engine_state, bool) state" where
  "poll_changed = State (\<lambda>s. case es_watch_events s of
      [] \<Rightarrow> (False, s) | e # rest \<Rightarrow> (e, s\<lparr>es_watch_events := rest\<rparr>))"

text \<open>
  Both reload functions answer \<^const>\<open>True\<close> on every path: unchanged fingerprint, changed
  directory and installed state alike.
\<close>

definition hub_reload :: "(settings_hub \<Rightarrow> settings_hub) \<Rightarrow> (engine_state, bool) state" where
  "hub_reload f = State (\<lambda>s. (True, s\<lparr>es_hub := f (es_hub s)\<rparr>))"

definition sat_add_i64 :: "int \<Rightarrow> int \<Rightarrow> int" where
  "sat_add_i64 a b = max (- (2 ^ 63)) (min (2 ^ 63 - 1) (a + b))"

definition force_after_disk_change :: "engine_world \<Rightarrow> (engine_state, bool) state" where
  "force_after_disk_change w = do {
     _ \<leftarrow> State (\<lambda>s. ((), s\<lparr>es_force_reload_until_ms := sat_add_i64 (ew_now w) RUNTIME_CONFIG_EVENT_RELOAD_WINDOW_MS,
                            es_last_reload_check_ms := ew_now w\<rparr>));
     hub_reload (reload_force (ew_config w))
   }"

definition reload_interval_ms :: "bool \<Rightarrow> int" where
  "reload_interval_ms is_event_window =
     (if is_event_window then RUNTIME_CONFIG_EVENT_RELOAD_INTERVAL_MS else RUNTIME_CONFIG_RELOAD_INTERVAL_MS)"

text \<open>
  The lost race of \<^verbatim>\<open>compare_exchange\<close> is the outcome \<^const>\<open>Skipped\<close> as well; a single thread does not
  lose it.
\<close>

definition poll_or_check_throttled :: "engine_world \<Rightarrow> (engine_state, runtime_reload_check) state" where
  "poll_or_check_throttled w = do {
     changed \<leftarrow> poll_changed;
     if changed then do { r \<leftarrow> force_after_disk_change w; State_Monad.return (Checked r) }
     else do {
       is_event_window \<leftarrow> reads (\<lambda>s. ew_now w \<le> es_force_reload_until_ms s);
       last_ms \<leftarrow> reads es_last_reload_check_ms;
       if sat_sub_i64 (ew_now w) last_ms < reload_interval_ms is_event_window then State_Monad.return Skipped
       else do {
         _ \<leftarrow> State (\<lambda>s. ((), s\<lparr>es_last_reload_check_ms := ew_now w\<rparr>));
         r \<leftarrow> hub_reload (if is_event_window then reload_force (ew_config w) else reload_if_changed (ew_config w));
         State_Monad.return (Checked r)
       }
     }
   }"

definition poll_config_reload_throttled :: "engine_world \<Rightarrow> (engine_state, bool) state" where
  "poll_config_reload_throttled w = do { c \<leftarrow> poll_or_check_throttled w; State_Monad.return (did_reload c) }"

end
