(* ===== verification/Engine_Caller.thy ===== *)
theory Engine_Caller
  imports Engine_State
begin

text \<open>
  Model of \<^verbatim>\<open>src/redirect/engine/caller.rs\<close>: for whom a system process works. The evidence is
  asked in a fixed order, each source only while no package is known: the owner of the mapping request
  side, the owner of the path, the packages of an explicit uid, the redirect target, a recent request
  for the same path, the owner of a private directory, the download table, the call stack, and at
  last the process itself.
\<close>

section \<open>Model\<close>

text \<open>Path predicates of \<^verbatim>\<open>engine.rs\<close>.\<close>

definition is_already_private_path :: "bytes \<Rightarrow> bool" where
  "is_already_private_path path =
     (case strip_prefix path ''/storage/emulated/'' of
        None \<Rightarrow> False
      | Some after_prefix \<Rightarrow>
          (case find_char slash after_prefix of
             None \<Rightarrow> False
           | Some sl \<Rightarrow>
               (let relative = drop (Suc sl) after_prefix
                in matches ''Android/data'' relative True \<or> matches ''Android/media'' relative True
                   \<or> matches ''Android/obb'' relative True)))"

definition resolve_android_private_path_owner :: "bytes \<Rightarrow> bytes option" where
  "resolve_android_private_path_owner normalized_path =
     (let owner = extract_android_private_path_owner normalized_path
      in if owner = [] \<or> is_media_intermediate_package owner then None else Some owner)"

definition has_external_writer_caller_signal :: "bytes \<Rightarrow> i32 \<Rightarrow> bytes \<Rightarrow> i32 \<Rightarrow> bool" where
  "has_external_writer_caller_signal package_name self_uid caller_pkg uid =
     (if caller_pkg \<noteq> [] \<and> caller_pkg \<noteq> package_name \<and> \<not> is_system_writer_package caller_pkg then True
      else ANDROID_APP_UID_START \<le> uid \<and> uid \<noteq> self_uid)"

record caller_signal =
  sg_effective_caller_uid :: i32
  sg_original_caller_uid :: i32
  sg_effective_caller_package :: bytes
  sg_has_explicit_caller_signal :: bool
  sg_has_external_caller_signal :: bool
  sg_can_infer_caller_by_path :: bool

definition caller_signal_from_hub :: "bytes \<Rightarrow> i32 \<Rightarrow> bool \<Rightarrow> hook_thread \<Rightarrow> caller_signal" where
  "caller_signal_from_hub package_name self_uid is_explicit_caller_decision th =
     (let uid = caller_uid th; pkg = caller_package th
      in \<lparr>sg_effective_caller_uid = uid, sg_original_caller_uid = uid, sg_effective_caller_package = pkg,
          sg_has_explicit_caller_signal = (ANDROID_APP_UID_START \<le> uid \<or> pkg \<noteq> []),
          sg_has_external_caller_signal = has_external_writer_caller_signal package_name self_uid pkg uid,
          sg_can_infer_caller_by_path =
            (\<not> is_explicit_caller_decision \<and> \<not> is_path_owner_inference_disabled th)\<rparr>)"

record caller_request =
  rq_package_name :: bytes
  rq_self_uid :: i32
  rq_is_shared_uid :: bool
  rq_normalized_path :: bytes
  rq_is_write_operation :: bool
  rq_has_explicit_caller_signal :: bool
  rq_can_infer_caller_by_path :: bool
  rq_effective_caller_uid :: i32
  rq_original_caller_uid :: i32
  rq_effective_caller_package :: bytes
  rq_user_id :: i32

definition into_resolve_request :: "bytes \<Rightarrow> i32 \<Rightarrow> bool \<Rightarrow> bytes \<Rightarrow> i32 \<Rightarrow> bool \<Rightarrow> caller_signal \<Rightarrow> caller_request" where
  "into_resolve_request package_name self_uid is_shared normalized_path user_id is_write_operation sg =
     \<lparr>rq_package_name = package_name, rq_self_uid = self_uid, rq_is_shared_uid = is_shared,
      rq_normalized_path = normalized_path, rq_is_write_operation = is_write_operation,
      rq_has_explicit_caller_signal = sg_has_explicit_caller_signal sg,
      rq_can_infer_caller_by_path = sg_can_infer_caller_by_path sg,
      rq_effective_caller_uid = sg_effective_caller_uid sg, rq_original_caller_uid = sg_original_caller_uid sg,
      rq_effective_caller_package = sg_effective_caller_package sg, rq_user_id = user_id\<rparr>"

definition resolve_mapping_request_owner_package_by_path :: "settings_state \<Rightarrow> i32 \<Rightarrow> bytes \<Rightarrow> bytes" where
  "resolve_mapping_request_owner_package_by_path st user_id normalized_path =
     (if user_id < 0 \<or> normalized_path = [] then []
      else let request_owner = resolve_mapping_request_package_by_path_for_user st user_id normalized_path
        in if request_owner \<noteq> [] then request_owner
           else resolve_mapping_target_package_by_path_for_user st user_id normalized_path)"

definition sat_i32 :: "int \<Rightarrow> i32" where
  "sat_i32 n = max (- (2 ^ 31)) (min (2 ^ 31 - 1) n)"

definition resolve_redirect_owner_package_by_path :: "settings_state \<Rightarrow> i32 \<Rightarrow> bytes \<Rightarrow> bytes" where
  "resolve_redirect_owner_package_by_path st user_id normalized_path =
     (if user_id < 0 \<or> normalized_path = [] then []
      else resolve_redirect_package_by_path_for_user st
             (sat_i32 (sat_i32 (user_id * ANDROID_USER_ID_OFFSET) + ANDROID_APP_UID_START)) normalized_path)"

definition has_system_writer_mapping_request_owner_hint :: "i32 \<Rightarrow> bytes \<Rightarrow> engine_state \<Rightarrow> bool" where
  "has_system_writer_mapping_request_owner_hint user_id normalized_path s =
     (if user_id < 0 \<or> normalized_path = [] \<or> is_path_owner_inference_disabled (es_thread s) then False
      else resolve_mapping_request_owner_package_by_path (es_settings s) user_id normalized_path \<noteq> [])"

definition has_system_writer_recent_public_caller_hint :: "engine_world \<Rightarrow> i32 \<Rightarrow> bytes \<Rightarrow> engine_state \<Rightarrow> bool" where
  "has_system_writer_recent_public_caller_hint w user_id normalized_path s =
     (if user_id < 0 \<or> normalized_path = [] \<or> is_path_owner_inference_disabled (es_thread s) then False
      else ew_recent_identity w normalized_path user_id \<noteq> None)"

definition should_query_download_owner_for_writer :: "engine_world \<Rightarrow> i32 \<Rightarrow> bytes \<Rightarrow> i32 \<Rightarrow> shared_uid_state \<Rightarrow> bool" where
  "should_query_download_owner_for_writer w self_uid package_name uid uids =
     (if is_media_provider_package package_name then ew_download_group w uid
      else list_ex (\<lambda>pkg. pkg = ''com.android.providers.downloads'') (get_packages_for_uid uids self_uid))"

definition is_media_provider_internal_without_caller :: "bytes \<Rightarrow> bool \<Rightarrow> bytes \<Rightarrow> bool" where
  "is_media_provider_internal_without_caller package_name has_explicit_caller_signal pkg \<longleftrightarrow>
     is_media_provider_package package_name \<and> \<not> has_explicit_caller_signal \<and> pkg = []"

text \<open>The packages an explicit uid stands for.\<close>

definition explicit_uid_candidates :: "bytes \<Rightarrow> bytes list \<Rightarrow> bytes list" where
  "explicit_uid_candidates process_package packages =
     filter (\<lambda>package. package \<noteq> [] \<and> package \<noteq> process_package \<and> \<not> is_system_writer_package package)
       (remdups_adj (sort packages))"

definition packages_of_uid :: "engine_world \<Rightarrow> i32 \<Rightarrow> (engine_state, bytes list) state" where
  "packages_of_uid w uid = do {
     packages \<leftarrow> reads (\<lambda>s. get_packages_for_uid (es_uids s) uid);
     if packages = [] then do {
       _ \<leftarrow> uid_call (\<lambda>u. ((), refresh_shared_uid_cache (ew_uid_file w) u));
       reads (\<lambda>s. get_packages_for_uid (es_uids s) uid)
     } else State_Monad.return packages
   }"

definition resolve_explicit_caller_package_by_uid ::
  "engine_world \<Rightarrow> bytes \<Rightarrow> i32 \<Rightarrow> i32 \<Rightarrow> i32 \<Rightarrow> (engine_state, bytes option) state" where
  "resolve_explicit_caller_package_by_uid w process_package self_uid uid user_id =
     (if uid < ANDROID_APP_UID_START then State_Monad.return None
      else do {
        packages \<leftarrow> packages_of_uid w uid;
        let candidates = explicit_uid_candidates process_package packages;
        if candidates = [] then State_Monad.return None
        else do {
          let config_user_id = (if 0 \<le> user_id then user_id else user_id_from_uid uid);
          configured \<leftarrow> filter_m (\<lambda>package.
            if 0 \<le> config_user_id then is_redirect_enabled w uid config_user_id package
            else State_Monad.return False) candidates;
          State_Monad.return
            (if length configured = 1 then Some (last configured)
             else if length candidates = 1 \<and> uid \<noteq> self_uid then Some (last candidates)
             else None)
        }
      })"

section \<open>Model: the resolution\<close>

text \<open>The mutable variables of \<^verbatim>\<open>resolve_system_writer_caller_context\<close>.\<close>

record caller_progress =
  cp_uid :: i32
  cp_package :: bytes
  cp_is_inferred :: bool
  cp_from_mapping_request_owner :: bool

record caller_context =
  cc_effective_caller_uid :: i32
  cc_effective_caller_package :: bytes
  cc_user_id :: i32
  cc_is_caller_from_inferred :: bool

text \<open>Every inferred owner is adopted with its own uid where the uid table knows one.\<close>

definition adopt_owner :: "engine_world \<Rightarrow> bytes \<Rightarrow> caller_progress \<Rightarrow> (engine_state, caller_progress) state" where
  "adopt_owner w owner p = do {
     inferred_uid \<leftarrow> fresh_uid w owner;
     State_Monad.return (p\<lparr>cp_uid := if ANDROID_APP_UID_START \<le> inferred_uid then inferred_uid else cp_uid p,
                           cp_package := owner, cp_is_inferred := True\<rparr>)
   }"

definition maybe_override_system_writer_caller_by_mapping_request_path ::
  "engine_world \<Rightarrow> bytes \<Rightarrow> i32 \<Rightarrow> caller_progress \<Rightarrow> (engine_state, caller_progress) state" where
  "maybe_override_system_writer_caller_by_mapping_request_path w normalized_path user_id p =
     (if user_id < 0 then State_Monad.return p
      else do {
        inferred \<leftarrow> reads (\<lambda>s. resolve_mapping_request_owner_package_by_path (es_settings s) user_id normalized_path);
        if inferred = [] then State_Monad.return p
        else do {
          p \<leftarrow> adopt_owner w inferred p;
          State_Monad.return (p\<lparr>cp_from_mapping_request_owner := True\<rparr>)
        }
      })"

definition override_by_path :: "engine_world \<Rightarrow> caller_request \<Rightarrow> caller_progress \<Rightarrow> (engine_state, caller_progress) state" where
  "override_by_path w rq p =
     State (\<lambda>s. case maybe_override_system_writer_caller_by_path (writer_env_of w s) (rq_normalized_path rq)
                       (rq_self_uid rq) (rq_user_id rq) (cp_uid p, cp_package p, cp_is_inferred p) (es_uids s) of
        ((uid, package, inferred), uids) \<Rightarrow>
          (p\<lparr>cp_uid := uid, cp_package := package, cp_is_inferred := inferred\<rparr>, s\<lparr>es_uids := uids\<rparr>))"

definition maybe_infer_system_writer_caller_by_redirect_path ::
  "engine_world \<Rightarrow> bytes \<Rightarrow> i32 \<Rightarrow> i32 \<Rightarrow> i32 \<Rightarrow> caller_progress \<Rightarrow> (engine_state, caller_progress) state" where
  "maybe_infer_system_writer_caller_by_redirect_path w normalized_path user_id original_caller_uid self_uid p =
     (if user_id < 0 \<or> cp_package p \<noteq> [] then State_Monad.return p
      else do {
        inferred \<leftarrow> reads (\<lambda>s. resolve_redirect_owner_package_by_path (es_settings s) user_id normalized_path);
        if inferred = [] then State_Monad.return p
        else do {
          inferred_uid \<leftarrow> fresh_uid w inferred;
          if ANDROID_APP_UID_START \<le> original_caller_uid \<and> original_caller_uid \<noteq> self_uid
             \<and> original_caller_uid \<noteq> inferred_uid
          then State_Monad.return p
          else State_Monad.return
            (p\<lparr>cp_uid := if ANDROID_APP_UID_START \<le> inferred_uid then inferred_uid else cp_uid p,
               cp_package := inferred, cp_is_inferred := True\<rparr>)
        }
      })"

definition by_explicit_uid :: "engine_world \<Rightarrow> caller_request \<Rightarrow> caller_progress \<Rightarrow> (engine_state, caller_progress) state" where
  "by_explicit_uid w rq p =
     (if cp_package p = [] \<and> rq_has_explicit_caller_signal rq then do {
        found \<leftarrow> resolve_explicit_caller_package_by_uid w (rq_package_name rq) (rq_self_uid rq) (cp_uid p) (rq_user_id rq);
        State_Monad.return (case found of Some package \<Rightarrow> p\<lparr>cp_package := package\<rparr> | None \<Rightarrow> p)
      } else State_Monad.return p)"

definition by_redirect_path :: "engine_world \<Rightarrow> caller_request \<Rightarrow> caller_progress \<Rightarrow> (engine_state, caller_progress) state" where
  "by_redirect_path w rq p = do {
     hint \<leftarrow> reads (has_system_writer_mapping_request_owner_hint (rq_user_id rq) (rq_normalized_path rq));
     if rq_can_infer_caller_by_path rq
        \<and> (rq_is_write_operation rq \<or> rq_has_explicit_caller_signal rq \<or> rq_can_infer_caller_by_path rq \<and> hint)
        \<and> (cp_package p = [] \<or> \<not> rq_has_explicit_caller_signal rq)
     then maybe_infer_system_writer_caller_by_redirect_path w (rq_normalized_path rq) (rq_user_id rq)
            (rq_original_caller_uid rq) (rq_self_uid rq) p
     else State_Monad.return p
   }"

definition by_recent_request :: "engine_world \<Rightarrow> caller_request \<Rightarrow> caller_progress \<Rightarrow> (engine_state, caller_progress) state" where
  "by_recent_request w rq p = do {
     disabled \<leftarrow> reads (\<lambda>s. is_path_owner_inference_disabled (es_thread s));
     let external = has_external_writer_caller_signal (rq_package_name rq) (rq_self_uid rq) (cp_package p) (cp_uid p);
     let restorable = (cp_package p = [] \<or> cp_package p = rq_package_name rq \<or> is_system_writer_package (cp_package p));
     if restorable \<and> \<not> external \<and> \<not> disabled \<and> is_media_provider_package (rq_package_name rq)
     then (case ew_recent_identity w (rq_normalized_path rq) (rq_user_id rq) of
             Some package \<Rightarrow> adopt_owner w package p
           | None \<Rightarrow> State_Monad.return p)
     else State_Monad.return p
   }"

definition by_private_owner :: "engine_world \<Rightarrow> caller_request \<Rightarrow> caller_progress \<Rightarrow> (engine_state, caller_progress) state" where
  "by_private_owner w rq p = do {
     disabled \<leftarrow> reads (\<lambda>s. is_path_owner_inference_disabled (es_thread s));
     if cp_package p = [] \<and> \<not> rq_has_explicit_caller_signal rq \<and> \<not> disabled
     then (case resolve_android_private_path_owner (rq_normalized_path rq) of
             Some path_owner \<Rightarrow> do {
               _ \<leftarrow> engine_note (OwnerHint (rq_normalized_path rq) path_owner (rq_user_id rq));
               adopt_owner w path_owner p
             }
           | None \<Rightarrow> State_Monad.return p)
     else State_Monad.return p
   }"

definition by_private_rules :: "engine_world \<Rightarrow> caller_request \<Rightarrow> caller_progress \<Rightarrow> (engine_state, caller_progress) state" where
  "by_private_rules w rq p = do {
     disabled \<leftarrow> reads (\<lambda>s. is_path_owner_inference_disabled (es_thread s));
     if cp_package p = [] \<and> \<not> rq_has_explicit_caller_signal rq \<and> \<not> disabled
        \<and> is_already_private_path (rq_normalized_path rq)
     then do {
       inferred \<leftarrow> reads (\<lambda>s. resolve_enabled_package_by_path_for_user (es_settings s) (rq_user_id rq) (rq_normalized_path rq));
       if inferred = [] then State_Monad.return p
       else do {
         _ \<leftarrow> engine_note (OwnerHint (rq_normalized_path rq) inferred (rq_user_id rq));
         adopt_owner w inferred p
       }
     }
     else State_Monad.return p
   }"

definition by_download_table :: "engine_world \<Rightarrow> caller_request \<Rightarrow> caller_progress \<Rightarrow> (engine_state, caller_progress) state" where
  "by_download_table w rq p = do {
     ask \<leftarrow> reads (\<lambda>s. should_query_download_owner_for_writer w (rq_self_uid rq) (rq_package_name rq) (cp_uid p) (es_uids s));
     if cp_package p = [] \<and> ask
     then (case ew_download_owner w (rq_normalized_path rq) of
             Some owner \<Rightarrow> if is_media_intermediate_package owner then State_Monad.return p else adopt_owner w owner p
           | None \<Rightarrow> State_Monad.return p)
     else State_Monad.return p
   }"

definition stack_candidates :: "caller_request \<Rightarrow> i32 \<Rightarrow> shared_uid_state \<Rightarrow> bytes list" where
  "stack_candidates rq uid uids =
     (let candidates = (if ANDROID_APP_UID_START \<le> uid then get_packages_for_uid uids uid else []);
          candidates = (if candidates = [] \<and> ANDROID_APP_UID_START \<le> rq_original_caller_uid rq
                        then get_packages_for_uid uids (rq_original_caller_uid rq) else candidates);
          candidates = (if candidates = [] then get_packages_for_uid uids (rq_self_uid rq) else candidates)
      in filter (\<lambda>pkg. \<not> is_system_writer_package pkg) candidates)"

definition by_call_stack :: "engine_world \<Rightarrow> caller_request \<Rightarrow> caller_progress \<Rightarrow> (engine_state, caller_progress) state" where
  "by_call_stack w rq p =
     (if cp_package p = [] \<and> rq_is_shared_uid rq \<and> \<not> is_already_private_path (rq_normalized_path rq)
      then do {
        candidates \<leftarrow> reads (\<lambda>s. stack_candidates rq (cp_uid p) (es_uids s));
        (case ew_stack_owner w candidates of
           Some pkg \<Rightarrow> adopt_owner w pkg p
         | None \<Rightarrow> State_Monad.return p)
      }
      else State_Monad.return p)"

definition by_own_rules :: "caller_request \<Rightarrow> caller_progress \<Rightarrow> (engine_state, caller_progress) state" where
  "by_own_rules rq p = do {
     own \<leftarrow> reads (\<lambda>s. should_redirect (es_settings s) (rq_package_name rq) (rq_self_uid rq));
     State_Monad.return
       (if cp_package p = [] \<and> ANDROID_APP_UID_START \<le> rq_self_uid rq \<and> 0 \<le> rq_user_id rq
           \<and> is_path_in_user_storage (rq_normalized_path rq) (rq_user_id rq)
           \<and> \<not> is_system_writer_package (rq_package_name rq) \<and> own
        then p\<lparr>cp_uid := rq_self_uid rq, cp_package := rq_package_name rq\<rparr>
        else p)
   }"

definition remember_resolved_caller :: "engine_world \<Rightarrow> caller_progress \<Rightarrow> (engine_state, unit) state" where
  "remember_resolved_caller w p =
     thread_update (\<lambda>th.
       (if cp_package p = [] then th
        else if cp_from_mapping_request_owner p then
          set_current_caller_from_mapping_request_owner (ew_now w) (cp_package p) (cp_uid p) th
        else let th = (if caller_package th = [] then set_current_caller_package (ew_now w) (cp_package p) th else th)
          in if caller_uid th < ANDROID_APP_UID_START \<and> ANDROID_APP_UID_START \<le> cp_uid p
             then set_current_caller_uid (ew_now w) (cp_uid p) th else th))"

definition resolve_system_writer_caller_context ::
  "engine_world \<Rightarrow> caller_request \<Rightarrow> (engine_state, caller_context) state" where
  "resolve_system_writer_caller_context w rq = do {
     let p = \<lparr>cp_uid = rq_effective_caller_uid rq, cp_package = rq_effective_caller_package rq,
              cp_is_inferred = False, cp_from_mapping_request_owner = False\<rparr>;
     p \<leftarrow> (if rq_can_infer_caller_by_path rq
           then maybe_override_system_writer_caller_by_mapping_request_path w (rq_normalized_path rq) (rq_user_id rq) p
           else State_Monad.return p);
     p \<leftarrow> (if rq_can_infer_caller_by_path rq \<and> ANDROID_APP_UID_START \<le> rq_original_caller_uid rq
           then override_by_path w rq p else State_Monad.return p);
     p \<leftarrow> by_explicit_uid w rq p;
     p \<leftarrow> by_redirect_path w rq p;
     p \<leftarrow> by_recent_request w rq p;
     p \<leftarrow> by_private_owner w rq p;
     p \<leftarrow> by_private_rules w rq p;
     p \<leftarrow> by_download_table w rq p;
     p \<leftarrow> by_call_stack w rq p;
     p \<leftarrow> by_own_rules rq p;
     _ \<leftarrow> remember_resolved_caller w p;
     State_Monad.return
       \<lparr>cc_effective_caller_uid = cp_uid p, cc_effective_caller_package = cp_package p,
        cc_user_id = rq_user_id rq, cc_is_caller_from_inferred = cp_is_inferred p\<rparr>
   }"

end
