(* ===== verification/Engine_Policy.thy ===== *)
theory Engine_Policy
  imports Engine_Caller
begin

text \<open>
  Model of \<^verbatim>\<open>src/redirect/engine/policy.rs\<close> with the path helpers of \<^verbatim>\<open>engine.rs\<close> it uses:
  the decision for a system process once the caller is known. Stages in order: path mappings, the
  read-only rules, the caller's private directories, mapping-only mode, the allow rules, and the
  redirection into the caller's sandbox. Trace records, counters and log lines are left out.
\<close>

section \<open>Model: output paths\<close>

definition allow :: redirect_decision where
  "allow = \<lparr>rd_action = ActAllow, rd_new_path = [], rd_is_mapping = False\<rparr>"

definition redirect_to :: "bytes \<Rightarrow> bool \<Rightarrow> redirect_decision" where
  "redirect_to path is_mapping = \<lparr>rd_action = ActRedirect, rd_new_path = path, rd_is_mapping = is_mapping\<rparr>"

definition deny_read_only :: "bytes \<Rightarrow> bool \<Rightarrow> redirect_decision" where
  "deny_read_only path is_mapping = \<lparr>rd_action = ActDenyReadOnly, rd_new_path = path, rd_is_mapping = is_mapping\<rparr>"

definition is_system_writer_default_sandbox_path :: "bytes \<Rightarrow> bytes \<Rightarrow> i32 \<Rightarrow> bytes \<Rightarrow> bool" where
  "is_system_writer_default_sandbox_path resolved_path caller_pkg user_id package_name =
     (if caller_pkg = [] \<or> user_id < 0 then False
      else if \<not> is_system_writer_package package_name then False
      else (case relative_child_path resolved_path (storage_user_root_for_user user_id) of
              None \<Rightarrow> False
            | Some relative \<Rightarrow> matches (''Android/data/'' @ caller_pkg @ ''/sdcard'') relative True))"

definition is_system_writer_android_private_storage_path :: "bytes \<Rightarrow> bytes \<Rightarrow> i32 \<Rightarrow> bytes \<Rightarrow> bool" where
  "is_system_writer_android_private_storage_path resolved_path caller_pkg user_id package_name =
     (if caller_pkg = [] \<or> user_id < 0 then False
      else if \<not> is_system_writer_package package_name then False
      else (case relative_child_path resolved_path (storage_user_root_for_user user_id) of
              None \<Rightarrow> False
            | Some relative \<Rightarrow>
                list_ex (\<lambda>root. matches root relative True)
                  [''Android/data/'' @ caller_pkg, ''Android/media/'' @ caller_pkg, ''Android/obb/'' @ caller_pkg]))"

definition resolve_system_writer_output_path :: "bytes \<Rightarrow> bool \<Rightarrow> bytes \<Rightarrow> bytes" where
  "resolve_system_writer_output_path output_path is_data_media_input package_name =
     (if is_data_media_input then storage_to_data_media_path output_path
      else if \<not> is_media_provider_package package_name then output_path
      else storage_to_data_media_path output_path)"

definition resolve_system_writer_mapping_output_path :: "bytes \<Rightarrow> bool \<Rightarrow> bytes \<Rightarrow> i32 \<Rightarrow> bytes \<Rightarrow> bytes" where
  "resolve_system_writer_mapping_output_path output_path is_data_media_input caller_pkg user_id package_name =
     (if is_data_media_input
         \<or> is_system_writer_android_private_storage_path output_path caller_pkg user_id package_name
      then storage_to_data_media_path output_path else output_path)"

definition resolve_system_writer_private_backend_path :: "bytes \<Rightarrow> bytes \<Rightarrow> i32 \<Rightarrow> bytes \<Rightarrow> bytes" where
  "resolve_system_writer_private_backend_path resolved_path caller_pkg user_id package_name =
     (if is_system_writer_default_sandbox_path resolved_path caller_pkg user_id package_name
         \<or> is_system_writer_android_private_storage_path resolved_path caller_pkg user_id package_name
      then storage_to_data_media_path resolved_path else [])"

definition resolve_system_writer_mapping_target_backend_path :: "bytes \<Rightarrow> bytes \<Rightarrow> i32 \<Rightarrow> bytes \<Rightarrow> bytes" where
  "resolve_system_writer_mapping_target_backend_path resolved_path caller_pkg user_id package_name =
     (if is_system_writer_android_private_storage_path resolved_path caller_pkg user_id package_name
      then storage_to_data_media_path resolved_path else [])"

section \<open>Model: the stages\<close>

record policy_context =
  pc_package_name :: bytes
  pc_caller_package :: bytes
  pc_caller_uid :: i32
  pc_user_id :: i32
  pc_resolved_path :: bytes
  pc_is_data_media :: bool
  pc_is_caller_from_inferred :: bool
  pc_is_write_operation :: bool

text \<open>A question about a path to the rules or mappings of the caller.\<close>

definition ask_caller ::
  "engine_world \<Rightarrow> (writer_env \<Rightarrow> bytes \<Rightarrow> bytes \<Rightarrow> i32 \<Rightarrow> writer_caches \<Rightarrow> 'a \<times> writer_caches)
    \<Rightarrow> bytes \<Rightarrow> bytes \<Rightarrow> i32 \<Rightarrow> (engine_state, 'a) state" where
  "ask_caller w f path package uid = writer_call w (\<lambda>env. f env path package uid)"

datatype fallback_stage = TargetEmpty | FallbackEmpty | FallbackRedirect bytes

definition resolve_system_writer_fallback_redirect ::
  "engine_world \<Rightarrow> policy_context \<Rightarrow> (engine_state, fallback_stage) state" where
  "resolve_system_writer_fallback_redirect w ctx = do {
     redirect_target \<leftarrow> writer_call w (\<lambda>env.
       resolve_system_writer_redirect_target env (pc_caller_package ctx) (pc_caller_uid ctx) (pc_user_id ctx)
         (pc_is_caller_from_inferred ctx));
     State_Monad.return
       (if redirect_target = [] then TargetEmpty
        else let fallback_path = map_path_by_caller_fallback (pc_resolved_path ctx) redirect_target (pc_user_id ctx)
          in if fallback_path = [] \<or> fallback_path = pc_resolved_path ctx then FallbackEmpty
             else FallbackRedirect
               (resolve_system_writer_output_path fallback_path (pc_is_data_media ctx) (pc_package_name ctx)))
   }"

fun fallback_decision :: "fallback_stage \<Rightarrow> redirect_decision" where
  "fallback_decision (FallbackRedirect path) = redirect_to path False"
| "fallback_decision _ = allow"

definition mapping_target_decision :: "policy_context \<Rightarrow> path_mapping list \<Rightarrow> redirect_decision option" where
  "mapping_target_decision ctx mappings =
     (if list_ex (\<lambda>mapping. is_same_or_child (pc_resolved_path ctx) (final_path mapping)) mappings then
        (let backend = resolve_system_writer_mapping_target_backend_path (pc_resolved_path ctx)
               (pc_caller_package ctx) (pc_user_id ctx) (pc_package_name ctx)
         in Some (if backend \<noteq> [] \<and> backend \<noteq> pc_resolved_path ctx then redirect_to backend False else allow))
      else None)"

definition evaluate_system_writer_mapping_stage ::
  "engine_world \<Rightarrow> policy_context \<Rightarrow> (engine_state, redirect_decision option) state" where
  "evaluate_system_writer_mapping_stage w ctx = do {
     mappings \<leftarrow> writer_call w (\<lambda>env. get_caller_mappings env (pc_caller_package ctx) (pc_caller_uid ctx));
     let mapped_path = map_path_by_caller_mappings (pc_resolved_path ctx) mappings;
     if mapped_path \<noteq> [] \<and> mapped_path \<noteq> pc_resolved_path ctx then do {
       read_only \<leftarrow> (if pc_is_write_operation ctx
         then ask_caller w is_caller_path_read_only mapped_path (pc_caller_package ctx) (pc_caller_uid ctx)
         else State_Monad.return False);
       State_Monad.return (Some
         (if read_only then deny_read_only mapped_path True
          else redirect_to (resolve_system_writer_mapping_output_path mapped_path (pc_is_data_media ctx)
                 (pc_caller_package ctx) (pc_user_id ctx) (pc_package_name ctx)) True))
     }
     else State_Monad.return (mapping_target_decision ctx mappings)
   }"

definition map_only_decision :: "engine_world \<Rightarrow> policy_context \<Rightarrow> (engine_state, redirect_decision) state" where
  "map_only_decision w ctx = do {
     sandboxed \<leftarrow> ask_caller w is_path_sandboxed_by_caller_paths (pc_resolved_path ctx) (pc_caller_package ctx) (pc_caller_uid ctx);
     if sandboxed then do {
       fallback \<leftarrow> resolve_system_writer_fallback_redirect w ctx;
       State_Monad.return (fallback_decision fallback)
     }
     else State_Monad.return allow
   }"

definition is_read_allowed_by_rule :: "engine_world \<Rightarrow> policy_context \<Rightarrow> (engine_state, bool) state" where
  "is_read_allowed_by_rule w ctx = do {
     let path = pc_resolved_path ctx;
     let package = pc_caller_package ctx;
     let uid = pc_caller_uid ctx;
     allowed \<leftarrow> ask_caller w is_path_allowed_by_caller_real_paths path package uid;
     if allowed then State_Monad.return True
     else do {
       writable \<leftarrow> ask_caller w is_path_read_only_excluded_by_caller_paths path package uid;
       if writable then State_Monad.return True
       else if pc_is_write_operation ctx then State_Monad.return False
       else ask_caller w is_path_read_only_by_caller_paths path package uid
     }
   }"

text \<open>The stages after the mappings; the flag is \<^verbatim>\<open>is_path_excluded\<close>.\<close>

definition decide_by_allow_rules :: "engine_world \<Rightarrow> bool \<Rightarrow> policy_context \<Rightarrow> (engine_state, redirect_decision) state" where
  "decide_by_allow_rules w excluded ctx = do {
     allowed \<leftarrow> is_read_allowed_by_rule w ctx;
     if \<not> excluded \<and> allowed then State_Monad.return allow
     else do {
       fallback \<leftarrow> resolve_system_writer_fallback_redirect w ctx;
       State_Monad.return (fallback_decision fallback)
     }
   }"

definition decide_without_mapping ::
  "engine_world \<Rightarrow> user_redirect_enablement \<Rightarrow> policy_context \<Rightarrow> (engine_state, redirect_decision) state" where
  "decide_without_mapping w enablement ctx = do {
     let path = pc_resolved_path ctx;
     let package = pc_caller_package ctx;
     let uid = pc_caller_uid ctx;
     excluded \<leftarrow> ask_caller w is_path_excluded_by_caller_real_paths path package uid;
     direct_read_only_check_path \<leftarrow> (if pc_is_write_operation ctx
       then ask_caller w read_only_check_path_by_caller_paths path package uid
       else State_Monad.return []);
     if direct_read_only_check_path \<noteq> [] then
       State_Monad.return (deny_read_only direct_read_only_check_path (direct_read_only_check_path \<noteq> path))
     else do {
       let private_backend = resolve_system_writer_private_backend_path path package (pc_user_id ctx) (pc_package_name ctx);
       if private_backend \<noteq> [] \<and> private_backend \<noteq> path then State_Monad.return (redirect_to private_backend False)
       else if en_is_mapping_mode_only enablement then map_only_decision w ctx
       else decide_by_allow_rules w excluded ctx
     }
   }"

definition process_system_writer_policy ::
  "engine_world \<Rightarrow> user_redirect_enablement \<Rightarrow> policy_context \<Rightarrow> (engine_state, redirect_decision) state" where
  "process_system_writer_policy w enablement ctx = do {
     mapping_result \<leftarrow> evaluate_system_writer_mapping_stage w ctx;
     (case mapping_result of
        Some decision \<Rightarrow> State_Monad.return decision
      | None \<Rightarrow> decide_without_mapping w enablement ctx)
   }"

section \<open>Well-formed decisions\<close>

text \<open>
  What the hooks rely on: an allowed operation carries no path, a redirected or denied one does, and
  only a write is denied.
\<close>

definition decision_ok :: "bool \<Rightarrow> redirect_decision \<Rightarrow> bool" where
  "decision_ok is_write d =
     (case rd_action d of
        ActAllow \<Rightarrow> rd_new_path d = [] \<and> \<not> rd_is_mapping d
      | ActRedirect \<Rightarrow> rd_new_path d \<noteq> []
      | ActDenyReadOnly \<Rightarrow> is_write \<and> rd_new_path d \<noteq> [])"

lemma decision_ok_simps [simp]:
  "decision_ok is_write allow"
  "decision_ok is_write (redirect_to path m) \<longleftrightarrow> path \<noteq> []"
  "decision_ok is_write (deny_read_only path m) \<longleftrightarrow> is_write \<and> path \<noteq> []"
  by (simp_all add: decision_ok_def allow_def redirect_to_def deny_read_only_def)

lemma storage_to_data_media_path_empty [simp]: "storage_to_data_media_path p = [] \<longleftrightarrow> p = []"
  by (auto simp: storage_to_data_media_path_def DATA_MEDIA_PREFIX_def STORAGE_EMULATED_PREFIX_def str_simps)

lemma output_path_empty [simp]: "resolve_system_writer_output_path p m n = [] \<longleftrightarrow> p = []"
  by (simp add: resolve_system_writer_output_path_def)

lemma mapping_output_path_empty [simp]: "resolve_system_writer_mapping_output_path p m c u n = [] \<longleftrightarrow> p = []"
  by (simp add: resolve_system_writer_mapping_output_path_def)

lemmas yields_rules = yields_return yields_bind ensures_if

lemma fallback_ok: "yields (resolve_system_writer_fallback_redirect w ctx) (\<lambda>f. decision_ok b (fallback_decision f))"
  unfolding resolve_system_writer_fallback_redirect_def
  by (intro yields_bind yields_return) (simp add: Let_def)

lemma fallback_bind_ok:
  "yields (State_Monad.bind (resolve_system_writer_fallback_redirect w ctx)
     (\<lambda>f. State_Monad.return (fallback_decision f))) (decision_ok b)"
  by (rule yields_bind_with [OF fallback_ok]) (rule yields_return)

lemma map_only_ok: "yields (map_only_decision w ctx) (decision_ok b)"
  unfolding map_only_decision_def by (intro yields_rules fallback_bind_ok) simp

lemma mapping_target_ok: "mapping_target_decision ctx ms = Some d \<Longrightarrow> decision_ok b d"
  by (auto simp: mapping_target_decision_def Let_def split: if_splits)

lemma yields_when: "yields (if c then m else State_Monad.return False) (\<lambda>a. a \<longrightarrow> c)"
  by (cases c) (simp_all add: ensures_def split: prod.splits)

lemma mapping_stage_ok:
  "yields (evaluate_system_writer_mapping_stage w ctx)
     (\<lambda>r. \<forall>d. r = Some d \<longrightarrow> decision_ok (pc_is_write_operation ctx) d)"
  unfolding evaluate_system_writer_mapping_stage_def
  by (rule yields_bind, unfold Let_def, rule ensures_if, rule yields_bind_with [OF yields_when])
     (auto intro!: yields_return dest: mapping_target_ok)

lemma read_only_check_guarded:
  "yields (if c then m else State_Monad.return []) (\<lambda>p. p \<noteq> [] \<longrightarrow> c)"
  by (cases c) (simp_all add: ensures_def split: prod.splits)

lemma allow_rules_ok: "yields (decide_by_allow_rules w excluded ctx) (decision_ok b)"
  unfolding decide_by_allow_rules_def by (intro yields_rules fallback_bind_ok) simp

lemma without_mapping_ok: "yields (decide_without_mapping w en ctx) (decision_ok (pc_is_write_operation ctx))"
  unfolding decide_without_mapping_def Let_def
  by (intro yields_bind yields_bind_with [OF read_only_check_guarded] ensures_if yields_return allow_rules_ok
      map_only_ok) simp_all

lemma policy_ok: "yields (process_system_writer_policy w en ctx) (decision_ok (pc_is_write_operation ctx))"
  unfolding process_system_writer_policy_def
  by (rule yields_bind_with [OF mapping_stage_ok])
    (auto intro: yields_return without_mapping_ok split: option.split)

end
