(* ===== verification/Engine.thy ===== *)
theory Engine
  imports Engine_Policy
begin

text \<open>
  Model of \<^verbatim>\<open>src/redirect/engine.rs\<close>: the decision on every intercepted path. A process that
  owns its rules asks the router of the process; a system process that works for others asks for the
  caller first (\<^verbatim>\<open>Engine_Caller\<close>) and then applies the caller's rules (\<^verbatim>\<open>Engine_Policy\<close>).
\<close>

section \<open>Model: the request path\<close>

definition is_android_private_storage_path :: "bytes \<Rightarrow> bool" where
  "is_android_private_storage_path path =
     (case strip_prefix path ''/storage/emulated/'' of
        None \<Rightarrow> False
      | Some rest \<Rightarrow>
          (case find_char slash rest of
             None \<Rightarrow> False
           | Some sl \<Rightarrow>
               (let relative = drop (Suc sl) rest
                in matches ''Android/data'' relative True \<or> matches ''Android/media'' relative True
                   \<or> matches ''Android/obb'' relative True)))"

text \<open>The result is the path in storage form and the flag \<^verbatim>\<open>is_data_media_input\<close>.\<close>

definition normalize_request_path :: "bytes \<Rightarrow> bytes \<times> bool" where
  "normalize_request_path pathname =
     (let collapsed = (if needs_dot_segment_collapse pathname then collapse_dot_segments pathname else pathname);
          raw_normalized = normalize collapsed;
          is_data_media_input = (starts_with_str raw_normalized ''/data/media/''
            \<or> is_android_private_storage_path raw_normalized)
      in (if is_data_media_input then data_media_to_storage_path raw_normalized else raw_normalized,
          is_data_media_input))"

section \<open>Model: processes with rules of their own\<close>

definition reconfigure_router_from_settings :: "engine_world \<Rightarrow> bytes \<Rightarrow> i32 \<Rightarrow> (engine_state, bool) state" where
  "reconfigure_router_from_settings w package_name uid = State (\<lambda>s. (True, s\<lparr>es_router :=
     (case get_resolved_user_profile_snapshot (es_settings s) package_name uid of
        None \<Rightarrow> configure (ew_order w) (ew_fuse w) (storage_backend (es_settings s)) package_name uid
          (default_redirect_target package_name (user_id_from_uid uid)) [] [] [] [] [] False
      | Some resolved \<Rightarrow> configure (ew_order w) (ew_fuse w) (storage_backend (es_settings s)) package_name uid
          (rp_redirect_target resolved) (rp_allowed_real_paths resolved) (rp_excluded_real_paths resolved)
          (rp_sandboxed_paths resolved) (rp_read_only_paths resolved) (rp_path_mappings resolved)
          (rp_is_mapping_mode_only resolved))\<rparr>))"

definition reload_router_config_if_changed :: "engine_world \<Rightarrow> bytes \<Rightarrow> i32 \<Rightarrow> (engine_state, bool) state" where
  "reload_router_config_if_changed w package_name uid = do {
     reloaded \<leftarrow> poll_config_reload_throttled w;
     if \<not> reloaded then State_Monad.return False else reconfigure_router_from_settings w package_name uid
   }"

definition allowed_media_write_needs_backend_redirect :: "bytes \<Rightarrow> i32 \<Rightarrow> bool" where
  "allowed_media_write_needs_backend_redirect resolved_path user_id =
     (case relative_child_path resolved_path (storage_user_root_for_user user_id) of
        None \<Rightarrow> False
      | Some relative \<Rightarrow>
          (case nonempty_parts slash relative of
             [] \<Rightarrow> False
           | first # _ \<Rightarrow> first \<in> {''DCIM'', ''Pictures'', ''Movies''}))"

text \<open>The decision once the router is current; \<open>None\<close> is a stage that falls through to the next.\<close>

definition read_only_stage :: "router_state \<Rightarrow> bytes \<Rightarrow> bool \<Rightarrow> redirect_decision option" where
  "read_only_stage router resolved_path is_write =
     (let check = (if is_write then read_only_check_path router resolved_path else [])
      in if check \<noteq> [] then Some (deny_read_only check (check \<noteq> resolved_path)) else None)"

definition mapping_stage :: "router_state \<Rightarrow> bytes \<Rightarrow> bool \<Rightarrow> bytes \<Rightarrow> redirect_decision option" where
  "mapping_stage router resolved_path is_data_media package_name =
     (let mapped_path = router_map_path router resolved_path
      in if mapped_path \<noteq> [] \<and> mapped_path \<noteq> resolved_path
         then Some (redirect_to (resolve_system_writer_output_path mapped_path is_data_media package_name) True)
         else None)"

definition allowed_media_stage :: "router_state \<Rightarrow> bytes \<Rightarrow> i32 \<Rightarrow> bool \<Rightarrow> redirect_decision option" where
  "allowed_media_stage router resolved_path user_id is_write =
     (if is_write \<and> is_path_allowed_real router resolved_path
         \<and> allowed_media_write_needs_backend_redirect resolved_path user_id
      then let backend_path = storage_to_data_media_path resolved_path
        in if backend_path \<noteq> [] \<and> backend_path \<noteq> resolved_path then Some (redirect_to backend_path False) else None
      else None)"

definition mapping_target_read_stage :: "router_state \<Rightarrow> bytes \<Rightarrow> i32 \<Rightarrow> bool \<Rightarrow> redirect_decision option" where
  "mapping_target_read_stage router resolved_path user_id is_write =
     (if \<not> is_write \<and> is_path_mapping_target router resolved_path \<and> \<not> is_path_allowed_real router resolved_path
      then let fallback_path = map_path_by_caller_fallback resolved_path (rs_redirect_target router) user_id;
               backend_path = storage_to_data_media_path fallback_path
        in if backend_path \<noteq> [] \<and> backend_path \<noteq> resolved_path then Some (redirect_to backend_path False) else None
      else None)"

definition sandbox_stage :: "router_state \<Rightarrow> bytes \<Rightarrow> i32 \<Rightarrow> bool \<Rightarrow> bytes \<Rightarrow> redirect_decision option" where
  "sandbox_stage router resolved_path user_id is_data_media package_name =
     (if \<not> (is_path_excluded router resolved_path \<or> is_path_sandboxed router resolved_path) then Some allow
      else let fallback_path = map_path_by_caller_fallback resolved_path (rs_redirect_target router) user_id
        in if fallback_path \<noteq> [] \<and> fallback_path \<noteq> resolved_path
           then Some (redirect_to (resolve_system_writer_output_path fallback_path is_data_media package_name) False)
           else None)"

fun first_some :: "'a option list \<Rightarrow> 'a option" where
  "first_some [] = None"
| "first_some (None # rest) = first_some rest"
| "first_some (Some a # rest) = Some a"

definition app_stages :: "router_state \<Rightarrow> bytes \<Rightarrow> i32 \<Rightarrow> bytes \<Rightarrow> bool \<Rightarrow> bool \<Rightarrow> redirect_decision option list" where
  "app_stages router package_name user_id resolved_path is_data_media is_write =
     [read_only_stage router resolved_path is_write,
      mapping_stage router resolved_path is_data_media package_name,
      if \<not> is_write \<and> is_path_readable_by_read_only_rule router resolved_path then Some allow else None,
      allowed_media_stage router resolved_path user_id is_write,
      mapping_target_read_stage router resolved_path user_id is_write,
      sandbox_stage router resolved_path user_id is_data_media package_name]"

definition app_decision :: "router_state \<Rightarrow> bytes \<Rightarrow> i32 \<Rightarrow> bytes \<Rightarrow> bool \<Rightarrow> redirect_decision" where
  "app_decision router package_name self_uid pathname is_write =
     (let (normalized_path, is_data_media) = normalize_request_path pathname;
          user_id = user_id_from_uid self_uid;
          resolved_path = resolve_user_path normalized_path user_id
      in if \<not> is_path_in_user_storage resolved_path user_id then allow
         else (case first_some (app_stages router package_name user_id resolved_path is_data_media is_write) of
           Some decision \<Rightarrow> decision
         | None \<Rightarrow> allow))"

definition process_app_mount_namespace_redirect ::
  "engine_world \<Rightarrow> bytes \<Rightarrow> i32 \<Rightarrow> bytes \<Rightarrow> bool \<Rightarrow> (engine_state, redirect_decision) state" where
  "process_app_mount_namespace_redirect w package_name self_uid pathname is_write = do {
     _ \<leftarrow> reload_router_config_if_changed w package_name self_uid;
     reads (\<lambda>s. app_decision (es_router s) package_name self_uid pathname is_write)
   }"

section \<open>Model: rules of the system process itself\<close>

definition resolve_system_writer_self_rule_package :: "engine_world \<Rightarrow> bytes \<Rightarrow> i32 \<Rightarrow> (engine_state, bytes) state" where
  "resolve_system_writer_self_rule_package w package_name self_uid = do {
     let user_id = user_id_from_uid self_uid;
     own \<leftarrow> find_m (is_redirect_enabled w self_uid user_id)
       (if \<not> is_system_writer_package package_name then []
        else if is_media_provider_package package_name then media_provider_package_aliases package_name
        else [package_name]);
     (case own of
        Some package \<Rightarrow> State_Monad.return package
      | None \<Rightarrow> do {
          packages \<leftarrow> reads (\<lambda>s. get_packages_for_uid (es_uids s) self_uid);
          enabled \<leftarrow> filter_m (is_redirect_enabled w self_uid user_id) (filter is_system_writer_package packages);
          let candidates = remdups_adj (sort enabled);
          State_Monad.return (if length candidates = 1 then hd candidates else [])
        })
   }"

definition resolve_system_writer_self_redirect_target ::
  "engine_world \<Rightarrow> bytes \<Rightarrow> bytes \<Rightarrow> i32 \<Rightarrow> i32 \<Rightarrow> (engine_state, bytes) state" where
  "resolve_system_writer_self_redirect_target w config_package redirect_package self_uid user_id =
     (if config_package = redirect_package then
        writer_call w (\<lambda>env. resolve_system_writer_redirect_target env config_package self_uid user_id False)
      else do {
        enabled \<leftarrow> is_redirect_enabled w self_uid user_id config_package;
        let target = resolve_user_path (normalize (default_redirect_target redirect_package user_id)) user_id;
        State_Monad.return (if \<not> enabled \<or> target = [] \<or> has_unsafe_segments target then [] else target)
      })"

definition self_mapping_rule ::
  "engine_world \<Rightarrow> bytes \<Rightarrow> bytes \<Rightarrow> i32 \<Rightarrow> bytes \<Rightarrow> bool \<Rightarrow> bool \<Rightarrow> (engine_state, redirect_decision option) state" where
  "self_mapping_rule w package_name rule_package self_uid resolved_path is_data_media is_write = do {
     mapped_path \<leftarrow> ask_caller w map_caller_path resolved_path rule_package self_uid;
     if mapped_path \<noteq> [] \<and> mapped_path \<noteq> resolved_path then do {
       excluded \<leftarrow> (if is_write then ask_caller w is_path_excluded_by_caller_real_paths mapped_path rule_package self_uid
                    else State_Monad.return True);
       read_only \<leftarrow> (if \<not> excluded then ask_caller w is_path_read_only_by_caller_paths mapped_path rule_package self_uid
                     else State_Monad.return False);
       State_Monad.return (Some
         (if read_only then deny_read_only mapped_path True
          else redirect_to (resolve_system_writer_output_path mapped_path is_data_media package_name) True))
     }
     else State_Monad.return None
   }"

definition self_path_rule ::
  "engine_world \<Rightarrow> bytes \<Rightarrow> bytes \<Rightarrow> bytes \<Rightarrow> i32 \<Rightarrow> i32 \<Rightarrow> bytes \<Rightarrow> bool \<Rightarrow> bool
    \<Rightarrow> (engine_state, redirect_decision option) state" where
  "self_path_rule w package_name rule_package redirect_package self_uid user_id resolved_path is_data_media is_write = do {
     read_only \<leftarrow> ask_caller w is_caller_path_read_only resolved_path rule_package self_uid;
     if read_only then State_Monad.return (Some (if is_write then deny_read_only resolved_path False else allow))
     else do {
       sandboxed \<leftarrow> ask_caller w is_path_sandboxed_by_caller_paths resolved_path rule_package self_uid;
       if \<not> sandboxed then State_Monad.return None
       else do {
         redirect_target \<leftarrow> resolve_system_writer_self_redirect_target w rule_package redirect_package self_uid user_id;
         let sandbox_path = map_path_by_caller_fallback resolved_path redirect_target user_id;
         State_Monad.return
           (if sandbox_path = [] \<or> sandbox_path = resolved_path then None
            else Some (redirect_to (resolve_system_writer_output_path sandbox_path is_data_media package_name) False))
       }
     }
   }"

definition resolve_system_writer_self_explicit_rule ::
  "engine_world \<Rightarrow> bytes \<Rightarrow> i32 \<Rightarrow> i32 \<Rightarrow> bytes \<Rightarrow> bool \<Rightarrow> bool \<Rightarrow> bool
    \<Rightarrow> (engine_state, redirect_decision option) state" where
  "resolve_system_writer_self_explicit_rule w package_name self_uid user_id normalized_path is_data_media is_write
     include_mappings = do {
     shared \<leftarrow> reads (\<lambda>s. is_shared_uid_process (es_uids s) self_uid);
     if \<not> (is_system_writer_package package_name \<or> shared) \<or> self_uid < ANDROID_APP_UID_START \<or> user_id < 0
        \<or> normalized_path = [] then State_Monad.return None
     else do {
       rule_package \<leftarrow> resolve_system_writer_self_rule_package w package_name self_uid;
       if rule_package = [] then State_Monad.return None
       else do {
         let redirect_package = (if is_media_provider_package package_name then package_name else rule_package);
         enabled \<leftarrow> is_redirect_enabled w self_uid user_id rule_package;
         let resolved_path = resolve_user_path normalized_path user_id;
         if \<not> enabled \<or> \<not> is_path_in_user_storage resolved_path user_id
            \<or> is_system_writer_default_sandbox_path resolved_path redirect_package user_id package_name
            \<or> is_system_writer_android_private_storage_path resolved_path redirect_package user_id package_name
         then State_Monad.return None
         else do {
           mapping \<leftarrow> (if include_mappings
             then self_mapping_rule w package_name rule_package self_uid resolved_path is_data_media is_write
             else State_Monad.return None);
           (case mapping of
              Some decision \<Rightarrow> State_Monad.return (Some decision)
            | None \<Rightarrow> self_path_rule w package_name rule_package redirect_package self_uid user_id resolved_path
                is_data_media is_write)
         }
       }
     }
   }"

definition resolve_disabled_caller_private_owner_backend_rule ::
  "engine_world \<Rightarrow> bytes \<Rightarrow> bytes \<Rightarrow> i32 \<Rightarrow> i32 \<Rightarrow> bytes \<Rightarrow> bytes \<Rightarrow> (engine_state, redirect_decision option) state" where
  "resolve_disabled_caller_private_owner_backend_rule w package_name caller_pkg uid user_id normalized_path resolved_path =
     (if user_id < 0 \<or> \<not> is_media_provider_package package_name \<or> \<not> is_path_in_user_storage resolved_path user_id
         \<or> \<not> is_sqlite_database_or_sidecar_path normalized_path then State_Monad.return None
      else (case resolve_android_private_path_owner normalized_path of
        None \<Rightarrow> State_Monad.return None
      | Some owner_package \<Rightarrow>
          if owner_package = caller_pkg \<or> is_system_writer_package owner_package then State_Monad.return None
          else do {
            owner_uid \<leftarrow> fresh_uid w owner_package;
            if owner_uid < ANDROID_APP_UID_START \<or> user_id_from_uid owner_uid \<noteq> user_id then State_Monad.return None
            else do {
              enabled \<leftarrow> is_redirect_enabled w owner_uid user_id owner_package;
              let backend_path = storage_to_data_media_path resolved_path;
              if \<not> enabled \<or> backend_path = [] \<or> backend_path = resolved_path then State_Monad.return None
              else do {
                _ \<leftarrow> engine_note (CallerHint normalized_path owner_package caller_pkg uid user_id);
                State_Monad.return (Some (redirect_to backend_path False))
              }
            }
          }))"

section \<open>Model: system processes\<close>

definition WRITER_CONFIG_RELOAD_INTERVAL_MS :: int where
  "WRITER_CONFIG_RELOAD_INTERVAL_MS = 1000"

definition reload_writer_config_by_fingerprint :: "engine_world \<Rightarrow> (engine_state, unit) state" where
  "reload_writer_config_by_fingerprint w = do {
     last_ms \<leftarrow> reads es_writer_reload_check_ms;
     if sat_sub_i64 (ew_now w) last_ms < WRITER_CONFIG_RELOAD_INTERVAL_MS then State_Monad.return ()
     else do {
       _ \<leftarrow> State (\<lambda>s. ((), s\<lparr>es_writer_reload_check_ms := ew_now w\<rparr>));
       _ \<leftarrow> hub_reload (reload_if_changed (ew_config w));
       State_Monad.return ()
     }
   }"

definition reload_for_system_writer :: "engine_world \<Rightarrow> (engine_state, unit) state" where
  "reload_for_system_writer w = do {
     changed \<leftarrow> poll_changed;
     _ \<leftarrow> (if changed then force_after_disk_change w else State_Monad.return True);
     if \<not> changed \<or> ew_event_reload_ms w = 0 then reload_writer_config_by_fingerprint w else State_Monad.return ()
   }"

text \<open>The hints are the pair of the mapping-request hint and the redirect hint.\<close>

definition resolve_anonymous_owner_hints :: "engine_world \<Rightarrow> bytes \<Rightarrow> bytes \<Rightarrow> i32 \<Rightarrow> bool \<Rightarrow> bool \<Rightarrow> engine_state \<Rightarrow> bool \<times> bool" where
  "resolve_anonymous_owner_hints w package_name normalized_path user_id is_write has_external s =
     (let anonymous = \<not> has_external;
          private_owner = (is_write \<and> anonymous \<and> resolve_android_private_path_owner normalized_path \<noteq> None);
          mapping_request_owner = (anonymous \<and> has_system_writer_mapping_request_owner_hint user_id normalized_path s);
          redirect_owner = (anonymous \<and> (private_owner \<or> mapping_request_owner
            \<or> is_write \<and> is_media_provider_package package_name
              \<and> has_system_writer_recent_public_caller_hint w user_id normalized_path s))
      in (mapping_request_owner, redirect_owner))"

record hooked_process =
  hp_package_name :: bytes
  hp_uid :: i32
  hp_is_app_redirect_owner :: bool

text \<open>The part after the caller is known.\<close>

definition redirect_for_caller ::
  "engine_world \<Rightarrow> bytes \<Rightarrow> bytes \<times> bool \<Rightarrow> bool \<Rightarrow> caller_context \<Rightarrow> (engine_state, redirect_decision) state" where
  "redirect_for_caller w package_name normalized is_write cc =
     (case normalized of (normalized_path, is_data_media) \<Rightarrow>
        (let caller_pkg = cc_effective_caller_package cc; uid = cc_effective_caller_uid cc; user_id = cc_user_id cc
         in if caller_pkg = [] then State_Monad.return allow
            else do {
              _ \<leftarrow> engine_note (AuditCaller caller_pkg);
              if user_id < 0 then State_Monad.return allow
              else do {
                let resolved_path = resolve_user_path normalized_path user_id;
                enablement \<leftarrow> redirect_enablement w caller_pkg uid user_id;
                if \<not> UserRedirectEnablement_is_enabled enablement then do {
                  owner_rule \<leftarrow> resolve_disabled_caller_private_owner_backend_rule w package_name caller_pkg uid user_id
                    normalized_path resolved_path;
                  State_Monad.return (case owner_rule of Some decision \<Rightarrow> decision | None \<Rightarrow> allow)
                }
                else if \<not> is_path_in_user_storage resolved_path user_id then State_Monad.return allow
                else if is_data_media
                  \<and> (is_system_writer_default_sandbox_path resolved_path caller_pkg user_id package_name
                     \<or> is_system_writer_android_private_storage_path resolved_path caller_pkg user_id package_name)
                then State_Monad.return allow
                else process_system_writer_policy w enablement
                  \<lparr>pc_package_name = package_name, pc_caller_package = caller_pkg, pc_caller_uid = uid,
                   pc_user_id = user_id, pc_resolved_path = resolved_path, pc_is_data_media = is_data_media,
                   pc_is_caller_from_inferred = cc_is_caller_from_inferred cc, pc_is_write_operation = is_write\<rparr>
              }
            }))"

definition process_system_writer_redirect ::
  "engine_world \<Rightarrow> bytes \<Rightarrow> i32 \<Rightarrow> bool \<Rightarrow> bool \<Rightarrow> bool \<Rightarrow> bytes \<Rightarrow> (engine_state, redirect_decision) state" where
  "process_system_writer_redirect w package_name self_uid is_shared is_explicit_caller_decision is_write pathname = do {
     _ \<leftarrow> reload_for_system_writer w;
     if pathname = [] then State_Monad.return allow
     else do {
       let normalized = normalize_request_path pathname;
       let normalized_path = fst normalized;
       sg \<leftarrow> reads (\<lambda>s. caller_signal_from_hub package_name self_uid is_explicit_caller_decision (es_thread s));
       let ids = resolve_system_writer_user_id normalized_path (sg_effective_caller_uid sg);
       let user_id = fst ids;
       let sg = sg\<lparr>sg_effective_caller_uid := snd ids\<rparr>;
       let external = sg_has_external_caller_signal sg;
       hints \<leftarrow> reads (resolve_anonymous_owner_hints w package_name normalized_path user_id is_write external);
       self_rule \<leftarrow> (if \<not> external \<and> \<not> fst hints
         then resolve_system_writer_self_explicit_rule w package_name self_uid user_id normalized_path
                (snd normalized) is_write True
         else State_Monad.return None);
       (case self_rule of
          Some decision \<Rightarrow> State_Monad.return decision
        | None \<Rightarrow>
            if is_media_provider_package package_name \<and> \<not> external \<and> \<not> snd hints then State_Monad.return allow
            else if is_media_provider_internal_without_caller package_name external (sg_effective_caller_package sg)
              \<and> \<not> snd hints then State_Monad.return allow
            else do {
              cc \<leftarrow> resolve_system_writer_caller_context w
                (into_resolve_request package_name self_uid is_shared normalized_path user_id is_write sg);
              redirect_for_caller w package_name normalized is_write cc
            })
     }
   }"

section \<open>Model: the entry point\<close>

definition process_redirect_path_inner ::
  "engine_world \<Rightarrow> hooked_process \<Rightarrow> bytes \<Rightarrow> bool \<Rightarrow> bool \<Rightarrow> (engine_state, redirect_decision) state" where
  "process_redirect_path_inner w proc pathname is_write is_dir_create = do {
     let self_uid = hp_uid proc;
     let package_name = hp_package_name proc;
     is_shared \<leftarrow> reads (\<lambda>s. is_shared_uid_process (es_uids s) self_uid);
     let is_system_writer = (is_system_writer_package package_name \<or> is_shared);
     explicit \<leftarrow> reads (\<lambda>s. is_explicit_caller_decision_active (es_thread s));
     own_sandbox \<leftarrow> (if hp_is_app_redirect_owner proc then do {
         _ \<leftarrow> reload_router_config_if_changed w package_name self_uid;
         let own_resolved = resolve_user_path (fst (normalize_request_path pathname)) (user_id_from_uid self_uid);
         reads (\<lambda>s. is_path_sandboxed (es_router s) own_resolved)
       } else State_Monad.return False);
     passthrough \<leftarrow> reads (\<lambda>s. is_system_writer \<and> is_provider_passthrough_active (es_thread s));
     if own_sandbox then process_app_mount_namespace_redirect w package_name self_uid pathname is_write
     else if \<not> is_dir_create \<and> passthrough then State_Monad.return allow
     else if \<not> is_system_writer then process_app_mount_namespace_redirect w package_name self_uid pathname is_write
     else process_system_writer_redirect w package_name self_uid is_shared explicit is_write pathname
   }"

definition process_redirect_path :: "engine_world \<Rightarrow> hooked_process \<Rightarrow> bytes \<Rightarrow> (engine_state, redirect_decision) state" where
  "process_redirect_path w proc pathname = process_redirect_path_inner w proc pathname False False"

definition process_write_redirect_path :: "engine_world \<Rightarrow> hooked_process \<Rightarrow> bytes \<Rightarrow> (engine_state, redirect_decision) state" where
  "process_write_redirect_path w proc pathname = process_redirect_path_inner w proc pathname True False"

definition process_dir_create_redirect_path :: "engine_world \<Rightarrow> hooked_process \<Rightarrow> bytes \<Rightarrow> (engine_state, redirect_decision) state" where
  "process_dir_create_redirect_path w proc pathname = process_redirect_path_inner w proc pathname True True"

section \<open>Decisions are well formed\<close>

text \<open>A stage that decides decides well.\<close>

abbreviation some_ok :: "bool \<Rightarrow> redirect_decision option \<Rightarrow> bool" where
  "some_ok is_write r \<equiv> pred_option (decision_ok is_write) r"

lemma first_some_ok: "list_all (some_ok b) rs \<Longrightarrow> some_ok b (first_some rs)"
  by (induction rs rule: first_some.induct) auto

lemma some_ok_the: "some_ok b r \<Longrightarrow> r = Some d \<Longrightarrow> decision_ok b d"
  by simp

lemma app_stages_ok:
  "some_ok is_write (read_only_stage router path is_write)"
  "some_ok is_write (mapping_stage router path m name)"
  "some_ok is_write (allowed_media_stage router path user is_write)"
  "some_ok is_write (mapping_target_read_stage router path user is_write)"
  "some_ok is_write (sandbox_stage router path user m name)"
  by (auto simp: read_only_stage_def mapping_stage_def allowed_media_stage_def mapping_target_read_stage_def
      sandbox_stage_def Let_def)

lemma app_decision_ok: "decision_ok is_write (app_decision router name uid path is_write)"
proof -
  have "some_ok is_write (first_some (app_stages router name user p m is_write))" for user p m
    by (rule first_some_ok) (simp add: app_stages_def app_stages_ok)
  then show ?thesis by (auto simp: app_decision_def Let_def split: prod.split option.split dest: some_ok_the)
qed

lemma app_process_ok: "yields (process_app_mount_namespace_redirect w name uid path is_write) (decision_ok is_write)"
  unfolding process_app_mount_namespace_redirect_def
  by (rule yields_bind) (simp add: ensures_def app_decision_ok)

lemma self_mapping_rule_ok: "yields (self_mapping_rule w name rule uid path m is_write) (some_ok is_write)"
proof -
  have excluded: "yields (if is_write then q else State_Monad.return True) (\<lambda>e. \<not> e \<longrightarrow> is_write)" for q
    by (cases is_write) (simp_all add: ensures_def split: prod.splits)
  have ro: "yields (if \<not> e then q else State_Monad.return False) (\<lambda>r. r \<longrightarrow> \<not> e)" for e q
    by (cases e) (simp_all add: ensures_def split: prod.splits)
  show ?thesis
    unfolding self_mapping_rule_def
    by (rule yields_bind, rule ensures_if, rule yields_bind_with [OF excluded], rule yields_bind_with [OF ro])
      (auto intro!: yields_return)
qed

lemma caller_read_only_nonempty:
  "yields (ask_caller w is_caller_path_read_only path package uid) (\<lambda>read_only. read_only \<longrightarrow> path \<noteq> [])"
  by (auto simp: ensures_def ask_caller_def writer_call_def is_caller_path_read_only_def split: prod.splits if_splits)

lemma self_path_rule_ok: "yields (self_path_rule w name rule red uid user path m is_write) (some_ok is_write)"
  unfolding self_path_rule_def Let_def
  by (intro yields_bind_with [OF caller_read_only_nonempty] yields_rules) simp_all

lemma self_rule_ok: "yields (resolve_system_writer_self_explicit_rule w name uid user path m is_write maps) (some_ok is_write)"
proof -
  have maps: "yields (if maps then self_mapping_rule w name rule uid p m is_write else State_Monad.return None) (some_ok is_write)"
    for rule p by (intro ensures_if self_mapping_rule_ok yields_return) simp
  show ?thesis
    unfolding resolve_system_writer_self_explicit_rule_def Let_def
    by (intro yields_bind ensures_if yields_return yields_bind_with [OF maps])
      (auto split: option.split intro: yields_return self_path_rule_ok)
qed

lemma private_owner_rule_ok:
  "yields (resolve_disabled_caller_private_owner_backend_rule w name c uid user path resolved) (some_ok b)"
  unfolding resolve_disabled_caller_private_owner_backend_rule_def Let_def
  by (auto split: option.split intro!: yields_rules)

lemma redirect_for_caller_ok: "yields (redirect_for_caller w name np is_write cc) (decision_ok is_write)"
proof -
  have owner: "yields (State_Monad.bind (resolve_disabled_caller_private_owner_backend_rule w name c uid user p r)
      (\<lambda>r. State_Monad.return (case r of Some d \<Rightarrow> d | None \<Rightarrow> allow))) (decision_ok is_write)" for c uid user p r
    by (rule yields_bind_with [OF private_owner_rule_ok]) (auto intro!: yields_return split: option.split)
  have policy: "yields (process_system_writer_policy w en
      \<lparr>pc_package_name = name, pc_caller_package = c, pc_caller_uid = uid, pc_user_id = user, pc_resolved_path = p,
       pc_is_data_media = m, pc_is_caller_from_inferred = i, pc_is_write_operation = is_write\<rparr>) (decision_ok is_write)"
    for en c uid user p m i
    using policy_ok [of w en "\<lparr>pc_package_name = name, pc_caller_package = c, pc_caller_uid = uid, pc_user_id = user,
        pc_resolved_path = p, pc_is_data_media = m, pc_is_caller_from_inferred = i, pc_is_write_operation = is_write\<rparr>"]
    by simp
  show ?thesis
    unfolding redirect_for_caller_def Let_def
    by (auto split: prod.split intro!: yields_rules owner policy)
qed

lemma system_writer_ok:
  "yields (process_system_writer_redirect w name uid shared explicit is_write path) (decision_ok is_write)"
proof -
  have self: "yields (if c then resolve_system_writer_self_explicit_rule w name uid user p m is_write True
      else State_Monad.return None) (some_ok is_write)" for c user p m
    by (intro ensures_if self_rule_ok yields_return) simp
  show ?thesis
    unfolding process_system_writer_redirect_def Let_def
    by (intro yields_bind ensures_if yields_return yields_bind_with [OF self])
      (auto split: option.split intro!: yields_rules redirect_for_caller_ok)
qed

text \<open>
  (C10) Whatever state the engine is in and whatever path a process hands it, its decision is well formed:
  only a write is ever denied, a denied or redirected operation carries the path it is about, and an
  allowed one carries none. This covers the process's own rules, the rules of a system process, every
  way a caller is found, and every stage of the caller's policy.
\<close>

theorem engine_decision_wellformed:
  "ensures (\<lambda>_. True) (process_redirect_path_inner w proc pathname is_write is_dir_create)
     (\<lambda>decision _. case rd_action decision of
        ActAllow \<Rightarrow> rd_new_path decision = [] \<and> \<not> rd_is_mapping decision
      | ActRedirect \<Rightarrow> rd_new_path decision \<noteq> []
      | ActDenyReadOnly \<Rightarrow> is_write \<and> rd_new_path decision \<noteq> [])"
  unfolding decision_ok_def [symmetric] process_redirect_path_inner_def Let_def
  by (intro yields_rules app_process_ok system_writer_ok) simp

section \<open>Spelling a path differently changes nothing\<close>

lemma normalize_absolute:
  "is_absolute p \<Longrightarrow> normalize p = resolve_storage_alias (slash # join_char slash (segs p))"
  by (simp add: normalize_abs_eq normalize_syntax_joins_components is_absolute_def str_simps)

lemma normalize_resolved:
  assumes "is_absolute p"
  shows "normalize (if needs_dot_segment_collapse p then collapse_dot_segments p else p)
    = resolve_storage_alias (slash # join_char slash (resolve_walk [] (split_char slash p)))"
proof (cases "has_unsafe_segments p")
  case True
  have "p \<noteq> []" using assms by (auto simp: is_absolute_def str_simps)
  then have "''.'' \<in> set (segs p) \<or> ''..'' \<in> set (segs p)" using True by (simp add: has_unsafe_segments_iff)
  then have "CHR ''.'' \<in> set p"
    using set_join_char [of _ "split_char slash p" slash] by (fastforce simp: nonempty_parts_def join_split_char)
  then have needs: "needs_dot_segment_collapse p" using True by (simp add: needs_dot_segment_collapse_def contains_char_def)
  have "is_absolute (collapse_dot_segments p)"
    using collapse_dot_join [OF assms] by (simp add: is_absolute_def str_simps)
  moreover have "segs (collapse_dot_segments p) = resolve_walk [] (split_char slash p)"
    using collapse_dot_join [OF assms] by blast
  ultimately have "normalize (collapse_dot_segments p)
      = resolve_storage_alias (slash # join_char slash (resolve_walk [] (split_char slash p)))"
    by (simp only: normalize_absolute)
  then show ?thesis using needs by simp
next
  case False
  then show ?thesis
    using assms by (simp add: needs_dot_segment_collapse_def normalize_absolute resolve_walk_safe)
qed

text \<open>
  (C8) The engine decides on the file that the kernel reaches, not on the way it is spelled: two absolute
  paths whose components resolve to the same place, with any \<^verbatim>\<open>.\<close> and \<^verbatim>\<open>..\<close> segments and
  repeated slashes on the way, get the same decision from the same state, and leave the same state behind.
  A detour like \<^verbatim>\<open>Pictures/../ReadOnlyDir\<close> evades no rule.
\<close>

theorem engine_ignores_spelling:
  assumes "is_absolute p" and "is_absolute q"
    and "resolve_walk [] (split_char slash p) = resolve_walk [] (split_char slash q)"
  shows "process_redirect_path_inner w proc p is_write is_dir_create
    = process_redirect_path_inner w proc q is_write is_dir_create"
proof -
  have same: "normalize_request_path p = normalize_request_path q"
    unfolding normalize_request_path_def Let_def
    by (simp only: normalize_resolved [OF assms(1)] normalize_resolved [OF assms(2)] assms(3))
  have "p \<noteq> []" "q \<noteq> []" using assms(1,2) by (auto simp: is_absolute_def str_simps)
  then have "process_system_writer_redirect w n u sh ex b p = process_system_writer_redirect w n u sh ex b q"
    for n u sh ex b by (simp add: process_system_writer_redirect_def same)
  moreover have "process_app_mount_namespace_redirect w n u p b = process_app_mount_namespace_redirect w n u q b" for n u b
    by (simp add: process_app_mount_namespace_redirect_def app_decision_def same)
  ultimately show ?thesis by (simp only: process_redirect_path_inner_def same)
qed

theorem engine_ignores_spelling_witness:
  "\<forall>w proc. process_redirect_path_inner w proc ''/sdcard/A/.././/B'' True False
     = process_redirect_path_inner w proc ''/sdcard/B'' True False"
proof -
  have "is_absolute ''/sdcard/A/.././/B''" "is_absolute ''/sdcard/B''" by code_simp+
  moreover have "resolve_walk [] (split_char slash ''/sdcard/A/.././/B'') = resolve_walk [] (split_char slash ''/sdcard/B'')"
    by code_simp
  ultimately show ?thesis by (intro allI engine_ignores_spelling)
qed

section \<open>Processes with rules of their own\<close>

text \<open>The path the rules see.\<close>

definition rule_path :: "bytes \<Rightarrow> i32 \<Rightarrow> bytes" where
  "rule_path pathname uid = resolve_user_path (fst (normalize_request_path pathname)) (user_id_from_uid uid)"


end
