(* ===== verification/Fuse_Rules.thy ===== *)
theory Fuse_Rules
  imports Router
begin

text \<open>
  The rule lists of the FUSE redirection: \<^verbatim>\<open>src/fuse_redirect/rules.rs\<close> and the rule helpers of
  \<^verbatim>\<open>src/fuse_redirect/policy.rs\<close>. A rule list is normalised when the policy is built, compiled into an
  index (exact rules as a set of keys, wildcard rules as a list), and its concrete prefixes are the
  directories that stay visible in a redirected view even when the back end does not have them.
\<close>

section \<open>Model: rule lists\<close>

text \<open>One rule of the list: a leading mark means exclusion and is kept.\<close>

definition resolve_rule_entry :: "i32 \<Rightarrow> bytes \<Rightarrow> bytes \<Rightarrow> bytes option" where
  "resolve_rule_entry user_id storage_root path =
     (let path = trim_start path;
          (excluded, body) = (case strip_prefix path ''!'' of
              Some value \<Rightarrow> (True, trim_start value) | None \<Rightarrow> (False, path));
          resolved = resolve_user_path (normalize body) user_id
      in if resolved = [] \<or> has_unsafe_segments resolved then None
         else (let resolved = (if \<not> is_absolute resolved then normalize (path_join storage_root resolved)
                               else resolved)
               in if is_child resolved storage_root
                  then Some (if excluded then ''!'' @ resolved else resolved) else None))"

definition normalize_rule_list :: "bytes list \<Rightarrow> i32 \<Rightarrow> bytes list" where
  "normalize_rule_list paths_in user_id =
     sort_dedup_paths_case_insensitive
       (List.map_filter (resolve_rule_entry user_id (storage_user_root_for_user user_id)) paths_in)"

section \<open>Model: the compiled index\<close>

text \<open>\<^verbatim>\<open>HashSet<String>\<close> is used through membership only.\<close>

record rule_index =
  ri_exact :: "bytes list"
  ri_wildcard :: "bytes list"

definition index_rule :: "rule_index \<Rightarrow> bytes \<Rightarrow> rule_index" where
  "index_rule index rule =
     (if \<not> contains_wildcards rule \<and> \<not> contains_str rule ''//''
      then index\<lparr>ri_exact := List.insert (match_key (trim_end_char slash rule)) (ri_exact index)\<rparr>
      else index\<lparr>ri_wildcard := ri_wildcard index @ [rule]\<rparr>)"

definition RuleIndex_new :: "bytes list \<Rightarrow> rule_index" where
  "RuleIndex_new rules = foldl index_rule \<lparr>ri_exact = [], ri_wildcard = []\<rparr> rules"

lemma rfind_char_less: "rfind_char c s = Some i \<Longrightarrow> i < length s"
  by (simp add: rfind_char_Some)

text \<open>The candidate walks up the ancestors of the path.\<close>

function matches_exact_lowered :: "bytes list \<Rightarrow> bytes \<Rightarrow> bool" where
  "matches_exact_lowered exact candidate =
     (if candidate \<in> set exact then True
      else (case rfind_char slash candidate of
          None \<Rightarrow> False
        | Some separator \<Rightarrow>
            if separator = 0 then False else matches_exact_lowered exact (take separator candidate)))"
  by pat_completeness auto
termination
  by (relation "measure (\<lambda>(_, candidate). length candidate)") (auto dest: rfind_char_less)

declare matches_exact_lowered.simps [simp del]

definition matches_exact :: "rule_index \<Rightarrow> bytes \<Rightarrow> bool" where
  "matches_exact index storage_path =
     (if ri_exact index = [] then False
      else let trimmed = trim_end_char slash storage_path
        in if \<not> list_ex is_ascii_upper trimmed then matches_exact_lowered (ri_exact index) trimmed
           else matches_exact_lowered (ri_exact index) (match_key trimmed))"

definition RuleIndex_matches :: "rule_index \<Rightarrow> bytes \<Rightarrow> bool" where
  "RuleIndex_matches index storage_path =
     (if matches_exact index storage_path then True
      else list_ex (\<lambda>rule. matches rule storage_path True) (ri_wildcard index))"

section \<open>Model: prefixes of rules and relative paths\<close>

text \<open>\<^verbatim>\<open>trim_matches\<close> removes the character at both ends.\<close>

definition trim_char :: "char \<Rightarrow> bytes \<Rightarrow> bytes" where
  "trim_char c s = trim_end_char c (dropWhile (\<lambda>x. x = c) s)"

record rule_prefix =
  px_rel :: bytes
  px_storage_path :: bytes
  px_full_prefix :: bool

definition concrete_rule_prefix :: "bytes \<Rightarrow> bytes option" where
  "concrete_rule_prefix rule =
     (let normalized = normalize rule
      in if \<not> contains_wildcards normalized then Some normalized
         else (let pre = join_char slash
                      (takeWhile (\<lambda>part. \<not> (contains_char part (CHR ''*'') \<or> contains_char part (CHR ''?'')))
                        (split_char slash normalized))
               in if pre = [] \<or> pre = ''/'' then None else Some pre))"

definition visible_rule_prefix :: "bytes \<Rightarrow> i32 \<Rightarrow> bytes \<Rightarrow> bytes \<Rightarrow> rule_prefix option" where
  "visible_rule_prefix rule user_id storage_root mount_root =
     (let rule = trim_start rule;
          rule = trim_start (case strip_prefix rule ''!'' of Some r \<Rightarrow> r | None \<Rightarrow> rule);
          full_prefix = (\<not> contains_wildcards rule)
      in (case concrete_rule_prefix rule of
          None \<Rightarrow> None
        | Some pre \<Rightarrow>
            (let resolved = resolve_user_path (normalize pre) user_id
             in if resolved = [] \<or> has_unsafe_segments resolved then None
                else (let resolved = (if \<not> is_absolute resolved then normalize (path_join storage_root resolved)
                                      else resolved)
                      in if \<not> is_child resolved storage_root \<and> \<not> eq_ignore_case resolved storage_root then None
                         else if \<not> eq_ignore_case resolved mount_root \<and> \<not> is_child resolved mount_root then None
                         else (let rel = trim_char slash
                                   (case relative_child_path resolved mount_root of Some r \<Rightarrow> r | None \<Rightarrow> [])
                               in if rel = [] then None
                                  else Some \<lparr>px_rel = rel, px_storage_path = resolved, px_full_prefix = full_prefix\<rparr>)))))"

definition build_rule_prefixes ::
  "bytes list \<Rightarrow> bytes list \<Rightarrow> bytes list \<Rightarrow> bytes list \<Rightarrow> path_mapping list \<Rightarrow> i32 \<Rightarrow> bytes \<Rightarrow> bytes \<Rightarrow> rule_prefix list" where
  "build_rule_prefixes allowed excluded sandboxed read_only mappings user_id storage_root mount_root =
     dedup_by (\<lambda>left right. eq_ignore_case (px_rel left) (px_rel right))
       (sort_key px_rel
         (List.map_filter (\<lambda>rule. visible_rule_prefix rule user_id storage_root mount_root)
           (allowed @ excluded @ sandboxed @ read_only @ map request_path mappings)))"

definition visible_prefix_child :: "bytes \<Rightarrow> rule_prefix \<Rightarrow> bytes option" where
  "visible_prefix_child parent_rel pre =
     (let prefix_rel = trim_char slash (px_rel pre)
      in if prefix_rel = [] then None
         else if parent_rel = [] then Some (hd (split_char slash prefix_rel))
         else (let parent = trim_char slash parent_rel
               in if eq_ignore_ascii_case prefix_rel parent then None
                  else (let parent_prefix = parent @ ''/''
                        in if \<not> (length parent_prefix \<le> length prefix_rel
                                 \<and> eq_ignore_ascii_case (take (length parent_prefix) prefix_rel) parent_prefix) then None
                           else (let rest = drop (length parent_prefix) prefix_rel
                                 in if rest = [] then None else Some (hd (split_char slash rest))))))"

definition rule_has_path_prefix :: "bytes \<Rightarrow> bytes \<Rightarrow> bool" where
  "rule_has_path_prefix rule path =
     (if rule = [] \<or> path = [] then False
      else if matches rule path True then True
      else let rule_norm = normalize rule; path_norm = normalize path
        in if contains_wildcards rule_norm then False
           else is_child path_norm rule_norm \<or> eq_ignore_case path_norm rule_norm)"

definition rule_may_match_path_or_descendant :: "bytes \<Rightarrow> bytes \<Rightarrow> bool" where
  "rule_may_match_path_or_descendant rule path =
     (if rule = [] \<or> path = [] then False
      else if matches rule path True then True
      else let rule_segments = nonempty_parts slash rule; path_segments = nonempty_parts slash path
        in if path_segments = [] \<or> length rule_segments < length path_segments then False
           else matches (''/'' @ join_char slash (take (length path_segments) rule_segments))
                  (''/'' @ join_char slash path_segments) False)"

definition is_strict_subpath :: "bytes \<Rightarrow> bytes \<Rightarrow> bool" where
  "is_strict_subpath path ancestor =
     (let path = trim_end_char slash path; ancestor = trim_end_char slash ancestor
      in if ancestor = [] \<or> length path \<le> length ancestor then False
         else eq_ignore_ascii_case (take (length ancestor) path) ancestor
              \<and> path ! length ancestor = slash)"

definition sanitize_relative :: "bytes \<Rightarrow> bytes option" where
  "sanitize_relative rel =
     (let trimmed = trim_char slash rel
      in if trimmed = [] then Some []
         else if contains_char trimmed (CHR 0x00) \<or> has_unsafe_segments trimmed \<or> is_absolute trimmed then None
         else Some (trim_char slash (normalize trimmed)))"

definition resolve_storage_rule :: "bytes \<Rightarrow> i32 \<Rightarrow> bytes \<Rightarrow> bytes \<Rightarrow> bytes \<Rightarrow> bytes option" where
  "resolve_storage_rule path user_id storage_root app_data_dir redirect_target =
     (let resolved = resolve_user_path
            (resolve_placeholders (normalize path) app_data_dir redirect_target) user_id
      in if resolved = [] \<or> has_unsafe_segments resolved then None
         else (let resolved = (if \<not> is_absolute resolved then normalize (path_join storage_root resolved)
                               else resolved)
               in if is_child resolved storage_root then Some resolved else None))"

definition resolve_path_mappings ::
  "path_mapping list \<Rightarrow> i32 \<Rightarrow> bytes \<Rightarrow> bytes \<Rightarrow> bytes \<Rightarrow> path_mapping list" where
  "resolve_path_mappings mappings user_id storage_root app_data_dir redirect_target =
     List.map_filter (\<lambda>mapping.
       case resolve_storage_rule (request_path mapping) user_id storage_root app_data_dir redirect_target of
         None \<Rightarrow> None
       | Some current \<Rightarrow>
           (case resolve_storage_rule (final_path mapping) user_id storage_root app_data_dir redirect_target of
              None \<Rightarrow> None
            | Some target \<Rightarrow>
                if eq_ignore_case current target then None else Some (PathMapping_new current target)))
       mappings"

section \<open>The index is a scan of the rules\<close>

lemma last_sep_split:
  "q @ x # r = a @ x # b \<Longrightarrow> x \<notin> set b \<Longrightarrow> q = a \<or> (\<exists>t. a = q @ x # t)"
  by (auto simp: append_eq_append_conv2 append_eq_Cons_conv Cons_eq_append_conv)

lemma matches_exact_lowered_iff:
  "matches_exact_lowered exact c \<longleftrightarrow> c \<in> set exact \<or> (\<exists>q \<in> set exact. q \<noteq> [] \<and> prefix (q @ ''/'') c)"
proof (induction exact c rule: matches_exact_lowered.induct)
  case (1 exact c)
  show ?case
  proof (cases "rfind_char slash c")
    case None
    then have "\<not> prefix (q @ ''/'') c" for q by (auto simp: rfind_char_None prefix_def)
    then show ?thesis using None by (simp add: matches_exact_lowered.simps [of exact c])
  next
    case (Some i)
    then have i: "i < length c" "c ! i = slash" "slash \<notin> set (drop (Suc i) c)" by (simp_all add: rfind_char_Some)
    have c: "c = take i c @ slash # drop (Suc i) c" using i by (metis id_take_nth_drop)
    have up: "prefix (q @ ''/'') c \<longleftrightarrow> q = take i c \<or> prefix (q @ ''/'') (take i c)" for q
    proof
      assume "prefix (q @ ''/'') c"
      then obtain r where r: "q @ slash # r = take i c @ slash # drop (Suc i) c" using c by (auto simp: prefix_def)
      from last_sep_split [OF this i(3)] show "q = take i c \<or> prefix (q @ ''/'') (take i c)"
        by (auto simp: prefix_def)
    next
      assume "q = take i c \<or> prefix (q @ ''/'') (take i c)"
      then show "prefix (q @ ''/'') c"
      proof
        assume "q = take i c"
        then show ?thesis using c by (metis append.assoc append_Cons append_Nil prefixI)
      next
        assume "prefix (q @ ''/'') (take i c)"
        then show ?thesis using take_is_prefix [of i c] by (rule prefix_order.trans)
      qed
    qed
    show ?thesis
    proof (cases "i = 0")
      case True
      then have "\<not> prefix (q @ ''/'') c" if "q \<noteq> []" for q using up [of q] that by simp
      then show ?thesis using True Some by (auto simp: matches_exact_lowered.simps [of exact c])
    next
      case False
      then have "take i c \<noteq> []" using i by auto
      then show ?thesis
        using 1 Some False up
        by (auto simp: matches_exact_lowered.simps [of exact c] intro: bexI [of _ "take i c"])
    qed
  qed
qed

lemma lower_id: "\<not> list_ex is_ascii_upper s \<Longrightarrow> match_key s = s"
  by (induction s) (auto simp: match_key_def ascii_lower_def)

lemma RuleIndex_fields:
  "set (ri_exact (foldl index_rule index rules)) = set (ri_exact index) \<union>
     {match_key (trim_end_char slash r) | r. r \<in> set rules \<and> \<not> contains_wildcards r \<and> \<not> contains_str r ''//''}"
  "set (ri_wildcard (foldl index_rule index rules)) = set (ri_wildcard index) \<union>
     {r \<in> set rules. contains_wildcards r \<or> contains_str r ''//''}"
  by (induction rules arbitrary: index) (auto simp: index_rule_def)

lemma match_key_nonempty [simp]: "match_key s = [] \<longleftrightarrow> s = []"
  by (simp add: match_key_def)

lemma matches_plain_iff:
  assumes "canonical path" and "path \<noteq> ''/''" and "\<not> contains_wildcards r" and "\<not> contains_str r ''//''"
  shows "matches r path True \<longleftrightarrow> (let k = match_key (trim_end_char slash r)
    in k \<noteq> [] \<and> (match_key path = k \<or> prefix (k @ ''/'') (match_key path)))"
proof -
  have "path \<noteq> []" "\<not> contains_str path ''//''" using assms(1) by (simp_all add: canonical_iff str_simps)
  moreover have "trim_end_char slash path = path" using assms(1,2) by (rule canonical_trim)
  ultimately show ?thesis
    using assms(3,4) below_root_iff [of "trim_end_char slash r" path]
    by (auto simp: matches_def trim_match_slashes_def Let_def match_key_def str_simps)
      (simp_all add: trim_end_char_def)
qed

text \<open>
  (C35) The compiled rule index of the FUSE policy answers, for every rule list and every canonical path,
  what a scan of the list with \<^verbatim>\<open>paths::matches\<close> answers: walking up the ancestors of the lowered path in
  the set of exact rules finds a rule exactly when one covers the path, and nothing is lost by
  splitting off the wildcard rules.
\<close>

theorem fuse_rule_index_is_scan:
  assumes "canonical path" and "path \<noteq> ''/''"
  shows "RuleIndex_matches (RuleIndex_new rules) path \<longleftrightarrow> (\<exists>rule \<in> set rules. matches rule path True)"
proof -
  let ?idx = "RuleIndex_new rules" and ?p = "match_key path"
  have trim: "trim_end_char slash path = path" using assms by (rule canonical_trim)
  have ne: "?p \<noteq> []" using assms(1) by (auto simp: canonical_iff)
  have exact: "set (ri_exact ?idx) = {match_key (trim_end_char slash r) | r.
      r \<in> set rules \<and> \<not> contains_wildcards r \<and> \<not> contains_str r ''//''}"
    by (simp add: RuleIndex_new_def RuleIndex_fields)
  have "matches_exact ?idx path \<longleftrightarrow> matches_exact_lowered (ri_exact ?idx) ?p"
    using lower_id [of path] by (auto simp: matches_exact_def trim Let_def matches_exact_lowered_iff)
  also have "\<dots> \<longleftrightarrow> (\<exists>k \<in> set (ri_exact ?idx). k \<noteq> [] \<and> (?p = k \<or> prefix (k @ ''/'') ?p))"
    using ne unfolding matches_exact_lowered_iff by metis
  also have "\<dots> \<longleftrightarrow> (\<exists>r \<in> set rules. \<not> contains_wildcards r \<and> \<not> contains_str r ''//'' \<and> matches r path True)"
    unfolding exact using matches_plain_iff [OF assms] by (auto simp: Let_def)
  finally show ?thesis
    by (auto simp: RuleIndex_matches_def list_ex_iff RuleIndex_new_def RuleIndex_fields)
qed

theorem fuse_rule_index_is_scan_witness:
  "RuleIndex_matches (RuleIndex_new [''/storage/emulated/0/DCIM/'', ''/storage/emulated/0/*/x'']) ''/storage/emulated/0/dcim/a''
   \<and> matches ''/storage/emulated/0/DCIM/'' ''/storage/emulated/0/dcim/a'' True"
proof -
  have c: "canonical ''/storage/emulated/0/dcim/a''" "''/storage/emulated/0/dcim/a'' \<noteq> ''/''" by code_simp+
  have "matches ''/storage/emulated/0/DCIM/'' ''/storage/emulated/0/dcim/a'' True" by code_simp
  then show ?thesis using fuse_rule_index_is_scan [OF c] by simp
qed

end
