(* ===== verification/Fuse_Inode.thy ===== *)
theory Fuse_Inode
  imports Fuse_Rules
begin

text \<open>
  The state of a FUSE session: the inode table of \<^verbatim>\<open>src/fuse_redirect/inode.rs\<close> and the operations
  on \<^verbatim>\<open>FuseState\<close> of \<^verbatim>\<open>src/fuse_redirect/mod.rs\<close>. A hash map is an association list; where the code
  iterates over one, the model takes the order of the list, and nothing below depends on it. A file
  descriptor or a passthrough registration is a number. \<^verbatim>\<open>u64\<close> and \<^verbatim>\<open>usize\<close> are numbers with their
  saturation or wrap-around written out.
\<close>

section \<open>Model: data\<close>

datatype errno = ENOENT | EINVAL | EROFS | EIO | EBADF | ENOSYS | EACCES | ENOTDIR | EPERM | ENOSPC | EEXIST
  | Errno int

datatype file_type = NamedPipe | CharDevice | BlockDevice | Directory | RegularFile | Symlink | Socket

record backend_path =
  bp_rel :: bytes
  bp_path :: bytes
  bp_read_only :: bool
  bp_shared_public :: bool
  bp_app_private :: bool

record inode_backend =
  ib_owner_uid :: nat
  ib_backend :: backend_path

record open_file =
  of_rel :: bytes
  of_file :: "nat option"
  of_backing :: "nat option"
  of_read_only :: bool

record dir_entry =
  de_ino :: nat
  de_kind :: file_type
  de_name :: bytes
  de_rel :: bytes

record dir_candidate =
  dc_rel :: bytes
  dc_kind :: file_type
  dc_name :: bytes

record source_signature =
  ss_path :: bytes
  ss_modified :: "nat option"
  ss_is_dir :: "bool option"

record cached_candidates =
  cc_created_at :: int
  cc_estimated_bytes :: nat
  cc_candidates :: "dir_candidate list"
  cc_sources :: "source_signature list"

record fuse_state =
  fs_next_ino :: nat
  fs_next_fh :: nat
  fs_inodes :: "(bytes \<times> nat) list"
  fs_casefold :: bool
  fs_paths_by_inode :: "(nat \<times> bytes) list"
  fs_path_policy_uids :: "(bytes \<times> nat) list"
  fs_inode_policy_uids :: "(nat \<times> nat) list"
  fs_inode_path_versions :: "(nat \<times> nat) list"
  fs_inode_backends :: "(nat \<times> inode_backend) list"
  fs_lookup_counts :: "(nat \<times> nat) list"
  fs_dir_entry_refs :: "(nat \<times> nat) list"
  fs_files :: "(nat \<times> open_file) list"
  fs_dirs :: "(nat \<times> dir_entry list) list"
  fs_dir_cache :: "(bytes \<times> cached_candidates) list"
  fs_dir_cache_bytes :: nat
  fs_dir_cache_byte_budget :: nat
  fs_dir_cache_capacity :: nat
  fs_dir_cache_max_capacity :: nat

definition ROOT_INO :: nat where
  "ROOT_INO = 1"

definition INODE_BACKEND_CACHE_CAP :: nat where
  "INODE_BACKEND_CACHE_CAP = 8192"

definition PATH_POLICY_UID_CAP :: nat where
  "PATH_POLICY_UID_CAP = 16384"

definition INITIAL_DIR_CANDIDATE_CACHE_ENTRIES :: nat where
  "INITIAL_DIR_CANDIDATE_CACHE_ENTRIES = 64"

definition INITIAL_DIR_CANDIDATE_CACHE_BYTES :: nat where
  "INITIAL_DIR_CANDIDATE_CACHE_BYTES = 256 * 1024"

definition wrapping_inc_u64 :: "nat \<Rightarrow> nat" where
  "wrapping_inc_u64 n = (if n = U64_MAX then 0 else n + 1)"

text \<open>\<^verbatim>\<open>entry(k).or_default()\<close> followed by an update of the counter.\<close>

definition bump :: "(nat \<Rightarrow> nat) \<Rightarrow> 'k \<Rightarrow> ('k \<times> nat) list \<Rightarrow> ('k \<times> nat) list" where
  "bump f k counts = AList.update k (f (case map_of counts k of None \<Rightarrow> 0 | Some n \<Rightarrow> n)) counts"

section \<open>Model: session state\<close>

text \<open>The size of the directory cache follows the memory of the device (in KiB; 4 GiB when unknown).\<close>

definition dir_candidate_cache_capacity_limits :: "nat option \<Rightarrow> nat \<times> nat \<times> nat" where
  "dir_candidate_cache_capacity_limits mem_total_kib =
     (let total_kib = (case mem_total_kib of None \<Rightarrow> 4 * 1024 * 1024 | Some n \<Rightarrow> n);
          (max_capacity, byte_budget) =
            (if total_kib < 4 * 1024 * 1024 then (64, 2 * 1024 * 1024)
             else if total_kib < 8 * 1024 * 1024 then (128, 4 * 1024 * 1024)
             else (256, 8 * 1024 * 1024))
      in (min INITIAL_DIR_CANDIDATE_CACHE_ENTRIES max_capacity, max_capacity, byte_budget))"

definition fuse_state_new :: "bool \<Rightarrow> nat option \<Rightarrow> fuse_state" where
  "fuse_state_new casefold mem_total_kib =
     (let (capacity, max_capacity, byte_budget) = dir_candidate_cache_capacity_limits mem_total_kib
      in \<lparr>fs_next_ino = ROOT_INO + 1, fs_next_fh = 1, fs_inodes = [([], ROOT_INO)], fs_casefold = casefold,
          fs_paths_by_inode = [(ROOT_INO, [])], fs_path_policy_uids = [], fs_inode_policy_uids = [],
          fs_inode_path_versions = [(ROOT_INO, 0)], fs_inode_backends = [], fs_lookup_counts = [],
          fs_dir_entry_refs = [], fs_files = [], fs_dirs = [], fs_dir_cache = [], fs_dir_cache_bytes = 0,
          fs_dir_cache_byte_budget = byte_budget, fs_dir_cache_capacity = capacity,
          fs_dir_cache_max_capacity = max_capacity\<rparr>)"

definition next_handle :: "fuse_state \<Rightarrow> nat \<times> fuse_state" where
  "next_handle s = (fs_next_fh s, s\<lparr>fs_next_fh := max (sat_add_u64 (fs_next_fh s) 1) 1\<rparr>)"

definition clear_dir_candidate_cache :: "fuse_state \<Rightarrow> fuse_state" where
  "clear_dir_candidate_cache s = s\<lparr>fs_dir_cache := [], fs_dir_cache_bytes := 0\<rparr>"

definition inode_key :: "fuse_state \<Rightarrow> bytes \<Rightarrow> bytes" where
  "inode_key s rel = (if fs_casefold s then to_ascii_lowercase rel else rel)"

definition ino_for_path_locked :: "bytes \<Rightarrow> fuse_state \<Rightarrow> nat \<times> fuse_state" where
  "ino_for_path_locked rel s =
     (let key = inode_key s rel
      in case map_of (fs_inodes s) key of
           Some ino \<Rightarrow> (ino, s)
         | None \<Rightarrow>
             (let ino = fs_next_ino s
              in (ino, s\<lparr>fs_next_ino := max (sat_add_u64 (fs_next_ino s) 1) (ROOT_INO + 1),
                         fs_inodes := AList.update key ino (fs_inodes s),
                         fs_paths_by_inode := AList.update ino rel (fs_paths_by_inode s),
                         fs_inode_path_versions := AList.update ino 0 (fs_inode_path_versions s)\<rparr>)))"

text \<open>The owner of an inode: a system identity never replaces one, and the first application keeps it.\<close>

definition keeps_owner :: "nat \<Rightarrow> nat option \<Rightarrow> bool" where
  "keeps_owner uid existing =
     (case existing of None \<Rightarrow> False | Some e \<Rightarrow> \<not> 10000 \<le> uid \<or> (10000 \<le> e \<and> e \<noteq> uid))"

definition remember_policy_for_inode_locked :: "nat \<Rightarrow> bytes \<Rightarrow> nat \<Rightarrow> fuse_state \<Rightarrow> fuse_state" where
  "remember_policy_for_inode_locked ino rel uid s =
     (if keeps_owner uid (map_of (fs_inode_policy_uids s) ino) then s
      else if keeps_owner uid (map_of (fs_path_policy_uids s) rel) then s
      else (let path_uids = (if PATH_POLICY_UID_CAP \<le> length (fs_path_policy_uids s)
                                \<and> map_of (fs_path_policy_uids s) rel = None
                             then [] else fs_path_policy_uids s)
            in s\<lparr>fs_path_policy_uids := AList.update rel uid path_uids,
                 fs_inode_policy_uids := AList.update ino uid (fs_inode_policy_uids s)\<rparr>))"

definition remember_backend_for_inode_locked :: "nat \<Rightarrow> nat \<Rightarrow> backend_path \<Rightarrow> fuse_state \<Rightarrow> fuse_state" where
  "remember_backend_for_inode_locked ino uid backend s =
     (let backends = (if ino = ROOT_INO \<or> INODE_BACKEND_CACHE_CAP \<le> length (fs_inode_backends s)
                      then [] else fs_inode_backends s)
      in s\<lparr>fs_inode_backends := AList.update ino \<lparr>ib_owner_uid = uid, ib_backend = backend\<rparr> backends\<rparr>)"

definition add_lookup_locked :: "nat \<Rightarrow> fuse_state \<Rightarrow> fuse_state" where
  "add_lookup_locked ino s =
     (if ino \<noteq> ROOT_INO
      then s\<lparr>fs_lookup_counts := bump (\<lambda>n. sat_add_u64 n 1) ino (fs_lookup_counts s)\<rparr> else s)"

section \<open>Model: the inode table\<close>

definition remove_unreferenced_inode :: "nat \<Rightarrow> fuse_state \<Rightarrow> fuse_state" where
  "remove_unreferenced_inode ino s =
     (if ino = ROOT_INO \<or> map_of (fs_lookup_counts s) ino \<noteq> None \<or> map_of (fs_dir_entry_refs s) ino \<noteq> None then s
      else (case map_of (fs_paths_by_inode s) ino of
          None \<Rightarrow> s
        | Some rel \<Rightarrow>
            s\<lparr>fs_paths_by_inode := AList.delete ino (fs_paths_by_inode s),
              fs_inodes := AList.delete (inode_key s rel) (fs_inodes s),
              fs_inode_path_versions := AList.delete ino (fs_inode_path_versions s),
              fs_inode_policy_uids := AList.delete ino (fs_inode_policy_uids s)\<rparr>))"

definition add_dir_entry_ref :: "dir_entry \<Rightarrow> fuse_state \<Rightarrow> fuse_state" where
  "add_dir_entry_ref entry s =
     (if de_ino entry = ROOT_INO then s
      else s\<lparr>fs_dir_entry_refs := bump (\<lambda>n. sat_add_u64 n 1) (de_ino entry) (fs_dir_entry_refs s)\<rparr>)"

definition add_dir_entry_refs :: "dir_entry list \<Rightarrow> fuse_state \<Rightarrow> fuse_state" where
  "add_dir_entry_refs es s = fold add_dir_entry_ref es s"

text \<open>A counter that reaches zero is removed; the subtraction saturates.\<close>

definition drop_count :: "nat \<Rightarrow> nat \<Rightarrow> (nat \<times> nat) list \<Rightarrow> (nat \<times> nat) list" where
  "drop_count ino n counts =
     (case map_of counts ino of
        None \<Rightarrow> counts
      | Some m \<Rightarrow> if m - n = 0 then AList.delete ino counts else AList.update ino (m - n) counts)"

definition remove_dir_entry_ref :: "dir_entry \<Rightarrow> fuse_state \<Rightarrow> fuse_state" where
  "remove_dir_entry_ref entry s =
     (if de_ino entry = ROOT_INO then s
      else remove_unreferenced_inode (de_ino entry)
             (s\<lparr>fs_dir_entry_refs := drop_count (de_ino entry) 1 (fs_dir_entry_refs s)\<rparr>))"

definition remove_dir_entry_refs :: "dir_entry list \<Rightarrow> fuse_state \<Rightarrow> fuse_state" where
  "remove_dir_entry_refs es s = fold remove_dir_entry_ref es s"

definition remove_lookup_locked :: "nat \<Rightarrow> nat \<Rightarrow> fuse_state \<Rightarrow> fuse_state" where
  "remove_lookup_locked ino n s =
     remove_unreferenced_inode ino (s\<lparr>fs_lookup_counts := drop_count ino n (fs_lookup_counts s)\<rparr>)"

definition remove_inode_path :: "bytes \<Rightarrow> fuse_state \<Rightarrow> fuse_state" where
  "remove_inode_path rel s =
     (let s = s\<lparr>fs_path_policy_uids := AList.delete rel (fs_path_policy_uids s)\<rparr>;
          key = inode_key s rel
      in case map_of (fs_inodes s) key of
           None \<Rightarrow> s
         | Some ino \<Rightarrow>
             s\<lparr>fs_inodes := AList.delete key (fs_inodes s),
               fs_paths_by_inode := AList.delete ino (fs_paths_by_inode s),
               fs_inode_path_versions := AList.delete ino (fs_inode_path_versions s),
               fs_inode_policy_uids := AList.delete ino (fs_inode_policy_uids s),
               fs_lookup_counts := AList.delete ino (fs_lookup_counts s),
               fs_dir_entry_refs := AList.delete ino (fs_dir_entry_refs s)\<rparr>)"

definition move_path_policy :: "bytes \<Rightarrow> bytes \<Rightarrow> fuse_state \<Rightarrow> fuse_state" where
  "move_path_policy old new s =
     (case map_of (fs_path_policy_uids s) old of
        None \<Rightarrow> s
      | Some uid \<Rightarrow> s\<lparr>fs_path_policy_uids := AList.update new uid (AList.delete old (fs_path_policy_uids s))\<rparr>)"

definition remap_descendant :: "bytes \<Rightarrow> bytes \<Rightarrow> bytes \<times> nat \<Rightarrow> fuse_state \<Rightarrow> fuse_state" where
  "remap_descendant old_rel new_rel moved s =
     (let (old_key, ino) = moved;
          s = s\<lparr>fs_inodes := AList.delete old_key (fs_inodes s)\<rparr>
      in case map_of (fs_paths_by_inode s) ino of
           None \<Rightarrow> s
         | Some old_path \<Rightarrow>
             (let suffix = drop (min (length old_rel) (length old_path)) old_path;
                  new_path = new_rel @ suffix;
                  s = s\<lparr>fs_inodes := AList.update (inode_key s new_path) ino (fs_inodes s)\<rparr>;
                  s = move_path_policy old_path new_path s
              in s\<lparr>fs_paths_by_inode := AList.update ino new_path (fs_paths_by_inode s),
                   fs_inode_path_versions := bump wrapping_inc_u64 ino (fs_inode_path_versions s)\<rparr>))"

definition remap_descendant_paths :: "bytes \<Rightarrow> bytes \<Rightarrow> fuse_state \<Rightarrow> fuse_state" where
  "remap_descendant_paths old_rel new_rel s =
     (let old_prefix = inode_key s old_rel @ ''/'';
          moved = filter (\<lambda>(key, _). starts_with_str key old_prefix) (fs_inodes s)
      in fold (remap_descendant old_rel new_rel) moved s)"

definition remap_inode_path :: "bytes \<Rightarrow> bytes \<Rightarrow> fuse_state \<Rightarrow> fuse_state" where
  "remap_inode_path old_rel new_rel s =
     (if old_rel = new_rel then s
      else if inode_key s old_rel = inode_key s new_rel then
        (let s = (case map_of (fs_inodes s) (inode_key s old_rel) of
                    None \<Rightarrow> s
                  | Some ino \<Rightarrow> s\<lparr>fs_paths_by_inode := AList.update ino new_rel (fs_paths_by_inode s),
                      fs_inode_path_versions := bump wrapping_inc_u64 ino (fs_inode_path_versions s)\<rparr>)
         in remap_descendant_paths old_rel new_rel (move_path_policy old_rel new_rel s))
      else
        (let s = move_path_policy old_rel new_rel (remove_inode_path new_rel s);
             s = (case map_of (fs_inodes s) (inode_key s old_rel) of
                    None \<Rightarrow> s
                  | Some ino \<Rightarrow> s\<lparr>fs_inodes := AList.update (inode_key s new_rel) ino
                        (AList.delete (inode_key s old_rel) (fs_inodes s)),
                      fs_paths_by_inode := AList.update ino new_rel (fs_paths_by_inode s),
                      fs_inode_path_versions := bump wrapping_inc_u64 ino (fs_inode_path_versions s)\<rparr>)
         in remap_descendant_paths old_rel new_rel s))"

section \<open>Model: names, paths and resolved back ends\<close>

text \<open>
  \<^verbatim>\<open>String::from_utf8_lossy\<close>: a well-formed sequence is kept, and each maximal prefix of one that cannot be
  completed becomes U+FFFD. \<open>utf8_step\<close> reads one of them: whether it is well formed, and its length.
\<close>

definition byte_in :: "nat \<Rightarrow> nat \<Rightarrow> bytes \<Rightarrow> nat \<Rightarrow> bool" where
  "byte_in lo hi s i \<longleftrightarrow> i < length s \<and> lo \<le> of_char (s ! i) \<and> of_char (s ! i) \<le> hi"

definition second_byte_ok :: "nat \<Rightarrow> bytes \<Rightarrow> bool" where
  "second_byte_ok b s =
     (if b = 0xE0 then byte_in 0xA0 0xBF s 1 else if b = 0xED then byte_in 0x80 0x9F s 1
      else if b = 0xF0 then byte_in 0x90 0xBF s 1 else if b = 0xF4 then byte_in 0x80 0x8F s 1
      else byte_in 0x80 0xBF s 1)"

definition utf8_step :: "bytes \<Rightarrow> bool \<times> nat" where
  "utf8_step s =
     (let b = (of_char (hd s) :: nat)
      in if b < 0x80 then (True, 1)
         else if b < 0xC2 \<or> 0xF4 < b \<or> \<not> second_byte_ok b s then (False, 1)
         else if b < 0xE0 then (True, 2)
         else if \<not> byte_in 0x80 0xBF s 2 then (False, 2)
         else if b < 0xF0 then (True, 3)
         else if \<not> byte_in 0x80 0xBF s 3 then (False, 3) else (True, 4))"

definition replacement_char :: bytes where
  "replacement_char = [CHR 0xEF, CHR 0xBF, CHR 0xBD]"

function from_utf8_lossy :: "bytes \<Rightarrow> bytes" where
  "from_utf8_lossy s =
     (if s = [] then []
      else let (ok, n) = utf8_step s
        in (if ok then take n s else replacement_char) @ from_utf8_lossy (drop n s))"
  by pat_completeness auto
termination
  by (relation "measure length") (auto simp: utf8_step_def Let_def split: if_splits)

declare from_utf8_lossy.simps [simp del]

definition child_rel :: "bytes \<Rightarrow> bytes \<Rightarrow> errno + bytes" where
  "child_rel parent_rel name =
     (if name = [] \<or> contains_char name (CHR 0x00) \<or> name = ''.'' \<or> name = ''..'' \<or> contains_char name slash
      then Inl EINVAL
      else let name_text = from_utf8_lossy name
        in Inr (if parent_rel = [] then name_text else path_join parent_rel name_text))"

definition path_for_ino :: "nat \<Rightarrow> fuse_state \<Rightarrow> bytes option" where
  "path_for_ino ino s = map_of (fs_paths_by_inode s) ino"

section \<open>Model: directory listings\<close>

text \<open>The sizes of the two structures are constants of the compiled program.\<close>

definition estimate_cached_dir_candidates_bytes ::
  "nat \<Rightarrow> nat \<Rightarrow> bytes \<Rightarrow> dir_candidate list \<Rightarrow> source_signature list \<Rightarrow> nat" where
  "estimate_cached_dir_candidates_bytes candidate_size signature_size rel candidates sources =
     sat_add_u64 (sat_add_u64 (sat_add_u64 (length rel)
       (foldl (\<lambda>total c. sat_add_u64 (sat_add_u64 (sat_add_u64 total (length (dc_rel c))) (length (dc_name c))) candidate_size)
         0 candidates))
       (foldl (\<lambda>total c. sat_add_u64 (sat_add_u64 total (length (ss_path c))) signature_size) 0 sources))
       (INITIAL_DIR_CANDIDATE_CACHE_BYTES div 64)"

definition forget_cached :: "bytes \<Rightarrow> fuse_state \<Rightarrow> fuse_state" where
  "forget_cached rel s =
     (case map_of (fs_dir_cache s) rel of
        None \<Rightarrow> s
      | Some previous \<Rightarrow> s\<lparr>fs_dir_cache := AList.delete rel (fs_dir_cache s),
          fs_dir_cache_bytes := fs_dir_cache_bytes s - cc_estimated_bytes previous\<rparr>)"

definition cache_full :: "nat \<Rightarrow> fuse_state \<Rightarrow> bool" where
  "cache_full estimated s \<longleftrightarrow> fs_dir_cache s \<noteq> []
     \<and> (fs_dir_cache_capacity s \<le> length (fs_dir_cache s)
        \<or> fs_dir_cache_byte_budget s < sat_add_u64 (fs_dir_cache_bytes s) estimated)"

function evict_cached :: "nat \<Rightarrow> fuse_state \<Rightarrow> fuse_state" where
  "evict_cached estimated s =
     (if cache_full estimated s then evict_cached estimated (forget_cached (fst (hd (fs_dir_cache s))) s) else s)"
  by pat_completeness auto
termination
proof (relation "measure (\<lambda>(_, s). length (fs_dir_cache s))")
  fix estimated and s :: fuse_state
  assume "cache_full estimated s"
  then obtain k v rest where "fs_dir_cache s = (k, v) # rest"
    by (cases "fs_dir_cache s") (auto simp: cache_full_def)
  then show "((estimated, forget_cached (fst (hd (fs_dir_cache s))) s), estimated, s)
      \<in> measure (\<lambda>(_, s). length (fs_dir_cache s))"
    by (simp add: forget_cached_def AList.delete_eq le_imp_less_Suc)
qed simp

declare evict_cached.simps [simp del]

definition grow_dir_cache :: "fuse_state \<Rightarrow> fuse_state" where
  "grow_dir_cache s =
     (if fs_dir_cache_capacity s \<le> length (fs_dir_cache s) \<and> fs_dir_cache_capacity s < fs_dir_cache_max_capacity s
      then s\<lparr>fs_dir_cache_capacity := min (min (fs_dir_cache_capacity s * 2) U64_MAX) (fs_dir_cache_max_capacity s)\<rparr>
      else s)"

text \<open>A listing that was collected is put into the cache, unless it is larger than the whole budget.\<close>

definition store_dir_candidates ::
  "int \<Rightarrow> nat \<Rightarrow> bytes \<Rightarrow> dir_candidate list \<Rightarrow> source_signature list \<Rightarrow> fuse_state \<Rightarrow> fuse_state" where
  "store_dir_candidates now estimated rel candidates sources s =
     (let s = forget_cached rel s
      in if estimated \<le> fs_dir_cache_byte_budget s then
           (let s = evict_cached estimated (grow_dir_cache s)
            in s\<lparr>fs_dir_cache_bytes := sat_add_u64 (fs_dir_cache_bytes s) estimated,
                 fs_dir_cache := AList.update rel \<lparr>cc_created_at = now, cc_estimated_bytes = estimated,
                   cc_candidates = candidates, cc_sources = sources\<rparr> (fs_dir_cache s)\<rparr>)
         else s)"

text \<open>The entries of a directory get their numbers: the directory, its parent, then the candidates.\<close>

definition materialize_candidate :: "dir_candidate \<Rightarrow> dir_entry list \<times> fuse_state \<Rightarrow> dir_entry list \<times> fuse_state" where
  "materialize_candidate c acc =
     (let (ino, s) = ino_for_path_locked (dc_rel c) (snd acc)
      in (fst acc @ [\<lparr>de_ino = ino, de_kind = dc_kind c, de_name = dc_name c, de_rel = dc_rel c\<rparr>], s))"

definition materialize_dir_entries ::
  "nat \<Rightarrow> bytes \<Rightarrow> dir_candidate list \<Rightarrow> fuse_state \<Rightarrow> dir_entry list \<times> fuse_state" where
  "materialize_dir_entries ino rel candidates s =
     (let parent_rel = Paths_Normalize.parent rel;
          parent_ino = (if rel = [] then ROOT_INO
            else case map_of (fs_inodes s) (inode_key s parent_rel) of None \<Rightarrow> ROOT_INO | Some i \<Rightarrow> i);
          dots = [\<lparr>de_ino = ino, de_kind = Directory, de_name = ''.'', de_rel = rel\<rparr>,
                  \<lparr>de_ino = parent_ino, de_kind = Directory, de_name = ''..'', de_rel = parent_rel\<rparr>]
      in fold materialize_candidate candidates (dots, s))"

text \<open>The locked part of \<^verbatim>\<open>opendir\<close>: number the entries, count the references, keep the listing.\<close>

definition open_dir_handle :: "nat \<Rightarrow> bytes \<Rightarrow> dir_candidate list \<Rightarrow> fuse_state \<Rightarrow> nat \<times> fuse_state" where
  "open_dir_handle ino rel candidates s =
     (let (fh, s) = next_handle s;
          (es, s) = materialize_dir_entries ino rel candidates s;
          s = add_dir_entry_refs es s
      in (fh, s\<lparr>fs_dirs := AList.update fh es (fs_dirs s)\<rparr>))"

definition release_dir :: "nat \<Rightarrow> fuse_state \<Rightarrow> fuse_state" where
  "release_dir fh s =
     (case map_of (fs_dirs s) fh of
        None \<Rightarrow> s
      | Some es \<Rightarrow> remove_dir_entry_refs es (s\<lparr>fs_dirs := AList.delete fh (fs_dirs s)\<rparr>))"

definition open_file_handle :: "open_file \<Rightarrow> fuse_state \<Rightarrow> nat \<times> fuse_state" where
  "open_file_handle f s =
     (let (fh, s) = next_handle s in (fh, s\<lparr>fs_files := AList.update fh f (fs_files s)\<rparr>))"

definition release_file :: "nat \<Rightarrow> fuse_state \<Rightarrow> fuse_state" where
  "release_file fh s = s\<lparr>fs_files := AList.delete fh (fs_files s)\<rparr>"

text \<open>The table part of \<^verbatim>\<open>lookup\<close> and of the operations that create an entry.\<close>

definition enter_inode :: "bytes \<Rightarrow> nat \<Rightarrow> fuse_state \<Rightarrow> nat \<times> fuse_state" where
  "enter_inode rel uid s =
     (let (ino, s) = ino_for_path_locked rel s
      in (ino, add_lookup_locked ino (remember_policy_for_inode_locked ino rel uid s)))"

definition enter_inode_with_backend :: "bytes \<Rightarrow> nat \<Rightarrow> backend_path \<Rightarrow> fuse_state \<Rightarrow> nat \<times> fuse_state" where
  "enter_inode_with_backend rel uid backend s =
     (let (ino, s) = ino_for_path_locked rel s;
          s = remember_policy_for_inode_locked ino rel uid s;
          s = remember_backend_for_inode_locked ino uid backend s
      in (ino, add_lookup_locked ino s))"

definition forget_inode :: "nat \<Rightarrow> nat \<Rightarrow> fuse_state \<Rightarrow> fuse_state" where
  "forget_inode ino nlookup s = (if ino = ROOT_INO then s else remove_lookup_locked ino nlookup s)"

end
