(* ===== verification/Fuse_Capability.thy ===== *)
theory Fuse_Capability
  imports Writer
begin

text \<open>
  The decision whether a scoped FUSE mount is tried at all: the capability snapshot of
  \<^verbatim>\<open>src/fuse_redirect/config.rs\<close>. The snapshot is a small text file shared by the daemon and the session
  processes; it counts failures per application and per device, and closes the gate for a while after
  too many. \<^verbatim>\<open>cap_step\<close> is the state machine over the file. The outcome of the atomic replacement of the
  file, the boot id, the clock and the probes of the device node are inputs; the counters are unsigned
  and saturate as in the code.
\<close>

section \<open>Model: the snapshot\<close>

datatype fuse_capability = CapUnknown | CapAvailable | CapUnavailable

definition SCOPED_MOUNT_FAILURE_BUDGET :: nat where
  "SCOPED_MOUNT_FAILURE_BUDGET = 3"

definition DEVICE_UNAVAILABLE_MIN_SCOPES :: nat where
  "DEVICE_UNAVAILABLE_MIN_SCOPES = 2"

definition SCOPE_RETRY_WINDOW_MS :: nat where
  "SCOPE_RETRY_WINDOW_MS = 60000"

definition RETRY_BACKOFF_BASE_MS :: nat where
  "RETRY_BACKOFF_BASE_MS = 30000"

definition RETRY_BACKOFF_MAX_MS :: nat where
  "RETRY_BACKOFF_MAX_MS = 60000"

definition MAX_TRACKED_SCOPES :: nat where
  "MAX_TRACKED_SCOPES = 64"

record capability_snapshot =
  cs_present :: bool
  cs_capability :: fuse_capability
  cs_device_failures :: nat
  cs_last_failed_scope :: bytes
  cs_scope_failures :: "(bytes \<times> nat \<times> nat) list"
  cs_retry_at_ms :: nat
  cs_backoff_step :: nat
  cs_teardown_failures :: nat

definition capability_snapshot_default :: capability_snapshot where
  "capability_snapshot_default =
     \<lparr>cs_present = False, cs_capability = CapUnknown, cs_device_failures = 0, cs_last_failed_scope = [],
      cs_scope_failures = [], cs_retry_at_ms = 0, cs_backoff_step = 0, cs_teardown_failures = 0\<rparr>"

definition scope_failures_for :: "capability_snapshot \<Rightarrow> bytes \<Rightarrow> nat" where
  "scope_failures_for snapshot scope =
     (case map_of (cs_scope_failures snapshot) scope of Some (fails, _) \<Rightarrow> fails | None \<Rightarrow> 0)"

definition scope_last_failure_ms :: "capability_snapshot \<Rightarrow> bytes \<Rightarrow> nat" where
  "scope_last_failure_ms snapshot scope =
     (case map_of (cs_scope_failures snapshot) scope of Some (_, last_ms) \<Rightarrow> last_ms | None \<Rightarrow> 0)"

definition clear_scope_failure :: "bytes \<Rightarrow> capability_snapshot \<Rightarrow> capability_snapshot" where
  "clear_scope_failure scope snapshot =
     snapshot\<lparr>cs_scope_failures := filter (\<lambda>(name, _). name \<noteq> scope) (cs_scope_failures snapshot)\<rparr>"

definition bump_scope_failure :: "nat \<Rightarrow> bytes \<Rightarrow> capability_snapshot \<Rightarrow> capability_snapshot" where
  "bump_scope_failure now_ms scope snapshot =
     (let fails = sat_inc_u32 (scope_failures_for snapshot scope)
      in snapshot\<lparr>cs_scope_failures := take MAX_TRACKED_SCOPES
           ((scope, fails, now_ms) # filter (\<lambda>(name, _). name \<noteq> scope) (cs_scope_failures snapshot))\<rparr>)"

definition snapshot_scope_budget_exhausted :: "nat \<Rightarrow> capability_snapshot \<Rightarrow> bytes \<Rightarrow> bool" where
  "snapshot_scope_budget_exhausted now_ms snapshot scope =
     (if scope_failures_for snapshot scope < SCOPED_MOUNT_FAILURE_BUDGET then False
      else let last_ms = scope_last_failure_ms snapshot scope
        in if last_ms = 0 then False else now_ms - last_ms < SCOPE_RETRY_WINDOW_MS)"

definition retry_window_open :: "capability_snapshot \<Rightarrow> nat \<Rightarrow> bool" where
  "retry_window_open snapshot now_ms \<longleftrightarrow> cs_retry_at_ms snapshot = 0 \<or> cs_retry_at_ms snapshot \<le> now_ms"

definition retry_backoff_ms :: "nat \<Rightarrow> nat" where
  "retry_backoff_ms step = min (RETRY_BACKOFF_BASE_MS * 2 ^ min (step - 1) 5) RETRY_BACKOFF_MAX_MS"

section \<open>Model: the file\<close>

text \<open>\<^verbatim>\<open>str::parse\<close> of an unsigned integer of the given width.\<close>

definition parse_unsigned :: "nat \<Rightarrow> bytes \<Rightarrow> nat option" where
  "parse_unsigned width s =
     (case parse_digits (case s of c # cs \<Rightarrow> if c = CHR ''+'' then cs else s | [] \<Rightarrow> []) of
        None \<Rightarrow> None
      | Some n \<Rightarrow> if n < 2 ^ width then Some n else None)"

fun find_map :: "('a \<Rightarrow> 'b option) \<Rightarrow> 'a list \<Rightarrow> 'b option" where
  "find_map f [] = None"
| "find_map f (x # xs) = (case f x of Some y \<Rightarrow> Some y | None \<Rightarrow> find_map f xs)"

definition snapshot_field :: "bytes \<Rightarrow> bytes \<Rightarrow> bytes option" where
  "snapshot_field content key =
     map_option trim (find_map (\<lambda>line. strip_prefix line (key @ ''='')) (rust_lines content))"

definition parse_scope_entry :: "bytes \<Rightarrow> (bytes \<times> nat \<times> nat) option" where
  "parse_scope_entry line =
     (case strip_prefix line ''scope_fail='' of
        None \<Rightarrow> None
      | Some value \<Rightarrow>
          (case split_char (CHR '':'') (trim value) of
             name # fails # rest \<Rightarrow>
               (case parse_unsigned 32 fails of
                  None \<Rightarrow> None
                | Some c \<Rightarrow>
                    (let last_ms = (case rest of
                           [] \<Rightarrow> 0
                         | v # _ \<Rightarrow> (case parse_unsigned 64 v of Some n \<Rightarrow> n | None \<Rightarrow> 0))
                     in if name = [] then None else Some (name, c, last_ms)))
           | _ \<Rightarrow> None))"

definition parse_scope_failures :: "bytes \<Rightarrow> (bytes \<times> nat \<times> nat) list" where
  "parse_scope_failures content = List.map_filter parse_scope_entry (rust_lines content)"

text \<open>What the code reads of its surroundings.\<close>

record capability_env =
  ce_boot_id :: "bytes option"
  ce_monotonic_ms :: int
  ce_device_present :: bool
  ce_device_opens :: bool
  ce_write_ok :: bool

definition ce_now :: "capability_env \<Rightarrow> nat" where
  "ce_now env = nat (max 0 (ce_monotonic_ms env))"

definition unsigned_field :: "nat \<Rightarrow> bytes option \<Rightarrow> nat" where
  "unsigned_field width value =
     (case value of None \<Rightarrow> 0 | Some v \<Rightarrow> (case parse_unsigned width v of Some n \<Rightarrow> n | None \<Rightarrow> 0))"

definition read_fuse_capability_snapshot :: "capability_env \<Rightarrow> bytes option \<Rightarrow> capability_snapshot option" where
  "read_fuse_capability_snapshot env file =
     (case file of
        None \<Rightarrow> None
      | Some content \<Rightarrow>
          if map_option trim (ce_boot_id env) \<noteq> snapshot_field content ''boot_id'' then None
          else Some
            \<lparr>cs_present = True,
             cs_capability =
               (if snapshot_field content ''state'' = Some ''available'' then CapAvailable
                else if snapshot_field content ''state'' = Some ''unavailable'' then CapUnavailable
                else CapUnknown),
             cs_device_failures =
               unsigned_field 32 (case snapshot_field content ''fail_count'' of
                   Some v \<Rightarrow> Some v | None \<Rightarrow> snapshot_field content ''device_fail_count''),
             cs_last_failed_scope =
               (case snapshot_field content ''last_failed_scope'' of Some v \<Rightarrow> v | None \<Rightarrow> []),
             cs_scope_failures = take MAX_TRACKED_SCOPES (parse_scope_failures content),
             cs_retry_at_ms = unsigned_field 64 (snapshot_field content ''retry_at_ms''),
             cs_backoff_step = unsigned_field 32 (snapshot_field content ''backoff_step''),
             cs_teardown_failures = unsigned_field 32 (snapshot_field content ''teardown_fail_count'')\<rparr>)"

definition load_fuse_capability_snapshot :: "capability_env \<Rightarrow> bytes option \<Rightarrow> capability_snapshot" where
  "load_fuse_capability_snapshot env file =
     (case read_fuse_capability_snapshot env file of Some s \<Rightarrow> s | None \<Rightarrow> capability_snapshot_default)"

fun fuse_capability_as_str :: "fuse_capability \<Rightarrow> bytes" where
  "fuse_capability_as_str CapUnknown = ''unknown''"
| "fuse_capability_as_str CapAvailable = ''available''"
| "fuse_capability_as_str CapUnavailable = ''unavailable''"

definition scope_line :: "bytes \<times> nat \<times> nat \<Rightarrow> bytes" where
  "scope_line entry =
     (case entry of (scope, fails, last_ms) \<Rightarrow>
        ''scope_fail='' @ scope @ '':'' @ show_nat fails @ '':'' @ show_nat last_ms)"

definition snapshot_lines :: "bytes \<Rightarrow> bytes \<Rightarrow> capability_snapshot \<Rightarrow> bytes list" where
  "snapshot_lines boot_id reason snapshot =
     [''schema=3'', ''boot_id='' @ boot_id, ''state='' @ fuse_capability_as_str (cs_capability snapshot),
      ''reason='' @ reason, ''device_fail_count='' @ show_nat (cs_device_failures snapshot),
      ''last_failed_scope='' @ cs_last_failed_scope snapshot,
      ''retry_at_ms='' @ show_nat (cs_retry_at_ms snapshot),
      ''backoff_step='' @ show_nat (cs_backoff_step snapshot),
      ''teardown_fail_count='' @ show_nat (cs_teardown_failures snapshot)]
     @ map scope_line (cs_scope_failures snapshot)"

definition write_fuse_capability_snapshot ::
  "capability_env \<Rightarrow> capability_snapshot \<Rightarrow> bytes \<Rightarrow> bytes option \<Rightarrow> fuse_capability \<times> bytes option" where
  "write_fuse_capability_snapshot env snapshot reason file =
     (let boot_id = (case ce_boot_id env of Some value \<Rightarrow> trim value | None \<Rightarrow> []);
          content = concat (map (\<lambda>line. line @ [CHR 0x0A]) (snapshot_lines boot_id reason snapshot))
      in (cs_capability snapshot, if ce_write_ok env then Some content else file))"

section \<open>Model: operations\<close>

definition fuse_first_capability_available :: "capability_env \<Rightarrow> bool" where
  "fuse_first_capability_available env \<longleftrightarrow> ce_device_present env \<and> ce_device_opens env"

definition fuse_capability :: "capability_env \<Rightarrow> bytes option \<Rightarrow> fuse_capability" where
  "fuse_capability env file = cs_capability (load_fuse_capability_snapshot env file)"

definition scoped_mount_allowed_for_scope ::
  "capability_env \<Rightarrow> bytes option \<Rightarrow> bytes \<Rightarrow> storage_backend_mode \<Rightarrow> bool" where
  "scoped_mount_allowed_for_scope env file scope mode =
     (case mode of
        Namespace \<Rightarrow> False
      | Fuse \<Rightarrow> fuse_first_capability_available env
      | Auto \<Rightarrow>
          (let snapshot = load_fuse_capability_snapshot env file
           in if snapshot_scope_budget_exhausted (ce_now env) snapshot scope then False
              else (case cs_capability snapshot of
                  CapAvailable \<Rightarrow> True
                | CapUnknown \<Rightarrow> cs_present snapshot \<or> ce_device_present env
                | CapUnavailable \<Rightarrow> retry_window_open snapshot (ce_now env))))"

definition refresh_fuse_capability_snapshot ::
  "capability_env \<Rightarrow> bytes \<Rightarrow> bytes option \<Rightarrow> fuse_capability \<times> bytes option" where
  "refresh_fuse_capability_snapshot env reason file =
     write_fuse_capability_snapshot env
       (capability_snapshot_default\<lparr>cs_capability :=
          (if fuse_first_capability_available env then CapUnknown else CapUnavailable)\<rparr>) reason file"

definition record_success :: "bytes \<Rightarrow> capability_snapshot \<Rightarrow> capability_snapshot" where
  "record_success scope snapshot =
     (clear_scope_failure scope
       (snapshot\<lparr>cs_capability := CapAvailable, cs_device_failures := 0, cs_last_failed_scope := []\<rparr>))
       \<lparr>cs_retry_at_ms := 0, cs_backoff_step := 0\<rparr>"

definition record_failure :: "nat \<Rightarrow> bytes \<Rightarrow> capability_snapshot \<Rightarrow> capability_snapshot" where
  "record_failure now_ms scope snapshot =
     (let snapshot = (if cs_last_failed_scope snapshot \<noteq> scope
            then snapshot\<lparr>cs_device_failures := sat_inc_u32 (cs_device_failures snapshot)\<rparr> else snapshot);
          snapshot = bump_scope_failure now_ms scope (snapshot\<lparr>cs_last_failed_scope := scope\<rparr>)
      in if DEVICE_UNAVAILABLE_MIN_SCOPES \<le> cs_device_failures snapshot
         then (let step = sat_inc_u32 (cs_backoff_step snapshot)
               in snapshot\<lparr>cs_capability := CapUnavailable, cs_backoff_step := step,
                    cs_retry_at_ms := sat_add_u64 now_ms (retry_backoff_ms step)\<rparr>)
         else snapshot\<lparr>cs_capability := CapUnknown, cs_retry_at_ms := 0\<rparr>)"

definition record_fuse_capability_result ::
  "capability_env \<Rightarrow> bool \<Rightarrow> bytes \<Rightarrow> bytes \<Rightarrow> bytes option \<Rightarrow> fuse_capability \<times> bytes option" where
  "record_fuse_capability_result env available reason scope file =
     (let snapshot = load_fuse_capability_snapshot env file
      in write_fuse_capability_snapshot env
           (if available then record_success scope snapshot else record_failure (ce_now env) scope snapshot)
           reason file)"

definition record_fuse_teardown_failure :: "capability_env \<Rightarrow> bytes \<Rightarrow> bytes option \<Rightarrow> bytes option" where
  "record_fuse_teardown_failure env reason file =
     (let snapshot = load_fuse_capability_snapshot env file
      in snd (write_fuse_capability_snapshot env
           (snapshot\<lparr>cs_teardown_failures := sat_inc_u32 (cs_teardown_failures snapshot)\<rparr>) reason file))"

text \<open>The view of the capability the rule lists of \<^verbatim>\<open>Writer\<close> and \<^verbatim>\<open>Router\<close> are built for.\<close>

definition capability_fuse_view :: "capability_env \<Rightarrow> bytes option \<Rightarrow> fuse_view" where
  "capability_fuse_view env file =
     \<lparr>fuse_available = (fuse_capability env file = CapAvailable),
      scope_budget_exhausted =
        snapshot_scope_budget_exhausted (ce_now env) (load_fuse_capability_snapshot env file)\<rparr>"

definition expand_namespace_fallback_rules :: "i32 \<Rightarrow> bytes list \<Rightarrow> bytes list" where
  "expand_namespace_fallback_rules uid rules =
     (let storage_root = storage_user_root_for_user (user_id_from_uid uid)
      in sort_dedup_paths_case_insensitive
           (List.map_filter (\<lambda>rule.
              (let trimmed = trim rule
               in if trimmed = [] then None
                  else (let (excluded, body) = (case strip_prefix trimmed ''!'' of
                            Some stripped \<Rightarrow> (True, trim_start stripped) | None \<Rightarrow> (False, trimmed));
                          resolved = (if \<not> excluded \<and> contains_wildcards body
                            then (case wildcard_policy_fallback_parent body storage_root of
                                Some fallback \<Rightarrow> fallback | None \<Rightarrow> body)
                            else body)
                        in Some (if excluded then ''!'' @ resolved else resolved)))) rules))"

section \<open>Reading back what was written\<close>

text \<open>Printable text, and names without the separator of the file.\<close>

definition printable :: "bytes \<Rightarrow> bool" where
  "printable s \<longleftrightarrow> list_all (\<lambda>c. 33 \<le> (of_char c :: nat) \<and> (of_char c :: nat) \<le> 126) s"

definition scope_name :: "bytes \<Rightarrow> bool" where
  "scope_name s \<longleftrightarrow> s \<noteq> [] \<and> printable s \<and> CHR '':'' \<notin> set s"

lemma printable_simps [simp]:
  "printable []" "printable (c # s) \<longleftrightarrow> 33 \<le> (of_char c :: nat) \<and> (of_char c :: nat) \<le> 126 \<and> printable s"
  "printable (s @ t) \<longleftrightarrow> printable s \<and> printable t"
  by (auto simp: printable_def)

lemma is_ascii_code: "is_ascii c \<longleftrightarrow> (of_char c :: nat) < 128"
  by (cases c) (auto split: if_splits)

lemma printable_not_whitespace: "printable [c] \<Longrightarrow> \<not> is_whitespace [c]"
  by (auto simp: is_whitespace_def unicode_whitespace_def)

lemma dropWhile_all_false: "(\<And>x. x \<in> set xs \<Longrightarrow> \<not> P x) \<Longrightarrow> dropWhile P xs = xs"
  by (cases xs) auto

lemma trim_printable: "printable s \<Longrightarrow> trim s = s"
proof -
  assume "printable s"
  then have "list_all is_ascii s" by (auto simp: printable_def list_all_iff is_ascii_code)
  then have chars: "utf8_chars s = map (\<lambda>c. [c]) s" by (rule utf8_chars_ascii)
  have "\<not> is_whitespace x" if "x \<in> set (map (\<lambda>c. [c]) s)" for x
    using that \<open>printable s\<close> by (auto simp: printable_def list_all_iff intro!: printable_not_whitespace)
  then have "dropWhile is_whitespace (map (\<lambda>c. [c]) s) = map (\<lambda>c. [c]) s"
    "dropWhile is_whitespace (rev (map (\<lambda>c. [c]) s)) = rev (map (\<lambda>c. [c]) s)"
    by (auto intro!: dropWhile_all_false)
  then show ?thesis by (simp add: trim_def trim_start_def trim_end_def chars)
qed

lemma printable_show_nat: "printable (show_nat n)"
  using show_nat_digits [of n] by (auto simp: printable_def is_ascii_digit_def list_all_iff)

lemma trim_show_nat [simp]: "trim (show_nat n) = show_nat n"
  by (rule trim_printable [OF printable_show_nat])

lemma show_nat_no_colon: "CHR '':'' \<notin> set (show_nat n)"
  using show_nat_digits [of n] by (auto simp: is_ascii_digit_def list_all_iff)

lemma parse_unsigned_show: "n < 2 ^ width \<Longrightarrow> parse_unsigned width (show_nat n) = Some n"
proof -
  assume "n < 2 ^ width"
  obtain c cs where s: "show_nat n = c # cs" using show_nat_nonempty by (cases "show_nat n") auto
  have "is_ascii_digit c" using show_nat_digits [of n] s by simp
  then have "c \<noteq> CHR ''+''" by (auto dest: digit_not_sign)
  then show ?thesis using \<open>n < 2 ^ width\<close> parse_digits_show_nat [of n] by (simp add: parse_unsigned_def s)
qed

lemma rust_lines_concat:
  assumes "\<And>l. l \<in> set ls \<Longrightarrow> CHR 0x0A \<notin> set l \<and> CHR 0x0D \<notin> set l"
  shows "rust_lines (concat (map (\<lambda>l. l @ [CHR 0x0A]) ls)) = ls"
proof -
  have "split_char (CHR 0x0A) (concat (map (\<lambda>l. l @ [CHR 0x0A]) ls)) = ls @ [[]]"
    using assms by (induction ls) (auto simp: split_char_append_sep split_char_no_sep)
  moreover have "map (\<lambda>l. case strip_suffix l [CHR 0x0D] of Some l' \<Rightarrow> l' | None \<Rightarrow> l) ls = ls"
    using assms by (intro map_idI) (auto simp: strip_suffix_def ends_with_single split: option.split, metis last_in_set)
  ultimately show ?thesis by (simp add: rust_lines_def)
qed

lemma parse_scope_entry_show:
  assumes "scope_name n" and "c < 2 ^ 32" and "l < 2 ^ 64"
  shows "parse_scope_entry (scope_line (n, c, l)) = Some (n, c, l)"
proof -
  let ?v = "n @ '':'' @ show_nat c @ '':'' @ show_nat l"
  have "printable ?v" using assms(1) by (simp add: scope_name_def printable_show_nat)
  then have "trim ?v = ?v" by (rule trim_printable)
  moreover have "split_char (CHR '':'') ?v = [n, show_nat c, show_nat l]"
    using assms(1) show_nat_no_colon
    by (simp add: split_char_append_sep split_char_no_sep scope_name_def)
  moreover have "strip_prefix (''scope_fail='' @ ?v) ''scope_fail='' = Some ?v" by (rule strip_prefix_append)
  ultimately show ?thesis
    using assms by (simp add: parse_scope_entry_def scope_line_def parse_unsigned_show scope_name_def)
qed

text \<open>A snapshot the file can hold, up to a time \<open>t\<close>.\<close>

definition snapshot_ok :: "nat \<Rightarrow> capability_snapshot \<Rightarrow> bool" where
  "snapshot_ok t s \<longleftrightarrow> cs_device_failures s < 2 ^ 32 \<and> cs_backoff_step s < 2 ^ 32 \<and> cs_teardown_failures s < 2 ^ 32
     \<and> (cs_last_failed_scope s = [] \<or> scope_name (cs_last_failed_scope s))
     \<and> cs_retry_at_ms s < 2 ^ 64 \<and> cs_retry_at_ms s \<le> t + RETRY_BACKOFF_MAX_MS
     \<and> length (cs_scope_failures s) \<le> MAX_TRACKED_SCOPES \<and> distinct (keys_of (cs_scope_failures s))
     \<and> (\<forall>(name, n, last_ms) \<in> set (cs_scope_failures s).
          scope_name name \<and> n < 2 ^ 32 \<and> last_ms < 2 ^ 64 \<and> last_ms \<le> t)"

definition line_ok :: "bytes \<Rightarrow> bool" where
  "line_ok s \<longleftrightarrow> CHR 0x0A \<notin> set s \<and> CHR 0x0D \<notin> set s"

lemma line_ok_simps [simp]:
  "line_ok (a @ b) \<longleftrightarrow> line_ok a \<and> line_ok b" "line_ok []"
  "line_ok (c # b) \<longleftrightarrow> c \<noteq> CHR 0x0A \<and> c \<noteq> CHR 0x0D \<and> line_ok b"
  by (auto simp: line_ok_def)

lemma printable_line_ok: "printable s \<Longrightarrow> line_ok s"
  by (auto simp: line_ok_def printable_def list_all_iff)

lemma snapshot_lines_ok:
  assumes "snapshot_ok t s" and "line_ok reason" and "printable boot" and "l \<in> set (snapshot_lines boot reason s)"
  shows "line_ok l"
proof -
  have "line_ok (cs_last_failed_scope s)" using assms(1)
    by (auto simp: snapshot_ok_def scope_name_def intro: printable_line_ok)
  moreover have "line_ok (fuse_capability_as_str c)" for c by (cases c) simp_all
  moreover have "line_ok n" if "(n, c, m) \<in> set (cs_scope_failures s)" for n c m
    using assms(1) that by (auto simp: snapshot_ok_def scope_name_def intro: printable_line_ok)
  ultimately show ?thesis
    using assms(2-4) by (auto simp: snapshot_lines_def scope_line_def printable_line_ok printable_show_nat)
qed

lemma find_map_skip: "(\<And>x. x \<in> set xs \<Longrightarrow> f x = None) \<Longrightarrow> find_map f xs = None"
  by (induction xs) auto

lemma find_map_append: "find_map f (xs @ ys) = (case find_map f xs of Some y \<Rightarrow> Some y | None \<Rightarrow> find_map f ys)"
  by (induction xs) (auto split: option.split)

lemma scope_lines_no_field:
  "find_map (\<lambda>line. strip_prefix line ''fail_count='') (map scope_line es) = None"
  by (rule find_map_skip) (auto simp: strip_prefix_def scope_line_def)

lemma map_filter_scope_lines:
  "(\<And>n c m. (n, c, m) \<in> set es \<Longrightarrow> scope_name n \<and> c < 2 ^ 32 \<and> m < 2 ^ 64) \<Longrightarrow>
   List.map_filter parse_scope_entry (map scope_line es) = es"
proof (induction es)
  case (Cons e es)
  obtain n c m where e: "e = (n, c, m)" by (cases e)
  then have "parse_scope_entry (scope_line e) = Some e"
    using Cons.prems [of n c m] parse_scope_entry_show by simp
  moreover have "List.map_filter parse_scope_entry (map scope_line es) = es"
    by (rule Cons.IH, rule Cons.prems) simp
  ultimately show ?case by (simp add: map_filter_simps)
qed (simp add: map_filter_simps)

lemma read_back:
  assumes "snapshot_ok t s" and "line_ok reason" and "ce_boot_id env' = Some boot" and "printable (trim boot)"
    and "ce_boot_id env = Some boot" and "ce_write_ok env"
  shows "read_fuse_capability_snapshot env' (snd (write_fuse_capability_snapshot env s reason file))
    = Some (s\<lparr>cs_present := True\<rparr>)"
proof -
  let ?lines = "snapshot_lines (trim boot) reason s"
  let ?content = "concat (map (\<lambda>line. line @ [CHR 0x0A]) ?lines)"
  have lines: "rust_lines ?content = ?lines"
    using snapshot_lines_ok [OF assms(1,2,4)] by (intro rust_lines_concat) (auto simp: line_ok_def)
  have last: "trim (cs_last_failed_scope s) = cs_last_failed_scope s"
    using assms(1) by (auto simp: snapshot_ok_def scope_name_def trim_printable)
  have boot: "trim (trim boot) = trim boot" using assms(4) by (rule trim_printable)
  have state: "trim (fuse_capability_as_str c) = fuse_capability_as_str c" for c
    by (cases c) (simp_all add: trim_printable)
  have field: "snapshot_field ?content key = map_option trim (find_map (\<lambda>line. strip_prefix line (key @ ''='')) ?lines)" for key
    by (simp add: snapshot_field_def lines)
  note fields = field [of "''boot_id''"] field [of "''state''"] field [of "''fail_count''"] field [of "''device_fail_count''"]
    field [of "''last_failed_scope''"] field [of "''retry_at_ms''"] field [of "''backoff_step''"] field [of "''teardown_fail_count''"]
  have vals:
    "snapshot_field ?content ''boot_id'' = Some (trim boot)"
    "snapshot_field ?content ''state'' = Some (fuse_capability_as_str (cs_capability s))"
    "snapshot_field ?content ''fail_count'' = None"
    "snapshot_field ?content ''device_fail_count'' = Some (show_nat (cs_device_failures s))"
    "snapshot_field ?content ''last_failed_scope'' = Some (cs_last_failed_scope s)"
    "snapshot_field ?content ''retry_at_ms'' = Some (show_nat (cs_retry_at_ms s))"
    "snapshot_field ?content ''backoff_step'' = Some (show_nat (cs_backoff_step s))"
    "snapshot_field ?content ''teardown_fail_count'' = Some (show_nat (cs_teardown_failures s))"
    unfolding fields by (simp_all add: snapshot_lines_def strip_prefix_def boot state last find_map_append
        scope_lines_no_field [unfolded strip_prefix_def])
  have "parse_scope_failures ?content = cs_scope_failures s"
    unfolding parse_scope_failures_def lines using assms(1)
    by (simp add: snapshot_lines_def parse_scope_entry_def strip_prefix_def snapshot_ok_def)
      (subst map_filter_scope_lines, auto)
  moreover have "\<lparr>cs_present = True, cs_capability = cs_capability s, cs_device_failures = cs_device_failures s,
      cs_last_failed_scope = cs_last_failed_scope s, cs_scope_failures = cs_scope_failures s,
      cs_retry_at_ms = cs_retry_at_ms s, cs_backoff_step = cs_backoff_step s,
      cs_teardown_failures = cs_teardown_failures s\<rparr> = s\<lparr>cs_present := True\<rparr>" by (cases s) simp
  ultimately show ?thesis
    using assms(1,3,5,6) boot vals
    by (cases "cs_capability s")
      (simp_all add: read_fuse_capability_snapshot_def write_fuse_capability_snapshot_def unsigned_field_def
        parse_unsigned_show snapshot_ok_def)
qed

text \<open>
  (C37) The snapshot file is read back as it was written, in the boot that wrote it: state, counters, back-off
  and the failures of every application survive, and in any other boot the whole file counts for nothing.
\<close>

theorem capability_snapshot_roundtrip:
  assumes "snapshot_ok t s" and "line_ok reason" and "printable (trim boot)" and "ce_write_ok env"
    and "ce_boot_id env = Some boot" and "ce_boot_id env' = Some boot'"
  shows "read_fuse_capability_snapshot env' (snd (write_fuse_capability_snapshot env s reason file))
    = (if trim boot' = trim boot then Some (s\<lparr>cs_present := True\<rparr>) else None)"
proof -
  let ?file = "snd (write_fuse_capability_snapshot env s reason file)"
  note same = read_back [OF assms(1,2) assms(5,3) assms(5,4), of "file"]
  then obtain content where f: "?file = Some content" and "snapshot_field content ''boot_id'' = Some (trim boot)"
    using assms(5) by (auto simp: read_fuse_capability_snapshot_def split: option.splits if_splits)
  then have "read_fuse_capability_snapshot env' ?file =
      (if trim boot' = trim boot then read_fuse_capability_snapshot env ?file else None)"
    using assms(5,6) by (simp add: read_fuse_capability_snapshot_def)
  with same show ?thesis by simp
qed

theorem capability_snapshot_roundtrip_witness:
  "read_fuse_capability_snapshot \<lparr>ce_boot_id = Some ''b7'', ce_monotonic_ms = 5, ce_device_present = True,
       ce_device_opens = True, ce_write_ok = True\<rparr>
     (snd (write_fuse_capability_snapshot \<lparr>ce_boot_id = Some ''b7'', ce_monotonic_ms = 4, ce_device_present = True,
         ce_device_opens = True, ce_write_ok = True\<rparr>
       (record_failure 3 ''com.a'' capability_snapshot_default) ''x'' None))
   = Some ((record_failure 3 ''com.a'' capability_snapshot_default)\<lparr>cs_present := True\<rparr>)"
proof -
  have ok: "snapshot_ok 3 (record_failure 3 ''com.a'' capability_snapshot_default)"
    by (simp add: snapshot_ok_def record_failure_def bump_scope_failure_def capability_snapshot_default_def
        sat_inc_u32_def DEVICE_UNAVAILABLE_MIN_SCOPES_def MAX_TRACKED_SCOPES_def scope_failures_for_def scope_name_def)
  have boot: "printable (trim ''b7'')" by (simp add: trim_printable)
  have "line_ok ''x''" by simp
  from capability_snapshot_roundtrip [OF ok this boot, of "\<lparr>ce_boot_id = Some ''b7'', ce_monotonic_ms = 4,
      ce_device_present = True, ce_device_opens = True, ce_write_ok = True\<rparr>" "\<lparr>ce_boot_id = Some ''b7'',
      ce_monotonic_ms = 5, ce_device_present = True, ce_device_opens = True, ce_write_ok = True\<rparr>" "''b7''" None]
  show ?thesis by simp
qed

section \<open>The state machine over the file\<close>

datatype capability_event =
    MountResult bool bytes bytes
  | TeardownFailure bytes
  | RefreshCapability bytes

fun capability_step :: "capability_env \<Rightarrow> capability_event \<Rightarrow> bytes option \<Rightarrow> bytes option" where
  "capability_step env (MountResult ok reason scope) file = snd (record_fuse_capability_result env ok reason scope file)"
| "capability_step env (TeardownFailure reason) file = record_fuse_teardown_failure env reason file"
| "capability_step env (RefreshCapability reason) file = snd (refresh_fuse_capability_snapshot env reason file)"

fun event_ok :: "capability_event \<Rightarrow> bool" where
  "event_ok (MountResult ok reason scope) \<longleftrightarrow> line_ok reason \<and> scope_name scope"
| "event_ok (TeardownFailure reason) \<longleftrightarrow> line_ok reason"
| "event_ok (RefreshCapability reason) \<longleftrightarrow> line_ok reason"

text \<open>
  The files a boot can see by some time, from a file that is absent or of another boot. The clock does
  not go backwards; a write may fail.
\<close>

inductive capability_reachable :: "bytes \<Rightarrow> nat \<Rightarrow> bytes option \<Rightarrow> bool" for boot where
  stale: "(\<And>env. ce_boot_id env = Some boot \<Longrightarrow> read_fuse_capability_snapshot env file = None) \<Longrightarrow>
    capability_reachable boot t file"
| step: "capability_reachable boot t file \<Longrightarrow> ce_boot_id env = Some boot \<Longrightarrow> t \<le> ce_now env \<Longrightarrow>
    ce_now env + RETRY_BACKOFF_MAX_MS < 2 ^ 64 \<Longrightarrow> event_ok ev \<Longrightarrow>
    capability_reachable boot (ce_now env) (capability_step env ev file)"

lemma sat_inc_less: "sat_inc_u32 n < 2 ^ 32"
  by (simp add: sat_inc_u32_def)

lemma snapshot_ok_default: "snapshot_ok t (capability_snapshot_default\<lparr>cs_capability := c\<rparr>)"
  by (simp add: snapshot_ok_def capability_snapshot_default_def)

lemma snapshot_ok_mono: "snapshot_ok t s \<Longrightarrow> t \<le> t' \<Longrightarrow> snapshot_ok t' s"
  by (fastforce simp: snapshot_ok_def)

lemma distinct_keys_filter: "distinct (keys_of es) \<Longrightarrow> distinct (keys_of (filter P es))"
  by (rule distinct_map_filter)

lemma record_success_ok: "snapshot_ok t s \<Longrightarrow> snapshot_ok t (record_success scope s)"
  by (auto simp: snapshot_ok_def record_success_def clear_scope_failure_def distinct_keys_filter
      intro: le_trans [OF length_filter_le])

lemma bump_ok:
  assumes "snapshot_ok t s" and "scope_name scope" and "t < 2 ^ 64"
  shows "snapshot_ok t (bump_scope_failure t scope s)"
proof -
  let ?es = "(scope, sat_inc_u32 (scope_failures_for s scope), t) # filter (\<lambda>(name, _). name \<noteq> scope) (cs_scope_failures s)"
  have "distinct (keys_of ?es)"
    using assms(1) by (auto simp: snapshot_ok_def distinct_keys_filter)
  then have "distinct (keys_of (take n ?es))" for n by (metis distinct_take take_map)
  moreover have "set (take n ?es) \<subseteq> set ?es" for n by (rule set_take_subset)
  moreover have "\<forall>(name, n, m) \<in> set ?es. scope_name name \<and> n < 2 ^ 32 \<and> m < 2 ^ 64 \<and> m \<le> t"
    using assms sat_inc_less by (auto simp: snapshot_ok_def)
  ultimately show ?thesis
    using assms(1) unfolding snapshot_ok_def bump_scope_failure_def Let_def
    by (auto simp del: take_Suc_Cons) blast+
qed

lemma backoff_bound: "retry_backoff_ms n \<le> RETRY_BACKOFF_MAX_MS"
  by (simp add: retry_backoff_ms_def)

lemma record_failure_ok:
  assumes "snapshot_ok t s" and "scope_name scope" and "t + RETRY_BACKOFF_MAX_MS < 2 ^ 64"
  shows "snapshot_ok t (record_failure t scope s)"
proof -
  let ?s = "(if cs_last_failed_scope s \<noteq> scope then s\<lparr>cs_device_failures := sat_inc_u32 (cs_device_failures s)\<rparr> else s)
    \<lparr>cs_last_failed_scope := scope\<rparr>"
  have "snapshot_ok t ?s" using assms(1,2) sat_inc_less by (auto simp: snapshot_ok_def)
  then have bump: "snapshot_ok t (bump_scope_failure t scope ?s)" using assms(2,3) by (intro bump_ok) simp_all
  have "sat_add_u64 t (retry_backoff_ms n) < 2 ^ 64 \<and> sat_add_u64 t (retry_backoff_ms n) \<le> t + RETRY_BACKOFF_MAX_MS" for n
    using backoff_bound [of n] assms(3) by (auto simp: sat_add_u64_def U64_MAX_def)
  then show ?thesis
    using bump sat_inc_less unfolding record_failure_def Let_def snapshot_ok_def by auto
qed

text \<open>What a boot reads by the time \<open>t\<close> is a snapshot that fits the file.\<close>

lemma load_ok:
  assumes "\<And>s. read_fuse_capability_snapshot env file = Some s \<Longrightarrow> snapshot_ok t s"
  shows "snapshot_ok t (load_fuse_capability_snapshot env file)"
  using assms snapshot_ok_default [of t CapUnknown]
  by (auto simp: load_fuse_capability_snapshot_def capability_snapshot_default_def split: option.split)

text \<open>Every step writes a good snapshot, or leaves the file.\<close>

lemma capability_step_writes:
  assumes "snapshot_ok (ce_now env) (load_fuse_capability_snapshot env file)" and "event_ok ev"
    and "ce_now env + RETRY_BACKOFF_MAX_MS < 2 ^ 64"
  shows "\<exists>s reason. snapshot_ok (ce_now env) s \<and> line_ok reason
    \<and> capability_step env ev file = snd (write_fuse_capability_snapshot env s reason file)"
proof (cases ev)
  case (MountResult ok reason scope)
  with assms show ?thesis
    by (intro exI [of _ "if ok then record_success scope (load_fuse_capability_snapshot env file)
        else record_failure (ce_now env) scope (load_fuse_capability_snapshot env file)"] exI [of _ reason])
      (auto simp: record_fuse_capability_result_def record_success_ok record_failure_ok)
next
  case (TeardownFailure reason)
  let ?s = "load_fuse_capability_snapshot env file"
  have "snapshot_ok (ce_now env) (?s\<lparr>cs_teardown_failures := sat_inc_u32 (cs_teardown_failures ?s)\<rparr>)"
    using assms(1) sat_inc_less by (auto simp: snapshot_ok_def)
  with TeardownFailure assms(2) show ?thesis by (auto simp: record_fuse_teardown_failure_def Let_def intro!: exI)
next
  case (RefreshCapability reason)
  with assms(2) snapshot_ok_default show ?thesis
    unfolding RefreshCapability capability_step.simps refresh_fuse_capability_snapshot_def by auto
qed

lemma capability_reachable_ok:
  assumes "capability_reachable boot t file" and "printable (trim boot)"
  shows "ce_boot_id env = Some boot \<Longrightarrow> read_fuse_capability_snapshot env file = Some s \<Longrightarrow> snapshot_ok t s \<and> cs_present s"
  using assms(1)
proof (induction arbitrary: env s)
  case (stale f t)
  then show ?case by simp
next
  case (step t f env' ev)
  have "snapshot_ok t (load_fuse_capability_snapshot env' f)"
    by (rule load_ok) (use step.IH [OF step.hyps(2)] in blast)
  then have "snapshot_ok (ce_now env') (load_fuse_capability_snapshot env' f)"
    using step.hyps(3) by (rule snapshot_ok_mono)
  from capability_step_writes [OF this step.hyps(5,4)] obtain s' reason
    where w: "snapshot_ok (ce_now env') s'" "line_ok reason"
      "capability_step env' ev f = snd (write_fuse_capability_snapshot env' s' reason f)" by blast
  show ?case
  proof (cases "ce_write_ok env'")
    case True
    then have "s = s'\<lparr>cs_present := True\<rparr>"
      using read_back [OF w(1,2) step.prems(1) assms(2) step.hyps(2)] step.prems(2) by (simp add: w(3))
    then show ?thesis using w(1) by (simp add: snapshot_ok_def)
  next
    case False
    then have "read_fuse_capability_snapshot env f = Some s"
      using step.prems(2) by (simp add: w(3) write_fuse_capability_snapshot_def)
    from step.IH [OF step.prems(1) this] step.hyps(3) show ?thesis by (auto intro: snapshot_ok_mono)
  qed
qed


abbreviation demo_capability_env :: "int \<Rightarrow> capability_env" where
  "demo_capability_env now \<equiv> \<lparr>ce_boot_id = Some ''b7'', ce_monotonic_ms = now, ce_device_present = True,
     ce_device_opens = True, ce_write_ok = True\<rparr>"

text \<open>Three failures of one application and one of another.\<close>

definition demo_capability_file :: "bytes option" where
  "demo_capability_file =
     foldl (\<lambda>f (now, scope). capability_step (demo_capability_env now) (MountResult False ''x'' scope) f) None
       [(10, ''com.a''), (11, ''com.a''), (12, ''com.b''), (13, ''com.a'')]"

lemma demo_capability_reachable: "capability_reachable ''b7'' 13 demo_capability_file"
proof -
  have s0: "capability_reachable ''b7'' 0 None"
    by (rule capability_reachable.stale) (simp add: read_fuse_capability_snapshot_def)
  note st = capability_reachable.step [where boot = "''b7''"]
  have ev: "event_ok (MountResult False ''x'' ''com.a'')" "event_ok (MountResult False ''x'' ''com.b'')"
    by (simp_all add: scope_name_def)
  note s1 = st [OF s0 _ _ _ ev(1), of "demo_capability_env 10", simplified, unfolded ce_now_def RETRY_BACKOFF_MAX_MS_def, simplified]
  note s2 = st [OF s1 _ _ _ ev(1), of "demo_capability_env 11", simplified, unfolded ce_now_def RETRY_BACKOFF_MAX_MS_def, simplified]
  note s3 = st [OF s2 _ _ _ ev(2), of "demo_capability_env 12", simplified, unfolded ce_now_def RETRY_BACKOFF_MAX_MS_def, simplified]
  note s4 = st [OF s3 _ _ _ ev(1), of "demo_capability_env 13", simplified, unfolded ce_now_def RETRY_BACKOFF_MAX_MS_def, simplified]
  show ?thesis using s4 by (simp add: demo_capability_file_def)
qed


text \<open>What one application and its sessions report.\<close>

fun only_scope :: "bytes \<Rightarrow> capability_event \<Rightarrow> bool" where
  "only_scope scope (MountResult ok reason s) \<longleftrightarrow> s = scope"
| "only_scope scope (TeardownFailure reason) \<longleftrightarrow> True"
| "only_scope scope (RefreshCapability reason) \<longleftrightarrow> False"

definition blames_only :: "bytes \<Rightarrow> capability_snapshot \<Rightarrow> bool" where
  "blames_only scope s \<longleftrightarrow> cs_capability s \<noteq> CapUnavailable \<and> (\<forall>e \<in> set (cs_scope_failures s). fst e = scope)
     \<and> (cs_device_failures s = 0 \<or> cs_device_failures s = 1 \<and> cs_last_failed_scope s = scope)"

lemma blames_only_step:
  assumes "blames_only scope s"
  shows "blames_only scope (record_success scope s)" "blames_only scope (record_failure now scope s)"
    "blames_only scope (s\<lparr>cs_teardown_failures := n\<rparr>)" "blames_only scope (s\<lparr>cs_present := p\<rparr>)"
  using assms set_take_subset
  by (auto simp: blames_only_def record_success_def clear_scope_failure_def record_failure_def bump_scope_failure_def
      Let_def sat_inc_u32_def DEVICE_UNAVAILABLE_MIN_SCOPES_def dest!: in_set_takeD)

inductive capability_run :: "bytes \<Rightarrow> bytes \<Rightarrow> nat \<Rightarrow> bytes option \<Rightarrow> bool" for boot scope where
  refreshed: "ce_boot_id env = Some boot \<Longrightarrow> fuse_first_capability_available env \<Longrightarrow> ce_write_ok env \<Longrightarrow> line_ok reason \<Longrightarrow>
    capability_run boot scope (ce_now env) (snd (refresh_fuse_capability_snapshot env reason f))"
| reported: "capability_run boot scope t f \<Longrightarrow> ce_boot_id env = Some boot \<Longrightarrow> t \<le> ce_now env \<Longrightarrow>
    ce_now env + RETRY_BACKOFF_MAX_MS < 2 ^ 64 \<Longrightarrow> event_ok ev \<Longrightarrow> only_scope scope ev \<Longrightarrow>
    capability_run boot scope (ce_now env) (capability_step env ev f)"

lemma capability_run_blames:
  assumes "capability_run boot scope t f" and "printable (trim boot)"
  shows "\<exists>s. snapshot_ok t s \<and> blames_only scope s \<and> cs_present s
    \<and> (\<forall>env. ce_boot_id env = Some boot \<longrightarrow> read_fuse_capability_snapshot env f = Some s)"
  using assms(1)
proof induction
  case (refreshed env reason f)
  let ?s = "capability_snapshot_default"
  have "?s\<lparr>cs_capability := CapUnknown\<rparr> = ?s" by (simp add: capability_snapshot_default_def)
  then have ok: "snapshot_ok (ce_now env) ?s" using snapshot_ok_default [of "ce_now env" CapUnknown] by simp
  have "read_fuse_capability_snapshot env' (snd (refresh_fuse_capability_snapshot env reason f)) = Some (?s\<lparr>cs_present := True\<rparr>)"
    if "ce_boot_id env' = Some boot" for env'
    using read_back [OF ok refreshed(4) that assms(2) refreshed(1,3)] refreshed(2)
      \<open>?s\<lparr>cs_capability := CapUnknown\<rparr> = ?s\<close> by (simp add: refresh_fuse_capability_snapshot_def)
  moreover have "blames_only scope (?s\<lparr>cs_present := True\<rparr>)" by (simp add: blames_only_def capability_snapshot_default_def)
  moreover have "snapshot_ok (ce_now env) (?s\<lparr>cs_present := True\<rparr>)" using ok by (simp add: snapshot_ok_def)
  ultimately show ?case by fastforce
next
  case (reported t f env ev)
  then obtain s where s: "snapshot_ok t s" "blames_only scope s" "cs_present s"
    and read: "\<And>env. ce_boot_id env = Some boot \<Longrightarrow> read_fuse_capability_snapshot env f = Some s" by blast
  have load: "load_fuse_capability_snapshot env f = s"
    using read [OF reported(2)] by (simp add: load_fuse_capability_snapshot_def)
  have now: "snapshot_ok (ce_now env) s" using s(1) reported(3) by (rule snapshot_ok_mono)
  have "\<exists>s' reason. snapshot_ok (ce_now env) s' \<and> blames_only scope s' \<and> line_ok reason
      \<and> capability_step env ev f = snd (write_fuse_capability_snapshot env s' reason f)"
  proof (cases ev)
    case (MountResult ok reason name)
    then show ?thesis
      using s(2) now reported(4-6) blames_only_step record_success_ok record_failure_ok
      by (intro exI [of _ "if ok then record_success scope s else record_failure (ce_now env) scope s"] exI [of _ reason])
        (simp add: record_fuse_capability_result_def load)
  next
    case (TeardownFailure reason)
    have "snapshot_ok (ce_now env) (s\<lparr>cs_teardown_failures := sat_inc_u32 (cs_teardown_failures s)\<rparr>)"
      using now sat_inc_less by (auto simp: snapshot_ok_def)
    then show ?thesis
      using TeardownFailure s(2) reported(5) blames_only_step(3) unfolding TeardownFailure
      by (auto simp: record_fuse_teardown_failure_def load Let_def intro!: exI)
  qed (use reported(6) in simp)
  then obtain s' reason where s': "snapshot_ok (ce_now env) s'" "blames_only scope s'" "line_ok reason"
    and w: "capability_step env ev f = snd (write_fuse_capability_snapshot env s' reason f)" by blast
  show ?case
  proof (cases "ce_write_ok env")
    case True
    have "snapshot_ok (ce_now env) (s'\<lparr>cs_present := True\<rparr>)" using s'(1) by (simp add: snapshot_ok_def)
    with True s' read_back [OF s'(1,3) _ assms(2) reported(2)] blames_only_step(4) show ?thesis
      unfolding w by (intro exI [of _ "s'\<lparr>cs_present := True\<rparr>"]) simp
  next
    case False
    then have "capability_step env ev f = f" by (simp add: w write_fuse_capability_snapshot_def)
    with s(2,3) now read show ?thesis by auto
  qed
qed

text \<open>
  (C19) One application cannot take FUSE away from the others: after a start with a working device node, as
  long as only one application reports mount results (successes and failures in any order and number,
  with clean-up failures between them), the device is not declared unavailable and every other
  application may mount.
\<close>

theorem one_app_cannot_disable_fuse:
  assumes "capability_run boot scope t f" and "printable (trim boot)" and "ce_boot_id env = Some boot"
    and "other \<noteq> scope"
  shows "fuse_capability env f \<noteq> CapUnavailable \<and> scoped_mount_allowed_for_scope env f other Auto"
proof -
  obtain s where s: "blames_only scope s" "cs_present s" "read_fuse_capability_snapshot env f = Some s"
    using capability_run_blames [OF assms(1,2)] assms(3) by blast
  have "map_of (cs_scope_failures s) other = None"
    using s(1) assms(4) by (auto simp: map_of_eq_None_iff blames_only_def image_iff)
  then have "\<not> snapshot_scope_budget_exhausted (ce_now env) s other"
    by (simp add: snapshot_scope_budget_exhausted_def scope_failures_for_def SCOPED_MOUNT_FAILURE_BUDGET_def)
  with s show ?thesis
    by (auto simp: fuse_capability_def scoped_mount_allowed_for_scope_def load_fuse_capability_snapshot_def
        blames_only_def split: fuse_capability.split)
qed

theorem one_app_cannot_disable_fuse_witness:
  "scoped_mount_allowed_for_scope (demo_capability_env 30)
     (capability_step (demo_capability_env 20) (MountResult False ''x'' ''com.a'')
       (snd (refresh_fuse_capability_snapshot (demo_capability_env 10) ''boot'' None))) ''com.b'' Auto"
proof -
  have boot: "ce_boot_id (demo_capability_env n) = Some ''b7''" for n by simp
  have "line_ok ''boot''" "fuse_first_capability_available (demo_capability_env 10)" "ce_write_ok (demo_capability_env 10)"
    by (simp_all add: fuse_first_capability_available_def)
  then have start: "capability_run ''b7'' ''com.a'' (ce_now (demo_capability_env 10))
      (snd (refresh_fuse_capability_snapshot (demo_capability_env 10) ''boot'' None))"
    by (intro capability_run.refreshed [OF boot])
  have "capability_run ''b7'' ''com.a'' (ce_now (demo_capability_env 20))
      (capability_step (demo_capability_env 20) (MountResult False ''x'' ''com.a'')
        (snd (refresh_fuse_capability_snapshot (demo_capability_env 10) ''boot'' None)))"
    by (rule capability_run.reported [OF start boot])
      (simp_all add: ce_now_def RETRY_BACKOFF_MAX_MS_def scope_name_def)
  moreover have "printable (trim ''b7'')" by (simp add: trim_printable)
  ultimately show ?thesis
    using one_app_cannot_disable_fuse [of "''b7''" "''com.a''" _ _ "demo_capability_env 30" "''com.b''"] by simp
qed

end
