(* ===== verification/Mountinfo.thy ===== *)
theory Mountinfo
  imports Fuse_Capability
begin

text \<open>
  Lines of \<^verbatim>\<open>/proc/<pid>/mountinfo\<close>: \<^verbatim>\<open>src/platform/mountinfo.rs\<close>, and on top of it
  \<^verbatim>\<open>src/fuse_redirect/backend_overlay.rs\<close>, which rewrites a back-end path that another mount of the
  system covers to the place the mount comes from. A field is kept as bytes; the replacement of
  invalid UTF-8 by \<^verbatim>\<open>from_utf8_lossy\<close> does not change a field that is valid. The cached snapshot and
  the log of rewrites are left out: the file's content is the argument.
\<close>

section \<open>Model: one line\<close>

text \<open>\<^verbatim>\<open>split_whitespace\<close>: the maximal runs of code points that are not white space.\<close>

function whitespace_fields :: "bytes list \<Rightarrow> bytes list" where
  "whitespace_fields cs =
     (case dropWhile is_whitespace cs of
        [] \<Rightarrow> []
      | c # rest \<Rightarrow>
          concat (takeWhile (\<lambda>x. \<not> is_whitespace x) (c # rest))
            # whitespace_fields (dropWhile (\<lambda>x. \<not> is_whitespace x) (c # rest)))"
  by pat_completeness auto
termination
proof (relation "measure length")
  fix cs c rest
  assume d: "dropWhile is_whitespace cs = c # rest"
  then have "\<not> is_whitespace c" by (metis dropWhile_eq_Cons_conv)
  then have "length (dropWhile (\<lambda>x. \<not> is_whitespace x) (c # rest)) \<le> length rest"
    by (simp add: length_dropWhile_le)
  moreover have "length (c # rest) \<le> length cs" using d by (metis length_dropWhile_le)
  ultimately show "(dropWhile (\<lambda>x. \<not> is_whitespace x) (c # rest), cs) \<in> measure length" by simp
qed simp

declare whitespace_fields.simps [simp del]

definition split_whitespace :: "bytes \<Rightarrow> bytes list" where
  "split_whitespace s = whitespace_fields (utf8_chars s)"

record mount_info_entry =
  mi_mount_id :: nat
  mi_parent_mount_id :: nat
  mi_dev :: bytes
  mi_root :: bytes
  mi_target :: bytes
  mi_fs_type :: bytes
  mi_source :: bytes

definition parse_entry :: "bytes \<Rightarrow> mount_info_entry option" where
  "parse_entry line =
     (case find_str '' - '' line of
        None \<Rightarrow> None
      | Some separator \<Rightarrow>
          (case (split_whitespace (take separator line), split_whitespace (drop (separator + 3) line)) of
             (mount_id # parent_id # dev # root # target # _, fs_type # source # _) \<Rightarrow>
               (case (parse_unsigned 64 mount_id, parse_unsigned 64 parent_id) of
                  (Some i, Some p) \<Rightarrow> Some \<lparr>mi_mount_id = i, mi_parent_mount_id = p, mi_dev = dev, mi_root = root,
                    mi_target = target, mi_fs_type = fs_type, mi_source = source\<rparr>
                | _ \<Rightarrow> None)
           | _ \<Rightarrow> None))"

definition has_propagation_tag :: "bytes \<Rightarrow> bytes \<Rightarrow> bool" where
  "has_propagation_tag line tag =
     (case find_str '' - '' line of
        None \<Rightarrow> False
      | Some separator \<Rightarrow>
          list_ex (\<lambda>field. starts_with_str field tag) (drop 5 (split_whitespace (take separator line))))"

text \<open>The last entry that no entry of the list lies on.\<close>

definition topmost_by_stack :: "('a \<Rightarrow> nat) \<Rightarrow> ('a \<Rightarrow> nat) \<Rightarrow> 'a list \<Rightarrow> 'a option" where
  "topmost_by_stack mount_id parent_mount_id stack =
     (let entry_ids = map mount_id stack;
          covered = filter (\<lambda>parent. parent \<in> set entry_ids) (map parent_mount_id stack)
      in foldl (\<lambda>top entry. if mount_id entry \<in> set covered then top else Some entry) None stack)"

definition is_octal_digit :: "char \<Rightarrow> bool" where
  "is_octal_digit c \<longleftrightarrow> 48 \<le> (of_char c :: nat) \<and> (of_char c :: nat) \<le> 55"

text \<open>The code of an escape is computed in \<^verbatim>\<open>u8\<close>.\<close>

definition octal_value :: "char \<Rightarrow> char \<Rightarrow> char \<Rightarrow> char" where
  "octal_value a b c = char_of (((of_char a - 48) * 64 + (of_char b - 48) * 8 + (of_char c - 48) :: nat) mod 256)"

fun unescape_field :: "bytes \<Rightarrow> bytes" where
  "unescape_field (x # a # b # c # rest) =
     (if x = CHR 0x5C \<and> is_octal_digit a \<and> is_octal_digit b \<and> is_octal_digit c
      then octal_value a b c # unescape_field rest
      else x # unescape_field (a # b # c # rest))"
| "unescape_field (x # rest) = x # unescape_field rest"
| "unescape_field [] = []"

section \<open>Model: covered back-end paths\<close>

definition BACKEND_TREE_PREFIX :: bytes where
  "BACKEND_TREE_PREFIX = ''/data/media''"

definition EXCLUDED_FS_TYPES :: "bytes list" where
  "EXCLUDED_FS_TYPES = [''proc'', ''sysfs'', ''devtmpfs'', ''devpts'', ''selinuxfs'', ''tracefs'', ''debugfs'',
     ''bpf'', ''functionfs'', ''configfs'']"

record overlay_mount =
  om_dev :: bytes
  om_mount_point :: bytes
  om_root_in_fs :: bytes

record overlay_snapshot =
  os_overlays :: "overlay_mount list"
  os_fs_roots :: "(bytes \<times> bytes) list"

definition snapshot_line :: "overlay_snapshot \<Rightarrow> bytes \<Rightarrow> overlay_snapshot" where
  "snapshot_line snapshot line =
     (case parse_entry line of
        None \<Rightarrow> snapshot
      | Some entry \<Rightarrow>
          if mi_fs_type entry \<in> set EXCLUDED_FS_TYPES \<or> starts_with_str (mi_fs_type entry) ''fuse''
             \<or> starts_with_str (mi_fs_type entry) ''sdcardfs'' then snapshot
          else (let target = unescape_field (mi_target entry);
                    root_in_fs = unescape_field (mi_root entry);
                    snapshot = (if root_in_fs = ''/'' \<and> map_of (os_fs_roots snapshot) (mi_dev entry) = None
                      then snapshot\<lparr>os_fs_roots := (mi_dev entry, target) # os_fs_roots snapshot\<rparr> else snapshot)
                in if target = ''/data/media'' \<or> starts_with_str target ''/data/media/''
                   then snapshot\<lparr>os_overlays := os_overlays snapshot
                     @ [\<lparr>om_dev = mi_dev entry, om_mount_point = target, om_root_in_fs = root_in_fs\<rparr>]\<rparr>
                   else snapshot))"

definition load_snapshot :: "bytes option \<Rightarrow> overlay_snapshot" where
  "load_snapshot mountinfo =
     (case mountinfo of
        None \<Rightarrow> \<lparr>os_overlays = [], os_fs_roots = []\<rparr>
      | Some content \<Rightarrow> foldl snapshot_line \<lparr>os_overlays = [], os_fs_roots = []\<rparr> (rust_lines content))"

definition is_component_prefix :: "bytes \<Rightarrow> bytes \<Rightarrow> bool" where
  "is_component_prefix pre path =
     (if pre = path then True
      else let pre = trim_end_char slash pre
        in length pre < length path \<and> starts_with_str path pre \<and> path ! length pre = slash)"

definition join_fs_path :: "bytes \<Rightarrow> bytes \<Rightarrow> bytes \<Rightarrow> bytes" where
  "join_fs_path fs_root root_in_fs rest =
     (let trimmed_root = trim_end_char slash root_in_fs
      in trim_end_char slash fs_root
         @ (if trimmed_root = [] then []
            else (if starts_with_str trimmed_root ''/'' then [] else ''/'') @ trimmed_root)
         @ rest)"

text \<open>A later candidate replaces the best one only with a longer mount point.\<close>

definition better_overlay :: "bytes \<Rightarrow> overlay_mount option \<Rightarrow> overlay_mount \<Rightarrow> overlay_mount option" where
  "better_overlay backend best mount =
     (if \<not> is_component_prefix (om_mount_point mount) backend then best
      else (case best of
          None \<Rightarrow> Some mount
        | Some current \<Rightarrow>
            if length (om_mount_point current) < length (om_mount_point mount) then Some mount else best))"

definition resolve_with_snapshot :: "bytes \<Rightarrow> overlay_snapshot \<Rightarrow> bytes option" where
  "resolve_with_snapshot backend snapshot =
     (case foldl (better_overlay backend) None (os_overlays snapshot) of
        None \<Rightarrow> None
      | Some mount \<Rightarrow>
          (case map_of (os_fs_roots snapshot) (om_dev mount) of
             None \<Rightarrow> None
           | Some fs_root \<Rightarrow>
               (let source = join_fs_path fs_root (om_root_in_fs mount) (drop (length (om_mount_point mount)) backend)
                in if source = backend then None else Some source)))"

definition overlay_backend_path :: "overlay_snapshot \<Rightarrow> bytes \<Rightarrow> bytes option" where
  "overlay_backend_path snapshot backend =
     (if \<not> is_component_prefix BACKEND_TREE_PREFIX backend then None else resolve_with_snapshot backend snapshot)"

section \<open>The top of a stack of mounts\<close>

lemma foldl_last_filter:
  "foldl (\<lambda>top e. if P e then top else Some e) acc es
    = (case filter (\<lambda>e. \<not> P e) es of [] \<Rightarrow> acc | xs \<Rightarrow> Some (last xs))"
  by (induction es rule: rev_induct) (auto split: list.splits)

lemma last_filter_split:
  "filter P xs \<noteq> [] \<Longrightarrow> \<exists>before after. xs = before @ last (filter P xs) # after \<and> filter P after = []"
proof (induction xs rule: rev_induct)
  case (snoc x xs)
  show ?case
  proof (cases "P x")
    case True
    then show ?thesis by (intro exI [of _ xs] exI [of _ "[]"]) simp
  next
    case False
    then have "filter P xs \<noteq> []" using snoc.prems by simp
    then obtain before after where "xs = before @ last (filter P xs) # after" "filter P after = []"
      using snoc.IH by blast
    with False show ?thesis by (intro exI [of _ before] exI [of _ "after @ [x]"]) simp
  qed
qed simp

lemma acyclic_image_has_maximum:
  assumes "S \<noteq> {}" "finite S" "acyclic {(parent_id e, mount_id e) | e. e \<in> S}"
  shows "\<exists>e \<in> S. mount_id e \<notin> parent_id ` S"
proof -
  let ?r = "{(parent_id e, mount_id e) | e. e \<in> S}"
  have "?r = (\<lambda>e. (parent_id e, mount_id e)) ` S" by auto
  then have "finite ?r" using assms(2) by simp
  then have wf: "wf (?r\<inverse>)" using assms(3) by (rule finite_acyclic_wf_converse)
  obtain e where "e \<in> S" using assms(1) by auto
  then have "mount_id e \<in> mount_id ` S" by simp
  from wfE_min [OF wf this] obtain m where m: "m \<in> mount_id ` S"
    and min: "\<And>y. (y, m) \<in> ?r\<inverse> \<Longrightarrow> y \<notin> mount_id ` S" by blast
  from m obtain top where top: "top \<in> S" "m = mount_id top" by auto
  have "m \<notin> parent_id ` S"
  proof
    assume "m \<in> parent_id ` S"
    then obtain e' where e': "e' \<in> S" "m = parent_id e'" by auto
    then have "(mount_id e', m) \<in> ?r\<inverse>" by auto
    from min [OF this] e'(1) show False by simp
  qed
  with top show ?thesis by auto
qed

text \<open>
  On a mount point whose mounts do not lie on each other in a circle, the mount chosen as the visible
  one is uncovered: none of the mounts has it as its parent. Among several such mounts it is the last one
  of the table, whatever their numbers; in particular some mount is always chosen.
\<close>

theorem topmost_is_uncovered:
  assumes "stack \<noteq> []" and "acyclic {(parent_id e, mount_id e) | e. e \<in> set stack}"
  shows "\<exists>top before after. topmost_by_stack mount_id parent_id stack = Some top \<and> stack = before @ top # after
    \<and> (\<forall>e \<in> set stack. parent_id e \<noteq> mount_id top)
    \<and> (\<forall>e \<in> set after. \<exists>e' \<in> set stack. parent_id e' = mount_id e)"
proof -
  let ?P = "\<lambda>e. \<not> mount_id e \<in> parent_id ` set stack"
  obtain e where e: "e \<in> set stack" "mount_id e \<notin> parent_id ` set stack"
    using acyclic_image_has_maximum [of "set stack" parent_id mount_id] assms by auto
  then have free: "filter ?P stack \<noteq> []" by (auto simp: filter_empty_conv)
  have "topmost_by_stack mount_id parent_id stack
      = foldl (\<lambda>t e. if mount_id e \<in> parent_id ` set stack then t else Some e) None stack"
    unfolding topmost_by_stack_def Let_def by (intro foldl_cong) auto
  then have top: "topmost_by_stack mount_id parent_id stack = Some (last (filter ?P stack))"
    using free by (simp add: foldl_last_filter split: list.split)
  obtain before after where split: "stack = before @ last (filter ?P stack) # after" and rest: "filter ?P after = []"
    using last_filter_split [OF free] by blast
  have "last (filter ?P stack) \<in> set (filter ?P stack)" using free by (rule last_in_set)
  then have "mount_id (last (filter ?P stack)) \<notin> parent_id ` set stack" by simp
  then have "\<forall>e \<in> set stack. parent_id e \<noteq> mount_id (last (filter ?P stack))" by (metis imageI)
  moreover have "\<forall>e \<in> set after. \<exists>e' \<in> set stack. parent_id e' = mount_id e"
    using rest by (fastforce simp: filter_empty_conv)
  ultimately show ?thesis using top split by blast
qed

theorem topmost_is_uncovered_witness:
  "\<exists>top. topmost_by_stack fst snd [(233, 40), (10034, 40 :: nat), (40 :: nat, 1)] = Some top
    \<and> (\<forall>e \<in> set [(233, 40), (10034, 40), (40, 1)]. snd e \<noteq> fst top)"
proof -
  have "{(snd e, fst e) | e. e \<in> set [(233, 40), (10034, 40 :: nat), (40 :: nat, 1)]} \<subseteq> less_than" by auto
  then have "acyclic {(snd e, fst e) | e. e \<in> set [(233, 40), (10034, 40 :: nat), (40 :: nat, 1)]}"
    using wf_acyclic [OF wf_less_than] by (rule acyclic_subset [rotated])
  from topmost_is_uncovered [OF _ this] show ?thesis by simp blast
qed

section \<open>Escaped fields\<close>

text \<open>The kernel prints a space, tab, line feed or backslash of a path as its octal code.\<close>

definition octal_digit :: "nat \<Rightarrow> char" where
  "octal_digit d = char_of (48 + d)"

definition kernel_escape :: "bytes \<Rightarrow> bytes" where
  "kernel_escape s = concat (map (\<lambda>c. if c \<in> {CHR '' '', CHR 0x09, CHR 0x0A, CHR 0x5C}
     then [CHR 0x5C, octal_digit (of_char c div 64), octal_digit (of_char c div 8 mod 8), octal_digit (of_char c mod 8)]
     else [c]) s)"

lemma unescape_plain: "x \<noteq> CHR 0x5C \<Longrightarrow> unescape_field (x # s) = x # unescape_field s"
  by (cases s rule: unescape_field.cases) simp_all

text \<open>
  The mount table's escapes are undone exactly: for every path, the field the kernel prints for it is
  read back as this path, also when the path itself contains backslashes followed by digits.
\<close>

theorem unescape_field_roundtrip: "unescape_field (kernel_escape s) = s"
proof (induction s)
  case (Cons c s)
  show ?case
  proof (cases "c \<in> {CHR '' '', CHR 0x09, CHR 0x0A, CHR 0x5C}")
    case True
    moreover have "char_of (92 :: nat) = CHR 0x5C" "char_of (32 :: nat) = CHR '' ''"
      "char_of (9 :: nat) = CHR 0x09" "char_of (10 :: nat) = CHR 0x0A" by code_simp+
    ultimately show ?thesis using Cons
      by (auto simp: kernel_escape_def octal_digit_def is_octal_digit_def octal_value_def)
  next
    case False
    then show ?thesis using Cons by (simp add: kernel_escape_def unescape_plain)
  qed
qed (simp add: kernel_escape_def)

section \<open>Covered paths\<close>

lemma better_overlay_fold:
  "foldl (better_overlay b) best ms = Some m \<Longrightarrow>
    (best = Some m \<or> m \<in> set ms \<and> is_component_prefix (om_mount_point m) b)
    \<and> (\<forall>m' \<in> set ms. is_component_prefix (om_mount_point m') b \<longrightarrow> length (om_mount_point m') \<le> length (om_mount_point m))
    \<and> (\<forall>m'. best = Some m' \<longrightarrow> length (om_mount_point m') \<le> length (om_mount_point m))"
proof (induction ms arbitrary: best)
  case (Cons x ms)
  from Cons.prems have "foldl (better_overlay b) (better_overlay b best x) ms = Some m" by simp
  note ih = Cons.IH [OF this]
  show ?case
  proof (cases "is_component_prefix (om_mount_point x) b")
    case False
    then show ?thesis using ih by (auto simp: better_overlay_def)
  next
    case True
    show ?thesis
    proof (cases best)
      case None
      with True ih show ?thesis by (auto simp: better_overlay_def)
    next
      case (Some c)
      with True ih show ?thesis
        by (cases "length (om_mount_point c) < length (om_mount_point x)") (auto simp: better_overlay_def)
    qed
  qed
qed simp

lemma better_overlay_fold_none:
  "foldl (better_overlay b) best ms = None \<longleftrightarrow>
    best = None \<and> (\<forall>m \<in> set ms. \<not> is_component_prefix (om_mount_point m) b)"
proof (induction ms arbitrary: best)
  case (Cons x ms)
  then show ?case
    by (cases best) (auto simp: better_overlay_def)
qed simp

text \<open>
  When a back-end path is rewritten, the rewrite follows the mount that is visible there: the path lies
  in \<^verbatim>\<open>/data/media\<close>, a mount point of the table covers it and none that covers it is longer, and the
  result is the root of that mount's file system followed by the directory mounted and the rest of the
  path; it differs from the path.
\<close>

theorem overlay_follows_longest_mount:
  assumes "overlay_backend_path snapshot backend = Some source"
  shows "is_component_prefix BACKEND_TREE_PREFIX backend \<and> source \<noteq> backend
    \<and> (\<exists>m \<in> set (os_overlays snapshot). \<exists>fs_root. is_component_prefix (om_mount_point m) backend
        \<and> (\<forall>m' \<in> set (os_overlays snapshot).
             is_component_prefix (om_mount_point m') backend \<longrightarrow> length (om_mount_point m') \<le> length (om_mount_point m))
        \<and> map_of (os_fs_roots snapshot) (om_dev m) = Some fs_root
        \<and> source = join_fs_path fs_root (om_root_in_fs m) (drop (length (om_mount_point m)) backend))"
proof -
  from assms obtain m fs_root where m: "foldl (better_overlay backend) None (os_overlays snapshot) = Some m"
    and root: "map_of (os_fs_roots snapshot) (om_dev m) = Some fs_root"
    and source: "source = join_fs_path fs_root (om_root_in_fs m) (drop (length (om_mount_point m)) backend)"
    and other: "source \<noteq> backend" "is_component_prefix BACKEND_TREE_PREFIX backend"
    by (auto simp: overlay_backend_path_def resolve_with_snapshot_def Let_def split: if_splits option.splits)
  from better_overlay_fold [OF m] have "m \<in> set (os_overlays snapshot)" "is_component_prefix (om_mount_point m) backend"
    "\<forall>m' \<in> set (os_overlays snapshot).
       is_component_prefix (om_mount_point m') backend \<longrightarrow> length (om_mount_point m') \<le> length (om_mount_point m)"
    by simp_all
  with root have "\<exists>m \<in> set (os_overlays snapshot). \<exists>fs_root. is_component_prefix (om_mount_point m) backend
      \<and> (\<forall>m' \<in> set (os_overlays snapshot).
           is_component_prefix (om_mount_point m') backend \<longrightarrow> length (om_mount_point m') \<le> length (om_mount_point m))
      \<and> map_of (os_fs_roots snapshot) (om_dev m) = Some fs_root
      \<and> source = join_fs_path fs_root (om_root_in_fs m) (drop (length (om_mount_point m)) backend)"
    unfolding source by (intro bexI [of _ m] exI [of _ fs_root] conjI) simp_all
  with other show ?thesis by simp
qed

text \<open>The download directory a store mounts over another application's directory.\<close>

definition store_mounts :: overlay_snapshot where
  "store_mounts = \<lparr>os_overlays = [\<lparr>om_dev = ''254:60'', om_mount_point = ''/data/media/0/a'', om_root_in_fs = ''/apk-tmp/d''\<rparr>],
     os_fs_roots = [(''254:60'', ''/data'')]\<rparr>"

theorem overlay_follows_longest_mount_witness:
  "\<exists>m \<in> set (os_overlays store_mounts). is_component_prefix (om_mount_point m) ''/data/media/0/a/x''
     \<and> ''/data/apk-tmp/d/x'' = join_fs_path ''/data'' (om_root_in_fs m) (drop (length (om_mount_point m)) ''/data/media/0/a/x'')"
proof -
  have "overlay_backend_path store_mounts ''/data/media/0/a/x'' = Some ''/data/apk-tmp/d/x''"
    by (simp add: store_mounts_def overlay_backend_path_def resolve_with_snapshot_def better_overlay_def
        is_component_prefix_def join_fs_path_def BACKEND_TREE_PREFIX_def starts_with_str_def trim_end_char_def)
  from overlay_follows_longest_mount [OF this] show ?thesis
    by (auto simp: store_mounts_def split: if_splits)
qed

end
