(* ===== verification/Fuse_Policy.thy ===== *)
theory Fuse_Policy
  imports Fuse_Inode Mountinfo
begin

text \<open>
  How the FUSE session routes a path: \<^verbatim>\<open>src/fuse_redirect/policy.rs\<close> with the parts of
  \<^verbatim>\<open>src/fuse_redirect/config.rs\<close> that fix the mount point. A policy is compiled from the configuration
  of one application; it turns a path relative to the mount point into the back-end path and says
  whether it is read-only.

  What the code asks the system is one record: the anchor of the media tree, the mounts that cover back
  ends, what exists, the list of packages, the clock and the processes. The table of recent hand-overs
  between applications is state and is passed through. A \<^verbatim>\<open>PathBuf\<close> is its text.
\<close>

section \<open>Model: configuration\<close>

record fuse_config =
  fc_package_name :: bytes
  fc_app_pid :: i32
  fc_app_start_time_ticks :: "nat option"
  fc_uid :: i32
  fc_app_data_dir :: bytes
  fc_redirect_target :: bytes
  fc_mount_root :: "bytes option"
  fc_real_root_override :: "bytes option"
  fc_is_file_monitor_enabled :: bool
  fc_allowed_real_paths :: "bytes list"
  fc_excluded_real_paths :: "bytes list"
  fc_sandboxed_paths :: "bytes list"
  fc_read_only_paths :: "bytes list"
  fc_path_mappings :: "path_mapping list"
  fc_is_mapping_mode_only :: bool
  fc_is_monitor_only :: bool
  fc_is_passthrough_host :: bool
  fc_namespace_policy_only :: bool

type_synonym namespace = "nat \<times> nat"

record fuse_world =
  fw_anchor :: anchor_cell
  fw_overlay :: overlay_snapshot
  fw_exists :: "bytes \<Rightarrow> bool"
  fw_is_file :: "bytes \<Rightarrow> bool"
  fw_canonicalize :: "bytes \<Rightarrow> bytes option"
  fw_dir_ready :: "bytes \<Rightarrow> bool"
  fw_packages_list :: "bytes option"
  fw_now :: int
  fw_start_ticks :: "i32 \<Rightarrow> nat option"
  fw_namespace :: "i32 \<Rightarrow> namespace option"
  fw_alive :: "i32 \<Rightarrow> nat \<Rightarrow> bool"
  fw_hash :: "fuse_config \<Rightarrow> nat"

definition fuse_config_user_id :: "fuse_config \<Rightarrow> i32" where
  "fuse_config_user_id config = user_id_from_uid (fc_uid config)"

definition fuse_config_policy_fingerprint :: "fuse_world \<Rightarrow> fuse_config \<Rightarrow> nat" where
  "fuse_config_policy_fingerprint w config =
     (let config = config\<lparr>fc_app_pid := 0, fc_app_start_time_ticks := None\<rparr>;
          config = (if fc_is_monitor_only config
            then config\<lparr>fc_package_name := [], fc_app_data_dir := []\<rparr> else config)
      in fw_hash w config)"

definition VIEW_ROOT_LIFTED :: bool where
  "VIEW_ROOT_LIFTED = True"

definition lifted_view_root :: "bytes \<Rightarrow> bytes" where
  "lifted_view_root storage_root =
     (if VIEW_ROOT_LIFTED then Paths_Normalize.parent storage_root else storage_root)"

definition host_attach_root_for_user :: "i32 \<Rightarrow> bytes" where
  "host_attach_root_for_user user_id =
     (let user_root = storage_user_root_for_user user_id
      in if VIEW_ROOT_LIFTED then Paths_Normalize.parent user_root else user_root)"

definition fuse_mount_point :: "fuse_config \<Rightarrow> i32 \<Rightarrow> bytes" where
  "fuse_mount_point config user_id =
     (let storage_root = storage_user_root_for_user user_id
      in case fc_mount_root config of
           None \<Rightarrow> lifted_view_root storage_root
         | Some raw_mount_root \<Rightarrow>
             (let mount_root = resolve_user_path (normalize raw_mount_root) user_id;
                  mount_root = (if \<not> is_absolute mount_root then normalize (path_join storage_root mount_root)
                                else mount_root)
              in if eq_ignore_case mount_root storage_root then lifted_view_root storage_root
                 else if is_child mount_root storage_root then mount_root
                 else lifted_view_root storage_root))"

section \<open>Model: the compiled policy\<close>

record redirect_policy =
  po_package_name :: bytes
  po_uid :: i32
  po_user_id :: i32
  po_storage_root :: bytes
  po_mount_rel :: bytes
  po_view_lifted :: bool
  po_real_root :: bytes
  po_private_real_root :: bytes
  po_redirect_root :: bytes
  po_redirect_view_rel :: bytes
  po_own_private_roots :: "bytes list"
  po_shared_public_roots :: "bytes list"
  po_all_literal_rule_paths :: "bytes list"
  po_has_wildcard_rules :: bool
  po_rule_prefixes :: "rule_prefix list"
  po_allowed_real_paths :: "bytes list"
  po_read_only_paths :: "bytes list"
  po_allowed_real_index :: rule_index
  po_excluded_real_index :: rule_index
  po_sandboxed_index :: rule_index
  po_sandboxed_excluded_index :: rule_index
  po_read_only_index :: rule_index
  po_read_only_excluded_index :: rule_index
  po_path_mappings :: "path_mapping list"
  po_is_mapping_mode_only :: bool
  po_is_monitor_only :: bool
  po_sandbox_backend_root :: "bytes option"
  po_is_file_monitor_enabled :: bool
  po_deny_all :: bool
  po_is_system_fallback :: bool
  po_fingerprint :: nat

definition REAL_STORAGE_TMP_DIR :: bytes where
  "REAL_STORAGE_TMP_DIR = ''/data/adb/modules/storage.redirect.x/tmp/real_storage''"

definition real_storage_anchor_for_user :: "i32 \<Rightarrow> bytes" where
  "real_storage_anchor_for_user user_id = path_join REAL_STORAGE_TMP_DIR (fmt_i32 user_id)"

definition real_backend_root_for_config :: "fuse_world \<Rightarrow> fuse_config \<Rightarrow> i32 \<Rightarrow> bytes" where
  "real_backend_root_for_config w config user_id =
     (let direct = data_media_user_root_for_current_ns (fw_anchor w) user_id
      in case fc_real_root_override config of
           None \<Rightarrow> direct
         | Some root \<Rightarrow>
             (let normalized = normalize root
              in if eq_ignore_case normalized (real_storage_anchor_for_user user_id) then normalized else direct))"

definition is_lifted_view_root :: "bytes \<Rightarrow> bool" where
  "is_lifted_view_root mount_root = ends_with_str (trim_end_char slash mount_root) ''/emulated''"

text \<open>The root of the redirected tree: a target outside the user's storage, or one that cannot be created,
  makes the policy fail; the modes that redirect nothing use the real root.\<close>

definition policy_redirect_root :: "fuse_world \<Rightarrow> fuse_config \<Rightarrow> bytes \<Rightarrow> bytes option" where
  "policy_redirect_root w config redirect_storage =
     (let user_id = fuse_config_user_id config;
          is_mapping_root_passthrough = (fc_is_mapping_mode_only config \<and> fc_path_mappings config = []
            \<and> fc_sandboxed_paths config = [] \<and> eq_ignore_case redirect_storage (storage_user_root_for_user user_id))
      in if fc_is_passthrough_host config \<or> fc_is_monitor_only config \<or> is_mapping_root_passthrough
         then Some (real_backend_root_for_config w config user_id)
         else (let root = (case storage_to_data_media_for_user redirect_storage user_id of Some r \<Rightarrow> r | None \<Rightarrow> [])
               in if root = [] \<or> \<not> fw_dir_ready w root then None else Some root))"

definition RedirectPolicy_new :: "fuse_world \<Rightarrow> fuse_config \<Rightarrow> redirect_policy option" where
  "RedirectPolicy_new w config =
     (let user_id = fuse_config_user_id config;
          storage_root = storage_user_root_for_user user_id;
          mount_root = fuse_mount_point config user_id;
          mount_rel = trim_char slash (case relative_child_path mount_root storage_root of Some r \<Rightarrow> r | None \<Rightarrow> []);
          real_root = real_backend_root_for_config w config user_id;
          redirect_storage = resolve_user_path (resolve_placeholders (normalize (fc_redirect_target config))
              (fc_app_data_dir config) (fc_redirect_target config)) user_id
      in case policy_redirect_root w config redirect_storage of
           None \<Rightarrow> None
         | Some redirect_root \<Rightarrow>
             (let redirect_view_rel = trim_char slash
                    (case relative_child_path redirect_storage storage_root of Some r \<Rightarrow> r | None \<Rightarrow> []);
                  sandbox_backend_root = (if fc_is_mapping_mode_only config \<and> redirect_view_rel = []
                    then Some (data_media_user_root_for_current_ns (fw_anchor w) user_id
                      @ ''/Android/data/'' @ fc_package_name config @ ''/sdcard'') else None);
                  path_mappings = sort_path_mappings_shortest_request_first
                    (resolve_path_mappings (fc_path_mappings config) user_id storage_root (fc_app_data_dir config)
                      (fc_redirect_target config));
                  rule_prefixes = build_rule_prefixes (fc_allowed_real_paths config) (fc_excluded_real_paths config)
                    (fc_sandboxed_paths config) (fc_read_only_paths config) path_mappings user_id storage_root mount_root;
                  (read_only_paths, read_only_excluded) = split_exclusion_rules
                    (normalize_rule_list (expand_namespace_fallback_rules (fc_uid config) (fc_read_only_paths config)) user_id);
                  read_only_excluded = overlapping_exclusion_rules read_only_paths read_only_excluded;
                  allowed = normalize_rule_list (fc_allowed_real_paths config) user_id;
                  excluded = normalize_rule_list (fc_excluded_real_paths config) user_id;
                  (sandboxed_includes, sandboxed_excludes) = split_exclusion_rules (fc_sandboxed_paths config);
                  sandboxed = normalize_rule_list sandboxed_includes user_id;
                  sandboxed_excluded = normalize_rule_list sandboxed_excludes user_id;
                  literal = allowed @ excluded @ read_only_paths @ read_only_excluded @ sandboxed @ sandboxed_excluded
              in Some \<lparr>
                po_package_name = fc_package_name config, po_uid = fc_uid config, po_user_id = user_id,
                po_storage_root = storage_root, po_mount_rel = mount_rel,
                po_view_lifted = is_lifted_view_root mount_root, po_real_root = real_root,
                po_private_real_root = data_media_user_root_for_current_ns (fw_anchor w) user_id,
                po_redirect_root = redirect_root, po_redirect_view_rel = redirect_view_rel,
                po_own_private_roots = [''Android/data/'' @ fc_package_name config,
                  ''Android/media/'' @ fc_package_name config, ''Android/obb/'' @ fc_package_name config],
                po_shared_public_roots = [data_media_user_root_for_user user_id,
                  real_storage_anchor_for_user user_id, real_root],
                po_all_literal_rule_paths = literal,
                po_has_wildcard_rules = (list_ex contains_wildcards literal
                  \<or> list_ex (\<lambda>mapping. contains_wildcards (request_path mapping)) path_mappings),
                po_rule_prefixes = rule_prefixes, po_allowed_real_paths = allowed, po_read_only_paths = read_only_paths,
                po_allowed_real_index = RuleIndex_new allowed, po_excluded_real_index = RuleIndex_new excluded,
                po_sandboxed_index = RuleIndex_new sandboxed,
                po_sandboxed_excluded_index = RuleIndex_new sandboxed_excluded,
                po_read_only_index = RuleIndex_new read_only_paths,
                po_read_only_excluded_index = RuleIndex_new read_only_excluded,
                po_path_mappings = path_mappings, po_is_mapping_mode_only = fc_is_mapping_mode_only config,
                po_is_monitor_only = fc_is_monitor_only config, po_sandbox_backend_root = sandbox_backend_root,
                po_is_file_monitor_enabled = fc_is_file_monitor_enabled config, po_deny_all = False,
                po_is_system_fallback = False, po_fingerprint = fuse_config_policy_fingerprint w config\<rparr>))"

definition copied_as_deny_all :: "redirect_policy \<Rightarrow> redirect_policy" where
  "copied_as_deny_all p = p\<lparr>po_deny_all := True\<rparr>"

definition copied_as_system_fallback :: "redirect_policy \<Rightarrow> redirect_policy" where
  "copied_as_system_fallback p = p\<lparr>po_deny_all := False, po_is_system_fallback := True\<rparr>"

section \<open>Model: relative paths of the view\<close>

definition full_storage_rel :: "redirect_policy \<Rightarrow> bytes \<Rightarrow> bytes" where
  "full_storage_rel p rel =
     (let rel = trim_char slash rel
      in if po_mount_rel p = [] then rel
         else if rel = [] then po_mount_rel p else path_join (po_mount_rel p) rel)"

definition lifted_view_rel :: "redirect_policy \<Rightarrow> bytes \<Rightarrow> bytes option" where
  "lifted_view_rel p rel =
     (let trimmed = dropWhile (\<lambda>c. c = slash) rel;
          (head, rest) = (case find_char slash trimmed of
              None \<Rightarrow> (trimmed, []) | Some i \<Rightarrow> (take i trimmed, drop (i + 1) trimmed))
      in if head = [] \<or> parse_i32 head \<noteq> Some (po_user_id p) then None else Some rest)"

definition strip_own_user :: "redirect_policy \<Rightarrow> bytes \<Rightarrow> bytes" where
  "strip_own_user p rel =
     (let rel = trim_char slash rel
      in if po_view_lifted p then (case lifted_view_rel p rel of Some r \<Rightarrow> r | None \<Rightarrow> rel) else rel)"

definition normalized_full_storage_rel :: "redirect_policy \<Rightarrow> bytes \<Rightarrow> bytes" where
  "normalized_full_storage_rel p rel = full_storage_rel p (strip_own_user p rel)"

definition storage_path_for_rel :: "redirect_policy \<Rightarrow> bytes \<Rightarrow> bytes" where
  "storage_path_for_rel p rel =
     (let rel = strip_own_user p rel
      in if rel = [] then po_storage_root p else path_join (po_storage_root p) rel)"

definition strip_redirect_view_prefix :: "redirect_policy \<Rightarrow> bytes \<Rightarrow> bytes option" where
  "strip_redirect_view_prefix p full_rel =
     (let pre = po_redirect_view_rel p
      in if pre = [] then None
         else if full_rel = pre then Some []
         else (case strip_prefix full_rel pre of None \<Rightarrow> None | Some rest \<Rightarrow> strip_prefix rest ''/''))"

definition rel_for_full_storage_rel :: "redirect_policy \<Rightarrow> bytes \<Rightarrow> bytes" where
  "rel_for_full_storage_rel p full_rel =
     (if po_mount_rel p = [] then full_rel
      else if full_rel = [] then []
      else (case relative_child_path (path_join (po_storage_root p) full_rel)
                   (path_join (po_storage_root p) (po_mount_rel p)) of
              Some r \<Rightarrow> r | None \<Rightarrow> full_rel))"

text \<open>A path that enters the redirected tree again is the path below its root.\<close>

definition fold_view_rel :: "redirect_policy \<Rightarrow> bytes \<Rightarrow> bytes" where
  "fold_view_rel p rel =
     (case strip_redirect_view_prefix p (full_storage_rel p rel) of
        Some stripped \<Rightarrow> rel_for_full_storage_rel p stripped | None \<Rightarrow> rel)"

definition is_foreign_view_rel :: "redirect_policy \<Rightarrow> bytes \<Rightarrow> bool" where
  "is_foreign_view_rel p rel =
     (let head = hd (split_char slash rel)
      in head = ''obb'' \<or> (case parse_i32 head of None \<Rightarrow> False | Some u \<Rightarrow> u \<noteq> po_user_id p))"

definition foreign_backend :: "bytes \<Rightarrow> bytes \<Rightarrow> backend_path" where
  "foreign_backend rel path =
     \<lparr>bp_rel = rel, bp_path = path, bp_read_only = True, bp_shared_public = False, bp_app_private = False\<rparr>"

definition passthrough_foreign_view_rel :: "redirect_policy \<Rightarrow> bytes \<Rightarrow> backend_path option" where
  "passthrough_foreign_view_rel p rel =
     (case sanitize_relative rel of
        None \<Rightarrow> None
      | Some rel \<Rightarrow>
          if rel = [] then None
          else (let head = hd (split_char slash rel)
                in if head = [] then None
                   else if head = ''obb'' then Some (foreign_backend rel (path_join ''/storage/emulated'' rel))
                   else (case parse_i32 head of
                           None \<Rightarrow> None
                         | Some other_user \<Rightarrow>
                             if other_user = po_user_id p then None
                             else (let rest = dropWhile (\<lambda>c. c = slash)
                                         (case strip_prefix rel head of Some r \<Rightarrow> r | None \<Rightarrow> []);
                                       root = ''/mnt/user/'' @ fmt_i32 other_user @ ''/emulated/'' @ fmt_i32 other_user
                                   in Some (foreign_backend rel (if rest = [] then root else path_join root rest))))))"

section \<open>Model: back-end paths\<close>

text \<open>\<^verbatim>\<open>PathBuf::join\<close>, and the equality and prefix order of paths, which compare components.\<close>

definition pathbuf_join :: "bytes \<Rightarrow> bytes \<Rightarrow> bytes" where
  "pathbuf_join base rel =
     (if is_absolute rel then rel
      else if base = [] \<or> ends_with_str base ''/'' then base @ rel else base @ ''/'' @ rel)"

definition path_components :: "bytes \<Rightarrow> bool \<times> bytes list" where
  "path_components path =
     (let parts = nonempty_parts slash path; absolute = starts_with_str path ''/''
      in (absolute, (if \<not> absolute \<and> parts \<noteq> [] \<and> hd parts = ''.'' then [''.''] else [])
            @ filter (\<lambda>part. part \<noteq> ''.'') parts))"

definition pathbuf_eq :: "bytes \<Rightarrow> bytes \<Rightarrow> bool" where
  "pathbuf_eq a b \<longleftrightarrow> path_components a = path_components b"

definition pathbuf_starts_with :: "bytes \<Rightarrow> bytes \<Rightarrow> bool" where
  "pathbuf_starts_with path base \<longleftrightarrow> fst (path_components path) = fst (path_components base)
     \<and> prefix (snd (path_components base)) (snd (path_components path))"

definition android_private_category :: "bytes list \<Rightarrow> bool" where
  "android_private_category parts \<longleftrightarrow>
     (case parts of a # b # _ \<Rightarrow> a = ''Android'' \<and> b \<in> set [''data'', ''media'', ''obb''] | _ \<Rightarrow> False)"

definition is_android_app_private_relative_path :: "bytes \<Rightarrow> bool" where
  "is_android_app_private_relative_path relative = android_private_category (nonempty_parts slash relative)"

definition is_android_private_storage_subtree_relative_path :: "bytes \<Rightarrow> bool" where
  "is_android_private_storage_subtree_relative_path relative =
     (case nonempty_parts slash relative of
        [] \<Rightarrow> False
      | a # rest \<Rightarrow> a = ''Android'' \<and> (rest = [] \<or> hd rest \<in> set [''data'', ''media'', ''obb'']))"

definition is_android_private_backend_path :: "bytes \<Rightarrow> i32 \<Rightarrow> bool" where
  "is_android_private_backend_path path user_id =
     (case relative_child_path path (data_media_user_root_for_user user_id) of
        None \<Rightarrow> False | Some relative \<Rightarrow> android_private_category (nonempty_parts slash relative))"

definition is_android_private_package_root :: "bytes \<Rightarrow> i32 \<Rightarrow> bool" where
  "is_android_private_package_root path user_id =
     (case relative_child_path path (data_media_user_root_for_user user_id) of
        None \<Rightarrow> False
      | Some relative \<Rightarrow> length (nonempty_parts slash relative) = 3 \<and> is_android_private_backend_path path user_id)"

definition is_own_media_sqlite_relative_path :: "bytes \<Rightarrow> bytes \<Rightarrow> bool" where
  "is_own_media_sqlite_relative_path relative package_name =
     (package_name \<noteq> [] \<and> is_sqlite_database_or_sidecar_path relative
      \<and> (case nonempty_parts slash relative of
           a # b # c # _ \<Rightarrow> a = ''Android'' \<and> b = ''media'' \<and> eq_ignore_case c package_name | _ \<Rightarrow> False))"

definition is_android_private_sqlite_relative_path :: "bytes \<Rightarrow> bool" where
  "is_android_private_sqlite_relative_path relative =
     (is_sqlite_database_or_sidecar_path relative
      \<and> android_private_category (nonempty_parts slash relative) \<and> 3 \<le> length (nonempty_parts slash relative))"

definition real_backend_root_for_storage_rel :: "redirect_policy \<Rightarrow> bytes \<Rightarrow> bytes" where
  "real_backend_root_for_storage_rel p rel =
     (if is_android_private_storage_subtree_relative_path rel then po_private_real_root p else po_real_root p)"

definition through_overlay :: "fuse_world \<Rightarrow> bytes \<Rightarrow> bytes \<Rightarrow> bytes" where
  "through_overlay w query path = (case overlay_backend_path (fw_overlay w) query of Some r \<Rightarrow> r | None \<Rightarrow> path)"

definition real_backend_for_storage_rel :: "fuse_world \<Rightarrow> redirect_policy \<Rightarrow> bytes \<Rightarrow> bytes" where
  "real_backend_for_storage_rel w p rel =
     (if rel = [] then through_overlay w (po_real_root p) (po_real_root p)
      else let joined = pathbuf_join (real_backend_root_for_storage_rel p rel) rel
        in through_overlay w (media_real_form_of (fw_anchor w) joined) joined)"

definition redirect_backend_for_storage_rel :: "fuse_world \<Rightarrow> redirect_policy \<Rightarrow> bytes \<Rightarrow> bytes" where
  "redirect_backend_for_storage_rel w p rel =
     (if rel = [] then through_overlay w (po_redirect_root p) (po_redirect_root p)
      else let joined = pathbuf_join (po_redirect_root p) rel in through_overlay w joined joined)"

definition real_backend_for_rel :: "fuse_world \<Rightarrow> redirect_policy \<Rightarrow> bytes \<Rightarrow> bytes" where
  "real_backend_for_rel w p rel = real_backend_for_storage_rel w p (normalized_full_storage_rel p rel)"

definition redirect_backend_for_rel :: "fuse_world \<Rightarrow> redirect_policy \<Rightarrow> bytes \<Rightarrow> bytes" where
  "redirect_backend_for_rel w p rel = redirect_backend_for_storage_rel w p (normalized_full_storage_rel p rel)"

definition real_backend_for_storage_path :: "fuse_world \<Rightarrow> redirect_policy \<Rightarrow> bytes \<Rightarrow> bytes option" where
  "real_backend_for_storage_path w p storage_path =
     map_option (real_backend_for_storage_rel w p) (relative_child_path storage_path (po_storage_root p))"

definition is_shared_public_backend_path :: "redirect_policy \<Rightarrow> bytes \<Rightarrow> bool" where
  "is_shared_public_backend_path p path =
     (case find_map (relative_child_path path) (po_shared_public_roots p) of
        None \<Rightarrow> False | Some relative \<Rightarrow> \<not> is_android_app_private_relative_path relative)"

section \<open>Model: path mappings\<close>

definition MAX_MAPPING_HOPS :: nat where
  "MAX_MAPPING_HOPS = 8"

text \<open>One hop: the last mapping of the list whose request covers the path, and whether it nests in itself.\<close>

definition mapping_hop :: "path_mapping list \<Rightarrow> bytes \<Rightarrow> (bytes \<times> bool) option" where
  "mapping_hop mappings path =
     (case find (\<lambda>mapping. matches (request_path mapping) path True) (rev mappings) of
        None \<Rightarrow> None
      | Some mapping \<Rightarrow>
          Some (case child_suffix path (request_path mapping) of
                  Some suff \<Rightarrow> trim_end_char slash (final_path mapping) @ suff
                | None \<Rightarrow> final_path mapping,
                is_same_or_child (trim_end_char slash (final_path mapping)) (trim_end_char slash (request_path mapping))))"

fun mapping_hops :: "nat \<Rightarrow> path_mapping list \<Rightarrow> bytes \<Rightarrow> bytes option \<Rightarrow> bytes option \<Rightarrow> bytes option" where
  "mapping_hops 0 mappings storage_path previous current = current"
| "mapping_hops (Suc n) mappings storage_path previous current =
     (let path = (case current of Some c \<Rightarrow> c | None \<Rightarrow> storage_path)
      in case mapping_hop mappings path of
           None \<Rightarrow> current
         | Some (next, self_nested) \<Rightarrow>
             if next = path \<or> self_nested \<or> previous = Some next then Some next
             else mapping_hops n mappings storage_path current (Some next))"

definition resolve_mapping :: "redirect_policy \<Rightarrow> bytes \<Rightarrow> bytes option" where
  "resolve_mapping p storage_path = mapping_hops MAX_MAPPING_HOPS (po_path_mappings p) storage_path None None"

text \<open>The longest matching request of another application's mappings; the first of equal length.\<close>

definition longer_alias :: "bytes \<Rightarrow> path_mapping option \<Rightarrow> path_mapping \<Rightarrow> path_mapping option" where
  "longer_alias storage_path best mapping =
     (if \<not> matches (request_path mapping) storage_path True then best
      else case best of
             None \<Rightarrow> Some mapping
           | Some b \<Rightarrow> if length (request_path b) < length (request_path mapping) then Some mapping else best)"

definition resolve_cross_app_read_alias :: "(nat \<times> redirect_policy) list \<Rightarrow> redirect_policy \<Rightarrow> bytes \<Rightarrow> bytes option" where
  "resolve_cross_app_read_alias peers p storage_path =
     (let mappings = concat (map (po_path_mappings \<circ> snd)
            (filter (\<lambda>(uid, _). int uid \<noteq> po_uid p mod 2 ^ 32) peers))
      in case foldl (longer_alias storage_path) None mappings of
           None \<Rightarrow> None
         | Some mapping \<Rightarrow>
             Some (case child_suffix storage_path (request_path mapping) of
                     None \<Rightarrow> final_path mapping
                   | Some suff \<Rightarrow> trim_end_char slash (final_path mapping) @ suff))"

section \<open>Model: hand-overs between applications\<close>

definition CROSS_APP_HANDOFF_TTL_MS :: int where
  "CROSS_APP_HANDOFF_TTL_MS = 60000"

definition CROSS_APP_HANDOFF_CAPACITY :: nat where
  "CROSS_APP_HANDOFF_CAPACITY = 256"

type_synonym handoffs = "(bytes \<times> int) list"

fun oldest_handoff :: "handoffs \<Rightarrow> (bytes \<times> int) option" where
  "oldest_handoff [] = None"
| "oldest_handoff (h # hs) =
     (case oldest_handoff hs of None \<Rightarrow> Some h | Some o' \<Rightarrow> if snd h \<le> snd o' then Some h else Some o')"

definition record_own_mapped_handoff :: "int \<Rightarrow> bytes \<Rightarrow> handoffs \<Rightarrow> handoffs" where
  "record_own_mapped_handoff now storage_path handoffs =
     (let handoffs = AList.update (match_key storage_path) now handoffs
      in if length handoffs \<le> CROSS_APP_HANDOFF_CAPACITY then handoffs
         else (let handoffs = filter (\<lambda>(_, at). now - at < CROSS_APP_HANDOFF_TTL_MS) handoffs
               in if length handoffs \<le> CROSS_APP_HANDOFF_CAPACITY then handoffs
                  else (case oldest_handoff handoffs of
                          None \<Rightarrow> handoffs | Some oldest \<Rightarrow> AList.delete (fst oldest) handoffs)))"

function recent_handoff_walk :: "int \<Rightarrow> handoffs \<Rightarrow> bytes \<Rightarrow> bool" where
  "recent_handoff_walk now handoffs current =
     ((case map_of handoffs (match_key current) of
         Some at \<Rightarrow> now - at < CROSS_APP_HANDOFF_TTL_MS | None \<Rightarrow> False)
      \<or> (case rfind_char slash current of
           None \<Rightarrow> False
         | Some pos \<Rightarrow> if 0 < pos then recent_handoff_walk now handoffs (take pos current) else False))"
  by pat_completeness auto
termination
  by (relation "measure (\<lambda>(_, _, current). length current)") (auto dest: rfind_char_less)

declare recent_handoff_walk.simps [simp del]

definition has_recent_cross_app_handoff :: "int \<Rightarrow> handoffs \<Rightarrow> bytes \<Rightarrow> bool" where
  "has_recent_cross_app_handoff now handoffs storage_path =
     (handoffs \<noteq> [] \<and> recent_handoff_walk now handoffs (trim_end_char slash storage_path))"


section \<open>Model: the decision\<close>

datatype backend_kind = Real | Redirect
datatype operation_kind = Read | Write

record backend_decision =
  bd_kind :: backend_kind
  bd_read_only :: bool
  bd_sandbox :: bool
  bd_mapping :: "bytes option"

definition NATIVE_PUBLIC_MEDIA_TOP_DIRS :: "bytes list" where
  "NATIVE_PUBLIC_MEDIA_TOP_DIRS = [''Download'', ''DCIM'', ''Pictures'', ''Movies'', ''Music'', ''Documents'',
     ''Audiobooks'', ''Recordings'', ''Alarms'', ''Notifications'', ''Podcasts'', ''Ringtones'']"

definition is_native_public_media_write_path :: "bytes \<Rightarrow> bool" where
  "is_native_public_media_write_path storage_path =
     (case strip_prefix storage_path ''/storage/emulated/'' of
        None \<Rightarrow> False
      | Some rest \<Rightarrow>
          (case find_char slash rest of
             None \<Rightarrow> False
           | Some i \<Rightarrow> hd (split_char slash (drop (i + 1) rest)) \<in> set NATIVE_PUBLIC_MEDIA_TOP_DIRS))"

definition is_shared_media_subtree_write_path :: "bytes \<Rightarrow> bool" where
  "is_shared_media_subtree_write_path storage_path =
     (let owner = extract_android_private_path_owner storage_path
      in owner \<noteq> [] \<and> is_valid_package_name owner \<and> contains_str storage_path (''/Android/media/'' @ owner))"

definition package_uid :: "fuse_world \<Rightarrow> bytes \<Rightarrow> i32 option" where
  "package_uid w package =
     (case fw_packages_list w of
        None \<Rightarrow> None
      | Some content \<Rightarrow>
          map_of (rev (List.map_filter (\<lambda>line.
            (case split_whitespace line of
               name # uid # _ \<Rightarrow> map_option (Pair name) (parse_i32 uid)
             | _ \<Rightarrow> None)) (rust_lines content))) package)"

definition is_same_uid_private_write_path :: "fuse_world \<Rightarrow> bytes \<Rightarrow> i32 \<Rightarrow> bool" where
  "is_same_uid_private_write_path w storage_path session_uid =
     (let owner = extract_android_private_path_owner storage_path
      in if owner = [] \<or> \<not> is_valid_package_name owner then False
         else package_uid w owner = Some session_uid)"

definition is_system_write_delegate_session :: "bytes \<Rightarrow> bool" where
  "is_system_write_delegate_session package_name =
     (is_media_provider_package package_name \<or> is_file_monitor_bridge_package package_name)"

definition matches_any :: "rule_index \<Rightarrow> bytes \<Rightarrow> bool" where
  "matches_any index storage_path =
     (RuleIndex_matches index storage_path
      \<or> (case media_store_pending_display_path storage_path of
           None \<Rightarrow> False | Some display_path \<Rightarrow> RuleIndex_matches index display_path))"

definition is_own_private_storage_path :: "redirect_policy \<Rightarrow> bytes \<Rightarrow> bool" where
  "is_own_private_storage_path p storage_path =
     (case relative_child_path storage_path (po_storage_root p) of
        None \<Rightarrow> False
      | Some relative \<Rightarrow> list_ex (\<lambda>root. matches root relative True) (po_own_private_roots p))"

definition is_foreign_private_storage_path :: "redirect_policy \<Rightarrow> bytes \<Rightarrow> bool" where
  "is_foreign_private_storage_path p storage_path =
     (case relative_child_path storage_path (po_storage_root p) of
        None \<Rightarrow> False
      | Some relative \<Rightarrow>
          (case nonempty_parts slash relative of
             a # b # c # _ \<Rightarrow> a = ''Android'' \<and> b \<in> set [''data'', ''media'', ''obb'']
               \<and> \<not> eq_ignore_case c (po_package_name p)
           | _ \<Rightarrow> False))"

definition is_shared_media_subtree_path :: "redirect_policy \<Rightarrow> bytes \<Rightarrow> bool" where
  "is_shared_media_subtree_path p storage_path =
     (case relative_child_path storage_path (po_storage_root p) of
        None \<Rightarrow> False
      | Some relative \<Rightarrow>
          (case nonempty_parts slash relative of
             [] \<Rightarrow> False
           | android # rest \<Rightarrow> eq_ignore_case android ''Android'' \<and> (rest = [] \<or> eq_ignore_case (hd rest) ''media'')))"

definition has_real_child_rule :: "redirect_policy \<Rightarrow> bytes \<Rightarrow> bool" where
  "has_real_child_rule p storage_path =
     list_ex (\<lambda>rule. rule_may_match_path_or_descendant rule storage_path)
       (po_allowed_real_paths p @ po_read_only_paths p @ map request_path (po_path_mappings p))"

definition policy_is_read_only :: "redirect_policy \<Rightarrow> bytes \<Rightarrow> bytes option \<Rightarrow> bool" where
  "policy_is_read_only p storage_path mapped_target =
     (case mapped_target of
        Some mapped_target \<Rightarrow>
          if matches_any (po_excluded_real_index p) mapped_target then False
          else if matches_any (po_read_only_excluded_index p) mapped_target then False
          else matches_any (po_read_only_index p) mapped_target
      | None \<Rightarrow>
          if matches_any (po_excluded_real_index p) storage_path then False
          else if matches_any (po_read_only_excluded_index p) storage_path then False
          else if matches_any (po_read_only_index p) storage_path then True
          else list_ex (\<lambda>rule. contains_wildcards rule
                 \<and> (case wildcard_policy_fallback_parent rule (po_storage_root p) of
                      None \<Rightarrow> False | Some boundary \<Rightarrow> is_same_or_child storage_path boundary))
               (po_read_only_paths p))"

definition backend_decision_for :: "redirect_policy \<Rightarrow> bytes \<Rightarrow> operation_kind \<Rightarrow> backend_decision" where
  "backend_decision_for p storage_path operation =
     (let own_mapping_target = resolve_mapping p storage_path;
          is_read_only = policy_is_read_only p storage_path own_mapping_target;
          mapping_hit = (own_mapping_target \<noteq> None);
          is_sandbox = (po_is_mapping_mode_only p \<and> \<not> mapping_hit
            \<and> matches_any (po_sandboxed_index p) storage_path
            \<and> \<not> matches_any (po_sandboxed_excluded_index p) storage_path);
          delegate_foreign_private = (\<not> is_sandbox \<and> is_system_write_delegate_session (po_package_name p)
            \<and> is_foreign_private_storage_path p storage_path);
          kind =
            (if is_sandbox then Redirect
             else if po_is_monitor_only p \<or> mapping_hit \<or> is_own_private_storage_path p storage_path then Real
             else if po_is_mapping_mode_only p then
               (if is_foreign_private_storage_path p storage_path
                   \<and> \<not> is_system_write_delegate_session (po_package_name p) then Redirect else Real)
             else if matches_any (po_excluded_real_index p) storage_path then Redirect
             else if matches_any (po_read_only_excluded_index p) storage_path
                 \<or> matches_any (po_allowed_real_index p) storage_path
                 \<or> is_shared_media_subtree_path p storage_path
                 \<or> delegate_foreign_private
                 \<or> operation = Read \<and> (is_read_only \<or> has_real_child_rule p storage_path) then Real
             else Redirect)
      in \<lparr>bd_kind = kind, bd_read_only = is_read_only, bd_sandbox = is_sandbox, bd_mapping = own_mapping_target\<rparr>)"

section \<open>Model: resolving a path\<close>

text \<open>A write of an application to real storage that the original system would refuse.\<close>

definition write_leak :: "fuse_world \<Rightarrow> redirect_policy \<Rightarrow> backend_decision \<Rightarrow> operation_kind \<Rightarrow> bytes \<Rightarrow> bool" where
  "write_leak w p decision operation storage_path \<longleftrightarrow>
     bd_kind decision = Real \<and> operation = Write \<and> \<not> po_is_system_fallback p
     \<and> \<not> is_system_write_delegate_session (po_package_name p) \<and> bd_mapping decision = None
     \<and> \<not> is_own_private_storage_path p storage_path
     \<and> \<not> matches_any (po_allowed_real_index p) storage_path
     \<and> \<not> is_native_public_media_write_path storage_path
     \<and> \<not> is_shared_media_subtree_write_path storage_path
     \<and> \<not> is_same_uid_private_write_path w storage_path (po_uid p)"

definition decided_backend :: "fuse_world \<Rightarrow> redirect_policy \<Rightarrow> backend_decision \<Rightarrow> bytes \<Rightarrow> bytes option" where
  "decided_backend w p decision rel =
     (case bd_kind decision of
        Real \<Rightarrow> (case bd_mapping decision of
            Some mapped_target \<Rightarrow> real_backend_for_storage_path w p mapped_target
          | None \<Rightarrow> Some (real_backend_for_rel w p rel))
      | Redirect \<Rightarrow> Some (case (bd_sandbox decision, po_sandbox_backend_root p) of
            (True, Some sandbox_root) \<Rightarrow> pathbuf_join sandbox_root rel
          | _ \<Rightarrow> redirect_backend_for_rel w p rel))"

text \<open>A reader that was handed a path of another application's view gets the file it stands for.\<close>

definition cross_app_backend ::
  "fuse_world \<Rightarrow> (nat \<times> redirect_policy) list \<Rightarrow> handoffs \<Rightarrow> redirect_policy \<Rightarrow> backend_decision \<Rightarrow> operation_kind
    \<Rightarrow> bytes \<Rightarrow> bytes \<Rightarrow> bytes" where
  "cross_app_backend w peers handoffs p decision operation storage_path backend =
     (if operation = Read \<and> bd_kind decision = Real \<and> bd_mapping decision = None
         \<and> has_recent_cross_app_handoff (fw_now w) handoffs storage_path \<and> \<not> fw_exists w backend
      then (case resolve_cross_app_read_alias peers p storage_path of
              None \<Rightarrow> backend
            | Some alias_target \<Rightarrow>
                (case real_backend_for_storage_path w p alias_target of
                   None \<Rightarrow> backend
                 | Some alias_backend \<Rightarrow> if fw_exists w alias_backend then alias_backend else backend))
      else backend)"

definition share_read_backend ::
  "fuse_world \<Rightarrow> redirect_policy \<Rightarrow> backend_decision \<Rightarrow> operation_kind \<Rightarrow> bytes \<Rightarrow> bytes \<Rightarrow> bytes \<Rightarrow> bytes" where
  "share_read_backend w p decision operation storage_path rel backend =
     (if operation = Read \<and> bd_kind decision = Redirect \<and> matches_any (po_sandboxed_index p) storage_path
         \<and> \<not> matches_any (po_sandboxed_excluded_index p) storage_path
         \<and> \<not> fw_exists w backend \<and> fw_is_file w (real_backend_for_rel w p rel)
      then real_backend_for_rel w p rel else backend)"

definition resolve_own_rel ::
  "fuse_world \<Rightarrow> (nat \<times> redirect_policy) list \<Rightarrow> redirect_policy \<Rightarrow> bytes \<Rightarrow> operation_kind \<Rightarrow> handoffs
    \<Rightarrow> backend_path option \<times> handoffs" where
  "resolve_own_rel w peers p rel operation handoffs =
     (case sanitize_relative rel of
        None \<Rightarrow> (None, handoffs)
      | Some rel \<Rightarrow>
          (let rel = fold_view_rel p rel;
               storage_path = normalize (storage_path_for_rel p rel);
               decision = backend_decision_for p storage_path operation;
               handoffs = (if bd_mapping decision \<noteq> None
                 then record_own_mapped_handoff (fw_now w) storage_path handoffs else handoffs)
           in if write_leak w p decision operation storage_path then (None, handoffs)
              else (case decided_backend w p decision rel of
                      None \<Rightarrow> (None, handoffs)
                    | Some backend \<Rightarrow>
                        (let backend = cross_app_backend w peers handoffs p decision operation storage_path backend;
                             backend = share_read_backend w p decision operation storage_path rel backend
                         in (Some \<lparr>bp_rel = rel, bp_path = backend, bp_read_only = bd_read_only decision,
                               bp_shared_public = is_shared_public_backend_path p backend,
                               bp_app_private = (bd_kind decision = Real \<and> is_own_private_storage_path p storage_path)\<rparr>,
                             handoffs)))))"

definition resolve_relative ::
  "fuse_world \<Rightarrow> (nat \<times> redirect_policy) list \<Rightarrow> redirect_policy \<Rightarrow> bytes \<Rightarrow> operation_kind \<Rightarrow> handoffs
    \<Rightarrow> backend_path option \<times> handoffs" where
  "resolve_relative w peers p rel operation handoffs =
     (if po_deny_all p then (None, handoffs)
      else if po_view_lifted p then
        (case lifted_view_rel p rel of
           Some rest \<Rightarrow> resolve_own_rel w peers p rest operation handoffs
         | None \<Rightarrow>
             if trim_char slash rel = [] then resolve_own_rel w peers p [] operation handoffs
             else (passthrough_foreign_view_rel p rel, handoffs))
      else resolve_own_rel w peers p rel operation handoffs)"

section \<open>Model: directories\<close>

definition children_route_uniformly :: "redirect_policy \<Rightarrow> bytes \<Rightarrow> bool" where
  "children_route_uniformly p parent_rel =
     (if po_deny_all p \<or> po_has_wildcard_rules p then False
      else if trim_char slash parent_rel = [] then False
      else let parent_storage = storage_path_for_rel p parent_rel
        in if list_ex (\<lambda>rule. is_strict_subpath rule parent_storage) (po_all_literal_rule_paths p) then False
           else if list_ex (\<lambda>mapping. is_strict_subpath (request_path mapping) parent_storage) (po_path_mappings p)
           then False
           else list_all (\<lambda>root. \<not> is_strict_subpath root (full_storage_rel p parent_rel)) (po_own_private_roots p))"

definition is_virtual_dir :: "redirect_policy \<Rightarrow> bytes \<Rightarrow> bool" where
  "is_virtual_dir p rel =
     (let storage_path = storage_path_for_rel p rel
      in list_ex (\<lambda>pre. eq_ignore_case (px_storage_path pre) storage_path
           \<or> is_child (px_storage_path pre) storage_path
           \<or> (\<not> px_full_prefix pre \<and> rule_has_path_prefix storage_path (px_storage_path pre))) (po_rule_prefixes p))"

definition is_real_backend_path_for_storage_rel :: "fuse_world \<Rightarrow> redirect_policy \<Rightarrow> bytes \<Rightarrow> bytes \<Rightarrow> bool" where
  "is_real_backend_path_for_storage_rel w p rel path =
     (let storage_path = (if rel = [] then po_storage_root p else path_join (po_storage_root p) rel)
      in if bd_kind (backend_decision_for p storage_path Read) \<noteq> Real \<or> resolve_mapping p storage_path \<noteq> None then False
         else (let expected = real_backend_for_storage_rel w p rel
               in if pathbuf_eq path expected then True
                  else if is_android_private_storage_subtree_relative_path rel
                  then pathbuf_eq path (pathbuf_join (po_real_root p) rel)
                  else (case fw_canonicalize w expected of
                          None \<Rightarrow> False
                        | Some expected_canonical \<Rightarrow>
                            (case fw_canonicalize w path of
                               None \<Rightarrow> False | Some resolved \<Rightarrow> pathbuf_eq resolved expected_canonical))))"

definition should_heal_media_sqlite_shm_rel :: "redirect_policy \<Rightarrow> bytes \<Rightarrow> bool" where
  "should_heal_media_sqlite_shm_rel p rel =
     (let own = is_own_media_sqlite_relative_path rel (po_package_name p);
          monitored = (po_is_monitor_only p \<and> is_android_private_sqlite_relative_path rel
            \<and> bd_kind (backend_decision_for p (storage_path_for_rel p rel) Read) = Real)
      in if \<not> own \<and> \<not> monitored then False
         else (let file_name = last (split_char slash rel)
               in 4 < length file_name \<and> ends_with_str (to_ascii_lowercase file_name) ''-shm''))"

definition should_exclude_passthrough_mmap_log_rel :: "bytes \<Rightarrow> bool" where
  "should_exclude_passthrough_mmap_log_rel rel =
     (contains_str rel ''/statistic_wlog/'' \<or> ends_with_str rel ''.wlog'' \<or> ends_with_str rel ''.wmmap''
      \<or> ends_with_str rel ''/mmap_cache'')"

section \<open>Model: the registry\<close>

record namespace_entry =
  ne_policy :: redirect_policy
  ne_app_pid :: i32
  ne_app_start_time_ticks :: "nat option"

record policy_table =
  pt_by_uid :: "(nat \<times> redirect_policy) list"
  pt_by_namespace :: "(namespace \<times> namespace_entry) list"

record policy_registry =
  pr_session :: redirect_policy
  pr_system_fallback :: "redirect_policy option"
  pr_fallback :: redirect_policy

definition NAMESPACE_POLICY_PRUNE_THRESHOLD :: nat where
  "NAMESPACE_POLICY_PRUNE_THRESHOLD = 256"

definition ANDROID_APP_UID_START :: nat where
  "ANDROID_APP_UID_START = 10000"

definition namespace_insert ::
  "fuse_world \<Rightarrow> namespace \<Rightarrow> namespace_entry \<Rightarrow> (namespace \<times> namespace_entry) list \<Rightarrow> (namespace \<times> namespace_entry) list" where
  "namespace_insert w namespace entry namespaces =
     (let namespaces = (if NAMESPACE_POLICY_PRUNE_THRESHOLD \<le> length namespaces \<and> map_of namespaces namespace = None
        then filter (\<lambda>(_, e). case ne_app_start_time_ticks e of
               Some ticks \<Rightarrow> fw_alive w (ne_app_pid e) ticks | None \<Rightarrow> False) namespaces
        else namespaces)
      in AList.update namespace entry namespaces)"

definition registered_mount_namespace :: "fuse_world \<Rightarrow> fuse_config \<Rightarrow> namespace option" where
  "registered_mount_namespace w config =
     (case fc_app_start_time_ticks config of
        None \<Rightarrow> None
      | Some expected_start \<Rightarrow>
          if fw_start_ticks w (fc_app_pid config) \<noteq> Some expected_start then None
          else fw_namespace w (fc_app_pid config))"

definition namespace_entry_of :: "fuse_config \<Rightarrow> redirect_policy \<Rightarrow> namespace_entry" where
  "namespace_entry_of config policy =
     \<lparr>ne_policy = policy, ne_app_pid = fc_app_pid config, ne_app_start_time_ticks = fc_app_start_time_ticks config\<rparr>"

definition register_policy :: "fuse_world \<Rightarrow> fuse_config \<Rightarrow> policy_table \<Rightarrow> nat option \<times> policy_table" where
  "register_policy w config table =
     (if fc_uid config < 0 then (None, table)
      else case RedirectPolicy_new w config of
             None \<Rightarrow> (None, table)
           | Some policy \<Rightarrow>
               (let table = table\<lparr>pt_by_uid := AList.update (nat (fc_uid config)) policy (pt_by_uid table)\<rparr>;
                    table = (case registered_mount_namespace w config of
                        None \<Rightarrow> table
                      | Some namespace \<Rightarrow> table\<lparr>pt_by_namespace := namespace_insert w namespace
                          (namespace_entry_of config policy) (pt_by_namespace table)\<rparr>)
                in (Some (length (pt_by_uid table)), table)))"

definition register_namespace_only :: "fuse_world \<Rightarrow> fuse_config \<Rightarrow> policy_table \<Rightarrow> nat option \<times> policy_table" where
  "register_namespace_only w config table =
     (case registered_mount_namespace w config of
        None \<Rightarrow> (None, table)
      | Some namespace \<Rightarrow>
          (case RedirectPolicy_new w config of
             None \<Rightarrow> (None, table)
           | Some policy \<Rightarrow>
               (let namespaces = namespace_insert w namespace (namespace_entry_of config policy) (pt_by_namespace table)
                in (Some (length namespaces), table\<lparr>pt_by_namespace := namespaces\<rparr>))))"

definition PolicyRegistry_new :: "redirect_policy \<Rightarrow> bool \<Rightarrow> policy_registry" where
  "PolicyRegistry_new policy deny_unregistered =
     \<lparr>pr_session = policy,
      pr_system_fallback = (if deny_unregistered then Some (copied_as_system_fallback policy) else None),
      pr_fallback = (if deny_unregistered then copied_as_deny_all policy else policy)\<rparr>"

definition policy_for_request :: "fuse_world \<Rightarrow> policy_registry \<Rightarrow> policy_table \<Rightarrow> nat \<Rightarrow> nat \<Rightarrow> redirect_policy" where
  "policy_for_request w registry table uid pid =
     (let request_namespace = (if pid < 2 ^ 31 then fw_namespace w (int pid) else None);
          by_namespace = (if uid = 0 then (case request_namespace of
              Some namespace \<Rightarrow> map_option ne_policy (map_of (pt_by_namespace table) namespace) | None \<Rightarrow> None) else None);
          system = (if 0 < uid \<and> uid < ANDROID_APP_UID_START then pr_system_fallback registry else None)
      in case map_of (pt_by_uid table) uid of
           Some policy \<Rightarrow> policy
         | None \<Rightarrow> (case by_namespace of
             Some policy \<Rightarrow> policy
           | None \<Rightarrow> (case system of Some policy \<Rightarrow> policy | None \<Rightarrow> pr_fallback registry)))"

definition for_uid_exact :: "policy_table \<Rightarrow> nat \<Rightarrow> redirect_policy option" where
  "for_uid_exact table uid = map_of (pt_by_uid table) uid"

definition find_owner_policy_by_package :: "policy_table \<Rightarrow> bytes \<Rightarrow> redirect_policy option" where
  "find_owner_policy_by_package table package_name =
     find (\<lambda>policy. po_package_name policy = package_name) (map snd (pt_by_uid table))"

end
