(* ===== verification/Fuse_Metadata.thy ===== *)
theory Fuse_Metadata
  imports Fuse_Inode "HOL-Library.Word"
begin

text \<open>
  The arithmetic around the system calls of the FUSE handlers: owner and mode of a new entry
  (\<^verbatim>\<open>src/fuse_redirect/metadata.rs\<close>), the meaning of open flags
  (\<^verbatim>\<open>src/fuse_redirect/helpers.rs\<close> and \<^verbatim>\<open>open_backend_file\<close> of \<^verbatim>\<open>mod.rs\<close>), and, from
  \<^verbatim>\<open>src/fuse_redirect/callbacks.rs\<close>, the loop that completes a short write and the test for a
  damaged SQLite \<^verbatim>\<open>-shm\<close> file. Modes, owners and flags are 32-bit words, as in the code; the constants
  of \<^verbatim>\<open>libc\<close> have the values of arm64 Android.
\<close>

unbundle bit_operations_syntax

section \<open>Model: owner and mode of an entry\<close>

definition MEDIA_RW_UID :: "32 word" where
  "MEDIA_RW_UID = 1023"

definition MEDIA_RW_GID :: "32 word" where
  "MEDIA_RW_GID = 1023"

definition EXT_DATA_RW_GID :: "32 word" where
  "EXT_DATA_RW_GID = 1078"

text \<open>The modes 02770 and 02771.\<close>

definition SHARED_PUBLIC_DIR_MODE :: "32 word" where
  "SHARED_PUBLIC_DIR_MODE = 0x5F8"

definition MAPPED_DIR_MODE :: "32 word" where
  "MAPPED_DIR_MODE = 0x5F9"

record entry_metadata =
  em_uid :: "32 word"
  em_gid :: "32 word"
  em_mode :: "32 word"
  em_rewrite_owner :: bool
  em_rewrite_mode :: bool

text \<open>In octal: 07777 is FFF, 07000 is E00, 0775 is 1FD, 0664 is 1B4, 0700 is 1C0.\<close>

definition adjust_metadata_mode :: "32 word \<Rightarrow> bool \<Rightarrow> bool \<Rightarrow> bool \<Rightarrow> 32 word" where
  "adjust_metadata_mode mode is_shared_public is_app_private is_dir =
     (let mode = mode AND 0xFFF
      in if is_shared_public \<and> is_dir then SHARED_PUBLIC_DIR_MODE
         else if is_app_private then
           (if is_dir then (mode AND 0xE00) OR 0x1FD else (mode AND 0xE00) OR 0x1B4)
         else let owner_bits_for_group = drop_bit 3 (mode AND 0x1C0)
           in (mode OR owner_bits_for_group) AND NOT 7)"

definition create_metadata ::
  "bool \<Rightarrow> 32 word \<Rightarrow> 32 word \<Rightarrow> 32 word \<Rightarrow> 32 word \<Rightarrow> bool \<Rightarrow> bool \<Rightarrow> bool \<Rightarrow> entry_metadata" where
  "create_metadata repair_enabled request_uid request_gid owner_uid mode is_shared_public is_app_private is_dir =
     (let as_requested = \<lparr>em_uid = request_uid, em_gid = request_gid, em_mode = mode AND 0xFFF,
            em_rewrite_owner = False, em_rewrite_mode = False\<rparr>
      in if \<not> repair_enabled then as_requested
         else if is_shared_public then
           \<lparr>em_uid = MEDIA_RW_UID, em_gid = MEDIA_RW_GID, em_mode = adjust_metadata_mode mode True False is_dir,
            em_rewrite_owner = True, em_rewrite_mode = True\<rparr>
         else if is_app_private then
           \<lparr>em_uid = owner_uid, em_gid = EXT_DATA_RW_GID, em_mode = adjust_metadata_mode mode False True is_dir,
            em_rewrite_owner = True, em_rewrite_mode = True\<rparr>
         else as_requested)"

text \<open>What a rename does to the entry it moved: nothing, or the metadata of a shared entry.\<close>

definition existing_path_metadata :: "bool \<Rightarrow> 32 word \<Rightarrow> bool \<Rightarrow> (32 word \<times> bool) option \<Rightarrow> entry_metadata option" where
  "existing_path_metadata repair_enabled owner_uid is_shared_public metadata =
     (if \<not> repair_enabled \<or> \<not> is_shared_public then None
      else case metadata of
             None \<Rightarrow> None
           | Some (mode, is_dir) \<Rightarrow>
               Some (create_metadata repair_enabled MEDIA_RW_UID MEDIA_RW_GID owner_uid (mode AND 0xFFF)
                       is_shared_public False is_dir))"

text \<open>Owner and group that \<^verbatim>\<open>setattr\<close> passes to \<^verbatim>\<open>chown\<close>; \<^verbatim>\<open>u32::MAX\<close> leaves one unchanged.\<close>

definition setattr_owner :: "bool \<Rightarrow> 32 word option \<Rightarrow> 32 word option \<Rightarrow> (32 word \<times> 32 word) option" where
  "setattr_owner is_shared_public uid gid =
     (if uid = None \<and> gid = None then None
      else Some (if is_shared_public then MEDIA_RW_UID else (case uid of Some u \<Rightarrow> u | None \<Rightarrow> - 1),
                 if is_shared_public then MEDIA_RW_GID else (case gid of Some g \<Rightarrow> g | None \<Rightarrow> - 1)))"

section \<open>Model: open flags\<close>

definition O_WRONLY :: "32 word" where "O_WRONLY = 0x1"
definition O_RDWR :: "32 word" where "O_RDWR = 0x2"
definition O_ACCMODE :: "32 word" where "O_ACCMODE = 0x3"
definition O_CREAT :: "32 word" where "O_CREAT = 0x40"
definition O_EXCL :: "32 word" where "O_EXCL = 0x80"
definition O_TRUNC :: "32 word" where "O_TRUNC = 0x200"
definition O_APPEND :: "32 word" where "O_APPEND = 0x400"
definition O_CLOEXEC :: "32 word" where "O_CLOEXEC = 0x80000"
definition O_PATH :: "32 word" where "O_PATH = 0x200000"
definition O_TMPFILE :: "32 word" where "O_TMPFILE = 0x404000"

lemmas open_flag_values = O_WRONLY_def O_RDWR_def O_ACCMODE_def O_CREAT_def O_EXCL_def O_TRUNC_def O_APPEND_def
  O_CLOEXEC_def O_PATH_def O_TMPFILE_def

definition open_flags_write :: "32 word \<Rightarrow> bool" where
  "open_flags_write flags =
     (flags AND O_ACCMODE = O_WRONLY \<or> flags AND O_ACCMODE = O_RDWR \<or> flags AND O_TRUNC \<noteq> 0)"

definition open_flags_create :: "32 word \<Rightarrow> bool" where
  "open_flags_create flags = (flags AND O_CREAT \<noteq> 0 \<or> flags AND O_TMPFILE = O_TMPFILE)"

definition fuse_open_operation_name :: "32 word \<Rightarrow> bytes" where
  "fuse_open_operation_name flags =
     (if open_flags_create flags then ''open:create''
      else if open_flags_write flags then ''open:write'' else ''open:read'')"

definition fuse_setattr_operation_name :: "bool \<Rightarrow> bool \<Rightarrow> bool \<Rightarrow> bool \<Rightarrow> bool \<Rightarrow> bool \<Rightarrow> bytes" where
  "fuse_setattr_operation_name has_mode has_uid has_gid has_size has_atime has_mtime =
     (if has_size then ''truncate'' else if has_mode then ''chmod'' else if has_uid \<or> has_gid then ''chown''
      else if has_atime \<or> has_mtime then ''utimens'' else ''setattr'')"

text \<open>The flags the daemon opens a back end with.\<close>

definition backend_open_flags :: "32 word \<Rightarrow> 32 word" where
  "backend_open_flags flags =
     (let flags = flags OR O_CLOEXEC;
          flags = (if flags AND O_PATH = 0 \<and> flags AND O_ACCMODE \<noteq> 0
                   then (flags AND NOT O_ACCMODE) OR O_RDWR else flags)
      in flags AND NOT O_APPEND)"

section \<open>Model: completing a short write\<close>

text \<open>
  The answer of one \<^verbatim>\<open>write_at\<close>: a number of bytes that were written, an interruption, or an error. The file is
  its contents; a write behind the end fills the gap with zero bytes. The list of answers is what the
  file system does; \<^verbatim>\<open>None\<close> is a loop that is still running when the answers are used up.
\<close>

datatype write_answer = Wrote nat | Interrupted | Failed errno

definition pwrite :: "nat \<Rightarrow> bytes \<Rightarrow> bytes \<Rightarrow> bytes" where
  "pwrite offset data content =
     (if data = [] then content
      else take offset (content @ replicate (offset - length content) (CHR 0x00)) @ data
             @ drop (offset + length data) content)"

fun write_full_at :: "write_answer list \<Rightarrow> bytes \<Rightarrow> nat \<Rightarrow> bytes \<Rightarrow> ((errno + nat) \<times> bytes) option" where
  "write_full_at answers [] offset content = Some (Inr 0, content)"
| "write_full_at [] (b # data) offset content = None"
| "write_full_at (Interrupted # answers) (b # data) offset content = write_full_at answers (b # data) offset content"
| "write_full_at (Failed e # answers) (b # data) offset content = Some (Inl e, content)"
| "write_full_at (Wrote n # answers) (b # data) offset content =
     (if n = 0 then Some (Inl ENOSPC, content)
      else let done = min n (length (b # data))
        in map_option (apfst (map_sum id ((+) done)))
             (write_full_at answers (drop done (b # data)) (sat_add_u64 offset done)
                (pwrite offset (take done (b # data)) content)))"

section \<open>Model: damaged SQLite shared-memory files\<close>

definition SQLITE_SHM_MIN_SIZE_BYTES :: nat where
  "SQLITE_SHM_MIN_SIZE_BYTES = 32 * 1024"

text \<open>The file name of a path is its last component; a path that ends in two dots has none.\<close>

definition sqlite_sidecar_wal_path :: "bytes \<Rightarrow> bytes option" where
  "sqlite_sidecar_wal_path shm_path =
     (let file_name = last (split_char slash shm_path);
          stem_len = length file_name - 4
      in if length file_name \<le> 4 \<or> \<not> ends_with_str (to_ascii_lowercase file_name) ''-shm'' then None
         else Some (take (length shm_path - length file_name) shm_path @ take stem_len file_name @ ''-wal''))"

definition read_file_prefix :: "(bytes \<Rightarrow> bytes option) \<Rightarrow> bytes \<Rightarrow> nat \<Rightarrow> bytes option" where
  "read_file_prefix contents path len =
     (case contents path of
        None \<Rightarrow> None | Some content \<Rightarrow> if length content < len then None else Some (take len content))"

definition wal_magic :: "bytes \<Rightarrow> nat" where
  "wal_magic wal = of_char (wal ! 0) * 2 ^ 24 + of_char (wal ! 1) * 2 ^ 16 + of_char (wal ! 2) * 2 ^ 8 + of_char (wal ! 3)"

definition sqlite_shm_wal_index_stale :: "(bytes \<Rightarrow> bytes option) \<Rightarrow> bytes \<Rightarrow> bool" where
  "sqlite_shm_wal_index_stale contents shm_path =
     (case sqlite_sidecar_wal_path shm_path of
        None \<Rightarrow> False
      | Some wal_path \<Rightarrow>
          (case read_file_prefix contents shm_path 48 of
             None \<Rightarrow> False
           | Some shm \<Rightarrow>
               if shm ! 12 \<noteq> CHR 0x01 then False
               else (case read_file_prefix contents wal_path 32 of
                       None \<Rightarrow> False
                     | Some wal \<Rightarrow>
                         if wal_magic wal \<noteq> 0x377F0682 \<and> wal_magic wal \<noteq> 0x377F0683 then False
                         else take 8 (drop 32 shm) \<noteq> take 8 (drop 16 wal))))"

text \<open>
  Whether the file is one that is removed: it is a regular file and its size, or its header, is damaged.
  \<open>contents\<close> gives the files and \<open>is_file\<close> tells files from directories.
\<close>

definition shm_is_poisoned :: "(bytes \<Rightarrow> bytes option) \<Rightarrow> bytes \<Rightarrow> bool" where
  "shm_is_poisoned contents real_path =
     (case contents real_path of
        None \<Rightarrow> False
      | Some content \<Rightarrow>
          (let n = length content
           in if n = 0 then False
              else if SQLITE_SHM_MIN_SIZE_BYTES \<le> n \<and> \<not> sqlite_shm_wal_index_stale contents real_path then False
              else True))"

text \<open>A \<^verbatim>\<open>truncate\<close> of a \<^verbatim>\<open>-shm\<close> file never makes it smaller than a valid one.\<close>

definition setattr_size :: "bytes \<Rightarrow> nat \<Rightarrow> nat" where
  "setattr_size rel requested =
     (let file_name = last (split_char slash rel);
          is_sqlite_shm = (4 < length file_name \<and> ends_with_str (to_ascii_lowercase file_name) ''-shm''
            \<and> is_sqlite_database_or_sidecar_path rel)
      in if is_sqlite_shm \<and> 0 < requested \<and> requested < SQLITE_SHM_MIN_SIZE_BYTES
         then SQLITE_SHM_MIN_SIZE_BYTES else requested)"

text \<open>\<^verbatim>\<open>lseek\<close> on a back end: the whole file is data, with a hole at its end.\<close>

definition lseek_offset :: "int \<Rightarrow> int \<Rightarrow> int \<Rightarrow> errno + int" where
  "lseek_offset file_len offset whence =
     (if whence = 3 then (if file_len \<le> offset then Inl (Errno 6) else Inr (max offset 0))
      else if whence = 4 then (if file_len \<le> offset then Inl (Errno 6) else Inr file_len)
      else Inl EINVAL)"

section \<open>Completing a short write\<close>

lemma pwrite_Nil [simp]: "pwrite offset [] content = content"
  by (simp add: pwrite_def)

lemma pwrite_pwrite:
  assumes "n \<le> length data"
  shows "pwrite (offset + n) (drop n data) (pwrite offset (take n data) content) = pwrite offset data content"
proof (cases "n = 0 \<or> n = length data")
  case True
  then show ?thesis by auto
next
  case False
  let ?c = "content @ replicate (offset - length content) (CHR 0x00)"
  let ?m = "pwrite offset (take n data) content"
  have n: "0 < n" "n < length data" using False assms by auto
  then have ne: "take n data \<noteq> []" "drop n data \<noteq> []" by auto
  have fit: "min (length content) offset + (offset - length content) = offset" by (simp add: min_def)
  have pre: "length (take offset ?c) = offset" by simp
  have m: "?m = take offset ?c @ take n data @ drop (offset + n) content"
    using n ne by (simp add: pwrite_def min_def)
  have len: "offset + n \<le> length ?m" unfolding m using pre n by simp
  have keep: "take (offset + n) (?m @ replicate (offset + n - length ?m) (CHR 0x00)) = take offset ?c @ take n data"
    using len n fit by (simp add: m)
  have rest: "drop (offset + n + (length data - n)) ?m = drop (offset + length data) content"
    using n pre fit by (simp add: m add.commute)
  have "pwrite (offset + n) (drop n data) ?m
      = (take offset ?c @ take n data) @ drop n data @ drop (offset + length data) content"
    using ne keep rest n unfolding pwrite_def [of "offset + n"] by simp
  also have "\<dots> = take offset ?c @ data @ drop (offset + length data) content"
    using append_take_drop_id [of n data] by (metis append.assoc)
  also have "\<dots> = pwrite offset data content" using n by (auto simp: pwrite_def)
  finally show ?thesis .
qed

lemma write_full_at_exact:
  assumes "write_full_at answers data offset content = Some (result, content')" and "offset + length data \<le> U64_MAX"
  shows "(\<forall>n. result = Inr n \<longrightarrow> n = length data \<and> content' = pwrite offset data content)
    \<and> (\<forall>e. result = Inl e \<longrightarrow> (e = ENOSPC \<or> Failed e \<in> set answers)
         \<and> (\<exists>k < length data. content' = pwrite offset (take k data) content))"
  using assms
proof (induction answers data offset content arbitrary: result content' rule: write_full_at.induct)
  case (4 e answers b data offset content)
  then show ?case by (auto intro: exI [of _ 0])
next
  case (5 n answers b data offset content)
  show ?case
  proof (cases "n = 0")
    case True
    with 5 show ?thesis by (auto intro: exI [of _ 0])
  next
    case False
    define d where "d = b # data"
    define m where "m = min n (length d)"
    have m: "0 < m" "m \<le> length d" using False by (auto simp: m_def d_def)
    have sat: "sat_add_u64 offset m = offset + m" using 5(3) m by (simp add: sat_add_u64_def d_def)
    have step: "write_full_at (Wrote n # answers) d offset content
        = map_option (apfst (map_sum id ((+) m))) (write_full_at answers (drop m d) (offset + m) (pwrite offset (take m d) content))"
      using False sat [unfolded m_def d_def] unfolding m_def d_def write_full_at.simps Let_def by simp
    obtain r c where rec: "write_full_at answers (drop m d) (offset + m) (pwrite offset (take m d) content) = Some (r, c)"
      and res: "result = map_sum id ((+) m) r" "content' = c"
      using 5(2) [folded d_def] unfolding step by auto
    have IH: "(\<forall>n. r = Inr n \<longrightarrow> n = length (drop m d) \<and> c = pwrite (offset + m) (drop m d) (pwrite offset (take m d) content))
      \<and> (\<forall>e. r = Inl e \<longrightarrow> (e = ENOSPC \<or> Failed e \<in> set answers)
         \<and> (\<exists>k < length (drop m d). c = pwrite (offset + m) (take k (drop m d)) (pwrite offset (take m d) content)))"
      using 5(1) [OF False refl, folded d_def, folded m_def, unfolded sat, OF rec] 5(3) m by (simp add: d_def)
    have part: "pwrite (offset + m) (take k (drop m d)) (pwrite offset (take m d) content) = pwrite offset (take (m + k) d) content"
      if "k < length (drop m d)" for k
      using pwrite_pwrite [of m "take (m + k) d" offset content] m by (simp add: drop_take min_def)
    show ?thesis
    proof (cases r)
      case (Inl e)
      with IH obtain k where "e = ENOSPC \<or> Failed e \<in> set answers" "k < length d - m"
        "c = pwrite (offset + m) (take k (drop m d)) (pwrite offset (take m d) content)" by auto
      with part [of k] have "m + k < length d" "content' = pwrite offset (take (m + k) d) content" using res by auto
      with \<open>e = ENOSPC \<or> _\<close> show ?thesis using res Inl by (auto simp: d_def)
    next
      case (Inr n')
      with IH show ?thesis using res m pwrite_pwrite [OF m(2)] by (simp add: d_def)
    qed
  qed
qed simp_all

lemma write_full_at_returns:
  "length data \<le> length (filter (\<lambda>a. a \<noteq> Interrupted) answers) \<Longrightarrow> write_full_at answers data offset content \<noteq> None"
proof (induction answers data offset content rule: write_full_at.induct)
  case (5 n answers b data offset content)
  define m where "m = min n (Suc (length data))"
  show ?case
  proof (cases "n = 0")
    case False
    then have "length (drop m (b # data)) \<le> length (filter (\<lambda>a. a \<noteq> Interrupted) answers)"
      using 5(2) by (auto simp: m_def)
    from 5(1) [OF False refl, unfolded list.size add_0_right add_Suc_right, folded m_def, OF this] False
    show ?thesis by (simp add: m_def Let_def)
  qed simp
qed simp_all



section \<open>Modes and flags\<close>

lemma bit_exp: "bit (2 ^ m :: 32 word) n \<longleftrightarrow> n = m \<and> m < 32"
  by (auto simp: bit_exp_iff)

lemma bit_masks:
  "bit (0x1C0 :: 32 word) n \<longleftrightarrow> 6 \<le> n \<and> n < 9" "bit (7 :: 32 word) n \<longleftrightarrow> n < 3" "bit (0xFFF :: 32 word) n \<longleftrightarrow> n < 12" "bit (3 :: 32 word) n \<longleftrightarrow> n < 2"
proof -
  have "(0x1C0 :: 32 word) = push_bit 6 (mask 3)" "(7 :: 32 word) = mask 3" "(0xFFF :: 32 word) = mask 12" "(3 :: 32 word) = mask 2"
    by (simp_all add: mask_eq_exp_minus_1)
  then show "bit (0x1C0 :: 32 word) n \<longleftrightarrow> 6 \<le> n \<and> n < 9" "bit (7 :: 32 word) n \<longleftrightarrow> n < 3" "bit (0xFFF :: 32 word) n \<longleftrightarrow> n < 12" "bit (3 :: 32 word) n \<longleftrightarrow> n < 2"
    by (auto simp only: bit_push_bit_iff bit_mask_iff possible_bit_word) auto
qed

lemma mirrored_mode:
  fixes mode :: "32 word"
  defines "m \<equiv> (mode AND 0xFFF OR drop_bit 3 ((mode AND 0xFFF) AND 0x1C0)) AND NOT 7"
  shows "m AND 7 = 0 \<and> m AND NOT 0xFFF = 0 \<and> drop_bit 3 (m AND 0x1C0) AND NOT m = 0"
proof -
  have m: "bit m n \<longleftrightarrow> 3 \<le> n \<and> n < 12 \<and> (bit mode n \<or> n < 6 \<and> bit mode (3 + n))" for n
    unfolding m_def bit_and_iff bit_or_iff bit_not_iff bit_drop_bit_eq bit_masks comp_def possible_bit_word by auto
  show ?thesis
    by (intro conjI; rule bit_word_eqI)
       (auto simp only: bit_and_iff bit_or_iff bit_not_iff bit_drop_bit_eq bit_masks m comp_def possible_bit_word bit_0_eq bot_apply bot_bool_def)
qed

lemma adjusted_shared_mode:
  "adjust_metadata_mode mode True False is_dir AND 7 = 0
    \<and> adjust_metadata_mode mode True False is_dir AND NOT 0xFFF = 0
    \<and> drop_bit 3 (adjust_metadata_mode mode True False is_dir AND 0x1C0) AND NOT (adjust_metadata_mode mode True False is_dir) = 0"
proof (cases is_dir)
  case True
  then show ?thesis by (simp add: adjust_metadata_mode_def SHARED_PUBLIC_DIR_MODE_def)
next
  case False
  have "adjust_metadata_mode mode True False is_dir = (mode AND 0xFFF OR drop_bit 3 ((mode AND 0xFFF) AND 0x1C0)) AND NOT 7"
    unfolding adjust_metadata_mode_def Let_def using False by (simp only: simp_thms if_False)
  then show ?thesis using mirrored_mode [of mode] by (simp only:)
qed

lemma adjusted_private_mode:
  "adjust_metadata_mode mode False True is_dir AND NOT 0xFFF = 0
    \<and> adjust_metadata_mode mode False True is_dir AND 0x1FF = (if is_dir then 0x1FD else 0x1B4)"
proof -
  have low: "(mode AND 0xE00 OR k) AND 0x1FF = k" if "k AND 0x1FF = k" for k :: "32 word"
    using that by (simp add: bit.conj_disj_distrib2 and.assoc)
  have high: "(mode AND 0xE00 OR k) AND NOT 0xFFF = 0" if "k AND NOT 0xFFF = 0" for k :: "32 word"
    using that by (simp add: bit.conj_disj_distrib2 and.assoc)
  have "adjust_metadata_mode mode False True is_dir = (mode AND 0xE00) OR (if is_dir then 0x1FD else 0x1B4)"
    by (simp add: adjust_metadata_mode_def and.assoc)
  then show ?thesis using low [of "0x1FD"] low [of "0x1B4"] high [of "0x1FD"] high [of "0x1B4"] by (simp only: split: if_split) simp
qed

text \<open>
  The mode of an entry the session creates. It has no bits beyond the twelve of a mode; on shared
  storage others get nothing and the group gets what the owner has; in an application's private directory
  it is the mode the platform uses there, whatever the application asked for.
\<close>

theorem created_entry_modes:
  "let m = em_mode (create_metadata repair ruid rgid owner mode is_shared is_private is_dir)
   in m AND NOT 0xFFF = 0
    \<and> (repair \<and> is_shared \<longrightarrow> m AND 7 = 0 \<and> drop_bit 3 (m AND 0x1C0) AND NOT m = 0)
    \<and> (repair \<and> \<not> is_shared \<and> is_private \<longrightarrow> m AND 0x1FF = (if is_dir then 0x1FD else 0x1B4))"
proof -
  have "(mode AND 0xFFF) AND NOT 0xFFF = 0" by (simp add: and.assoc)
  then show ?thesis
    using adjusted_shared_mode [of mode is_dir] adjusted_private_mode [of mode is_dir]
    unfolding create_metadata_def Let_def by (cases repair; cases is_shared; cases is_private) simp_all
qed

theorem created_entry_modes_witness:
  "em_mode (create_metadata True 10123 9997 10123 0x180 True False False) = 0x1B0
    \<and> 0x1B0 AND 7 = (0 :: 32 word)"
proof -
  have m: "em_mode (create_metadata True 10123 9997 10123 0x180 True False False) = 0x1B0"
    by (simp add: create_metadata_def adjust_metadata_mode_def)
  then show ?thesis
    using created_entry_modes [of True 10123 9997 10123 "0x180" True False False] by (simp add: Let_def)
qed

text \<open>
  A back end is opened so that the kernel can write it back. Whatever the application asked for, the
  descriptor of the daemon is never in append mode; unless it is a path descriptor, it can be read, and it
  can be written exactly when the application asked for writing; all other flags are kept.
\<close>

theorem backend_open_flags_correct:
  "backend_open_flags flags AND O_APPEND = 0
    \<and> (flags AND O_PATH = 0 \<longrightarrow> backend_open_flags flags AND O_ACCMODE = (if flags AND O_ACCMODE = 0 then 0 else O_RDWR))
    \<and> (flags AND O_PATH \<noteq> 0 \<longrightarrow> backend_open_flags flags AND O_ACCMODE = flags AND O_ACCMODE)
    \<and> backend_open_flags flags AND NOT (O_ACCMODE OR O_APPEND)
        = (flags OR O_CLOEXEC) AND NOT (O_ACCMODE OR O_APPEND)"
proof -
  have bits: "bit O_APPEND n \<longleftrightarrow> n = 10" "bit O_RDWR n \<longleftrightarrow> n = 1" "bit O_CLOEXEC n \<longleftrightarrow> n = 19"
      "bit O_PATH n \<longleftrightarrow> n = 21" "bit O_ACCMODE n \<longleftrightarrow> n < 2" for n
    using bit_exp [of 10 n] bit_exp [of 1 n] bit_exp [of 19 n] bit_exp [of 21 n] bit_masks(4) [of n]
    by (simp_all add: open_flag_values)
  note eq = bit_and_iff bit_or_iff bit_not_iff possible_bit_word bits
  have path: "(flags OR O_CLOEXEC) AND O_PATH = flags AND O_PATH"
    by (rule bit_word_eqI) (auto simp only: eq)
  have acc: "(flags OR O_CLOEXEC) AND O_ACCMODE = flags AND O_ACCMODE"
    by (rule bit_word_eqI) (auto simp only: eq)
  have keep: "(x AND NOT O_APPEND) AND O_APPEND = 0" "(x AND NOT O_APPEND) AND O_ACCMODE = x AND O_ACCMODE"
      "((x AND NOT O_ACCMODE) OR O_RDWR) AND O_ACCMODE = O_RDWR"
      "(x AND NOT O_APPEND) AND NOT (O_ACCMODE OR O_APPEND) = x AND NOT (O_ACCMODE OR O_APPEND)"
      "((x AND NOT O_ACCMODE) OR O_RDWR) AND NOT (O_ACCMODE OR O_APPEND) = x AND NOT (O_ACCMODE OR O_APPEND)" for x
    by (rule bit_word_eqI; auto simp only: eq bit_0_eq bot_apply bot_bool_def)+
  show ?thesis
    unfolding backend_open_flags_def Let_def path acc
    by (cases "flags AND O_PATH = 0 \<and> flags AND O_ACCMODE \<noteq> 0") (auto simp only: if_True if_False keep acc simp_thms)
qed

theorem backend_open_flags_correct_witness:
  "backend_open_flags (O_WRONLY OR O_APPEND) AND O_ACCMODE = O_RDWR \<and> backend_open_flags (O_WRONLY OR O_APPEND) AND O_APPEND = 0"
  using backend_open_flags_correct [of "O_WRONLY OR O_APPEND"] by (simp add: open_flag_values)

section \<open>Shared-memory files\<close>

text \<open>A truncation through the session never leaves a \<^verbatim>\<open>-shm\<close> file with a size that marks it as damaged.\<close>

lemma setattr_size_valid:
  assumes "ends_with_str (to_ascii_lowercase (last (split_char slash rel))) ''-shm''"
    and "4 < length (last (split_char slash rel))" and "is_sqlite_database_or_sidecar_path rel"
  shows "setattr_size rel n = 0 \<or> SQLITE_SHM_MIN_SIZE_BYTES \<le> setattr_size rel n"
  using assms by (simp add: setattr_size_def Let_def)

text \<open>
  A healthy shared-memory file is never removed: not the empty one, and not one of full size whose header
  has not been initialised, whose log is missing, short or foreign, or whose salt is that of its log. Every
  other regular file at the path is taken for damaged.
\<close>

theorem healthy_shm_kept:
  "shm_is_poisoned contents path \<longleftrightarrow>
    (\<exists>shm. contents path = Some shm \<and> shm \<noteq> [] \<and>
       (length shm < SQLITE_SHM_MIN_SIZE_BYTES \<or>
        (\<exists>wal_path wal. sqlite_sidecar_wal_path path = Some wal_path \<and> contents wal_path = Some wal \<and> 32 \<le> length wal
           \<and> shm ! 12 = CHR 0x01 \<and> wal_magic wal \<in> {0x377F0682, 0x377F0683}
           \<and> take 8 (drop 32 shm) \<noteq> take 8 (drop 16 wal))))"
proof (cases "contents path")
  case (Some shm)
  have stale: "sqlite_shm_wal_index_stale contents path \<longleftrightarrow>
      (\<exists>wal_path wal. sqlite_sidecar_wal_path path = Some wal_path \<and> contents wal_path = Some wal \<and> 32 \<le> length wal
           \<and> shm ! 12 = CHR 0x01 \<and> wal_magic wal \<in> {0x377F0682, 0x377F0683}
           \<and> take 8 (drop 32 shm) \<noteq> take 8 (drop 16 wal))" if long: "48 \<le> length shm"
  proof (cases "sqlite_sidecar_wal_path path")
    case (Some wal_path)
    have shm: "read_file_prefix contents path 48 = Some (take 48 shm)" using \<open>contents path = Some shm\<close> long
      by (simp add: read_file_prefix_def)
    have cut: "take 48 shm ! 12 = shm ! 12" "take 8 (drop 32 (take 48 shm)) = take 8 (drop 32 shm)"
      by (simp_all add: drop_take min_def)
    show ?thesis
    proof (cases "contents wal_path")
      case (Some wal)
      have wal_cut: "wal_magic (take 32 wal) = wal_magic wal" "take 8 (drop 16 (take 32 wal)) = take 8 (drop 16 wal)"
        by (simp_all add: wal_magic_def drop_take min_def)
      have "read_file_prefix contents wal_path 32 = (if length wal < 32 then None else Some (take 32 wal))"
        by (simp add: read_file_prefix_def Some)
      then show ?thesis
        unfolding sqlite_shm_wal_index_stale_def \<open>sqlite_sidecar_wal_path path = Some wal_path\<close> option.case shm cut
        using Some wal_cut by (cases "length wal < 32") auto
    qed (simp add: sqlite_shm_wal_index_stale_def Some shm, simp add: read_file_prefix_def)
  qed (simp add: sqlite_shm_wal_index_stale_def)
  show ?thesis
  proof (cases "SQLITE_SHM_MIN_SIZE_BYTES \<le> length shm")
    case True
    then have "48 \<le> length shm" "shm \<noteq> []" by (auto simp: SQLITE_SHM_MIN_SIZE_BYTES_def)
    then show ?thesis unfolding shm_is_poisoned_def Some option.case Let_def stale [OF \<open>48 \<le> length shm\<close>]
      using True Some by auto
  next
    case False
    then show ?thesis using Some by (auto simp: shm_is_poisoned_def Let_def)
  qed
qed (simp add: shm_is_poisoned_def)

end
