(* ===== verification/Fuse_Session.thy ===== *)
theory Fuse_Session
  imports Fuse_Policy Fuse_Metadata
begin

text \<open>
  What the FUSE handlers share: \<^verbatim>\<open>FuseRedirectFs\<close> of \<^verbatim>\<open>src/fuse_redirect/mod.rs\<close>. A session is the
  registry and the table of policies, the inode table, the hand-over table and whether passthrough is
  in use; an operation takes a request and the session and returns an answer and the session.

  What the system answers is one record. A system call is a value; the answer to it is a function of the
  value, and the session keeps the list of the calls it has made, so that the theorems can speak about
  them. Within one handler the file system is seen as one state, except where a handler looks again after it
  has changed something; there it takes a second record. Locks are never poisoned. Log lines, performance
  counters and the records for the file monitor are left out.
\<close>

section \<open>Model: requests, calls and answers\<close>

record request =
  rq_uid :: nat
  rq_gid :: nat
  rq_pid :: nat

datatype sys_call =
    OpenFile bytes "32 word" "32 word"
  | MakeDir bytes
  | MakeDirs bytes "32 word"
  | RemoveFile bytes
  | RemoveDir bytes
  | MoveFile bytes bytes bool
  | MakeSymlink bytes bytes
  | ChangeMode bytes "32 word"
  | ChangeOwner bytes "32 word" "32 word"
  | TruncateFile bytes nat
  | SetTimes bytes
  | SetAttribute bytes bytes
  | RemoveAttribute bytes bytes
  | ReadAttribute bytes bytes
  | ListAttributes bytes
  | ReadLink bytes
  | CheckAccess bytes "32 word"
  | SyncPath bytes
  | UnlinkView bytes
  | ReadHandle nat nat nat
  | WriteHandle nat bytes nat
  | SyncHandle nat bool
  | CopyHandles nat nat nat nat nat
  | AllocateHandle nat nat nat "32 word"
  | OpenBacking nat

record file_stat =
  st_mode :: "32 word"
  st_uid :: "32 word"
  st_gid :: "32 word"
  st_nlink :: nat
  st_size :: nat
  st_blocks :: nat
  st_blksize :: nat

record file_attr =
  fa_ino :: nat
  fa_kind :: file_type
  fa_perm :: "32 word"
  fa_nlink :: nat
  fa_uid :: "32 word"
  fa_gid :: "32 word"
  fa_size :: nat
  fa_blocks :: nat
  fa_blksize :: nat

record raw_entry =
  re_name :: bytes
  re_type :: "file_type option"
  re_is_dir :: bool

record system =
  sy_world :: fuse_world
  sy_answer :: "sys_call \<Rightarrow> errno + nat"
  sy_lstat :: "bytes \<Rightarrow> errno + file_stat"
  sy_is_dir :: "bytes \<Rightarrow> bool"
  sy_read_dir :: "bytes \<Rightarrow> raw_entry list option"
  sy_modified :: "bytes \<Rightarrow> (nat option \<times> bool) option"
  sy_contents :: "bytes \<Rightarrow> bytes option"
  sy_still_there :: "bytes \<Rightarrow> bool"
  sy_overlay_now :: overlay_snapshot
  sy_packages_at_start :: "bytes option"
  sy_repair_enabled :: bool

record session =
  se_registry :: policy_registry
  se_table :: policy_table
  se_fs :: fuse_state
  se_handoffs :: handoffs
  se_passthrough :: bool
  se_calls :: "sys_call list"

definition call :: "system \<Rightarrow> sys_call \<Rightarrow> session \<Rightarrow> (errno + nat) \<times> session" where
  "call sys c s = (sy_answer sys c, s\<lparr>se_calls := se_calls s @ [c]\<rparr>)"

definition with_fs :: "(fuse_state \<Rightarrow> fuse_state) \<Rightarrow> session \<Rightarrow> session" where
  "with_fs f s = s\<lparr>se_fs := f (se_fs s)\<rparr>"

definition policy_uid :: "redirect_policy \<Rightarrow> nat" where
  "policy_uid p = nat (po_uid p mod 2 ^ 32)"

text \<open>\<^verbatim>\<open>CString::new\<close> fails on a path with a zero byte.\<close>

definition has_nul :: "bytes \<Rightarrow> bool" where
  "has_nul path = contains_char path (CHR 0x00)"

section \<open>Model: which policy answers a request\<close>

definition media_provider_uid :: "bytes option \<Rightarrow> nat" where
  "media_provider_uid packages_list =
     (case packages_list of
        None \<Rightarrow> 10217
      | Some content \<Rightarrow>
          (case find_map (\<lambda>line.
              (case split_whitespace line of
                 name # uid # _ \<Rightarrow> if name = ''com.android.providers.media.module'' then parse_i32 uid else None
               | _ \<Rightarrow> None)) (rust_lines content) of
             Some uid \<Rightarrow> if 10000 \<le> uid then nat uid else 10217
           | None \<Rightarrow> 10217))"

definition is_system_reader_uid :: "system \<Rightarrow> nat \<Rightarrow> bool" where
  "is_system_reader_uid sys uid = (uid = media_provider_uid (sy_packages_at_start sys) \<or> uid = 1013 \<or> uid = 1023)"

definition route ::
  "system \<Rightarrow> redirect_policy \<Rightarrow> bytes \<Rightarrow> operation_kind \<Rightarrow> session \<Rightarrow> backend_path option \<times> session" where
  "route sys p rel operation s =
     (let (backend, handoffs) = resolve_relative (sy_world sys) (pt_by_uid (se_table s)) p rel operation (se_handoffs s)
      in (backend, s\<lparr>se_handoffs := handoffs\<rparr>))"

definition session_policy_for_request :: "system \<Rightarrow> request \<Rightarrow> session \<Rightarrow> redirect_policy" where
  "session_policy_for_request sys req s =
     policy_for_request (sy_world sys) (se_registry s) (se_table s) (rq_uid req) (rq_pid req)"

definition policy_for_read_request ::
  "system \<Rightarrow> request \<Rightarrow> nat option \<Rightarrow> bytes option \<Rightarrow> session \<Rightarrow> redirect_policy" where
  "policy_for_read_request sys req ino rel s =
     (let policy = session_policy_for_request sys req s
      in if rq_uid req \<noteq> 0 \<or> \<not> po_deny_all policy then policy
         else let cached_uid =
             (case (case ino of Some i \<Rightarrow> map_of (fs_inode_policy_uids (se_fs s)) i | None \<Rightarrow> None) of
                Some u \<Rightarrow> Some u
              | None \<Rightarrow> (case rel of Some r \<Rightarrow> map_of (fs_path_policy_uids (se_fs s)) r | None \<Rightarrow> None))
           in case cached_uid of
                None \<Rightarrow> policy
              | Some u \<Rightarrow> (case for_uid_exact (se_table s) u of Some cached_policy \<Rightarrow> cached_policy | None \<Rightarrow> policy))"

definition inode_owner_policy_for_fd_stat :: "nat \<Rightarrow> nat \<Rightarrow> session \<Rightarrow> redirect_policy option" where
  "inode_owner_policy_for_fd_stat ino requester_uid s =
     (case map_of (fs_inode_policy_uids (se_fs s)) ino of
        None \<Rightarrow> None
      | Some owner_uid \<Rightarrow>
          (case for_uid_exact (se_table s) owner_uid of
             None \<Rightarrow> None
           | Some owner_policy \<Rightarrow> if policy_uid owner_policy = requester_uid then None else Some owner_policy))"

definition policy_for_fd_stat_or_request :: "system \<Rightarrow> request \<Rightarrow> nat \<Rightarrow> session \<Rightarrow> redirect_policy" where
  "policy_for_fd_stat_or_request sys req ino s =
     (case inode_owner_policy_for_fd_stat ino (rq_uid req) s of
        Some owner_policy \<Rightarrow> owner_policy
      | None \<Rightarrow> policy_for_read_request sys req (Some ino) None s)"

definition private_package_of_rel :: "bytes \<Rightarrow> bytes option" where
  "private_package_of_rel rel =
     (case strip_prefix rel ''Android/data/'' of
        None \<Rightarrow> None
      | Some rest \<Rightarrow> (let name = hd (split_char slash rest) in if name = [] then None else Some name))"

definition system_reader_policy_on_miss ::
  "system \<Rightarrow> nat \<Rightarrow> bytes \<Rightarrow> session \<Rightarrow> redirect_policy option \<times> session" where
  "system_reader_policy_on_miss sys uid rel s =
     (if \<not> is_system_reader_uid sys uid then (None, s)
      else case private_package_of_rel rel of
             None \<Rightarrow> (None, s)
           | Some package_name \<Rightarrow>
               (case find_owner_policy_by_package (se_table s) package_name of
                  None \<Rightarrow> (None, s)
                | Some owner_policy \<Rightarrow>
                    (case route sys owner_policy rel Read s of
                       (None, s) \<Rightarrow> (None, s) | (Some _, s) \<Rightarrow> (Some owner_policy, s))))"

definition backend_for_relative_with_system_reader ::
  "system \<Rightarrow> nat \<Rightarrow> redirect_policy \<Rightarrow> bytes \<Rightarrow> session \<Rightarrow> (redirect_policy \<times> backend_path) option \<times> session" where
  "backend_for_relative_with_system_reader sys uid policy rel s =
     (case route sys policy rel Read s of
        (Some backend, s) \<Rightarrow> (Some (policy, backend), s)
      | (None, s) \<Rightarrow>
          (case system_reader_policy_on_miss sys uid rel s of
             (None, s) \<Rightarrow> (None, s)
           | (Some owner_policy, s) \<Rightarrow>
               (case route sys owner_policy rel Read s of
                  (None, s) \<Rightarrow> (None, s) | (Some backend, s) \<Rightarrow> (Some (owner_policy, backend), s))))"

text \<open>The back end of an inode: the one remembered for it, if owner and path still agree, or a new routing.\<close>

definition remembered_backend :: "redirect_policy \<Rightarrow> nat \<Rightarrow> bytes \<Rightarrow> fuse_state \<Rightarrow> backend_path option" where
  "remembered_backend p ino rel t =
     (case map_of (fs_inode_backends t) ino of
        None \<Rightarrow> None
      | Some entry \<Rightarrow>
          if ib_owner_uid entry = policy_uid p \<and> bp_rel (ib_backend entry) = rel then Some (ib_backend entry) else None)"

definition backend_for_ino ::
  "system \<Rightarrow> redirect_policy \<Rightarrow> nat \<Rightarrow> session \<Rightarrow> (errno + backend_path) \<times> session" where
  "backend_for_ino sys p ino s =
     (case path_for_ino ino (se_fs s) of
        None \<Rightarrow> (Inl ENOENT, s)
      | Some rel \<Rightarrow>
          (case remembered_backend p ino rel (se_fs s) of
             Some backend \<Rightarrow> (Inr backend, s)
           | None \<Rightarrow>
               (case route sys p rel Read s of
                  (None, s) \<Rightarrow> (Inl ENOENT, s) | (Some backend, s) \<Rightarrow> (Inr backend, s))))"

section \<open>Model: attributes\<close>

text \<open>The type bits of a mode, \<^verbatim>\<open>S_IFMT\<close>, and their values.\<close>

definition file_type_from_mode :: "32 word \<Rightarrow> file_type" where
  "file_type_from_mode mode =
     (let m = mode AND 0xF000
      in if m = 0x4000 then Directory else if m = 0xA000 then Symlink else if m = 0x6000 then BlockDevice
         else if m = 0x2000 then CharDevice else if m = 0x1000 then NamedPipe else if m = 0xC000 then Socket
         else RegularFile)"

definition file_attr_from_metadata :: "nat \<Rightarrow> file_stat \<Rightarrow> file_attr" where
  "file_attr_from_metadata ino st =
     \<lparr>fa_ino = ino, fa_kind = file_type_from_mode (st_mode st), fa_perm = st_mode st AND 0xFFF, fa_nlink = st_nlink st,
      fa_uid = st_uid st, fa_gid = st_gid st, fa_size = st_size st, fa_blocks = st_blocks st, fa_blksize = st_blksize st\<rparr>"

text \<open>The mode 02773.\<close>

definition synthetic_dir_attr :: "nat \<Rightarrow> 32 word \<Rightarrow> 32 word \<Rightarrow> file_attr" where
  "synthetic_dir_attr ino uid gid =
     \<lparr>fa_ino = ino, fa_kind = Directory, fa_perm = 0x5FB, fa_nlink = 2, fa_uid = uid, fa_gid = gid, fa_size = 0,
      fa_blocks = 0, fa_blksize = 4096\<rparr>"

definition attr_for_backend :: "system \<Rightarrow> redirect_policy \<Rightarrow> nat \<Rightarrow> backend_path \<Rightarrow> errno + file_attr" where
  "attr_for_backend sys p ino backend =
     (case sy_lstat sys (bp_path backend) of
        Inl e \<Rightarrow> Inl e
      | Inr st \<Rightarrow>
          (let attr = file_attr_from_metadata ino st
           in Inr (if bp_shared_public backend
                   then attr\<lparr>fa_uid := of_int (po_uid p), fa_gid := MEDIA_RW_GID\<rparr> else attr)))"

definition lifted_root_attr :: "system \<Rightarrow> redirect_policy \<Rightarrow> file_attr option" where
  "lifted_root_attr sys p =
     (case sy_lstat sys (Paths_Normalize.parent (storage_user_root_for_user (po_user_id p))) of
        Inl _ \<Rightarrow> None | Inr st \<Rightarrow> Some (file_attr_from_metadata 1 st))"

definition apply_view_root_attr :: "system \<Rightarrow> redirect_policy \<Rightarrow> nat \<Rightarrow> file_attr \<Rightarrow> file_attr" where
  "apply_view_root_attr sys p ino attr =
     (if \<not> po_view_lifted p \<or> ino \<noteq> 1 then attr
      else case lifted_root_attr sys p of
             None \<Rightarrow> attr
           | Some root \<Rightarrow> attr\<lparr>fa_perm := fa_perm root, fa_uid := fa_uid root, fa_gid := fa_gid root,
               fa_nlink := fa_nlink root, fa_size := fa_size root, fa_blocks := fa_blocks root,
               fa_blksize := fa_blksize root\<rparr>)"

definition visible_attr_for_backend :: "system \<Rightarrow> redirect_policy \<Rightarrow> nat \<Rightarrow> backend_path \<Rightarrow> errno + file_attr" where
  "visible_attr_for_backend sys p ino backend =
     (case attr_for_backend sys p ino backend of
        Inr attr \<Rightarrow> Inr (apply_view_root_attr sys p ino attr)
      | Inl e \<Rightarrow>
          if e = ENOENT \<and> is_virtual_dir p (bp_rel backend)
          then Inr (synthetic_dir_attr ino (of_int (po_uid p)) MEDIA_RW_GID) else Inl e)"

section \<open>Model: creating entries\<close>

definition apply_create_metadata :: "system \<Rightarrow> bytes \<Rightarrow> entry_metadata \<Rightarrow> session \<Rightarrow> errno option \<times> session" where
  "apply_create_metadata sys path md s =
     (if em_rewrite_owner md \<and> has_nul path then (Some EINVAL, s)
      else let (failed, s) =
             (if em_rewrite_owner md
              then (case call sys (ChangeOwner path (em_uid md) (em_gid md)) s of
                      (Inl e, s) \<Rightarrow> (Some e, s) | (Inr _, s) \<Rightarrow> (None, s))
              else (None, s));
             is_symlink = (case sy_lstat sys path of Inl _ \<Rightarrow> False | Inr st \<Rightarrow> file_type_from_mode (st_mode st) = Symlink)
        in if em_rewrite_mode md \<and> \<not> is_symlink
           then (case call sys (ChangeMode path (em_mode md)) s of
                   (Inl e, s) \<Rightarrow> (Some (case failed of Some f \<Rightarrow> f | None \<Rightarrow> e), s) | (Inr _, s) \<Rightarrow> (failed, s))
           else (failed, s))"

text \<open>\<^verbatim>\<open>Path::parent\<close> of a back-end path: the path without its last component, if it has one.\<close>

definition path_parent :: "bytes \<Rightarrow> bytes option" where
  "path_parent path =
     (let p = trim_end_char slash path
      in if p = [] then None
         else case rfind_char slash p of
                None \<Rightarrow> Some []
              | Some i \<Rightarrow> (let q = trim_end_char slash (take i p) in Some (if q = [] then ''/'' else q)))"

definition ensure_parent_for_backend ::
  "system \<Rightarrow> redirect_policy \<Rightarrow> backend_path \<Rightarrow> session \<Rightarrow> errno option \<times> session" where
  "ensure_parent_for_backend sys p backend s =
     (case path_parent (bp_path backend) of
        None \<Rightarrow> (None, s)
      | Some parent_path \<Rightarrow>
          if parent_path = [] then (None, s)
          else let owner_uid = (if \<not> sy_repair_enabled sys then - 1
                 else if bp_shared_public backend then MEDIA_RW_UID else of_int (po_uid p))
            in if sy_is_dir sys parent_path then (None, s)
               else (case call sys (MakeDirs parent_path owner_uid) s of
                       (Inl _, s) \<Rightarrow> (Some EIO, s)
                     | (Inr _, s) \<Rightarrow>
                         apply_create_metadata sys parent_path
                           (create_metadata (sy_repair_enabled sys) (of_int (po_uid p)) MEDIA_RW_GID (of_int (po_uid p))
                              MAPPED_DIR_MODE (bp_shared_public backend) (bp_app_private backend) True) s))"

definition open_backend_file :: "system \<Rightarrow> bytes \<Rightarrow> 32 word \<Rightarrow> 32 word \<Rightarrow> session \<Rightarrow> (errno + nat) \<times> session" where
  "open_backend_file sys path flags mode s =
     (if has_nul path then (Inl EINVAL, s) else call sys (OpenFile path (backend_open_flags flags) mode) s)"

text \<open>The back end of a new entry, looked up in the mounts of this moment.\<close>

definition refresh_overlay :: "system \<Rightarrow> backend_path \<Rightarrow> backend_path" where
  "refresh_overlay sys backend =
     (case overlay_backend_path (sy_overlay_now sys) (bp_path backend) of
        None \<Rightarrow> backend | Some resolved \<Rightarrow> backend\<lparr>bp_path := resolved\<rparr>)"

definition route_new_entry ::
  "system \<Rightarrow> request \<Rightarrow> nat \<Rightarrow> bytes \<Rightarrow> session \<Rightarrow> (errno + redirect_policy \<times> bytes \<times> backend_path) \<times> session" where
  "route_new_entry sys req parent_ino name s =
     (case path_for_ino parent_ino (se_fs s) of
        None \<Rightarrow> (Inl ENOENT, s)
      | Some parent_rel \<Rightarrow>
          (case child_rel parent_rel name of
             Inl e \<Rightarrow> (Inl e, s)
           | Inr rel \<Rightarrow>
               (let policy = session_policy_for_request sys req s
                in case route sys policy rel Write s of
                     (None, s) \<Rightarrow> (Inl ENOENT, s)
                   | (Some backend, s) \<Rightarrow>
                       (let backend = refresh_overlay sys backend
                        in if bp_read_only backend then (Inl EROFS, s)
                           else (case ensure_parent_for_backend sys policy backend s of
                                   (Some e, s) \<Rightarrow> (Inl e, s)
                                 | (None, s) \<Rightarrow> (Inr (policy, rel, backend), s))))))"

definition metadata_of_request ::
  "system \<Rightarrow> request \<Rightarrow> redirect_policy \<Rightarrow> backend_path \<Rightarrow> 32 word \<Rightarrow> bool \<Rightarrow> entry_metadata" where
  "metadata_of_request sys req p backend mode is_dir =
     create_metadata (sy_repair_enabled sys) (of_nat (rq_uid req)) (of_nat (rq_gid req)) (of_int (po_uid p)) mode
       (bp_shared_public backend) (bp_app_private backend) is_dir"

section \<open>Model: answers\<close>

datatype reply =
    ReplyError errno
  | ReplyOk
  | ReplyEntry file_attr
  | ReplyAttr file_attr
  | ReplyOpened nat "nat option"
  | ReplyCreated file_attr nat "nat option"
  | ReplyDir "(nat \<times> nat \<times> file_type \<times> bytes) list"
  | ReplyDirPlus "(nat \<times> nat \<times> bytes \<times> file_attr) list"
  | ReplyCount nat
  | ReplyOffset int

text \<open>An answer with an entry, after the inode has been entered and counted; a failure takes the count back.\<close>

definition reply_entry_for_rel ::
  "system \<Rightarrow> nat \<Rightarrow> redirect_policy \<Rightarrow> bytes \<Rightarrow> session \<Rightarrow> reply \<times> session" where
  "reply_entry_for_rel sys uid policy rel s =
     (case backend_for_relative_with_system_reader sys uid policy rel s of
        (None, s) \<Rightarrow> (ReplyError ENOENT, s)
      | (Some (policy, backend), s) \<Rightarrow>
          (let (ino, t) = enter_inode_with_backend rel (policy_uid policy) backend (se_fs s);
               s = s\<lparr>se_fs := t\<rparr>
           in case visible_attr_for_backend sys policy ino backend of
                Inr attr \<Rightarrow> (ReplyEntry attr, s)
              | Inl e \<Rightarrow> (ReplyError e, with_fs (remove_lookup_locked ino 1) s)))"

definition remove_child ::
  "system \<Rightarrow> redirect_policy \<Rightarrow> nat \<Rightarrow> bytes \<Rightarrow> bool \<Rightarrow> session \<Rightarrow> reply \<times> session" where
  "remove_child sys policy parent_ino name is_dir s =
     (case path_for_ino parent_ino (se_fs s) of
        None \<Rightarrow> (ReplyError ENOENT, s)
      | Some parent_rel \<Rightarrow>
          (case child_rel parent_rel name of
             Inl e \<Rightarrow> (ReplyError e, s)
           | Inr rel \<Rightarrow>
               (case route sys policy rel Read s of
                  (None, s) \<Rightarrow> (ReplyError ENOENT, s)
                | (Some backend, s) \<Rightarrow>
                    if bp_read_only backend then (ReplyError EROFS, s)
                    else (case call sys (if is_dir then RemoveDir (bp_path backend) else RemoveFile (bp_path backend)) s of
                            (Inl e, s) \<Rightarrow> (ReplyError e, s)
                          | (Inr _, s) \<Rightarrow> (ReplyOk, with_fs (clear_dir_candidate_cache \<circ> remove_inode_path rel) s)))))"

end
