(* ===== verification/Fuse_Callbacks.thy ===== *)
theory Fuse_Callbacks
  imports Fuse_Session
begin

text \<open>
  The handlers of the FUSE file system: \<^verbatim>\<open>src/fuse_redirect/callbacks.rs\<close>. One definition per handler, with
  its guards in the order of the code. \<^verbatim>\<open>opendir\<close> gives up its lock while it reads the directory; it is split
  there, and what other requests do in between is an argument of its loop.
\<close>

section \<open>Model: collecting a directory\<close>

definition DIR_CANDIDATE_CACHE_TTL_MS :: int where
  "DIR_CANDIDATE_CACHE_TTL_MS = 2000"

definition MAX_READ_SIZE :: nat where
  "MAX_READ_SIZE = 256 * 1024"

record listing =
  ls_entries :: "dir_candidate list"
  ls_seen :: "(bytes \<times> nat) list"
  ls_sources :: "source_signature list"

datatype source_state = Current | Changed | Missing

definition capture_source :: "system \<Rightarrow> bytes \<Rightarrow> source_signature" where
  "capture_source sys path =
     \<lparr>ss_path = path, ss_modified = (case sy_modified sys path of None \<Rightarrow> None | Some (m, _) \<Rightarrow> m),
      ss_is_dir = map_option snd (sy_modified sys path)\<rparr>"

definition source_state_of :: "system \<Rightarrow> source_signature \<Rightarrow> source_state" where
  "source_state_of sys sig =
     (case sy_modified sys (ss_path sig) of
        None \<Rightarrow> if ss_modified sig = None \<and> ss_is_dir sig = None then Current else Missing
      | Some (modified, is_dir) \<Rightarrow>
          if ss_modified sig = modified \<and> ss_is_dir sig = Some is_dir then Current else Changed)"

definition append_directory_source :: "system \<Rightarrow> bytes \<Rightarrow> listing \<Rightarrow> listing" where
  "append_directory_source sys path l =
     (if list_ex (\<lambda>source. pathbuf_eq (ss_path source) path) (ls_sources l) then l
      else l\<lparr>ls_sources := ls_sources l @ [capture_source sys path]\<rparr>)"

definition append_raw_entry :: "bytes \<Rightarrow> raw_entry \<Rightarrow> listing \<Rightarrow> listing" where
  "append_raw_entry parent_rel item l =
     (let name = from_utf8_lossy (re_name item)
      in if name = [] then l
         else let rel = path_join parent_rel name;
                  seen = AList.update rel (length (ls_entries l)) (ls_seen l)
           in if map_of (ls_seen l) rel = None
              then l\<lparr>ls_entries := ls_entries l @
                     [\<lparr>dc_rel = rel, dc_kind = (if re_is_dir item then Directory else RegularFile), dc_name = name\<rparr>],
                     ls_seen := seen\<rparr>
              else l\<lparr>ls_seen := seen\<rparr>)"

definition append_raw_dir_entries :: "system \<Rightarrow> bytes \<Rightarrow> bytes \<Rightarrow> listing \<Rightarrow> listing" where
  "append_raw_dir_entries sys parent_rel backend l =
     (let l = append_directory_source sys backend l
      in case sy_read_dir sys backend of
           None \<Rightarrow> l | Some items \<Rightarrow> fold (append_raw_entry parent_rel) items l)"

definition insert_dir_entry_candidate :: "bytes \<Rightarrow> bytes \<Rightarrow> file_type \<Rightarrow> listing \<Rightarrow> listing" where
  "insert_dir_entry_candidate rel name kind l =
     (let key = to_ascii_lowercase name
      in case map_of (ls_seen l) key of
           Some i \<Rightarrow>
             if dc_kind (ls_entries l ! i) \<noteq> Directory \<and> kind = Directory
             then l\<lparr>ls_entries := (ls_entries l)[i := (ls_entries l ! i)\<lparr>dc_kind := kind\<rparr>]\<rparr> else l
         | None \<Rightarrow>
             l\<lparr>ls_entries := ls_entries l @ [\<lparr>dc_rel = rel, dc_kind = kind, dc_name = name\<rparr>],
               ls_seen := AList.update key (length (ls_entries l)) (ls_seen l)\<rparr>)"

definition file_type_from_std :: "file_type \<Rightarrow> file_type" where
  "file_type_from_std t = (if t = Directory then Directory else if t = Symlink then Symlink else RegularFile)"

definition hidden_root_names :: "bytes list" where
  "hidden_root_names = [''.transforms'', ''.picker_transcoded'', ''.srx_passthrough_probe'']"

definition child_rel_of :: "bytes \<Rightarrow> bytes \<Rightarrow> bytes" where
  "child_rel_of parent_rel name = (if parent_rel = [] then name else path_join parent_rel name)"

text \<open>Whether an entry found in the directory \<open>backend\<close> is what the policy shows under its name.\<close>

definition shows_entry ::
  "system \<Rightarrow> redirect_policy \<Rightarrow> backend_path option \<Rightarrow> bytes \<Rightarrow> bytes \<Rightarrow> bytes \<Rightarrow> session \<Rightarrow> bool option \<times> session" where
  "shows_entry sys p uniform item_path name rel s =
     (case uniform of
        Some parent_backend \<Rightarrow> (Some (pathbuf_eq item_path (pathbuf_join (bp_path parent_backend) name)), s)
      | None \<Rightarrow>
          (case route sys p rel Read s of
             (None, s) \<Rightarrow> (None, s)
           | (Some child_backend, s) \<Rightarrow>
               (Some (pathbuf_eq item_path (bp_path child_backend)
                 \<or> is_real_backend_path_for_storage_rel (sy_world sys) p (full_storage_rel p rel) item_path), s)))"

definition append_backend_entry ::
  "system \<Rightarrow> redirect_policy \<Rightarrow> bytes \<Rightarrow> bytes \<Rightarrow> backend_path option \<Rightarrow> raw_entry \<Rightarrow> listing \<times> session \<Rightarrow> listing \<times> session" where
  "append_backend_entry sys p parent_rel backend uniform item acc =
     (let (l, s) = acc; name = from_utf8_lossy (re_name item)
      in if name = [] then (l, s)
         else if parent_rel = [] \<and> name \<in> set hidden_root_names then (l, s)
         else let rel = child_rel_of parent_rel name
           in case shows_entry sys p uniform (pathbuf_join backend (re_name item)) name rel s of
                (None, s) \<Rightarrow> (l, s)
              | (Some is_expected, s) \<Rightarrow>
                  if \<not> is_expected \<and> \<not> is_virtual_dir p rel then (l, s)
                  else (insert_dir_entry_candidate rel name
                          (case re_type item of None \<Rightarrow> RegularFile | Some t \<Rightarrow> file_type_from_std t) l, s))"

definition append_backend_dir_entries ::
  "system \<Rightarrow> redirect_policy \<Rightarrow> bytes \<Rightarrow> bytes \<Rightarrow> backend_path option \<Rightarrow> listing \<times> session \<Rightarrow> listing \<times> session" where
  "append_backend_dir_entries sys p parent_rel backend uniform acc =
     (let acc = apfst (append_directory_source sys backend) acc
      in case sy_read_dir sys backend of
           None \<Rightarrow> acc
         | Some items \<Rightarrow> fold (append_backend_entry sys p parent_rel backend uniform) items acc)"

definition append_rule_prefix_entries :: "redirect_policy \<Rightarrow> bytes \<Rightarrow> listing \<Rightarrow> listing" where
  "append_rule_prefix_entries p parent_rel l =
     fold (\<lambda>pre l. case visible_prefix_child parent_rel pre of
         None \<Rightarrow> l
       | Some name \<Rightarrow> insert_dir_entry_candidate (child_rel_of parent_rel name) name Directory l)
       (po_rule_prefixes p) l"

definition collect_dir_entry_candidates ::
  "system \<Rightarrow> redirect_policy \<Rightarrow> bytes \<Rightarrow> session \<Rightarrow> (dir_candidate list \<times> source_signature list) \<times> session" where
  "collect_dir_entry_candidates sys p rel s =
     (let w = sy_world sys;
          (uniform, s) = (if children_route_uniformly p rel then route sys p rel Read s else (None, s));
          append = (\<lambda>backend. append_backend_dir_entries sys p rel backend uniform);
          acc = (\<lparr>ls_entries = [], ls_seen = [], ls_sources = []\<rparr>, s);
          acc = append (redirect_backend_for_rel w p rel) acc;
          acc = append (real_backend_for_rel w p rel) acc;
          storage_path = storage_path_for_rel p rel;
          acc = fold (\<lambda>mapping acc.
              if matches (request_path mapping) storage_path True
              then (case relative_child_path (final_path mapping) (po_storage_root p) of
                      None \<Rightarrow> acc
                    | Some target_rel \<Rightarrow> append (real_backend_for_storage_rel w p target_rel) acc)
              else acc) (po_path_mappings p) acc;
          l = append_rule_prefix_entries p rel (fst acc)
      in ((ls_entries l, ls_sources l), snd acc))"

definition lifted_root_names :: "system \<Rightarrow> i32 \<Rightarrow> bytes list" where
  "lifted_root_names sys user_id =
     (let items = (case sy_read_dir sys (Paths_Normalize.parent (storage_user_root_for_user user_id)) of
              None \<Rightarrow> [] | Some items \<Rightarrow> items);
          names = fold (\<lambda>item names.
              (let name = from_utf8_lossy (re_name item)
               in if name = [] \<or> name \<in> set names then names
                  else if list_all is_ascii_digit name \<or> name = ''obb'' then names @ [name] else names)) items [];
          self_name = fmt_i32 user_id;
          names = (if self_name \<in> set names then names else self_name # names)
      in if ''obb'' \<in> set names then names else names @ [''obb''])"

section \<open>Model: lookup and attributes\<close>

text \<open>Removing a damaged shared-memory file: through the media view first, then directly.\<close>

definition heal_poisoned_sqlite_shm_backend :: "system \<Rightarrow> i32 \<Rightarrow> bytes \<Rightarrow> session \<Rightarrow> bool \<times> session" where
  "heal_poisoned_sqlite_shm_backend sys user_id rel s =
     (let real_path = pathbuf_join (data_media_user_root_for_current_ns (fw_anchor (sy_world sys)) user_id) rel
      in if \<not> shm_is_poisoned (sy_contents sys) real_path then (False, s)
         else (case call sys (UnlinkView rel) s of
                 (view, s) \<Rightarrow>
                   if \<not> sy_still_there sys real_path \<or> has_nul real_path then (\<not> isl view, s)
                   else (case call sys (RemoveFile real_path) s of
                           (real, s) \<Rightarrow> (\<not> isl view \<or> \<not> isl real, s))))"

definition lookup :: "system \<Rightarrow> request \<Rightarrow> nat \<Rightarrow> bytes \<Rightarrow> session \<Rightarrow> reply \<times> session" where
  "lookup sys req parent_ino name s =
     (case path_for_ino parent_ino (se_fs s) of
        None \<Rightarrow> (ReplyError ENOENT, s)
      | Some parent_rel \<Rightarrow>
          (case child_rel parent_rel name of
             Inl e \<Rightarrow> (ReplyError e, s)
           | Inr rel \<Rightarrow>
               (let policy = policy_for_read_request sys req (Some parent_ino) (Some rel) s;
                    s = (if should_heal_media_sqlite_shm_rel policy rel
                         then snd (heal_poisoned_sqlite_shm_backend sys (po_user_id policy) rel s) else s)
                in reply_entry_for_rel sys (rq_uid req) policy rel s)))"

definition forget :: "nat \<Rightarrow> nat \<Rightarrow> session \<Rightarrow> session" where
  "forget ino nlookup s = with_fs (forget_inode ino nlookup) s"

text \<open>The policy after the retry of a system reader on the path of an inode.\<close>

definition reader_policy_for_ino :: "system \<Rightarrow> request \<Rightarrow> nat \<Rightarrow> redirect_policy \<Rightarrow> session \<Rightarrow> redirect_policy \<times> session" where
  "reader_policy_for_ino sys req ino policy s =
     (case path_for_ino ino (se_fs s) of
        None \<Rightarrow> (policy, s)
      | Some rel \<Rightarrow>
          (case system_reader_policy_on_miss sys (rq_uid req) rel s of
             (None, s) \<Rightarrow> (policy, s) | (Some owner_policy, s) \<Rightarrow> (owner_policy, s)))"

definition getattr :: "system \<Rightarrow> request \<Rightarrow> nat \<Rightarrow> session \<Rightarrow> reply \<times> session" where
  "getattr sys req ino s =
     (let policy = policy_for_read_request sys req (Some ino) None s;
          policy = (case inode_owner_policy_for_fd_stat ino (rq_uid req) s of Some o' \<Rightarrow> o' | None \<Rightarrow> policy);
          (policy, s) = reader_policy_for_ino sys req ino policy s
      in case backend_for_ino sys policy ino s of
           (Inl e, s) \<Rightarrow> (ReplyError e, s)
         | (Inr backend, s) \<Rightarrow>
             (case visible_attr_for_backend sys policy ino backend of
                Inl e \<Rightarrow> (ReplyError e, s) | Inr attr \<Rightarrow> (ReplyAttr attr, s)))"

definition call_reply :: "(nat \<Rightarrow> reply) \<Rightarrow> (errno + nat) \<times> session \<Rightarrow> reply \<times> session" where
  "call_reply ok answer = (case answer of (Inl e, s) \<Rightarrow> (ReplyError e, s) | (Inr n, s) \<Rightarrow> (ok n, s))"

definition readlink :: "system \<Rightarrow> request \<Rightarrow> nat \<Rightarrow> session \<Rightarrow> reply \<times> session" where
  "readlink sys req ino s =
     (let policy = policy_for_read_request sys req (Some ino) None s
      in case backend_for_ino sys policy ino s of
           (Inl e, s) \<Rightarrow> (ReplyError e, s)
         | (Inr backend, s) \<Rightarrow> call_reply ReplyCount (call sys (ReadLink (bp_path backend)) s))"

text \<open>\<^verbatim>\<open>getxattr\<close>, \<^verbatim>\<open>setxattr\<close>, \<^verbatim>\<open>listxattr\<close> and \<^verbatim>\<open>removexattr\<close> route alike and differ in their call.\<close>

definition with_backend_for_xattr ::
  "system \<Rightarrow> request \<Rightarrow> nat \<Rightarrow> bytes \<Rightarrow> (bytes \<Rightarrow> sys_call) \<Rightarrow> (nat \<Rightarrow> reply) \<Rightarrow> session \<Rightarrow> reply \<times> session" where
  "with_backend_for_xattr sys req ino name action ok s =
     (let policy = policy_for_fd_stat_or_request sys req ino s
      in case backend_for_ino sys policy ino s of
           (Inl e, s) \<Rightarrow> (ReplyError e, s)
         | (Inr backend, s) \<Rightarrow>
             if has_nul (bp_path backend) \<or> has_nul name then (ReplyError EINVAL, s)
             else call_reply ok (call sys (action (bp_path backend)) s))"

text \<open>A value longer than the buffer is refused; a buffer of length zero asks for the length.\<close>

definition xattr_size :: "nat \<Rightarrow> nat \<Rightarrow> reply" where
  "xattr_size buffer needed = (if buffer \<noteq> 0 \<and> buffer < needed then ReplyError (Errno 34) else ReplyCount needed)"

definition getxattr :: "system \<Rightarrow> request \<Rightarrow> nat \<Rightarrow> bytes \<Rightarrow> nat \<Rightarrow> session \<Rightarrow> reply \<times> session" where
  "getxattr sys req ino name buffer =
     with_backend_for_xattr sys req ino name (\<lambda>path. ReadAttribute path name) (xattr_size buffer)"

definition setxattr :: "system \<Rightarrow> request \<Rightarrow> nat \<Rightarrow> bytes \<Rightarrow> nat \<Rightarrow> session \<Rightarrow> reply \<times> session" where
  "setxattr sys req ino name position s =
     (if position \<noteq> 0 then (ReplyError EINVAL, s)
      else with_backend_for_xattr sys req ino name (\<lambda>path. SetAttribute path name) (\<lambda>_. ReplyOk) s)"

definition listxattr :: "system \<Rightarrow> request \<Rightarrow> nat \<Rightarrow> nat \<Rightarrow> session \<Rightarrow> reply \<times> session" where
  "listxattr sys req ino buffer = with_backend_for_xattr sys req ino [] ListAttributes (xattr_size buffer)"

definition removexattr :: "system \<Rightarrow> request \<Rightarrow> nat \<Rightarrow> bytes \<Rightarrow> session \<Rightarrow> reply \<times> session" where
  "removexattr sys req ino name =
     with_backend_for_xattr sys req ino name (\<lambda>path. RemoveAttribute path name) (\<lambda>_. ReplyOk)"

definition access :: "system \<Rightarrow> request \<Rightarrow> nat \<Rightarrow> 32 word \<Rightarrow> session \<Rightarrow> reply \<times> session" where
  "access sys req ino mask_bits s =
     (let writes = (mask_bits AND 2 \<noteq> 0);
          policy = (if writes then session_policy_for_request sys req s
                    else policy_for_read_request sys req (Some ino) None s);
          (policy, s) = reader_policy_for_ino sys req ino policy s
      in case backend_for_ino sys policy ino s of
           (Inl e, s) \<Rightarrow> (ReplyError e, s)
         | (Inr backend, s) \<Rightarrow>
             if bp_read_only backend \<and> writes then (ReplyError EACCES, s)
             else if has_nul (bp_path backend) then (ReplyError EINVAL, s)
             else call_reply (\<lambda>_. ReplyOk) (call sys (CheckAccess (bp_path backend) mask_bits) s))"

section \<open>Model: directories\<close>

text \<open>A cached listing counts while it is young and none of its sources has changed.\<close>

definition cached_listing :: "system \<Rightarrow> bytes \<Rightarrow> fuse_state \<Rightarrow> dir_candidate list option" where
  "cached_listing sys rel t =
     (case map_of (fs_dir_cache t) rel of
        None \<Rightarrow> None
      | Some cached \<Rightarrow>
          if DIR_CANDIDATE_CACHE_TTL_MS < fw_now (sy_world sys) - cc_created_at cached then None
          else if list_all (\<lambda>source. source_state_of sys source = Current) (cc_sources cached)
          then Some (cc_candidates cached) else None)"

text \<open>
  The part of \<^verbatim>\<open>opendir\<close> without the write lock: the candidates and, unless they come from the cache, their
  sources; or an error.
\<close>

definition opendir_collect ::
  "system \<Rightarrow> redirect_policy \<Rightarrow> bytes \<Rightarrow> session \<Rightarrow> (errno + dir_candidate list \<times> source_signature list option) \<times> session" where
  "opendir_collect sys policy rel s =
     (case route sys policy rel Read s of
        (None, s) \<Rightarrow> (Inl ENOENT, s)
      | (Some backend, s) \<Rightarrow>
          if \<not> sy_is_dir sys (bp_path backend) \<and> \<not> is_virtual_dir policy rel then (Inl ENOTDIR, s)
          else (case cached_listing sys rel (se_fs s) of
                  Some candidates \<Rightarrow> (Inr (candidates, None), s)
                | None \<Rightarrow>
                    if is_foreign_view_rel policy rel then
                      (let l = append_raw_dir_entries sys rel (bp_path backend)
                             \<lparr>ls_entries = [], ls_seen = [], ls_sources = []\<rparr>
                       in (Inr (ls_entries l, Some (ls_sources l)), s))
                    else (case collect_dir_entry_candidates sys policy rel s of
                            ((candidates, sources), s) \<Rightarrow> (Inr (candidates, Some sources), s))))"

text \<open>Under the write lock: the directory is gone, has been renamed (with its new path and version), or is opened.\<close>

datatype commit = Gone | Moved bytes nat | Opened nat

definition path_version :: "nat \<Rightarrow> fuse_state \<Rightarrow> nat" where
  "path_version ino t = (case map_of (fs_inode_path_versions t) ino of Some v \<Rightarrow> v | None \<Rightarrow> 0)"

definition opendir_commit ::
  "system \<Rightarrow> nat \<Rightarrow> nat \<Rightarrow> nat \<Rightarrow> bytes \<Rightarrow> nat \<Rightarrow> dir_candidate list \<Rightarrow> source_signature list option \<Rightarrow> fuse_state
    \<Rightarrow> commit \<times> fuse_state" where
  "opendir_commit sys candidate_size signature_size ino rel version candidates sources t =
     (case path_for_ino ino t of
        None \<Rightarrow> (Gone, t)
      | Some current_rel \<Rightarrow>
          if current_rel \<noteq> rel \<or> path_version ino t \<noteq> version then (Moved current_rel (path_version ino t), t)
          else let t = (case sources of
                    None \<Rightarrow> t
                  | Some sources \<Rightarrow> store_dir_candidates (fw_now (sy_world sys))
                      (estimate_cached_dir_candidates_bytes candidate_size signature_size rel candidates sources)
                      rel candidates sources t);
                   (fh, t) = open_dir_handle ino rel candidates t
            in (Opened fh, t))"

text \<open>
  The loop: \<open>between\<close> is what other requests do to the session between the two parts of each round, \<open>fuel\<close> the
  number of rounds; \<^verbatim>\<open>None\<close> is a loop that is still running.
\<close>

fun opendir_loop ::
  "nat \<Rightarrow> system \<Rightarrow> nat \<Rightarrow> nat \<Rightarrow> (nat \<Rightarrow> session \<Rightarrow> session) \<Rightarrow> redirect_policy \<Rightarrow> nat \<Rightarrow> bytes \<Rightarrow> nat \<Rightarrow> session
    \<Rightarrow> (reply \<times> session) option" where
  "opendir_loop 0 sys csize ssize between policy ino rel version s = None"
| "opendir_loop (Suc n) sys csize ssize between policy ino rel version s =
     (case opendir_collect sys policy rel s of
        (Inl e, s) \<Rightarrow> Some (ReplyError e, s)
      | (Inr (candidates, sources), s) \<Rightarrow>
          (let s = between n s;
               (result, t) = opendir_commit sys csize ssize ino rel version candidates sources (se_fs s);
               s = s\<lparr>se_fs := t\<rparr>
           in case result of
                Gone \<Rightarrow> Some (ReplyError ENOENT, s)
              | Opened fh \<Rightarrow> Some (ReplyOpened fh None, s)
              | Moved new_rel new_version \<Rightarrow>
                  opendir_loop n sys csize ssize between policy ino new_rel new_version s))"

definition opendir ::
  "nat \<Rightarrow> system \<Rightarrow> nat \<Rightarrow> nat \<Rightarrow> (nat \<Rightarrow> session \<Rightarrow> session) \<Rightarrow> request \<Rightarrow> nat \<Rightarrow> session \<Rightarrow> (reply \<times> session) option" where
  "opendir fuel sys csize ssize between req ino s =
     (let policy = policy_for_read_request sys req (Some ino) None s
      in case path_for_ino ino (se_fs s) of
           None \<Rightarrow> Some (ReplyError ENOENT, s)
         | Some rel \<Rightarrow>
             (let version = path_version ino (se_fs s);
                  (reader, s) = system_reader_policy_on_miss sys (rq_uid req) rel s;
                  policy = (case reader of Some o' \<Rightarrow> o' | None \<Rightarrow> policy)
              in if po_view_lifted policy \<and> rel = [] then
                   (if rq_uid req \<noteq> 0 \<and> rq_uid req \<noteq> 1023 then Some (ReplyError EACCES, s)
                    else let candidates = map (\<lambda>name. \<lparr>dc_rel = name, dc_kind = Directory, dc_name = name\<rparr>)
                                (lifted_root_names sys (po_user_id policy));
                             (fh, t) = open_dir_handle ino rel candidates (se_fs s)
                      in Some (ReplyOpened fh None, s\<lparr>se_fs := t\<rparr>))
                 else opendir_loop fuel sys csize ssize between policy ino rel version s))"

text \<open>The kernel's buffer holds \<open>room\<close> more entries.\<close>

definition readdir :: "nat \<Rightarrow> nat \<Rightarrow> nat \<Rightarrow> session \<Rightarrow> reply" where
  "readdir room fh offset s =
     (case map_of (fs_dirs (se_fs s)) fh of
        None \<Rightarrow> ReplyError EBADF
      | Some es \<Rightarrow> ReplyDir (take room (drop offset
          (map (\<lambda>(i, e). (de_ino e, i + 1, de_kind e, de_name e)) (enumerate 0 es)))))"

definition readdirplus_entry ::
  "system \<Rightarrow> redirect_policy \<Rightarrow> nat \<times> dir_entry \<Rightarrow> (nat \<times> nat \<times> bytes \<times> file_attr) list \<times> session
    \<Rightarrow> (nat \<times> nat \<times> bytes \<times> file_attr) list \<times> session" where
  "readdirplus_entry sys policy indexed acc =
     (let (i, e) = indexed; (out, s) = acc
      in case route sys policy (de_rel e) Read s of
           (None, s) \<Rightarrow> (out, s)
         | (Some backend, s) \<Rightarrow>
             (case visible_attr_for_backend sys policy (de_ino e) backend of
                Inl _ \<Rightarrow> (out, s) | Inr attr \<Rightarrow> (out @ [(de_ino e, i + 1, de_name e, attr)], s)))"

fun readdirplus_entries ::
  "nat \<Rightarrow> system \<Rightarrow> redirect_policy \<Rightarrow> (nat \<times> dir_entry) list \<Rightarrow> (nat \<times> nat \<times> bytes \<times> file_attr) list \<times> session
    \<Rightarrow> (nat \<times> nat \<times> bytes \<times> file_attr) list \<times> session" where
  "readdirplus_entries room sys policy [] acc = acc"
| "readdirplus_entries room sys policy (e # es) acc =
     (let (out, s) = readdirplus_entry sys policy e acc
      in if room < length out then (take room out, s) else readdirplus_entries room sys policy es (out, s))"

definition readdirplus :: "nat \<Rightarrow> system \<Rightarrow> request \<Rightarrow> nat \<Rightarrow> nat \<Rightarrow> nat \<Rightarrow> session \<Rightarrow> reply \<times> session" where
  "readdirplus room sys req ino fh offset s =
     (let policy = policy_for_read_request sys req (Some ino) None s
      in if path_for_ino ino (se_fs s) = None then (ReplyError ENOENT, s)
         else case map_of (fs_dirs (se_fs s)) fh of
                None \<Rightarrow> (ReplyError EBADF, s)
              | Some es \<Rightarrow> apfst ReplyDirPlus
                  (readdirplus_entries room sys policy (drop offset (enumerate 0 es)) ([], s)))"

definition releasedir :: "nat \<Rightarrow> session \<Rightarrow> session" where
  "releasedir fh s = with_fs (release_dir fh) s"

definition fsyncdir :: "system \<Rightarrow> request \<Rightarrow> nat \<Rightarrow> nat \<Rightarrow> session \<Rightarrow> reply \<times> session" where
  "fsyncdir sys req ino fh s =
     (let policy = session_policy_for_request sys req s
      in if map_of (fs_dirs (se_fs s)) fh = None then (ReplyError EBADF, s)
         else case backend_for_ino sys policy ino s of
                (Inl e, s) \<Rightarrow> (ReplyError e, s)
              | (Inr backend, s) \<Rightarrow> call_reply (\<lambda>_. ReplyOk) (call sys (SyncPath (bp_path backend)) s))"

end
