(* ===== verification/Fuse_File_Ops.thy ===== *)
theory Fuse_File_Ops
  imports Fuse_Callbacks
begin

text \<open>
  The handlers of \<^verbatim>\<open>src/fuse_redirect/callbacks.rs\<close> that work on open files or change the tree: opening,
  reading and writing, creating, removing, renaming and changing attributes. A handler that fails after a
  system call has changed something leaves that change, as the code does.
\<close>

section \<open>Model: open files\<close>

text \<open>
  Passthrough is on when the probe of this boot has not failed, the kernel offers it, no marker file
  forbids it and the capability could be added to the answer. The other options of \<^verbatim>\<open>init\<close> do not concern
  the state.
\<close>

definition session_init :: "bool option \<Rightarrow> bool \<Rightarrow> bool \<Rightarrow> bool \<Rightarrow> session \<Rightarrow> session" where
  "session_init probe_state supported disabled added s =
     s\<lparr>se_passthrough := (case probe_state of None \<Rightarrow> True | Some ok \<Rightarrow> ok) \<and> supported \<and> \<not> disabled \<and> added\<rparr>"

text \<open>Files that are never handed to the kernel for passthrough.\<close>

definition shm_userspace_only :: "redirect_policy \<Rightarrow> bytes \<Rightarrow> bool" where
  "shm_userspace_only p rel \<longleftrightarrow> should_heal_media_sqlite_shm_rel p rel \<or> should_exclude_passthrough_mmap_log_rel rel"

definition set_backing :: "nat \<Rightarrow> nat \<Rightarrow> session \<Rightarrow> session" where
  "set_backing fh backing =
     with_fs (\<lambda>t. case map_of (fs_files t) fh of
         None \<Rightarrow> t
       | Some f \<Rightarrow> t\<lparr>fs_files := AList.update fh (f\<lparr>of_backing := Some backing\<rparr>) (fs_files t)\<rparr>)"

text \<open>Registering a descriptor for passthrough; the first failure switches passthrough off.\<close>

definition register_backing :: "system \<Rightarrow> redirect_policy \<Rightarrow> bytes \<Rightarrow> nat \<Rightarrow> nat \<Rightarrow> session \<Rightarrow> nat option \<times> session" where
  "register_backing sys p rel file fh s =
     (if se_passthrough s \<and> \<not> shm_userspace_only p rel
      then (case call sys (OpenBacking file) s of
              (Inr backing, s) \<Rightarrow> (Some backing, set_backing fh backing s)
            | (Inl _, s) \<Rightarrow> (None, s\<lparr>se_passthrough := False\<rparr>))
      else (None, s))"

definition open_session_file :: "open_file \<Rightarrow> session \<Rightarrow> nat \<times> session" where
  "open_session_file f s = (let (fh, t) = open_file_handle f (se_fs s) in (fh, s\<lparr>se_fs := t\<rparr>))"

text \<open>The descriptor is duplicated for the table of the session; \<open>dup\<close> is the result of \<^verbatim>\<open>try_clone\<close>.\<close>

definition open_file_of :: "bytes \<Rightarrow> nat option \<Rightarrow> bool \<Rightarrow> open_file" where
  "open_file_of rel dup read_only = \<lparr>of_rel = rel, of_file = dup, of_backing = None, of_read_only = read_only\<rparr>"

definition open_inode :: "system \<Rightarrow> (nat \<Rightarrow> nat option) \<Rightarrow> request \<Rightarrow> nat \<Rightarrow> 32 word \<Rightarrow> session \<Rightarrow> reply \<times> session" where
  "open_inode sys dup req ino flags s =
     (let is_create = open_flags_create flags;
          is_mutation = (open_flags_write flags \<or> is_create);
          policy = (if is_mutation then session_policy_for_request sys req s
                    else policy_for_read_request sys req (Some ino) None s);
          (policy, s) = (if \<not> is_mutation then reader_policy_for_ino sys req ino policy s else (policy, s))
      in case backend_for_ino sys policy ino s of
           (Inl e, s) \<Rightarrow> (ReplyError e, s)
         | (Inr backend, s) \<Rightarrow>
             if bp_read_only backend \<and> is_mutation then (ReplyError EROFS, s)
             else
               (let (healed, s) =
                  (if open_flags_write flags \<and> should_heal_media_sqlite_shm_rel policy (bp_rel backend)
                   then heal_poisoned_sqlite_shm_backend sys (po_user_id policy) (bp_rel backend) s else (False, s))
                in if healed then (ReplyError ENOENT, s)
                   else (case open_backend_file sys (bp_path backend) ((flags OR O_CLOEXEC) AND NOT O_CREAT) 0 s of
                           (Inl e, s) \<Rightarrow> (ReplyError e, s)
                         | (Inr file, s) \<Rightarrow>
                             (let (fh, s) = open_session_file (open_file_of (bp_rel backend) (dup file) (bp_read_only backend)) s;
                                  (backing, s) = register_backing sys policy (bp_rel backend) file fh s
                              in (ReplyOpened fh backing, s)))))"

definition read_handle :: "system \<Rightarrow> nat \<Rightarrow> nat \<Rightarrow> nat \<Rightarrow> session \<Rightarrow> reply \<times> session" where
  "read_handle sys fh offset len s =
     (case map_of (fs_files (se_fs s)) fh of
        None \<Rightarrow> (ReplyError EBADF, s)
      | Some f \<Rightarrow>
          (case of_file f of
             None \<Rightarrow> (ReplyError ENOSYS, s)
           | Some file \<Rightarrow> call_reply ReplyCount (call sys (ReadHandle file offset (min len MAX_READ_SIZE)) s)))"

text \<open>
  A write is routed once more for the record of the file monitor, which can note a hand-over.
  In \<^verbatim>\<open>write\<close>, \<open>answers\<close> is what the file system answers to the single writes, \<open>content\<close> the contents of the file;
  \<^verbatim>\<open>None\<close> is the loop of \<^verbatim>\<open>write_full_at\<close> still running. The contents are returned.
\<close>

definition report_write :: "system \<Rightarrow> redirect_policy \<Rightarrow> nat \<Rightarrow> session \<Rightarrow> session" where
  "report_write sys policy ino s =
     (if po_is_file_monitor_enabled policy
      then (case path_for_ino ino (se_fs s) of None \<Rightarrow> s | Some rel \<Rightarrow> snd (route sys policy rel Write s)) else s)"

definition write_handle ::
  "system \<Rightarrow> request \<Rightarrow> write_answer list \<Rightarrow> bytes \<Rightarrow> nat \<Rightarrow> nat \<Rightarrow> nat \<Rightarrow> bytes \<Rightarrow> session \<Rightarrow> (reply \<times> bytes \<times> session) option" where
  "write_handle sys req answers content ino fh offset data s =
     (let policy = session_policy_for_request sys req s
      in case map_of (fs_files (se_fs s)) fh of
           None \<Rightarrow> Some (ReplyError EBADF, content, s)
         | Some f \<Rightarrow>
             if of_read_only f then Some (ReplyError EROFS, content, snd (route sys policy (of_rel f) Write s))
             else (case of_file f of
                     None \<Rightarrow>
                       (case backend_for_ino sys policy ino s of
                          (Inr backend, s) \<Rightarrow>
                            Some (ReplyError (if bp_read_only backend then EROFS else ENOSYS), content, s)
                        | (Inl _, s) \<Rightarrow> Some (ReplyError ENOSYS, content, s))
                   | Some file \<Rightarrow>
                       (let s = snd (call sys (WriteHandle file data offset) s)
                        in case write_full_at answers data offset content of
                             None \<Rightarrow> None
                           | Some (Inl e, content) \<Rightarrow> Some (ReplyError e, content, s)
                           | Some (Inr n, content) \<Rightarrow>
                               Some (ReplyCount (n mod 2 ^ 32), content, report_write sys policy ino s))))"

definition release :: "nat \<Rightarrow> session \<Rightarrow> session" where
  "release fh s = with_fs (release_file fh) s"

definition flush :: "nat \<Rightarrow> session \<Rightarrow> reply" where
  "flush fh s = (if map_of (fs_files (se_fs s)) fh \<noteq> None then ReplyOk else ReplyError EBADF)"

definition fsync :: "system \<Rightarrow> nat \<Rightarrow> bool \<Rightarrow> session \<Rightarrow> reply \<times> session" where
  "fsync sys fh datasync s =
     (case map_of (fs_files (se_fs s)) fh of
        None \<Rightarrow> (ReplyError EBADF, s)
      | Some f \<Rightarrow>
          (case of_file f of
             None \<Rightarrow> (ReplyError ENOSYS, s)
           | Some file \<Rightarrow> call_reply (\<lambda>_. ReplyOk) (call sys (SyncHandle file datasync) s)))"

text \<open>An offset must fit \<^verbatim>\<open>off_t\<close>.\<close>

definition fits_off_t :: "nat \<Rightarrow> bool" where
  "fits_off_t offset \<longleftrightarrow> offset < 2 ^ 63"

definition copy_file_range ::
  "system \<Rightarrow> request \<Rightarrow> nat \<Rightarrow> nat \<Rightarrow> nat \<Rightarrow> nat \<Rightarrow> nat \<Rightarrow> 32 word \<Rightarrow> session \<Rightarrow> reply \<times> session" where
  "copy_file_range sys req fh_in offset_in fh_out offset_out len flags s =
     (if flags \<noteq> 0 then (ReplyError EINVAL, s)
      else if \<not> fits_off_t offset_in \<or> \<not> fits_off_t offset_out then (ReplyError EINVAL, s)
      else case map_of (fs_files (se_fs s)) fh_in of
             None \<Rightarrow> (ReplyError EBADF, s)
           | Some input \<Rightarrow>
               (case of_file input of
                  None \<Rightarrow> (ReplyError ENOSYS, s)
                | Some input_file \<Rightarrow>
                    (case map_of (fs_files (se_fs s)) fh_out of
                       None \<Rightarrow> (ReplyError EBADF, s)
                     | Some output \<Rightarrow>
                         (case of_file output of
                            None \<Rightarrow> (ReplyError ENOSYS, s)
                          | Some output_file \<Rightarrow>
                              if of_read_only output
                              then (ReplyError EROFS, snd (route sys (session_policy_for_request sys req s) (of_rel output) Write s))
                              else call_reply ReplyCount
                                (call sys (CopyHandles input_file offset_in output_file offset_out len) s)))))"

definition fallocate :: "system \<Rightarrow> nat \<Rightarrow> nat \<Rightarrow> nat \<Rightarrow> 32 word \<Rightarrow> session \<Rightarrow> reply \<times> session" where
  "fallocate sys fh offset len mode s =
     (case map_of (fs_files (se_fs s)) fh of
        None \<Rightarrow> (ReplyError EBADF, s)
      | Some f \<Rightarrow>
          if of_read_only f then (ReplyError EBADF, s)
          else (case of_file f of
                  None \<Rightarrow> (ReplyError ENOSYS, s)
                | Some file \<Rightarrow>
                    if \<not> fits_off_t offset \<or> \<not> fits_off_t len then (ReplyError EINVAL, s)
                    else call_reply (\<lambda>_. ReplyOk) (call sys (AllocateHandle file offset len mode) s)))"

text \<open>The length of the open file is the argument; it may fail to be read.\<close>

definition lseek :: "(nat \<Rightarrow> errno + int) \<Rightarrow> nat \<Rightarrow> int \<Rightarrow> int \<Rightarrow> session \<Rightarrow> reply" where
  "lseek file_len fh offset whence s =
     (case map_of (fs_files (se_fs s)) fh of
        None \<Rightarrow> ReplyError EBADF
      | Some f \<Rightarrow>
          (case of_file f of
             None \<Rightarrow> ReplyError EBADF
           | Some file \<Rightarrow>
               (case file_len file of
                  Inl e \<Rightarrow> ReplyError e
                | Inr len \<Rightarrow>
                    (case lseek_offset len offset whence of Inl e \<Rightarrow> ReplyError e | Inr r \<Rightarrow> ReplyOffset r))))"

section \<open>Model: new entries\<close>

text \<open>Entering a new inode after its entry was created, and the answer with its attributes.\<close>

definition enter_created :: "redirect_policy \<Rightarrow> bytes \<Rightarrow> session \<Rightarrow> nat \<times> session" where
  "enter_created policy rel s =
     (let s = with_fs clear_dir_candidate_cache s; (ino, t) = enter_inode rel (policy_uid policy) (se_fs s)
      in (ino, s\<lparr>se_fs := t\<rparr>))"

definition symlink :: "system \<Rightarrow> request \<Rightarrow> nat \<Rightarrow> bytes \<Rightarrow> bytes \<Rightarrow> session \<Rightarrow> reply \<times> session" where
  "symlink sys req parent_ino name target s =
     (case route_new_entry sys req parent_ino name s of
        (Inl e, s) \<Rightarrow> (ReplyError e, s)
      | (Inr (policy, rel, backend), s) \<Rightarrow>
          if has_nul target \<or> has_nul (bp_path backend) then (ReplyError EINVAL, s)
          else (case call sys (MakeSymlink target (bp_path backend)) s of
                  (Inl e, s) \<Rightarrow> (ReplyError e, s)
                | (Inr _, s) \<Rightarrow>
                    (case apply_create_metadata sys (bp_path backend)
                         (metadata_of_request sys req policy backend 0x1FF False) s of
                       (Some e, s) \<Rightarrow> (ReplyError e, s)
                     | (None, s) \<Rightarrow>
                         (let (ino, s) = enter_created policy rel s
                          in case visible_attr_for_backend sys policy ino backend of
                               Inr attr \<Rightarrow> (ReplyEntry attr, s)
                             | Inl e \<Rightarrow> (ReplyError e, with_fs (remove_lookup_locked ino 1) s)))))"

definition create ::
  "system \<Rightarrow> (nat \<Rightarrow> nat option) \<Rightarrow> request \<Rightarrow> nat \<Rightarrow> bytes \<Rightarrow> 32 word \<Rightarrow> 32 word \<Rightarrow> 32 word \<Rightarrow> session \<Rightarrow> reply \<times> session" where
  "create sys dup req parent_ino name mode umask flags s =
     (case route_new_entry sys req parent_ino name s of
        (Inl e, s) \<Rightarrow> (ReplyError e, s)
      | (Inr (policy, rel, backend), s) \<Rightarrow>
          (let create_mode = mode AND NOT umask
           in case open_backend_file sys (bp_path backend) (flags OR O_CREAT OR O_CLOEXEC) create_mode s of
                (Inl e, s) \<Rightarrow> (ReplyError e, s)
              | (Inr file, s) \<Rightarrow>
                  (case apply_create_metadata sys (bp_path backend)
                       (metadata_of_request sys req policy backend create_mode False) s of
                     (Some e, s) \<Rightarrow> (ReplyError e, s)
                   | (None, s) \<Rightarrow>
                       (let (ino, s) = enter_created policy rel s
                        in case attr_for_backend sys policy ino backend of
                             Inl e \<Rightarrow> (ReplyError e, with_fs (remove_lookup_locked ino 1) s)
                           | Inr attr \<Rightarrow>
                               (let (fh, s) = open_session_file (open_file_of rel (dup file) False) s;
                                    s = with_fs clear_dir_candidate_cache s;
                                    (backing, s) = register_backing sys policy (bp_rel backend) file fh s
                                in (ReplyCreated attr fh backing, s))))))"

definition mknod ::
  "system \<Rightarrow> request \<Rightarrow> nat \<Rightarrow> bytes \<Rightarrow> 32 word \<Rightarrow> 32 word \<Rightarrow> session \<Rightarrow> reply \<times> session" where
  "mknod sys req parent_ino name mode umask s =
     (let file_type = mode AND 0xF000
      in if file_type \<noteq> 0 \<and> file_type \<noteq> 0x8000 then (ReplyError EPERM, s)
         else (case route_new_entry sys req parent_ino name s of
                 (Inl e, s) \<Rightarrow> (ReplyError e, s)
               | (Inr (policy, rel, backend), s) \<Rightarrow>
                   (let create_mode = mode AND NOT 0xF000 AND NOT umask
                    in case open_backend_file sys (bp_path backend) (O_WRONLY OR O_CREAT OR O_EXCL) create_mode s of
                         (Inl e, s) \<Rightarrow> (ReplyError e, s)
                       | (Inr _, s) \<Rightarrow>
                           (case apply_create_metadata sys (bp_path backend)
                                (metadata_of_request sys req policy backend create_mode False) s of
                              (Some e, s) \<Rightarrow> (ReplyError e, s)
                            | (None, s) \<Rightarrow>
                                (let (ino, s) = enter_created policy rel s
                                 in case attr_for_backend sys policy ino backend of
                                      Inr attr \<Rightarrow> (ReplyEntry attr, s)
                                    | Inl e \<Rightarrow> (ReplyError e, with_fs (remove_lookup_locked ino 1) s))))))"

text \<open>\<open>later\<close> is what the system answers after the directory was made.\<close>

definition mkdir ::
  "system \<Rightarrow> system \<Rightarrow> request \<Rightarrow> nat \<Rightarrow> bytes \<Rightarrow> 32 word \<Rightarrow> 32 word \<Rightarrow> session \<Rightarrow> reply \<times> session" where
  "mkdir sys later req parent_ino name mode umask s =
     (case route_new_entry sys req parent_ino name s of
        (Inl e, s) \<Rightarrow> (ReplyError e, s)
      | (Inr (policy, rel, backend), s) \<Rightarrow>
          (case call sys (MakeDir (bp_path backend)) s of
             (Inl e, s) \<Rightarrow> (ReplyError e, s)
           | (Inr _, s) \<Rightarrow>
               (case apply_create_metadata sys (bp_path backend)
                    (metadata_of_request sys req policy backend (mode AND NOT umask) True) s of
                  (Some e, s) \<Rightarrow> (ReplyError e, s)
                | (None, s) \<Rightarrow>
                    reply_entry_for_rel later (rq_uid req) policy rel (with_fs clear_dir_candidate_cache s))))"

section \<open>Model: removing, renaming, changing\<close>

definition unlink :: "system \<Rightarrow> request \<Rightarrow> nat \<Rightarrow> bytes \<Rightarrow> session \<Rightarrow> reply \<times> session" where
  "unlink sys req parent_ino name s = remove_child sys (session_policy_for_request sys req s) parent_ino name False s"

definition rmdir :: "system \<Rightarrow> request \<Rightarrow> nat \<Rightarrow> bytes \<Rightarrow> session \<Rightarrow> reply \<times> session" where
  "rmdir sys req parent_ino name s = remove_child sys (session_policy_for_request sys req s) parent_ino name True s"

definition RENAME_NOREPLACE :: "32 word" where
  "RENAME_NOREPLACE = 1"

text \<open>After a rename on shared storage owner and mode are set again; failures of that are ignored.\<close>

definition fix_existing_path_metadata :: "system \<Rightarrow> bytes \<Rightarrow> redirect_policy \<Rightarrow> bool \<Rightarrow> session \<Rightarrow> session" where
  "fix_existing_path_metadata sys path policy is_shared_public s =
     (case existing_path_metadata (sy_repair_enabled sys) (of_int (po_uid policy)) is_shared_public
             (case sy_lstat sys path of
                Inl _ \<Rightarrow> None | Inr st \<Rightarrow> Some (st_mode st, file_type_from_mode (st_mode st) = Directory)) of
        None \<Rightarrow> s | Some md \<Rightarrow> snd (apply_create_metadata sys path md s))"

definition rename ::
  "system \<Rightarrow> system \<Rightarrow> request \<Rightarrow> nat \<Rightarrow> bytes \<Rightarrow> nat \<Rightarrow> bytes \<Rightarrow> 32 word \<Rightarrow> session \<Rightarrow> reply \<times> session" where
  "rename sys later req parent_ino name new_parent new_name flags s =
     (let policy = session_policy_for_request sys req s
      in if flags AND NOT RENAME_NOREPLACE \<noteq> 0 then (ReplyError EINVAL, s)
         else case path_for_ino parent_ino (se_fs s) of
                None \<Rightarrow> (ReplyError ENOENT, s)
              | Some parent_rel \<Rightarrow>
         (case path_for_ino new_parent (se_fs s) of
                None \<Rightarrow> (ReplyError ENOENT, s)
              | Some new_parent_rel \<Rightarrow>
         (case child_rel parent_rel name of
                Inl e \<Rightarrow> (ReplyError e, s)
              | Inr old_rel \<Rightarrow>
         (case child_rel new_parent_rel new_name of
                Inl e \<Rightarrow> (ReplyError e, s)
              | Inr new_rel \<Rightarrow>
         (case route sys policy old_rel Write s of
                (None, s) \<Rightarrow> (ReplyError ENOENT, s)
              | (Some old_backend, s) \<Rightarrow>
         (case route sys policy new_rel Write s of
                (None, s) \<Rightarrow> (ReplyError ENOENT, s)
              | (Some new_backend, s) \<Rightarrow>
         if bp_read_only old_backend \<or> bp_read_only new_backend then (ReplyError EROFS, s)
         else (case ensure_parent_for_backend sys policy new_backend s of
                 (Some e, s) \<Rightarrow> (ReplyError e, s)
               | (None, s) \<Rightarrow>
         (let noreplace = (flags AND RENAME_NOREPLACE \<noteq> 0)
          in if noreplace \<and> (has_nul (bp_path old_backend) \<or> has_nul (bp_path new_backend)) then (ReplyError EINVAL, s)
             else (case call sys (MoveFile (bp_path old_backend) (bp_path new_backend) noreplace) s of
                     (Inl e, s) \<Rightarrow> (ReplyError e, s)
                   | (Inr _, s) \<Rightarrow>
         (let s = fix_existing_path_metadata later (bp_path new_backend) policy (bp_shared_public new_backend) s
          in (ReplyOk, with_fs (clear_dir_candidate_cache \<circ> remap_inode_path old_rel new_rel) s)))))))))))"

record attr_change =
  ac_mode :: "32 word option"
  ac_uid :: "32 word option"
  ac_gid :: "32 word option"
  ac_size :: "nat option"
  ac_atime :: "int option"
  ac_mtime :: "int option"

definition ac_empty :: "attr_change \<Rightarrow> bool" where
  "ac_empty c \<longleftrightarrow> ac_mode c = None \<and> ac_uid c = None \<and> ac_gid c = None \<and> ac_size c = None \<and> ac_atime c = None
     \<and> ac_mtime c = None"

text \<open>The calls of \<^verbatim>\<open>setattr\<close>, in the order of the code; the first that fails ends it.\<close>

definition setattr_calls :: "system \<Rightarrow> backend_path \<Rightarrow> attr_change \<Rightarrow> sys_call list" where
  "setattr_calls sys backend c =
     (case ac_mode c of
        None \<Rightarrow> []
      | Some mode \<Rightarrow> [ChangeMode (bp_path backend) (adjust_metadata_mode mode (bp_shared_public backend)
            (bp_app_private backend) (sy_is_dir sys (bp_path backend)))])
     @ (case setattr_owner (bp_shared_public backend) (ac_uid c) (ac_gid c) of
          None \<Rightarrow> [] | Some (u, g) \<Rightarrow> [ChangeOwner (bp_path backend) u g])
     @ (case ac_size c of None \<Rightarrow> [] | Some n \<Rightarrow> [TruncateFile (bp_path backend) (setattr_size (bp_rel backend) n)])
     @ (if ac_atime c \<noteq> None \<or> ac_mtime c \<noteq> None then [SetTimes (bp_path backend)] else [])"

fun call_all :: "system \<Rightarrow> bool \<Rightarrow> sys_call list \<Rightarrow> session \<Rightarrow> errno option \<times> session" where
  "call_all sys nul [] s = (None, s)"
| "call_all sys nul (c # cs) s =
     (if nul then (Some EINVAL, s)
      else case call sys c s of (Inl e, s) \<Rightarrow> (Some e, s) | (Inr _, s) \<Rightarrow> call_all sys nul cs s)"

definition setattr :: "system \<Rightarrow> system \<Rightarrow> request \<Rightarrow> nat \<Rightarrow> attr_change \<Rightarrow> session \<Rightarrow> reply \<times> session" where
  "setattr sys later req ino c s =
     (let policy = session_policy_for_request sys req s;
          policy = (case inode_owner_policy_for_fd_stat ino (rq_uid req) s of Some o' \<Rightarrow> o' | None \<Rightarrow> policy)
      in case backend_for_ino sys policy ino s of
           (Inl e, s) \<Rightarrow> (ReplyError e, s)
         | (Inr backend, s) \<Rightarrow>
             if bp_read_only backend \<and> \<not> ac_empty c then (ReplyError EROFS, s)
             else (case call_all sys (has_nul (bp_path backend)) (setattr_calls sys backend c) s of
                     (Some e, s) \<Rightarrow> (ReplyError e, s)
                   | (None, s) \<Rightarrow>
                       (case attr_for_backend later policy ino backend of
                          Inl e \<Rightarrow> (ReplyError e, s) | Inr attr \<Rightarrow> (ReplyAttr attr, s))))"

end
