(* ===== verification/Fuse_Table.thy ===== *)
theory Fuse_Table
  imports Fuse_Inode
begin

text \<open>
  The inode table keeps its two maps inverse to each other. The abstract table is the map from inode
  numbers to paths; every operation of \<^verbatim>\<open>Fuse_Inode\<close> is shown to refine an operation on it, and the
  steps a session takes keep the invariant. At the end: the numbering of handles and the directory cache.
\<close>

section \<open>Inverse maps\<close>

lemma ball_pairI: "(\<And>a b. (a, b) \<in> S \<Longrightarrow> P a b) \<Longrightarrow> \<forall>(a, b) \<in> S. P a b"
  by auto

definition inverse_maps :: "(bytes \<Rightarrow> bytes) \<Rightarrow> (bytes \<rightharpoonup> nat) \<Rightarrow> (nat \<rightharpoonup> bytes) \<Rightarrow> bool" where
  "inverse_maps key I P \<longleftrightarrow> (\<forall>k i. I k = Some i \<longleftrightarrow> (\<exists>rel. P i = Some rel \<and> key rel = k))"

lemma inverse_mapsD: "inverse_maps key I P \<Longrightarrow> P i = Some rel \<Longrightarrow> I (key rel) = Some i"
  by (auto simp: inverse_maps_def)

lemma inverse_mapsE:
  assumes "inverse_maps key I P" "I k = Some i"
  obtains rel where "P i = Some rel" "key rel = k"
  using assms unfolding inverse_maps_def by blast

lemma inverse_maps_alloc:
  assumes "inverse_maps key I P" "I (key rel) = None" "P i = None"
  shows "inverse_maps key (I(key rel \<mapsto> i)) (P(i \<mapsto> rel))"
proof -
  have "key r \<noteq> key rel" if "P j = Some r" for j r
    using inverse_mapsD [OF assms(1) that] assms(2) by auto
  with assms show ?thesis unfolding inverse_maps_def by (auto split: if_splits)
qed

lemma inverse_maps_remove:
  assumes "inverse_maps key I P" "P i = Some rel"
  shows "inverse_maps key (I(key rel := None)) (P(i := None))"
proof -
  have "key r \<noteq> key rel" if "P j = Some r" "j \<noteq> i" for j r
    using inverse_mapsD [OF assms(1) that(1)] inverse_mapsD [OF assms] that(2) by auto
  with assms show ?thesis unfolding inverse_maps_def by (auto split: if_splits)
qed

lemma inverse_maps_rekey:
  assumes "inverse_maps key I P" "P i = Some old" "key new = key old \<or> I (key new) = None"
  shows "inverse_maps key (I(key old := None, key new \<mapsto> i)) (P(i \<mapsto> new))"
proof -
  have "inverse_maps key (I(key old := None)) (P(i := None))" using assms(1,2) by (rule inverse_maps_remove)
  moreover have "(I(key old := None)) (key new) = None" using assms(3) by auto
  ultimately have "inverse_maps key ((I(key old := None))(key new \<mapsto> i)) ((P(i := None))(i \<mapsto> new))"
    by (intro inverse_maps_alloc) auto
  then show ?thesis by simp
qed

section \<open>The invariant of the table\<close>

definition inode_table_ok :: "fuse_state \<Rightarrow> bool" where
  "inode_table_ok s \<longleftrightarrow>
     distinct (map fst (fs_inodes s))
     \<and> inverse_maps (inode_key s) (map_of (fs_inodes s)) (map_of (fs_paths_by_inode s))
     \<and> map_of (fs_paths_by_inode s) ROOT_INO = Some []
     \<and> (\<forall>i rel. map_of (fs_paths_by_inode s) i = Some rel \<longrightarrow> ROOT_INO \<le> i \<and> i < fs_next_ino s)
     \<and> (\<forall>i n. map_of (fs_lookup_counts s) i = Some n \<longrightarrow>
          0 < n \<and> i \<noteq> ROOT_INO \<and> map_of (fs_paths_by_inode s) i \<noteq> None)
     \<and> (\<forall>i n. map_of (fs_dir_entry_refs s) i = Some n \<longrightarrow>
          0 < n \<and> i \<noteq> ROOT_INO \<and> map_of (fs_paths_by_inode s) i \<noteq> None)"

lemma inode_key_frame [simp]:
  "inode_key (s\<lparr>fs_inodes := a\<rparr>) = inode_key s"
  "inode_key (s\<lparr>fs_paths_by_inode := b\<rparr>) = inode_key s"
  "inode_key (s\<lparr>fs_path_policy_uids := c\<rparr>) = inode_key s"
  "inode_key (s\<lparr>fs_inode_policy_uids := d\<rparr>) = inode_key s"
  "inode_key (s\<lparr>fs_inode_path_versions := e\<rparr>) = inode_key s"
  "inode_key (s\<lparr>fs_inode_backends := f\<rparr>) = inode_key s"
  "inode_key (s\<lparr>fs_lookup_counts := g\<rparr>) = inode_key s"
  "inode_key (s\<lparr>fs_dir_entry_refs := h\<rparr>) = inode_key s"
  "inode_key (s\<lparr>fs_files := j\<rparr>) = inode_key s"
  "inode_key (s\<lparr>fs_dirs := k\<rparr>) = inode_key s"
  "inode_key (s\<lparr>fs_dir_cache := l\<rparr>) = inode_key s"
  "inode_key (s\<lparr>fs_dir_cache_bytes := m\<rparr>) = inode_key s"
  "inode_key (s\<lparr>fs_dir_cache_capacity := m\<rparr>) = inode_key s"
  "inode_key (s\<lparr>fs_next_ino := m\<rparr>) = inode_key s"
  "inode_key (s\<lparr>fs_next_fh := m\<rparr>) = inode_key s"
  by (simp_all add: inode_key_def fun_eq_iff)

lemma inode_key_nil [simp]: "inode_key s [] = []"
  by (simp add: inode_key_def to_ascii_lowercase_def)

lemma inode_key_append: "inode_key s (a @ b) = inode_key s a @ inode_key s b"
  by (simp add: inode_key_def to_ascii_lowercase_def)

lemma inode_key_drop: "inode_key s (drop n a) = drop n (inode_key s a)"
  by (simp add: inode_key_def to_ascii_lowercase_def drop_map)

lemma inode_key_length [simp]: "length (inode_key s a) = length a"
  by (simp add: inode_key_def to_ascii_lowercase_def)

lemma inode_key_eq_nil [simp]: "inode_key s a = [] \<longleftrightarrow> a = []" "[] = inode_key s a \<longleftrightarrow> a = []"
  using inode_key_length [of s a] by (auto simp del: inode_key_length)

lemma ok_root_key: "inode_table_ok s \<Longrightarrow> map_of (fs_inodes s) [] = Some ROOT_INO"
  by (metis inode_table_ok_def inverse_mapsD inode_key_nil)

text \<open>The table only depends on six of the fields.\<close>

lemma inode_table_ok_cong:
  assumes "inode_table_ok s" "fs_inodes t = fs_inodes s" "fs_paths_by_inode t = fs_paths_by_inode s"
    "fs_casefold t = fs_casefold s" "fs_next_ino t = fs_next_ino s"
    "fs_lookup_counts t = fs_lookup_counts s" "fs_dir_entry_refs t = fs_dir_entry_refs s"
  shows "inode_table_ok t"
proof -
  have "inode_key t = inode_key s" using assms(4) by (simp add: inode_key_def fun_eq_iff)
  with assms show ?thesis unfolding inode_table_ok_def by simp
qed

lemma map_of_bump: "map_of (bump f k m) = (map_of m)(k \<mapsto> f (case map_of m k of None \<Rightarrow> 0 | Some n \<Rightarrow> n))"
  by (simp add: bump_def update_conv')

lemma map_of_drop_count:
  "map_of (drop_count i n counts) = (map_of counts)(i := (case map_of counts i of
      None \<Rightarrow> None | Some m \<Rightarrow> if m - n = 0 then None else Some (m - n)))"
  by (auto simp: drop_count_def update_conv' delete_conv' fun_eq_iff split: option.splits)

lemma sat_add_pos: "0 < sat_add_u64 n 1"
  by (simp add: sat_add_u64_def U64_MAX_def)

section \<open>Each operation keeps the invariant\<close>

lemma fuse_state_new_ok: "inode_table_ok (fuse_state_new casefold mem)"
  by (auto simp: fuse_state_new_def inode_table_ok_def inverse_maps_def inode_key_def ROOT_INO_def
      to_ascii_lowercase_def split: prod.splits if_splits)

lemma ino_for_path_ok:
  assumes ok: "inode_table_ok s" and room: "fs_next_ino s < U64_MAX"
    and enter: "ino_for_path_locked rel s = (ino, t)"
  shows "inode_table_ok t \<and> map_of (fs_inodes t) (inode_key s rel) = Some ino
    \<and> (\<forall>i p. map_of (fs_paths_by_inode s) i = Some p \<longrightarrow> map_of (fs_paths_by_inode t) i = Some p)
    \<and> map_of (fs_paths_by_inode t) ino \<noteq> None \<and> (ino = ROOT_INO \<longleftrightarrow> rel = [])
    \<and> fs_next_ino t \<le> fs_next_ino s + 1 \<and> inode_key t = inode_key s"
proof (cases "map_of (fs_inodes s) (inode_key s rel)")
  case (Some i)
  with enter have t: "t = s" "ino = i" by (auto simp: ino_for_path_locked_def)
  from ok have inv: "inverse_maps (inode_key s) (map_of (fs_inodes s)) (map_of (fs_paths_by_inode s))"
    and root: "map_of (fs_paths_by_inode s) ROOT_INO = Some []"
    by (simp_all add: inode_table_ok_def)
  from inverse_mapsE [OF inv Some] obtain p where p: "map_of (fs_paths_by_inode s) i = Some p" "inode_key s p = inode_key s rel" .
  have "i = ROOT_INO \<longleftrightarrow> rel = []"
  proof
    assume "i = ROOT_INO"
    with p root show "rel = []" by simp
  next
    assume "rel = []"
    with Some ok_root_key [OF ok] show "i = ROOT_INO" by simp
  qed
  with t Some ok p show ?thesis by auto
next
  case None
  let ?i = "fs_next_ino s"
  have fresh: "map_of (fs_paths_by_inode s) ?i = None"
    using ok by (cases "map_of (fs_paths_by_inode s) ?i") (auto simp: inode_table_ok_def)
  have pos: "ROOT_INO < ?i" using ok by (auto simp: inode_table_ok_def)
  have "rel \<noteq> []" using None ok_root_key [OF ok] by auto
  have t: "ino = ?i" "t = s\<lparr>fs_next_ino := ?i + 1, fs_inodes := AList.update (inode_key s rel) ?i (fs_inodes s),
      fs_paths_by_inode := AList.update ?i rel (fs_paths_by_inode s),
      fs_inode_path_versions := AList.update ?i 0 (fs_inode_path_versions s)\<rparr>"
    using enter None room pos by (auto simp: ino_for_path_locked_def Let_def sat_add_u64_def)
  have "inverse_maps (inode_key s) ((map_of (fs_inodes s))(inode_key s rel \<mapsto> ?i)) ((map_of (fs_paths_by_inode s))(?i \<mapsto> rel))"
    using ok None fresh by (intro inverse_maps_alloc) (auto simp: inode_table_ok_def)
  then have "inode_table_ok t"
    using ok pos unfolding t inode_table_ok_def
    by (auto simp: update_conv' distinct_update less_Suc_eq split: if_splits)
  with t fresh pos \<open>rel \<noteq> []\<close> show ?thesis by (auto simp: update_conv')
qed

lemma add_lookup_ok:
  assumes "inode_table_ok s" "map_of (fs_paths_by_inode s) ino \<noteq> None"
  shows "inode_table_ok (add_lookup_locked ino s)"
  using assms sat_add_pos unfolding inode_table_ok_def add_lookup_locked_def
  by (auto simp: map_of_bump)

lemma remember_policy_frame [simp]:
  "fs_inodes (remember_policy_for_inode_locked i r u s) = fs_inodes s"
  "fs_paths_by_inode (remember_policy_for_inode_locked i r u s) = fs_paths_by_inode s"
  "fs_casefold (remember_policy_for_inode_locked i r u s) = fs_casefold s"
  "fs_next_ino (remember_policy_for_inode_locked i r u s) = fs_next_ino s"
  "fs_lookup_counts (remember_policy_for_inode_locked i r u s) = fs_lookup_counts s"
  "fs_dir_entry_refs (remember_policy_for_inode_locked i r u s) = fs_dir_entry_refs s"
  by (simp_all add: remember_policy_for_inode_locked_def Let_def)

lemma remember_backend_frame [simp]:
  "fs_inodes (remember_backend_for_inode_locked i u b s) = fs_inodes s"
  "fs_paths_by_inode (remember_backend_for_inode_locked i u b s) = fs_paths_by_inode s"
  "fs_casefold (remember_backend_for_inode_locked i u b s) = fs_casefold s"
  "fs_next_ino (remember_backend_for_inode_locked i u b s) = fs_next_ino s"
  "fs_lookup_counts (remember_backend_for_inode_locked i u b s) = fs_lookup_counts s"
  "fs_dir_entry_refs (remember_backend_for_inode_locked i u b s) = fs_dir_entry_refs s"
  by (simp_all add: remember_backend_for_inode_locked_def Let_def)

lemma enter_inode_ok:
  assumes "inode_table_ok s" "fs_next_ino s < U64_MAX"
  shows "inode_table_ok (snd (enter_inode rel uid s))"
proof -
  obtain ino t where e: "ino_for_path_locked rel s = (ino, t)" by (cases "ino_for_path_locked rel s")
  note t = ino_for_path_ok [OF assms e]
  then have "inode_table_ok (remember_policy_for_inode_locked ino rel uid t)"
    by - (rule inode_table_ok_cong [of t]; simp)
  from add_lookup_ok [OF this] show ?thesis using t by (simp add: enter_inode_def e)
qed

lemma enter_inode_with_backend_ok:
  assumes "inode_table_ok s" "fs_next_ino s < U64_MAX"
  shows "inode_table_ok (snd (enter_inode_with_backend rel uid b s))"
proof -
  obtain ino t where e: "ino_for_path_locked rel s = (ino, t)" by (cases "ino_for_path_locked rel s")
  note t = ino_for_path_ok [OF assms e]
  then have "inode_table_ok (remember_backend_for_inode_locked ino uid b (remember_policy_for_inode_locked ino rel uid t))"
    by - (rule inode_table_ok_cong [of t]; simp)
  from add_lookup_ok [OF this] show ?thesis using t by (simp add: enter_inode_with_backend_def e)
qed

lemma remove_unreferenced_ok:
  assumes ok: "inode_table_ok s"
  shows "inode_table_ok (remove_unreferenced_inode ino s)"
proof (cases "ino = ROOT_INO \<or> map_of (fs_lookup_counts s) ino \<noteq> None \<or> map_of (fs_dir_entry_refs s) ino \<noteq> None
    \<or> map_of (fs_paths_by_inode s) ino = None")
  case True
  then show ?thesis using ok by (auto simp: remove_unreferenced_inode_def)
next
  case False
  then obtain rel where rel: "map_of (fs_paths_by_inode s) ino = Some rel" by auto
  have "inverse_maps (inode_key s) ((map_of (fs_inodes s))(inode_key s rel := None)) ((map_of (fs_paths_by_inode s))(ino := None))"
    using ok rel by (intro inverse_maps_remove) (auto simp: inode_table_ok_def)
  with False rel ok show ?thesis
    unfolding remove_unreferenced_inode_def inode_table_ok_def
    by (auto simp: delete_conv' distinct_delete)
qed

lemma drop_lookup_count_ok:
  assumes "inode_table_ok s"
  shows "inode_table_ok (s\<lparr>fs_lookup_counts := drop_count ino n (fs_lookup_counts s)\<rparr>)"
  using assms unfolding inode_table_ok_def by (auto simp: map_of_drop_count split: if_splits option.splits)

lemma drop_entry_ref_ok:
  assumes "inode_table_ok s"
  shows "inode_table_ok (s\<lparr>fs_dir_entry_refs := drop_count ino n (fs_dir_entry_refs s)\<rparr>)"
  using assms unfolding inode_table_ok_def by (auto simp: map_of_drop_count split: if_splits option.splits)

lemma remove_lookup_ok: "inode_table_ok s \<Longrightarrow> inode_table_ok (remove_lookup_locked ino n s)"
  unfolding remove_lookup_locked_def by (intro remove_unreferenced_ok drop_lookup_count_ok)

lemma forget_ok: "inode_table_ok s \<Longrightarrow> inode_table_ok (forget_inode ino n s)"
  by (simp add: forget_inode_def remove_lookup_ok)

lemma remove_dir_entry_refs_ok: "inode_table_ok s \<Longrightarrow> inode_table_ok (remove_dir_entry_refs es s)"
  unfolding remove_dir_entry_refs_def
proof (induction es arbitrary: s)
  case (Cons e es)
  have "inode_table_ok (remove_dir_entry_ref e s)"
    using Cons.prems by (auto simp: remove_dir_entry_ref_def intro!: remove_unreferenced_ok drop_entry_ref_ok)
  then show ?case using Cons.IH by simp
qed simp

lemma add_dir_entry_ref_ok:
  assumes "inode_table_ok s" "map_of (fs_paths_by_inode s) (de_ino e) \<noteq> None"
  shows "inode_table_ok (add_dir_entry_ref e s)"
  using assms sat_add_pos unfolding inode_table_ok_def add_dir_entry_ref_def by (auto simp: map_of_bump)

lemma add_dir_entry_refs_ok:
  "inode_table_ok s \<Longrightarrow> \<forall>e \<in> set es. map_of (fs_paths_by_inode s) (de_ino e) \<noteq> None \<Longrightarrow>
    inode_table_ok (add_dir_entry_refs es s)"
  unfolding add_dir_entry_refs_def
proof (induction es arbitrary: s)
  case (Cons e es)
  have frame: "fs_paths_by_inode (add_dir_entry_ref e s) = fs_paths_by_inode s" by (simp add: add_dir_entry_ref_def)
  have "inode_table_ok (add_dir_entry_ref e s)" using Cons.prems by (intro add_dir_entry_ref_ok) simp_all
  then show ?case using Cons.IH Cons.prems(2) frame by simp
qed simp

lemma remove_inode_path_ok:
  assumes ok: "inode_table_ok s" and "rel \<noteq> []"
  shows "inode_table_ok (remove_inode_path rel s)"
proof (cases "map_of (fs_inodes s) (inode_key s rel)")
  case None
  then show ?thesis using ok by (auto simp: remove_inode_path_def Let_def intro: inode_table_ok_cong)
next
  case (Some ino)
  from ok have inv: "inverse_maps (inode_key s) (map_of (fs_inodes s)) (map_of (fs_paths_by_inode s))"
    and root: "map_of (fs_paths_by_inode s) ROOT_INO = Some []"
    by (simp_all add: inode_table_ok_def)
  from inverse_mapsE [OF inv Some] obtain p where p: "map_of (fs_paths_by_inode s) ino = Some p"
    "inode_key s p = inode_key s rel" .
  with root \<open>rel \<noteq> []\<close> have "ino \<noteq> ROOT_INO" by auto
  moreover have "inverse_maps (inode_key s) ((map_of (fs_inodes s))(inode_key s rel := None)) ((map_of (fs_paths_by_inode s))(ino := None))"
    using inverse_maps_remove [OF inv p(1)] p(2) by simp
  ultimately show ?thesis
    using Some ok unfolding remove_inode_path_def inode_table_ok_def
    by (auto simp: Let_def delete_conv' distinct_delete)
qed


section \<open>Renaming moves a subtree\<close>

text \<open>The abstract table: what renaming \<open>old\<close> to \<open>new\<close> does to the paths of the inodes.\<close>

definition abs_rename :: "fuse_state \<Rightarrow> bytes \<Rightarrow> bytes \<Rightarrow> (nat \<rightharpoonup> bytes) \<Rightarrow> (nat \<rightharpoonup> bytes)" where
  "abs_rename s old new P = (\<lambda>i.
     case P i of
       None \<Rightarrow> None
     | Some p \<Rightarrow>
         if inode_key s p = inode_key s old then Some new
         else if inode_key s p = inode_key s new then None
         else if prefix (inode_key s old @ ''/'') (inode_key s p) then Some (new @ drop (length old) p)
         else Some p)"

lemma move_path_policy_frame [simp]:
  "fs_inodes (move_path_policy a b s) = fs_inodes s"
  "fs_paths_by_inode (move_path_policy a b s) = fs_paths_by_inode s"
  "fs_casefold (move_path_policy a b s) = fs_casefold s"
  "fs_next_ino (move_path_policy a b s) = fs_next_ino s"
  "fs_lookup_counts (move_path_policy a b s) = fs_lookup_counts s"
  "fs_dir_entry_refs (move_path_policy a b s) = fs_dir_entry_refs s"
  "inode_key (move_path_policy a b s) = inode_key s"
  by (simp_all add: move_path_policy_def inode_key_def fun_eq_iff split: option.split)

text \<open>The state after inode \<open>i\<close> moved from path \<open>old\<close> to path \<open>new\<close>, up to the fields the table does not use.\<close>

definition rekeyed :: "fuse_state \<Rightarrow> nat \<Rightarrow> bytes \<Rightarrow> bytes \<Rightarrow> fuse_state \<Rightarrow> bool" where
  "rekeyed s i old new t \<longleftrightarrow>
     map_of (fs_inodes t) = (map_of (fs_inodes s))(inode_key s old := None, inode_key s new \<mapsto> i)
     \<and> distinct (map fst (fs_inodes t))
     \<and> map_of (fs_paths_by_inode t) = (map_of (fs_paths_by_inode s))(i \<mapsto> new)
     \<and> fs_casefold t = fs_casefold s \<and> fs_next_ino t = fs_next_ino s
     \<and> fs_lookup_counts t = fs_lookup_counts s \<and> fs_dir_entry_refs t = fs_dir_entry_refs s"

lemma rekeyed_ok:
  assumes ok: "inode_table_ok s" and i: "map_of (fs_paths_by_inode s) i = Some old" and "old \<noteq> []"
    and free: "inode_key s new = inode_key s old \<or> map_of (fs_inodes s) (inode_key s new) = None"
    and t: "rekeyed s i old new t"
  shows "inode_table_ok t"
proof -
  have "inode_key t = inode_key s" using t by (simp add: rekeyed_def inode_key_def fun_eq_iff)
  moreover have "inverse_maps (inode_key s) ((map_of (fs_inodes s))(inode_key s old := None, inode_key s new \<mapsto> i))
      ((map_of (fs_paths_by_inode s))(i \<mapsto> new))"
    using ok i free by (intro inverse_maps_rekey) (auto simp: inode_table_ok_def)
  moreover have "i \<noteq> ROOT_INO" using ok i \<open>old \<noteq> []\<close> by (auto simp: inode_table_ok_def)
  ultimately show ?thesis
    using ok i t unfolding rekeyed_def inode_table_ok_def by auto
qed

lemma remap_descendant_rekeyed:
  assumes ok: "inode_table_ok s" and i: "map_of (fs_paths_by_inode s) i = Some p" and k: "k = inode_key s p"
    and len: "length old_rel \<le> length p"
  shows "rekeyed s i p (new_rel @ drop (length old_rel) p) (remap_descendant old_rel new_rel (k, i) s)"
proof -
  have "distinct (map fst (fs_inodes s))" using ok by (simp add: inode_table_ok_def)
  then show ?thesis
    using i len unfolding remap_descendant_def rekeyed_def k
    by (simp add: Let_def update_conv' delete_conv' distinct_update distinct_delete min_absorb1)
qed

text \<open>
  The loop over the descendants. The targets are free: the key a descendant gets is its own (a change of
  case) or not in the table yet, and two descendants never get the same one.
\<close>

lemma remap_descendants_fold:
  assumes "inode_table_ok s" and "old \<noteq> []"
    and "\<forall>(k, i) \<in> set moved. map_of (fs_inodes s) k = Some i \<and> prefix (inode_key s old @ ''/'') k
          \<and> (inode_key s new @ drop (length old) k = k \<or> map_of (fs_inodes s) (inode_key s new @ drop (length old) k) = None)"
    and "distinct (map fst moved)"
  shows "inode_table_ok (fold (remap_descendant old new) moved s)
    \<and> map_of (fs_paths_by_inode (fold (remap_descendant old new) moved s))
      = (\<lambda>i. if i \<in> snd ` set moved then map_option (\<lambda>p. new @ drop (length old) p) (map_of (fs_paths_by_inode s) i)
             else map_of (fs_paths_by_inode s) i)"
  using assms
proof (induction moved arbitrary: s)
  case (Cons m moved)
  obtain k i where m: "m = (k, i)" by (cases m)
  let ?K = "inode_key s" and ?I = "map_of (fs_inodes s)" and ?P = "map_of (fs_paths_by_inode s)"
  let ?t = "remap_descendant old new (k, i) s"
  let ?nk = "\<lambda>k. ?K new @ drop (length old) k"
  from Cons.prems(3) m have k: "?I k = Some i" "prefix (?K old @ ''/'') k" "?nk k = k \<or> ?I (?nk k) = None" by auto
  have inv: "inverse_maps ?K ?I ?P" using Cons.prems(1) by (simp add: inode_table_ok_def)
  from inverse_mapsE [OF inv k(1)] obtain p where p: "?P i = Some p" "?K p = k" .
  have "length (?K old @ ''/'') \<le> length k" using k(2) by (rule prefix_length_le)
  then have "length old < length (?K p)" unfolding p(2) by simp
  then have len: "length old \<le> length p" and "p \<noteq> []" by auto
  have re: "rekeyed s i p (new @ drop (length old) p) ?t"
    using Cons.prems(1) p len by (intro remap_descendant_rekeyed) simp_all
  have key: "?K (new @ drop (length old) p) = ?nk k" by (simp add: inode_key_append inode_key_drop p(2))
  have ok: "inode_table_ok ?t"
    using Cons.prems(1) p(1) \<open>p \<noteq> []\<close> _ re by (rule rekeyed_ok) (use k(3) p(2) key in auto)
  have Kt: "inode_key ?t = ?K" using re by (simp add: rekeyed_def inode_key_def fun_eq_iff)
  have It: "map_of (fs_inodes ?t) = ?I(k := None, ?nk k \<mapsto> i)" using re p(2) key by (simp add: rekeyed_def)
  have Pt: "map_of (fs_paths_by_inode ?t) = ?P(i \<mapsto> new @ drop (length old) p)" using re by (simp add: rekeyed_def)
  have tail: "map_of (fs_inodes ?t) k' = Some i' \<and> prefix (inode_key ?t old @ ''/'') k'
      \<and> (inode_key ?t new @ drop (length old) k' = k' \<or> map_of (fs_inodes ?t) (inode_key ?t new @ drop (length old) k') = None)"
    if "(k', i') \<in> set moved" for k' i'
  proof -
    from that Cons.prems(3) have k': "?I k' = Some i'" "prefix (?K old @ ''/'') k'" "?nk k' = k' \<or> ?I (?nk k') = None"
      by auto
    have ne: "k' \<noteq> k" using Cons.prems(4) m that by force
    have "?nk k \<noteq> k'" using k(3) k'(1) ne by auto
    moreover have "?nk k \<noteq> ?nk k'"
    proof
      assume "?nk k = ?nk k'"
      then have "drop (length old) k = drop (length old) k'" by simp
      moreover have "take (length old) k = ?K old" "take (length old) k' = ?K old"
        using k(2) k'(2) by (auto simp: prefix_def)
      ultimately show False using ne by (metis append_take_drop_id)
    qed
    ultimately show ?thesis using k' ne by (auto simp: It Kt)
  qed
  have "i \<notin> snd ` set moved"
  proof
    assume "i \<in> snd ` set moved"
    then obtain k' where "(k', i) \<in> set moved" by auto
    with Cons.prems(3) have "?I k' = Some i" by auto
    from inverse_mapsE [OF inv this] p have "k' = k" by auto
    with \<open>(k', i) \<in> set moved\<close> Cons.prems(4) m show False by force
  qed
  moreover have "inode_table_ok (fold (remap_descendant old new) moved ?t)
    \<and> map_of (fs_paths_by_inode (fold (remap_descendant old new) moved ?t))
      = (\<lambda>i. if i \<in> snd ` set moved then map_option (\<lambda>p. new @ drop (length old) p) (map_of (fs_paths_by_inode ?t) i)
             else map_of (fs_paths_by_inode ?t) i)"
  proof (rule Cons.IH [OF ok Cons.prems(2)])
    show "\<forall>(k', i') \<in> set moved. map_of (fs_inodes ?t) k' = Some i' \<and> prefix (inode_key ?t old @ ''/'') k'
      \<and> (inode_key ?t new @ drop (length old) k' = k' \<or> map_of (fs_inodes ?t) (inode_key ?t new @ drop (length old) k') = None)"
      by (rule ball_pairI) (rule tail)
    show "distinct (map fst moved)" using Cons.prems(4) m by simp
  qed
  ultimately show ?case using p(1) by (auto simp: m Pt fun_eq_iff)
qed (auto simp: fun_eq_iff)

lemma remap_descendant_paths_ok:
  assumes ok: "inode_table_ok s" and "old \<noteq> []"
    and free: "inode_key s new = inode_key s old
      \<or> (\<forall>k. map_of (fs_inodes s) k \<noteq> None \<longrightarrow> \<not> prefix (inode_key s new @ ''/'') k)"
  shows "inode_table_ok (remap_descendant_paths old new s)
    \<and> map_of (fs_paths_by_inode (remap_descendant_paths old new s))
      = (\<lambda>i. case map_of (fs_paths_by_inode s) i of
           None \<Rightarrow> None
         | Some p \<Rightarrow> if prefix (inode_key s old @ ''/'') (inode_key s p)
             then Some (new @ drop (length old) p) else Some p)"
proof -
  let ?K = "inode_key s" and ?I = "map_of (fs_inodes s)" and ?P = "map_of (fs_paths_by_inode s)"
  let ?moved = "filter (\<lambda>(key, _). starts_with_str key (?K old @ ''/'')) (fs_inodes s)"
  have dist: "distinct (map fst (fs_inodes s))" and inv: "inverse_maps ?K ?I ?P"
    using ok by (simp_all add: inode_table_ok_def)
  have one: "map_of (fs_inodes s) k = Some i \<and> prefix (?K old @ ''/'') k
      \<and> (?K new @ drop (length old) k = k \<or> ?I (?K new @ drop (length old) k) = None)"
    if "(k, i) \<in> set ?moved" for k i
  proof -
    from that have "(k, i) \<in> set (fs_inodes s)" and pre: "prefix (?K old @ ''/'') k"
      by (auto simp: starts_with_str_def)
    then have I: "?I k = Some i" using dist by simp
    from pre obtain r where r: "k = ?K old @ ''/'' @ r" by (auto simp: prefix_def)
    then have d: "drop (length old) k = ''/'' @ r" by (simp add: drop_append)
    show ?thesis
    proof (cases "?K new = ?K old")
      case True
      with I pre d r show ?thesis by simp
    next
      case False
      with free have "\<not> ?I (?K new @ ''/'' @ r) \<noteq> None" by (metis append_assoc prefixI)
      with I pre d show ?thesis by simp
    qed
  qed
  have all: "\<forall>(k, i) \<in> set ?moved. map_of (fs_inodes s) k = Some i \<and> prefix (?K old @ ''/'') k
      \<and> (?K new @ drop (length old) k = k \<or> ?I (?K new @ drop (length old) k) = None)"
    by (rule ball_pairI) (rule one)
  have "distinct (map fst ?moved)" using dist by (rule distinct_map_filter)
  with ok assms(2) all have "inode_table_ok (fold (remap_descendant old new) ?moved s)
    \<and> map_of (fs_paths_by_inode (fold (remap_descendant old new) ?moved s))
      = (\<lambda>i. if i \<in> snd ` set ?moved then map_option (\<lambda>p. new @ drop (length old) p) (?P i) else ?P i)"
    by (rule remap_descendants_fold)
  moreover have "i \<in> snd ` set ?moved \<longleftrightarrow> prefix (?K old @ ''/'') (?K p)" if "?P i = Some p" for i p
  proof
    assume "i \<in> snd ` set ?moved"
    then obtain k where k: "(k, i) \<in> set (fs_inodes s)" "prefix (?K old @ ''/'') k" by (auto simp: starts_with_str_def)
    then have "?I k = Some i" using dist by simp
    from inverse_mapsE [OF inv this] that have "?K p = k" by auto
    with k show "prefix (?K old @ ''/'') (?K p)" by simp
  next
    assume "prefix (?K old @ ''/'') (?K p)"
    moreover have "(?K p, i) \<in> set (fs_inodes s)" using inverse_mapsD [OF inv that] by (rule map_of_SomeD)
    ultimately show "i \<in> snd ` set ?moved" by (force simp: starts_with_str_def)
  qed
  ultimately show ?thesis
    unfolding remap_descendant_paths_def Let_def
    by (auto simp: fun_eq_iff split: option.split)
qed


lemma remove_inode_path_frame [simp]:
  "inode_key (remove_inode_path r s) = inode_key s"
  by (simp add: remove_inode_path_def Let_def inode_key_def fun_eq_iff split: option.split)

lemma remove_inode_path_maps:
  assumes "inode_table_ok s"
  shows "map_of (fs_inodes (remove_inode_path rel s)) = (map_of (fs_inodes s))(inode_key s rel := None)"
    and "map_of (fs_paths_by_inode (remove_inode_path rel s))
      = (\<lambda>i. case map_of (fs_paths_by_inode s) i of
           None \<Rightarrow> None | Some p \<Rightarrow> if inode_key s p = inode_key s rel then None else Some p)"
proof -
  let ?K = "inode_key s" and ?I = "map_of (fs_inodes s)" and ?P = "map_of (fs_paths_by_inode s)"
  have inv: "inverse_maps ?K ?I ?P" using assms by (simp add: inode_table_ok_def)
  show "map_of (fs_inodes (remove_inode_path rel s)) = ?I(?K rel := None)"
    by (auto simp: remove_inode_path_def Let_def delete_conv' fun_eq_iff split: option.split)
  show "map_of (fs_paths_by_inode (remove_inode_path rel s))
      = (\<lambda>i. case ?P i of None \<Rightarrow> None | Some p \<Rightarrow> if ?K p = ?K rel then None else Some p)"
  proof (cases "?I (?K rel)")
    case None
    then have "?K p \<noteq> ?K rel" if "?P i = Some p" for i p using inverse_mapsD [OF inv that] by auto
    with None show ?thesis by (auto simp: remove_inode_path_def Let_def fun_eq_iff split: option.split)
  next
    case (Some ino)
    from inverse_mapsE [OF inv Some] obtain q where q: "?P ino = Some q" "?K q = ?K rel" .
    have "?K p = ?K rel \<longleftrightarrow> i = ino" if "?P i = Some p" for i p
      using inverse_mapsD [OF inv that] Some q that by auto
    with Some show ?thesis
      by (auto simp: remove_inode_path_def Let_def delete_conv' fun_eq_iff split: option.split)
  qed
qed

text \<open>The renamed inode itself.\<close>

definition move_inode :: "bytes \<Rightarrow> bytes \<Rightarrow> fuse_state \<Rightarrow> fuse_state" where
  "move_inode old_rel new_rel s =
     (case map_of (fs_inodes s) (inode_key s old_rel) of
        None \<Rightarrow> s
      | Some ino \<Rightarrow> s\<lparr>fs_inodes := AList.update (inode_key s new_rel) ino
            (AList.delete (inode_key s old_rel) (fs_inodes s)),
          fs_paths_by_inode := AList.update ino new_rel (fs_paths_by_inode s),
          fs_inode_path_versions := bump wrapping_inc_u64 ino (fs_inode_path_versions s)\<rparr>)"

lemma move_inode_ok:
  assumes ok: "inode_table_ok s" and "old \<noteq> []"
    and free: "inode_key s new = inode_key s old \<or> map_of (fs_inodes s) (inode_key s new) = None"
  shows "inode_table_ok (move_inode old new s)
    \<and> map_of (fs_inodes (move_inode old new s)) =
        (case map_of (fs_inodes s) (inode_key s old) of None \<Rightarrow> map_of (fs_inodes s)
         | Some i \<Rightarrow> (map_of (fs_inodes s))(inode_key s old := None, inode_key s new \<mapsto> i))
    \<and> map_of (fs_paths_by_inode (move_inode old new s)) =
        (\<lambda>i. case map_of (fs_paths_by_inode s) i of
           None \<Rightarrow> None | Some p \<Rightarrow> if inode_key s p = inode_key s old then Some new else Some p)
    \<and> inode_key (move_inode old new s) = inode_key s"
proof -
  let ?K = "inode_key s" and ?I = "map_of (fs_inodes s)" and ?P = "map_of (fs_paths_by_inode s)"
  have inv: "inverse_maps ?K ?I ?P" and dist: "distinct (map fst (fs_inodes s))"
    using ok by (simp_all add: inode_table_ok_def)
  show ?thesis
  proof (cases "?I (?K old)")
    case None
    then have "?K p \<noteq> ?K old" if "?P i = Some p" for i p using inverse_mapsD [OF inv that] by auto
    with None ok show ?thesis by (auto simp: move_inode_def fun_eq_iff split: option.split)
  next
    case (Some ino)
    from inverse_mapsE [OF inv Some] obtain q where q: "?P ino = Some q" "?K q = ?K old" .
    then have "q \<noteq> []" using \<open>old \<noteq> []\<close> by auto
    have re: "rekeyed s ino q new (move_inode old new s)"
      using Some q(2) dist
      by (simp add: move_inode_def rekeyed_def update_conv' delete_conv' distinct_update distinct_delete)
    have "inode_table_ok (move_inode old new s)"
      using ok q(1) \<open>q \<noteq> []\<close> _ re by (rule rekeyed_ok) (use free q(2) in auto)
    moreover have same: "?K p = ?K old \<longleftrightarrow> i = ino" if "?P i = Some p" for i p
      using inverse_mapsD [OF inv that] Some q that by auto
    have "map_of (fs_paths_by_inode (move_inode old new s)) =
        (\<lambda>i. case ?P i of None \<Rightarrow> None | Some p \<Rightarrow> if ?K p = ?K old then Some new else Some p)"
      using same q(1) by (auto simp: move_inode_def Some update_conv' fun_eq_iff split: option.split)
    moreover have "inode_key (move_inode old new s) = ?K"
      by (simp add: move_inode_def Some)
    ultimately show ?thesis using re Some q(2) by (simp add: rekeyed_def)
  qed
qed

lemma remap_inode_path_eq:
  "remap_inode_path old new s =
     (if old = new then s
      else if inode_key s old = inode_key s new then
        remap_descendant_paths old new (move_path_policy old new
          (case map_of (fs_inodes s) (inode_key s old) of None \<Rightarrow> s
           | Some ino \<Rightarrow> s\<lparr>fs_paths_by_inode := AList.update ino new (fs_paths_by_inode s),
               fs_inode_path_versions := bump wrapping_inc_u64 ino (fs_inode_path_versions s)\<rparr>))
      else remap_descendant_paths old new (move_inode old new (move_path_policy old new (remove_inode_path new s))))"
  by (simp add: remap_inode_path_def move_inode_def Let_def)

lemma ok_move_path_policy: "inode_table_ok s \<Longrightarrow> inode_table_ok (move_path_policy a b s)"
  by (erule inode_table_ok_cong) simp_all

lemma remap_inode_path_refines:
  assumes ok: "inode_table_ok s" and ne: "old \<noteq> []" "new \<noteq> []"
    and not_inside: "\<not> prefix (inode_key s old @ ''/'') (inode_key s new)"
    and free: "inode_key s new = inode_key s old
      \<or> (\<forall>i p. map_of (fs_paths_by_inode s) i = Some p \<longrightarrow> \<not> prefix (inode_key s new @ ''/'') (inode_key s p))"
  shows "inode_table_ok (remap_inode_path old new s)
    \<and> map_of (fs_paths_by_inode (remap_inode_path old new s))
      = (if old = new then map_of (fs_paths_by_inode s) else abs_rename s old new (map_of (fs_paths_by_inode s)))"
proof -
  let ?K = "inode_key s" and ?I = "map_of (fs_inodes s)" and ?P = "map_of (fs_paths_by_inode s)"
  have inv: "inverse_maps ?K ?I ?P" using ok by (simp add: inode_table_ok_def)
  have self: "\<not> prefix (?K r @ ''/'') (?K r')" if "?K r = ?K r'" for r r'
    using that by (auto simp: prefix_def)
  consider (same) "old = new" | (fold) "old \<noteq> new" "?K old = ?K new" | (move) "?K old \<noteq> ?K new" by blast
  then show ?thesis
  proof cases
    case same
    with ok show ?thesis by (simp add: remap_inode_path_def)
  next
    case fold
    define s1 where "s1 = (case ?I (?K old) of None \<Rightarrow> s
        | Some ino \<Rightarrow> s\<lparr>fs_paths_by_inode := AList.update ino new (fs_paths_by_inode s),
            fs_inode_path_versions := bump wrapping_inc_u64 ino (fs_inode_path_versions s)\<rparr>)"
    have s1: "inode_table_ok s1 \<and> inode_key s1 = ?K \<and> map_of (fs_paths_by_inode s1) =
        (\<lambda>i. case ?P i of None \<Rightarrow> None | Some p \<Rightarrow> if ?K p = ?K old then Some new else Some p)"
    proof (cases "?I (?K old)")
      case None
      then have "?K p \<noteq> ?K old" if "?P i = Some p" for i p using inverse_mapsD [OF inv that] by auto
      with None ok show ?thesis by (auto simp: s1_def fun_eq_iff split: option.split)
    next
      case (Some ino)
      from inverse_mapsE [OF inv Some] obtain q where q: "?P ino = Some q" "?K q = ?K old" .
      then have "q \<noteq> []" using ne by auto
      have re: "rekeyed s ino q new s1"
        using Some q(2) fold ok by (auto simp: s1_def rekeyed_def update_conv' inode_table_ok_def)
      have "inode_table_ok s1" using ok q(1) \<open>q \<noteq> []\<close> _ re by (rule rekeyed_ok) (use fold q(2) in auto)
      moreover have "?K p = ?K old \<longleftrightarrow> i = ino" if "?P i = Some p" for i p
        using inverse_mapsD [OF inv that] Some q that by auto
      then have "map_of (fs_paths_by_inode s1) =
          (\<lambda>i. case ?P i of None \<Rightarrow> None | Some p \<Rightarrow> if ?K p = ?K old then Some new else Some p)"
        using q(1) by (auto simp: s1_def Some update_conv' fun_eq_iff split: option.split)
      ultimately show ?thesis by (simp add: s1_def Some)
    qed
    then have s2: "inode_table_ok (move_path_policy old new s1)" by (simp add: ok_move_path_policy)
    have eq: "remap_inode_path old new s = remap_descendant_paths old new (move_path_policy old new s1)"
      using fold by (simp add: remap_inode_path_eq s1_def)
    have "inode_key (move_path_policy old new s1) new = inode_key (move_path_policy old new s1) old"
      using s1 fold by simp
    from remap_descendant_paths_ok [OF s2 ne(1) disjI1 [OF this]] s1 fold self [of old new]
    show ?thesis unfolding eq
      by (auto simp: abs_rename_def fun_eq_iff split: option.split)
  next
    case move
    let ?s1 = "move_path_policy old new (remove_inode_path new s)"
    have s1: "inode_table_ok ?s1" using ok ne by (intro ok_move_path_policy remove_inode_path_ok)
    note maps1 = remove_inode_path_maps [OF ok, of new]
    have K1: "inode_key ?s1 = ?K" by simp
    have "map_of (fs_inodes ?s1) (inode_key ?s1 new) = None" using maps1 by simp
    from move_inode_ok [OF s1 ne(1) disjI2 [OF this], unfolded K1]
    have s2: "inode_table_ok (move_inode old new ?s1)"
      and I2: "map_of (fs_inodes (move_inode old new ?s1)) =
        (case map_of (fs_inodes ?s1) (?K old) of None \<Rightarrow> map_of (fs_inodes ?s1)
         | Some i \<Rightarrow> (map_of (fs_inodes ?s1))(?K old := None, ?K new \<mapsto> i))"
      and P2: "map_of (fs_paths_by_inode (move_inode old new ?s1)) =
        (\<lambda>i. case map_of (fs_paths_by_inode ?s1) i of
           None \<Rightarrow> None | Some p \<Rightarrow> if ?K p = ?K old then Some new else Some p)"
      and K2: "inode_key (move_inode old new ?s1) = ?K" by simp_all
    have "\<not> prefix (?K new @ ''/'') k" if "map_of (fs_inodes (move_inode old new ?s1)) k \<noteq> None" for k
    proof (cases "k = ?K new")
      case True
      then show ?thesis by (auto simp: prefix_def)
    next
      case False
      with that I2 have "map_of (fs_inodes ?s1) k \<noteq> None" by (auto split: option.splits if_splits)
      with maps1 obtain i where "?I k = Some i" by (auto split: if_splits)
      from inverse_mapsE [OF inv this] obtain p where "?P i = Some p" "?K p = k" .
      with free move show ?thesis by auto
    qed
    then have "\<forall>k. map_of (fs_inodes (move_inode old new ?s1)) k \<noteq> None
        \<longrightarrow> \<not> prefix (inode_key (move_inode old new ?s1) new @ ''/'') k" unfolding K2 by blast
    from remap_descendant_paths_ok [OF s2 ne(1) disjI2 [OF this]] move not_inside
    show ?thesis
      by (auto simp: remap_inode_path_eq abs_rename_def P2 K2 maps1 fun_eq_iff split: option.split)
  qed
qed


section \<open>Listings and handles\<close>

text \<open>Once the numbers are used up, they stay so; a counter below the limit has never reached it.\<close>

lemma ino_exhausted: "U64_MAX \<le> fs_next_ino s \<Longrightarrow> U64_MAX \<le> fs_next_ino (snd (ino_for_path_locked rel s))"
  by (auto simp: ino_for_path_locked_def Let_def sat_add_u64_def split: option.split)

lemma materialize_exhausted:
  "U64_MAX \<le> fs_next_ino s \<Longrightarrow> U64_MAX \<le> fs_next_ino (snd (fold materialize_candidate candidates (es, s)))"
proof (induction candidates arbitrary: es s)
  case (Cons c candidates)
  have "U64_MAX \<le> fs_next_ino (snd (materialize_candidate c (es, s)))"
    using ino_exhausted [OF Cons.prems] by (simp add: materialize_candidate_def case_prod_beta Let_def)
  then show ?case
    using Cons.IH [of "snd (materialize_candidate c (es, s))" "fst (materialize_candidate c (es, s))"] by simp
qed simp

lemma materialize_candidates_ok:
  assumes "inode_table_ok s" "fs_next_ino t < U64_MAX"
    and "fold materialize_candidate candidates (es, s) = (es', t)"
    and "\<forall>e \<in> set es. map_of (fs_paths_by_inode s) (de_ino e) \<noteq> None"
  shows "inode_table_ok t \<and> (\<forall>e \<in> set es'. map_of (fs_paths_by_inode t) (de_ino e) \<noteq> None)"
  using assms
proof (induction candidates arbitrary: es s)
  case (Cons c candidates)
  obtain ino u where e: "ino_for_path_locked (dc_rel c) s = (ino, u)" by (cases "ino_for_path_locked (dc_rel c) s")
  have room: "fs_next_ino s < U64_MAX"
    using materialize_exhausted [of s "c # candidates" es] Cons.prems(2,3) by (metis not_le snd_conv)
  have u: "inode_table_ok u" "map_of (fs_paths_by_inode u) ino \<noteq> None"
    "\<forall>i p. map_of (fs_paths_by_inode s) i = Some p \<longrightarrow> map_of (fs_paths_by_inode u) i = Some p"
    using ino_for_path_ok [OF Cons.prems(1) room e] by simp_all
  show ?case
  proof (rule Cons.IH)
    show "inode_table_ok u" by fact
    show "fs_next_ino t < U64_MAX" by fact
    show "fold materialize_candidate candidates
        (es @ [\<lparr>de_ino = ino, de_kind = dc_kind c, de_name = dc_name c, de_rel = dc_rel c\<rparr>], u) = (es', t)"
    proof -
      have "materialize_candidate c (es, s)
          = (es @ [\<lparr>de_ino = ino, de_kind = dc_kind c, de_name = dc_name c, de_rel = dc_rel c\<rparr>], u)"
        by (simp add: materialize_candidate_def e)
      with Cons.prems(3) show ?thesis by simp
    qed
    show "\<forall>e \<in> set (es @ [\<lparr>de_ino = ino, de_kind = dc_kind c, de_name = dc_name c, de_rel = dc_rel c\<rparr>]).
        map_of (fs_paths_by_inode u) (de_ino e) \<noteq> None"
      using Cons.prems(4) u(2,3) by fastforce
  qed
qed auto

lemma materialize_dir_entries_ok:
  assumes ok: "inode_table_ok s" and room: "fs_next_ino t < U64_MAX"
    and rel: "path_for_ino ino s = Some rel" and m: "materialize_dir_entries ino rel candidates s = (es, t)"
  shows "inode_table_ok t \<and> (\<forall>e \<in> set es. map_of (fs_paths_by_inode t) (de_ino e) \<noteq> None)"
proof -
  from ok have inv: "inverse_maps (inode_key s) (map_of (fs_inodes s)) (map_of (fs_paths_by_inode s))"
    and root: "map_of (fs_paths_by_inode s) ROOT_INO = Some []"
    by (simp_all add: inode_table_ok_def)
  have parent: "map_of (fs_paths_by_inode s) i \<noteq> None" if "map_of (fs_inodes s) k = Some i" for k i
    using inverse_mapsE [OF inv that] by auto
  show ?thesis
    using ok room m [unfolded materialize_dir_entries_def Let_def]
    by (rule materialize_candidates_ok) (use rel root parent in \<open>auto simp: path_for_ino_def split: option.split\<close>)
qed

text \<open>The fields the inode table does not own.\<close>

definition session_rest :: "fuse_state \<Rightarrow> _" where
  "session_rest s = (fs_next_fh s, fs_files s, fs_dirs s, fs_dir_cache s, fs_dir_cache_bytes s,
     fs_dir_cache_byte_budget s, fs_dir_cache_capacity s, fs_dir_cache_max_capacity s)"

lemma session_rest_table [simp]:
  "session_rest (snd (ino_for_path_locked rel s)) = session_rest s"
  "session_rest (remember_policy_for_inode_locked i rel u s) = session_rest s"
  "session_rest (remember_backend_for_inode_locked i u b s) = session_rest s"
  "session_rest (add_lookup_locked i s) = session_rest s"
  "session_rest (remove_unreferenced_inode i s) = session_rest s"
  "session_rest (remove_inode_path rel s) = session_rest s"
  "session_rest (move_path_policy a b' s) = session_rest s"
  "session_rest (move_inode a b' s) = session_rest s"
  by (simp_all add: session_rest_def ino_for_path_locked_def remember_policy_for_inode_locked_def
      remember_backend_for_inode_locked_def add_lookup_locked_def remove_unreferenced_inode_def
      remove_inode_path_def move_path_policy_def move_inode_def Let_def split: option.split)

lemma session_rest_update [simp]:
  "session_rest (s\<lparr>fs_lookup_counts := c\<rparr>) = session_rest s"
  "session_rest (s\<lparr>fs_dir_entry_refs := c\<rparr>) = session_rest s"
  "session_rest (s\<lparr>fs_paths_by_inode := p, fs_inode_path_versions := v\<rparr>) = session_rest s"
  by (simp_all add: session_rest_def)

lemma session_rest_more [simp]:
  "session_rest (snd (enter_inode rel u s)) = session_rest s"
  "session_rest (snd (enter_inode_with_backend rel u b s)) = session_rest s"
  "session_rest (remove_lookup_locked i n s) = session_rest s"
  "session_rest (forget_inode i n s) = session_rest s"
  "session_rest (add_dir_entry_ref e s) = session_rest s"
  "session_rest (remove_dir_entry_ref e s) = session_rest s"
  by (simp_all add: enter_inode_def enter_inode_with_backend_def forget_inode_def remove_lookup_locked_def
      add_dir_entry_ref_def remove_dir_entry_ref_def case_prod_beta Let_def)

lemma session_rest_fold:
  "(\<And>x s. session_rest (f x s) = session_rest s) \<Longrightarrow> session_rest (fold f xs s) = session_rest s"
  by (induction xs arbitrary: s) simp_all

lemma session_rest_refs [simp]:
  "session_rest (add_dir_entry_refs es s) = session_rest s"
  "session_rest (remove_dir_entry_refs es s) = session_rest s"
  by (simp_all add: add_dir_entry_refs_def remove_dir_entry_refs_def session_rest_fold)

lemma session_rest_remap [simp]:
  "session_rest (remap_descendant old new m s) = session_rest s"
  "session_rest (remap_descendant_paths old new s) = session_rest s"
  "session_rest (remap_inode_path old new s) = session_rest s"
proof -
  show d: "session_rest (remap_descendant old new m s) = session_rest s" for m s
    by (auto simp: remap_descendant_def move_path_policy_def session_rest_def Let_def split: prod.split option.split)
  then show p: "session_rest (remap_descendant_paths old new s) = session_rest s" for s
    by (simp add: remap_descendant_paths_def Let_def session_rest_fold)
  show "session_rest (remap_inode_path old new s) = session_rest s"
    by (simp add: remap_inode_path_eq p split: option.split)
qed

lemma session_rest_materialize:
  "session_rest (snd (fold materialize_candidate cs (es, s))) = session_rest s"
proof (induction cs arbitrary: es s)
  case (Cons c cs)
  have "session_rest (snd (materialize_candidate c (es, s))) = session_rest s"
    by (simp add: materialize_candidate_def case_prod_beta Let_def)
  then show ?case using Cons.IH [of "fst (materialize_candidate c (es, s))" "snd (materialize_candidate c (es, s))"] by simp
qed simp

definition handles_ok :: "fuse_state \<Rightarrow> bool" where
  "handles_ok s \<longleftrightarrow>
     0 < fs_next_fh s
     \<and> (\<forall>fh. map_of (fs_files s) fh \<noteq> None \<longrightarrow> fh < fs_next_fh s \<and> map_of (fs_dirs s) fh = None)
     \<and> (\<forall>fh. map_of (fs_dirs s) fh \<noteq> None \<longrightarrow> fh < fs_next_fh s)"

definition cached_bytes :: "(bytes \<times> cached_candidates) list \<Rightarrow> nat" where
  "cached_bytes cache = sum_list (map (cc_estimated_bytes \<circ> snd) cache)"

definition dir_cache_counted :: "fuse_state \<Rightarrow> bool" where
  "dir_cache_counted s \<longleftrightarrow> distinct (map fst (fs_dir_cache s))
     \<and> fs_dir_cache_bytes s = cached_bytes (fs_dir_cache s)
     \<and> fs_dir_cache_bytes s \<le> fs_dir_cache_byte_budget s \<and> fs_dir_cache_byte_budget s < U64_MAX
     \<and> 0 < fs_dir_cache_capacity s \<and> fs_dir_cache_capacity s \<le> fs_dir_cache_max_capacity s
     \<and> fs_dir_cache_max_capacity s \<le> U64_MAX"

definition dir_cache_ok :: "fuse_state \<Rightarrow> bool" where
  "dir_cache_ok s \<longleftrightarrow> dir_cache_counted s \<and> length (fs_dir_cache s) \<le> fs_dir_cache_capacity s"

lemma handles_ok_cong: "session_rest t = session_rest s \<Longrightarrow> handles_ok t = handles_ok s"
  by (simp add: session_rest_def handles_ok_def)

lemma dir_cache_ok_cong: "session_rest t = session_rest s \<Longrightarrow> dir_cache_ok t = dir_cache_ok s"
  by (simp add: session_rest_def dir_cache_ok_def dir_cache_counted_def)

lemma cached_bytes_delete:
  "distinct (map fst c) \<Longrightarrow> map_of c k = Some v \<Longrightarrow>
    cached_bytes c = cc_estimated_bytes v + cached_bytes (AList.delete k c)"
proof (induction c)
  case (Cons x c)
  show ?case
  proof (cases "fst x = k")
    case True
    then have "k \<notin> fst ` set c" using Cons.prems(1) by auto
    then have "AList.delete k c = c" by (force simp: AList.delete_eq filter_id_conv)
    with True Cons.prems(2) show ?thesis by (cases x) (simp add: cached_bytes_def)
  next
    case False
    then show ?thesis using Cons by (cases x) (simp add: cached_bytes_def)
  qed
qed simp

lemma update_absent: "map_of c k = None \<Longrightarrow> AList.update k v c = c @ [(k, v)]"
  by (induction c) (auto split: if_splits)

lemma forget_cached_counted:
  assumes "dir_cache_counted s"
  shows "dir_cache_counted (forget_cached rel s)
    \<and> map_of (fs_dir_cache (forget_cached rel s)) = (map_of (fs_dir_cache s))(rel := None)
    \<and> length (fs_dir_cache (forget_cached rel s)) \<le> length (fs_dir_cache s)"
proof (cases "map_of (fs_dir_cache s) rel")
  case None
  with assms show ?thesis by (auto simp: forget_cached_def fun_eq_iff)
next
  case (Some v)
  with assms cached_bytes_delete [of "fs_dir_cache s" rel v] show ?thesis
    by (auto simp: forget_cached_def dir_cache_counted_def delete_conv' distinct_delete length_delete_le)
qed

lemma forget_cached_frame [simp]:
  "fs_dir_cache_byte_budget (forget_cached rel s) = fs_dir_cache_byte_budget s"
  "fs_dir_cache_capacity (forget_cached rel s) = fs_dir_cache_capacity s"
  "fs_dir_cache_max_capacity (forget_cached rel s) = fs_dir_cache_max_capacity s"
  "inode_table_ok (forget_cached rel s) = inode_table_ok s"
  "handles_ok (forget_cached rel s) = handles_ok s"
  by (simp_all add: forget_cached_def inode_table_ok_def handles_ok_def split: option.split)

text \<open>Eviction stops with room for the new listing.\<close>

lemma evict_cached_ok:
  "dir_cache_counted s \<Longrightarrow> map_of (fs_dir_cache s) rel = None \<Longrightarrow>
    dir_cache_counted (evict_cached est s) \<and> map_of (fs_dir_cache (evict_cached est s)) rel = None
    \<and> \<not> cache_full est (evict_cached est s)
    \<and> fs_dir_cache_byte_budget (evict_cached est s) = fs_dir_cache_byte_budget s
    \<and> inode_table_ok (evict_cached est s) = inode_table_ok s
    \<and> handles_ok (evict_cached est s) = handles_ok s"
proof (induction est s rule: evict_cached.induct)
  case (1 est s)
  show ?case
  proof (cases "cache_full est s")
    case True
    note step = forget_cached_counted [OF 1(2), of "fst (hd (fs_dir_cache s))"]
    have e: "evict_cached est s = evict_cached est (forget_cached (fst (hd (fs_dir_cache s))) s)"
      using True by (subst evict_cached.simps) simp
    from 1(1) [OF True] step 1(3) show ?thesis unfolding e by simp
  next
    case False
    then have "evict_cached est s = s" by (subst evict_cached.simps) simp
    with False 1 show ?thesis by simp
  qed
qed

lemma store_dir_candidates_ok:
  assumes "dir_cache_ok s"
  shows "dir_cache_ok (store_dir_candidates now est rel cs srcs s)
    \<and> inode_table_ok (store_dir_candidates now est rel cs srcs s) = inode_table_ok s
    \<and> handles_ok (store_dir_candidates now est rel cs srcs s) = handles_ok s"
proof -
  let ?s1 = "forget_cached rel s"
  from assms have "dir_cache_counted s" and len: "length (fs_dir_cache s) \<le> fs_dir_cache_capacity s"
    by (simp_all add: dir_cache_ok_def)
  note s1 = forget_cached_counted [OF this(1), of rel]
  show ?thesis
  proof (cases "est \<le> fs_dir_cache_byte_budget s")
    case False
    with s1 len show ?thesis by (simp add: store_dir_candidates_def Let_def dir_cache_ok_def)
  next
    case True
    have grown: "dir_cache_counted (grow_dir_cache ?s1) \<and> fs_dir_cache (grow_dir_cache ?s1) = fs_dir_cache ?s1
        \<and> fs_dir_cache_byte_budget (grow_dir_cache ?s1) = fs_dir_cache_byte_budget s
        \<and> inode_table_ok (grow_dir_cache ?s1) = inode_table_ok s \<and> handles_ok (grow_dir_cache ?s1) = handles_ok s"
    proof -
      have "dir_cache_counted (grow_dir_cache ?s1)" using s1 by (auto simp: grow_dir_cache_def dir_cache_counted_def)
      moreover have "inode_table_ok (grow_dir_cache ?s1) = inode_table_ok ?s1"
        "handles_ok (grow_dir_cache ?s1) = handles_ok ?s1"
        by (simp_all add: grow_dir_cache_def inode_table_ok_def handles_ok_def)
      ultimately show ?thesis by (simp add: grow_dir_cache_def)
    qed
    let ?s2 = "evict_cached est (grow_dir_cache ?s1)"
    have s2: "dir_cache_counted ?s2 \<and> map_of (fs_dir_cache ?s2) rel = None \<and> \<not> cache_full est ?s2
        \<and> fs_dir_cache_byte_budget ?s2 = fs_dir_cache_byte_budget s
        \<and> inode_table_ok ?s2 = inode_table_ok s \<and> handles_ok ?s2 = handles_ok s"
      using evict_cached_ok [of "grow_dir_cache ?s1" rel est] grown s1 by simp
    then have fits: "fs_dir_cache_bytes ?s2 + est \<le> fs_dir_cache_byte_budget s \<and> length (fs_dir_cache ?s2) < fs_dir_cache_capacity ?s2"
      using True by (auto simp: cache_full_def dir_cache_counted_def cached_bytes_def sat_add_u64_def)
    let ?c = "\<lparr>cc_created_at = now, cc_estimated_bytes = est, cc_candidates = cs, cc_sources = srcs\<rparr>"
    let ?t = "?s2\<lparr>fs_dir_cache_bytes := sat_add_u64 (fs_dir_cache_bytes ?s2) est,
        fs_dir_cache := AList.update rel ?c (fs_dir_cache ?s2)\<rparr>"
    have t: "store_dir_candidates now est rel cs srcs s = ?t"
      using True by (simp add: store_dir_candidates_def Let_def)
    have "rel \<notin> fst ` set (fs_dir_cache ?s2)" using s2 by (simp add: map_of_eq_None_iff)
    moreover have "sat_add_u64 (fs_dir_cache_bytes ?s2) est = fs_dir_cache_bytes ?s2 + est"
      using fits s2 by (simp add: sat_add_u64_def dir_cache_counted_def)
    ultimately have "dir_cache_ok ?t"
      using s2 fits by (simp add: dir_cache_ok_def dir_cache_counted_def update_absent cached_bytes_def)
    moreover have "inode_table_ok ?t = inode_table_ok ?s2" "handles_ok ?t = handles_ok ?s2"
      by (simp_all add: inode_table_ok_def handles_ok_def)
    ultimately show ?thesis using t s2 by simp
  qed
qed


section \<open>Sessions\<close>

text \<open>
  The steps a session takes under its lock. Two of them have conditions the kernel or the size of \<^verbatim>\<open>u64\<close>
  gives: numbers and handles are not exhausted, and a rename neither moves a directory into itself nor
  replaces a path that has entries below it in the table. The last condition is not checked by the code;
  see \<open>rename_over_stale_entries\<close> below.
\<close>

inductive table_step :: "fuse_state \<Rightarrow> fuse_state \<Rightarrow> bool" where
  looked_up: "fs_next_ino s < U64_MAX \<Longrightarrow> table_step s (snd (enter_inode_with_backend rel uid backend s))"
| created: "fs_next_ino s < U64_MAX \<Longrightarrow> table_step s (snd (enter_inode rel uid s))"
| failed: "table_step s (remove_lookup_locked ino 1 s)"
| forgotten: "table_step s (forget_inode ino nlookup s)"
| dir_opened: "path_for_ino ino s = Some rel \<Longrightarrow> fs_next_ino (snd (open_dir_handle ino rel candidates s)) < U64_MAX \<Longrightarrow>
    fs_next_fh s < U64_MAX \<Longrightarrow> table_step s (snd (open_dir_handle ino rel candidates s))"
| dir_cached: "table_step s (store_dir_candidates now estimated rel candidates sources s)"
| dir_released: "table_step s (release_dir fh s)"
| file_opened: "fs_next_fh s < U64_MAX \<Longrightarrow> table_step s (snd (open_file_handle f s))"
| file_backed: "map_of (fs_files s) fh = Some f \<Longrightarrow> table_step s (s\<lparr>fs_files := AList.update fh f' (fs_files s)\<rparr>)"
| file_released: "table_step s (release_file fh s)"
| removed: "rel \<noteq> [] \<Longrightarrow> table_step s (clear_dir_candidate_cache (remove_inode_path rel s))"
| renamed: "old \<noteq> [] \<Longrightarrow> new \<noteq> [] \<Longrightarrow> \<not> prefix (inode_key s old @ ''/'') (inode_key s new) \<Longrightarrow>
    inode_key s new = inode_key s old
      \<or> (\<forall>i p. path_for_ino i s = Some p \<longrightarrow> \<not> prefix (inode_key s new @ ''/'') (inode_key s p)) \<Longrightarrow>
    table_step s (clear_dir_candidate_cache (remap_inode_path old new s))"
| cleared: "table_step s (clear_dir_candidate_cache s)"

definition session_ok :: "fuse_state \<Rightarrow> bool" where
  "session_ok s \<longleftrightarrow> inode_table_ok s \<and> handles_ok s \<and> dir_cache_ok s"

lemma session_ok_table:
  "session_ok s \<Longrightarrow> inode_table_ok t \<Longrightarrow> session_rest t = session_rest s \<Longrightarrow> session_ok t"
  unfolding session_ok_def using handles_ok_cong dir_cache_ok_cong by blast

lemma clear_cache_ok: "session_ok s \<Longrightarrow> session_ok (clear_dir_candidate_cache s)"
  by (simp add: session_ok_def inode_table_ok_def inode_key_def handles_ok_def dir_cache_ok_def dir_cache_counted_def
      cached_bytes_def clear_dir_candidate_cache_def)

lemma next_handle_ok:
  assumes "session_ok s" "fs_next_fh s < U64_MAX" "next_handle s = (fh, t)"
  shows "session_ok t \<and> fs_next_fh t = fh + 1 \<and> map_of (fs_files t) fh = None \<and> map_of (fs_dirs t) fh = None
    \<and> fs_next_ino t = fs_next_ino s \<and> fs_paths_by_inode t = fs_paths_by_inode s"
proof -
  have t: "fh = fs_next_fh s" "t = s\<lparr>fs_next_fh := fs_next_fh s + 1\<rparr>"
    using assms(2,3) by (auto simp: next_handle_def sat_add_u64_def)
  have free: "map_of (fs_files s) fh = None" "map_of (fs_dirs s) fh = None"
    using assms(1) t(1) by (auto simp: session_ok_def handles_ok_def)
  show ?thesis
    using assms(1) free unfolding t
    by (auto simp: session_ok_def inode_table_ok_def handles_ok_def dir_cache_ok_def dir_cache_counted_def less_SucI)
qed

lemma open_file_handle_ok:
  assumes "session_ok s" "fs_next_fh s < U64_MAX"
  shows "session_ok (snd (open_file_handle f s))"
proof -
  obtain fh t where n: "next_handle s = (fh, t)" by (cases "next_handle s")
  from next_handle_ok [OF assms n] show ?thesis
    by (auto simp: open_file_handle_def n session_ok_def inode_table_ok_def handles_ok_def dir_cache_ok_def
        dir_cache_counted_def update_conv')
qed

lemma open_dir_handle_ok:
  assumes ok: "session_ok s" and rel: "path_for_ino ino s = Some rel"
    and room: "fs_next_ino (snd (open_dir_handle ino rel candidates s)) < U64_MAX" "fs_next_fh s < U64_MAX"
  shows "session_ok (snd (open_dir_handle ino rel candidates s))"
proof -
  obtain fh t where n: "next_handle s = (fh, t)" by (cases "next_handle s")
  note t = next_handle_ok [OF ok room(2) n]
  obtain es u where m: "materialize_dir_entries ino rel candidates t = (es, u)" by (cases "materialize_dir_entries ino rel candidates t")
  have "fs_next_ino (add_dir_entry_refs es u) = fs_next_ino u"
    by (induction es arbitrary: u) (simp_all add: add_dir_entry_refs_def add_dir_entry_ref_def)
  then have "fs_next_ino u < U64_MAX" using room(1) by (simp add: open_dir_handle_def n m Let_def)
  then have "inode_table_ok u \<and> (\<forall>e \<in> set es. map_of (fs_paths_by_inode u) (de_ino e) \<noteq> None)"
    using t rel by (intro materialize_dir_entries_ok [OF _ _ _ m]) (auto simp: session_ok_def path_for_ino_def)
  moreover have "session_rest u = session_rest t"
    using session_rest_materialize m unfolding materialize_dir_entries_def Let_def by (metis snd_conv)
  ultimately have "inode_table_ok (add_dir_entry_refs es u)" "session_rest (add_dir_entry_refs es u) = session_rest t"
    by (auto intro: add_dir_entry_refs_ok)
  with t have v: "session_ok (add_dir_entry_refs es u)" "fs_next_fh (add_dir_entry_refs es u) = fh + 1"
      "map_of (fs_files (add_dir_entry_refs es u)) fh = None"
    using session_ok_table by (blast, simp_all add: session_rest_def)
  then have "session_ok ((add_dir_entry_refs es u)\<lparr>fs_dirs := ds\<rparr>)"
    if "ds = AList.update fh es (fs_dirs (add_dir_entry_refs es u))" for ds
    using that by (simp add: session_ok_def inode_table_ok_def handles_ok_def dir_cache_ok_def
        dir_cache_counted_def update_conv' less_SucI)
  then show ?thesis by (simp add: open_dir_handle_def n m Let_def)
qed

lemma release_dir_ok:
  assumes "session_ok s"
  shows "session_ok (release_dir fh s)"
proof (cases "map_of (fs_dirs s) fh")
  case (Some es)
  have closed: "session_ok (s\<lparr>fs_dirs := AList.delete fh (fs_dirs s)\<rparr>)"
    using assms by (auto simp: session_ok_def inode_table_ok_def handles_ok_def dir_cache_ok_def dir_cache_counted_def
        delete_conv')
  then have "session_ok (remove_dir_entry_refs es (s\<lparr>fs_dirs := AList.delete fh (fs_dirs s)\<rparr>))"
    by (rule session_ok_table) (use closed in \<open>simp_all add: session_ok_def remove_dir_entry_refs_ok\<close>)
  with Some show ?thesis by (simp add: release_dir_def)
qed (use assms in \<open>simp add: release_dir_def\<close>)

lemma table_step_ok: "table_step s t \<Longrightarrow> session_ok s \<Longrightarrow> session_ok t"
proof (induction rule: table_step.induct)
  case (looked_up s rel uid backend)
  then show ?case by - (rule session_ok_table [of s]; simp add: session_ok_def enter_inode_with_backend_ok)
next
  case (created s rel uid)
  then show ?case by - (rule session_ok_table [of s]; simp add: session_ok_def enter_inode_ok)
next
  case (failed s ino)
  then show ?case by - (rule session_ok_table [of s]; simp add: session_ok_def remove_lookup_ok)
next
  case (forgotten s ino nlookup)
  then show ?case by - (rule session_ok_table [of s]; simp add: session_ok_def forget_ok)
next
  case (dir_opened ino s rel candidates)
  then show ?case by (intro open_dir_handle_ok)
next
  case (dir_cached s now estimated rel candidates sources)
  then show ?case using store_dir_candidates_ok unfolding session_ok_def by blast
next
  case (dir_released s fh)
  then show ?case by (rule release_dir_ok)
next
  case (file_opened s f)
  then show ?case by (intro open_file_handle_ok)
next
  case (file_backed s fh f f')
  then show ?case
    by (auto simp: session_ok_def inode_table_ok_def handles_ok_def dir_cache_ok_def dir_cache_counted_def update_conv')
next
  case (file_released s fh)
  then show ?case
    by (auto simp: release_file_def session_ok_def inode_table_ok_def handles_ok_def dir_cache_ok_def dir_cache_counted_def
        delete_conv')
next
  case (removed rel s)
  then show ?case
    by - (rule clear_cache_ok, rule session_ok_table [of s]; simp add: session_ok_def remove_inode_path_ok)
next
  case (renamed old new s)
  then show ?case
    using remap_inode_path_refines [of s old new]
    by - (rule clear_cache_ok, rule session_ok_table [of s]; simp add: session_ok_def path_for_ino_def)
next
  case (cleared s)
  then show ?case by (rule clear_cache_ok)
qed

lemma session_new_ok: "session_ok (fuse_state_new casefold mem)"
  using fuse_state_new_ok [of casefold mem]
  by (auto simp: session_ok_def handles_ok_def dir_cache_ok_def dir_cache_counted_def cached_bytes_def
      fuse_state_new_def dir_candidate_cache_capacity_limits_def INITIAL_DIR_CANDIDATE_CACHE_ENTRIES_def U64_MAX_def
      Let_def split: option.splits)

inductive session_reachable :: "fuse_state \<Rightarrow> bool" where
  started: "session_reachable (fuse_state_new casefold mem)"
| stepped: "session_reachable s \<Longrightarrow> table_step s t \<Longrightarrow> session_reachable t"

lemma reachable_ok: "session_reachable s \<Longrightarrow> session_ok s"
  by (induction rule: session_reachable.induct) (auto intro: session_new_ok table_step_ok)


section \<open>Properties\<close>


lemmas table_eval = fuse_state_new_def enter_inode_def ino_for_path_locked_def
  remember_policy_for_inode_locked_def add_lookup_locked_def dir_candidate_cache_capacity_limits_def Let_def
  ROOT_INO_def U64_MAX_def sat_add_u64_def bump_def inode_key_def keeps_owner_def PATH_POLICY_UID_CAP_def
  remap_inode_path_def remove_inode_path_def move_path_policy_def remap_descendant_paths_def remap_descendant_def
  forget_inode_def remove_lookup_locked_def remove_unreferenced_inode_def drop_count_def path_for_ino_def
  starts_with_str_def wrapping_inc_u64_def

definition session_example :: fuse_state where
  "session_example = snd (enter_inode ''DCIM/a'' 10123 (snd (enter_inode ''DCIM'' 10123 (fuse_state_new True None))))"

lemma session_example_reachable: "session_reachable session_example"
proof -
  let ?s0 = "fuse_state_new True None"
  let ?s1 = "snd (enter_inode ''DCIM'' 10123 ?s0)"
  have "fs_next_ino ?s0 < U64_MAX" by (simp add: table_eval)
  then have r: "session_reachable ?s1"
    by (rule session_reachable.stepped [OF session_reachable.started table_step.created])
  have "fs_next_ino ?s1 < U64_MAX"
    by (simp add: table_eval to_ascii_lowercase_def ascii_lower_def is_ascii_upper_def)
  then show ?thesis
    unfolding session_example_def by (rule session_reachable.stepped [OF r table_step.created])
qed

lemma session_example_eqs:
  "fs_inodes session_example = [([], 1), (''dcim'', 2), (''dcim/a'', 3)]"
  "fs_paths_by_inode session_example = [(1, []), (2, ''DCIM''), (3, ''DCIM/a'')]"
  "fs_lookup_counts session_example = [(2, 1), (3, 1)]"
  "fs_dir_entry_refs session_example = []"
  "fs_next_ino session_example = 4" "fs_casefold session_example"
  by (simp_all add: session_example_def table_eval to_ascii_lowercase_def ascii_lower_def is_ascii_upper_def)

lemma session_example_key: "inode_key session_example = to_ascii_lowercase"
  using session_example_eqs(6) by (simp add: inode_key_def fun_eq_iff)


text \<open>
  (C12) A rename moves exactly the subtree: the renamed inode gets the new path, every inode below it keeps its
  number and gets the path below the new one, in its own spelling; the inode whose path is replaced leaves
  the table, and every other inode keeps its path. This holds with and without case folding, also for a
  rename that only changes the case, where nothing is replaced.
\<close>

theorem rename_moves_subtree:
  assumes "session_reachable s" and "old \<noteq> []" "new \<noteq> []" "old \<noteq> new"
    and "\<not> prefix (inode_key s old @ ''/'') (inode_key s new)"
    and "inode_key s new = inode_key s old
      \<or> (\<forall>i p. path_for_ino i s = Some p \<longrightarrow> \<not> prefix (inode_key s new @ ''/'') (inode_key s p))"
  shows "path_for_ino i (remap_inode_path old new s) = abs_rename s old new (\<lambda>i. path_for_ino i s) i"
  using remap_inode_path_refines [of s old new] assms reachable_ok [OF assms(1)]
  by (simp add: session_ok_def path_for_ino_def fun_eq_iff)

theorem rename_moves_subtree_witness:
  "path_for_ino 3 (remap_inode_path ''dcim'' ''Pictures'' session_example) = Some ''Pictures/a''"
proof -
  have "path_for_ino 3 (remap_inode_path ''dcim'' ''Pictures'' session_example)
      = abs_rename session_example ''dcim'' ''Pictures'' (\<lambda>i. path_for_ino i session_example) 3"
    by (rule rename_moves_subtree [OF session_example_reachable])
       (auto simp: path_for_ino_def session_example_eqs session_example_key to_ascii_lowercase_def ascii_lower_def
         is_ascii_upper_def split: if_splits)
  then show ?thesis
    by (simp add: abs_rename_def path_for_ino_def session_example_eqs session_example_key to_ascii_lowercase_def
        ascii_lower_def is_ascii_upper_def)
qed

text \<open>
  Two paths get the same inode number exactly when the back end takes them for the same file: when their
  keys are equal, that is, up to the case of ASCII letters on a case-folding back end and literally on any
  other. Asking for the second path leaves the number of the first unchanged.
\<close>

theorem same_inode_iff_same_key:
  assumes "session_reachable s" "fs_next_ino s + 1 < U64_MAX"
  shows "(let (i, t) = ino_for_path_locked a s; (j, u) = ino_for_path_locked b t
          in (i = j \<longleftrightarrow> inode_key s a = inode_key s b) \<and> path_for_ino i u = path_for_ino i t)"
proof -
  obtain i t where a: "ino_for_path_locked a s = (i, t)" by (cases "ino_for_path_locked a s")
  obtain j u where b: "ino_for_path_locked b t = (j, u)" by (cases "ino_for_path_locked b t")
  have "inode_table_ok s" using reachable_ok [OF assms(1)] by (simp add: session_ok_def)
  moreover have room: "fs_next_ino s < U64_MAX" using assms(2) by simp
  ultimately have t: "inode_table_ok t" "map_of (fs_inodes t) (inode_key s a) = Some i"
    "fs_next_ino t < U64_MAX" "inode_key t = inode_key s" "map_of (fs_paths_by_inode t) i \<noteq> None"
    using ino_for_path_ok [OF _ _ a] assms(2) by auto
  have u: "inode_table_ok u" "map_of (fs_inodes u) (inode_key s b) = Some j" "inode_key u = inode_key s"
    "map_of (fs_paths_by_inode t) k = Some q \<Longrightarrow> map_of (fs_paths_by_inode u) k = Some q" for k q
    using ino_for_path_ok [OF t(1) t(3) b] t(4) by auto
  obtain p where p: "map_of (fs_paths_by_inode t) i = Some p" using t(5) by auto
  have inv: "inverse_maps (inode_key s) (map_of (fs_inodes t)) (map_of (fs_paths_by_inode t))"
      "inverse_maps (inode_key s) (map_of (fs_inodes u)) (map_of (fs_paths_by_inode u))"
    using t u by (simp_all add: inode_table_ok_def)
  from inverse_mapsE [OF inv(1) t(2)] p have "inode_key s p = inode_key s a" by auto
  with inverse_mapsD [OF inv(2) u(4) [OF p]] have ia: "map_of (fs_inodes u) (inode_key s a) = Some i" by simp
  have "i = j \<longleftrightarrow> inode_key s a = inode_key s b"
  proof
    assume "i = j"
    with inverse_mapsE [OF inv(2) ia] inverse_mapsE [OF inv(2) u(2)] show "inode_key s a = inode_key s b"
      by (metis option.inject)
  next
    assume "inode_key s a = inode_key s b"
    with ia u(2) show "i = j" by simp
  qed
  then show ?thesis using u(4) [OF p] p by (simp add: a b path_for_ino_def)
qed

theorem same_inode_iff_same_key_witness:
  "fst (ino_for_path_locked ''dcim/A'' session_example) = 3
    \<and> fst (ino_for_path_locked ''Dcim/b'' session_example) \<noteq> 3"
  using same_inode_iff_same_key [OF session_example_reachable, of "''DCIM/a''" "''dcim/A''"]
    same_inode_iff_same_key [OF session_example_reachable, of "''DCIM/a''" "''Dcim/b''"]
  by (simp add: session_example_eqs session_example_key U64_MAX_def ino_for_path_locked_def to_ascii_lowercase_def
      ascii_lower_def is_ascii_upper_def)

text \<open>
  References keep an inode alive: forgetting fewer lookups than were counted leaves its path in the table,
  and so does an open directory that lists it. Forgetting all of them, with no open directory listing it,
  removes it, and the number is not used again.
\<close>

theorem forget_balance:
  assumes "session_reachable s" "map_of (fs_lookup_counts s) ino = Some c"
  shows "path_for_ino ino (forget_inode ino n s) =
      (if n < c \<or> map_of (fs_dir_entry_refs s) ino \<noteq> None then path_for_ino ino s else None)
    \<and> ino < fs_next_ino (forget_inode ino n s)"
proof -
  have ok: "inode_table_ok s" using reachable_ok [OF assms(1)] by (simp add: session_ok_def)
  with assms(2) have "ino \<noteq> ROOT_INO" "ino < fs_next_ino s"
    by (auto simp: inode_table_ok_def)
  with assms(2) show ?thesis
    by (auto simp: forget_inode_def remove_lookup_locked_def remove_unreferenced_inode_def path_for_ino_def
        map_of_drop_count delete_conv' split: option.split)
qed

theorem forget_balance_witness:
  "path_for_ino 3 (forget_inode 3 0 session_example) = Some ''DCIM/a''
    \<and> path_for_ino 3 (forget_inode 3 1 session_example) = None"
  using forget_balance [OF session_example_reachable, of 3 1 0] forget_balance [OF session_example_reachable, of 3 1 1]
  by (simp add: session_example_eqs path_for_ino_def)

section \<open>Where the table can go wrong\<close>

text \<open>
  The condition of the step \<open>renamed\<close> is needed. One session serves several applications whose back ends
  differ, so a directory that is empty for one of them can have entries in the shared table that another
  one looked up. When the first application renames a directory over it, the code removes the inode of
  the target only: afterwards two numbers have the same path, and forgetting the stale one removes the
  live one from the map, so that the next lookup of the same file gets a third number.
\<close>

definition stale_target :: fuse_state where
  "stale_target = snd (enter_inode ''A/x'' 10124 (snd (enter_inode ''A'' 10124
     (snd (enter_inode ''B/x'' 10123 (snd (enter_inode ''B'' 10123 (fuse_state_new False None))))))))"

theorem rename_over_stale_entries:
  "let s = remap_inode_path ''A'' ''B'' stale_target
   in path_for_ino 3 s = Some ''B/x'' \<and> path_for_ino 5 s = Some ''B/x''
    \<and> fst (ino_for_path_locked ''B/x'' (forget_inode 3 1 s)) = 6
    \<and> path_for_ino 5 (forget_inode 3 1 s) = Some ''B/x''"
  by (simp add: table_eval stale_target_def)

text \<open>Entering the root empties the cache of resolved back ends, whatever its size.\<close>

theorem root_lookup_clears_backends:
  "fs_inode_backends (remember_backend_for_inode_locked ROOT_INO uid backend s)
    = [(ROOT_INO, \<lparr>ib_owner_uid = uid, ib_backend = backend\<rparr>)]"
  by (simp add: remember_backend_for_inode_locked_def)

end
