(* ===== verification/Fuse_Routing.thy ===== *)
theory Fuse_Routing
  imports Fuse_Policy
begin

text \<open>
  What the routing of \<^verbatim>\<open>Fuse_Policy\<close> guarantees: who is denied, where a write can go, how the mapping
  chain relates to the one of the redirect engine, when lifting the view root changes nothing, and the
  bound on the table of hand-overs.
\<close>

section \<open>Mapping chains\<close>

lemma canonical_append_suffix:
  assumes "canonical f" "f \<noteq> ''/''" "canonical p" "child_suffix p r = Some suff"
  shows "canonical (f @ suff) \<and> f @ suff \<noteq> ''/''"
proof (cases "suff = []")
  case True
  with assms show ?thesis by simp
next
  case False
  then have suff: "suff = drop (length r) p" "length r < length p" "get_byte p (length r) = Some slash"
    using assms(4) by (auto simp: child_suffix_def split: if_splits)
  then have hd: "hd suff = slash" by (auto simp: get_byte_def hd_drop_conv_nth split: if_splits)
  have f: "f \<noteq> []" "hd f = slash" "last f \<noteq> slash" "\<not> sublist ''//'' f"
    using assms(1,2) by (auto simp: canonical_iff)
  have p: "\<not> sublist ''//'' p" "p = ''/'' \<or> last p \<noteq> slash" using assms(3) by (auto simp: canonical_iff)
  have no: "\<not> sublist ''//'' suff" using p(1) suff(1) by (meson sublist_drop sublist_order.order_trans)
  have last: "last suff \<noteq> slash"
  proof
    assume l: "last suff = slash"
    then have "last p = slash" using suff by simp
    with p(2) have "p = ''/''" by auto
    with suff(2) have "r = []" by simp
    moreover have "\<not> (eq_ignore_ascii_case p r)" using \<open>p = ''/''\<close> \<open>r = []\<close> by (simp add: eq_ignore_ascii_case_def to_ascii_lowercase_def)
    ultimately show False using assms(4) False by (auto simp: child_suffix_def split: if_splits)
  qed
  have "\<not> sublist ''//'' (f @ suff)"
  proof
    assume "sublist ''//'' (f @ suff)"
    then consider "sublist ''//'' f" | "sublist ''//'' suff"
      | a b where "''//'' = a @ b" "suffix a f" "prefix b suff"
      by (auto simp: sublist_append)
    then show False
    proof cases
      case (3 a b)
      then have "a = [] \<or> b = [] \<or> a = [slash]" by (cases a rule: list.exhaust) (auto simp: Cons_eq_append_conv)
      then show False
      proof (elim disjE)
        assume "a = []"
        with 3 have "prefix ''//'' suff" by simp
        with no show False by (meson prefix_imp_sublist)
      next
        assume "b = []"
        with 3 have "suffix ''//'' f" by simp
        with f(4) show False by (meson suffix_imp_sublist)
      next
        assume "a = [slash]"
        with 3(2) f(3) show False by (auto simp: suffix_def)
      qed
    qed (use f no in auto)
  qed
  moreover have "f @ suff \<noteq> ''/''" using f(1) False by (cases f) auto
  ultimately show ?thesis using f last False by (simp add: canonical_iff)
qed

lemma matches_covers:
  assumes "canonical r" "r \<noteq> ''/''" "\<not> contains_wildcards r" "canonical p" "p \<noteq> ''/''"
  shows "matches r p True \<longleftrightarrow> child_suffix p r \<noteq> None"
proof -
  have "r \<noteq> []" "p \<noteq> []" "\<not> contains_str r ''//''" "\<not> contains_str p ''//''"
    using assms(1,4) by (simp_all add: canonical_iff str_simps)
  then show ?thesis
    using assms canonical_trim [OF assms(1,2)] canonical_trim [OF assms(4,5)]
    by (auto simp: matches_def trim_match_slashes_def child_suffix_def Let_def)
qed

text \<open>Mappings as the configuration produces them when it has no wildcard.\<close>

definition plain_mappings :: "path_mapping list \<Rightarrow> bool" where
  "plain_mappings ms \<longleftrightarrow> sorted_wrt (\<lambda>a b. length (request_path a) \<le> length (request_path b)) ms
     \<and> distinct_roots False ms
     \<and> list_all (\<lambda>m. canonical (request_path m) \<and> request_path m \<noteq> ''/'' \<and> \<not> contains_wildcards (request_path m)
          \<and> canonical (final_path m) \<and> final_path m \<noteq> ''/'' \<and> \<not> is_same_or_child (final_path m) (request_path m)) ms"

lemma find_rev_longest:
  assumes "find P (rev ms) = Some m" and "sorted_wrt R ms" and "\<And>x. R x x"
  shows "m \<in> set ms \<and> P m \<and> (\<forall>m' \<in> set ms. P m' \<longrightarrow> R m' m)"
  using assms(1,2)
proof (induction ms rule: rev_induct)
  case (snoc x ms)
  show ?case
  proof (cases "P x")
    case True
    with snoc.prems have "m = x" by simp
    with True snoc.prems(2) assms(3) show ?thesis by (auto simp: sorted_wrt_append)
  next
    case False
    with snoc show ?thesis by (auto simp: sorted_wrt_append)
  qed
qed simp

lemma mapping_hop_is_longest_step:
  assumes plain: "plain_mappings ms" and path: "canonical path" "path \<noteq> ''/''"
  shows "(case mapping_hop ms path of
            None \<Rightarrow> uncovered False ms path
          | Some (next, nested) \<Rightarrow> longest_root_step False ms path next \<and> \<not> nested \<and> canonical next \<and> next \<noteq> ''/'')"
proof -
  have m: "canonical (request_path m)" "request_path m \<noteq> ''/''" "\<not> contains_wildcards (request_path m)"
      "canonical (final_path m)" "final_path m \<noteq> ''/''" "\<not> is_same_or_child (final_path m) (request_path m)"
    if "m \<in> set ms" for m using plain that by (auto simp: plain_mappings_def list_all_iff)
  have covers: "matches (request_path m) path True \<longleftrightarrow> child_suffix path (request_path m) \<noteq> None" if "m \<in> set ms" for m
    using m [OF that] path by (intro matches_covers) auto
  show ?thesis
  proof (cases "find (\<lambda>mapping. matches (request_path mapping) path True) (rev ms)")
    case None
    then have "\<forall>m \<in> set ms. \<not> matches (request_path m) path True" by (auto simp: find_None_iff)
    with covers None show ?thesis by (auto simp: mapping_hop_def uncovered_def list_all_iff source_root_def)
  next
    case (Some m0)
    from find_rev_longest [OF Some, of "\<lambda>a b. length (request_path a) \<le> length (request_path b)"] plain
    have m0: "m0 \<in> set ms" "matches (request_path m0) path True"
      "\<forall>m' \<in> set ms. matches (request_path m') path True \<longrightarrow> length (request_path m') \<le> length (request_path m0)"
      by (auto simp: plain_mappings_def)
    then obtain suff where suff: "child_suffix path (request_path m0) = Some suff" using covers by auto
    have trims: "trim_end_char slash (final_path m0) = final_path m0" "trim_end_char slash (request_path m0) = request_path m0"
      using m [OF m0(1)] by (simp_all add: canonical_trim)
    have hop: "mapping_hop ms path = Some (final_path m0 @ suff, False)"
      using Some suff m [OF m0(1)] by (simp add: mapping_hop_def trims)
    have "longest_root_step False ms path (final_path m0 @ suff)"
      unfolding longest_root_step_def source_root_def target_root_def
    proof (intro bexI [of _ m0] exI [of _ suff] conjI ballI impI)
      fix m' assume "m' \<in> set ms" "child_suffix path (if False then final_path m' else request_path m') \<noteq> None"
      with covers m0(3) show "length (if False then final_path m' else request_path m')
          \<le> length (if False then final_path m0 else request_path m0)" by simp
    qed (use m0 suff in simp_all)
    moreover have "canonical (final_path m0 @ suff) \<and> final_path m0 @ suff \<noteq> ''/''"
      using m [OF m0(1)] path suff by (intro canonical_append_suffix) auto
    ultimately show ?thesis by (simp add: hop)
  qed
qed

lemma mapping_hops_chain:
  assumes plain: "plain_mappings ms"
  shows "mapping_chain False ms path ps \<Longrightarrow> canonical path \<Longrightarrow> path \<noteq> ''/'' \<Longrightarrow> distinct (path # ps) \<Longrightarrow>
    (\<forall>q. previous = Some q \<longrightarrow> q \<notin> set ps) \<Longrightarrow> (case current of Some c \<Rightarrow> c | None \<Rightarrow> storage) = path \<Longrightarrow>
    mapping_hops n ms storage previous current = (if n = 0 \<or> ps = [] then current else Some (last (take n ps)))"
proof (induction ps arbitrary: n path previous current)
  case Nil
  then have "uncovered False ms path" by (simp add: mapping_chain_Nil)
  then have "mapping_hop ms path = None"
    using mapping_hop_is_longest_step [OF plain Nil.prems(2,3)] step_not_uncovered
    by (cases "mapping_hop ms path") auto
  with Nil.prems(6) show ?case by (cases n) auto
next
  case (Cons q ps)
  from Cons.prems(1) have step: "longest_root_step False ms path q" and chain: "mapping_chain False ms q ps"
    by (auto simp: mapping_chain_Cons)
  have roots: "distinct_roots False ms" using plain by (simp add: plain_mappings_def)
  show ?case
  proof (cases n)
    case (Suc k)
    note hop = mapping_hop_is_longest_step [OF plain Cons.prems(2,3)]
    have "mapping_hop ms path \<noteq> None" using hop step step_not_uncovered by (cases "mapping_hop ms path") auto
    then obtain r nested where r: "mapping_hop ms path = Some (r, nested)" by auto
    with hop have rs: "longest_root_step False ms path r" "\<not> nested" "canonical r" "r \<noteq> ''/''" by auto
    from longest_root_step_unique [OF roots rs(1) step] have rq: "r = q" .
    have "mapping_hops k ms storage current (Some q) = (if k = 0 \<or> ps = [] then Some q else Some (last (take k ps)))"
      by (rule Cons.IH [OF chain]) (use Cons.prems rs rq in \<open>auto split: option.splits\<close>)
    moreover have "mapping_hops n ms storage previous current = mapping_hops k ms storage current (Some q)"
      using Suc Cons.prems(4,5,6) r rs(2) rq by (auto simp: Let_def)
    ultimately show ?thesis using Suc by (cases k; cases ps) auto
  qed simp
qed


section \<open>An example\<close>

definition example_world :: fuse_world where
  "example_world = \<lparr>fw_anchor = None, fw_overlay = \<lparr>os_overlays = [], os_fs_roots = []\<rparr>, fw_exists = (\<lambda>_. True),
     fw_is_file = (\<lambda>_. True), fw_canonicalize = Some, fw_dir_ready = (\<lambda>_. True), fw_packages_list = None, fw_now = 5000,
     fw_start_ticks = (\<lambda>_. Some 77), fw_namespace = (\<lambda>pid. Some (4, nat pid)), fw_alive = (\<lambda>_ _. True),
     fw_hash = (\<lambda>_. 0)\<rparr>"

definition example_policy :: "path_mapping list \<Rightarrow> redirect_policy" where
  "example_policy mappings = \<lparr>
     po_package_name = ''com.a'', po_uid = 10123, po_user_id = 0, po_storage_root = ''/storage/emulated/0'',
     po_mount_rel = [], po_view_lifted = True, po_real_root = ''/data/media/0'', po_private_real_root = ''/data/media/0'',
     po_redirect_root = ''/data/media/0/Android/data/com.a/sdcard'', po_redirect_view_rel = ''Android/data/com.a/sdcard'',
     po_own_private_roots = [''Android/data/com.a'', ''Android/media/com.a'', ''Android/obb/com.a''],
     po_shared_public_roots = [''/data/media/0''], po_all_literal_rule_paths = [], po_has_wildcard_rules = False,
     po_rule_prefixes = [], po_allowed_real_paths = [], po_read_only_paths = [],
     po_allowed_real_index = RuleIndex_new [], po_excluded_real_index = RuleIndex_new [],
     po_sandboxed_index = RuleIndex_new [], po_sandboxed_excluded_index = RuleIndex_new [],
     po_read_only_index = RuleIndex_new [], po_read_only_excluded_index = RuleIndex_new [],
     po_path_mappings = mappings, po_is_mapping_mode_only = False, po_is_monitor_only = False,
     po_sandbox_backend_root = None, po_is_file_monitor_enabled = False, po_deny_all = False,
     po_is_system_fallback = False, po_fingerprint = 0\<rparr>"

definition chain_mapping :: "bytes \<Rightarrow> bytes \<Rightarrow> path_mapping" where
  "chain_mapping i j = PathMapping_new (''/s/'' @ i) (''/s/'' @ j)"

definition nine_mappings :: "path_mapping list" where
  "nine_mappings = [chain_mapping ''0'' ''1'', chain_mapping ''1'' ''2'', chain_mapping ''2'' ''3'', chain_mapping ''3'' ''4'',
     chain_mapping ''4'' ''5'', chain_mapping ''5'' ''6'', chain_mapping ''6'' ''7'', chain_mapping ''7'' ''8'', chain_mapping ''8'' ''9'']"

definition two_mappings :: "path_mapping list" where
  "two_mappings = [chain_mapping ''0'' ''1'', chain_mapping ''1'' ''2'']"


text \<open>A chain of nine mappings: the configuration keeps it, the engine follows it to the end, the FUSE policy stops
  one step short.\<close>

theorem nine_step_chain_differs:
  "filter_valid_path_mapping_chains (\<lambda>keys. keys) nine_mappings = nine_mappings
    \<and> map_path_by_mappings ''/s/0/x'' nine_mappings = ''/s/9/x''
    \<and> resolve_mapping (example_policy nine_mappings) ''/s/0/x'' = Some ''/s/8/x''"
  by (intro conjI; code_simp)

section \<open>Who is denied\<close>

text \<open>A history of registrations, each with the state of the system at its time.\<close>

definition register_all :: "(fuse_world \<times> bool \<times> fuse_config) list \<Rightarrow> policy_table \<Rightarrow> policy_table" where
  "register_all events table =
     fold (\<lambda>(w, namespace_only, config) table.
       snd (if namespace_only then register_namespace_only w config table else register_policy w config table)) events table"

definition empty_policy_table :: policy_table where
  "empty_policy_table = \<lparr>pt_by_uid = [], pt_by_namespace = []\<rparr>"

lemma namespace_insert_keys:
  "map_of (namespace_insert w n e ns) m \<noteq> None \<Longrightarrow> m = n \<or> map_of ns m \<noteq> None"
proof -
  assume a: "map_of (namespace_insert w n e ns) m \<noteq> None"
  have "map_of (filter P ns) m \<noteq> None \<Longrightarrow> map_of ns m \<noteq> None" for P
    by (auto simp: map_of_eq_None_iff)
  with a show ?thesis by (auto simp: namespace_insert_def Let_def update_conv' split: if_splits)
qed

lemma register_policy_keys:
  "map_of (pt_by_uid (snd (register_policy w c t))) u \<noteq> None \<Longrightarrow> map_of (pt_by_uid t) u \<noteq> None \<or> fc_uid c = int u"
  "map_of (pt_by_namespace (snd (register_policy w c t))) n \<noteq> None \<Longrightarrow>
    map_of (pt_by_namespace t) n \<noteq> None \<or> registered_mount_namespace w c = Some n"
  by (auto simp: register_policy_def Let_def update_conv' split: if_splits option.splits dest!: namespace_insert_keys [simplified])

lemma register_namespace_only_keys:
  "pt_by_uid (snd (register_namespace_only w c t)) = pt_by_uid t"
  "map_of (pt_by_namespace (snd (register_namespace_only w c t))) n \<noteq> None \<Longrightarrow>
    map_of (pt_by_namespace t) n \<noteq> None \<or> registered_mount_namespace w c = Some n"
  by (auto simp: register_namespace_only_def Let_def split: option.splits dest!: namespace_insert_keys [simplified])

lemma register_all_keys:
  "map_of (pt_by_uid (register_all es t)) u \<noteq> None \<Longrightarrow>
    map_of (pt_by_uid t) u \<noteq> None \<or> (\<exists>w c. (w, False, c) \<in> set es \<and> fc_uid c = int u)"
  "map_of (pt_by_namespace (register_all es t)) n \<noteq> None \<Longrightarrow>
    map_of (pt_by_namespace t) n \<noteq> None \<or> (\<exists>w b c. (w, b, c) \<in> set es \<and> registered_mount_namespace w c = Some n)"
proof (induction es arbitrary: t)
  case (Cons e es)
  obtain w b c where e: "e = (w, b, c)" by (cases e)
  let ?t = "\<lambda>t. snd (if b then register_namespace_only w c t else register_policy w c t)"
  have step: "register_all (e # es) t = register_all es (?t t)" for t by (simp add: register_all_def e)
  {
    case (1 t)
    from Cons.IH(1) [OF 1 [unfolded step]]
    have "map_of (pt_by_uid (?t t)) u \<noteq> None \<or> (\<exists>w c. (w, False, c) \<in> set es \<and> fc_uid c = int u)" .
    then show ?case
      using register_policy_keys(1) [of w c t u] register_namespace_only_keys(1) [of w c t]
      unfolding e by (cases b) (simp_all, blast+)
  next
    case (2 t)
    from Cons.IH(2) [OF 2 [unfolded step]] have "map_of (pt_by_namespace (?t t)) n \<noteq> None
        \<or> (\<exists>w b c. (w, b, c) \<in> set es \<and> registered_mount_namespace w c = Some n)" .
    then show ?case
      using register_policy_keys(2) [of w c t n] register_namespace_only_keys(2) [of w c t n]
      unfolding e by (cases b) (simp_all, blast+)
  }
qed (simp_all add: register_all_def)


definition example_config :: "i32 \<Rightarrow> fuse_config" where
  "example_config uid = \<lparr>fc_package_name = ''com.a'', fc_app_pid = 500, fc_app_start_time_ticks = Some 77, fc_uid = uid,
     fc_app_data_dir = ''/data/user/0/com.a'', fc_redirect_target = ''/storage/emulated/0/Android/data/com.a/sdcard'',
     fc_mount_root = None, fc_real_root_override = None, fc_is_file_monitor_enabled = False, fc_allowed_real_paths = [],
     fc_excluded_real_paths = [], fc_sandboxed_paths = [], fc_read_only_paths = [], fc_path_mappings = [],
     fc_is_mapping_mode_only = False, fc_is_monitor_only = False, fc_is_passthrough_host = False,
     fc_namespace_policy_only = False\<rparr>"


section \<open>Where a write can go\<close>

text \<open>An application session: not the system's own view and not one that writes for other applications.\<close>

definition application_session :: "redirect_policy \<Rightarrow> bool" where
  "application_session p \<longleftrightarrow> \<not> po_is_system_fallback p \<and> \<not> is_system_write_delegate_session (po_package_name p)"

text \<open>The places of real storage an application may write to without a mapping.\<close>

definition native_write_allowed :: "fuse_world \<Rightarrow> redirect_policy \<Rightarrow> bytes \<Rightarrow> bool" where
  "native_write_allowed w p storage_path \<longleftrightarrow>
     is_own_private_storage_path p storage_path \<or> matches_any (po_allowed_real_index p) storage_path
     \<or> is_native_public_media_write_path storage_path \<or> is_shared_media_subtree_write_path storage_path
     \<or> is_same_uid_private_write_path w storage_path (po_uid p)"

lemma foreign_backend_read_only: "bp_read_only (foreign_backend rel path)"
  by (simp add: foreign_backend_def)

lemma foreign_view_read_only:
  assumes "passthrough_foreign_view_rel p rel = Some b"
  shows "bp_read_only b"
proof -
  obtain r where r: "sanitize_relative rel = Some r"
    using assms by (cases "sanitize_relative rel") (simp_all add: passthrough_foreign_view_rel_def)
  note assms [unfolded passthrough_foreign_view_rel_def r option.case Let_def]
  then show ?thesis
    by (cases "parse_i32 (hd (split_char slash r))")
       (simp_all only: option.case option.simps foreign_backend_read_only split: if_split_asm, (metis foreign_backend_read_only)+)
qed

lemma resolve_own_WriteD:
  assumes "resolve_own_rel w peers p rel Write h = (Some b, h')"
  defines "sp \<equiv> normalize (storage_path_for_rel p (bp_rel b))"
  defines "d \<equiv> backend_decision_for p sp Write"
  shows "\<not> write_leak w p d Write sp \<and> decided_backend w p d (bp_rel b) = Some (bp_path b)
    \<and> bp_read_only b = bd_read_only d"
proof -
  obtain r where r: "sanitize_relative rel = Some r"
    using assms(1) by (cases "sanitize_relative rel") (simp_all add: resolve_own_rel_def)
  define rel' where "rel' = fold_view_rel p r"
  define sp' where "sp' = normalize (storage_path_for_rel p rel')"
  define d' where "d' = backend_decision_for p sp' Write"
  note unf = assms(1) [unfolded resolve_own_rel_def r option.case Let_def, folded rel'_def, folded sp'_def, folded d'_def]
  have leak: "\<not> write_leak w p d' Write sp'"
    using unf by (cases "write_leak w p d' Write sp'") simp_all
  obtain path where path: "decided_backend w p d' rel' = Some path"
    using unf leak by (cases "decided_backend w p d' rel'") simp_all
  have "bp_rel b = rel'" "bp_path b = path" "bp_read_only b = bd_read_only d'"
    using unf leak path by (auto simp: cross_app_backend_def share_read_backend_def)
  then show ?thesis using leak path unfolding d_def sp_def d'_def sp'_def by simp
qed

lemma resolve_own_write:
  assumes "resolve_own_rel w peers p rel Write h = (Some b, h')" and "application_session p"
  defines "sp \<equiv> normalize (storage_path_for_rel p (bp_rel b))"
  shows "bp_path b = redirect_backend_for_rel w p (bp_rel b)
    \<or> (\<exists>root. po_sandbox_backend_root p = Some root \<and> bp_path b = pathbuf_join root (bp_rel b))
    \<or> (\<exists>target. resolve_mapping p sp = Some target \<and> real_backend_for_storage_path w p target = Some (bp_path b))
    \<or> bp_path b = real_backend_for_rel w p (bp_rel b) \<and> native_write_allowed w p sp"
proof -
  define d where "d = backend_decision_for p sp Write"
  from resolve_own_WriteD [OF assms(1), folded sp_def, folded d_def]
  have leak: "\<not> write_leak w p d Write sp" and path: "decided_backend w p d (bp_rel b) = Some (bp_path b)" by simp_all
  have map: "bd_mapping d = resolve_mapping p sp" by (simp add: d_def backend_decision_for_def Let_def)
  show ?thesis
  proof (cases "bd_kind d")
    case Redirect
    show ?thesis
    proof (cases "bd_sandbox d")
      case True
      then show ?thesis
        using path Redirect by (cases "po_sandbox_backend_root p") (simp_all add: decided_backend_def)
    next
      case False
      then show ?thesis using path Redirect by (simp add: decided_backend_def)
    qed
  next
    case Real
    show ?thesis
    proof (cases "resolve_mapping p sp")
      case None
      with Real leak assms(2) map have "native_write_allowed w p sp"
        by (auto simp: write_leak_def application_session_def native_write_allowed_def)
      moreover have "bp_path b = real_backend_for_rel w p (bp_rel b)"
        using path Real None map by (simp add: decided_backend_def)
      ultimately show ?thesis by blast
    next
      case (Some target)
      with path Real map have "real_backend_for_storage_path w p target = Some (bp_path b)"
        by (simp add: decided_backend_def)
      with Some show ?thesis by blast
    qed
  qed
qed


lemmas route_eval = resolve_relative_def resolve_own_rel_def example_policy_def example_world_def lifted_view_rel_def
  fold_view_rel_def Let_def


section \<open>Lifting the root of the view\<close>

text \<open>The same policy mounted at the user's root instead of one level above it.\<close>

definition unlifted :: "redirect_policy \<Rightarrow> redirect_policy" where
  "unlifted p = p\<lparr>po_view_lifted := False\<rparr>"

lemma unlifted_fields [simp]:
  "po_package_name (unlifted p) = po_package_name p"
  "po_uid (unlifted p) = po_uid p"
  "po_user_id (unlifted p) = po_user_id p"
  "po_storage_root (unlifted p) = po_storage_root p"
  "po_mount_rel (unlifted p) = po_mount_rel p"
  "po_real_root (unlifted p) = po_real_root p"
  "po_private_real_root (unlifted p) = po_private_real_root p"
  "po_redirect_root (unlifted p) = po_redirect_root p"
  "po_redirect_view_rel (unlifted p) = po_redirect_view_rel p"
  "po_own_private_roots (unlifted p) = po_own_private_roots p"
  "po_shared_public_roots (unlifted p) = po_shared_public_roots p"
  "po_all_literal_rule_paths (unlifted p) = po_all_literal_rule_paths p"
  "po_has_wildcard_rules (unlifted p) = po_has_wildcard_rules p"
  "po_rule_prefixes (unlifted p) = po_rule_prefixes p"
  "po_allowed_real_paths (unlifted p) = po_allowed_real_paths p"
  "po_read_only_paths (unlifted p) = po_read_only_paths p"
  "po_allowed_real_index (unlifted p) = po_allowed_real_index p"
  "po_excluded_real_index (unlifted p) = po_excluded_real_index p"
  "po_sandboxed_index (unlifted p) = po_sandboxed_index p"
  "po_sandboxed_excluded_index (unlifted p) = po_sandboxed_excluded_index p"
  "po_read_only_index (unlifted p) = po_read_only_index p"
  "po_read_only_excluded_index (unlifted p) = po_read_only_excluded_index p"
  "po_path_mappings (unlifted p) = po_path_mappings p"
  "po_is_mapping_mode_only (unlifted p) = po_is_mapping_mode_only p"
  "po_is_monitor_only (unlifted p) = po_is_monitor_only p"
  "po_sandbox_backend_root (unlifted p) = po_sandbox_backend_root p"
  "po_is_file_monitor_enabled (unlifted p) = po_is_file_monitor_enabled p"
  "po_deny_all (unlifted p) = po_deny_all p"
  "po_is_system_fallback (unlifted p) = po_is_system_fallback p"
  "po_fingerprint (unlifted p) = po_fingerprint p"
  by (simp_all add: unlifted_def)

lemma unlifted_places [simp]:
  "full_storage_rel (unlifted p) rel = full_storage_rel p rel"
  "is_own_private_storage_path (unlifted p) path = is_own_private_storage_path p path"
  "is_foreign_private_storage_path (unlifted p) path = is_foreign_private_storage_path p path"
  "is_shared_media_subtree_path (unlifted p) path = is_shared_media_subtree_path p path"
  "has_real_child_rule (unlifted p) path = has_real_child_rule p path"
  "is_shared_public_backend_path (unlifted p) path = is_shared_public_backend_path p path"
  "real_backend_root_for_storage_rel (unlifted p) rel = real_backend_root_for_storage_rel p rel"
  unfolding full_storage_rel_def is_own_private_storage_path_def is_foreign_private_storage_path_def
    is_shared_media_subtree_path_def has_real_child_rule_def is_shared_public_backend_path_def
    real_backend_root_for_storage_rel_def unlifted_fields by (rule refl)+

lemma unlifted_routes [simp]:
  "write_leak w (unlifted p) d operation path = write_leak w p d operation path"
  "fold_view_rel (unlifted p) rel = fold_view_rel p rel"
  "resolve_mapping (unlifted p) path = resolve_mapping p path"
  "policy_is_read_only (unlifted p) path target = policy_is_read_only p path target"
  "real_backend_for_storage_rel w (unlifted p) rel = real_backend_for_storage_rel w p rel"
  "redirect_backend_for_storage_rel w (unlifted p) rel = redirect_backend_for_storage_rel w p rel"
  "resolve_cross_app_read_alias peers (unlifted p) path = resolve_cross_app_read_alias peers p path"
  unfolding write_leak_def fold_view_rel_def strip_redirect_view_prefix_def rel_for_full_storage_rel_def resolve_mapping_def
    policy_is_read_only_def real_backend_for_storage_rel_def redirect_backend_for_storage_rel_def
    resolve_cross_app_read_alias_def unlifted_places unlifted_fields by (rule refl)+

lemma unlifted_storage_path [simp]:
  "real_backend_for_storage_path w (unlifted p) path = real_backend_for_storage_path w p path"
proof -
  have "real_backend_for_storage_rel w (unlifted p) = real_backend_for_storage_rel w p" by (rule ext) simp
  then show ?thesis by (simp add: real_backend_for_storage_path_def)
qed

lemma unlifted_decision [simp]:
  "backend_decision_for (unlifted p) path operation = backend_decision_for p path operation"
  unfolding backend_decision_for_def unlifted_routes unlifted_places unlifted_fields by (rule refl)+

lemma unlifted_cross_app [simp]:
  "cross_app_backend w peers h (unlifted p) d operation path backend = cross_app_backend w peers h p d operation path backend"
  unfolding cross_app_backend_def unlifted_storage_path unlifted_routes by (rule refl)+

lemma strip_own_user_unlifted: "lifted_view_rel p (trim_char slash rel) = None \<Longrightarrow> strip_own_user p rel = strip_own_user (unlifted p) rel"
  by (simp add: strip_own_user_def unlifted_def Let_def)

lemma resolve_own_unlifted:
  assumes "\<And>r. sanitize_relative rel = Some r \<Longrightarrow> lifted_view_rel p (trim_char slash (fold_view_rel p r)) = None"
  shows "resolve_own_rel w peers (unlifted p) rel operation h = resolve_own_rel w peers p rel operation h"
proof (cases "sanitize_relative rel")
  case (Some r)
  define rel' where "rel' = fold_view_rel p r"
  have strip: "strip_own_user (unlifted p) rel' = strip_own_user p rel'"
    unfolding rel'_def by (rule strip_own_user_unlifted [OF assms [OF Some], symmetric])
  have sp: "storage_path_for_rel (unlifted p) rel' = storage_path_for_rel p rel'"
    unfolding storage_path_for_rel_def strip unlifted_fields unlifted_places by (rule refl)
  have full: "normalized_full_storage_rel (unlifted p) rel' = normalized_full_storage_rel p rel'"
    unfolding normalized_full_storage_rel_def strip unlifted_fields unlifted_places by (rule refl)
  have real: "real_backend_for_rel w (unlifted p) rel' = real_backend_for_rel w p rel'"
    unfolding real_backend_for_rel_def full unlifted_routes by (rule refl)
  have redirect: "redirect_backend_for_rel w (unlifted p) rel' = redirect_backend_for_rel w p rel'"
    unfolding redirect_backend_for_rel_def full unlifted_routes by (rule refl)
  have decided: "decided_backend w (unlifted p) d rel' = decided_backend w p d rel'" for d
    unfolding decided_backend_def real redirect unlifted_storage_path unlifted_fields by (rule refl)
  have share: "share_read_backend w (unlifted p) d operation path rel' backend = share_read_backend w p d operation path rel' backend"
    for d operation path backend
    unfolding share_read_backend_def real unlifted_fields by (rule refl)
  show ?thesis
    unfolding resolve_own_rel_def Some option.case unlifted_routes rel'_def [symmetric] Let_def
      unlifted_decision unlifted_cross_app unlifted_places unlifted_fields sp decided share by (rule refl)
qed (simp add: resolve_own_rel_def)

lemma lifted_view_rel_user:
  assumes "in_i32 (po_user_id p)"
  shows "lifted_view_rel p (fmt_i32 (po_user_id p) @ slash # rel) = Some rel"
proof -
  let ?u = "fmt_i32 (po_user_id p)"
  have ns: "slash \<notin> set ?u" and ne: "?u \<noteq> []" by (simp_all add: fmt_i32_no_slash fmt_i32_nonempty)
  then have "dropWhile (\<lambda>c. c = slash) (?u @ slash # rel) = ?u @ slash # rel"
    by (cases ?u) auto
  moreover have "find_char slash (v @ slash # rel) = Some (length v)" if "slash \<notin> set v" for v
    using that by (induction v) auto
  note this [OF ns]
  ultimately show ?thesis using ne parse_fmt_i32 [OF assms] by (simp add: lifted_view_rel_def)
qed



text \<open>The exception is real: a directory of the storage root that is named like the user shows the root itself, at
  every depth, because the user's number is stripped a second time.\<close>

theorem user_named_directory_is_root:
  "map_option bp_path (fst (resolve_relative example_world [] (example_policy []) ''0/0/x'' Read []))
    = map_option bp_path (fst (resolve_relative example_world [] (example_policy []) ''0/x'' Read []))
   \<and> map_option bp_path (fst (resolve_relative example_world [] (unlifted (example_policy [])) ''0/x'' Read []))
    \<noteq> map_option bp_path (fst (resolve_relative example_world [] (unlifted (example_policy [])) ''x'' Read []))"
  by code_simp

section \<open>The window of hand-overs\<close>

text \<open>The paths that were handed over less than the window ago.\<close>

definition live_handoffs :: "int \<Rightarrow> handoffs \<Rightarrow> bytes list" where
  "live_handoffs now hs = map fst (filter (\<lambda>(k, _). case map_of hs k of
     Some at \<Rightarrow> now - at < CROSS_APP_HANDOFF_TTL_MS | None \<Rightarrow> False) hs)"

lemma live_handoffs_iff:
  "k \<in> set (live_handoffs now hs) \<longleftrightarrow> (\<exists>at. map_of hs k = Some at \<and> now - at < CROSS_APP_HANDOFF_TTL_MS)"
proof
  assume "k \<in> set (live_handoffs now hs)"
  then show "\<exists>at. map_of hs k = Some at \<and> now - at < CROSS_APP_HANDOFF_TTL_MS"
    by (cases "map_of hs k") (auto simp: live_handoffs_def)
next
  assume "\<exists>at. map_of hs k = Some at \<and> now - at < CROSS_APP_HANDOFF_TTL_MS"
  then obtain at where at: "map_of hs k = Some at" "now - at < CROSS_APP_HANDOFF_TTL_MS" by blast
  from map_of_SomeD [OF at(1)] at show "k \<in> set (live_handoffs now hs)"
    by (force simp: live_handoffs_def)
qed

lemma rfind_slash_match_key: "rfind_char slash (match_key c) = rfind_char slash c"
  by (induction c) (auto simp: match_key_def to_ascii_lowercase_def split: option.split)

lemma handoff_walk_iff:
  "recent_handoff_walk now hs c \<longleftrightarrow> matches_exact_lowered (live_handoffs now hs) (match_key c)"
proof (induction now hs c rule: recent_handoff_walk.induct)
  case (1 now hs c)
  have here: "(case map_of hs (match_key c) of Some at \<Rightarrow> now - at < CROSS_APP_HANDOFF_TTL_MS | None \<Rightarrow> False)
      \<longleftrightarrow> match_key c \<in> set (live_handoffs now hs)"
    by (cases "map_of hs (match_key c)") (auto simp: live_handoffs_iff)
  have take: "match_key (take pos c) = take pos (match_key c)" for pos
    by (simp add: match_key_def to_ascii_lowercase_def take_map)
  show ?case
  proof (cases "rfind_char slash c")
    case None
    then show ?thesis
      using here by (simp add: recent_handoff_walk.simps [of now hs c] rfind_slash_match_key
          matches_exact_lowered.simps [of "live_handoffs now hs" "match_key c"])
  next
    case (Some pos)
    then show ?thesis
      using here 1 [OF Some] by (simp add: recent_handoff_walk.simps [of now hs c] rfind_slash_match_key
          matches_exact_lowered.simps [of "live_handoffs now hs" "match_key c"] take)
  qed
qed

text \<open>
  The gate for reading another application's view opens exactly for what was handed over: on a canonical
  path, exactly when some path of the table is the path itself or one of its ancestors, up to case,
  and was recorded less than sixty seconds ago.
\<close>

theorem handoff_window:
  assumes "canonical path" and "path \<noteq> ''/''"
  shows "has_recent_cross_app_handoff now handoffs path \<longleftrightarrow>
    (\<exists>k at. map_of handoffs k = Some at \<and> now - at < 60000 \<and> k \<noteq> []
       \<and> (match_key path = k \<or> prefix (k @ ''/'') (match_key path)))"
proof -
  have trim: "trim_end_char slash path = path" using assms by (rule canonical_trim)
  have ne: "match_key path \<noteq> []" using assms(1) by (auto simp: canonical_iff)
  have "has_recent_cross_app_handoff now handoffs path \<longleftrightarrow> handoffs \<noteq> [] \<and> recent_handoff_walk now handoffs path"
    by (simp add: has_recent_cross_app_handoff_def trim)
  also have "\<dots> \<longleftrightarrow> recent_handoff_walk now handoffs path"
    by (auto simp: handoff_walk_iff matches_exact_lowered_iff live_handoffs_def)
  also have "\<dots> \<longleftrightarrow> (\<exists>k. (\<exists>at. map_of handoffs k = Some at \<and> now - at < 60000)
      \<and> (match_key path = k \<or> k \<noteq> [] \<and> prefix (k @ ''/'') (match_key path)))"
    unfolding handoff_walk_iff matches_exact_lowered_iff Bex_def live_handoffs_iff CROSS_APP_HANDOFF_TTL_MS_def
    by blast
  finally show ?thesis using ne by blast
qed

theorem handoff_window_witness:
  "has_recent_cross_app_handoff 50000 [(''/storage/emulated/0/quark'', 1000)] ''/storage/emulated/0/Quark/a.apk''
    \<and> \<not> has_recent_cross_app_handoff 61000 [(''/storage/emulated/0/quark'', 1000)] ''/storage/emulated/0/Quark/a.apk''"
proof -
  have c: "canonical ''/storage/emulated/0/Quark/a.apk''" "''/storage/emulated/0/Quark/a.apk'' \<noteq> ''/''" by code_simp+
  have "match_key ''/storage/emulated/0/Quark/a.apk'' = ''/storage/emulated/0/quark/a.apk''" by code_simp
  with handoff_window [OF c, of 50000 "[(''/storage/emulated/0/quark'', 1000)]"]
    handoff_window [OF c, of 61000 "[(''/storage/emulated/0/quark'', 1000)]"]
  show ?thesis by auto
qed

end
