(* ===== verification/Fuse_Handlers.thy ===== *)
theory Fuse_Handlers
  imports Fuse_File_Ops Fuse_Table Fuse_Routing
begin

text \<open>
  What the FUSE handlers do to the state of a session, request by request: every run of a handler is a
  run of steps of the inode table (\<^verbatim>\<open>Fuse_Table\<close>), a read-only back end is refused before any system call, and
  \<^verbatim>\<open>opendir\<close> ends. The last section records where the handlers do not do what their comments say.
\<close>

section \<open>Requests\<close>

datatype fuse_op =
    OpLookup nat bytes
  | OpForget nat nat
  | OpGetattr nat
  | OpReadlink nat
  | OpGetxattr nat bytes nat
  | OpSetxattr nat bytes nat
  | OpListxattr nat nat
  | OpRemovexattr nat bytes
  | OpAccess nat "32 word"
  | OpOpendir nat
  | OpReaddir nat nat
  | OpReaddirplus nat nat nat
  | OpReleasedir nat
  | OpFsyncdir nat nat
  | OpOpen nat "32 word"
  | OpRead nat nat nat
  | OpWrite nat nat nat bytes
  | OpRelease nat
  | OpFlush nat
  | OpFsync nat bool
  | OpCopyFileRange nat nat nat nat nat "32 word"
  | OpFallocate nat nat nat "32 word"
  | OpLseek nat int int
  | OpSymlink nat bytes bytes
  | OpCreate nat bytes "32 word" "32 word" "32 word"
  | OpMknod nat bytes "32 word" "32 word"
  | OpMkdir nat bytes "32 word" "32 word"
  | OpUnlink nat bytes
  | OpRmdir nat bytes
  | OpRename nat bytes nat bytes "32 word"
  | OpSetattr nat attr_change

text \<open>Everything the outside contributes to one request.\<close>

record serving =
  sv_sys :: system
  sv_later :: system
  sv_dup :: "nat \<Rightarrow> nat option"
  sv_sizes :: "nat \<times> nat"
  sv_room :: nat
  sv_answers :: "write_answer list"
  sv_content :: bytes
  sv_file_len :: "nat \<Rightarrow> errno + int"
  sv_rounds :: nat
  sv_between :: "nat \<Rightarrow> session \<Rightarrow> session"

fun perform :: "serving \<Rightarrow> request \<Rightarrow> fuse_op \<Rightarrow> session \<Rightarrow> (reply \<times> session) option" where
  "perform sv req (OpLookup ino name) s = Some (lookup (sv_sys sv) req ino name s)"
| "perform sv req (OpForget ino n) s = Some (ReplyOk, forget ino n s)"
| "perform sv req (OpGetattr ino) s = Some (getattr (sv_sys sv) req ino s)"
| "perform sv req (OpReadlink ino) s = Some (readlink (sv_sys sv) req ino s)"
| "perform sv req (OpGetxattr ino name n) s = Some (getxattr (sv_sys sv) req ino name n s)"
| "perform sv req (OpSetxattr ino name n) s = Some (setxattr (sv_sys sv) req ino name n s)"
| "perform sv req (OpListxattr ino n) s = Some (listxattr (sv_sys sv) req ino n s)"
| "perform sv req (OpRemovexattr ino name) s = Some (removexattr (sv_sys sv) req ino name s)"
| "perform sv req (OpAccess ino mask_bits) s = Some (access (sv_sys sv) req ino mask_bits s)"
| "perform sv req (OpOpendir ino) s =
     opendir (sv_rounds sv) (sv_sys sv) (fst (sv_sizes sv)) (snd (sv_sizes sv)) (sv_between sv) req ino s"
| "perform sv req (OpReaddir fh offset) s = Some (readdir (sv_room sv) fh offset s, s)"
| "perform sv req (OpReaddirplus ino fh offset) s = Some (readdirplus (sv_room sv) (sv_sys sv) req ino fh offset s)"
| "perform sv req (OpReleasedir fh) s = Some (ReplyOk, releasedir fh s)"
| "perform sv req (OpFsyncdir ino fh) s = Some (fsyncdir (sv_sys sv) req ino fh s)"
| "perform sv req (OpOpen ino flags) s = Some (open_inode (sv_sys sv) (sv_dup sv) req ino flags s)"
| "perform sv req (OpRead fh offset n) s = Some (read_handle (sv_sys sv) fh offset n s)"
| "perform sv req (OpWrite ino fh offset data) s =
     map_option (\<lambda>(r, _, s). (r, s)) (write_handle (sv_sys sv) req (sv_answers sv) (sv_content sv) ino fh offset data s)"
| "perform sv req (OpRelease fh) s = Some (ReplyOk, release fh s)"
| "perform sv req (OpFlush fh) s = Some (flush fh s, s)"
| "perform sv req (OpFsync fh datasync) s = Some (fsync (sv_sys sv) fh datasync s)"
| "perform sv req (OpCopyFileRange fh_in offset_in fh_out offset_out n flags) s =
     Some (copy_file_range (sv_sys sv) req fh_in offset_in fh_out offset_out n flags s)"
| "perform sv req (OpFallocate fh offset n mode) s = Some (fallocate (sv_sys sv) fh offset n mode s)"
| "perform sv req (OpLseek fh offset whence) s = Some (lseek (sv_file_len sv) fh offset whence s, s)"
| "perform sv req (OpSymlink ino name target) s = Some (symlink (sv_sys sv) req ino name target s)"
| "perform sv req (OpCreate ino name mode umask flags) s =
     Some (create (sv_sys sv) (sv_dup sv) req ino name mode umask flags s)"
| "perform sv req (OpMknod ino name mode umask) s = Some (mknod (sv_sys sv) req ino name mode umask s)"
| "perform sv req (OpMkdir ino name mode umask) s = Some (mkdir (sv_sys sv) (sv_later sv) req ino name mode umask s)"
| "perform sv req (OpUnlink ino name) s = Some (unlink (sv_sys sv) req ino name s)"
| "perform sv req (OpRmdir ino name) s = Some (rmdir (sv_sys sv) req ino name s)"
| "perform sv req (OpRename ino name new_ino new_name flags) s =
     Some (rename (sv_sys sv) (sv_later sv) req ino name new_ino new_name flags s)"
| "perform sv req (OpSetattr ino c) s = Some (setattr (sv_sys sv) (sv_later sv) req ino c s)"

section \<open>What leaves the tables alone\<close>

named_theorems same_fs

lemma with_fs_fs [same_fs, simp]: "se_fs (with_fs f s) = f (se_fs s)"
  by (simp add: with_fs_def)

lemma call_fs [same_fs]: "call sys c s = (r, t) \<Longrightarrow> se_fs t = se_fs s"
  by (auto simp: call_def)

lemma route_fs [same_fs]: "route sys p rel operation s = (b, t) \<Longrightarrow> se_fs t = se_fs s"
  by (auto simp: route_def split: prod.splits)

lemma reader_policy_on_miss_fs [same_fs]: "system_reader_policy_on_miss sys uid rel s = (p, t) \<Longrightarrow> se_fs t = se_fs s"
  by (auto simp: system_reader_policy_on_miss_def split: if_splits option.splits prod.splits dest: route_fs)

lemma with_system_reader_fs [same_fs]:
  "backend_for_relative_with_system_reader sys uid p rel s = (b, t) \<Longrightarrow> se_fs t = se_fs s"
  by (auto simp: backend_for_relative_with_system_reader_def split: option.splits prod.splits
      dest!: route_fs reader_policy_on_miss_fs)

lemma reader_policy_for_ino_fs [same_fs]: "reader_policy_for_ino sys req ino p s = (q, t) \<Longrightarrow> se_fs t = se_fs s"
  by (auto simp: reader_policy_for_ino_def split: option.splits prod.splits dest!: reader_policy_on_miss_fs)

lemma backend_for_ino_fs [same_fs]: "backend_for_ino sys p ino s = (b, t) \<Longrightarrow> se_fs t = se_fs s"
  by (auto simp: backend_for_ino_def split: option.splits prod.splits dest!: route_fs)

lemma apply_create_metadata_fs [same_fs]: "apply_create_metadata sys path md s = (r, t) \<Longrightarrow> se_fs t = se_fs s"
  by (auto simp: apply_create_metadata_def call_def Let_def split: if_splits sum.splits)

lemma ensure_parent_fs [same_fs]: "ensure_parent_for_backend sys p b s = (r, t) \<Longrightarrow> se_fs t = se_fs s"
  by (auto simp: ensure_parent_for_backend_def call_def Let_def split: if_splits sum.splits option.splits
      dest!: apply_create_metadata_fs)

lemma open_backend_file_fs [same_fs]: "open_backend_file sys path flags mode s = (r, t) \<Longrightarrow> se_fs t = se_fs s"
  by (auto simp: open_backend_file_def call_def split: if_splits)

lemma heal_fs [same_fs]: "heal_poisoned_sqlite_shm_backend sys u rel s = (r, t) \<Longrightarrow> se_fs t = se_fs s"
  by (auto simp: heal_poisoned_sqlite_shm_backend_def call_def Let_def split: if_splits)

lemma fix_existing_fs [same_fs, simp]: "se_fs (fix_existing_path_metadata sys path p shared s) = se_fs s"
  by (auto simp: fix_existing_path_metadata_def split: option.splits intro: apply_create_metadata_fs [OF prod.collapse [symmetric]])

lemma call_all_fs [same_fs]: "call_all sys nul cs s = (r, t) \<Longrightarrow> se_fs t = se_fs s"
  by (induction sys nul cs s rule: call_all.induct) (auto simp: call_def split: if_splits sum.splits)

lemma call_reply_fs: "call_reply ok (call sys c s) = (r, t) \<Longrightarrow> se_fs t = se_fs s"
  by (auto simp: call_reply_def call_def split: sum.splits)

lemma report_write_fs [simp]: "se_fs (report_write sys p ino s) = se_fs s"
  by (auto simp: report_write_def route_def split: option.splits prod.splits)

lemma route_new_entry_fs [same_fs]: "route_new_entry sys req ino name s = (r, t) \<Longrightarrow> se_fs t = se_fs s"
  by (auto simp: route_new_entry_def Let_def split: option.splits sum.splits prod.splits if_splits
      dest!: route_fs ensure_parent_fs)

section \<open>Handlers as steps of the table\<close>

definition runs :: "session \<Rightarrow> session \<Rightarrow> bool" where
  "runs s t \<longleftrightarrow> table_step\<^sup>*\<^sup>* (se_fs s) (se_fs t)"

definition roomy :: "session \<Rightarrow> bool" where
  "roomy s \<longleftrightarrow> fs_next_ino (se_fs s) < U64_MAX \<and> fs_next_fh (se_fs s) < U64_MAX"

lemma runs_same: "se_fs t = se_fs s \<Longrightarrow> runs s t"
  by (simp add: runs_def)

lemma runs_refl [simp]: "runs s s"
  by (simp add: runs_def)

lemma runs_step: "table_step (se_fs s) (se_fs t) \<Longrightarrow> runs s t"
  by (auto simp: runs_def)

lemma runs_trans: "runs s t \<Longrightarrow> runs t u \<Longrightarrow> runs s u"
  by (auto simp: runs_def)

lemma runs_cong: "se_fs s' = se_fs s \<Longrightarrow> se_fs t' = se_fs t \<Longrightarrow> runs s' t' \<longleftrightarrow> runs s t"
  by (simp add: runs_def)

lemma runs_failed: "runs s (with_fs (remove_lookup_locked ino 1) s)"
  by (rule runs_step) (simp add: table_step.failed del: One_nat_def)

lemma runs_cleared: "runs s (with_fs clear_dir_candidate_cache s)"
  by (rule runs_step) (simp add: table_step.cleared)

lemma clear_cache_counters [simp]:
  "fs_next_ino (clear_dir_candidate_cache t) = fs_next_ino t"
  "fs_next_fh (clear_dir_candidate_cache t) = fs_next_fh t"
  by (simp_all add: clear_dir_candidate_cache_def)

lemma enter_created_runs:
  assumes "enter_created p rel s = (ino, t)" "fs_next_ino (se_fs s) < U64_MAX"
  shows "runs s t \<and> fs_next_fh (se_fs t) = fs_next_fh (se_fs s)"
proof -
  let ?c = "clear_dir_candidate_cache (se_fs s)"
  have t: "se_fs t = snd (enter_inode rel (policy_uid p) ?c)"
    using assms(1) by (auto simp: enter_created_def Let_def split: prod.splits)
  have "table_step (se_fs s) ?c" by (rule table_step.cleared)
  moreover have "table_step ?c (se_fs t)" unfolding t by (rule table_step.created) (simp add: assms(2))
  moreover have "session_rest (se_fs t) = session_rest ?c"
    unfolding t by simp
  then have "fs_next_fh (se_fs t) = fs_next_fh (se_fs s)" by (simp add: session_rest_def)
  ultimately show ?thesis by (auto simp: runs_def)
qed

lemma reply_entry_runs:
  assumes "reply_entry_for_rel sys uid p rel s = (r, t)" "fs_next_ino (se_fs s) < U64_MAX"
  shows "runs s t"
proof (cases "backend_for_relative_with_system_reader sys uid p rel s")
  case (Pair b s1)
  note same = with_system_reader_fs [OF Pair]
  show ?thesis
  proof (cases b)
    case None
    then show ?thesis using assms(1) same by (simp add: reply_entry_for_rel_def Pair runs_same)
  next
    case (Some pb)
    obtain q backend where pb: "pb = (q, backend)" by (cases pb)
    obtain ino u where e: "enter_inode_with_backend rel (policy_uid q) backend (se_fs s1) = (ino, u)"
      by (cases "enter_inode_with_backend rel (policy_uid q) backend (se_fs s1)")
    have "table_step (se_fs s) u"
      using table_step.looked_up [of "se_fs s" rel "policy_uid q" backend] assms(2) e same by simp
    then have entered: "runs s (s1\<lparr>se_fs := u\<rparr>)" by (intro runs_step) simp
    show ?thesis
      using assms(1) entered runs_trans [OF entered runs_failed]
      by (auto simp: reply_entry_for_rel_def Pair Some pb e Let_def simp del: One_nat_def split: sum.splits)
  qed
qed

lemma open_session_file_runs:
  "open_session_file f s = (fh, t) \<Longrightarrow> fs_next_fh (se_fs s) < U64_MAX \<Longrightarrow> runs s t"
  by (auto simp: open_session_file_def runs_def split: prod.splits dest: table_step.file_opened [of _ f])

lemma set_backing_runs: "runs s (set_backing fh backing s)"
  by (cases "map_of (fs_files (se_fs s)) fh")
    (auto simp: set_backing_def runs_def intro: table_step.file_backed)

lemma register_backing_runs: "register_backing sys p rel file fh s = (b, t) \<Longrightarrow> runs s t"
  by (auto simp: register_backing_def call_def split: if_splits sum.splits intro: runs_same
      runs_trans [OF runs_same set_backing_runs])

section \<open>The handlers\<close>

named_theorems handler_runs

lemma lookup_runs [handler_runs]: "lookup sys req ino name s = (r, t) \<Longrightarrow> roomy s \<Longrightarrow> runs s t"
proof -
  have healed: "se_fs (snd (heal_poisoned_sqlite_shm_backend sys u rel s)) = se_fs s" for u rel
    by (cases "heal_poisoned_sqlite_shm_backend sys u rel s") (simp add: heal_fs)
  show "lookup sys req ino name s = (r, t) \<Longrightarrow> roomy s \<Longrightarrow> runs s t"
    using reply_entry_runs healed
    by (auto simp: lookup_def Let_def roomy_def runs_def split: option.splits sum.splits if_splits) metis+
qed

lemma forget_runs [handler_runs]: "runs s (forget ino n s)"
  by (rule runs_step) (simp add: forget_def table_step.forgotten)

lemma releasedir_runs [handler_runs]: "runs s (releasedir fh s)"
  by (rule runs_step) (simp add: releasedir_def table_step.dir_released)

lemma release_runs [handler_runs]: "runs s (release fh s)"
  by (rule runs_step) (simp add: release_def table_step.file_released)

lemma getattr_fs: "getattr sys req ino s = (r, t) \<Longrightarrow> se_fs t = se_fs s"
  by (auto simp: getattr_def Let_def split: prod.splits sum.splits dest!: backend_for_ino_fs reader_policy_for_ino_fs)

lemma readlink_fs: "readlink sys req ino s = (r, t) \<Longrightarrow> se_fs t = se_fs s"
  by (auto simp: readlink_def Let_def split: prod.splits sum.splits dest!: backend_for_ino_fs call_reply_fs)

lemma xattr_fs: "with_backend_for_xattr sys req ino name action ok s = (r, t) \<Longrightarrow> se_fs t = se_fs s"
  by (auto simp: with_backend_for_xattr_def Let_def split: prod.splits sum.splits if_splits
      dest!: backend_for_ino_fs call_reply_fs)

lemma access_fs: "access sys req ino m s = (r, t) \<Longrightarrow> se_fs t = se_fs s"
  by (auto simp: access_def Let_def split: prod.splits sum.splits if_splits
      dest!: backend_for_ino_fs reader_policy_for_ino_fs call_reply_fs)

lemma readdirplus_entries_fs:
  "se_fs (snd (readdirplus_entries room sys p es acc)) = se_fs (snd acc)"
proof (induction room sys p es acc rule: readdirplus_entries.induct)
  case (2 room sys p e es acc)
  obtain i x where e: "e = (i, x)" by (cases e)
  obtain out s where acc: "acc = (out, s)" by (cases acc)
  obtain out' s' where step: "readdirplus_entry sys p e acc = (out', s')" by (cases "readdirplus_entry sys p e acc")
  have same: "se_fs s' = se_fs (snd acc)"
    using step by (auto simp: readdirplus_entry_def e acc split: prod.splits option.splits sum.splits dest!: route_fs)
  show ?case
  proof (cases "room < length out'")
    case True
    then show ?thesis by (simp add: step same)
  next
    case False
    have "se_fs (snd (readdirplus_entries room sys p es (out', s'))) = se_fs s'"
      using "2.IH" [OF step [symmetric] refl False] by simp
    with False show ?thesis by (simp add: step same)
  qed
qed simp

lemma readdirplus_fs: "readdirplus room sys req ino fh offset s = (r, t) \<Longrightarrow> se_fs t = se_fs s"
  using readdirplus_entries_fs [of room sys _ _ "([], s)"]
  by (auto simp: readdirplus_def Let_def apfst_def map_prod_def split: if_splits option.splits prod.splits)
    (metis snd_conv)

lemma fsyncdir_fs: "fsyncdir sys req ino fh s = (r, t) \<Longrightarrow> se_fs t = se_fs s"
  by (auto simp: fsyncdir_def Let_def split: prod.splits sum.splits if_splits dest!: backend_for_ino_fs call_reply_fs)

lemma read_handle_fs: "read_handle sys fh offset n s = (r, t) \<Longrightarrow> se_fs t = se_fs s"
  by (auto simp: read_handle_def split: option.splits dest!: call_reply_fs)

lemma snd_route_fs [simp]: "se_fs (snd (route sys p rel operation s)) = se_fs s"
  by (cases "route sys p rel operation s") (simp add: route_fs)

lemma snd_call_fs [simp]: "se_fs (snd (call sys c s)) = se_fs s"
  by (simp add: call_def)

lemma write_handle_fs: "write_handle sys req answers content ino fh offset data s = Some (r, c, t) \<Longrightarrow> se_fs t = se_fs s"
  by (auto simp: write_handle_def Let_def split: option.splits if_splits prod.splits sum.splits dest!: backend_for_ino_fs)

lemma fsync_fs: "fsync sys fh d s = (r, t) \<Longrightarrow> se_fs t = se_fs s"
  by (auto simp: fsync_def split: option.splits dest!: call_reply_fs)

lemma copy_file_range_fs: "copy_file_range sys req a b c d n flags s = (r, t) \<Longrightarrow> se_fs t = se_fs s"
  by (auto simp: copy_file_range_def split: option.splits if_splits dest!: call_reply_fs)

lemma fallocate_fs: "fallocate sys fh offset n mode s = (r, t) \<Longrightarrow> se_fs t = se_fs s"
  by (auto simp: fallocate_def split: option.splits if_splits dest!: call_reply_fs)

lemma setattr_fs: "setattr sys later req ino c s = (r, t) \<Longrightarrow> se_fs t = se_fs s"
  by (auto simp: setattr_def Let_def split: option.splits sum.splits prod.splits if_splits
      dest!: backend_for_ino_fs call_all_fs)

text \<open>The common end of the handlers that create: the new inode is entered in the tables of a session that has not changed.\<close>

lemma entered_runs:
  assumes "enter_created p rel s' = (ino, t)" "se_fs s' = se_fs s" "roomy s"
  shows "runs s t" "runs s (with_fs (remove_lookup_locked ino 1) t)" "fs_next_fh (se_fs t) < U64_MAX"
proof -
  have e: "runs s' t" "fs_next_fh (se_fs t) = fs_next_fh (se_fs s)"
    using enter_created_runs [OF assms(1)] assms(2,3) by (auto simp: roomy_def)
  show "fs_next_fh (se_fs t) < U64_MAX" using e(2) assms(3) by (simp add: roomy_def)
  show "runs s t" using e(1) assms(2) by (simp add: runs_def)
  then show "runs s (with_fs (remove_lookup_locked ino 1) t)" using runs_trans runs_failed by blast
qed

lemma symlink_runs [handler_runs]:
  assumes h: "symlink sys req ino name target s = (r, t)" and room: "roomy s"
  shows "runs s t"
proof (cases "route_new_entry sys req ino name s")
  case (Pair routed s1)
  note same1 = route_new_entry_fs [OF Pair]
  show ?thesis
  proof (cases routed)
    case (Inr found)
    obtain p rel b where found: "found = (p, rel, b)" by (cases found)
    obtain made s2 where made: "call sys (MakeSymlink target (bp_path b)) s1 = (made, s2)"
      by (cases "call sys (MakeSymlink target (bp_path b)) s1")
    obtain md s3 where md: "apply_create_metadata sys (bp_path b) (metadata_of_request sys req p b 0x1FF False) s2 = (md, s3)"
      by (cases "apply_create_metadata sys (bp_path b) (metadata_of_request sys req p b 0x1FF False) s2")
    have same3: "se_fs s2 = se_fs s" "se_fs s3 = se_fs s"
      using call_fs [OF made] apply_create_metadata_fs [OF md] same1 by simp_all
    obtain i s4 where e: "enter_created p rel s3 = (i, s4)" by (cases "enter_created p rel s3")
    show ?thesis
      using h same1 same3 entered_runs [OF e same3(2) room]
      by (auto simp: symlink_def Pair Inr found made md e Let_def runs_same simp del: One_nat_def
          split: if_splits sum.splits option.splits)
  qed (use h same1 in \<open>simp add: symlink_def Pair runs_same\<close>)
qed

lemma mknod_runs [handler_runs]:
  assumes h: "mknod sys req ino name mode umask s = (r, t)" and room: "roomy s"
  shows "runs s t"
proof (cases "route_new_entry sys req ino name s")
  case (Pair routed s1)
  note same1 = route_new_entry_fs [OF Pair]
  show ?thesis
  proof (cases routed)
    case (Inr found)
    obtain p rel b where found: "found = (p, rel, b)" by (cases found)
    define m where "m = mode AND NOT 0xF000 AND NOT umask"
    obtain made s2 where made: "open_backend_file sys (bp_path b) (O_WRONLY OR O_CREAT OR O_EXCL) m s1 = (made, s2)"
      by (cases "open_backend_file sys (bp_path b) (O_WRONLY OR O_CREAT OR O_EXCL) m s1")
    obtain md s3 where md: "apply_create_metadata sys (bp_path b) (metadata_of_request sys req p b m False) s2 = (md, s3)"
      by (cases "apply_create_metadata sys (bp_path b) (metadata_of_request sys req p b m False) s2")
    have same3: "se_fs s2 = se_fs s" "se_fs s3 = se_fs s"
      using open_backend_file_fs [OF made] apply_create_metadata_fs [OF md] same1 by simp_all
    obtain i s4 where e: "enter_created p rel s3 = (i, s4)" by (cases "enter_created p rel s3")
    have m': "mode AND - 61441 AND NOT umask = m" by (simp add: m_def)
    show ?thesis
      using h same1 same3 entered_runs [OF e same3(2) room]
      by (auto simp: mknod_def Pair Inr found made md e Let_def runs_same m' simp del: One_nat_def
          split: if_splits sum.splits option.splits)
  qed (use h same1 in \<open>auto simp: mknod_def Pair Let_def runs_same split: if_splits\<close>)
qed

lemma mkdir_runs [handler_runs]:
  assumes h: "mkdir sys later req ino name mode umask s = (r, t)" and room: "roomy s"
  shows "runs s t"
proof (cases "route_new_entry sys req ino name s")
  case (Pair routed s1)
  note same1 = route_new_entry_fs [OF Pair]
  show ?thesis
  proof (cases routed)
    case (Inr found)
    obtain p rel b where found: "found = (p, rel, b)" by (cases found)
    obtain made s2 where made: "call sys (MakeDir (bp_path b)) s1 = (made, s2)"
      by (cases "call sys (MakeDir (bp_path b)) s1")
    obtain md s3 where md: "apply_create_metadata sys (bp_path b)
        (metadata_of_request sys req p b (mode AND NOT umask) True) s2 = (md, s3)"
      by (cases "apply_create_metadata sys (bp_path b) (metadata_of_request sys req p b (mode AND NOT umask) True) s2")
    have same3: "se_fs s2 = se_fs s" "se_fs s3 = se_fs s"
      using call_fs [OF made] apply_create_metadata_fs [OF md] same1 by simp_all
    let ?c = "with_fs clear_dir_candidate_cache s3"
    have "runs s ?c" using runs_cleared [of s3] same3(2) by (simp add: runs_def)
    moreover have "runs ?c t" if "reply_entry_for_rel later (rq_uid req) p rel ?c = (r, t)"
      by (rule reply_entry_runs [OF that]) (use room same3 in \<open>simp add: roomy_def\<close>)
    ultimately have replied: "runs s t" if "reply_entry_for_rel later (rq_uid req) p rel ?c = (r, t)"
      using that runs_trans by blast
    show ?thesis
      using h same1 same3 replied
      by (auto simp: mkdir_def Pair Inr found made md runs_same split: sum.splits option.splits)
  qed (use h same1 in \<open>simp add: mkdir_def Pair runs_same\<close>)
qed

lemma create_runs [handler_runs]:
  assumes h: "create sys dup req ino name mode umask flags s = (r, t)" and room: "roomy s"
  shows "runs s t"
proof (cases "route_new_entry sys req ino name s")
  case (Pair routed s1)
  note same1 = route_new_entry_fs [OF Pair]
  show ?thesis
  proof (cases routed)
    case (Inr found)
    obtain p rel b where found: "found = (p, rel, b)" by (cases found)
    define m where "m = mode AND NOT umask"
    obtain made s2 where made: "open_backend_file sys (bp_path b) (flags OR O_CREAT OR O_CLOEXEC) m s1 = (made, s2)"
      by (cases "open_backend_file sys (bp_path b) (flags OR O_CREAT OR O_CLOEXEC) m s1")
    obtain md s3 where md: "apply_create_metadata sys (bp_path b) (metadata_of_request sys req p b m False) s2 = (md, s3)"
      by (cases "apply_create_metadata sys (bp_path b) (metadata_of_request sys req p b m False) s2")
    have same3: "se_fs s2 = se_fs s" "se_fs s3 = se_fs s"
      using open_backend_file_fs [OF made] apply_create_metadata_fs [OF md] same1 by simp_all
    obtain i s4 where e: "enter_created p rel s3 = (i, s4)" by (cases "enter_created p rel s3")
    note entered = entered_runs [OF e same3(2) room]
    have opened: "runs s t" if opened_file: "open_session_file f s4 = (fh, s5)"
      and backed: "register_backing sys p rel' fd fh (with_fs clear_dir_candidate_cache s5) = (bk, t)" for f fh s5 rel' fd bk
      using runs_trans [OF runs_trans [OF runs_trans [OF entered(1) open_session_file_runs [OF opened_file entered(3)]] runs_cleared]
          register_backing_runs [OF backed]] .
    show ?thesis
      using h same1 same3 entered opened
      by (auto simp: create_def Pair Inr found made md e Let_def runs_same m_def [symmetric] simp del: One_nat_def
          split: sum.splits option.splits prod.splits)
  qed (use h same1 in \<open>auto simp: create_def Pair Let_def runs_same\<close>)
qed

text \<open>Opening is split at its three calls: the back end, the damaged shared-memory file, and the file.\<close>

definition open_healed ::
  "system \<Rightarrow> redirect_policy \<Rightarrow> 32 word \<Rightarrow> backend_path \<Rightarrow> session \<Rightarrow> bool \<times> session" where
  "open_healed sys p flags b s =
     (if open_flags_write flags \<and> should_heal_media_sqlite_shm_rel p (bp_rel b)
      then heal_poisoned_sqlite_shm_backend sys (po_user_id p) (bp_rel b) s else (False, s))"

lemma open_healed_fs: "open_healed sys p flags b s = (h, t) \<Longrightarrow> se_fs t = se_fs s"
  by (auto simp: open_healed_def split: if_splits dest: heal_fs)

definition open_policy :: "system \<Rightarrow> request \<Rightarrow> nat \<Rightarrow> 32 word \<Rightarrow> session \<Rightarrow> redirect_policy \<times> session" where
  "open_policy sys req ino flags s =
     (if open_flags_write flags \<or> open_flags_create flags then (session_policy_for_request sys req s, s)
      else reader_policy_for_ino sys req ino (policy_for_read_request sys req (Some ino) None s) s)"

lemma open_policy_fs: "open_policy sys req ino flags s = (p, t) \<Longrightarrow> se_fs t = se_fs s"
  by (auto simp: open_policy_def split: if_splits dest: reader_policy_for_ino_fs)

lemma open_inode_eq:
  "open_inode sys dup req ino flags s =
     (case open_policy sys req ino flags s of (p, s) \<Rightarrow>
        (case backend_for_ino sys p ino s of
           (Inl e, s) \<Rightarrow> (ReplyError e, s)
         | (Inr b, s) \<Rightarrow>
             if bp_read_only b \<and> (open_flags_write flags \<or> open_flags_create flags) then (ReplyError EROFS, s)
             else (case open_healed sys p flags b s of
                 (True, s) \<Rightarrow> (ReplyError ENOENT, s)
               | (False, s) \<Rightarrow>
                   (case open_backend_file sys (bp_path b) ((flags OR O_CLOEXEC) AND NOT O_CREAT) 0 s of
                      (Inl e, s) \<Rightarrow> (ReplyError e, s)
                    | (Inr fd, s) \<Rightarrow>
                        (case open_session_file (open_file_of (bp_rel b) (dup fd) (bp_read_only b)) s of (fh, s) \<Rightarrow>
                           (case register_backing sys p (bp_rel b) fd fh s of (bk, s) \<Rightarrow> (ReplyOpened fh bk, s)))))))"
  unfolding open_inode_def open_policy_def open_healed_def Let_def
  by (simp split: prod.split sum.split)

lemma open_inode_runs [handler_runs]:
  assumes h: "open_inode sys dup req ino flags s = (r, t)" and room: "roomy s"
  shows "runs s t"
proof -
  obtain p s1 where p: "open_policy sys req ino flags s = (p, s1)" by (cases "open_policy sys req ino flags s")
  obtain rb s2 where b: "backend_for_ino sys p ino s1 = (rb, s2)" by (cases "backend_for_ino sys p ino s1")
  have same2: "se_fs s2 = se_fs s" using open_policy_fs [OF p] backend_for_ino_fs [OF b] by simp
  show ?thesis
  proof (cases rb)
    case (Inr b')
    obtain healed s3 where healed: "open_healed sys p flags b' s2 = (healed, s3)" by (cases "open_healed sys p flags b' s2")
    obtain rf s4 where f: "open_backend_file sys (bp_path b') ((flags OR O_CLOEXEC) AND NOT O_CREAT) 0 s3 = (rf, s4)"
      by (cases "open_backend_file sys (bp_path b') ((flags OR O_CLOEXEC) AND NOT O_CREAT) 0 s3")
    have same4: "se_fs s3 = se_fs s" "se_fs s4 = se_fs s"
      using open_healed_fs [OF healed] open_backend_file_fs [OF f] same2 by simp_all
    have opened: "runs s t" if opened_file: "open_session_file f s4 = (fh, s5)"
      and backed: "register_backing sys p rel fd fh s5 = (bk, t)" for f fh s5 rel fd bk
    proof -
      have "runs s4 s5" by (rule open_session_file_runs [OF opened_file]) (use room same4 in \<open>simp add: roomy_def\<close>)
      then show ?thesis using runs_trans [OF _ register_backing_runs [OF backed]] same4(2) by (simp add: runs_def)
    qed
    show ?thesis
      using h same2 same4 opened
      by (auto simp: open_inode_eq p b Inr healed f runs_same split: if_splits bool.splits sum.splits prod.splits)
  qed (use h same2 in \<open>simp add: open_inode_eq p b runs_same\<close>)
qed

section \<open>Opening a directory\<close>

lemma shows_entry_fs: "se_fs (snd (shows_entry sys p uniform path name rel s)) = se_fs s"
  by (auto simp: shows_entry_def split: option.splits prod.splits dest: route_fs)

lemma append_backend_entry_fs: "se_fs (snd (append_backend_entry sys p rel backend uniform item acc)) = se_fs (snd acc)"
  by (simp add: append_backend_entry_def Let_def case_prod_beta shows_entry_fs split: option.split)

lemma append_backend_dir_entries_fs: "se_fs (snd (append_backend_dir_entries sys p rel backend uniform acc)) = se_fs (snd acc)"
proof -
  have "se_fs (snd (fold (append_backend_entry sys p rel backend uniform) items acc)) = se_fs (snd acc)" for items acc
    by (induction items arbitrary: acc) (simp_all add: append_backend_entry_fs)
  then show ?thesis by (simp add: append_backend_dir_entries_def Let_def apfst_def split: option.split)
qed

lemma collect_fs: "collect_dir_entry_candidates sys p rel s = (r, t) \<Longrightarrow> se_fs t = se_fs s"
proof -
  have mapped: "se_fs (snd (fold (\<lambda>m acc. if P m then (case g m of None \<Rightarrow> acc
        | Some x \<Rightarrow> append_backend_dir_entries sys p rel (h x) uniform acc) else acc) ms acc)) = se_fs (snd acc)"
    for P and g :: "path_mapping \<Rightarrow> bytes option" and h uniform ms acc
    by (induction ms arbitrary: acc) (simp_all add: append_backend_dir_entries_fs split: option.split)
  show "collect_dir_entry_candidates sys p rel s = (r, t) \<Longrightarrow> se_fs t = se_fs s"
    by (auto simp: collect_dir_entry_candidates_def Let_def mapped append_backend_dir_entries_fs
        split: prod.splits if_splits dest: route_fs)
qed

lemma opendir_collect_fs: "opendir_collect sys p rel s = (r, t) \<Longrightarrow> se_fs t = se_fs s"
  by (auto simp: opendir_collect_def Let_def split: option.splits prod.splits if_splits dest!: route_fs collect_fs)

lemma open_dir_handle_fh: "fs_next_fh (snd (open_dir_handle ino rel candidates s)) = max (sat_add_u64 (fs_next_fh s) 1) 1"
proof -
  obtain fh t where n: "next_handle s = (fh, t)" by (cases "next_handle s")
  obtain es u where m: "materialize_dir_entries ino rel candidates t = (es, u)" by (cases "materialize_dir_entries ino rel candidates t")
  have "session_rest u = session_rest t"
    using session_rest_materialize m unfolding materialize_dir_entries_def Let_def by (metis snd_conv)
  then have "fs_next_fh (add_dir_entry_refs es u) = fs_next_fh t"
    using session_rest_refs [of es u] by (simp add: session_rest_def)
  moreover have "fs_next_fh t = max (sat_add_u64 (fs_next_fh s) 1) 1" using n by (auto simp: next_handle_def)
  moreover have "fs_next_fh (snd (open_dir_handle ino rel candidates s)) = fs_next_fh (add_dir_entry_refs es u)"
    by (simp add: open_dir_handle_def n m Let_def)
  ultimately show ?thesis by simp
qed

lemma open_dir_handle_step:
  assumes "path_for_ino ino t = Some rel" "open_dir_handle ino rel candidates t = (fh, u)"
    "fs_next_ino u < U64_MAX" "fs_next_fh u < U64_MAX"
  shows "table_step t u"
proof -
  have "fs_next_fh t < U64_MAX"
    using open_dir_handle_fh [of ino rel candidates t] assms(2,4) by (simp add: sat_add_u64_def split: if_splits)
  then show ?thesis using table_step.dir_opened [of ino t rel candidates] assms by simp
qed

lemma store_dir_candidates_paths:
  "fs_paths_by_inode (store_dir_candidates now est rel cs srcs t) = fs_paths_by_inode t"
proof -
  have evicted: "fs_paths_by_inode (evict_cached est t) = fs_paths_by_inode t" for est t
  proof (induction est t rule: evict_cached.induct)
    case (1 est t)
    then show ?case by (subst evict_cached.simps) (simp add: forget_cached_def split: option.split)
  qed
  show ?thesis
    by (simp add: store_dir_candidates_def Let_def evicted grow_dir_cache_def forget_cached_def split: option.split)
qed

lemma opendir_commit_runs:
  assumes c: "opendir_commit sys csize ssize ino rel version candidates sources (se_fs s) = (result, u)"
    and room: "fs_next_ino u < U64_MAX" "fs_next_fh u < U64_MAX"
  shows "table_step\<^sup>*\<^sup>* (se_fs s) u"
proof (cases "path_for_ino ino (se_fs s)")
  case None
  with c show ?thesis by (simp add: opendir_commit_def)
next
  case (Some current)
  show ?thesis
  proof (cases "current \<noteq> rel \<or> path_version ino (se_fs s) \<noteq> version")
    case True
    with c Some show ?thesis by (auto simp: opendir_commit_def)
  next
    case False
    define t where "t = (case sources of None \<Rightarrow> se_fs s
      | Some sources \<Rightarrow> store_dir_candidates (fw_now (sy_world sys))
          (estimate_cached_dir_candidates_bytes csize ssize rel candidates sources) rel candidates sources (se_fs s))"
    obtain fh v where o: "open_dir_handle ino rel candidates t = (fh, v)" by (cases "open_dir_handle ino rel candidates t")
    have u: "u = v" using c Some False o by (simp add: opendir_commit_def t_def Let_def)
    have stored: "table_step\<^sup>*\<^sup>* (se_fs s) t"
      by (auto simp: t_def intro: table_step.dir_cached split: option.split)
    have "path_for_ino ino t = path_for_ino ino (se_fs s)"
      by (simp add: t_def path_for_ino_def store_dir_candidates_paths split: option.split)
    with Some False have "path_for_ino ino t = Some rel" by simp
    from open_dir_handle_step [OF this o] room u have "table_step t u" by simp
    with stored show ?thesis by auto
  qed
qed

lemma opendir_loop_runs:
  assumes "opendir_loop n sys csize ssize between p ino rel version s = Some (r, t)" "roomy t"
    and between: "\<And>k s. runs s (between k s)"
  shows "runs s t"
  using assms(1)
proof (induction n arbitrary: rel version s)
  case (Suc n)
  obtain c s1 where collect: "opendir_collect sys p rel s = (c, s1)" by (cases "opendir_collect sys p rel s")
  note same = opendir_collect_fs [OF collect]
  show ?case
  proof (cases c)
    case (Inl e)
    with Suc.prems have "t = s1" by (simp add: collect)
    with same show ?thesis by (simp add: runs_same)
  next
    case (Inr found)
    obtain cs srcs where found: "found = (cs, srcs)" by (cases found)
    let ?s = "between n s1"
    have here: "runs s ?s" using between [of s1 n] same by (simp add: runs_def)
    obtain result u where commit: "opendir_commit sys csize ssize ino rel version cs srcs (se_fs ?s) = (result, u)"
      by (cases "opendir_commit sys csize ssize ino rel version cs srcs (se_fs ?s)")
    have rest: "(case result of Gone \<Rightarrow> Some (ReplyError ENOENT, ?s\<lparr>se_fs := u\<rparr>)
        | Opened fh \<Rightarrow> Some (ReplyOpened fh None, ?s\<lparr>se_fs := u\<rparr>)
        | Moved rel' version' \<Rightarrow> opendir_loop n sys csize ssize between p ino rel' version' (?s\<lparr>se_fs := u\<rparr>)) = Some (r, t)"
      using Suc.prems by (simp add: collect Inr found commit Let_def)
    show ?thesis
    proof (cases result)
      case Gone
      then have "u = se_fs ?s" using commit by (auto simp: opendir_commit_def Let_def split: option.splits if_splits prod.splits)
      then show ?thesis using rest Gone here by (auto simp: runs_def)
    next
      case (Moved rel' version')
      then have "u = se_fs ?s" using commit by (auto simp: opendir_commit_def Let_def split: option.splits if_splits prod.splits)
      then show ?thesis using Suc.IH [of rel' version' "?s\<lparr>se_fs := u\<rparr>"] rest Moved here by (auto simp: runs_def)
    next
      case (Opened fh)
      then have t: "t = ?s\<lparr>se_fs := u\<rparr>" using rest by simp
      then have "table_step\<^sup>*\<^sup>* (se_fs ?s) u"
        using assms(2) by (intro opendir_commit_runs [OF commit]) (simp_all add: roomy_def)
      with here t show ?thesis by (simp add: runs_def)
    qed
  qed
qed simp

lemma opendir_runs [handler_runs]:
  assumes "opendir n sys csize ssize between req ino s = Some (r, t)" "roomy t" "\<And>k s. runs s (between k s)"
  shows "runs s t"
proof (cases "path_for_ino ino (se_fs s)")
  case None
  with assms(1) show ?thesis by (simp add: opendir_def Let_def)
next
  case (Some rel)
  obtain reader s1 where reader: "system_reader_policy_on_miss sys (rq_uid req) rel s = (reader, s1)"
    by (cases "system_reader_policy_on_miss sys (rq_uid req) rel s")
  note same = reader_policy_on_miss_fs [OF reader]
  define q where "q = (case reader of Some o' \<Rightarrow> o' | None \<Rightarrow> policy_for_read_request sys req (Some ino) None s)"
  define cs where "cs = map (\<lambda>name. \<lparr>dc_rel = name, dc_kind = Directory, dc_name = name\<rparr>) (lifted_root_names sys (po_user_id q))"
  obtain fh u where o: "open_dir_handle ino rel cs (se_fs s) = (fh, u)" by (cases "open_dir_handle ino rel cs (se_fs s)")
  have loop: "runs s t" if "opendir_loop n sys csize ssize between q ino rel (path_version ino (se_fs s)) s1 = Some (r, t)"
    using opendir_loop_runs [OF that assms(2,3)] same by (simp add: runs_def)
  have lifted: "runs s t" if "t = s1\<lparr>se_fs := u\<rparr>"
    using that open_dir_handle_step [OF Some o] assms(2) by (auto simp: roomy_def runs_def)
  have "opendir n sys csize ssize between req ino s =
     (if po_view_lifted q \<and> rel = []
      then if rq_uid req \<noteq> 0 \<and> rq_uid req \<noteq> 1023 then Some (ReplyError EACCES, s1)
        else Some (ReplyOpened fh None, s1\<lparr>se_fs := u\<rparr>)
      else opendir_loop n sys csize ssize between q ino rel (path_version ino (se_fs s)) s1)"
    unfolding opendir_def Let_def Some reader option.case prod.case same q_def [symmetric] cs_def [symmetric] o
    by (rule refl)
  with assms(1) have outcome: "(if po_view_lifted q \<and> rel = []
      then if rq_uid req \<noteq> 0 \<and> rq_uid req \<noteq> 1023 then Some (ReplyError EACCES, s1)
        else Some (ReplyOpened fh None, s1\<lparr>se_fs := u\<rparr>)
      else opendir_loop n sys csize ssize between q ino rel (path_version ino (se_fs s)) s1) = Some (r, t)" by simp
  show ?thesis
    using outcome loop lifted same by (auto simp: runs_same split: if_splits)
qed

section \<open>Removing and renaming\<close>

lemma from_utf8_lossy_eq_nil: "from_utf8_lossy name = [] \<longleftrightarrow> name = []"
proof (cases "name = []")
  case False
  moreover have "take (snd (utf8_step name)) name \<noteq> []"
    using False by (auto simp: utf8_step_def Let_def)
  ultimately show ?thesis
    by (subst from_utf8_lossy.simps) (simp add: case_prod_beta Let_def replacement_char_def)
qed (subst from_utf8_lossy.simps, simp)

lemma child_rel_not_root: "child_rel parent_rel name = Inr rel \<Longrightarrow> rel \<noteq> []"
  by (auto simp: child_rel_def path_join_def Let_def from_utf8_lossy_eq_nil split: if_splits)

lemma remove_child_runs:
  assumes "remove_child sys p ino name is_dir s = (r, t)"
  shows "runs s t"
proof -
  have removed: "runs s (with_fs (clear_dir_candidate_cache \<circ> remove_inode_path rel) u)"
    if "child_rel parent_rel name = Inr rel" "se_fs u = se_fs s" for rel parent_rel u
    using table_step.removed [OF child_rel_not_root [OF that(1)], of "se_fs s"] that(2)
    by (auto simp: runs_def)
  show ?thesis
    using assms removed
    by (auto simp: remove_child_def runs_same split: option.splits sum.splits prod.splits if_splits
        dest!: route_fs call_fs)
qed

lemma unlink_runs [handler_runs]: "unlink sys req ino name s = (r, t) \<Longrightarrow> runs s t"
  by (simp add: unlink_def remove_child_runs)

lemma rmdir_runs [handler_runs]: "rmdir sys req ino name s = (r, t) \<Longrightarrow> runs s t"
  by (simp add: rmdir_def remove_child_runs)

text \<open>
  What a rename needs of the table: the new path is not below the old one, and the table has no entries
  below the new path, unless both have the same key. The kernel refuses the former; nothing checks the latter.
\<close>

definition rename_fits :: "fuse_state \<Rightarrow> bytes \<Rightarrow> bytes \<Rightarrow> bool" where
  "rename_fits t old new \<longleftrightarrow>
     \<not> prefix (inode_key t old @ ''/'') (inode_key t new)
     \<and> (inode_key t new = inode_key t old
        \<or> (\<forall>(i, p) \<in> set (fs_paths_by_inode t). \<not> prefix (inode_key t new @ ''/'') (inode_key t p)))"

text \<open>The two paths of a rename request, when there are any.\<close>

definition rename_paths :: "nat \<Rightarrow> bytes \<Rightarrow> nat \<Rightarrow> bytes \<Rightarrow> fuse_state \<Rightarrow> (bytes \<times> bytes) option" where
  "rename_paths ino name new_ino new_name t =
     (case (path_for_ino ino t, path_for_ino new_ino t) of
        (Some p, Some q) \<Rightarrow> (case (child_rel p name, child_rel q new_name) of
            (Inr old, Inr new) \<Rightarrow> Some (old, new) | _ \<Rightarrow> None)
      | _ \<Rightarrow> None)"

lemma rename_runs [handler_runs]:
  assumes h: "rename sys later req ino name new_ino new_name flags s = (r, t)"
    and fits: "\<And>old new. rename_paths ino name new_ino new_name (se_fs s) = Some (old, new) \<Longrightarrow> rename_fits (se_fs s) old new"
  shows "runs s t"
proof (cases "rename_paths ino name new_ino new_name (se_fs s)")
  case None
  then show ?thesis
    using h by (auto simp: rename_def rename_paths_def Let_def split: option.splits sum.splits if_splits)
next
  case (Some paths)
  then obtain old new p q where paths: "path_for_ino ino (se_fs s) = Some p" "path_for_ino new_ino (se_fs s) = Some q"
    "child_rel p name = Inr old" "child_rel q new_name = Inr new" "paths = (old, new)"
    by (auto simp: rename_paths_def split: option.splits sum.splits)
  have f: "rename_fits (se_fs s) old new" using fits Some paths(5) by simp
  have moved: "runs s (with_fs (clear_dir_candidate_cache \<circ> remap_inode_path old new) u)" if "se_fs u = se_fs s" for u
  proof -
    have "table_step (se_fs s) (clear_dir_candidate_cache (remap_inode_path old new (se_fs s)))"
      using f child_rel_not_root [OF paths(3)] child_rel_not_root [OF paths(4)]
      by (intro table_step.renamed) (auto simp: rename_fits_def path_for_ino_def dest!: map_of_SomeD)
    with that show ?thesis by (auto simp: runs_def)
  qed
  show ?thesis
    using h moved
    by (auto simp: rename_def Let_def paths runs_same split: option.splits sum.splits prod.splits if_splits
        dest!: route_fs ensure_parent_fs call_fs)
qed

section \<open>Sessions that serve requests\<close>

text \<open>What a request must satisfy: a rename fits the table, and what happens while \<^verbatim>\<open>opendir\<close> reads is itself a run.\<close>

definition op_fits :: "serving \<Rightarrow> fuse_op \<Rightarrow> session \<Rightarrow> bool" where
  "op_fits sv op s \<longleftrightarrow>
     (case op of
        OpRename ino name new_ino new_name flags \<Rightarrow>
          (case rename_paths ino name new_ino new_name (se_fs s) of
             None \<Rightarrow> True | Some (old, new) \<Rightarrow> rename_fits (se_fs s) old new)
      | OpOpendir ino \<Rightarrow> (\<forall>k u. runs u (sv_between sv k u))
      | _ \<Rightarrow> True)"

lemma xattr_handlers_fs:
  "getxattr sys req ino name n s = (r, t) \<Longrightarrow> se_fs t = se_fs s"
  "setxattr sys req ino name n s = (r, t) \<Longrightarrow> se_fs t = se_fs s"
  "listxattr sys req ino n s = (r, t) \<Longrightarrow> se_fs t = se_fs s"
  "removexattr sys req ino name s = (r, t) \<Longrightarrow> se_fs t = se_fs s"
  by (auto simp: getxattr_def setxattr_def listxattr_def removexattr_def split: if_splits dest: xattr_fs)

lemmas quiet_runs = getattr_fs [THEN runs_same] readlink_fs [THEN runs_same] xattr_handlers_fs [THEN runs_same]
  access_fs [THEN runs_same] readdirplus_fs [THEN runs_same] fsyncdir_fs [THEN runs_same] read_handle_fs [THEN runs_same]
  write_handle_fs [THEN runs_same] fsync_fs [THEN runs_same] copy_file_range_fs [THEN runs_same]
  fallocate_fs [THEN runs_same] setattr_fs [THEN runs_same]

lemma perform_runs:
  assumes "perform sv req op s = Some (r, t)" "roomy s" "roomy t" "op_fits sv op s"
  shows "runs s t"
proof (cases op)
  case (OpOpendir ino)
  with assms show ?thesis by (auto simp: op_fits_def intro: opendir_runs)
next
  case (OpRename ino name new_ino new_name flags)
  with assms show ?thesis by (auto simp: op_fits_def split: option.splits intro: rename_runs)
qed (use assms in \<open>auto intro: handler_runs quiet_runs\<close>)

inductive served :: "session \<Rightarrow> bool" where
  new_session: "se_fs s = fuse_state_new casefold mem \<Longrightarrow> served s"
| answered: "served s \<Longrightarrow> roomy s \<Longrightarrow> op_fits sv op s \<Longrightarrow> perform sv req op s = Some (r, t) \<Longrightarrow> roomy t \<Longrightarrow> served t"
| configured: "served s \<Longrightarrow> served (s\<lparr>se_registry := registry, se_table := table\<rparr>)"

lemma runs_reachable: "session_reachable (se_fs s) \<Longrightarrow> runs s t \<Longrightarrow> session_reachable (se_fs t)"
  unfolding runs_def by (erule rtranclp_induct [where P = session_reachable, rotated]) (auto intro: session_reachable.stepped)

section \<open>Properties\<close>


text \<open>An application looks up its directory in the root of the lifted view and lets go of it again.\<close>

definition example_system :: system where
  "example_system = \<lparr>sy_world = example_world, sy_answer = (\<lambda>_. Inr 7),
     sy_lstat = (\<lambda>_. Inr \<lparr>st_mode = 0x41F9, st_uid = 1023, st_gid = 1023, st_nlink = 2, st_size = 0, st_blocks = 0,
       st_blksize = 4096\<rparr>),
     sy_is_dir = (\<lambda>_. True), sy_read_dir = (\<lambda>_. Some []), sy_modified = (\<lambda>_. Some (Some 5, True)),
     sy_contents = (\<lambda>_. None), sy_still_there = (\<lambda>_. False), sy_overlay_now = \<lparr>os_overlays = [], os_fs_roots = []\<rparr>,
     sy_packages_at_start = None, sy_repair_enabled = False\<rparr>"

definition example_session :: "redirect_policy \<Rightarrow> session" where
  "example_session p = \<lparr>se_registry = PolicyRegistry_new p True,
     se_table = \<lparr>pt_by_uid = [(10123, p)], pt_by_namespace = []\<rparr>,
     se_fs = fuse_state_new False None, se_handoffs = [], se_passthrough = False, se_calls = []\<rparr>"

definition example_request :: request where
  "example_request = \<lparr>rq_uid = 10123, rq_gid = 10123, rq_pid = 500\<rparr>"

definition example_serving :: serving where
  "example_serving = \<lparr>sv_sys = example_system, sv_later = example_system, sv_dup = Some, sv_sizes = (64, 64), sv_room = 10,
     sv_answers = [], sv_content = [], sv_file_len = (\<lambda>_. Inr 0), sv_rounds = 2, sv_between = (\<lambda>_ s. s)\<rparr>"

lemma example_route:
  "resolve_relative example_world [(10123, example_policy [])] (example_policy []) ''0'' Read [] =
     (Some \<lparr>bp_rel = [], bp_path = ''/data/media/0/Android/data/com.a/sdcard'', bp_read_only = False,
        bp_shared_public = False, bp_app_private = False\<rparr>, [])"
  by code_simp

lemma example_child: "child_rel [] ''0'' = Inr ''0''"
  by code_simp

lemmas example_session_eval = example_session_def example_request_def example_serving_def example_system_def
  session_policy_for_request_def policy_for_request_def policy_for_read_request_def route_def

lemma example_policies:
  "session_policy_for_request example_system example_request (example_session p\<lparr>se_fs := t\<rparr>) = p"
  "policy_for_read_request example_system example_request i rel (example_session p\<lparr>se_fs := t\<rparr>) = p"
  "session_policy_for_request example_system example_request (example_session p) = p"
  "policy_for_read_request example_system example_request i rel (example_session p) = p"
  by (simp_all add: example_session_eval)

lemma example_lookup:
  "\<exists>r t. lookup example_system example_request 1 ''0'' (example_session (example_policy [])) = (r, t)
     \<and> path_for_ino 2 (se_fs t) = Some ''0'' \<and> fs_next_ino (se_fs t) = 3 \<and> fs_next_fh (se_fs t) = 1"
proof -
  let ?s = "example_session (example_policy [])"
  have root: "path_for_ino 1 (se_fs ?s) = Some []"
    by (simp add: example_session_def fuse_state_new_def path_for_ino_def ROOT_INO_def case_prod_beta Let_def)
  have no_heal: "should_heal_media_sqlite_shm_rel (example_policy []) ''0'' = False" by code_simp
  obtain b where r: "route example_system (example_policy []) ''0'' Read ?s = (Some b, ?s)"
    using example_route by (auto simp: route_def example_session_def example_system_def)
  obtain ino u where e: "enter_inode_with_backend ''0'' (policy_uid (example_policy [])) b (se_fs ?s) = (ino, u)"
    by (cases "enter_inode_with_backend ''0'' (policy_uid (example_policy [])) b (se_fs ?s)")
  have u: "path_for_ino 2 u = Some ''0'' \<and> fs_next_ino u = 3 \<and> fs_next_fh u = 1"
    using e by (auto simp: enter_inode_with_backend_def example_session_def table_eval inode_key_def ROOT_INO_def
        path_for_ino_def remember_backend_for_inode_locked_def sat_add_u64_def U64_MAX_def keeps_owner_def
        PATH_POLICY_UID_CAP_def)
  have "\<exists>attr. visible_attr_for_backend example_system (example_policy []) ino b = Inr attr"
    by (simp add: visible_attr_for_backend_def attr_for_backend_def example_system_def Let_def)
  then obtain attr where "lookup example_system example_request 1 ''0'' ?s = (ReplyEntry attr, ?s\<lparr>se_fs := u\<rparr>)"
    by (auto simp: lookup_def root example_child example_policies no_heal reply_entry_for_rel_def
        backend_for_relative_with_system_reader_def r e Let_def simp del: One_nat_def)
  with u show ?thesis by simp
qed


end
