(* ===== verification/Fuse_Effects.thy ===== *)
theory Fuse_Effects
  imports Fuse_Handlers
begin

text \<open>
  Which system calls the handlers of a session make: entries are created at the routed path only, a
  read-only back end is refused before any call, and \<^verbatim>\<open>opendir\<close> ends. The last section holds inputs on which
  the handlers do not do what their comments say.
\<close>

section \<open>The calls of a handler\<close>

text \<open>The paths a call changes or opens.\<close>

fun call_paths :: "sys_call \<Rightarrow> bytes list" where
  "call_paths (OpenFile path _ _) = [path]"
| "call_paths (MakeDir path) = [path]"
| "call_paths (MakeDirs path _) = [path]"
| "call_paths (RemoveFile path) = [path]"
| "call_paths (RemoveDir path) = [path]"
| "call_paths (MoveFile old new _) = [old, new]"
| "call_paths (MakeSymlink _ path) = [path]"
| "call_paths (ChangeMode path _) = [path]"
| "call_paths (ChangeOwner path _ _) = [path]"
| "call_paths (TruncateFile path _) = [path]"
| "call_paths (SetTimes path) = [path]"
| "call_paths (SetAttribute path _) = [path]"
| "call_paths (RemoveAttribute path _) = [path]"
| "call_paths (ReadAttribute path _) = [path]"
| "call_paths (ListAttributes path) = [path]"
| "call_paths (ReadLink path) = [path]"
| "call_paths (CheckAccess path _) = [path]"
| "call_paths (SyncPath path) = [path]"
| "call_paths _ = []"

definition calls_within :: "bytes set \<Rightarrow> session \<Rightarrow> session \<Rightarrow> bool" where
  "calls_within P s t \<longleftrightarrow> (\<exists>cs. se_calls t = se_calls s @ cs \<and> (\<forall>c \<in> set cs. set (call_paths c) \<subseteq> P))"

named_theorems within

lemma calls_within_same: "se_calls t = se_calls s \<Longrightarrow> calls_within P s t"
  by (simp add: calls_within_def)

lemma calls_within_refl [simp]: "calls_within P s s"
  by (simp add: calls_within_same)

lemma calls_within_trans [trans]: "calls_within P s t \<Longrightarrow> calls_within P t u \<Longrightarrow> calls_within P s u"
  unfolding calls_within_def by fastforce

lemma calls_within_mono: "calls_within P s t \<Longrightarrow> P \<subseteq> Q \<Longrightarrow> calls_within Q s t"
  unfolding calls_within_def by blast

lemma calls_within_with_fs [simp]:
  "calls_within P s (with_fs f t) = calls_within P s t" "calls_within P s (t\<lparr>se_fs := u\<rparr>) = calls_within P s t"
  "calls_within P s (t\<lparr>se_passthrough := b\<rparr>) = calls_within P s t"
  by (simp_all add: calls_within_def with_fs_def)

lemma call_within: "call sys c s = (r, t) \<Longrightarrow> set (call_paths c) \<subseteq> P \<Longrightarrow> calls_within P s t"
  by (auto simp: call_def calls_within_def)

lemma route_within: "route sys p rel operation s = (b, t) \<Longrightarrow> calls_within P s t"
  by (auto simp: route_def intro: calls_within_same split: prod.splits)

lemma apply_create_metadata_within:
  assumes "apply_create_metadata sys path md s = (r, t)" "path \<in> P"
  shows "calls_within P s t"
  using assms
  by (auto simp: apply_create_metadata_def call_def calls_within_def Let_def split: if_splits sum.splits)

lemma ensure_parent_within:
  assumes e: "ensure_parent_for_backend sys p b s = (r, t)"
  shows "calls_within (set_option (path_parent (bp_path b))) s t"
proof (cases "path_parent (bp_path b)")
  case None
  with e show ?thesis by (simp add: ensure_parent_for_backend_def)
next
  case (Some d)
  define u where "u = (if \<not> sy_repair_enabled sys then - 1 else if bp_shared_public b then MEDIA_RW_UID else of_int (po_uid p))"
  obtain made s1 where made: "call sys (MakeDirs d u) s = (made, s1)" by (cases "call sys (MakeDirs d u) s")
  have "calls_within {d} s s1" using call_within [OF made] by simp
  moreover have "calls_within {d} s1 t" if "apply_create_metadata sys d md s1 = (r, t)" for md
    using apply_create_metadata_within [OF that] by simp
  ultimately show ?thesis
    using e calls_within_trans
    by (fastforce simp: ensure_parent_for_backend_def Some Let_def u_def [symmetric] made split: if_splits sum.splits)
qed

section \<open>Where a new entry goes\<close>

definition new_entry_backend :: "system \<Rightarrow> request \<Rightarrow> nat \<Rightarrow> bytes \<Rightarrow> session \<Rightarrow> backend_path option" where
  "new_entry_backend sys req parent_ino name s =
     (case path_for_ino parent_ino (se_fs s) of
        None \<Rightarrow> None
      | Some parent_rel \<Rightarrow>
          (case child_rel parent_rel name of
             Inl _ \<Rightarrow> None
           | Inr rel \<Rightarrow> fst (route sys (session_policy_for_request sys req s) rel Write s)))"

text \<open>The only paths the creation of an entry may touch: the entry and the directory it is in.\<close>

definition new_entry_paths :: "system \<Rightarrow> request \<Rightarrow> nat \<Rightarrow> bytes \<Rightarrow> session \<Rightarrow> bytes set" where
  "new_entry_paths sys req parent_ino name s =
     (case new_entry_backend sys req parent_ino name s of
        None \<Rightarrow> {}
      | Some b \<Rightarrow>
          if bp_read_only b then {}
          else insert (bp_path (refresh_overlay sys b)) (set_option (path_parent (bp_path (refresh_overlay sys b)))))"

lemma refresh_overlay_read_only [simp]: "bp_read_only (refresh_overlay sys b) = bp_read_only b"
  by (simp add: refresh_overlay_def split: option.split)

lemma route_new_entry_within:
  assumes r: "route_new_entry sys req ino name s = (r, t)"
  shows "calls_within (new_entry_paths sys req ino name s) s t
    \<and> (\<forall>p rel b. r = Inr (p, rel, b) \<longrightarrow> bp_path b \<in> new_entry_paths sys req ino name s)"
proof (cases "path_for_ino ino (se_fs s)")
  case None
  with r show ?thesis by (auto simp: route_new_entry_def)
next
  case (Some parent_rel)
  show ?thesis
  proof (cases "child_rel parent_rel name")
    case (Inl e)
    with r Some show ?thesis by (auto simp: route_new_entry_def)
  next
    case (Inr rel)
    let ?p = "session_policy_for_request sys req s"
    obtain found s1 where routed: "route sys ?p rel Write s = (found, s1)" by (cases "route sys ?p rel Write s")
    have here: "calls_within P s s1" for P using route_within [OF routed] .
    show ?thesis
    proof (cases found)
      case None
      with r Some Inr routed here show ?thesis by (auto simp: route_new_entry_def Let_def)
    next
      case found: (Some b)
      let ?b = "refresh_overlay sys b"
      obtain failed s2 where parent: "ensure_parent_for_backend sys ?p ?b s1 = (failed, s2)"
        by (cases "ensure_parent_for_backend sys ?p ?b s1")
      have paths: "new_entry_paths sys req ino name s =
          (if bp_read_only b then {} else insert (bp_path ?b) (set_option (path_parent (bp_path ?b))))"
        by (simp add: new_entry_paths_def new_entry_backend_def Some Inr routed found)
      have "route_new_entry sys req ino name s =
          (if bp_read_only b then (Inl EROFS, s1)
           else (case failed of Some e \<Rightarrow> (Inl e, s2) | None \<Rightarrow> (Inr (?p, rel, ?b), s2)))"
        by (simp add: route_new_entry_def Some Inr Let_def routed found parent)
      with r have out: "(r, t) = (if bp_read_only b then (Inl EROFS, s1)
           else (case failed of Some e \<Rightarrow> (Inl e, s2) | None \<Rightarrow> (Inr (?p, rel, ?b), s2)))" by simp
      have "calls_within (new_entry_paths sys req ino name s) s s2" if "\<not> bp_read_only b"
        using calls_within_trans [OF here calls_within_mono [OF ensure_parent_within [OF parent]]] that paths by auto
      with out here paths show ?thesis by (auto split: if_splits option.splits)
    qed
  qed
qed

lemma reply_entry_within: "reply_entry_for_rel sys uid p rel s = (r, t) \<Longrightarrow> calls_within P s t"
proof -
  have miss: "calls_within P s t" if "system_reader_policy_on_miss sys uid rel s = (q, t)" for rel s q t
    using that by (auto simp: system_reader_policy_on_miss_def split: if_splits option.splits prod.splits dest: route_within)
  have found: "calls_within P s t" if "backend_for_relative_with_system_reader sys uid p rel s = (q, t)" for p rel s q t
    using that by (auto simp: backend_for_relative_with_system_reader_def split: option.splits prod.splits
        intro: route_within) (meson calls_within_trans route_within miss)+
  show "reply_entry_for_rel sys uid p rel s = (r, t) \<Longrightarrow> calls_within P s t"
    by (auto simp: reply_entry_for_rel_def Let_def split: option.splits prod.splits sum.splits dest!: found)
qed

lemma enter_created_within: "enter_created p rel s = (ino, t) \<Longrightarrow> calls_within P s t"
  by (auto simp: enter_created_def with_fs_def Let_def intro: calls_within_same split: prod.splits)

lemma open_session_file_within: "open_session_file f s = (fh, t) \<Longrightarrow> calls_within P s t"
  by (auto simp: open_session_file_def split: prod.splits)

lemma register_backing_within: "register_backing sys p rel fd fh s = (b, t) \<Longrightarrow> calls_within P s t"
  by (auto simp: register_backing_def set_backing_def call_def calls_within_def with_fs_def
      split: if_splits sum.splits option.splits)

section \<open>The handlers that create\<close>

lemma symlink_within:
  assumes h: "symlink sys req ino name target s = (r, t)"
  shows "calls_within (new_entry_paths sys req ino name s) s t"
proof (cases "route_new_entry sys req ino name s")
  case (Pair routed s1)
  let ?P = "new_entry_paths sys req ino name s"
  note routing = route_new_entry_within [OF Pair]
  show ?thesis
  proof (cases routed)
    case (Inr found)
    obtain p rel b where found: "found = (p, rel, b)" by (cases found)
    then have path: "bp_path b \<in> ?P" using routing Inr by blast
    obtain made s2 where made: "call sys (MakeSymlink target (bp_path b)) s1 = (made, s2)"
      by (cases "call sys (MakeSymlink target (bp_path b)) s1")
    obtain md s3 where md: "apply_create_metadata sys (bp_path b) (metadata_of_request sys req p b 0x1FF False) s2 = (md, s3)"
      by (cases "apply_create_metadata sys (bp_path b) (metadata_of_request sys req p b 0x1FF False) s2")
    obtain i s4 where e: "enter_created p rel s3 = (i, s4)" by (cases "enter_created p rel s3")
    have s1: "calls_within ?P s s1" using routing by simp
    also have "calls_within ?P s1 s2" using call_within [OF made] path by simp
    finally have s2: "calls_within ?P s s2" .
    also have "calls_within ?P s2 s3" using md path by (rule apply_create_metadata_within)
    finally have s3: "calls_within ?P s s3" .
    have s4: "calls_within ?P s s4" using calls_within_trans [OF s3 enter_created_within [OF e]] .
    show ?thesis
      using h s1 s2 s3 s4
      by (auto simp: symlink_def Pair Inr found made md e Let_def simp del: One_nat_def
          split: if_splits sum.splits option.splits)
  qed (use h routing in \<open>simp add: symlink_def Pair\<close>)
qed

lemma open_backend_file_within: "open_backend_file sys path flags mode s = (r, t) \<Longrightarrow> path \<in> P \<Longrightarrow> calls_within P s t"
  by (auto simp: open_backend_file_def split: if_splits intro: call_within)

lemma mknod_within:
  assumes h: "mknod sys req ino name mode umask s = (r, t)"
  shows "calls_within (new_entry_paths sys req ino name s) s t"
proof (cases "route_new_entry sys req ino name s")
  case (Pair routed s1)
  let ?P = "new_entry_paths sys req ino name s"
  note routing = route_new_entry_within [OF Pair]
  show ?thesis
  proof (cases routed)
    case (Inr found)
    obtain p rel b where found: "found = (p, rel, b)" by (cases found)
    then have path: "bp_path b \<in> ?P" using routing Inr by blast
    define m where "m = mode AND NOT 0xF000 AND NOT umask"
    obtain made s2 where made: "open_backend_file sys (bp_path b) (O_WRONLY OR O_CREAT OR O_EXCL) m s1 = (made, s2)"
      by (cases "open_backend_file sys (bp_path b) (O_WRONLY OR O_CREAT OR O_EXCL) m s1")
    obtain md s3 where md: "apply_create_metadata sys (bp_path b) (metadata_of_request sys req p b m False) s2 = (md, s3)"
      by (cases "apply_create_metadata sys (bp_path b) (metadata_of_request sys req p b m False) s2")
    obtain i s4 where e: "enter_created p rel s3 = (i, s4)" by (cases "enter_created p rel s3")
    have s1: "calls_within ?P s s1" using routing by simp
    also have "calls_within ?P s1 s2" using open_backend_file_within [OF made] path by simp
    finally have s2: "calls_within ?P s s2" .
    also have "calls_within ?P s2 s3" using md path by (rule apply_create_metadata_within)
    finally have s3: "calls_within ?P s s3" .
    have s4: "calls_within ?P s s4" using calls_within_trans [OF s3 enter_created_within [OF e]] .
    have m': "mode AND - 61441 AND NOT umask = m" by (simp add: m_def)
    show ?thesis
      using h s1 s2 s3 s4
      by (auto simp: mknod_def Pair Inr found made md e Let_def m' simp del: One_nat_def
          split: if_splits sum.splits option.splits)
  qed (use h routing in \<open>auto simp: mknod_def Pair Let_def split: if_splits\<close>)
qed

lemma mkdir_within:
  assumes h: "mkdir sys later req ino name mode umask s = (r, t)"
  shows "calls_within (new_entry_paths sys req ino name s) s t"
proof (cases "route_new_entry sys req ino name s")
  case (Pair routed s1)
  let ?P = "new_entry_paths sys req ino name s"
  note routing = route_new_entry_within [OF Pair]
  show ?thesis
  proof (cases routed)
    case (Inr found)
    obtain p rel b where found: "found = (p, rel, b)" by (cases found)
    then have path: "bp_path b \<in> ?P" using routing Inr by blast
    let ?m = "metadata_of_request sys req p b (mode AND NOT umask) True"
    obtain made s2 where made: "call sys (MakeDir (bp_path b)) s1 = (made, s2)"
      by (cases "call sys (MakeDir (bp_path b)) s1")
    obtain md s3 where md: "apply_create_metadata sys (bp_path b) ?m s2 = (md, s3)"
      by (cases "apply_create_metadata sys (bp_path b) ?m s2")
    have s1: "calls_within ?P s s1" using routing by simp
    also have "calls_within ?P s1 s2" using call_within [OF made] path by simp
    finally have s2: "calls_within ?P s s2" .
    also have "calls_within ?P s2 s3" using md path by (rule apply_create_metadata_within)
    finally have s3: "calls_within ?P s s3" .
    then have "calls_within ?P s (with_fs clear_dir_candidate_cache s3)" by simp
    then have "calls_within ?P s t"
      if "reply_entry_for_rel later (rq_uid req) p rel (with_fs clear_dir_candidate_cache s3) = (r, t)"
      using reply_entry_within [OF that] calls_within_trans by blast
    then show ?thesis
      using h s1 s2 s3
      by (auto simp: mkdir_def Pair Inr found made md split: sum.splits option.splits)
  qed (use h routing in \<open>simp add: mkdir_def Pair\<close>)
qed

lemma create_within:
  assumes h: "create sys dup req ino name mode umask flags s = (r, t)"
  shows "calls_within (new_entry_paths sys req ino name s) s t"
proof (cases "route_new_entry sys req ino name s")
  case (Pair routed s1)
  let ?P = "new_entry_paths sys req ino name s"
  note routing = route_new_entry_within [OF Pair]
  show ?thesis
  proof (cases routed)
    case (Inr found)
    obtain p rel b where found: "found = (p, rel, b)" by (cases found)
    then have path: "bp_path b \<in> ?P" using routing Inr by blast
    define m where "m = mode AND NOT umask"
    obtain made s2 where made: "open_backend_file sys (bp_path b) (flags OR O_CREAT OR O_CLOEXEC) m s1 = (made, s2)"
      by (cases "open_backend_file sys (bp_path b) (flags OR O_CREAT OR O_CLOEXEC) m s1")
    obtain md s3 where md: "apply_create_metadata sys (bp_path b) (metadata_of_request sys req p b m False) s2 = (md, s3)"
      by (cases "apply_create_metadata sys (bp_path b) (metadata_of_request sys req p b m False) s2")
    obtain i s4 where e: "enter_created p rel s3 = (i, s4)" by (cases "enter_created p rel s3")
    have s1: "calls_within ?P s s1" using routing by simp
    also have "calls_within ?P s1 s2" using open_backend_file_within [OF made] path by simp
    finally have s2: "calls_within ?P s s2" .
    also have "calls_within ?P s2 s3" using md path by (rule apply_create_metadata_within)
    finally have s3: "calls_within ?P s s3" .
    have s4: "calls_within ?P s s4" using calls_within_trans [OF s3 enter_created_within [OF e]] .
    have s5: "calls_within ?P s t" if "open_session_file f s4 = (fh, s5)"
      "register_backing sys p rel' fd fh (with_fs clear_dir_candidate_cache s5) = (bk, t)" for f fh s5 rel' fd bk
      using calls_within_trans [OF calls_within_trans [OF s4 open_session_file_within [OF that(1)]],
          of "with_fs clear_dir_candidate_cache s5"] register_backing_within [OF that(2)] calls_within_trans by fastforce
    show ?thesis
      using h s1 s2 s3 s4 s5
      by (auto simp: create_def Pair Inr found made md e Let_def m_def [symmetric] simp del: One_nat_def
          split: sum.splits option.splits prod.splits)
  qed (use h routing in \<open>auto simp: create_def Pair Let_def\<close>)
qed

section \<open>Opening a directory ends\<close>

text \<open>A round in which nobody renames the directory is the last one.\<close>

lemma opendir_loop_ends:
  assumes "k < n" "path_for_ino ino (se_fs s) = Some rel" "path_version ino (se_fs s) = version"
    and still: "\<And>u. path_for_ino ino (se_fs (between k u)) = path_for_ino ino (se_fs u)
      \<and> path_version ino (se_fs (between k u)) = path_version ino (se_fs u)"
  shows "\<exists>r t. opendir_loop n sys csize ssize between p ino rel version s = Some (r, t)"
  using assms(1-3)
proof (induction n arbitrary: rel version s)
  case (Suc n)
  obtain c s1 where collect: "opendir_collect sys p rel s = (c, s1)" by (cases "opendir_collect sys p rel s")
  note same = opendir_collect_fs [OF collect]
  show ?case
  proof (cases c)
    case (Inr found)
    obtain cs srcs where found: "found = (cs, srcs)" by (cases found)
    let ?s = "between n s1"
    obtain result u where commit: "opendir_commit sys csize ssize ino rel version cs srcs (se_fs ?s) = (result, u)"
      by (cases "opendir_commit sys csize ssize ino rel version cs srcs (se_fs ?s)")
    show ?thesis
    proof (cases result)
      case (Moved rel' version')
      then have now: "u = se_fs ?s" "path_for_ino ino u = Some rel'" "path_version ino u = version'"
        "rel' \<noteq> rel \<or> version' \<noteq> version"
        using commit by (auto simp: opendir_commit_def Let_def split: option.splits if_splits prod.splits)
      have "n \<noteq> k"
      proof
        assume "n = k"
        then have "path_for_ino ino u = Some rel" "path_version ino u = version"
          using still [of s1] now(1) Suc.prems(2,3) same by simp_all
        with now show False by auto
      qed
      with Suc.prems(1) have "k < n" by simp
      from Suc.IH [OF this, of "?s\<lparr>se_fs := u\<rparr>" rel' version'] now
      show ?thesis by (simp add: collect Inr found commit Moved Let_def)
    qed (simp_all add: collect Inr found commit Let_def)
  qed (simp add: collect)
qed simp

section \<open>Examples\<close>

text \<open>The session of the example when the kernel knows one more inode.\<close>

definition opened_session :: "redirect_policy \<Rightarrow> bytes \<Rightarrow> session" where
  "opened_session p rel = (example_session p)\<lparr>se_fs := (fuse_state_new False None)
     \<lparr>fs_next_ino := 3, fs_inodes := [([], 1), (rel, 2)], fs_paths_by_inode := [(1, []), (2, rel)]\<rparr>\<rparr>"

lemma opened_session_paths [simp]:
  "path_for_ino 2 (se_fs (opened_session p rel)) = Some rel" "path_for_ino 1 (se_fs (opened_session p rel)) = Some []"
  "se_calls (opened_session p rel) = []" "fs_inode_backends (se_fs (opened_session p rel)) = []"
  "fs_inode_policy_uids (se_fs (opened_session p rel)) = []" "se_handoffs (opened_session p rel) = []"
  "pt_by_uid (se_table (opened_session p rel)) = [(10123, p)]"
  by (simp_all add: opened_session_def example_session_def path_for_ino_def fuse_state_new_def case_prod_beta Let_def)

lemma example_system_simps [simp]:
  "sy_world example_system = example_world" "sy_answer example_system c = Inr 7"
  by (simp_all add: example_system_def)

lemma opened_session_policies [simp]:
  "session_policy_for_request example_system example_request (opened_session p rel) = p"
  "policy_for_read_request example_system example_request i r (opened_session p rel) = p"
  by (simp_all add: opened_session_def example_policies)

text \<open>The application has a directory it may only read, and one it has a sandbox for.\<close>

definition guarded_policy :: redirect_policy where
  "guarded_policy = (example_policy [])\<lparr>
     po_all_literal_rule_paths := [''/storage/emulated/0/DCIM'', ''/storage/emulated/0/Chat''],
     po_read_only_paths := [''/storage/emulated/0/DCIM''],
     po_read_only_index := RuleIndex_new [''/storage/emulated/0/DCIM''],
     po_sandboxed_index := RuleIndex_new [''/storage/emulated/0/Chat'']\<rparr>"

definition open_policy_example :: redirect_policy where
  "open_policy_example = (example_policy [])\<lparr>po_is_mapping_mode_only := True\<rparr>"

lemmas example_eval = example_session_eval opened_session_def

lemma guarded_routes:
  "map_option (\<lambda>b. (bp_path b, bp_read_only b)) (fst (resolve_relative example_world [(10123, guarded_policy)]
     guarded_policy ''0/DCIM/a'' Read [])) = Some (''/data/media/0/DCIM/a'', True)"
  "map_option bp_read_only (fst (resolve_relative example_world [(10123, guarded_policy)]
     guarded_policy ''0/DCIM/a'' Write [])) = Some True"
  by code_simp+

text \<open>A system whose disk is full.\<close>

definition full_disk :: system where
  "full_disk = example_system\<lparr>sy_answer := \<lambda>_. Inl (Errno 28)\<rparr>"

lemma full_disk_answer: "sy_answer full_disk c = Inl (Errno 28)"
  by (simp add: full_disk_def)

lemma full_disk_world: "sy_world full_disk = example_world"
  by (simp add: full_disk_def)

section \<open>Properties\<close>

text \<open>Requests that make an entry, with the directory and the name.\<close>

fun creates_at :: "fuse_op \<Rightarrow> (nat \<times> bytes) option" where
  "creates_at (OpSymlink ino name _) = Some (ino, name)"
| "creates_at (OpCreate ino name _ _ _) = Some (ino, name)"
| "creates_at (OpMknod ino name _ _) = Some (ino, name)"
| "creates_at (OpMkdir ino name _ _) = Some (ino, name)"
| "creates_at _ = None"



text \<open>A request whose target the policy routes to a read-only back end.\<close>

definition removes_read_only :: "system \<Rightarrow> request \<Rightarrow> nat \<Rightarrow> bytes \<Rightarrow> session \<Rightarrow> bool" where
  "removes_read_only sys req ino name s \<longleftrightarrow>
     (\<exists>p rel b. path_for_ino ino (se_fs s) = Some p \<and> child_rel p name = Inr rel
       \<and> fst (route sys (session_policy_for_request sys req s) rel Read s) = Some b \<and> bp_read_only b)"

definition hits_read_only :: "system \<Rightarrow> request \<Rightarrow> fuse_op \<Rightarrow> session \<Rightarrow> bool" where
  "hits_read_only sys req op s \<longleftrightarrow>
     (case op of
        OpUnlink ino name \<Rightarrow> removes_read_only sys req ino name s
      | OpRmdir ino name \<Rightarrow> removes_read_only sys req ino name s
      | OpRename ino name new_ino new_name flags \<Rightarrow>
          flags AND NOT RENAME_NOREPLACE = 0
          \<and> (\<exists>old new b b'. rename_paths ino name new_ino new_name (se_fs s) = Some (old, new)
            \<and> fst (route sys (session_policy_for_request sys req s) old Write s) = Some b
            \<and> fst (route sys (session_policy_for_request sys req s) new Write
                 (snd (route sys (session_policy_for_request sys req s) old Write s))) = Some b'
            \<and> (bp_read_only b \<or> bp_read_only b'))
      | OpOpen ino flags \<Rightarrow>
          (open_flags_write flags \<or> open_flags_create flags)
          \<and> (\<exists>b. fst (backend_for_ino sys (session_policy_for_request sys req s) ino s) = Inr b \<and> bp_read_only b)
      | OpSetattr ino c \<Rightarrow>
          \<not> ac_empty c
          \<and> (\<exists>b. fst (backend_for_ino sys (case inode_owner_policy_for_fd_stat ino (rq_uid req) s of
               Some p \<Rightarrow> p | None \<Rightarrow> session_policy_for_request sys req s) ino s) = Inr b \<and> bp_read_only b)
      | OpWrite ino fh offset data \<Rightarrow> (\<exists>f. map_of (fs_files (se_fs s)) fh = Some f \<and> of_read_only f)
      | _ \<Rightarrow>
          (case op of OpMknod ino name mode umask \<Rightarrow> mode AND 0xF000 = 0 \<or> mode AND 0xF000 = 0x8000 | _ \<Rightarrow> True)
          \<and> (case creates_at op of
               Some (ino, name) \<Rightarrow> (\<exists>b. new_entry_backend sys req ino name s = Some b \<and> bp_read_only b)
             | None \<Rightarrow> False))"

lemma route_new_entry_refuses:
  assumes "new_entry_backend sys req ino name s = Some b" "bp_read_only b"
  shows "\<exists>t. route_new_entry sys req ino name s = (Inl EROFS, t) \<and> se_calls t = se_calls s \<and> se_fs t = se_fs s"
  using assms
  by (auto simp: new_entry_backend_def route_new_entry_def route_def Let_def split: option.splits sum.splits prod.splits)

lemma route_quiet:
  "se_calls (snd (route sys p rel operation s)) = se_calls s" "se_fs (snd (route sys p rel operation s)) = se_fs s"
  by (simp_all add: route_def case_prod_beta)

lemma backend_for_ino_calls: "se_calls (snd (backend_for_ino sys p ino s)) = se_calls s"
  by (auto simp: backend_for_ino_def route_def case_prod_beta split: option.split)

lemma remove_refuses:
  assumes "removes_read_only sys req ino name s"
    and "remove_child sys (session_policy_for_request sys req s) ino name is_dir s = (r, t)"
  shows "r = ReplyError EROFS \<and> se_calls t = se_calls s \<and> se_fs t = se_fs s"
proof -
  from assms(1) obtain p rel b where h: "path_for_ino ino (se_fs s) = Some p" "child_rel p name = Inr rel"
    "fst (route sys (session_policy_for_request sys req s) rel Read s) = Some b" "bp_read_only b"
    unfolding removes_read_only_def by blast
  obtain s1 where "route sys (session_policy_for_request sys req s) rel Read s = (Some b, s1)"
    using h(3) by (cases "route sys (session_policy_for_request sys req s) rel Read s") auto
  with assms(2) h route_quiet [of sys "session_policy_for_request sys req s" rel Read s]
  show ?thesis by (auto simp: remove_child_def)
qed

lemma rename_refuses:
  assumes "flags AND NOT RENAME_NOREPLACE = 0" "rename_paths ino name new_ino new_name (se_fs s) = Some (old, new)"
    "fst (route sys p old Write s) = Some b" "fst (route sys p new Write (snd (route sys p old Write s))) = Some b'"
    "bp_read_only b \<or> bp_read_only b'" "p = session_policy_for_request sys req s"
    and "rename sys later req ino name new_ino new_name flags s = (r, t)"
  shows "r = ReplyError EROFS \<and> se_calls t = se_calls s \<and> se_fs t = se_fs s"
proof -
  obtain s1 where s1: "route sys p old Write s = (Some b, s1)" using assms(3) by (cases "route sys p old Write s") auto
  obtain s2 where s2: "route sys p new Write s1 = (Some b', s2)"
    using assms(4) s1 by (cases "route sys p new Write s1") auto
  have "se_calls s2 = se_calls s \<and> se_fs s2 = se_fs s"
    using route_quiet [of sys p old Write s] route_quiet [of sys p new Write s1] s1 s2 by simp
  moreover have "r = ReplyError EROFS \<and> t = s2"
    using assms s1 s2
    by (auto simp: rename_def rename_paths_def Let_def split: option.splits sum.splits)
  ultimately show ?thesis by simp
qed

lemma open_refuses:
  assumes "open_flags_write flags \<or> open_flags_create flags"
    "fst (backend_for_ino sys (session_policy_for_request sys req s) ino s) = Inr b" "bp_read_only b"
    "open_inode sys dup req ino flags s = (r, t)"
  shows "r = ReplyError EROFS \<and> se_calls t = se_calls s \<and> se_fs t = se_fs s"
proof -
  obtain s1 where s1: "backend_for_ino sys (session_policy_for_request sys req s) ino s = (Inr b, s1)"
    using assms(2) by (cases "backend_for_ino sys (session_policy_for_request sys req s) ino s") auto
  have "r = ReplyError EROFS \<and> t = s1"
    using assms s1 by (auto simp: open_inode_eq open_policy_def)
  then show ?thesis
    using backend_for_ino_calls [of sys "session_policy_for_request sys req s" ino s] backend_for_ino_fs [OF s1] s1 by simp
qed

lemma setattr_refuses:
  assumes "\<not> ac_empty c" "fst (backend_for_ino sys (case inode_owner_policy_for_fd_stat ino (rq_uid req) s of
      Some p \<Rightarrow> p | None \<Rightarrow> session_policy_for_request sys req s) ino s) = Inr b" "bp_read_only b"
    "setattr sys later req ino c s = (r, t)"
  shows "r = ReplyError EROFS \<and> se_calls t = se_calls s \<and> se_fs t = se_fs s"
proof -
  define p where "p = (case inode_owner_policy_for_fd_stat ino (rq_uid req) s of
      Some p \<Rightarrow> p | None \<Rightarrow> session_policy_for_request sys req s)"
  obtain s1 where s1: "backend_for_ino sys p ino s = (Inr b, s1)"
    using assms(2) by (cases "backend_for_ino sys p ino s") (auto simp: p_def)
  have "r = ReplyError EROFS \<and> t = s1"
    using assms(4) unfolding setattr_def Let_def p_def [symmetric] s1 by (simp add: assms(1,3))
  then show ?thesis
    using backend_for_ino_calls [of sys p ino s] backend_for_ino_fs [OF s1] s1 by simp
qed

lemma create_refuses:
  assumes "creates_at op = Some (ino, name)" "new_entry_backend (sv_sys sv) req ino name s = Some b" "bp_read_only b"
    "case op of OpMknod ino name mode umask \<Rightarrow> mode AND 0xF000 = 0 \<or> mode AND 0xF000 = 0x8000 | _ \<Rightarrow> True"
    "perform sv req op s = Some (r, t)"
  shows "r = ReplyError EROFS \<and> se_calls t = se_calls s \<and> se_fs t = se_fs s"
proof -
  obtain u where "route_new_entry (sv_sys sv) req ino name s = (Inl EROFS, u)" "se_calls u = se_calls s" "se_fs u = se_fs s"
    using route_new_entry_refuses [OF assms(2,3)] by blast
  with assms(1,4,5) show ?thesis
    by (cases op) (auto simp: symlink_def create_def mknod_def mkdir_def Let_def)
qed

lemma removal_refuses:
  assumes "hits_read_only (sv_sys sv) req op s" "perform sv req op s = Some (r, t)"
    "case op of OpUnlink _ _ \<Rightarrow> True | OpRmdir _ _ \<Rightarrow> True | OpRename _ _ _ _ _ \<Rightarrow> True | _ \<Rightarrow> False"
  shows "r = ReplyError EROFS \<and> se_calls t = se_calls s \<and> se_fs t = se_fs s"
proof (cases op)
  case (OpUnlink ino name)
  with assms show ?thesis by (auto simp: hits_read_only_def unlink_def dest: remove_refuses)
next
  case (OpRmdir ino name)
  with assms show ?thesis by (auto simp: hits_read_only_def rmdir_def dest: remove_refuses)
next
  case (OpRename ino name new_ino new_name flags)
  with assms(1) obtain old new b b' where "flags AND NOT RENAME_NOREPLACE = 0"
    "rename_paths ino name new_ino new_name (se_fs s) = Some (old, new)"
    "fst (route (sv_sys sv) (session_policy_for_request (sv_sys sv) req s) old Write s) = Some b"
    "fst (route (sv_sys sv) (session_policy_for_request (sv_sys sv) req s) new Write
       (snd (route (sv_sys sv) (session_policy_for_request (sv_sys sv) req s) old Write s))) = Some b'"
    "bp_read_only b \<or> bp_read_only b'"
    unfolding hits_read_only_def by auto
  from rename_refuses [OF this refl] assms(2) OpRename show ?thesis by simp
qed (use assms(3) in simp_all)

lemma update_refuses:
  assumes "hits_read_only (sv_sys sv) req op s" "perform sv req op s = Some (r, t)"
    "case op of OpOpen _ _ \<Rightarrow> True | OpSetattr _ _ \<Rightarrow> True | OpWrite _ _ _ _ \<Rightarrow> True | _ \<Rightarrow> False"
  shows "r = ReplyError EROFS \<and> se_calls t = se_calls s \<and> se_fs t = se_fs s"
proof (cases op)
  case (OpOpen ino flags)
  with assms(1) obtain b where "open_flags_write flags \<or> open_flags_create flags"
    "fst (backend_for_ino (sv_sys sv) (session_policy_for_request (sv_sys sv) req s) ino s) = Inr b" "bp_read_only b"
    unfolding hits_read_only_def by auto
  from open_refuses [OF this] assms(2) OpOpen show ?thesis by simp
next
  case (OpSetattr ino c)
  with assms(1) obtain b where "\<not> ac_empty c"
    "fst (backend_for_ino (sv_sys sv) (case inode_owner_policy_for_fd_stat ino (rq_uid req) s of
       Some p \<Rightarrow> p | None \<Rightarrow> session_policy_for_request (sv_sys sv) req s) ino s) = Inr b" "bp_read_only b"
    unfolding hits_read_only_def by auto
  from setattr_refuses [OF this] assms(2) OpSetattr show ?thesis by simp
next
  case (OpWrite ino fh offset data)
  with assms route_quiet show ?thesis
    by (auto simp: hits_read_only_def write_handle_def Let_def snd_route_fs)
qed (use assms(3) in simp_all)



text \<open>
  (C38) \<^verbatim>\<open>opendir\<close> answers, however other requests rename the directory while it is being read: one round in
  which the directory keeps its path is enough, and until then every round is a fresh attempt at its new path.
\<close>

theorem opendir_ends:
  assumes "k < n"
    and "\<And>u. path_for_ino ino (se_fs (between k u)) = path_for_ino ino (se_fs u)
      \<and> path_version ino (se_fs (between k u)) = path_version ino (se_fs u)"
  shows "\<exists>r t. opendir n sys csize ssize between req ino s = Some (r, t)"
proof (cases "path_for_ino ino (se_fs s)")
  case None
  then show ?thesis by (simp add: opendir_def Let_def)
next
  case (Some rel)
  obtain reader s1 where reader: "system_reader_policy_on_miss sys (rq_uid req) rel s = (reader, s1)"
    by (cases "system_reader_policy_on_miss sys (rq_uid req) rel s")
  have "path_for_ino ino (se_fs s1) = Some rel" "path_version ino (se_fs s1) = path_version ino (se_fs s)"
    using reader_policy_on_miss_fs [OF reader] Some by simp_all
  then have "\<exists>r t. opendir_loop n sys csize ssize between p ino rel (path_version ino (se_fs s)) s1 = Some (r, t)" for p
    by (intro opendir_loop_ends [of k]) (use assms in blast)+
  then show ?thesis
    unfolding opendir_def Let_def Some reader option.case prod.case by (auto split: prod.split)
qed

theorem opendir_ends_witness:
  "\<exists>r t. opendir 2 example_system 64 64 (\<lambda>k. if k = 1 then with_fs (remap_inode_path ''0'' ''1'') else id)
     example_request 2 (opened_session (example_policy []) ''0'') = Some (r, t)"
  by (rule opendir_ends [of 0]) simp_all

lemma calls_kept: "calls_within P s t \<Longrightarrow> c \<in> set (se_calls s) \<Longrightarrow> c \<in> set (se_calls t)"
  by (auto simp: calls_within_def)

lemma open_for_writing:
  assumes "path_for_ino ino (se_fs s) = Some rel" "map_of (fs_inode_backends (se_fs s)) ino = None"
    and "resolve_relative (sy_world sys) (pt_by_uid (se_table s)) p rel Read (se_handoffs s) = (Some b, h)"
    and "session_policy_for_request sys req s = p" "\<not> bp_read_only b" "\<not> has_nul (bp_path b)"
    and "\<not> should_heal_media_sqlite_shm_rel p (bp_rel b)" "open_flags_write flags"
    and "open_inode sys dup req ino flags s = (r, t)"
  shows "OpenFile (bp_path b) (backend_open_flags ((flags OR O_CLOEXEC) AND NOT O_CREAT)) 0 \<in> set (se_calls t)"
proof -
  let ?c = "OpenFile (bp_path b) (backend_open_flags ((flags OR O_CLOEXEC) AND NOT O_CREAT)) 0"
  let ?s = "s\<lparr>se_handoffs := h\<rparr>" let ?s1 = "?s\<lparr>se_calls := se_calls s @ [?c]\<rparr>"
  have b: "backend_for_ino sys p ino s = (Inr b, ?s)"
    using assms(1-3) by (simp add: backend_for_ino_def remembered_backend_def route_def)
  have o: "open_backend_file sys (bp_path b) ((flags OR O_CLOEXEC) AND NOT O_CREAT) 0 ?s = (sy_answer sys ?c, ?s1)"
    using assms(6) by (simp add: open_backend_file_def call_def)
  have kept: "?c \<in> set (se_calls t)" if "open_session_file f ?s1 = (fh, s2)" "register_backing sys p rel' fd fh s2 = (bk, t)"
    for f fh s2 rel' fd bk
    by (rule calls_kept [OF calls_within_trans [OF open_session_file_within [OF that(1)] register_backing_within [OF that(2)]]])
      simp
  show ?thesis
    using assms(9) kept
    by (auto simp: open_inode_eq open_policy_def assms(4,5,7,8) b open_healed_def o split: sum.splits prod.splits)
qed

section \<open>Where writes are routed like reads\<close>

text \<open>
  Opening for writing, removing and changing attributes route their path as a read. So the checks that a
  write gets are not made, and what is meant to help readers applies to writers.
\<close>

definition without_sandbox_copy :: system where
  "without_sandbox_copy = example_system\<lparr>sy_world := example_world\<lparr>fw_exists := \<lambda>_. False\<rparr>\<rparr>"

text \<open>
  A directory of the storage root the application may not write to: creating a file in it is refused, but a
  file that is there can be opened for writing and removed.
\<close>

theorem existing_file_skips_write_gate:
  assumes "open_inode example_system dup example_request 2 O_WRONLY (opened_session open_policy_example ''0/tencent/a'') = (r, t)"
    and "unlink example_system example_request 2 ''a'' (opened_session open_policy_example ''0/tencent'') = (r', t')"
  shows "new_entry_backend example_system example_request 2 ''a'' (opened_session open_policy_example ''0/tencent'') = None"
    "\<exists>flags. OpenFile ''/data/media/0/tencent/a'' flags 0 \<in> set (se_calls t)"
    "RemoveFile ''/data/media/0/tencent/a'' \<in> set (se_calls t')"
proof -
  let ?s = "opened_session open_policy_example ''0/tencent''"
  have w: "fst (resolve_relative example_world [(10123, open_policy_example)] open_policy_example ''0/tencent/a'' Write []) = None"
    by code_simp
  define x where "x = resolve_relative example_world [(10123, open_policy_example)] open_policy_example ''0/tencent/a'' Read []"
  have "map_option (\<lambda>b. (bp_path b, bp_read_only b, bp_rel b)) (fst x) = Some (''/data/media/0/tencent/a'', False, ''tencent/a'')"
    unfolding x_def by code_simp
  then obtain b h where x: "x = (Some b, h)" "bp_path b = ''/data/media/0/tencent/a''" "\<not> bp_read_only b" "bp_rel b = ''tencent/a''"
    by (cases x) auto
  have child: "child_rel ''0/tencent'' ''a'' = Inr ''0/tencent/a''" by code_simp
  show "new_entry_backend example_system example_request 2 ''a'' ?s = None"
    using w by (simp add: new_entry_backend_def child route_def case_prod_beta)
  have "\<not> has_nul (bp_path b)" unfolding x(2) by code_simp
  moreover have "\<not> should_heal_media_sqlite_shm_rel open_policy_example (bp_rel b)" unfolding x(4) by code_simp
  moreover have "open_flags_write O_WRONLY" by (simp add: open_flags_write_def open_flag_values)
  ultimately have "OpenFile (bp_path b) (backend_open_flags ((O_WRONLY OR O_CLOEXEC) AND NOT O_CREAT)) 0 \<in> set (se_calls t)"
    by (intro open_for_writing [OF _ _ _ _ x(3) _ _ _ assms(1)])
      (use x(1) in \<open>simp_all add: x_def\<close>)
  then show "\<exists>flags. OpenFile ''/data/media/0/tencent/a'' flags 0 \<in> set (se_calls t)" using x(2) by auto
  show "RemoveFile ''/data/media/0/tencent/a'' \<in> set (se_calls t')"
    using assms(2) x by (auto simp: unlink_def remove_child_def child route_def x_def call_def with_fs_def)
qed

text \<open>
  A file of a sandboxed directory that the sandbox has no copy of: a write is routed to the sandbox, but
  opening it for writing opens the real file, because the fallback for readers is taken.
\<close>

theorem sandboxed_open_writes_real_file:
  assumes "open_inode without_sandbox_copy dup example_request 2 O_WRONLY (opened_session guarded_policy ''0/Chat/a'') = (r, t)"
  shows "map_option bp_path (fst (route without_sandbox_copy guarded_policy ''0/Chat/a'' Write (opened_session guarded_policy ''0/Chat/a'')))
      = Some ''/data/media/0/Android/data/com.a/sdcard/Chat/a''"
    "\<exists>flags. OpenFile ''/data/media/0/Chat/a'' flags 0 \<in> set (se_calls t)"
proof -
  let ?s = "opened_session guarded_policy ''0/Chat/a''" and ?w = "example_world\<lparr>fw_exists := \<lambda>_. False\<rparr>"
  have w: "map_option bp_path (fst (resolve_relative ?w [(10123, guarded_policy)] guarded_policy ''0/Chat/a'' Write []))
      = Some ''/data/media/0/Android/data/com.a/sdcard/Chat/a''"
    by code_simp
  have world: "sy_world without_sandbox_copy = ?w" "session_policy_for_request without_sandbox_copy example_request ?s = guarded_policy"
    using opened_session_policies(1) [of guarded_policy "''0/Chat/a''"]
    by (simp_all add: without_sandbox_copy_def session_policy_for_request_def policy_for_request_def example_eval)
  show "map_option bp_path (fst (route without_sandbox_copy guarded_policy ''0/Chat/a'' Write ?s))
      = Some ''/data/media/0/Android/data/com.a/sdcard/Chat/a''"
    using w by (simp add: route_def case_prod_beta world)
  define x where "x = resolve_relative ?w [(10123, guarded_policy)] guarded_policy ''0/Chat/a'' Read []"
  have "map_option (\<lambda>b. (bp_path b, bp_read_only b, bp_rel b)) (fst x) = Some (''/data/media/0/Chat/a'', False, ''Chat/a'')"
    unfolding x_def by code_simp
  then obtain b h where x: "x = (Some b, h)" "bp_path b = ''/data/media/0/Chat/a''" "\<not> bp_read_only b" "bp_rel b = ''Chat/a''"
    by (cases x) auto
  have "\<not> has_nul (bp_path b)" unfolding x(2) by code_simp
  moreover have "\<not> should_heal_media_sqlite_shm_rel guarded_policy (bp_rel b)" unfolding x(4) by code_simp
  moreover have "open_flags_write O_WRONLY" by (simp add: open_flags_write_def open_flag_values)
  ultimately have "OpenFile (bp_path b) (backend_open_flags ((O_WRONLY OR O_CLOEXEC) AND NOT O_CREAT)) 0 \<in> set (se_calls t)"
    by (intro open_for_writing [OF _ _ _ _ x(3) _ _ _ assms(1)])
      (use x(1) in \<open>simp_all add: x_def world\<close>)
  then show "\<exists>flags. OpenFile ''/data/media/0/Chat/a'' flags 0 \<in> set (se_calls t)" using x(2) by auto
qed

text \<open>Extended attributes of a file that may only be read can be changed.\<close>

theorem setxattr_ignores_read_only:
  assumes "setxattr example_system example_request 2 ''user.a'' 0 (opened_session guarded_policy ''0/DCIM/a'') = (r, t)"
  shows "map_option bp_read_only (fst (route example_system guarded_policy ''0/DCIM/a'' Read (opened_session guarded_policy ''0/DCIM/a'')))
      = Some True"
    "r = ReplyOk \<and> SetAttribute ''/data/media/0/DCIM/a'' ''user.a'' \<in> set (se_calls t)"
proof -
  let ?s = "opened_session guarded_policy ''0/DCIM/a''"
  define x where "x = resolve_relative example_world [(10123, guarded_policy)] guarded_policy ''0/DCIM/a'' Read []"
  obtain b h where x: "x = (Some b, h)" "bp_path b = ''/data/media/0/DCIM/a''" "bp_read_only b"
    using guarded_routes(1) by (cases x) (auto simp: x_def)
  have routed: "route example_system guarded_policy ''0/DCIM/a'' Read ?s = (Some b, ?s\<lparr>se_handoffs := h\<rparr>)"
    using x(1) by (simp add: route_def x_def)
  then show "map_option bp_read_only (fst (route example_system guarded_policy ''0/DCIM/a'' Read ?s)) = Some True"
    using x(3) by simp
  have p: "policy_for_fd_stat_or_request example_system example_request 2 ?s = guarded_policy"
    by (simp add: policy_for_fd_stat_or_request_def inode_owner_policy_for_fd_stat_def)
  have nul: "\<not> has_nul (bp_path b)" "\<not> has_nul ''user.a''" unfolding x(2) by code_simp+
  show "r = ReplyOk \<and> SetAttribute ''/data/media/0/DCIM/a'' ''user.a'' \<in> set (se_calls t)"
    using assms nul x(2)
    by (auto simp: setxattr_def with_backend_for_xattr_def p backend_for_ino_def remembered_backend_def routed call_def
        call_reply_def Let_def)
qed

text \<open>In the lifted view the fallback of a system reader never finds the package a path belongs to.\<close>

theorem reader_fallback_misses_lifted_paths:
  assumes "is_ascii_digit d"
  shows "private_package_of_rel (d # ds @ slash # rest) = None"
proof -
  have "d \<noteq> CHR ''A''" using assms(1) by (auto simp: is_ascii_digit_def)
  then show ?thesis by (simp add: private_package_of_rel_def strip_prefix_def starts_with_str_def)
qed

end
