(* ===== verification/Mount_Paths.thy ===== *)
theory Mount_Paths
  imports Mountinfo Fuse_Metadata
begin

text \<open>
  What the mount planner decides on paths and on the text of the mount table alone:
  \<^verbatim>\<open>src/mount/planner_paths.rs\<close> (which kind of directory a path is, whether a bind has landed),
  \<^verbatim>\<open>src/mount/apply_targets.rs\<close> (source roots, overlaps between rules, questions to
  \<^verbatim>\<open>mountinfo\<close>), the path helpers of \<^verbatim>\<open>src/mount.rs\<close> and of \<^verbatim>\<open>src/mount/alias.rs\<close>. The text of
  \<^verbatim>\<open>/proc/self/mountinfo\<close> is an argument.
\<close>

section \<open>Model: kinds of directories\<close>

definition shared_storage_root :: "bytes \<Rightarrow> bytes option" where
  "shared_storage_root path =
     (case storage_user_root path of Some root \<Rightarrow> Some root | None \<Rightarrow> data_media_user_root path)"

definition is_android_private_storage_path :: "bytes \<Rightarrow> bytes \<Rightarrow> bool" where
  "is_android_private_storage_path path storage_root =
     (case relative_child_path path storage_root of
        None \<Rightarrow> False
      | Some relative \<Rightarrow>
          relative = ''Android/data'' \<or> relative = ''Android/media'' \<or> relative = ''Android/obb''
          \<or> starts_with_str relative ''Android/data/'' \<or> starts_with_str relative ''Android/media/''
          \<or> starts_with_str relative ''Android/obb/'')"

definition is_android_app_private_relative_path :: "bytes \<Rightarrow> bool" where
  "is_android_app_private_relative_path relative =
     (case nonempty_parts slash relative of
        first # second # _ \<Rightarrow> first = ''Android'' \<and> is_private_category second
      | _ \<Rightarrow> False)"

definition is_android_private_backend_path :: "bytes \<Rightarrow> i32 \<Rightarrow> bool" where
  "is_android_private_backend_path path user_id =
     (case relative_child_path path (data_media_user_root_for_user user_id) of
        None \<Rightarrow> False
      | Some relative \<Rightarrow>
          (case nonempty_parts slash relative of
             first # second # _ \<Rightarrow> first = ''Android'' \<and> is_private_category second
           | _ \<Rightarrow> False))"

definition is_android_private_package_root :: "bytes \<Rightarrow> i32 \<Rightarrow> bool" where
  "is_android_private_package_root path user_id =
     (case relative_child_path path (data_media_user_root_for_user user_id) of
        None \<Rightarrow> False
      | Some relative \<Rightarrow>
          length (nonempty_parts slash relative) = 3 \<and> is_android_private_backend_path path user_id)"

definition should_apply_app_writable_metadata :: "bytes \<Rightarrow> i32 \<Rightarrow> bool" where
  "should_apply_app_writable_metadata path user_id =
     (case relative_child_path path (data_media_user_root_for_user user_id) of
        None \<Rightarrow> \<not> (starts_with_str path ''/data/media/'' \<or> path = ''/data/media'')
      | Some relative \<Rightarrow>
          (case nonempty_parts slash relative of
             [] \<Rightarrow> True
           | first # rest \<Rightarrow>
               if first \<noteq> ''Android'' then True
               else (case rest of
                       [] \<Rightarrow> False
                     | second # rest \<Rightarrow> if is_private_category second then rest \<noteq> [] else True)))"

definition is_data_media_shared_public_directory :: "bytes \<Rightarrow> i32 \<Rightarrow> bool" where
  "is_data_media_shared_public_directory path user_id =
     (case relative_child_path path (data_media_user_root_for_user user_id) of
        None \<Rightarrow> False
      | Some relative \<Rightarrow> \<not> is_android_app_private_relative_path relative)"

definition is_shared_public_storage_directory :: "bytes \<Rightarrow> i32 \<Rightarrow> bool" where
  "is_shared_public_storage_directory path user_id =
     (is_data_media_shared_public_directory path user_id
      \<or> (case storage_to_data_media_for_user path user_id of
           None \<Rightarrow> False
         | Some backend \<Rightarrow> is_data_media_shared_public_directory backend user_id))"

definition should_apply_allowed_real_writable_metadata :: "bytes \<Rightarrow> bytes \<Rightarrow> i32 \<Rightarrow> bool" where
  "should_apply_allowed_real_writable_metadata path original user_id =
     (case relative_child_path path (data_media_user_root_for_user user_id) of
        None \<Rightarrow> False
      | Some relative \<Rightarrow>
          if relative = [] \<or> is_android_app_private_relative_path relative then False
          else path = original \<or> 2 \<le> length (nonempty_parts slash relative))"

definition allowed_real_metadata_path_is_excluded :: "bytes \<Rightarrow> bytes list \<Rightarrow> bool" where
  "allowed_real_metadata_path_is_excluded path excl_paths =
     (if excl_paths = [] then False
      else let storage_path = data_media_to_storage_path path
        in list_ex (\<lambda>excluded. matches excluded storage_path True) excl_paths)"

definition is_data_media_backend_alias :: "bytes \<Rightarrow> i32 \<Rightarrow> bool" where
  "is_data_media_backend_alias path user_id = is_same_or_child path (data_media_user_root_for_user user_id)"

definition mapping_target_source_needs_app_writable_metadata :: "bytes \<Rightarrow> i32 \<Rightarrow> bool" where
  "mapping_target_source_needs_app_writable_metadata source user_id =
     is_same_or_child source (data_media_user_root_for_user user_id)"

text \<open>A bind onto a strict ancestor of its own source would hide the source.\<close>

definition should_skip_self_shadowing_alias :: "bytes \<Rightarrow> bytes \<Rightarrow> bool" where
  "should_skip_self_shadowing_alias source target \<longleftrightarrow> \<not> eq_ignore_case source target \<and> is_child source target"

section \<open>Model: walking up a path\<close>

definition parent_preserving_backend_alias :: "bytes \<Rightarrow> bytes" where
  "parent_preserving_backend_alias path =
     (let trimmed = trim_end_char slash path
      in if trimmed = [] \<or> trimmed = ''/'' then trimmed
         else (case rfind_char slash trimmed of
                 Some pos \<Rightarrow> if pos = 0 then ''/'' else take pos trimmed
               | None \<Rightarrow> []))"

lemma parent_preserving_shorter:
  assumes "path \<noteq> []"
  shows "length (parent_preserving_backend_alias path) < length path"
proof -
  let ?t = "trim_end_char slash path"
  have len: "length ?t \<le> length path" using length_dropWhile_le [of _ "rev path"] by (simp add: trim_end_char_def)
  show ?thesis
  proof (cases "?t = [] \<or> ?t = ''/''")
    case True
    moreover have "?t \<noteq> ''/''" by (auto simp: trim_end_char_def dropWhile_eq_Cons_conv)
    ultimately show ?thesis using assms by (auto simp: parent_preserving_backend_alias_def)
  next
    case False
    then have two: "1 < length ?t" if "rfind_char slash ?t = Some 0"
      using that by (cases ?t) (auto simp: rfind_char_Some)
    show ?thesis
      using False two len assms
      by (auto simp: parent_preserving_backend_alias_def Let_def rfind_char_Some split: option.split)
  qed
qed

text \<open>
  The loops of the planner that walk from a path towards the root end at the same three conditions; each has a
  reason of its own to stop before. These are the paths such a loop visits.
\<close>

function walk_up :: "(bytes \<Rightarrow> bool) \<Rightarrow> bytes \<Rightarrow> bytes list" where
  "walk_up stop current =
     (if current = [] \<or> stop current then []
      else let up = parent_preserving_backend_alias current
        in current # (if up = [] \<or> up = ''/'' \<or> up = current then [] else walk_up stop up))"
  by pat_completeness auto
termination
  by (relation "measure (length \<circ> snd)") (auto simp: parent_preserving_shorter)

declare walk_up.simps [simp del]

definition storage_emulated_repair_mount :: "bytes \<Rightarrow> i32 \<Rightarrow> (bytes \<times> bytes) option" where
  "storage_emulated_repair_mount target user_id =
     (let normalized = normalize target; storage_root = storage_user_root_for_user user_id
      in if eq_ignore_case normalized storage_root \<or> is_child normalized storage_root
         then Some (''/data/media'', ''/storage/emulated'') else None)"

section \<open>Model: has a bind landed\<close>

record bind_landing_sample =
  target_is_directory :: "bool option"
  target_inode_after :: "(nat \<times> nat) option"
  target_inode_before :: "(nat \<times> nat) option"

datatype bind_landing_verdict = Accepted | Inconclusive | NotDirectory

definition fuse_backed_bind_landing_verdict :: "bind_landing_sample \<Rightarrow> bind_landing_verdict" where
  "fuse_backed_bind_landing_verdict sample =
     (case target_is_directory sample of
        None \<Rightarrow> Accepted
      | Some True \<Rightarrow> Accepted
      | Some False \<Rightarrow>
          (let unchanged = (case (target_inode_before sample, target_inode_after sample) of
                 (Some prior, Some later) \<Rightarrow> prior = later
               | _ \<Rightarrow> False)
           in if unchanged then Inconclusive else NotDirectory))"

section \<open>Model: mode bits\<close>

text \<open>02771 AND 0770, and 02771 AND 02770.\<close>

definition REAL_PUBLIC_DIR_MODE :: "32 word" where
  "REAL_PUBLIC_DIR_MODE = 0x5F9"

definition REQUIRED_PUBLIC_DIR_MODE :: "32 word" where
  "REQUIRED_PUBLIC_DIR_MODE = REAL_PUBLIC_DIR_MODE AND 0x1F8"

definition PUBLIC_DIR_REPAIR_MODE :: "32 word" where
  "PUBLIC_DIR_REPAIR_MODE = REAL_PUBLIC_DIR_MODE AND 0x5F8"

text \<open>The mode \<^verbatim>\<open>repair_missing_mode_bits\<close> sets, if it sets one.\<close>

definition missing_mode_bits :: "32 word \<Rightarrow> 32 word \<Rightarrow> 32 word \<Rightarrow> 32 word option" where
  "missing_mode_bits mode required repair =
     (if mode AND required = required then None else Some (mode OR repair))"

section \<open>Model: overlaps with mappings and FUSE roots\<close>

definition path_overlaps_mapping_request :: "bytes \<Rightarrow> path_mapping list \<Rightarrow> bool" where
  "path_overlaps_mapping_request path mappings = list_ex (\<lambda>mapping. matches (request_path mapping) path True) mappings"

definition path_shadows_mapping_request :: "bytes \<Rightarrow> path_mapping list \<Rightarrow> bool" where
  "path_shadows_mapping_request path mappings = list_ex (\<lambda>mapping. is_same_or_child (request_path mapping) path) mappings"

definition is_covered_by_scoped_fuse_mount :: "bytes \<Rightarrow> bytes list \<Rightarrow> bool" where
  "is_covered_by_scoped_fuse_mount path scoped_fuse_roots =
     list_ex (\<lambda>root. eq_ignore_case path root \<or> is_child path root) scoped_fuse_roots"

definition collect_restored_read_only_excluded_children ::
  "bytes list \<Rightarrow> bytes list \<Rightarrow> path_mapping list \<Rightarrow> bytes list \<Rightarrow> bytes list" where
  "collect_restored_read_only_excluded_children ro_paths excluded_rules mappings scoped_fuse_roots =
     sort_dedup_paths_longest_first_case_insensitive
       (concat (map (\<lambda>read_only_path.
          filter (\<lambda>excluded. \<not> contains_wildcards excluded \<and> is_child excluded read_only_path
              \<and> \<not> path_overlaps_mapping_request excluded mappings
              \<and> \<not> is_covered_by_scoped_fuse_mount excluded scoped_fuse_roots) excluded_rules) ro_paths))"

definition namespace_mappings_outside_scoped_fuse :: "path_mapping list \<Rightarrow> bytes list \<Rightarrow> path_mapping list" where
  "namespace_mappings_outside_scoped_fuse resolved_mappings scoped_fuse_roots =
     (if scoped_fuse_roots = [] then resolved_mappings
      else filter (\<lambda>mapping. \<not> list_ex (\<lambda>root. is_same_or_child (request_path mapping) root) scoped_fuse_roots)
             resolved_mappings)"

section \<open>Model: source roots\<close>

definition REAL_STORAGE_TMP_DIR :: bytes where
  "REAL_STORAGE_TMP_DIR = ''/data/adb/modules/storage.redirect.x/tmp/real_storage''"

definition SYSTEM_VIEW_TMP_DIR :: bytes where
  "SYSTEM_VIEW_TMP_DIR = ''/data/adb/modules/storage.redirect.x/tmp/system_view''"

definition real_storage_anchor_mount_path :: "i32 \<Rightarrow> bytes" where
  "real_storage_anchor_mount_path user_id = path_join REAL_STORAGE_TMP_DIR (fmt_i32 user_id)"

definition real_storage_anchor_usable_path :: "i32 \<Rightarrow> bytes" where
  "real_storage_anchor_usable_path user_id = path_join (real_storage_anchor_mount_path user_id) (fmt_i32 user_id)"

definition build_mapping_source_roots :: "bytes option \<Rightarrow> bytes \<Rightarrow> bytes list" where
  "build_mapping_source_roots real_storage_anchor data_media_root =
     (let roots = (case real_storage_anchor of None \<Rightarrow> [] | Some anchor \<Rightarrow> [anchor])
      in if data_media_root \<in> set roots then roots else roots @ [data_media_root])"

definition build_read_only_source_roots :: "bytes list \<Rightarrow> bytes \<Rightarrow> bytes list" where
  "build_read_only_source_roots source_roots data_media_root =
     foldl (\<lambda>roots root. if root \<noteq> data_media_root \<and> root \<notin> set roots then roots @ [root] else roots)
       (if data_media_root = [] then [] else [data_media_root]) source_roots"

definition build_allowed_real_source_candidates :: "bytes option \<Rightarrow> bytes \<Rightarrow> bytes \<Rightarrow> bytes list" where
  "build_allowed_real_source_candidates real_storage_anchor data_media_root relative =
     (let backend_source = path_join data_media_root relative
      in (case real_storage_anchor of
            None \<Rightarrow> []
          | Some anchor \<Rightarrow>
              (let anchor_source = path_join anchor relative
               in if eq_ignore_case anchor_source backend_source then [] else [anchor_source]))
         @ [backend_source])"

section \<open>Model: questions to the mount table\<close>

definition entry_at :: "bytes \<Rightarrow> mount_info_entry \<Rightarrow> bool" where
  "entry_at target entry \<longleftrightarrow> eq_ignore_case (normalize (unescape_field (mi_target entry))) (normalize target)"

text \<open>The entries of a target, in the order of the table; the last one is on top.\<close>

definition entries_at :: "bytes \<Rightarrow> bytes \<Rightarrow> mount_info_entry list" where
  "entries_at content target = filter (entry_at target) (List.map_filter parse_entry (rust_lines content))"

definition mount_source_for_target_from_mountinfo :: "bytes \<Rightarrow> bytes \<Rightarrow> bytes option" where
  "mount_source_for_target_from_mountinfo content target =
     foldl (\<lambda>_ entry. Some (unescape_field (mi_root entry))) None (entries_at content target)"

definition mountinfo_device_for_target :: "bytes \<Rightarrow> bytes \<Rightarrow> bytes option" where
  "mountinfo_device_for_target content target = foldl (\<lambda>_ entry. Some (mi_dev entry)) None (entries_at content target)"

definition mountinfo_has_target :: "bytes \<Rightarrow> bytes \<Rightarrow> bool" where
  "mountinfo_has_target content target =
     list_ex (\<lambda>line. case parse_entry line of None \<Rightarrow> False | Some entry \<Rightarrow> entry_at target entry) (rust_lines content)"

definition mountinfo_root_is_app_sandbox :: "bytes \<Rightarrow> bytes \<Rightarrow> bytes \<Rightarrow> bool" where
  "mountinfo_root_is_app_sandbox content target package_name =
     (if package_name = [] then False
      else case mount_source_for_target_from_mountinfo content target of
             None \<Rightarrow> False
           | Some root \<Rightarrow> list_ex (\<lambda>pre. contains_str root (pre @ package_name))
                              [''Android/data/'', ''Android/media/'', ''Android/obb/''])"

definition mountinfo_has_own_private_restore_layer :: "bytes \<Rightarrow> bytes \<Rightarrow> bytes \<Rightarrow> bool" where
  "mountinfo_has_own_private_restore_layer content target expected_root =
     list_ex (\<lambda>line. case parse_entry line of
         None \<Rightarrow> False
       | Some entry \<Rightarrow> entry_at target entry \<and> eq_ignore_case (unescape_field (mi_root entry)) expected_root)
       (rust_lines content)"

definition topmost_mount_is_fuse :: "bytes \<Rightarrow> bytes \<Rightarrow> bool" where
  "topmost_mount_is_fuse content target =
     foldl (\<lambda>_ entry. starts_with_str (mi_fs_type entry) ''fuse'') False (entries_at content target)"

section \<open>Model: aliases of a target\<close>

definition append_unique :: "bytes list \<Rightarrow> bytes \<Rightarrow> bytes list" where
  "append_unique xs x = (if x = [] \<or> x \<in> set xs then xs else xs @ [x])"

definition lifted_alias_roots :: "bytes \<Rightarrow> i32 \<Rightarrow> bytes list option" where
  "lifted_alias_roots canonical_path user_id =
     (if \<not> ends_with_str (trim_end_char slash canonical_path) ''/emulated'' then None
      else Some [''/storage/emulated'', ''/mnt/user/'' @ fmt_i32 user_id @ ''/emulated'',
                 ''/mnt/installer/'' @ fmt_i32 user_id @ ''/emulated'',
                 ''/mnt/androidwritable/'' @ fmt_i32 user_id @ ''/emulated''])"

definition expand_storage_alias_paths :: "bytes \<Rightarrow> i32 \<Rightarrow> bytes list" where
  "expand_storage_alias_paths canonical_path user_id =
     (if canonical_path = [] then []
      else case lifted_alias_roots canonical_path user_id of
             Some expanded \<Rightarrow> expanded
           | None \<Rightarrow>
               (let storage_root = storage_user_root_for_user user_id
                in if \<not> is_same_or_child canonical_path storage_root then [canonical_path]
                   else let suff = drop (length storage_root) canonical_path
                     in foldl (\<lambda>expanded root. append_unique expanded (root @ suff)) []
                          (storage_alias_roots_for_user user_id)))"

section \<open>Model: wildcards in rules for directories\<close>

definition concrete_mount_fallback_parent :: "bytes \<Rightarrow> bytes \<Rightarrow> bytes option" where
  "concrete_mount_fallback_parent resolved_path storage_path = wildcard_mount_fallback_parent resolved_path storage_path"

definition path_segment_count :: "bytes \<Rightarrow> nat" where
  "path_segment_count path = length (nonempty_parts slash path)"

definition normalize_mount_scan_path :: "bytes \<Rightarrow> bytes" where
  "normalize_mount_scan_path path = (if path = [] then [] else collapse_redundant_slashes path)"

text \<open>A path of the host, with backslashes turned.\<close>

definition normalize_host_path :: "bytes \<Rightarrow> bytes" where
  "normalize_host_path path = normalize_mount_scan_path (map (\<lambda>c. if c = CHR 0x5C then slash else c) path)"

definition concrete_prefix_before_wildcard_preserving_alias :: "bytes \<Rightarrow> bytes" where
  "concrete_prefix_before_wildcard_preserving_alias path =
     (let normalized = normalize_mount_scan_path path
      in if normalized = [] \<or> \<not> contains_wildcards normalized then normalized
         else let kept = takeWhile (\<lambda>segment. \<not> contains_wildcards segment) (nonempty_parts slash normalized)
           in if kept = [] then []
              else if starts_with_str normalized ''/'' then ''/'' @ join_char slash kept else join_char slash kept)"

definition wildcard_prefix_matches :: "bytes \<Rightarrow> bytes \<Rightarrow> bool" where
  "wildcard_prefix_matches rule_path candidate_path =
     (let rule_segments = nonempty_parts slash rule_path; candidate_depth = path_segment_count candidate_path
      in if candidate_depth = 0 \<or> length rule_segments < candidate_depth then False
         else let pre = join_char slash (take candidate_depth rule_segments)
           in matches (if starts_with_str rule_path ''/'' then ''/'' @ pre else pre) candidate_path False)"

definition append_unique_scan_root :: "bytes list \<Rightarrow> bytes \<Rightarrow> bytes list" where
  "append_unique_scan_root scan_roots root =
     (if root = [] \<or> list_ex (\<lambda>existing. eq_ignore_case existing root) scan_roots then scan_roots
      else scan_roots @ [root])"

end
