(* ===== verification/Mount_State.thy ===== *)
theory Mount_State
  imports Mount_Paths State_Logic
begin

text \<open>
  The state of a mount planner (\<^verbatim>\<open>MountPlanner\<close> of \<^verbatim>\<open>src/mount.rs\<close>), the system it runs on, and the file
  system helpers of \<^verbatim>\<open>src/platform/fs.rs\<close>. The fields of the planner that never change are the record
  \<^verbatim>\<open>mount_planner\<close>, an argument of every operation; its cells, the credentials of the process and the calls made
  so far are the state. The operating system is \<^verbatim>\<open>mount_world\<close>: every question and every call gets an
  answer that may depend on the time at which it is asked, so nothing is assumed about what calls do to
  later answers, or about other processes. Calls that change something are kept with their results.
\<close>

section \<open>Model: the system\<close>

definition EINVAL_CODE :: int where
  "EINVAL_CODE = 22"

definition EEXIST_CODE :: int where
  "EEXIST_CODE = 17"

definition ENOTCONN_CODE :: int where
  "ENOTCONN_CODE = 107"

datatype mount_call =
    Unshare
  | MakePrivate bytes bool
  | CloneTree bytes bool
  | OpenTarget bytes
  | MoveTree bytes bytes
  | AttachClone bytes
  | BindPath bytes bytes bool
  | Remount bytes bool bool
  | Detach bytes
  | SetGroups "nat list"
  | MakeDirectory bytes
  | ChangeOwner bytes "32 word" "32 word"
  | ChangeMode bytes "32 word"
  | WriteMarker bytes nat nat
  | RemoveMarker bytes
  | PrepRecord bytes bytes

text \<open>
  \<^term>\<open>Remount target read_only recursive\<close> and \<^term>\<open>BindPath source target recursive\<close>; \<^term>\<open>MoveTree source target\<close> attaches the
  clone of the source to the target that was opened, \<^term>\<open>Detach target\<close> is \<^verbatim>\<open>umount2\<close> with \<^verbatim>\<open>MNT_DETACH\<close>.
\<close>

record node_stat =
  nd_dev :: nat
  nd_ino :: nat
  nd_mode :: "32 word"
  nd_uid :: "32 word"
  nd_gid :: "32 word"

record dir_child =
  dc_path :: bytes
  dc_is_dir :: "bool option"

record mount_world =
  mw_call :: "nat \<Rightarrow> mount_call \<Rightarrow> int"
  mw_stat :: "nat \<Rightarrow> bytes \<Rightarrow> node_stat option"
  mw_lstat :: "nat \<Rightarrow> bytes \<Rightarrow> bool"
  mw_mountinfo :: "nat \<Rightarrow> bytes option"
  mw_read_dir :: "nat \<Rightarrow> bytes \<Rightarrow> dir_child list option"
  mw_canonical :: "nat \<Rightarrow> bytes \<Rightarrow> bytes option"
  mw_marker :: "nat \<Rightarrow> bytes \<Rightarrow> bytes option"
  mw_repair :: bool

section \<open>Model: the planner\<close>

record mount_planner =
  mp_should_unshare :: bool
  mp_package_name :: bytes
  mp_app_uid :: i32
  mp_user_id :: i32
  mp_app_data_dir :: bytes
  mp_redirect_target :: bytes
  mp_is_file_monitor_enabled :: bool
  mp_world :: mount_world

record mount_state =
  ms_clock :: nat
  ms_calls :: "(mount_call \<times> int) list"
  ms_fsuid :: "32 word"
  ms_groups :: "nat list"
  ms_last_create_errno :: int
  ms_last_bind_errno :: int
  ms_is_namespace_ready :: bool
  ms_is_storage_root_redirected :: bool
  ms_mounted_targets :: "bytes list"
  ms_pre_bind_target_inode :: "(nat \<times> nat) option"
  ms_real_storage_anchor :: "bytes option"
  ms_system_view_clone :: bool

type_synonym 'a planner_m = "(mount_state, 'a) state"

definition MountPlanner_new :: "mount_world \<Rightarrow> bytes \<Rightarrow> i32 \<Rightarrow> bytes \<Rightarrow> bytes \<Rightarrow> bool \<Rightarrow> mount_planner" where
  "MountPlanner_new w package_name app_uid app_data_dir redirect_target should_unshare =
     \<lparr>mp_should_unshare = should_unshare, mp_package_name = package_name, mp_app_uid = app_uid,
      mp_user_id = user_id_from_uid app_uid, mp_app_data_dir = app_data_dir,
      mp_redirect_target = normalize redirect_target, mp_is_file_monitor_enabled = False, mp_world = w\<rparr>"

definition mount_state_new :: "32 word \<Rightarrow> nat list \<Rightarrow> mount_state" where
  "mount_state_new fsuid groups =
     \<lparr>ms_clock = 0, ms_calls = [], ms_fsuid = fsuid, ms_groups = groups, ms_last_create_errno = 0,
      ms_last_bind_errno = 0, ms_is_namespace_ready = False, ms_is_storage_root_redirected = False,
      ms_mounted_targets = [], ms_pre_bind_target_inode = None, ms_real_storage_anchor = None,
      ms_system_view_clone = False\<rparr>"

definition set_file_monitor_enabled :: "bool \<Rightarrow> mount_planner \<Rightarrow> mount_planner" where
  "set_file_monitor_enabled enabled pl = pl\<lparr>mp_is_file_monitor_enabled := enabled\<rparr>"

definition set_system_view_clone :: "unit planner_m" where
  "set_system_view_clone = modifies (\<lambda>s. s\<lparr>ms_system_view_clone := True\<rparr>)"

definition take_mounted_targets :: "bytes list planner_m" where
  "take_mounted_targets = do {
     targets \<leftarrow> reads ms_mounted_targets;
     modifies (\<lambda>s. s\<lparr>ms_mounted_targets := []\<rparr>);
     ret targets
   }"

section \<open>Model: questions and calls\<close>

definition ask :: "(nat \<Rightarrow> 'a) \<Rightarrow> 'a planner_m" where
  "ask f = State (\<lambda>s. (f (ms_clock s), s\<lparr>ms_clock := Suc (ms_clock s)\<rparr>))"

definition syscall :: "mount_world \<Rightarrow> mount_call \<Rightarrow> int planner_m" where
  "syscall w c = State (\<lambda>s. let e = mw_call w (ms_clock s) c
     in (e, s\<lparr>ms_clock := Suc (ms_clock s), ms_calls := ms_calls s @ [(c, e)]\<rparr>))"

text \<open>
  \<^verbatim>\<open>SystemViewClone::capture\<close>: a clone of the view of the system, taken before the mounts of the module; the
  answer is whether there is one to be handed to the planner.
\<close>

definition capture_system_view :: "mount_world \<Rightarrow> i32 \<Rightarrow> bool planner_m" where
  "capture_system_view w user_id = do {
     e \<leftarrow> syscall w (CloneTree (''/mnt/pass_through/'' @ fmt_i32 user_id @ ''/emulated'') False);
     ret (e = 0)
   }"

text \<open>A path with a zero byte is no C string.\<close>

definition no_c_string :: "bytes \<Rightarrow> bool" where
  "no_c_string path \<longleftrightarrow> CHR 0x00 \<in> set path"

definition stat_node :: "mount_world \<Rightarrow> bytes \<Rightarrow> node_stat option planner_m" where
  "stat_node w path = (if no_c_string path then ret None else ask (\<lambda>t. mw_stat w t path))"

definition stat_inode :: "mount_world \<Rightarrow> bytes \<Rightarrow> (nat \<times> nat) option planner_m" where
  "stat_inode w path = do {
     st \<leftarrow> stat_node w path;
     ret (map_option (\<lambda>st. (nd_dev st, nd_ino st)) st)
   }"

definition S_IFMT :: "32 word" where
  "S_IFMT = 0xF000"

definition S_IFDIR :: "32 word" where
  "S_IFDIR = 0x4000"

definition S_IFREG :: "32 word" where
  "S_IFREG = 0x8000"

definition stat_is_directory :: "mount_world \<Rightarrow> bytes \<Rightarrow> bool option planner_m" where
  "stat_is_directory w path = do {
     st \<leftarrow> stat_node w path;
     ret (map_option (\<lambda>st. nd_mode st AND S_IFMT = S_IFDIR) st)
   }"

definition paths_have_same_inode :: "mount_world \<Rightarrow> bytes \<Rightarrow> bytes \<Rightarrow> bool planner_m" where
  "paths_have_same_inode w left right = do {
     l \<leftarrow> stat_inode w left;
     r \<leftarrow> stat_inode w right;
     ret (case (l, r) of (Some l, Some r) \<Rightarrow> l = r | _ \<Rightarrow> False)
   }"

definition read_mountinfo :: "mount_world \<Rightarrow> bytes option planner_m" where
  "read_mountinfo w = ask (mw_mountinfo w)"

definition is_mount_point :: "mount_world \<Rightarrow> bytes \<Rightarrow> bool planner_m" where
  "is_mount_point w path = do {
     content \<leftarrow> read_mountinfo w;
     ret (case content of None \<Rightarrow> False | Some content \<Rightarrow> mountinfo_has_target content path)
   }"

definition is_topmost_fuse :: "mount_world \<Rightarrow> bytes \<Rightarrow> bool planner_m" where
  "is_topmost_fuse w target = do {
     content \<leftarrow> read_mountinfo w;
     ret (case content of None \<Rightarrow> False | Some content \<Rightarrow> topmost_mount_is_fuse content target)
   }"

definition detach_mount_if_present :: "mount_world \<Rightarrow> bytes \<Rightarrow> unit planner_m" where
  "detach_mount_if_present w target = do {
     present \<leftarrow> is_mount_point w target;
     when_m (present \<and> \<not> no_c_string target) (syscall w (Detach target))
   }"

section \<open>Model: directories\<close>

definition fs_is_directory :: "mount_world \<Rightarrow> bytes \<Rightarrow> bool planner_m" where
  "fs_is_directory w path =
     (if path = [] then ret False
      else do {
        st \<leftarrow> stat_node w path;
        ret (case st of None \<Rightarrow> False | Some st \<Rightarrow> nd_mode st AND S_IFDIR \<noteq> 0)
      })"

definition note_create_errno :: "int \<Rightarrow> unit planner_m" where
  "note_create_errno e = modifies (\<lambda>s. s\<lparr>ms_last_create_errno := e\<rparr>)"

text \<open>The loop of \<^verbatim>\<open>create_directory\<close> over the components of the path.\<close>

fun create_components :: "mount_world \<Rightarrow> i32 \<Rightarrow> bytes \<Rightarrow> bytes list \<Rightarrow> bool planner_m" where
  "create_components w uid current [] = ret True"
| "create_components w uid current (part # parts) =
     (let current = current @ ''/'' @ part
      in if no_c_string current then ret False
         else do {
           e \<leftarrow> syscall w (MakeDirectory current);
           if e \<noteq> 0 \<and> e \<noteq> EEXIST_CODE then do { note_create_errno e; ret False }
           else do {
             when_m (e = 0 \<and> 0 \<le> uid) (syscall w (ChangeOwner current (of_int uid) (of_int uid)));
             create_components w uid current parts
           }
         })"

definition create_directory :: "mount_world \<Rightarrow> bytes \<Rightarrow> i32 \<Rightarrow> bool planner_m" where
  "create_directory w path uid =
     (if path = [] \<or> \<not> starts_with_str path ''/'' then do { note_create_errno EINVAL_CODE; ret False }
      else do {
        present \<leftarrow> fs_is_directory w path;
        if present then do { note_create_errno 0; ret True }
        else do {
          made \<leftarrow> create_components w uid [] (nonempty_parts slash path);
          if made then fs_is_directory w path else ret False
        }
      })"

end
