(* ===== verification/Mount_Bind.thy ===== *)
theory Mount_Bind
  imports Mount_State
begin

text \<open>
  Binding one path onto another: the bind, overlay, read-write and read-only operations of
  \<^verbatim>\<open>src/mount/planner.rs\<close> with everything they fall back to, and the two remounts of
  \<^verbatim>\<open>src/mount/planner_paths.rs\<close>. Log lines are left out, with them the comparison of inodes after a bind
  that does not concern FUSE, whose result is only logged.
\<close>

section \<open>Model: which path an operation on metadata goes to\<close>

definition is_user_storage_alias_path :: "i32 \<Rightarrow> bytes \<Rightarrow> bool" where
  "is_user_storage_alias_path user_id path =
     (if path = [] then False else is_same_or_child (normalize path) (storage_user_root_for_user user_id))"

definition is_public_storage_alias_path :: "i32 \<Rightarrow> bytes \<Rightarrow> bool" where
  "is_public_storage_alias_path user_id path =
     (if starts_with_str path ''/data/media/'' \<or> path = ''/data/media'' then False
      else is_user_storage_alias_path user_id path)"

definition real_storage_anchor_root :: "i32 \<Rightarrow> bytes" where
  "real_storage_anchor_root user_id = real_storage_anchor_usable_path user_id"

definition is_real_storage_anchor_path :: "i32 \<Rightarrow> bytes \<Rightarrow> bool" where
  "is_real_storage_anchor_path user_id path = is_same_or_child path (real_storage_anchor_root user_id)"

definition real_storage_anchor_backend_path :: "i32 \<Rightarrow> bytes \<Rightarrow> bytes option" where
  "real_storage_anchor_backend_path user_id path =
     (case relative_child_path path (real_storage_anchor_root user_id) of
        None \<Rightarrow> None
      | Some relative \<Rightarrow>
          if relative = [] then None
          else Some (path_join (data_media_user_root_for_user user_id) relative))"

definition metadata_operations_path :: "i32 \<Rightarrow> bool \<Rightarrow> bytes \<Rightarrow> bytes option" where
  "metadata_operations_path user_id is_storage_root_redirected path =
     (if path = [] then None
      else case real_storage_anchor_backend_path user_id path of
             Some backend_path \<Rightarrow> Some backend_path
           | None \<Rightarrow>
               if is_storage_root_redirected \<and> is_public_storage_alias_path user_id path then Some path
               else (case storage_to_data_media_for_user path user_id of
                       Some backend_path \<Rightarrow> Some backend_path
                     | None \<Rightarrow> if is_user_storage_alias_path user_id path then None else Some path))"

definition is_android_private_package_target :: "bytes \<Rightarrow> bytes \<Rightarrow> bool" where
  "is_android_private_package_target package_name path =
     (let normalized = normalize path
      in list_ex (\<lambda>kind. ends_with_str normalized (''/Android/'' @ kind @ ''/'' @ package_name))
           [''data'', ''media'', ''obb''])"

definition should_use_recursive_bind :: "mount_planner \<Rightarrow> bytes \<Rightarrow> bytes \<Rightarrow> bool \<Rightarrow> bool" where
  "should_use_recursive_bind pl source target requested =
     (if \<not> requested then False
      else if is_android_private_package_target (mp_package_name pl) target then True
      else \<not> (is_public_storage_alias_path (mp_user_id pl) source \<or> is_public_storage_alias_path (mp_user_id pl) target
              \<or> is_real_storage_anchor_path (mp_user_id pl) source \<or> is_real_storage_anchor_path (mp_user_id pl) target
              \<or> data_media_user_root source \<noteq> None \<or> data_media_user_root target \<noteq> None))"

section \<open>Model: remounts and the record of mounted targets\<close>

definition remount_inner :: "mount_world \<Rightarrow> bool \<Rightarrow> bytes \<Rightarrow> bool \<Rightarrow> bool planner_m" where
  "remount_inner w read_only target is_recursive =
     (if no_c_string target then ret False
      else do { e \<leftarrow> syscall w (Remount target read_only is_recursive); ret (e = 0) })"

definition remount_bind_read_only :: "mount_world \<Rightarrow> bytes \<Rightarrow> bool \<Rightarrow> bool planner_m" where
  "remount_bind_read_only w target is_recursive = do {
     ok \<leftarrow> remount_inner w True target is_recursive;
     if ok then ret True
     else if is_recursive then remount_inner w True target False
     else ret False
   }"

definition remount_bind_read_write :: "mount_world \<Rightarrow> bytes \<Rightarrow> bool \<Rightarrow> bool planner_m" where
  "remount_bind_read_write w target is_recursive = do {
     ok \<leftarrow> remount_inner w False target is_recursive;
     if ok then ret True
     else remount_inner w False target (\<not> is_recursive)
   }"

definition record_mounted_target :: "bytes \<Rightarrow> unit planner_m" where
  "record_mounted_target target =
     modifies (\<lambda>s. if target = [] \<or> target \<in> set (ms_mounted_targets s) then s
                   else s\<lparr>ms_mounted_targets := ms_mounted_targets s @ [target]\<rparr>)"

definition forget_mounted_target :: "bytes \<Rightarrow> unit planner_m" where
  "forget_mounted_target target =
     modifies (\<lambda>s. s\<lparr>ms_mounted_targets := filter (\<lambda>item. item \<noteq> target) (ms_mounted_targets s)\<rparr>)"

section \<open>Model: binding through descriptors, with the credentials of the application\<close>

definition AID_EVERYBODY :: nat where
  "AID_EVERYBODY = 9997"

definition set_groups :: "mount_world \<Rightarrow> nat list \<Rightarrow> unit planner_m" where
  "set_groups w groups = do {
     e \<leftarrow> syscall w (SetGroups groups);
     when_m (e = 0) (modifies (\<lambda>s. s\<lparr>ms_groups := groups\<rparr>))
   }"

definition set_fsuid :: "32 word \<Rightarrow> unit planner_m" where
  "set_fsuid uid = modifies (\<lambda>s. s\<lparr>ms_fsuid := uid\<rparr>)"

text \<open>\<^verbatim>\<open>getgroups\<close> fails when the process has more groups than the 64 there is room for; then the count is negative.\<close>

definition with_app_credentials :: "mount_planner \<Rightarrow> 'a planner_m \<Rightarrow> 'a planner_m" where
  "with_app_credentials pl action = do {
     previous \<leftarrow> reads ms_groups;
     prev_fsuid \<leftarrow> reads ms_fsuid;
     set_fsuid (of_int (mp_app_uid pl));
     set_groups (mp_world pl) [AID_EVERYBODY];
     output \<leftarrow> action;
     when_m (0 < length previous \<and> length previous \<le> 64) (set_groups (mp_world pl) previous);
     set_fsuid prev_fsuid;
     ret output
   }"

definition bind_mount_via_fds :: "mount_planner \<Rightarrow> bytes \<Rightarrow> bytes \<Rightarrow> bool \<Rightarrow> bool planner_m" where
  "bind_mount_via_fds pl source target recursive =
     (if no_c_string source then ret False
      else do {
        e \<leftarrow> syscall (mp_world pl) (CloneTree source recursive);
        if e \<noteq> 0 then ret False
        else do {
          opened \<leftarrow> with_app_credentials pl
            (if no_c_string target then ret False
             else do { e \<leftarrow> syscall (mp_world pl) (OpenTarget target); ret (e = 0) });
          if \<not> opened then ret False
          else do { e \<leftarrow> syscall (mp_world pl) (MoveTree source target); ret (e = 0) }
        }
      })"

section \<open>Model: the bind\<close>

definition repair_disconnected_storage_parent :: "mount_planner \<Rightarrow> bytes \<Rightarrow> bool planner_m" where
  "repair_disconnected_storage_parent pl target =
     (case storage_emulated_repair_mount target (mp_user_id pl) of
        None \<Rightarrow> ret False
      | Some (source, mount_point) \<Rightarrow> do {
          present \<leftarrow> fs_is_directory (mp_world pl) source;
          if \<not> present then ret False
          else do {
            _ \<leftarrow> syscall (mp_world pl) (Detach mount_point);
            e \<leftarrow> syscall (mp_world pl) (BindPath source mount_point False);
            if e \<noteq> 0 then ret False
            else do { record_mounted_target mount_point; ret True }
          }
        })"

definition verify_fuse_backed_bind_landing :: "mount_planner \<Rightarrow> bytes \<Rightarrow> bool planner_m" where
  "verify_fuse_backed_bind_landing pl target = do {
     prior \<leftarrow> reads ms_pre_bind_target_inode;
     is_dir \<leftarrow> stat_is_directory (mp_world pl) target;
     after \<leftarrow> stat_inode (mp_world pl) target;
     ret (fuse_backed_bind_landing_verdict \<lparr>target_is_directory = is_dir, target_inode_after = after,
            target_inode_before = prior\<rparr> \<noteq> NotDirectory)
   }"

text \<open>The shortcut: the target is the source already, below no FUSE layer, and can be made writable.\<close>

definition same_inode_shortcut :: "mount_planner \<Rightarrow> bytes \<Rightarrow> bytes \<Rightarrow> bool \<Rightarrow> bool planner_m" where
  "same_inode_shortcut pl source target use_recursive = do {
     same \<leftarrow> paths_have_same_inode (mp_world pl) source target;
     if \<not> same then ret False
     else do {
       target_is_mount_point \<leftarrow> is_mount_point (mp_world pl) target;
       target_is_fuse_layer \<leftarrow> (if target_is_mount_point then is_topmost_fuse (mp_world pl) target else ret False);
       if target_is_mount_point \<and> \<not> target_is_fuse_layer
       then remount_bind_read_write (mp_world pl) target use_recursive
       else ret False
     }
   }"

text \<open>The calls of the bind: through descriptors, then by path, then once more after a repair; the error of the last.\<close>

definition bind_attempts :: "mount_planner \<Rightarrow> bytes \<Rightarrow> bytes \<Rightarrow> bool \<Rightarrow> bool planner_m" where
  "bind_attempts pl source target use_recursive = do {
     via_fds \<leftarrow> bind_mount_via_fds pl source target use_recursive;
     if via_fds then ret True
     else do {
       e \<leftarrow> syscall (mp_world pl) (BindPath source target use_recursive);
       if e = 0 then ret True
       else do {
         modifies (\<lambda>s. s\<lparr>ms_last_bind_errno := e\<rparr>);
         repaired \<leftarrow> (if e = ENOTCONN_CODE then repair_disconnected_storage_parent pl target else ret False);
         if repaired
         then do { e \<leftarrow> syscall (mp_world pl) (BindPath source target use_recursive); ret (e = 0) }
         else ret False
       }
     }
   }"

definition bind_mount_inner :: "mount_planner \<Rightarrow> bytes \<Rightarrow> bytes \<Rightarrow> bool \<Rightarrow> bool \<Rightarrow> bool planner_m" where
  "bind_mount_inner pl source target is_recursive allow_same_inode_shortcut = do {
     let use_recursive = should_use_recursive_bind pl source target is_recursive;
     skipped \<leftarrow> (if allow_same_inode_shortcut then same_inode_shortcut pl source target use_recursive else ret False);
     if skipped then do { record_mounted_target target; ret True }
     else if no_c_string source \<or> no_c_string target then ret False
     else do {
       prior \<leftarrow> stat_inode (mp_world pl) target;
       modifies (\<lambda>s. s\<lparr>ms_pre_bind_target_inode := prior\<rparr>);
       bound \<leftarrow> bind_attempts pl source target use_recursive;
       if \<not> bound then ret False
       else do {
         let is_fuse_backed = is_public_storage_alias_path (mp_user_id pl) source
           \<or> is_public_storage_alias_path (mp_user_id pl) target
           \<or> is_real_storage_anchor_path (mp_user_id pl) source \<or> is_real_storage_anchor_path (mp_user_id pl) target;
         verified \<leftarrow> (if is_fuse_backed then verify_fuse_backed_bind_landing pl target else ret True);
         if \<not> verified then ret False
         else do { record_mounted_target target; ret True }
       }
     }
   }"

definition bind_mount :: "mount_planner \<Rightarrow> bytes \<Rightarrow> bytes \<Rightarrow> bool \<Rightarrow> bool planner_m" where
  "bind_mount pl source target is_recursive = bind_mount_inner pl source target is_recursive True"

definition bind_mount_overlay :: "mount_planner \<Rightarrow> bytes \<Rightarrow> bytes \<Rightarrow> bool \<Rightarrow> bool planner_m" where
  "bind_mount_overlay pl source target is_recursive = bind_mount_inner pl source target is_recursive False"

text \<open>When the remount fails the bind is taken back, and so is its record, unless the target was recorded before.\<close>

definition take_bind_back :: "mount_world \<Rightarrow> bytes \<Rightarrow> bool \<Rightarrow> bool planner_m" where
  "take_bind_back w target previously_recorded =
     (if no_c_string target then ret False
      else do {
        e \<leftarrow> syscall w (Detach target);
        when_m (e = 0 \<and> \<not> previously_recorded) (forget_mounted_target target);
        ret False
      })"

definition bind_mount_read_write_overlay :: "mount_planner \<Rightarrow> bytes \<Rightarrow> bytes \<Rightarrow> bool \<Rightarrow> bool planner_m" where
  "bind_mount_read_write_overlay pl source target is_recursive = do {
     let use_recursive = should_use_recursive_bind pl source target is_recursive;
     previously_recorded \<leftarrow> reads (\<lambda>s. target \<in> set (ms_mounted_targets s));
     bound \<leftarrow> bind_mount_overlay pl source target use_recursive;
     if \<not> bound then ret False
     else do {
       remounted \<leftarrow> remount_bind_read_write (mp_world pl) target use_recursive;
       if remounted then ret True else take_bind_back (mp_world pl) target previously_recorded
     }
   }"

definition bind_mount_read_only :: "mount_planner \<Rightarrow> bytes \<Rightarrow> bytes \<Rightarrow> bool \<Rightarrow> bool planner_m" where
  "bind_mount_read_only pl source target is_recursive = do {
     let use_recursive = should_use_recursive_bind pl source target is_recursive;
     previously_recorded \<leftarrow> reads (\<lambda>s. target \<in> set (ms_mounted_targets s));
     bound \<leftarrow> bind_mount pl source target use_recursive;
     if \<not> bound then ret False
     else do {
       remounted \<leftarrow> remount_bind_read_only (mp_world pl) target use_recursive;
       if remounted then ret True else take_bind_back (mp_world pl) target previously_recorded
     }
   }"

end
