(* ===== verification/Mount_Dirs.thy ===== *)
theory Mount_Dirs
  imports Mount_Bind
begin

text \<open>
  Directories for mounts: creating them and setting owner and mode, from \<^verbatim>\<open>src/mount/planner.rs\<close>, with the
  repairs of single entries of \<^verbatim>\<open>src/mount/planner_paths.rs\<close>. The limits of the two scans are those of
  the code.
\<close>

section \<open>Model: repairs of one entry\<close>

definition change_mode :: "mount_world \<Rightarrow> bytes \<Rightarrow> 32 word \<Rightarrow> unit planner_m" where
  "change_mode w path mode = do { _ \<leftarrow> syscall w (ChangeMode path mode); ret () }"

definition change_owner :: "mount_world \<Rightarrow> bytes \<Rightarrow> 32 word \<Rightarrow> 32 word \<Rightarrow> unit planner_m" where
  "change_owner w path uid gid = do { _ \<leftarrow> syscall w (ChangeOwner path uid gid); ret () }"

definition repair_missing_mode_bits ::
  "mount_world \<Rightarrow> bytes \<Rightarrow> 32 word \<Rightarrow> 32 word \<Rightarrow> 32 word \<Rightarrow> bool planner_m" where
  "repair_missing_mode_bits w path mode required repair =
     (case missing_mode_bits mode required repair of
        None \<Rightarrow> ret False
      | Some fixed_mode \<Rightarrow> do { e \<leftarrow> syscall w (ChangeMode path fixed_mode); ret (e = 0) })"

text \<open>
  \<^verbatim>\<open>fix_real_public_directory_metadata\<close> and \<^verbatim>\<open>fix_allowed_real_directory_metadata\<close> do the same; only
  their log lines differ.
\<close>

definition fix_public_directory_metadata :: "mount_world \<Rightarrow> bytes \<Rightarrow> unit planner_m" where
  "fix_public_directory_metadata w path =
     (if \<not> mw_repair w then ret ()
      else do {
        st \<leftarrow> stat_node w path;
        case st of
          None \<Rightarrow> ret ()
        | Some st \<Rightarrow> do {
            when_m (nd_uid st \<noteq> MEDIA_RW_UID \<or> nd_gid st \<noteq> MEDIA_RW_GID)
              (change_owner w path MEDIA_RW_UID MEDIA_RW_GID);
            _ \<leftarrow> repair_missing_mode_bits w path (nd_mode st AND 0xFFF) REQUIRED_PUBLIC_DIR_MODE PUBLIC_DIR_REPAIR_MODE;
            ret ()
          }
      })"

definition fix_real_public_directory_metadata :: "mount_world \<Rightarrow> bytes \<Rightarrow> unit planner_m" where
  "fix_real_public_directory_metadata w path = fix_public_directory_metadata w path"

definition fix_allowed_real_directory_metadata :: "mount_world \<Rightarrow> bytes \<Rightarrow> unit planner_m" where
  "fix_allowed_real_directory_metadata w path = fix_public_directory_metadata w path"

text \<open>In octal: 0555 is 16D, 0444 is 124.\<close>

definition fix_read_only_public_metadata :: "mount_world \<Rightarrow> bytes \<Rightarrow> unit planner_m" where
  "fix_read_only_public_metadata w path =
     (if \<not> mw_repair w then ret ()
      else do {
        st \<leftarrow> stat_node w path;
        case st of
          None \<Rightarrow> ret ()
        | Some st \<Rightarrow>
            (let mode = nd_mode st AND 0xFFF;
                 required = (if nd_mode st AND S_IFMT = S_IFDIR then 0x16D else 0x124);
                 fixed_mode = mode OR required
             in when_m (fixed_mode \<noteq> mode) (change_mode w path fixed_mode))
      })"

section \<open>Model: one directory\<close>

definition to_data_media_backend_path :: "mount_planner \<Rightarrow> bytes \<Rightarrow> bytes" where
  "to_data_media_backend_path pl storage_path =
     (case storage_to_data_media_for_user storage_path (mp_user_id pl) of None \<Rightarrow> [] | Some backend \<Rightarrow> backend)"

definition monitor_display_path_for_backend :: "mount_planner \<Rightarrow> bytes \<Rightarrow> bytes" where
  "monitor_display_path_for_backend pl backend_path =
     (let normalized = normalize backend_path;
          storage_root = storage_user_root_for_user (mp_user_id pl);
          default_target = default_redirect_target (mp_package_name pl) (mp_user_id pl);
          candidate_roots = to_data_media_backend_path pl default_target
            # (if mp_redirect_target pl = [] then [] else [to_data_media_backend_path pl (mp_redirect_target pl)])
      in case List.map_filter (\<lambda>root. if root = [] then None else relative_child_path normalized root) candidate_roots of
           relative # _ \<Rightarrow> path_join storage_root relative
         | [] \<Rightarrow> data_media_to_storage_path normalized)"

definition metadata_path_of :: "mount_planner \<Rightarrow> bytes \<Rightarrow> bytes option planner_m" where
  "metadata_path_of pl path =
     reads (\<lambda>s. metadata_operations_path (mp_user_id pl) (ms_is_storage_root_redirected s) path)"

definition creation_uid_of :: "mount_planner \<Rightarrow> i32 \<Rightarrow> i32" where
  "creation_uid_of pl owner_uid = (if mw_repair (mp_world pl) then owner_uid else - 1)"

text \<open>Owner and mode of a mapped directory: nothing is changed when an existing one has its owner.\<close>

definition set_mapped_metadata :: "mount_planner \<Rightarrow> bytes \<Rightarrow> i32 \<Rightarrow> bool \<Rightarrow> unit planner_m" where
  "set_mapped_metadata pl path owner_uid is_existing =
     (let w = mp_world pl;
          effective_uid = (if owner_uid < 0 then None
            else if is_shared_public_storage_directory path (mp_user_id pl) then Some MEDIA_RW_UID
            else Some (of_int owner_uid))
      in do {
        st \<leftarrow> (if is_existing \<and> effective_uid \<noteq> None then stat_node w path else ret None);
        if (case (st, effective_uid) of (Some st, Some uid) \<Rightarrow> nd_uid st = uid | _ \<Rightarrow> False) then ret ()
        else do {
          (case effective_uid of None \<Rightarrow> ret () | Some uid \<Rightarrow> change_owner w path uid MEDIA_RW_GID);
          change_mode w path MAPPED_DIR_MODE
        }
      })"

definition ensure_writable_mapped_directory :: "mount_planner \<Rightarrow> bytes \<Rightarrow> i32 \<Rightarrow> bool planner_m" where
  "ensure_writable_mapped_directory pl path owner_uid =
     (let w = mp_world pl
      in if path = [] then ret False
         else do {
           metadata_path \<leftarrow> metadata_path_of pl path;
           case metadata_path of
             None \<Rightarrow> ret True
           | Some metadata_path \<Rightarrow> do {
               is_existing \<leftarrow> fs_is_directory w metadata_path;
               made \<leftarrow> (if is_existing then ret True
                 else create_directory w metadata_path (creation_uid_of pl owner_uid));
               if \<not> made then ret False
               else if is_existing \<and> is_android_private_backend_path metadata_path (mp_user_id pl)
                 \<and> \<not> is_android_private_package_root metadata_path (mp_user_id pl) then ret True
               else do {
                 when_m (\<not> is_existing \<and> mp_is_file_monitor_enabled pl)
                   (syscall w (PrepRecord (monitor_display_path_for_backend pl metadata_path) metadata_path));
                 if \<not> mw_repair w then ret True
                 else if no_c_string metadata_path then ret False
                 else do { set_mapped_metadata pl metadata_path owner_uid is_existing; ret True }
               }
             }
         })"

definition ensure_app_owned_mapping_target :: "mount_planner \<Rightarrow> bytes \<Rightarrow> i32 \<Rightarrow> bool planner_m" where
  "ensure_app_owned_mapping_target pl path owner_uid =
     (let w = mp_world pl
      in if path = [] \<or> owner_uid < 0 then ret True
         else do {
           metadata_path \<leftarrow> metadata_path_of pl path;
           case metadata_path of
             None \<Rightarrow> ret True
           | Some metadata_path \<Rightarrow> do {
               present \<leftarrow> fs_is_directory w metadata_path;
               made \<leftarrow> (if present then ret True
                 else create_directory w metadata_path (creation_uid_of pl owner_uid));
               if \<not> made then ret True
               else if no_c_string metadata_path then ret False
               else do {
                 st \<leftarrow> stat_node w metadata_path;
                 case st of
                   None \<Rightarrow> ret True
                 | Some st \<Rightarrow>
                     if nd_uid st = of_int owner_uid \<and> nd_mode st AND 0xFFF = MAPPED_DIR_MODE then ret True
                     else do {
                       change_owner w metadata_path (of_int owner_uid) MEDIA_RW_GID;
                       change_mode w metadata_path MAPPED_DIR_MODE;
                       ret True
                     }
               }
             }
         })"

section \<open>Model: chains of directories\<close>

definition ensure_writable_directory_chain :: "mount_planner \<Rightarrow> bytes \<Rightarrow> i32 \<Rightarrow> unit planner_m" where
  "ensure_writable_directory_chain pl path owner_uid = do {
     metadata_path \<leftarrow> metadata_path_of pl path;
     case metadata_path of
       None \<Rightarrow> ret ()
     | Some metadata_path \<Rightarrow>
         each_m (\<lambda>current. do {
             present \<leftarrow> fs_is_directory (mp_world pl) current;
             when_m (present \<and> should_apply_app_writable_metadata current (mp_user_id pl))
               (ensure_writable_mapped_directory pl current owner_uid)
           })
           (walk_up (\<lambda>current. shared_storage_root metadata_path = Some current) metadata_path)
   }"

definition ensure_app_writable_directory_chain :: "mount_planner \<Rightarrow> bytes \<Rightarrow> i32 \<Rightarrow> unit planner_m" where
  "ensure_app_writable_directory_chain pl path owner_uid = ensure_writable_directory_chain pl path owner_uid"

definition ensure_directory_exists :: "mount_planner \<Rightarrow> bytes \<Rightarrow> bool \<Rightarrow> bool planner_m" where
  "ensure_directory_exists pl path should_chown =
     (if path = [] then ret False
      else do {
        metadata_path \<leftarrow> metadata_path_of pl path;
        case metadata_path of
          None \<Rightarrow> ret True
        | Some metadata_path \<Rightarrow> do {
            made \<leftarrow> create_directory (mp_world pl) metadata_path (- 1);
            if \<not> made then ret False
            else do {
              when_m should_chown (ensure_writable_directory_chain pl metadata_path (mp_app_uid pl));
              ret True
            }
          }
      })"

definition prepare_mapping_target_dirs :: "mount_planner \<Rightarrow> path_mapping list \<Rightarrow> i32 \<Rightarrow> unit planner_m" where
  "prepare_mapping_target_dirs pl mappings owner_uid =
     each_m (\<lambda>mapping.
       (let target = trim_end_char slash (final_path mapping)
        in when_m (target \<noteq> []) (ensure_writable_mapped_directory pl target owner_uid))) mappings"

definition fix_allowed_real_directory_metadata_chain :: "mount_planner \<Rightarrow> bytes \<Rightarrow> unit planner_m" where
  "fix_allowed_real_directory_metadata_chain pl path =
     each_m (\<lambda>current.
         if should_apply_allowed_real_writable_metadata current path (mp_user_id pl) then do {
           present \<leftarrow> fs_is_directory (mp_world pl) current;
           when_m present (fix_allowed_real_directory_metadata (mp_world pl) current)
         } else ret ())
       (walk_up (\<lambda>current. current = data_media_user_root_for_user (mp_user_id pl)) path)"

definition fix_real_public_directory_metadata_chain :: "mount_planner \<Rightarrow> bytes \<Rightarrow> unit planner_m" where
  "fix_real_public_directory_metadata_chain pl path =
     each_m (\<lambda>current.
         if is_data_media_shared_public_directory current (mp_user_id pl) then do {
           present \<leftarrow> fs_is_directory (mp_world pl) current;
           when_m present (fix_real_public_directory_metadata (mp_world pl) current)
         } else ret ())
       (walk_up (\<lambda>_. False) path)"

definition ensure_real_public_directory_exists :: "mount_planner \<Rightarrow> bytes \<Rightarrow> bool planner_m" where
  "ensure_real_public_directory_exists pl path =
     (if path = [] then ret False
      else do {
        metadata_path \<leftarrow> metadata_path_of pl path;
        case metadata_path of
          None \<Rightarrow> ret True
        | Some metadata_path \<Rightarrow>
            (let fix_public = (is_data_media_shared_public_directory metadata_path (mp_user_id pl)
                   \<and> mw_repair (mp_world pl))
             in do {
               made \<leftarrow> create_directory (mp_world pl) metadata_path (if fix_public then uint MEDIA_RW_UID else - 1);
               if \<not> made then ret False
               else do {
                 when_m fix_public (do {
                   fix_real_public_directory_metadata_chain pl metadata_path;
                   fix_allowed_real_directory_metadata_chain pl metadata_path
                 });
                 ret True
               }
             })
      })"

text \<open>02010: the bit that passes the group on, and execution for the group.\<close>

definition ensure_shared_mapping_directory :: "mount_planner \<Rightarrow> bytes \<Rightarrow> unit planner_m" where
  "ensure_shared_mapping_directory pl path =
     (let w = mp_world pl
      in if \<not> mw_repair w then ret ()
         else do {
           metadata_path \<leftarrow> metadata_path_of pl path;
           case metadata_path of
             None \<Rightarrow> ret ()
           | Some metadata_path \<Rightarrow> do {
               st \<leftarrow> stat_node w metadata_path;
               case st of
                 None \<Rightarrow> ret ()
               | Some st \<Rightarrow>
                   (let mode = nd_mode st AND 0xFFF; fixed_mode = mode OR 0x408
                    in do {
                      change_owner w metadata_path (nd_uid st) MEDIA_RW_GID;
                      when_m (fixed_mode \<noteq> mode) (change_mode w metadata_path fixed_mode)
                    })
             }
         })"

definition ensure_shared_mapping_parent_chain :: "mount_planner \<Rightarrow> bytes \<Rightarrow> unit planner_m" where
  "ensure_shared_mapping_parent_chain pl path = do {
     metadata_path \<leftarrow> metadata_path_of pl path;
     case metadata_path of
       None \<Rightarrow> ret ()
     | Some metadata_path \<Rightarrow>
         (case shared_storage_root metadata_path of
            None \<Rightarrow> ret ()
          | Some stop_dir \<Rightarrow>
              each_m (\<lambda>current.
                  if mw_repair (mp_world pl) then do {
                    present \<leftarrow> fs_is_directory (mp_world pl) current;
                    when_m present (ensure_shared_mapping_directory pl current)
                  } else ret ())
                (walk_up (\<lambda>current. current = stop_dir \<or> is_android_private_storage_path current stop_dir)
                   (parent_preserving_backend_alias metadata_path)))
   }"

section \<open>Model: trees of directories\<close>

definition ALLOWED_REAL_TREE_METADATA_LIMIT :: nat where
  "ALLOWED_REAL_TREE_METADATA_LIMIT = 256"

definition READ_ONLY_TREE_METADATA_LIMIT :: nat where
  "READ_ONLY_TREE_METADATA_LIMIT = 512"

definition turn_backslashes :: "bytes \<Rightarrow> bytes" where
  "turn_backslashes path = map (\<lambda>c. if c = CHR 0x5C then slash else c) path"

definition list_directory :: "mount_world \<Rightarrow> bytes \<Rightarrow> dir_child list planner_m" where
  "list_directory w path = do {
     found \<leftarrow> ask (\<lambda>t. mw_read_dir w t path);
     ret (case found of None \<Rightarrow> [] | Some children \<Rightarrow> children)
   }"

text \<open>
  The queue of directories still to be visited, first in first out. The first argument is what is left of the limit;
  a scan that reaches it ends.
\<close>

fun read_only_tree_scan :: "nat \<Rightarrow> mount_world \<Rightarrow> bytes list \<Rightarrow> unit planner_m" where
  "read_only_tree_scan 0 w pending = ret ()"
| "read_only_tree_scan (Suc n) w [] = ret ()"
| "read_only_tree_scan (Suc n) w (current # pending) = do {
     fix_read_only_public_metadata w current;
     children \<leftarrow> list_directory w current;
     pending \<leftarrow> fold_m (\<lambda>child pending.
         (let path = turn_backslashes (dc_path child)
          in if path = [] then ret pending
             else if dc_is_dir child = Some True then ret (pending @ [path])
             else do { fix_read_only_public_metadata w path; ret pending })) children pending;
     read_only_tree_scan n w pending
   }"

definition ensure_read_only_tree_accessible :: "mount_planner \<Rightarrow> bytes \<Rightarrow> unit planner_m" where
  "ensure_read_only_tree_accessible pl path = do {
     root \<leftarrow> metadata_path_of pl path;
     case root of
       None \<Rightarrow> ret ()
     | Some root \<Rightarrow>
         if \<not> is_data_media_shared_public_directory root (mp_user_id pl) then ret ()
         else do {
           present \<leftarrow> fs_is_directory (mp_world pl) root;
           when_m present (read_only_tree_scan READ_ONLY_TREE_METADATA_LIMIT (mp_world pl) [root])
         }
   }"

fun allowed_real_tree_scan :: "nat \<Rightarrow> mount_planner \<Rightarrow> bytes list \<Rightarrow> bytes list \<Rightarrow> unit planner_m" where
  "allowed_real_tree_scan 0 pl excluded pending = ret ()"
| "allowed_real_tree_scan (Suc n) pl excluded [] = ret ()"
| "allowed_real_tree_scan (Suc n) pl excluded (current # pending) =
     (if allowed_real_metadata_path_is_excluded current excluded
         \<or> \<not> is_data_media_shared_public_directory current (mp_user_id pl)
      then allowed_real_tree_scan n pl excluded pending
      else do {
        present \<leftarrow> fs_is_directory (mp_world pl) current;
        when_m present (fix_allowed_real_directory_metadata (mp_world pl) current);
        children \<leftarrow> list_directory (mp_world pl) current;
        allowed_real_tree_scan n pl excluded
          (pending @ filter (\<lambda>path. path \<noteq> [])
             (map (\<lambda>child. turn_backslashes (dc_path child)) (filter (\<lambda>child. dc_is_dir child = Some True) children)))
      })"

definition ensure_allowed_real_existing_directory_tree_writable ::
  "mount_planner \<Rightarrow> bytes \<Rightarrow> bytes list \<Rightarrow> unit planner_m" where
  "ensure_allowed_real_existing_directory_tree_writable pl path excluded = do {
     root \<leftarrow> metadata_path_of pl path;
     case root of
       None \<Rightarrow> ret ()
     | Some root \<Rightarrow>
         if \<not> is_data_media_shared_public_directory root (mp_user_id pl) then ret ()
         else do {
           present \<leftarrow> fs_is_directory (mp_world pl) root;
           when_m present (allowed_real_tree_scan ALLOWED_REAL_TREE_METADATA_LIMIT pl excluded [root])
         }
   }"

end
