(* ===== verification/Mount_Scan.thy ===== *)
theory Mount_Scan
  imports Mount_Dirs
begin

text \<open>
  Rules with wildcards name directories that are looked up on the disk: the scan of \<^verbatim>\<open>src/mount.rs\<close>, with
  its limits on the directories looked at and on the matches.
\<close>

section \<open>Model\<close>

definition MAX_WILDCARD_MOUNT_MATCHES :: nat where
  "MAX_WILDCARD_MOUNT_MATCHES = 128"

definition MAX_WILDCARD_SCAN_DIRS :: nat where
  "MAX_WILDCARD_SCAN_DIRS = 512"

text \<open>The matches so far and the number of directories looked at.\<close>

type_synonym scan_acc = "bytes list \<times> nat"

definition scan_is_full :: "scan_acc \<Rightarrow> bool" where
  "scan_is_full acc \<longleftrightarrow> MAX_WILDCARD_MOUNT_MATCHES \<le> length (fst acc) \<or> MAX_WILDCARD_SCAN_DIRS \<le> snd acc"

fun scan_wildcard_mount_matches ::
  "nat \<Rightarrow> mount_world \<Rightarrow> bytes \<Rightarrow> bytes \<Rightarrow> bytes \<Rightarrow> scan_acc \<Rightarrow> scan_acc planner_m" where
  "scan_wildcard_mount_matches 0 w current_dir rule_path storage_path acc = ret acc"
| "scan_wildcard_mount_matches (Suc deeper) w current_dir rule_path storage_path acc =
     (if scan_is_full acc then ret acc
      else do {
        children \<leftarrow> list_directory w current_dir;
        fold_m (\<lambda>child acc.
            if scan_is_full acc \<or> dc_is_dir child \<noteq> Some True then ret acc
            else let acc = (fst acc, Suc (snd acc)); candidate = normalize_host_path (dc_path child)
              in if \<not> is_child candidate storage_path \<or> \<not> wildcard_prefix_matches rule_path candidate then ret acc
                 else if deeper = 0
                 then ret (if matches rule_path candidate True then (fst acc @ [candidate], snd acc) else acc)
                 else scan_wildcard_mount_matches deeper w candidate rule_path storage_path acc)
          children acc
      })"

definition append_concrete_wildcard_mount_matches_from_root ::
  "mount_world \<Rightarrow> bytes \<Rightarrow> bytes \<Rightarrow> bytes \<Rightarrow> bytes list \<Rightarrow> bytes list planner_m" where
  "append_concrete_wildcard_mount_matches_from_root w source_rule storage_path scan_storage_root found =
     (let scan_root = concrete_prefix_before_wildcard_preserving_alias source_rule
      in if scan_root = [] \<or> (\<not> eq_ignore_case scan_root scan_storage_root \<and> \<not> is_child scan_root scan_storage_root)
         then ret found
         else do {
           is_dir \<leftarrow> stat_is_directory w scan_root;
           let root_depth = path_segment_count scan_root;
           let rule_depth = path_segment_count source_rule;
           if is_dir \<noteq> Some True \<or> rule_depth \<le> root_depth then ret found
           else do {
             acc \<leftarrow> scan_wildcard_mount_matches (rule_depth - root_depth) w scan_root source_rule scan_storage_root ([], 0);
             ret (found @ map (path_join storage_path)
                    (List.map_filter (\<lambda>source_match. relative_child_path source_match scan_storage_root) (fst acc)))
           }
         })"

definition concrete_wildcard_mount_matches_for_roots ::
  "mount_world \<Rightarrow> bytes \<Rightarrow> bytes \<Rightarrow> bytes list \<Rightarrow> bytes list planner_m" where
  "concrete_wildcard_mount_matches_for_roots w resolved_path storage_path scan_roots =
     (let normalized = normalize resolved_path
      in if normalized = [] \<or> \<not> contains_wildcards normalized then ret []
         else case relative_child_path normalized storage_path of
                None \<Rightarrow> ret []
              | Some relative_rule \<Rightarrow> do {
                  found \<leftarrow> fold_m (\<lambda>scan_root found.
                      append_concrete_wildcard_mount_matches_from_root w (path_join scan_root relative_rule)
                        storage_path scan_root found) scan_roots [];
                  ret (sort_dedup_paths_case_insensitive found)
                })"

definition concrete_wildcard_mount_matches :: "mount_planner \<Rightarrow> bytes \<Rightarrow> bytes \<Rightarrow> bytes list planner_m" where
  "concrete_wildcard_mount_matches pl resolved_path storage_path = do {
     anchor \<leftarrow> reads ms_real_storage_anchor;
     let scan_roots = foldl append_unique_scan_root []
           ([storage_path, data_media_user_root_for_user (mp_user_id pl),
             to_data_media_backend_path pl (mp_redirect_target pl)]
            @ (case anchor of None \<Rightarrow> [] | Some anchor \<Rightarrow> [anchor]));
     concrete_wildcard_mount_matches_for_roots (mp_world pl) resolved_path storage_path scan_roots
   }"

end
