(* ===== verification/Mount_Alias.thy ===== *)
theory Mount_Alias
  imports Mount_Bind
begin

text \<open>
  Binding onto a target and all its aliases: \<^verbatim>\<open>src/mount/alias.rs\<close>. The five loops of the code are one
  loop with what differs as arguments: the bind, and the aliases that are passed over before and after the
  test that the alias exists.
\<close>

section \<open>Model\<close>

datatype primary_mount_failure = AbortAll | StopCurrentTarget | ContinueAliases

definition path_exists :: "mount_world \<Rightarrow> bytes \<Rightarrow> bool planner_m" where
  "path_exists w path = (if no_c_string path then ret False else ask (\<lambda>t. mw_lstat w t path))"

definition bind_target_key :: "mount_world \<Rightarrow> bytes \<Rightarrow> bytes planner_m" where
  "bind_target_key w target = do {
     real \<leftarrow> ask (\<lambda>t. mw_canonical w t target);
     ret (case real of None \<Rightarrow> target | Some path \<Rightarrow> path)
   }"

text \<open>The result is what the function returns and what it stores in \<^verbatim>\<open>is_any_mounted_out\<close>.\<close>

fun alias_loop ::
  "mount_world \<Rightarrow> (bytes \<Rightarrow> bool) \<Rightarrow> (bytes \<Rightarrow> bool) \<Rightarrow> (bytes \<Rightarrow> bool planner_m) \<Rightarrow> primary_mount_failure \<Rightarrow> bytes
    \<Rightarrow> bytes list \<Rightarrow> bytes list \<Rightarrow> bool \<Rightarrow> (bool \<times> bool) planner_m" where
  "alias_loop w skip_first skip bind_to failure_mode primary_target [] bound_keys is_any_mounted = ret (True, is_any_mounted)"
| "alias_loop w skip_first skip bind_to failure_mode primary_target (target # targets) bound_keys is_any_mounted =
     (let is_primary_target = (target = primary_target);
          continue = alias_loop w skip_first skip bind_to failure_mode primary_target targets
      in if skip_first target then continue bound_keys is_any_mounted
         else do {
           bind_key \<leftarrow> bind_target_key w target;
           if bind_key \<in> set bound_keys then continue bound_keys is_any_mounted
           else do {
             present \<leftarrow> (if is_primary_target then ret True else path_exists w target);
             if \<not> present \<or> skip target then continue bound_keys is_any_mounted
             else do {
               mounted \<leftarrow> bind_to target;
               if mounted then continue (bound_keys @ [bind_key]) True
               else if is_primary_target \<and> failure_mode = AbortAll then ret (False, is_any_mounted)
               else if is_primary_target \<and> failure_mode = StopCurrentTarget then ret (True, is_any_mounted)
               else continue bound_keys is_any_mounted
             }
           }
         })"

definition bind_mount_with_storage_aliases ::
  "mount_planner \<Rightarrow> bytes \<Rightarrow> bytes \<Rightarrow> bool \<Rightarrow> primary_mount_failure \<Rightarrow> (bool \<times> bool) planner_m" where
  "bind_mount_with_storage_aliases pl source primary_target is_recursive failure_mode =
     alias_loop (mp_world pl) (eq_ignore_case source)
       (\<lambda>target. target \<noteq> primary_target \<and> should_skip_self_shadowing_alias source target)
       (\<lambda>target. bind_mount pl source target is_recursive) failure_mode primary_target
       (expand_storage_alias_paths primary_target (mp_user_id pl)) [] False"

text \<open>Own private directories are restored below \<^verbatim>\<open>/storage\<close> only, and a failure at the target itself ends the loop.\<close>

definition bind_own_private_restore :: "mount_planner \<Rightarrow> bytes \<Rightarrow> bytes \<Rightarrow> bool \<Rightarrow> (bool \<times> bool) planner_m" where
  "bind_own_private_restore pl source primary_target is_recursive =
     alias_loop (mp_world pl) (eq_ignore_case source)
       (\<lambda>target. target \<noteq> primary_target \<and> should_skip_self_shadowing_alias source target)
       (\<lambda>target. bind_mount pl source target is_recursive) StopCurrentTarget primary_target
       (filter (\<lambda>target. starts_with_str target ''/storage/'') (expand_storage_alias_paths primary_target (mp_user_id pl)))
       [] False"

definition bind_overlay_mount_with_storage_aliases ::
  "mount_planner \<Rightarrow> bytes \<Rightarrow> bytes \<Rightarrow> bool \<Rightarrow> primary_mount_failure \<Rightarrow> (bool \<times> bool) planner_m" where
  "bind_overlay_mount_with_storage_aliases pl source primary_target is_recursive failure_mode =
     alias_loop (mp_world pl) (eq_ignore_case source)
       (\<lambda>target. target \<noteq> primary_target \<and> should_skip_self_shadowing_alias source target)
       (\<lambda>target. bind_mount_overlay pl source target is_recursive) failure_mode primary_target
       (expand_storage_alias_paths primary_target (mp_user_id pl)) [] False"

definition bind_read_write_mount_with_storage_aliases ::
  "mount_planner \<Rightarrow> bytes \<Rightarrow> bytes \<Rightarrow> bool \<Rightarrow> primary_mount_failure \<Rightarrow> (bool \<times> bool) planner_m" where
  "bind_read_write_mount_with_storage_aliases pl source primary_target is_recursive failure_mode =
     alias_loop (mp_world pl) (\<lambda>_. False)
       (\<lambda>target. target \<noteq> primary_target \<and> should_skip_self_shadowing_alias source target)
       (\<lambda>target. bind_mount_read_write_overlay pl source target is_recursive) failure_mode primary_target
       (expand_storage_alias_paths primary_target (mp_user_id pl)) [] False"

definition bind_read_only_mount_with_storage_aliases_inner ::
  "mount_planner \<Rightarrow> bytes \<Rightarrow> bytes \<Rightarrow> bool \<Rightarrow> primary_mount_failure \<Rightarrow> bool \<Rightarrow> (bool \<times> bool) planner_m" where
  "bind_read_only_mount_with_storage_aliases_inner pl source primary_target is_recursive failure_mode preserve_backend =
     alias_loop (mp_world pl) (\<lambda>_. False)
       (\<lambda>target. (target \<noteq> primary_target \<and> eq_ignore_case source target)
         \<or> (preserve_backend \<and> is_data_media_backend_alias target (mp_user_id pl))
         \<or> (target \<noteq> primary_target \<and> should_skip_self_shadowing_alias source target))
       (\<lambda>target. bind_mount_read_only pl source target is_recursive) failure_mode primary_target
       (expand_storage_alias_paths primary_target (mp_user_id pl)) [] False"

definition bind_read_only_mount_with_storage_aliases ::
  "mount_planner \<Rightarrow> bytes \<Rightarrow> bytes \<Rightarrow> bool \<Rightarrow> primary_mount_failure \<Rightarrow> (bool \<times> bool) planner_m" where
  "bind_read_only_mount_with_storage_aliases pl source primary_target is_recursive failure_mode =
     bind_read_only_mount_with_storage_aliases_inner pl source primary_target is_recursive failure_mode False"

definition bind_read_only_mount_with_storage_aliases_preserving_backend ::
  "mount_planner \<Rightarrow> bytes \<Rightarrow> bytes \<Rightarrow> bool \<Rightarrow> primary_mount_failure \<Rightarrow> (bool \<times> bool) planner_m" where
  "bind_read_only_mount_with_storage_aliases_preserving_backend pl source primary_target is_recursive failure_mode =
     bind_read_only_mount_with_storage_aliases_inner pl source primary_target is_recursive failure_mode True"

end
