(* ===== verification/Mount_Map.thy ===== *)
theory Mount_Map
  imports Mount_Scan Mount_Alias
begin

text \<open>
  Path mappings as mounts: \<^verbatim>\<open>src/mount/map.rs\<close>. The configured mappings are resolved to absolute paths and
  expanded by \<^verbatim>\<open>Domain\<close>; each of them is then bound, with its target found or made, and bound again
  read-only when a rule says so.
\<close>

section \<open>Model: resolving mappings and rules\<close>

definition planner_resolve :: "mount_planner \<Rightarrow> bytes \<Rightarrow> bytes" where
  "planner_resolve pl path =
     resolve_user_path (resolve_placeholders (normalize path) (mp_app_data_dir pl) (mp_redirect_target pl)) (mp_user_id pl)"

definition below_storage :: "bytes \<Rightarrow> bytes \<Rightarrow> bytes" where
  "below_storage storage_path path =
     (if is_absolute path then path else normalize (path_join storage_path path))"

definition resolve_path_mapping :: "mount_planner \<Rightarrow> bytes \<Rightarrow> path_mapping \<Rightarrow> path_mapping option" where
  "resolve_path_mapping pl storage_path mapping =
     (let current_path = planner_resolve pl (request_path mapping);
          target_path = planner_resolve pl (final_path mapping)
      in if current_path = [] \<or> target_path = [] then None
         else if has_unsafe_segments current_path \<or> has_unsafe_segments target_path then None
         else let current_path = below_storage storage_path current_path;
                  target_path = below_storage storage_path target_path
           in if current_path = ''/'' \<or> target_path = ''/'' then None
              else if \<not> is_safe_namespace_path current_path \<or> \<not> is_safe_namespace_path target_path then None
              else if is_application_private_root current_path then None
              else if eq_ignore_case current_path target_path then None
              else Some (PathMapping_new current_path target_path))"

definition resolve_path_mappings :: "mount_planner \<Rightarrow> path_mapping list \<Rightarrow> bytes \<Rightarrow> path_mapping list" where
  "resolve_path_mappings pl mappings storage_path =
     sort_path_mappings_shortest_request_first
       (expand_namespace_path_mappings (List.map_filter (resolve_path_mapping pl storage_path) mappings))"

definition resolve_mount_rule_path :: "mount_planner \<Rightarrow> bytes \<Rightarrow> bytes \<Rightarrow> bytes option" where
  "resolve_mount_rule_path pl path storage_path =
     (let resolved = planner_resolve pl path
      in if resolved = [] \<or> has_unsafe_segments resolved then None
         else let resolved = below_storage storage_path resolved
           in if eq_ignore_case resolved storage_path \<or> \<not> is_child resolved storage_path then None
              else Some resolved)"

definition is_path_read_only_for_mount ::
  "mount_planner \<Rightarrow> bytes \<Rightarrow> bytes list \<Rightarrow> bytes list \<Rightarrow> bytes \<Rightarrow> bool" where
  "is_path_read_only_for_mount pl path ro_rules excluded_rules storage_path =
     (let (included, excluded) = split_exclusion_rules ro_rules;
          ro_excluded = overlapping_exclusion_rules included excluded;
          covers = (\<lambda>rules. list_ex (\<lambda>rule. matches rule path True)
            (List.map_filter (\<lambda>rule. resolve_mount_rule_path pl rule storage_path) rules))
      in if covers (excluded_rules @ ro_excluded) then False else covers included)"

definition is_mapping_read_only ::
  "mount_planner \<Rightarrow> path_mapping \<Rightarrow> bytes list \<Rightarrow> bytes list \<Rightarrow> bytes \<Rightarrow> bool" where
  "is_mapping_read_only pl mapping ro_rules excluded_rules storage_path =
     is_path_read_only_for_mount pl (final_path mapping) ro_rules excluded_rules storage_path"

section \<open>Model: the source of a mapping\<close>

definition mapping_mount_point_exists :: "mount_world \<Rightarrow> bytes \<Rightarrow> bool planner_m" where
  "mapping_mount_point_exists w path = do {
     st \<leftarrow> stat_node w path;
     ret (case st of None \<Rightarrow> False
        | Some st \<Rightarrow> nd_mode st AND S_IFMT = S_IFDIR \<or> nd_mode st AND S_IFMT = S_IFREG)
   }"

text \<open>The first root that has the directory.\<close>

definition first_directory :: "mount_world \<Rightarrow> bytes \<Rightarrow> bytes list \<Rightarrow> bytes option planner_m" where
  "first_directory w relative roots =
     first_m (\<lambda>root. do {
         present \<leftarrow> fs_is_directory w (path_join root relative);
         ret (if present then Some (path_join root relative) else None)
       }) roots"

definition resolve_mapping_target_source ::
  "mount_planner \<Rightarrow> bytes \<Rightarrow> bytes list \<Rightarrow> bool \<Rightarrow> (bytes \<times> bool) option planner_m" where
  "resolve_mapping_target_source pl target_relative target_source_roots existing_only = do {
     let w = mp_world pl;
     let data_root = data_media_user_root_for_user (mp_user_id pl);
     let target_data_media = path_join data_root target_relative;
     found \<leftarrow> first_directory w target_relative target_source_roots;
     case found of
       Some candidate \<Rightarrow> do {
         metadata_path \<leftarrow> metadata_path_of pl candidate;
         ret (Some (candidate, mapping_target_source_needs_app_writable_metadata
           (case metadata_path of Some p \<Rightarrow> p | None \<Rightarrow> candidate) (mp_user_id pl)))
       }
     | None \<Rightarrow> do {
         missing \<leftarrow> (if existing_only then do { d \<leftarrow> fs_is_directory w target_data_media; ret (\<not> d) } else ret False);
         if missing then ret None
         else do {
           made \<leftarrow> ensure_real_public_directory_exists pl target_data_media;
           if \<not> made then ret None
           else do {
             found \<leftarrow> first_directory w target_relative
               (filter (\<lambda>root. \<not> eq_ignore_case root data_root) target_source_roots);
             ret (case found of Some candidate \<Rightarrow> Some (candidate, False) | None \<Rightarrow> Some (target_data_media, True))
           }
         }
       }
   }"

definition resolve_mapping_target_source_path ::
  "mount_planner \<Rightarrow> bytes \<Rightarrow> bytes \<Rightarrow> bytes list \<Rightarrow> bool \<Rightarrow> (bytes \<times> bool) option planner_m" where
  "resolve_mapping_target_source_path pl final storage_path target_source_roots existing_only =
     (case relative_child_path final storage_path of
        Some relative \<Rightarrow> resolve_mapping_target_source pl relative target_source_roots existing_only
      | None \<Rightarrow> do {
          st \<leftarrow> stat_node (mp_world pl) final;
          available \<leftarrow> (if st = None then ensure_directory_exists pl final True else ret True);
          if \<not> available then ret None
          else do {
            usable \<leftarrow> mapping_mount_point_exists (mp_world pl) final;
            ret (if usable then Some (final, False) else None)
          }
        })"

section \<open>Model: the mount point of a mapping\<close>

definition ensure_mapping_request_mount_point ::
  "mount_planner \<Rightarrow> bytes \<Rightarrow> bytes \<Rightarrow> bool \<Rightarrow> bool \<Rightarrow> (bytes \<times> bytes) option \<Rightarrow> bool planner_m" where
  "ensure_mapping_request_mount_point pl request storage_path chown_current prefer_redirect_fallback covering_mount = do {
     present \<leftarrow> mapping_mount_point_exists (mp_world pl) request;
     if present \<or> \<not> prefer_redirect_fallback then ret present
     else case (case covering_mount of
                  None \<Rightarrow> None
                | Some (covering_request, covering_target) \<Rightarrow>
                    map_option (\<lambda>remainder. normalize (path_join covering_target remainder))
                      (relative_child_path request covering_request)) of
         Some mount_point_source \<Rightarrow> do {
           made \<leftarrow> ensure_directory_exists pl mount_point_source chown_current;
           if made then mapping_mount_point_exists (mp_world pl) request else ret False
         }
       | None \<Rightarrow>
           if \<not> is_same_or_child request storage_path then ret False
           else do {
             (case relative_child_path request storage_path of
                None \<Rightarrow> ret True
              | Some current_relative \<Rightarrow>
                  ensure_directory_exists pl (normalize (path_join (mp_redirect_target pl) current_relative)) chown_current);
             ret False
           }
   }"

section \<open>Model: applying mappings\<close>

record mapping_options =
  mo_chown_current_dirs :: bool
  mo_create_missing_request_path :: bool
  mo_existing_target_source_only :: bool

text \<open>The mappings mounted in this round, as pairs of request and source, and whether any was.\<close>

type_synonym map_acc = "(bytes \<times> bytes) list \<times> bool"

definition covering_mapping :: "bytes \<Rightarrow> (bytes \<times> bytes) list \<Rightarrow> (bytes \<times> bytes) option" where
  "covering_mapping request mounted =
     max_by_key (\<lambda>(covering_request, _). length covering_request)
       (filter (\<lambda>(covering_request, _). covering_request \<noteq> request \<and> is_same_or_child request covering_request) mounted)"

definition is_directory_or_unknown :: "mount_world \<Rightarrow> bytes \<Rightarrow> bool planner_m" where
  "is_directory_or_unknown w path = do {
     is_dir \<leftarrow> stat_is_directory w path;
     ret (case is_dir of None \<Rightarrow> True | Some d \<Rightarrow> d)
   }"

text \<open>The bind at the request path; the answer is whether it, or an alias of it, was bound.\<close>

definition bind_mapping_request :: "mount_planner \<Rightarrow> bytes \<Rightarrow> bytes \<Rightarrow> bytes \<Rightarrow> bool planner_m" where
  "bind_mapping_request pl target_source request storage_path =
     (if is_same_or_child request storage_path
      then do {
        (_, mounted) \<leftarrow> bind_overlay_mount_with_storage_aliases pl target_source request True ContinueAliases;
        ret mounted
      }
      else do {
        recursive \<leftarrow> is_directory_or_unknown (mp_world pl) target_source;
        bind_mount_overlay pl target_source request recursive
      })"

text \<open>What follows a mounted mapping: its target is restored below a preferred root, and read-only rules apply.\<close>

definition finish_mapping ::
  "mount_planner \<Rightarrow> path_mapping \<Rightarrow> bytes \<Rightarrow> bytes \<Rightarrow> bytes list \<Rightarrow> bytes list \<Rightarrow> bytes list \<Rightarrow> unit planner_m" where
  "finish_mapping pl mapping target_source storage_path preferred_roots ro_rules excluded_rules = do {
     restore \<leftarrow> (if list_ex (is_same_or_child (final_path mapping)) preferred_roots
       then ensure_directory_exists pl (final_path mapping) False else ret False);
     when_m restore
       (bind_overlay_mount_with_storage_aliases pl target_source (final_path mapping) True ContinueAliases);
     when_m (is_mapping_read_only pl mapping ro_rules excluded_rules storage_path)
       (bind_read_only_mount_with_storage_aliases pl target_source (request_path mapping) True ContinueAliases)
   }"

definition apply_resolved_mapping ::
  "mount_planner \<Rightarrow> bytes \<Rightarrow> bytes list \<Rightarrow> bytes list \<Rightarrow> bytes list \<Rightarrow> bytes list \<Rightarrow> mapping_options
    \<Rightarrow> path_mapping \<Rightarrow> map_acc \<Rightarrow> map_acc planner_m" where
  "apply_resolved_mapping pl storage_path source_roots preferred_roots ro_rules excluded_rules opts mapping acc = do {
     source \<leftarrow> resolve_mapping_target_source_path pl (final_path mapping) storage_path source_roots
       (mo_existing_target_source_only opts);
     case source of
       None \<Rightarrow> ret acc
     | Some (target_source, should_fix) \<Rightarrow> do {
         fixed \<leftarrow> (if should_fix then ensure_writable_mapped_directory pl target_source (mp_app_uid pl) else ret True);
         if \<not> fixed then ret acc
         else do {
           when_m should_fix (ensure_shared_mapping_parent_chain pl target_source);
           owned \<leftarrow> ensure_app_owned_mapping_target pl target_source (mp_app_uid pl);
           if \<not> owned then ret acc
           else do {
             ready \<leftarrow> ensure_mapping_request_mount_point pl (request_path mapping) storage_path
               (mo_chown_current_dirs opts) (mo_create_missing_request_path opts)
               (covering_mapping (request_path mapping) (fst acc));
             if \<not> ready then ret acc
             else do {
               mounted \<leftarrow> bind_mapping_request pl target_source (request_path mapping) storage_path;
               if \<not> mounted then ret acc
               else do {
                 finish_mapping pl mapping target_source storage_path preferred_roots ro_rules excluded_rules;
                 ret (fst acc @ [(request_path mapping, target_source)], True)
               }
             }
           }
         }
       }
   }"

definition apply_resolved_path_mappings ::
  "mount_planner \<Rightarrow> path_mapping list \<Rightarrow> bytes \<Rightarrow> bytes list \<Rightarrow> bytes list \<Rightarrow> bytes list \<Rightarrow> bytes list
    \<Rightarrow> mapping_options \<Rightarrow> bool planner_m" where
  "apply_resolved_path_mappings pl resolved_mappings storage_path source_roots preferred_roots ro_rules excluded_rules opts = do {
     acc \<leftarrow> fold_m (apply_resolved_mapping pl storage_path source_roots preferred_roots ro_rules excluded_rules opts)
       resolved_mappings ([], False);
     ret (snd acc)
   }"

end
