(* ===== verification/Mount_Propagation.thy ===== *)
theory Mount_Propagation
  imports Mount_State
begin

text \<open>
  Cutting the namespace off from mounts of the rest of the system: \<^verbatim>\<open>src/mount/propagation.rs\<close>. Only shared
  mounts and the mounts that serve the storage roots are made private; what is left is checked, and healed
  once, by reading the mount table again.
\<close>

section \<open>Model\<close>

definition is_storage_view_mount :: "bytes \<Rightarrow> bool" where
  "is_storage_view_mount target \<longleftrightarrow>
     ''emulated'' \<in> set (split_char slash target) \<or> target = ''/data/media'' \<or> starts_with_str target ''/data/media/''"

definition is_ancestor_or_self :: "bytes \<Rightarrow> bytes \<Rightarrow> bool" where
  "is_ancestor_or_self ancestor path =
     (if ancestor = [] then False
      else if ancestor = path then True
      else case strip_prefix path (trim_end_char slash ancestor) of
             None \<Rightarrow> False
           | Some rest \<Rightarrow> starts_with_str rest ''/'')"

definition serving_mount_point :: "bytes list \<Rightarrow> bytes \<Rightarrow> bytes option" where
  "serving_mount_point table path =
     (let normalized = normalize path
      in foldl (\<lambda>best line.
          case parse_entry line of
            None \<Rightarrow> best
          | Some entry \<Rightarrow>
              (let target = unescape_field (mi_target entry)
               in if is_ancestor_or_self target normalized
                     \<and> (case best of None \<Rightarrow> True | Some current \<Rightarrow> length current < length target)
                  then Some target else best)) None table)"

text \<open>No entry lies on this one at the same mount point.\<close>

definition is_topmost_at :: "bytes list \<Rightarrow> nat \<Rightarrow> bytes \<Rightarrow> bool" where
  "is_topmost_at table mount_id target =
     list_all (\<lambda>line. case parse_entry line of
         None \<Rightarrow> True
       | Some other \<Rightarrow> \<not> (mi_parent_mount_id other = mount_id \<and> unescape_field (mi_target other) = target)) table"

definition shared_targets :: "bytes list \<Rightarrow> bytes list" where
  "shared_targets table =
     List.map_filter (\<lambda>line. if has_propagation_tag line ''shared:''
       then map_option (\<lambda>entry. unescape_field (mi_target entry)) (parse_entry line) else None) table"

definition slave_targets_of_root :: "bytes list \<Rightarrow> bytes \<Rightarrow> bytes list" where
  "slave_targets_of_root table root =
     (case serving_mount_point table root of
        None \<Rightarrow> []
      | Some serving \<Rightarrow>
          if \<not> is_storage_view_mount serving then []
          else List.map_filter (\<lambda>line.
            (case parse_entry line of
               None \<Rightarrow> None
             | Some entry \<Rightarrow>
                 (let target = unescape_field (mi_target entry)
                  in if is_ancestor_or_self serving target \<and> is_ancestor_or_self target root
                        \<and> is_topmost_at table (mi_mount_id entry) target
                        \<and> (has_propagation_tag line ''master:'' \<or> has_propagation_tag line ''propagate_from:'')
                     then Some target else None))) table)"

definition isolation_violations_in :: "bytes list \<Rightarrow> bytes list \<Rightarrow> bytes list" where
  "isolation_violations_in roots table =
     remdups_adj (sort (shared_targets table @ concat (map (slave_targets_of_root table) roots)))"

definition read_mountinfo_lines :: "mount_world \<Rightarrow> bytes list option planner_m" where
  "read_mountinfo_lines w = do {
     content \<leftarrow> read_mountinfo w;
     ret (map_option rust_lines content)
   }"

definition make_private :: "mount_world \<Rightarrow> bytes \<Rightarrow> bool \<Rightarrow> bool planner_m" where
  "make_private w target recursive =
     (if no_c_string target then ret False
      else do { e \<leftarrow> syscall w (MakePrivate target recursive); ret (e = 0) })"

definition isolation_violations :: "mount_world \<Rightarrow> bytes list \<Rightarrow> bytes list option planner_m" where
  "isolation_violations w roots = do {
     table \<leftarrow> read_mountinfo_lines w;
     ret (map_option (isolation_violations_in roots) table)
   }"

text \<open>Two looks at the table, with one attempt to heal between them.\<close>

definition verify_isolation :: "mount_world \<Rightarrow> bytes list \<Rightarrow> bool planner_m" where
  "verify_isolation w roots = do {
     violations \<leftarrow> isolation_violations w roots;
     case violations of
       None \<Rightarrow> ret False
     | Some [] \<Rightarrow> ret True
     | Some (v # vs) \<Rightarrow> do {
         healed \<leftarrow> filter_m (\<lambda>target. if target = [] then ret False else make_private w target False) (v # vs);
         if healed = [] then ret False
         else do {
           violations \<leftarrow> isolation_violations w roots;
           ret (violations = Some [])
         }
       }
   }"

definition isolate_mounts_for_roots :: "mount_world \<Rightarrow> bytes list \<Rightarrow> bool planner_m" where
  "isolate_mounts_for_roots w roots = do {
     table \<leftarrow> read_mountinfo_lines w;
     case table of
       None \<Rightarrow> ret False
     | Some table \<Rightarrow> do {
         each_m (\<lambda>target. when_m True (make_private w target False)) (shared_targets table);
         _ \<leftarrow> fold_m (\<lambda>root isolated.
             (case serving_mount_point table root of
                None \<Rightarrow> ret isolated
              | Some serving \<Rightarrow>
                  if \<not> is_storage_view_mount serving \<or> serving \<in> set isolated then ret isolated
                  else do {
                    ok \<leftarrow> make_private w serving False;
                    ret (if ok then isolated @ [serving] else isolated)
                  })) roots [];
         verify_isolation w roots
       }
   }"

definition isolate_storage_mounts :: "mount_world \<Rightarrow> i32 \<Rightarrow> bool planner_m" where
  "isolate_storage_mounts w user_id =
     isolate_mounts_for_roots w
       (filter (\<lambda>root. root \<noteq> []) (storage_user_root_for_user user_id # storage_alias_roots_for_user user_id))"

definition make_tree_private_fallback :: "mount_world \<Rightarrow> bool planner_m" where
  "make_tree_private_fallback w = do { e \<leftarrow> syscall w (MakePrivate ''/'' True); ret (e = 0) }"

definition system_view_root_paths :: "i32 \<Rightarrow> bytes list" where
  "system_view_root_paths user_id =
     [''/storage/emulated'', ''/mnt/user/'' @ fmt_i32 user_id @ ''/emulated'',
      ''/mnt/installer/'' @ fmt_i32 user_id @ ''/emulated'', ''/mnt/androidwritable/'' @ fmt_i32 user_id @ ''/emulated'',
      ''/mnt/pass_through/'' @ fmt_i32 user_id @ ''/emulated'']
     @ map (\<lambda>mode. ''/mnt/runtime/'' @ mode @ ''/emulated'') [''default'', ''read'', ''write'', ''full'']"

text \<open>The devices, without repetition; the code keeps a hash set.\<close>

definition system_view_root_devs :: "mount_world \<Rightarrow> i32 \<Rightarrow> bytes list planner_m" where
  "system_view_root_devs w user_id = do {
     table \<leftarrow> read_mountinfo_lines w;
     ret (case table of
            None \<Rightarrow> []
          | Some table \<Rightarrow> remdups (List.map_filter (\<lambda>line.
              (case parse_entry line of
                 None \<Rightarrow> None
               | Some entry \<Rightarrow>
                   if unescape_field (mi_target entry) \<in> set (system_view_root_paths user_id) \<and> mi_dev entry \<noteq> []
                   then Some (mi_dev entry) else None)) table))
   }"

text \<open>\<^verbatim>\<open>ensure_mount_namespace_prepared\<close> of \<^verbatim>\<open>src/mount/planner.rs\<close>.\<close>

definition ensure_mount_namespace_prepared :: "mount_planner \<Rightarrow> bool planner_m" where
  "ensure_mount_namespace_prepared pl = do {
     is_ready \<leftarrow> reads ms_is_namespace_ready;
     if is_ready then ret True
     else do {
       e \<leftarrow> (if mp_should_unshare pl then syscall (mp_world pl) Unshare else ret 0);
       if e \<noteq> 0 then ret False
       else do {
         isolated \<leftarrow> isolate_storage_mounts (mp_world pl) (mp_user_id pl);
         private \<leftarrow> (if isolated then ret True else make_tree_private_fallback (mp_world pl));
         when_m private (modifies (\<lambda>s. s\<lparr>ms_is_namespace_ready := True\<rparr>));
         ret private
       }
     }
   }"

end
