(* ===== verification/Mount_Apply.thy ===== *)
theory Mount_Apply
  imports Mount_Map Mount_Propagation
begin

text \<open>
  The two plans of the planner, redirection of the whole storage and mappings alone, and what they are made of:
  \<^verbatim>\<open>src/mount/apply.rs\<close>; with the markers by which a failed restore of an own private directory is tried
  again (\<^verbatim>\<open>src/mount/own_private_pending.rs\<close>). The two functions of \<^verbatim>\<open>apply.rs\<close> that only write diagnoses
  to the log are left out.
\<close>

section \<open>Model: markers of failed restores\<close>

definition MAX_READY_FAILURES :: nat where
  "MAX_READY_FAILURES = 20"

definition MAX_ROUNDS :: nat where
  "MAX_ROUNDS = 120"

definition pending_dir :: bytes where
  "pending_dir = path_join ''/data/adb/modules/storage.redirect.x'' ''tmp/own_private_pending''"

definition marker_path :: "bytes \<Rightarrow> bytes option" where
  "marker_path package =
     (if package = [] \<or> contains_char package slash \<or> contains_str package ''..'' \<or> 160 < length package then None
      else Some (path_join pending_dir package))"

definition pending_backoff_ms :: "nat \<Rightarrow> int" where
  "pending_backoff_ms rounds = (if rounds \<le> 3 then 3000 else if rounds \<le> 20 then 15000 else 30000)"

definition marker_counts :: "bytes option \<Rightarrow> nat \<times> nat" where
  "marker_counts text =
     (case split_whitespace (case text of None \<Rightarrow> [] | Some text \<Rightarrow> text) of
        [] \<Rightarrow> (0, 0)
      | [rounds] \<Rightarrow> (case parse_unsigned 32 rounds of None \<Rightarrow> 0 | Some n \<Rightarrow> n, 0)
      | rounds # ready # _ \<Rightarrow>
          (case parse_unsigned 32 rounds of None \<Rightarrow> 0 | Some n \<Rightarrow> n,
           case parse_unsigned 32 ready of None \<Rightarrow> 0 | Some n \<Rightarrow> n))"

text \<open>The counters are \<^verbatim>\<open>u32\<close> and wrap.\<close>

definition add_u32 :: "nat \<Rightarrow> nat \<Rightarrow> nat" where
  "add_u32 a b = (a + b) mod 2 ^ 32"

definition note_failure :: "mount_world \<Rightarrow> bytes \<Rightarrow> bool \<Rightarrow> unit planner_m" where
  "note_failure w package view_ready =
     (case marker_path package of
        None \<Rightarrow> ret ()
      | Some path \<Rightarrow> do {
          text \<leftarrow> ask (\<lambda>t. mw_marker w t path);
          let rounds = add_u32 (fst (marker_counts text)) 1;
          let ready_failures = add_u32 (snd (marker_counts text)) (if view_ready then 1 else 0);
          when_m True (syscall w
            (if MAX_READY_FAILURES < ready_failures \<or> MAX_ROUNDS < rounds then RemoveMarker path
             else WriteMarker path rounds ready_failures))
        })"

definition note_success :: "mount_world \<Rightarrow> bytes \<Rightarrow> unit planner_m" where
  "note_success w package =
     (case marker_path package of None \<Rightarrow> ret () | Some path \<Rightarrow> when_m True (syscall w (RemoveMarker path)))"

text \<open>A marker in the directory: its name, its text, and how long ago it was written.\<close>

record pending_marker =
  pk_name :: bytes
  pk_text :: "bytes option"
  pk_age_ms :: "int option"

definition SCAN_INTERVAL_MS :: int where
  "SCAN_INTERVAL_MS = 3000"

text \<open>
  One marker of a scan that is due: the package to be mounted again, if any. The first argument tells whether
  the marker can be written.
\<close>

definition take_due_marker :: "bool \<Rightarrow> pending_marker \<Rightarrow> (bytes option \<times> pending_marker option)" where
  "take_due_marker writable m =
     (let (rounds, ready_failures) = marker_counts (pk_text m)
      in if (case pk_age_ms m of None \<Rightarrow> SCAN_INTERVAL_MS | Some age \<Rightarrow> age) < pending_backoff_ms rounds then (None, Some m)
         else if MAX_READY_FAILURES < ready_failures \<or> MAX_ROUNDS < add_u32 rounds 1 then (None, None)
         else if \<not> writable then (None, Some m)
         else (Some (pk_name m), Some (m\<lparr>pk_text := Some (show_nat (add_u32 rounds 1) @ '' '' @ show_nat ready_failures),
                 pk_age_ms := Some 0\<rparr>)))"

text \<open>The scan: the packages that are due and the markers that are left; \<open>prev_scan\<close> is the time of the scan before.\<close>

definition take_due_packages ::
  "int \<Rightarrow> bool \<Rightarrow> int \<Rightarrow> pending_marker list \<Rightarrow> (bytes list \<times> pending_marker list) \<times> int" where
  "take_due_packages now writable prev_scan markers =
     (if sat_sub_i64 now prev_scan < SCAN_INTERVAL_MS then (([], markers), prev_scan)
      else ((List.map_filter (\<lambda>m. fst (take_due_marker writable m)) markers,
             List.map_filter (\<lambda>m. snd (take_due_marker writable m)) markers), now))"

section \<open>Model: the anchor of the real storage\<close>

definition mountinfo_text :: "mount_world \<Rightarrow> bytes planner_m" where
  "mountinfo_text w = do {
     content \<leftarrow> read_mountinfo w;
     ret (case content of None \<Rightarrow> [] | Some content \<Rightarrow> content)
   }"

definition real_storage_anchor_is_usable :: "mount_planner \<Rightarrow> bytes \<Rightarrow> bytes \<Rightarrow> bool planner_m" where
  "real_storage_anchor_is_usable pl anchor_mount usable = do {
     present \<leftarrow> fs_is_directory (mp_world pl) usable;
     if \<not> present then ret False
     else do {
       content \<leftarrow> mountinfo_text (mp_world pl);
       if \<not> mountinfo_has_target content anchor_mount
          \<or> mountinfo_root_is_app_sandbox content anchor_mount (mp_package_name pl) then ret False
       else do {
         child \<leftarrow> find_m (\<lambda>child. fs_is_directory (mp_world pl) (path_join usable child))
           [''Android'', ''Download'', ''DCIM''];
         ret (child \<noteq> None)
       }
     }
   }"

text \<open>One source for the anchor: it is bound, and taken off again when what it shows is not the user's storage.\<close>

definition try_anchor_source :: "mount_planner \<Rightarrow> bytes \<Rightarrow> bytes \<Rightarrow> bytes \<Rightarrow> bytes option planner_m" where
  "try_anchor_source pl anchor_mount usable source =
     (let w = mp_world pl
      in do {
        present \<leftarrow> fs_is_directory w source;
        if \<not> present then ret None
        else do {
          detach_mount_if_present w anchor_mount;
          bound \<leftarrow> bind_mount pl source anchor_mount False;
          if \<not> bound then ret None
          else do {
            shows_user \<leftarrow> fs_is_directory w usable;
            sandboxed \<leftarrow> (if shows_user then do {
                content \<leftarrow> mountinfo_text w;
                ret (mountinfo_root_is_app_sandbox content anchor_mount (mp_package_name pl))
              } else ret False);
            if \<not> shows_user \<or> sandboxed then do { detach_mount_if_present w anchor_mount; ret None }
            else ret (Some usable)
          }
        }
      })"

definition set_real_storage_anchor :: "bytes option \<Rightarrow> unit planner_m" where
  "set_real_storage_anchor anchor = modifies (\<lambda>s. s\<lparr>ms_real_storage_anchor := anchor\<rparr>)"

definition prepare_real_storage_anchor :: "mount_planner \<Rightarrow> bytes option planner_m" where
  "prepare_real_storage_anchor pl =
     (let w = mp_world pl;
          anchor_mount = real_storage_anchor_mount_path (mp_user_id pl);
          usable = real_storage_anchor_usable_path (mp_user_id pl)
      in do {
        set_real_storage_anchor None;
        reusable \<leftarrow> real_storage_anchor_is_usable pl anchor_mount usable;
        if reusable then do { set_real_storage_anchor (Some usable); ret (Some usable) }
        else do {
          detach_mount_if_present w anchor_mount;
          made \<leftarrow> ensure_directory_exists pl anchor_mount False;
          if \<not> made then ret None
          else do {
            anchor \<leftarrow> first_m (try_anchor_source pl anchor_mount usable)
              [''/mnt/user/'' @ fmt_i32 (mp_user_id pl) @ ''/emulated'', ''/data/media''];
            when_m (anchor \<noteq> None) (set_real_storage_anchor anchor);
            ret anchor
          }
        }
      })"

definition detach_real_storage_anchor :: "mount_planner \<Rightarrow> unit planner_m" where
  "detach_real_storage_anchor pl = do {
     anchor \<leftarrow> reads ms_real_storage_anchor;
     when_m (anchor \<noteq> None) (do {
       set_real_storage_anchor None;
       detach_mount_if_present (mp_world pl) (real_storage_anchor_mount_path (mp_user_id pl))
     })
   }"

section \<open>Model: resolving rules\<close>

definition resolve_storage_path_for_mount :: "mount_planner \<Rightarrow> bytes \<Rightarrow> bytes \<Rightarrow> bytes option" where
  "resolve_storage_path_for_mount pl path storage_path =
     (let resolved = planner_resolve pl path
      in if resolved = [] \<or> has_unsafe_segments resolved then None
         else if eq_ignore_case resolved storage_path \<or> \<not> is_child resolved storage_path then None
         else Some resolved)"

text \<open>
  The directories of one resolved rule: those its wildcards match on the disk, or without a match the concrete
  parent, when \<open>fallback\<close> allows it.
\<close>

definition concrete_directories :: "mount_planner \<Rightarrow> bytes \<Rightarrow> bool \<Rightarrow> bytes \<Rightarrow> bytes list planner_m" where
  "concrete_directories pl storage_path fallback resolved =
     (if \<not> contains_wildcards resolved then ret [resolved]
      else do {
        matched \<leftarrow> concrete_wildcard_mount_matches pl resolved storage_path;
        ret (if matched \<noteq> [] then matched
             else if \<not> fallback then []
             else case concrete_mount_fallback_parent resolved storage_path of None \<Rightarrow> [] | Some parent_dir \<Rightarrow> [parent_dir])
      })"

definition resolve_each_path :: "mount_planner \<Rightarrow> bytes \<Rightarrow> bool \<Rightarrow> bytes list \<Rightarrow> bytes list planner_m" where
  "resolve_each_path pl storage_path fallback rules =
     fold_m (\<lambda>path found.
       (case resolve_storage_path_for_mount pl path storage_path of
          None \<Rightarrow> ret found
        | Some resolved \<Rightarrow> do {
            dirs \<leftarrow> concrete_directories pl storage_path fallback resolved;
            ret (found @ dirs)
          })) rules []"

definition resolve_concrete_storage_paths :: "mount_planner \<Rightarrow> bytes list \<Rightarrow> bytes \<Rightarrow> bytes list planner_m" where
  "resolve_concrete_storage_paths pl rules storage_path = do {
     found \<leftarrow> resolve_each_path pl storage_path True rules;
     ret (sort_dedup_paths_case_insensitive found)
   }"

definition resolve_excluded_storage_mount_paths :: "mount_planner \<Rightarrow> bytes list \<Rightarrow> bytes \<Rightarrow> bytes list planner_m" where
  "resolve_excluded_storage_mount_paths pl rules storage_path = do {
     found \<leftarrow> resolve_each_path pl storage_path False rules;
     ret (sort_dedup_paths_longest_first_case_insensitive found)
   }"

definition resolve_read_only_exclusion_rules :: "mount_planner \<Rightarrow> bytes list \<Rightarrow> bytes \<Rightarrow> bytes list" where
  "resolve_read_only_exclusion_rules pl rules storage_path =
     List.map_filter (\<lambda>path. resolve_storage_path_for_mount pl path storage_path) rules"

definition read_only_shadowed_path_mappings ::
  "mount_planner \<Rightarrow> path_mapping list \<Rightarrow> bytes list \<Rightarrow> bytes \<Rightarrow> path_mapping list planner_m" where
  "read_only_shadowed_path_mappings pl resolved_mappings ro_rules storage_path =
     (if resolved_mappings = [] \<or> ro_rules = [] then ret []
      else do {
        roots \<leftarrow> resolve_concrete_storage_paths pl (fst (split_exclusion_rules ro_rules)) storage_path;
        ret (filter (\<lambda>mapping. list_ex (is_same_or_child (request_path mapping)) roots) resolved_mappings)
      })"

text \<open>A path that an earlier one of the list covers is redundant.\<close>

definition keep_uncovered :: "bytes list \<Rightarrow> bytes list" where
  "keep_uncovered ps =
     foldl (\<lambda>kept path. if list_ex (\<lambda>k. matches k path True) kept then kept else kept @ [path]) [] ps"

end
