(* ===== verification/Mount_Plan.thy ===== *)
theory Mount_Plan
  imports Mount_Apply
begin

text \<open>
  The plans themselves (\<^verbatim>\<open>src/mount/apply.rs\<close>): restoring allowed, excluded and own private directories
  below a redirected storage, read-only rules, and the entry points \<^verbatim>\<open>apply_sdcard_redirect\<close>,
  \<^verbatim>\<open>apply_path_mappings_only\<close>, \<^verbatim>\<open>reapply_path_mappings_only\<close> and
  \<^verbatim>\<open>restore_own_private_system_view\<close>.
\<close>

section \<open>Model: restoring directories\<close>

text \<open>Binds onto a target and its aliases; the answer is whether any was bound.\<close>

definition restore_bind :: "mount_planner \<Rightarrow> bytes \<Rightarrow> bytes \<Rightarrow> bool planner_m" where
  "restore_bind pl source target = do {
     (_, mounted) \<leftarrow> bind_mount_with_storage_aliases pl source target True StopCurrentTarget;
     ret mounted
   }"

definition restore_allowed_real_path ::
  "mount_planner \<Rightarrow> bytes list \<Rightarrow> bytes list \<Rightarrow> bytes option \<Rightarrow> bytes \<Rightarrow> bytes \<Rightarrow> bytes \<Rightarrow> bool planner_m" where
  "restore_allowed_real_path pl excluded_rules scoped_roots anchor data_root storage_path allowed_path =
     (if is_covered_by_scoped_fuse_mount allowed_path scoped_roots then ret False
      else case relative_child_path allowed_path storage_path of
             None \<Rightarrow> ret False
           | Some relative \<Rightarrow> do {
               made \<leftarrow> ensure_directory_exists pl allowed_path True;
               if \<not> made then ret False
               else do {
                 source \<leftarrow> find_m (\<lambda>real_source. do {
                     present \<leftarrow> ensure_real_public_directory_exists pl real_source;
                     if \<not> present then ret False
                     else do {
                       ensure_allowed_real_existing_directory_tree_writable pl real_source excluded_rules;
                       restore_bind pl real_source allowed_path
                     }
                   }) (build_allowed_real_source_candidates anchor data_root relative);
                 ret (source \<noteq> None)
               }
             })"

definition restore_allowed_real_paths ::
  "mount_planner \<Rightarrow> bytes list \<Rightarrow> bytes list \<Rightarrow> bytes list \<Rightarrow> bytes option \<Rightarrow> bytes \<Rightarrow> bytes \<Rightarrow> bytes list planner_m" where
  "restore_allowed_real_paths pl allowed_rules excluded_rules scoped_roots anchor data_root storage_path =
     (if allowed_rules = [] then ret []
      else do {
        resolved \<leftarrow> resolve_concrete_storage_paths pl allowed_rules storage_path;
        restored \<leftarrow> filter_m (restore_allowed_real_path pl excluded_rules scoped_roots anchor data_root storage_path)
          (keep_uncovered resolved);
        ret (sort_dedup_paths_longest_first_case_insensitive restored)
      })"

definition restore_excluded_sandbox_paths :: "mount_planner \<Rightarrow> bytes list \<Rightarrow> bytes \<Rightarrow> bytes \<Rightarrow> unit planner_m" where
  "restore_excluded_sandbox_paths pl excluded_rules resolved_target storage_path =
     (if excluded_rules = [] then ret ()
      else do {
        resolved \<leftarrow> resolve_excluded_storage_mount_paths pl excluded_rules storage_path;
        each_m (\<lambda>excluded_path.
          (case relative_child_path excluded_path storage_path of
             None \<Rightarrow> ret ()
           | Some relative \<Rightarrow> do {
               present \<leftarrow> fs_is_directory (mp_world pl) excluded_path;
               when_m present (do {
                 made \<leftarrow> ensure_writable_mapped_directory pl (path_join resolved_target relative) (mp_app_uid pl);
                 when_m made (restore_bind pl (path_join resolved_target relative) excluded_path)
               })
             })) resolved
      })"

definition prepare_redirect_android_app_directories :: "mount_planner \<Rightarrow> bytes \<Rightarrow> bool planner_m" where
  "prepare_redirect_android_app_directories pl redirect_android_path =
     (let app_data_root = path_join (path_join redirect_android_path ''data'') (mp_package_name pl);
          app_media_root = path_join (path_join redirect_android_path ''media'') (mp_package_name pl)
      in do {
        failed \<leftarrow> find_m (\<lambda>path. do {
            made \<leftarrow> ensure_writable_mapped_directory pl path (mp_app_uid pl);
            when_m made (ensure_app_writable_directory_chain pl path (mp_app_uid pl));
            ret (\<not> made)
          }) [path_join app_data_root ''files'', path_join app_data_root ''cache'', app_media_root];
        ret (failed = None)
      })"

definition ensure_scoped_fuse_mount_points :: "mount_planner \<Rightarrow> bytes list \<Rightarrow> bytes \<Rightarrow> unit planner_m" where
  "ensure_scoped_fuse_mount_points pl scoped_roots storage_path =
     each_m (\<lambda>root. when_m (\<not> eq_ignore_case root storage_path \<and> is_child root storage_path)
       (ensure_directory_exists pl root True)) scoped_roots"

section \<open>Model: own private directories\<close>

definition SYSTEM_UID_LIMIT :: i32 where
  "SYSTEM_UID_LIMIT = 10000"

definition same_mount_identity :: "mount_world \<Rightarrow> bytes \<Rightarrow> bytes \<Rightarrow> bool planner_m" where
  "same_mount_identity w left right = paths_have_same_inode w left right"

definition anchor_generation_is_current :: "mount_world \<Rightarrow> bytes \<Rightarrow> bytes \<Rightarrow> bool planner_m" where
  "anchor_generation_is_current w anchor_root source = do {
     content \<leftarrow> mountinfo_text w;
     ret (case (mountinfo_device_for_target content anchor_root, mountinfo_device_for_target content source) of
            (Some anchor_dev, Some source_dev) \<Rightarrow> anchor_dev = source_dev
          | _ \<Rightarrow> False)
   }"

definition attach_system_view_clone :: "mount_world \<Rightarrow> bytes \<Rightarrow> bool planner_m" where
  "attach_system_view_clone w target =
     (if no_c_string target then ret False
      else do { e \<leftarrow> syscall w (AttachClone target); ret (e = 0) })"

text \<open>The anchor from the clone that was taken before the mounts of the module; the clone is used up.\<close>

definition anchor_from_clone :: "mount_world \<Rightarrow> bytes \<Rightarrow> bytes \<Rightarrow> bool planner_m" where
  "anchor_from_clone w anchor_root user_view = do {
     available \<leftarrow> reads ms_system_view_clone;
     if \<not> available then ret False
     else do {
       modifies (\<lambda>s. s\<lparr>ms_system_view_clone := False\<rparr>);
       detach_mount_if_present w anchor_root;
       _ \<leftarrow> create_directory w anchor_root (- 1);
       present \<leftarrow> fs_is_directory w anchor_root;
       attached \<leftarrow> (if present then attach_system_view_clone w anchor_root else ret False);
       usable \<leftarrow> (if attached then fs_is_directory w user_view else ret False);
       when_m (\<not> usable) (detach_mount_if_present w anchor_root);
       ret usable
     }
   }"

definition anchor_from_bind :: "mount_planner \<Rightarrow> bytes \<Rightarrow> bytes \<Rightarrow> bool planner_m" where
  "anchor_from_bind pl anchor_root user_view =
     (let w = mp_world pl; source = ''/mnt/pass_through/'' @ fmt_i32 (mp_user_id pl) @ ''/emulated''
      in do {
        present \<leftarrow> fs_is_directory w source;
        if \<not> present then ret False
        else do {
          same \<leftarrow> same_mount_identity w anchor_root source;
          current \<leftarrow> (if same then anchor_generation_is_current w anchor_root source else ret False);
          complete \<leftarrow> (if current then fs_is_directory w (path_join user_view ''Android'') else ret False);
          if complete then ret True
          else do {
            detach_mount_if_present w anchor_root;
            made \<leftarrow> create_directory w anchor_root (- 1);
            made \<leftarrow> (if made then ret True else fs_is_directory w anchor_root);
            if \<not> made then ret False
            else do {
              bound \<leftarrow> bind_mount pl source anchor_root False;
              if \<not> bound then ret False
              else do {
                complete \<leftarrow> fs_is_directory w (path_join user_view ''Android'');
                when_m (\<not> complete) (detach_mount_if_present w anchor_root);
                ret complete
              }
            }
          }
        }
      })"

definition system_view_anchor_root :: "i32 \<Rightarrow> bytes" where
  "system_view_anchor_root user_id = path_join SYSTEM_VIEW_TMP_DIR (fmt_i32 user_id)"

definition system_view_user_root :: "i32 \<Rightarrow> bytes" where
  "system_view_user_root user_id = path_join (system_view_anchor_root user_id) (fmt_i32 user_id)"

definition create_transient_system_view_anchor :: "mount_planner \<Rightarrow> bool planner_m" where
  "create_transient_system_view_anchor pl = do {
     cloned \<leftarrow> anchor_from_clone (mp_world pl) (system_view_anchor_root (mp_user_id pl))
       (system_view_user_root (mp_user_id pl));
     if cloned then ret True
     else anchor_from_bind pl (system_view_anchor_root (mp_user_id pl)) (system_view_user_root (mp_user_id pl))
   }"

definition note_view_failure :: "mount_planner \<Rightarrow> bool \<Rightarrow> bytes \<Rightarrow> unit planner_m" where
  "note_view_failure pl is_media storage_path =
     when_m is_media (do {
       view_ready \<leftarrow> fs_is_directory (mp_world pl) storage_path;
       note_failure (mp_world pl) (mp_package_name pl) view_ready
     })"

text \<open>One of the three directories; the answer is whether it now shows the view of the system.\<close>

definition restore_own_private_directory ::
  "mount_planner \<Rightarrow> bytes \<Rightarrow> bytes \<Rightarrow> bytes list \<Rightarrow> bytes \<Rightarrow> bool planner_m" where
  "restore_own_private_directory pl storage_path data_root scoped_roots relative =
     (let w = mp_world pl;
          storage_target = path_join storage_path relative;
          backend_source = path_join data_root relative;
          source = path_join (system_view_user_root (mp_user_id pl)) relative;
          is_media = starts_with_str relative ''Android/media/''
      in if list_ex (eq_ignore_case storage_target) scoped_roots
            \<or> (\<not> is_media \<and> is_covered_by_scoped_fuse_mount storage_target scoped_roots) then ret False
         else do {
           present \<leftarrow> fs_is_directory w backend_source;
           if \<not> present then ret False
           else do {
             _ \<leftarrow> ensure_writable_mapped_directory pl backend_source (mp_app_uid pl);
             visible \<leftarrow> fs_is_directory w source;
             if \<not> visible then ret False
             else do {
               content \<leftarrow> mountinfo_text w;
               restored \<leftarrow> (if mountinfo_has_own_private_restore_layer content storage_target
                     (''/'' @ fmt_i32 (mp_user_id pl) @ ''/'' @ relative) then ret True
                 else same_mount_identity w storage_target source);
               if restored then do {
                 when_m is_media (note_success w (mp_package_name pl));
                 ret True
               }
               else do {
                 made \<leftarrow> ensure_directory_exists pl storage_target True;
                 if \<not> made then do { note_view_failure pl is_media storage_path; ret False }
                 else do {
                   (_, mounted) \<leftarrow> bind_own_private_restore pl source storage_target True;
                   (if mounted then when_m is_media (note_success w (mp_package_name pl))
                    else note_view_failure pl is_media storage_path);
                   ret mounted
                 }
               }
             }
           }
         })"

definition own_private_roots :: "bytes \<Rightarrow> bytes list" where
  "own_private_roots package_name = map (\<lambda>kind. kind @ package_name) [''Android/data/'', ''Android/media/'', ''Android/obb/'']"

text \<open>The anchor is taken off at the end on every path, as the drop of its guard does.\<close>

definition restore_own_private_directories :: "mount_planner \<Rightarrow> bytes \<Rightarrow> bytes \<Rightarrow> bytes list \<Rightarrow> nat planner_m" where
  "restore_own_private_directories pl storage_path data_root scoped_roots =
     (if mp_app_uid pl < SYSTEM_UID_LIMIT then ret 0
      else do {
        anchored \<leftarrow> create_transient_system_view_anchor pl;
        if \<not> anchored then ret 0
        else do {
          restored \<leftarrow> filter_m (restore_own_private_directory pl storage_path data_root scoped_roots)
            (own_private_roots (mp_package_name pl));
          detach_mount_if_present (mp_world pl) (system_view_anchor_root (mp_user_id pl));
          ret (length restored)
        }
      })"

definition restore_own_private_system_view :: "mount_planner \<Rightarrow> bytes list \<Rightarrow> nat planner_m" where
  "restore_own_private_system_view pl scoped_roots =
     (if mp_app_uid pl < SYSTEM_UID_LIMIT then ret 0
      else restore_own_private_directories pl (storage_user_root_for_user (mp_user_id pl))
             (data_media_user_root_for_user (mp_user_id pl)) scoped_roots)"

section \<open>Model: read-only rules\<close>

definition resolve_read_only_source :: "mount_planner \<Rightarrow> bytes \<Rightarrow> bytes list \<Rightarrow> bytes option planner_m" where
  "resolve_read_only_source pl relative source_roots = do {
     found \<leftarrow> first_directory (mp_world pl) relative source_roots;
     case found of
       Some candidate \<Rightarrow> ret (Some candidate)
     | None \<Rightarrow>
         (let data_media_source = path_join (data_media_user_root_for_user (mp_user_id pl)) relative
          in do {
            made \<leftarrow> ensure_writable_mapped_directory pl data_media_source (mp_app_uid pl);
            ret (if made then Some data_media_source else None)
          })
   }"

text \<open>
  The paths that get a mount of their own, in order, and whether any was left to a scoped FUSE session.
\<close>

definition select_read_only_paths ::
  "path_mapping list \<Rightarrow> bytes list \<Rightarrow> bytes list \<Rightarrow> bytes list \<Rightarrow> bytes list \<times> bool" where
  "select_read_only_paths mappings excluded_rules scoped_roots resolved =
     foldl (\<lambda>(kept, delegated) path.
       if path_shadows_mapping_request path mappings \<or> path_overlaps_mapping_request path mappings
          \<or> list_ex (\<lambda>excluded. matches excluded path True) excluded_rules then (kept, delegated)
       else if is_covered_by_scoped_fuse_mount path scoped_roots then (kept, True)
       else if list_ex (\<lambda>k. matches k path True) kept then (kept, delegated)
       else (kept @ [path], delegated)) ([], False) resolved"

definition mount_read_only_path ::
  "mount_planner \<Rightarrow> bytes \<Rightarrow> bytes list \<Rightarrow> bytes list \<Rightarrow> bytes \<Rightarrow> bool planner_m" where
  "mount_read_only_path pl storage_path source_roots restored_children read_only_path =
     (case relative_child_path read_only_path storage_path of
        None \<Rightarrow> ret False
      | Some relative \<Rightarrow> do {
          made \<leftarrow> ensure_directory_exists pl read_only_path False;
          if \<not> made then ret False
          else do {
            source \<leftarrow> resolve_read_only_source pl relative source_roots;
            case source of
              None \<Rightarrow> ret False
            | Some source_path \<Rightarrow> do {
                ensure_read_only_tree_accessible pl source_path;
                (_, mounted) \<leftarrow> (if list_ex (\<lambda>child. is_child child read_only_path) restored_children
                  then bind_read_only_mount_with_storage_aliases_preserving_backend pl source_path read_only_path True
                         StopCurrentTarget
                  else bind_read_only_mount_with_storage_aliases pl source_path read_only_path True StopCurrentTarget);
                ret mounted
              }
          }
        })"

definition restore_read_only_excluded_child :: "mount_planner \<Rightarrow> bytes \<Rightarrow> bytes list \<Rightarrow> bytes \<Rightarrow> unit planner_m" where
  "restore_read_only_excluded_child pl storage_path source_roots excluded_child =
     (case relative_child_path excluded_child storage_path of
        None \<Rightarrow> ret ()
      | Some relative \<Rightarrow> do {
          made \<leftarrow> ensure_directory_exists pl excluded_child False;
          when_m made (do {
            source \<leftarrow> resolve_read_only_source pl relative source_roots;
            case source of
              None \<Rightarrow> ret ()
            | Some source_path \<Rightarrow> do {
                (_, mounted) \<leftarrow> bind_read_write_mount_with_storage_aliases pl source_path excluded_child True StopCurrentTarget;
                when_m mounted (do {
                  _ \<leftarrow> ensure_writable_mapped_directory pl source_path (mp_app_uid pl);
                  ensure_writable_mapped_directory pl excluded_child (mp_app_uid pl)
                })
              }
          })
        })"

definition apply_read_only_paths ::
  "mount_planner \<Rightarrow> bytes list \<Rightarrow> bytes list \<Rightarrow> path_mapping list \<Rightarrow> bytes \<Rightarrow> bytes list \<Rightarrow> bytes list \<Rightarrow> bool planner_m" where
  "apply_read_only_paths pl ro_rules excluded_rules mappings storage_path source_roots scoped_roots = do {
     let ro_source_roots = build_read_only_source_roots source_roots (data_media_user_root_for_user (mp_user_id pl));
     let (included, excluded) = split_exclusion_rules ro_rules;
     resolved \<leftarrow> resolve_concrete_storage_paths pl included storage_path;
     if resolved = [] then ret False
     else do {
       let excluded_rules = sort_dedup_paths_case_insensitive
             (resolve_read_only_exclusion_rules pl excluded_rules storage_path
              @ overlapping_exclusion_rules resolved (resolve_read_only_exclusion_rules pl excluded storage_path));
       let (effective, delegated) = select_read_only_paths mappings excluded_rules scoped_roots resolved;
       let restored_children = collect_restored_read_only_excluded_children effective excluded_rules mappings scoped_roots;
       each_m (\<lambda>child. (case relative_child_path child storage_path of
           None \<Rightarrow> ret ()
         | Some relative \<Rightarrow> do {
             source \<leftarrow> resolve_read_only_source pl relative ro_source_roots;
             case source of
               None \<Rightarrow> ret ()
             | Some source_path \<Rightarrow> when_m True (ensure_writable_mapped_directory pl source_path (mp_app_uid pl))
           })) restored_children;
       mounted \<leftarrow> filter_m (mount_read_only_path pl storage_path ro_source_roots restored_children) effective;
       each_m (restore_read_only_excluded_child pl storage_path ro_source_roots)
         (collect_restored_read_only_excluded_children mounted excluded_rules mappings scoped_roots);
       ret (mounted \<noteq> [] \<or> delegated)
     }
   }"

section \<open>Model: redirecting the whole storage\<close>

definition mapping_options_of :: "bool \<Rightarrow> bool \<Rightarrow> mapping_options" where
  "mapping_options_of chown_current create_missing =
     \<lparr>mo_chown_current_dirs = chown_current, mo_create_missing_request_path = create_missing,
      mo_existing_target_source_only = False\<rparr>"

text \<open>The sandbox directory with its Android directories, before anything is bound.\<close>

definition prepare_redirect_target :: "mount_planner \<Rightarrow> bytes \<Rightarrow> bool planner_m" where
  "prepare_redirect_target pl resolved_target = do {
     made \<leftarrow> ensure_directory_exists pl resolved_target False;
     if \<not> made then ret False
     else do {
       _ \<leftarrow> ensure_writable_mapped_directory pl resolved_target (mp_app_uid pl);
       ensure_app_writable_directory_chain pl resolved_target (mp_app_uid pl);
       let redirect_android_path = path_join resolved_target ''Android'';
       made \<leftarrow> ensure_directory_exists pl redirect_android_path True;
       if \<not> made then ret False
       else do {
         ensure_app_writable_directory_chain pl redirect_android_path (mp_app_uid pl);
         prepare_redirect_android_app_directories pl redirect_android_path
       }
     }
   }"

text \<open>The bind of the sandbox over the storage root and its aliases; after it the root counts as redirected.\<close>

definition redirect_storage_root :: "mount_planner \<Rightarrow> bytes \<Rightarrow> bytes \<Rightarrow> bool planner_m" where
  "redirect_storage_root pl resolved_target storage_path = do {
     (ok, applied) \<leftarrow> bind_mount_with_storage_aliases pl resolved_target storage_path True AbortAll;
     when_m (ok \<and> applied) (modifies (\<lambda>s. s\<lparr>ms_is_storage_root_redirected := True\<rparr>));
     ret (ok \<and> applied)
   }"

text \<open>Everything below the redirected root: own private directories, allowed and excluded paths, mappings, read-only rules.\<close>

definition apply_below_redirect ::
  "mount_planner \<Rightarrow> bytes list \<Rightarrow> bytes list \<Rightarrow> bytes list \<Rightarrow> path_mapping list \<Rightarrow> bytes list \<Rightarrow> bytes option \<Rightarrow> bytes
    \<Rightarrow> bytes \<Rightarrow> bytes \<Rightarrow> unit planner_m" where
  "apply_below_redirect pl allowed_rules excluded_rules ro_rules mappings scoped_roots anchor resolved_target data_root storage_path = do {
     ensure_scoped_fuse_mount_points pl scoped_roots storage_path;
     _ \<leftarrow> restore_own_private_directories pl storage_path data_root scoped_roots;
     restored \<leftarrow> restore_allowed_real_paths pl allowed_rules excluded_rules scoped_roots anchor data_root storage_path;
     restore_excluded_sandbox_paths pl excluded_rules resolved_target storage_path;
     let source_roots = build_mapping_source_roots anchor data_root;
     let resolved_mappings = resolve_path_mappings pl mappings storage_path;
     let namespace_mappings = namespace_mappings_outside_scoped_fuse resolved_mappings scoped_roots;
     when_m (resolved_mappings \<noteq> [])
       (apply_resolved_path_mappings pl namespace_mappings storage_path source_roots restored ro_rules excluded_rules
          (mapping_options_of True True));
     shadowed \<leftarrow> read_only_shadowed_path_mappings pl namespace_mappings ro_rules storage_path;
     when_m (ro_rules \<noteq> []) (do {
       _ \<leftarrow> apply_read_only_paths pl ro_rules excluded_rules namespace_mappings storage_path source_roots scoped_roots;
       when_m (shadowed \<noteq> [])
         (apply_resolved_path_mappings pl shadowed storage_path source_roots restored ro_rules excluded_rules
            (mapping_options_of True False))
     })
   }"

definition apply_sdcard_redirect ::
  "mount_planner \<Rightarrow> bytes list \<Rightarrow> bytes list \<Rightarrow> bytes list \<Rightarrow> path_mapping list \<Rightarrow> bytes list \<Rightarrow> bool planner_m" where
  "apply_sdcard_redirect pl allowed_rules excluded_rules ro_rules mappings scoped_roots =
     (let resolved_target_storage = resolve_user_path (normalize (mp_redirect_target pl)) (mp_user_id pl);
          resolved_target = to_data_media_backend_path pl resolved_target_storage;
          storage_path = storage_user_root_for_user (mp_user_id pl);
          data_root = data_media_user_root_for_user (mp_user_id pl)
      in if resolved_target_storage = [] \<or> resolved_target = [] then ret False
         else do {
           prepared \<leftarrow> ensure_mount_namespace_prepared pl;
           if \<not> prepared then ret False
           else do {
             anchor \<leftarrow> prepare_real_storage_anchor pl;
             present \<leftarrow> fs_is_directory (mp_world pl) data_root;
             ready \<leftarrow> (if present then prepare_redirect_target pl resolved_target else ret False);
             if \<not> ready then ret False
             else do {
               redirected \<leftarrow> redirect_storage_root pl resolved_target storage_path;
               if \<not> redirected then ret False
               else do {
                 apply_below_redirect pl allowed_rules excluded_rules ro_rules mappings scoped_roots anchor
                   resolved_target data_root storage_path;
                 ret True
               }
             }
           }
         })"

section \<open>Model: mappings without redirection\<close>

text \<open>A path of the sandbox is bound over its path in the storage, when the back end has that path.\<close>

definition mount_sandboxed_path :: "mount_planner \<Rightarrow> bytes \<Rightarrow> bytes \<Rightarrow> bytes list \<Rightarrow> bytes \<Rightarrow> unit planner_m" where
  "mount_sandboxed_path pl resolved_target storage_path scoped_roots sandboxed_path =
     (case relative_child_path sandboxed_path storage_path of
        None \<Rightarrow> ret ()
      | Some relative \<Rightarrow>
          (let sandbox_source = path_join resolved_target relative;
               backend = to_data_media_backend_path pl sandboxed_path
           in do {
             made \<leftarrow> ensure_writable_mapped_directory pl sandbox_source (mp_app_uid pl);
             when_m (made \<and> \<not> is_covered_by_scoped_fuse_mount sandboxed_path scoped_roots) (do {
               present \<leftarrow> fs_is_directory (mp_world pl) backend;
               when_m present (restore_bind pl sandbox_source sandboxed_path)
             })
           }))"

definition restore_sandbox_excluded_path :: "mount_planner \<Rightarrow> bytes \<Rightarrow> bytes option \<Rightarrow> bytes \<Rightarrow> bytes \<Rightarrow> unit planner_m" where
  "restore_sandbox_excluded_path pl storage_path anchor data_root excluded =
     (case resolve_storage_path_for_mount pl excluded storage_path of
        None \<Rightarrow> ret ()
      | Some excluded_path \<Rightarrow>
          if contains_wildcards excluded_path then ret ()
          else do {
            present \<leftarrow> fs_is_directory (mp_world pl) (to_data_media_backend_path pl excluded_path);
            when_m present
              (case relative_child_path excluded_path storage_path of
                 None \<Rightarrow> ret None
               | Some relative \<Rightarrow>
                   find_m (\<lambda>source. do {
                       present \<leftarrow> fs_is_directory (mp_world pl) source;
                       if present then restore_bind pl source excluded_path else ret False
                     }) (build_allowed_real_source_candidates anchor data_root relative))
          })"

text \<open>The answer is \<^const>\<open>False\<close> only when the sandbox is not below the storage.\<close>

definition apply_sandboxed_paths ::
  "mount_planner \<Rightarrow> bytes list \<Rightarrow> bytes list \<Rightarrow> bytes option \<Rightarrow> bytes \<Rightarrow> bytes \<Rightarrow> bool planner_m" where
  "apply_sandboxed_paths pl sandboxed_rules scoped_roots anchor data_root storage_path =
     (let resolved_target = to_data_media_backend_path pl
            (resolve_user_path (normalize (mp_redirect_target pl)) (mp_user_id pl));
          (included, excluded) = split_exclusion_rules sandboxed_rules
      in if sandboxed_rules = [] then ret True
         else if resolved_target = [] then ret False
         else do {
           resolved \<leftarrow> resolve_each_path pl storage_path True included;
           each_m (mount_sandboxed_path pl resolved_target storage_path scoped_roots)
             (sort_dedup_paths_longest_first_case_insensitive resolved);
           each_m (restore_sandbox_excluded_path pl storage_path anchor data_root) excluded;
           ret True
         })"

definition apply_path_mappings_only ::
  "mount_planner \<Rightarrow> path_mapping list \<Rightarrow> bytes list \<Rightarrow> bytes list \<Rightarrow> bytes list \<Rightarrow> bool planner_m" where
  "apply_path_mappings_only pl mappings sandboxed_rules ro_rules scoped_roots =
     (let storage_path = storage_user_root_for_user (mp_user_id pl);
          data_root = data_media_user_root_for_user (mp_user_id pl)
      in do {
        prepared \<leftarrow> ensure_mount_namespace_prepared pl;
        if \<not> prepared then ret False
        else if mappings = [] \<and> sandboxed_rules = [] \<and> ro_rules = [] then ret True
        else do {
          anchor \<leftarrow> prepare_real_storage_anchor pl;
          present \<leftarrow> fs_is_directory (mp_world pl) data_root;
          sandboxed \<leftarrow> (if present then apply_sandboxed_paths pl sandboxed_rules scoped_roots anchor data_root storage_path
            else ret False);
          if \<not> sandboxed then ret False
          else do {
            let source_roots = build_mapping_source_roots anchor data_root;
            let namespace_mappings = namespace_mappings_outside_scoped_fuse
                  (resolve_path_mappings pl mappings storage_path) scoped_roots;
            _ \<leftarrow> apply_resolved_path_mappings pl namespace_mappings storage_path source_roots [] ro_rules []
              (mapping_options_of False False);
            shadowed \<leftarrow> read_only_shadowed_path_mappings pl namespace_mappings ro_rules storage_path;
            when_m (ro_rules \<noteq> []) (do {
              _ \<leftarrow> apply_read_only_paths pl ro_rules [] namespace_mappings storage_path source_roots scoped_roots;
              apply_resolved_path_mappings pl shadowed storage_path source_roots [] ro_rules []
                (mapping_options_of False False)
            });
            ret True
          }
        }
      })"

definition reapply_path_mappings_only :: "mount_planner \<Rightarrow> path_mapping list \<Rightarrow> bool planner_m" where
  "reapply_path_mappings_only pl mappings =
     (let storage_path = storage_user_root_for_user (mp_user_id pl);
          data_root = data_media_user_root_for_user (mp_user_id pl);
          namespace_mappings = namespace_mappings_outside_scoped_fuse (resolve_path_mappings pl mappings storage_path) []
      in do {
        anchor \<leftarrow> reads ms_real_storage_anchor;
        if namespace_mappings = [] then ret False
        else apply_resolved_path_mappings pl namespace_mappings storage_path
               (build_mapping_source_roots anchor data_root) [] [] [] (mapping_options_of True True)
      })"

section \<open>Model: a planner at work\<close>

text \<open>What the daemon and the companion do with a planner.\<close>

datatype planner_op =
    ApplyRedirect "bytes list" "bytes list" "bytes list" "path_mapping list" "bytes list"
  | ApplyMappingsOnly "path_mapping list" "bytes list" "bytes list" "bytes list"
  | ReapplyMappings "path_mapping list"
  | RestoreOwnPrivate "bytes list"
  | PrepareTargets "path_mapping list" i32
  | DetachAnchor
  | SetViewClone
  | TakeTargets

definition planner_run :: "mount_planner \<Rightarrow> planner_op \<Rightarrow> unit planner_m" where
  "planner_run pl op = (case op of
      ApplyRedirect allowed excluded ro mappings scoped \<Rightarrow>
        when_m True (apply_sdcard_redirect pl allowed excluded ro mappings scoped)
    | ApplyMappingsOnly mappings sandboxed ro scoped \<Rightarrow>
        when_m True (apply_path_mappings_only pl mappings sandboxed ro scoped)
    | ReapplyMappings mappings \<Rightarrow> when_m True (reapply_path_mappings_only pl mappings)
    | RestoreOwnPrivate scoped \<Rightarrow> when_m True (restore_own_private_system_view pl scoped)
    | PrepareTargets mappings owner_uid \<Rightarrow> prepare_mapping_target_dirs pl mappings owner_uid
    | DetachAnchor \<Rightarrow> detach_real_storage_anchor pl
    | SetViewClone \<Rightarrow> set_system_view_clone
    | TakeTargets \<Rightarrow> when_m True take_mounted_targets)"

end
