(* ===== verification/Mount_Steps.thy ===== *)
theory Mount_Steps
  imports Mount_Plan
begin

text \<open>
  What holds of every operation of the planner because it holds of its steps. The locale \<^verbatim>\<open>planner_steps\<close> is
  the contract: a reflexive and transitive relation between states that allows the questions, the harmless
  calls, the changes of cells and the three kinds of bind of the planner; changes of owner and mode only where
  the build repairs metadata. Its extension \<^verbatim>\<open>mapping_steps\<close> adds the one function that changes metadata
  in every build, and \<^verbatim>\<open>redirect_steps\<close> the cell that only the redirection sets. They carry the relation to
  every operation.
\<close>

named_theorems planner_io "relations that operations of the planner respect"

fun harmless_call :: "mount_call \<Rightarrow> bool" where
  "harmless_call (MakeDirectory _) = True"
| "harmless_call (MakePrivate _ _) = True"
| "harmless_call Unshare = True"
| "harmless_call (Detach _) = True"
| "harmless_call (AttachClone _) = True"
| "harmless_call (WriteMarker _ _ _) = True"
| "harmless_call (RemoveMarker _) = True"
| "harmless_call (PrepRecord _ _) = True"
| "harmless_call _ = False"

fun metadata_call :: "mount_call \<Rightarrow> bool" where
  "metadata_call (ChangeOwner _ _ _) = True"
| "metadata_call (ChangeMode _ _) = True"
| "metadata_call _ = False"

locale planner_steps = step_order R for R :: "mount_state \<Rightarrow> mount_state \<Rightarrow> bool" +
  fixes pl :: mount_planner
  assumes clock: "R s (s\<lparr>ms_clock := n\<rparr>)"
    and called: "harmless_call c \<or> metadata_call c \<and> mw_repair (mp_world pl) \<Longrightarrow> R s (s\<lparr>ms_calls := ms_calls s @ [(c, e)]\<rparr>)"
    and create_errno: "R s (s\<lparr>ms_last_create_errno := e\<rparr>)"
    and namespace_ready: "R s (s\<lparr>ms_is_namespace_ready := True\<rparr>)"
    and anchor: "R s (s\<lparr>ms_real_storage_anchor := a\<rparr>)"
    and view_clone: "R s (s\<lparr>ms_system_view_clone := b\<rparr>)"
    and taken: "R s (s\<lparr>ms_mounted_targets := []\<rparr>)"
    and bound: "state_io_rel R (bind_mount_inner pl source target is_recursive shortcut)"
    and bound_read_only: "state_io_rel R (bind_mount_read_only pl source target is_recursive)"
    and bound_read_write: "state_io_rel R (bind_mount_read_write_overlay pl source target is_recursive)"
begin

abbreviation respected :: "'a planner_m \<Rightarrow> bool" where
  "respected m \<equiv> state_io_rel R m"

section \<open>Questions and calls\<close>

lemma io_ask [planner_io]: "respected (ask f)"
  by (auto simp: state_io_rel_def ask_def clock)

lemma io_syscall: "harmless_call c \<or> metadata_call c \<and> mw_repair (mp_world pl) \<Longrightarrow> respected (syscall (mp_world pl) c)"
  unfolding state_io_rel_def syscall_def
  using called chained clock by (fastforce simp: Let_def)

declare io_structure [planner_io]

lemma io_let: "respected (f a) \<Longrightarrow> respected (let x = a in f x)"
  by simp

lemma io_stat [planner_io]:
  "respected (stat_node w path)" "respected (stat_inode w path)" "respected (stat_is_directory w path)"
  "respected (fs_is_directory w path)" "respected (paths_have_same_inode w path path')"
  "respected (read_mountinfo w)" "respected (is_mount_point w path)" "respected (mapping_mount_point_exists w path)"
  "respected (list_directory w path)" "respected (mountinfo_text w)" "respected (read_mountinfo_lines w)"
  "respected (is_directory_or_unknown w path)" "respected (same_mount_identity w path path')"
  "respected (anchor_generation_is_current w path path')"
  by (auto simp: stat_node_def stat_inode_def stat_is_directory_def fs_is_directory_def paths_have_same_inode_def
      read_mountinfo_def is_mount_point_def mapping_mount_point_exists_def list_directory_def mountinfo_text_def
      read_mountinfo_lines_def is_directory_or_unknown_def same_mount_identity_def anchor_generation_is_current_def
      intro!: planner_io)

lemma io_first_directory [planner_io]: "respected (first_directory w relative roots)"
  unfolding first_directory_def by (intro planner_io)

lemma io_detach [planner_io]: "respected (detach_mount_if_present (mp_world pl) target)"
  unfolding detach_mount_if_present_def by (intro planner_io io_syscall) simp

lemma io_cells [planner_io]:
  "respected (note_create_errno e)" "respected (set_real_storage_anchor a)" "respected set_system_view_clone"
  "respected (modifies (\<lambda>s. s\<lparr>ms_is_namespace_ready := True\<rparr>))"
  "respected (modifies (\<lambda>s. s\<lparr>ms_system_view_clone := b\<rparr>))"
  by (auto simp: note_create_errno_def set_real_storage_anchor_def set_system_view_clone_def
      intro!: io_modifies create_errno anchor view_clone namespace_ready)

lemma io_metadata_path [planner_io]: "respected (metadata_path_of pl path)"
  unfolding metadata_path_of_def by (intro planner_io)

section \<open>Directories\<close>

lemma io_change:
  "mw_repair (mp_world pl) \<Longrightarrow> respected (change_mode (mp_world pl) path mode)"
  "mw_repair (mp_world pl) \<Longrightarrow> respected (change_owner (mp_world pl) path uid gid)"
  unfolding change_mode_def change_owner_def by (intro planner_io io_syscall; simp)+

lemma io_create_components:
  "(0 \<le> uid \<Longrightarrow> mw_repair (mp_world pl)) \<Longrightarrow> respected (create_components (mp_world pl) uid current parts)"
proof (induction parts arbitrary: current)
  case (Cons part parts)
  show ?case
    unfolding create_components.simps Let_def
    by (intro planner_io Cons.IH Cons.prems io_syscall) (use Cons.prems in auto)
qed (simp add: io_return)

lemma io_create_directory [planner_io]:
  assumes "0 \<le> uid \<Longrightarrow> mw_repair (mp_world pl)"
  shows "respected (create_directory (mp_world pl) path uid)"
  unfolding create_directory_def by (intro planner_io io_create_components assms)

lemma io_repairs [planner_io]:
  "respected (fix_public_directory_metadata (mp_world pl) path)"
  "respected (fix_real_public_directory_metadata (mp_world pl) path)"
  "respected (fix_allowed_real_directory_metadata (mp_world pl) path)"
  "respected (fix_read_only_public_metadata (mp_world pl) path)"
proof -
  have "respected (repair_missing_mode_bits (mp_world pl) path mode required repair)" if "mw_repair (mp_world pl)"
    for path mode required repair
    unfolding repair_missing_mode_bits_def by (intro planner_io io_syscall) (simp add: that)
  then show "respected (fix_public_directory_metadata (mp_world pl) path)" for path
    unfolding fix_public_directory_metadata_def by (intro planner_io io_change) auto
  then show "respected (fix_real_public_directory_metadata (mp_world pl) path)"
    "respected (fix_allowed_real_directory_metadata (mp_world pl) path)"
    by (simp_all add: fix_real_public_directory_metadata_def fix_allowed_real_directory_metadata_def)
  show "respected (fix_read_only_public_metadata (mp_world pl) path)"
    unfolding fix_read_only_public_metadata_def Let_def by (intro planner_io io_change) auto
qed

lemma io_mapped_directory [planner_io]: "respected (ensure_writable_mapped_directory pl path owner_uid)"
proof -
  have "respected (set_mapped_metadata pl path owner_uid existing)" if "mw_repair (mp_world pl)" for path existing
    unfolding set_mapped_metadata_def Let_def by (intro planner_io io_change that)
  then show ?thesis
    unfolding ensure_writable_mapped_directory_def Let_def
    by (intro planner_io io_syscall) (auto simp: creation_uid_of_def split: if_splits)
qed

lemma io_chains [planner_io]:
  "respected (ensure_writable_directory_chain pl path owner_uid)"
  "respected (ensure_app_writable_directory_chain pl path owner_uid)"
  "respected (fix_allowed_real_directory_metadata_chain pl path)"
  "respected (fix_real_public_directory_metadata_chain pl path)"
  by (auto simp: ensure_writable_directory_chain_def ensure_app_writable_directory_chain_def
      fix_allowed_real_directory_metadata_chain_def fix_real_public_directory_metadata_chain_def intro!: planner_io)

lemma io_shared_parents [planner_io]: "respected (ensure_shared_mapping_parent_chain pl path)"
proof -
  have "respected (ensure_shared_mapping_directory pl path)" for path
    unfolding ensure_shared_mapping_directory_def Let_def by (intro planner_io io_change) auto
  then show ?thesis
    unfolding ensure_shared_mapping_parent_chain_def by (intro planner_io)
qed

lemma io_ensure_directories [planner_io]:
  "respected (ensure_directory_exists pl path should_chown)"
  "respected (ensure_real_public_directory_exists pl path)"
  "respected (prepare_mapping_target_dirs pl mappings owner_uid)"
  unfolding ensure_directory_exists_def ensure_real_public_directory_exists_def prepare_mapping_target_dirs_def Let_def
  by (intro planner_io; auto split: if_splits)+

lemma io_read_only_scan: "respected (read_only_tree_scan n (mp_world pl) pending)"
proof (induction n arbitrary: pending)
  case (Suc n)
  then show ?case by (cases pending) (auto simp: Let_def intro!: planner_io)
qed (simp add: io_return)

lemma io_allowed_scan: "respected (allowed_real_tree_scan n pl excluded pending)"
proof (induction n arbitrary: pending)
  case (Suc n)
  then show ?case by (cases pending) (auto intro!: planner_io)
qed (simp add: io_return)

lemma io_trees [planner_io]:
  "respected (ensure_read_only_tree_accessible pl path)"
  "respected (ensure_allowed_real_existing_directory_tree_writable pl path excluded)"
  unfolding ensure_read_only_tree_accessible_def ensure_allowed_real_existing_directory_tree_writable_def
  by (intro planner_io io_read_only_scan io_allowed_scan)+

section \<open>Scans, aliases and rules\<close>

lemma io_scan: "respected (scan_wildcard_mount_matches depth w current_dir rule_path storage_path acc)"
proof (induction depth arbitrary: current_dir acc)
  case (Suc depth)
  then show ?case
    unfolding scan_wildcard_mount_matches.simps Let_def by (intro planner_io)
qed (simp add: io_return)

lemma io_wildcards [planner_io]: "respected (concrete_wildcard_mount_matches pl resolved_path storage_path)"
  unfolding concrete_wildcard_mount_matches_def concrete_wildcard_mount_matches_for_roots_def
    append_concrete_wildcard_mount_matches_from_root_def Let_def
  by (intro planner_io io_scan)

lemma io_alias_loop:
  assumes "\<And>target. respected (bind_to target)"
  shows "respected (alias_loop w skip_first skip bind_to failure_mode primary_target targets bound_keys mounted)"
proof (induction targets arbitrary: bound_keys mounted)
  case (Cons target targets)
  then show ?case
    unfolding alias_loop.simps Let_def path_exists_def bind_target_key_def by (intro planner_io assms)
qed (simp add: io_return)

lemma io_aliases [planner_io]:
  "respected (bind_mount pl source target is_recursive)"
  "respected (bind_mount_overlay pl source target is_recursive)"
  "respected (bind_mount_with_storage_aliases pl source target is_recursive failure_mode)"
  "respected (bind_own_private_restore pl source target is_recursive)"
  "respected (bind_overlay_mount_with_storage_aliases pl source target is_recursive failure_mode)"
  "respected (bind_read_write_mount_with_storage_aliases pl source target is_recursive failure_mode)"
  "respected (bind_read_only_mount_with_storage_aliases pl source target is_recursive failure_mode)"
  "respected (bind_read_only_mount_with_storage_aliases_preserving_backend pl source target is_recursive failure_mode)"
  by (auto simp: bind_mount_def bind_mount_overlay_def bind_mount_with_storage_aliases_def bind_own_private_restore_def
      bind_overlay_mount_with_storage_aliases_def bind_read_write_mount_with_storage_aliases_def
      bind_read_only_mount_with_storage_aliases_def bind_read_only_mount_with_storage_aliases_preserving_backend_def
      bind_read_only_mount_with_storage_aliases_inner_def
      intro!: io_alias_loop bound bound_read_only bound_read_write)

lemma io_rules [planner_io]:
  "respected (resolve_each_path pl storage_path fallback rules)"
  "respected (resolve_concrete_storage_paths pl rules storage_path)"
  "respected (resolve_excluded_storage_mount_paths pl rules storage_path)"
  "respected (read_only_shadowed_path_mappings pl mappings rules storage_path)"
proof -
  show each: "respected (resolve_each_path pl storage_path fallback rules)" for fallback rules
    unfolding resolve_each_path_def concrete_directories_def by (intro planner_io)
  show concrete: "respected (resolve_concrete_storage_paths pl rules storage_path)" for rules
    unfolding resolve_concrete_storage_paths_def by (intro planner_io each)
  show "respected (resolve_excluded_storage_mount_paths pl rules storage_path)"
    unfolding resolve_excluded_storage_mount_paths_def by (intro planner_io each)
  show "respected (read_only_shadowed_path_mappings pl mappings rules storage_path)"
    unfolding read_only_shadowed_path_mappings_def by (intro planner_io concrete)
qed

section \<open>Namespace, anchors and restored directories\<close>

lemma io_namespace [planner_io]: "respected (ensure_mount_namespace_prepared pl)"
proof -
  have cut: "respected (make_private (mp_world pl) target recursive)" for target recursive
    unfolding make_private_def by (intro planner_io io_syscall) simp
  then have "respected (isolate_storage_mounts (mp_world pl) (mp_user_id pl))"
    unfolding isolate_storage_mounts_def isolate_mounts_for_roots_def verify_isolation_def isolation_violations_def
    by (auto intro!: planner_io split: list.split)
  moreover have "respected (make_tree_private_fallback (mp_world pl))"
    unfolding make_tree_private_fallback_def by (intro planner_io io_syscall) simp
  ultimately show ?thesis
    unfolding ensure_mount_namespace_prepared_def by (intro planner_io io_syscall) auto
qed

lemma io_anchor [planner_io]:
  "respected (prepare_real_storage_anchor pl)" "respected (detach_real_storage_anchor pl)"
  unfolding prepare_real_storage_anchor_def real_storage_anchor_is_usable_def try_anchor_source_def
    detach_real_storage_anchor_def Let_def
  by (intro planner_io)+

lemma io_system_view [planner_io]: "respected (create_transient_system_view_anchor pl)"
proof -
  have "respected (attach_system_view_clone (mp_world pl) target)" for target
    unfolding attach_system_view_clone_def by (intro planner_io io_syscall) simp
  then show ?thesis
    unfolding create_transient_system_view_anchor_def anchor_from_clone_def anchor_from_bind_def Let_def
    by (intro planner_io) auto
qed

lemma io_markers [planner_io]:
  "respected (note_failure (mp_world pl) package view_ready)" "respected (note_success (mp_world pl) package)"
  "respected (note_view_failure pl is_media storage_path)"
proof -
  show failure: "respected (note_failure (mp_world pl) package view_ready)" for package view_ready
    unfolding note_failure_def Let_def by (intro planner_io io_syscall) auto
  show "respected (note_success (mp_world pl) package)"
    unfolding note_success_def by (intro planner_io io_syscall) auto
  show "respected (note_view_failure pl is_media storage_path)"
    unfolding note_view_failure_def by (intro planner_io failure)
qed

lemma io_own_private [planner_io]:
  "respected (restore_own_private_directories pl storage_path data_root scoped_roots)"
  "respected (restore_own_private_system_view pl scoped_roots)"
proof -
  show "respected (restore_own_private_directories pl storage_path data_root scoped_roots)"
    for storage_path data_root
    unfolding restore_own_private_directories_def restore_own_private_directory_def Let_def by (intro planner_io)
  then show "respected (restore_own_private_system_view pl scoped_roots)"
    unfolding restore_own_private_system_view_def by (intro planner_io)
qed

lemma io_restores [planner_io]:
  "respected (restore_bind pl source target)"
  "respected (restore_allowed_real_paths pl allowed excluded scoped_roots anc data_root storage_path)"
  "respected (restore_excluded_sandbox_paths pl excluded resolved_target storage_path)"
  "respected (ensure_scoped_fuse_mount_points pl scoped_roots storage_path)"
proof -
  show bind: "respected (restore_bind pl source target)" for source target
    unfolding restore_bind_def by (intro planner_io)
  show "respected (restore_allowed_real_paths pl allowed excluded scoped_roots anc data_root storage_path)"
    unfolding restore_allowed_real_paths_def restore_allowed_real_path_def by (intro planner_io bind)
  show "respected (restore_excluded_sandbox_paths pl excluded resolved_target storage_path)"
    unfolding restore_excluded_sandbox_paths_def by (intro planner_io bind)
  show "respected (ensure_scoped_fuse_mount_points pl scoped_roots storage_path)"
    unfolding ensure_scoped_fuse_mount_points_def by (intro planner_io)
qed

lemma io_read_only [planner_io]:
  "respected (apply_read_only_paths pl ro excluded mappings storage_path source_roots scoped_roots)"
proof -
  have source: "respected (resolve_read_only_source pl relative roots)" for relative roots
    unfolding resolve_read_only_source_def Let_def by (intro planner_io)
  have "respected (mount_read_only_path pl storage_path roots children path)" for roots children path
    unfolding mount_read_only_path_def by (intro planner_io source)
  moreover have "respected (restore_read_only_excluded_child pl storage_path roots child)" for roots child
    unfolding restore_read_only_excluded_child_def by (intro planner_io source)
  ultimately show ?thesis
    unfolding apply_read_only_paths_def Let_def by (intro planner_io source)
qed

lemma io_redirect [planner_io]:
  "respected (prepare_redirect_target pl resolved_target)"
  "respected (apply_sandboxed_paths pl sandboxed scoped_roots anc data_root storage_path)"
  unfolding prepare_redirect_target_def prepare_redirect_android_app_directories_def
    apply_sandboxed_paths_def mount_sandboxed_path_def restore_sandbox_excluded_path_def Let_def
  by (intro planner_io)+

end

section \<open>Mappings\<close>

text \<open>A relation that allows every call allows the one function that changes metadata in every build.\<close>

lemma owned_from_steps:
  assumes "step_order R" "\<And>w c. state_io_rel R (syscall w c)" "\<And>s n. R s (s\<lparr>ms_clock := n\<rparr>)"
    and "\<And>s e. R s (s\<lparr>ms_last_create_errno := e\<rparr>)"
  shows "state_io_rel R (ensure_app_owned_mapping_target pl path owner_uid)"
proof -
  have ask: "state_io_rel R (ask f)" for f :: "nat \<Rightarrow> 'b"
    using assms(3) by (auto simp: state_io_rel_def ask_def)
  have "state_io_rel R (create_components w uid current parts)" for w uid current parts
  proof (induction parts arbitrary: current)
    case (Cons part parts)
    then show ?case
      unfolding create_components.simps Let_def note_create_errno_def
      by (intro step_order.io_structure [OF assms(1)] io_modifies assms)
  qed (simp add: step_order.io_return [OF assms(1)])
  then show ?thesis
    unfolding ensure_app_owned_mapping_target_def metadata_path_of_def create_directory_def note_create_errno_def
      fs_is_directory_def stat_node_def change_owner_def change_mode_def Let_def
    by (intro step_order.io_structure [OF assms(1)] io_modifies ask assms)
qed

locale mapping_steps = planner_steps +
  assumes owned: "state_io_rel R (ensure_app_owned_mapping_target pl path owner_uid)"
begin

lemma io_apply_mappings:
  "respected (apply_resolved_path_mappings pl mappings storage_path source_roots preferred ro excluded opts)"
proof -
  have source: "respected (resolve_mapping_target_source_path pl final storage_path source_roots existing_only)"
    for final existing_only
    unfolding resolve_mapping_target_source_path_def resolve_mapping_target_source_def Let_def by (intro planner_io)
  have point: "respected (ensure_mapping_request_mount_point pl request storage_path chown fallback covering)"
    for request chown fallback covering
    unfolding ensure_mapping_request_mount_point_def by (intro planner_io)
  have "respected (bind_mapping_request pl source request storage_path)" for source request
    unfolding bind_mapping_request_def by (intro planner_io)
  moreover have "respected (finish_mapping pl mapping source storage_path preferred ro excluded)" for mapping source
    unfolding finish_mapping_def by (intro planner_io)
  ultimately show ?thesis
    unfolding apply_resolved_path_mappings_def apply_resolved_mapping_def
    by (intro planner_io source point owned)
qed

lemma io_mapping_plans:
  "respected (apply_path_mappings_only pl mappings sandboxed ro scoped_roots)"
  "respected (reapply_path_mappings_only pl mappings)"
  unfolding apply_path_mappings_only_def reapply_path_mappings_only_def Let_def
  by (intro planner_io io_apply_mappings)+

lemma io_below_redirect:
  "respected (apply_below_redirect pl allowed excluded ro mappings scoped_roots anc resolved_target data_root storage_path)"
  unfolding apply_below_redirect_def Let_def by (intro planner_io io_apply_mappings)

text \<open>Every operation but the redirection.\<close>

lemma io_other_runs:
  assumes "\<And>allowed excluded ro mappings scoped. op \<noteq> ApplyRedirect allowed excluded ro mappings scoped"
  shows "respected (planner_run pl op)"
proof (cases op)
  case (ApplyRedirect allowed excluded ro mappings scoped)
  then show ?thesis using assms by blast
qed (auto simp: planner_run_def take_mounted_targets_def intro!: planner_io io_mapping_plans io_modifies taken)

end

text \<open>The redirection alone sets the cell that tells that the root of the storage is redirected.\<close>

locale redirect_steps = mapping_steps +
  assumes root_redirected: "R s (s\<lparr>ms_is_storage_root_redirected := True\<rparr>)"
begin

lemma io_redirect_root: "respected (redirect_storage_root pl resolved_target storage_path)"
  unfolding redirect_storage_root_def by (intro planner_io io_modifies root_redirected)

lemma io_sdcard_redirect: "respected (apply_sdcard_redirect pl allowed excluded ro mappings scoped_roots)"
  unfolding apply_sdcard_redirect_def Let_def by (intro planner_io io_redirect_root io_below_redirect)

lemma io_planner_run: "respected (planner_run pl op)"
proof (cases op)
  case (ApplyRedirect allowed excluded ro mappings scoped)
  then show ?thesis
    unfolding planner_run_def by (auto intro!: planner_io io_sdcard_redirect)
qed (auto intro!: io_other_runs)

end

end
