(* ===== verification/Mount_Bind_Steps.thy ===== *)
theory Mount_Bind_Steps
  imports Mount_Steps
begin

text \<open>
  What holds of a bind because it holds of its steps: two locales over a relation between the states before and
  after, one for the parts of a bind that do not record the target, one for the whole.
\<close>

text \<open>The calls a bind of a source onto a target may make, with the repair of the parent of the storage.\<close>

fun bind_call :: "bytes \<Rightarrow> bytes \<Rightarrow> mount_call \<Rightarrow> bool" where
  "bind_call source target (BindPath a b r) \<longleftrightarrow>
     a = source \<and> b = target \<or> a = ''/data/media'' \<and> b = ''/storage/emulated'' \<and> \<not> r"
| "bind_call source target (MoveTree a b) \<longleftrightarrow> a = source \<and> b = target"
| "bind_call source target (CloneTree a r) \<longleftrightarrow> a = source"
| "bind_call source target (OpenTarget b) \<longleftrightarrow> b = target"
| "bind_call source target (Remount b read_only r) \<longleftrightarrow> b = target"
| "bind_call source target (Detach b) \<longleftrightarrow> b = target \<or> b = ''/storage/emulated''"
| "bind_call source target (SetGroups groups) \<longleftrightarrow> True"
| "bind_call source target c \<longleftrightarrow> False"

locale bind_steps = step_order R for R :: "mount_state \<Rightarrow> mount_state \<Rightarrow> bool" +
  fixes pl :: mount_planner and source target :: bytes
  assumes clock: "R s (s\<lparr>ms_clock := n\<rparr>)"
    and called: "bind_call source target c \<Longrightarrow> R s (s\<lparr>ms_calls := ms_calls s @ [(c, e)]\<rparr>)"
    and bind_errno: "R s (s\<lparr>ms_last_bind_errno := e\<rparr>)"
    and pre_bind_inode: "R s (s\<lparr>ms_pre_bind_target_inode := i\<rparr>)"
    and credentials: "state_io_rel R (m :: bool planner_m) \<Longrightarrow> state_io_rel R (with_app_credentials pl m)"
begin

lemma io_ask: "state_io_rel R (ask f)"
  by (auto simp: state_io_rel_def ask_def clock)

lemma io_syscall: "bind_call source target c \<Longrightarrow> state_io_rel R (syscall w c)"
  unfolding state_io_rel_def syscall_def
  using called chained clock by (fastforce simp: Let_def)

lemma io_cells:
  "state_io_rel R (modifies (\<lambda>s. s\<lparr>ms_last_bind_errno := e\<rparr>))"
  "state_io_rel R (modifies (\<lambda>s. s\<lparr>ms_pre_bind_target_inode := i\<rparr>))"
  by (auto intro!: io_modifies bind_errno pre_bind_inode)

lemma io_stat:
  "state_io_rel R (stat_node w path)" "state_io_rel R (stat_inode w path)" "state_io_rel R (stat_is_directory w path)"
  "state_io_rel R (fs_is_directory w path)" "state_io_rel R (paths_have_same_inode w path path')"
  "state_io_rel R (is_mount_point w path)" "state_io_rel R (is_topmost_fuse w path)"
  by (auto simp: stat_node_def stat_inode_def stat_is_directory_def fs_is_directory_def paths_have_same_inode_def
      read_mountinfo_def is_mount_point_def is_topmost_fuse_def intro!: io_structure io_ask)

lemma io_remount_inner: "state_io_rel R (remount_inner w read_only target is_recursive)"
  unfolding remount_inner_def by (intro io_structure io_syscall) simp

lemma io_remounts:
  "state_io_rel R (remount_bind_read_only w target is_recursive)"
  "state_io_rel R (remount_bind_read_write w target is_recursive)"
  unfolding remount_bind_read_only_def remount_bind_read_write_def by (intro io_structure io_remount_inner)+

lemma io_via_fds: "state_io_rel R (bind_mount_via_fds pl source target is_recursive)"
  unfolding bind_mount_via_fds_def by (intro io_structure credentials io_syscall) simp_all

lemma io_shortcut: "state_io_rel R (same_inode_shortcut pl source target is_recursive)"
  unfolding same_inode_shortcut_def by (intro io_structure io_stat io_remounts)

lemma io_verify: "state_io_rel R (verify_fuse_backed_bind_landing pl target)"
  unfolding verify_fuse_backed_bind_landing_def by (intro io_structure io_stat)

end

locale recording_binds = bind_steps +
  assumes recorded: "R s (s\<lparr>ms_mounted_targets := targets\<rparr>)"
begin

lemma io_records: "state_io_rel R (record_mounted_target path)" "state_io_rel R (forget_mounted_target path)"
  unfolding record_mounted_target_def forget_mounted_target_def
  by (auto intro!: io_modifies recorded same)

lemma io_repair: "state_io_rel R (repair_disconnected_storage_parent pl target)"
  unfolding repair_disconnected_storage_parent_def
  by (intro io_structure io_stat io_records io_syscall)
    (auto simp: storage_emulated_repair_mount_def Let_def split: if_splits)

lemma io_attempts: "state_io_rel R (bind_attempts pl source target is_recursive)"
  unfolding bind_attempts_def by (intro io_structure io_via_fds io_cells io_repair io_syscall) simp_all

lemma io_inner: "state_io_rel R (bind_mount_inner pl source target is_recursive shortcut)"
  unfolding bind_mount_inner_def Let_def
  by (intro io_structure io_shortcut io_stat io_cells io_attempts io_verify io_records)

lemma io_take_back: "state_io_rel R (take_bind_back w target recorded_before)"
  unfolding take_bind_back_def by (intro io_structure io_records io_syscall) simp

lemma io_bind_mounts:
  "state_io_rel R (bind_mount pl source target is_recursive)"
  "state_io_rel R (bind_mount_overlay pl source target is_recursive)"
  "state_io_rel R (bind_mount_read_only pl source target is_recursive)"
  "state_io_rel R (bind_mount_read_write_overlay pl source target is_recursive)"
proof -
  show plain: "state_io_rel R (bind_mount pl source target is_recursive)"
    "state_io_rel R (bind_mount_overlay pl source target is_recursive)" for is_recursive
    unfolding bind_mount_def bind_mount_overlay_def by (rule io_inner)+
  show "state_io_rel R (bind_mount_read_only pl source target is_recursive)"
    "state_io_rel R (bind_mount_read_write_overlay pl source target is_recursive)"
    unfolding bind_mount_read_only_def bind_mount_read_write_overlay_def Let_def
    by (intro io_structure plain io_remounts io_take_back)+
qed

end

text \<open>A relation that looks neither at the credentials nor at which calls are made lets the credentials be changed.\<close>

lemma credentials_from_steps:
  assumes "step_order R" "\<And>s uid. R s (s\<lparr>ms_fsuid := uid\<rparr>)" "\<And>s groups. R s (s\<lparr>ms_groups := groups\<rparr>)"
    and "\<And>groups. state_io_rel R (syscall (mp_world pl) (SetGroups groups))" "state_io_rel R m"
  shows "state_io_rel R (with_app_credentials pl m)"
  unfolding with_app_credentials_def set_groups_def set_fsuid_def
  by (intro step_order.io_structure [OF assms(1)] io_modifies assms)

end
