(* ===== verification/Mount_Records.thy ===== *)
theory Mount_Records
  imports Mount_Bind_Steps
begin

text \<open>
  The record of mounted targets, by which other parts of the module know what a planner has mounted, is backed by
  calls that succeeded; credentials are given back; and what a read-only bind promises.
\<close>

section \<open>Recorded targets\<close>

fun mounts_on :: "mount_call \<Rightarrow> bytes option" where
  "mounts_on (BindPath source target is_recursive) = Some target"
| "mounts_on (MoveTree source target) = Some target"
| "mounts_on (Remount target read_only is_recursive) = (if read_only then None else Some target)"
| "mounts_on _ = None"

definition mounted_at :: "bytes \<Rightarrow> mount_state \<Rightarrow> bool" where
  "mounted_at target s \<longleftrightarrow> (\<exists>c. (c, 0) \<in> set (ms_calls s) \<and> mounts_on c = Some target)"

definition recorded_ok :: "mount_state \<Rightarrow> bool" where
  "recorded_ok s \<longleftrightarrow> distinct (ms_mounted_targets s) \<and> [] \<notin> set (ms_mounted_targets s)
     \<and> (\<forall>target \<in> set (ms_mounted_targets s). mounted_at target s)"

definition keeps_record :: "mount_state \<Rightarrow> mount_state \<Rightarrow> bool" where
  "keeps_record s t \<longleftrightarrow> (recorded_ok s \<longrightarrow> recorded_ok t) \<and> set (ms_calls s) \<subseteq> set (ms_calls t)"

lemma mounted_at_mono: "mounted_at target s \<Longrightarrow> set (ms_calls s) \<subseteq> set (ms_calls t) \<Longrightarrow> mounted_at target t"
  by (auto simp: mounted_at_def)

text \<open>A change that leaves the record alone and forgets no call keeps it.\<close>

lemma keeps_record_I:
  "ms_mounted_targets t = ms_mounted_targets s \<Longrightarrow> set (ms_calls s) \<subseteq> set (ms_calls t) \<Longrightarrow> keeps_record s t"
  unfolding keeps_record_def recorded_ok_def using mounted_at_mono [of _ s t] by auto

lemma record_order: "step_order keeps_record"
  by unfold_locales (auto simp: keeps_record_def)

lemma record_syscall: "state_io_rel keeps_record (syscall w c)"
  by (auto simp: state_io_rel_def syscall_def Let_def intro: keeps_record_I)

interpretation bind_record: bind_steps keeps_record pl source target for pl source target
proof unfold_locales
  show "state_io_rel keeps_record m \<Longrightarrow> state_io_rel keeps_record (with_app_credentials pl m)" for m :: "bool planner_m"
    by (rule credentials_from_steps [OF record_order _ _ record_syscall]) (auto intro: keeps_record_I)
qed (auto simp: keeps_record_def recorded_ok_def mounted_at_def)

lemma record_forget: "state_io_rel keeps_record (forget_mounted_target target)"
  unfolding forget_mounted_target_def
  by (rule io_modifies) (auto simp: keeps_record_def recorded_ok_def mounted_at_def)

section \<open>What a successful step has done\<close>

lemma ensures_call: "ensures (\<lambda>_. True) (syscall w c) (\<lambda>e s. (c, e) \<in> set (ms_calls s))"
  by (simp add: ensures_def syscall_def Let_def)

lemma call_succeeds:
  "ensures (\<lambda>_. True) (do { e \<leftarrow> syscall w c; ret (e = 0) }) (\<lambda>ok s. ok \<longrightarrow> (c, 0) \<in> set (ms_calls s))"
  by (rule ensures_bind [OF ensures_call]) (auto intro: ensures_return)

lemma never_true: "ensures (\<lambda>_. True) (ret False) (\<lambda>ok s. ok \<longrightarrow> Q s)"
  by (simp add: ensures_def)

lemma ensures_or:
  assumes "ensures (\<lambda>_. True) m (\<lambda>ok s. ok \<longrightarrow> Q s)" "ensures (\<lambda>_. True) n (\<lambda>ok s. ok \<longrightarrow> Q s)"
  shows "ensures (\<lambda>_. True) (do { ok \<leftarrow> m; if ok then ret True else n }) (\<lambda>ok s. ok \<longrightarrow> Q s)"
  using assms by (auto simp: ensures_def split: prod.splits)

lemma ensures_call_or:
  assumes "\<And>s. (c, 0) \<in> set (ms_calls s) \<Longrightarrow> Q s" "\<And>e. ensures (\<lambda>_. True) (m e) (\<lambda>ok s. ok \<longrightarrow> Q s)"
  shows "ensures (\<lambda>_. True) (do { e \<leftarrow> syscall w c; if e = 0 then ret True else m e }) (\<lambda>ok s. ok \<longrightarrow> Q s)"
proof (rule ensures_bind [OF ensures_call])
  fix e
  show "ensures (\<lambda>s. (c, e) \<in> set (ms_calls s)) (if e = 0 then ret True else m e) (\<lambda>ok s. ok \<longrightarrow> Q s)"
    using assms by (auto simp: ensures_def)
qed

lemma remount_rw_done:
  "ensures (\<lambda>_. True) (remount_bind_read_write w target is_recursive) (\<lambda>ok s. ok \<longrightarrow> mounted_at target s)"
proof -
  have "ensures (\<lambda>_. True) (remount_inner w False target r) (\<lambda>ok s. ok \<longrightarrow> mounted_at target s)" for r
    unfolding remount_inner_def
    by (rule ensures_if [OF never_true ensures_weaken [OF call_succeeds]]) (force simp: mounted_at_def)+
  then show ?thesis
    unfolding remount_bind_read_write_def by (intro ensures_or)
qed

lemma bind_attempts_done:
  "ensures (\<lambda>_. True) (bind_attempts pl source target is_recursive) (\<lambda>ok s. ok \<longrightarrow> mounted_at target s)"
proof -
  have call: "ensures (\<lambda>_. True) (do { e \<leftarrow> syscall w c; ret (e = 0) }) (\<lambda>ok s. ok \<longrightarrow> mounted_at target s)"
    if "mounts_on c = Some target" for w c
    by (rule ensures_weaken [OF call_succeeds]) (use that in \<open>auto simp: mounted_at_def\<close>)
  have "ensures (\<lambda>_. True) (bind_mount_via_fds pl source target is_recursive) (\<lambda>ok s. ok \<longrightarrow> mounted_at target s)"
    unfolding bind_mount_via_fds_def
    by (intro ensures_if never_true ensures_later call mounts_on.simps)
  then show ?thesis
    unfolding bind_attempts_def
    by (intro ensures_or ensures_call_or ensures_later ensures_if never_true call) (auto simp: mounted_at_def)
qed

section \<open>The record is kept\<close>

lemma ensures_io: "state_io_rel keeps_record m \<Longrightarrow> ensures recorded_ok m (\<lambda>_. recorded_ok)"
  by (auto simp: ensures_def keeps_record_def dest: io_run split: prod.splits)

text \<open>What a step has done may be used for the rest.\<close>

lemma record_bind:
  assumes "state_io_rel keeps_record m" "ensures (\<lambda>_. True) m Q"
    and "\<And>a s. Q a s \<Longrightarrow> keeps_record s (snd (run_state (f a) s))"
  shows "state_io_rel keeps_record (do { a \<leftarrow> m; f a })"
  unfolding state_io_rel_def
proof
  fix s
  obtain a t where m: "run_state m s = (a, t)" by (cases "run_state m s")
  have "keeps_record s t" using assms(1) m by (rule io_run)
  moreover have "Q a t" using assms(2) m by (auto simp: ensures_def split: prod.splits)
  then have "keeps_record t (snd (run_state (f a) t))" by (rule assms(3))
  ultimately have "keeps_record s (snd (run_state (f a) t))" by (rule bind_record.chained)
  then show "keeps_record s (snd (run_state (do { a \<leftarrow> m; f a }) s))" using m by simp
qed

lemma record_target:
  "mounted_at target s \<Longrightarrow> keeps_record s (snd (run_state (do { record_mounted_target target; ret b }) s))"
  by (auto simp: record_mounted_target_def keeps_record_def recorded_ok_def mounted_at_def)

lemma record_repair: "state_io_rel keeps_record (repair_disconnected_storage_parent pl target)"
proof -
  have bound: "state_io_rel keeps_record (do { e \<leftarrow> syscall w (BindPath source point False);
      if e \<noteq> 0 then ret False else do { record_mounted_target point; ret True } })" for w source point
    by (rule record_bind [OF record_syscall ensures_call])
      (auto simp: mounted_at_def bind_record.same simp del: run_state_bind intro!: record_target exI [of _ "BindPath source point False"])
  show ?thesis
    unfolding repair_disconnected_storage_parent_def
    by (rule bind_record.io_option, rule bind_record.io_return, rule bind_record.io_prod,
        rule bind_record.io_bind [OF bind_record.io_stat(4)], rule bind_record.io_if, rule bind_record.io_return,
        rule bind_record.io_bind [OF record_syscall], rule bound)
qed

lemma record_attempts: "state_io_rel keeps_record (bind_attempts pl source target is_recursive)"
  unfolding bind_attempts_def
  by (intro bind_record.io_structure bind_record.io_via_fds record_syscall bind_record.io_cells record_repair)

lemma shortcut_done:
  "ensures (\<lambda>_. True) (same_inode_shortcut pl source target is_recursive) (\<lambda>ok s. ok \<longrightarrow> mounted_at target s)"
  unfolding same_inode_shortcut_def by (intro ensures_later ensures_if never_true remount_rw_done)

text \<open>A step that has mounted the target, and another one that leaves the record alone, may be followed by the record.\<close>

lemma record_checked:
  assumes "mounted_at target s" "state_io_rel keeps_record check"
  shows "keeps_record s (snd (run_state (do { ok \<leftarrow> check;
    if \<not> ok then ret False else do { record_mounted_target target; ret True } }) s))"
proof -
  obtain ok t where v: "run_state check s = (ok, t)" by (cases "run_state check s")
  have st: "keeps_record s t" using assms(2) v by (rule io_run)
  then have "mounted_at target t" using assms(1) mounted_at_mono by (auto simp: keeps_record_def)
  then have "keeps_record t (snd (run_state (if \<not> ok then ret False else do { record_mounted_target target; ret True }) t))"
    using record_target by (auto simp: bind_record.same)
  with st have "keeps_record s (snd (run_state (if \<not> ok then ret False else do { record_mounted_target target; ret True }) t))"
    by (rule bind_record.chained)
  then show ?thesis using v by simp
qed

lemma record_inner: "state_io_rel keeps_record (bind_mount_inner pl source target is_recursive shortcut)"
proof -
  let ?at = "\<lambda>ok s. ok \<longrightarrow> mounted_at target s"
  have bind: "state_io_rel keeps_record (do { bound \<leftarrow> bind_attempts pl source target r;
      if \<not> bound then ret False else do { verified \<leftarrow> (if fuse then verify_fuse_backed_bind_landing pl target else ret True);
        if \<not> verified then ret False else do { record_mounted_target target; ret True } } })" for r fuse
  proof (rule record_bind [OF record_attempts bind_attempts_done])
    fix ok s
    assume "ok \<longrightarrow> mounted_at target s"
    moreover have "state_io_rel keeps_record (if fuse then verify_fuse_backed_bind_landing pl target else ret True)"
      by (intro bind_record.io_structure bind_record.io_verify)
    ultimately show "keeps_record s (snd (run_state (if \<not> ok then ret False else do {
        verified \<leftarrow> (if fuse then verify_fuse_backed_bind_landing pl target else ret True);
        if \<not> verified then ret False else do { record_mounted_target target; ret True } }) s))"
      using record_checked by (cases ok) (simp_all add: bind_record.same del: run_state_bind)
  qed
  have skip: "state_io_rel keeps_record (do { skipped \<leftarrow> (if shortcut then same_inode_shortcut pl source target r else ret False);
      if skipped then do { record_mounted_target target; ret True } else n })"
    if "state_io_rel keeps_record n" for r n
  proof (rule record_bind [where Q = ?at])
    show "state_io_rel keeps_record (if shortcut then same_inode_shortcut pl source target r else ret False)"
      by (intro bind_record.io_structure bind_record.io_shortcut)
    show "ensures (\<lambda>_. True) (if shortcut then same_inode_shortcut pl source target r else ret False) ?at"
      by (intro ensures_if shortcut_done never_true)
    show "keeps_record s (snd (run_state (if ok then do { record_mounted_target target; ret True } else n) s))"
      if "?at ok s" for ok s
      using that record_target \<open>state_io_rel keeps_record n\<close> by (auto simp: state_io_rel_def simp del: run_state_bind)
  qed
  show ?thesis
    unfolding bind_mount_inner_def Let_def
    by (rule skip, rule bind_record.io_if, rule bind_record.io_return, rule bind_record.io_bind [OF bind_record.io_stat(2)],
        rule bind_record.io_bind [OF bind_record.io_cells(2)], rule bind)
qed

lemma record_take_back: "state_io_rel keeps_record (take_bind_back w target previously_recorded)"
  unfolding take_bind_back_def by (intro bind_record.io_structure record_syscall record_forget)

lemma record_remounted_binds:
  "state_io_rel keeps_record (bind_mount_read_only pl source target is_recursive)"
  "state_io_rel keeps_record (bind_mount_read_write_overlay pl source target is_recursive)"
  unfolding bind_mount_read_only_def bind_mount_read_write_overlay_def bind_mount_def bind_mount_overlay_def Let_def
  by (intro bind_record.io_structure record_inner bind_record.io_remounts record_take_back)+

interpretation recorded: redirect_steps keeps_record pl for pl
proof unfold_locales
  show steps: "keeps_record s (s\<lparr>ms_clock := n\<rparr>)" "keeps_record s (s\<lparr>ms_calls := ms_calls s @ [(c, e)]\<rparr>)"
    "keeps_record s (s\<lparr>ms_last_create_errno := x\<rparr>)" "keeps_record s (s\<lparr>ms_is_namespace_ready := True\<rparr>)"
    "keeps_record s (s\<lparr>ms_is_storage_root_redirected := True\<rparr>)" "keeps_record s (s\<lparr>ms_real_storage_anchor := a\<rparr>)"
    "keeps_record s (s\<lparr>ms_system_view_clone := b\<rparr>)" for s n c e x b a
    by (auto intro: keeps_record_I)
  show "keeps_record s (s\<lparr>ms_mounted_targets := []\<rparr>)" for s
    by (auto simp: keeps_record_def recorded_ok_def)
  show "state_io_rel keeps_record (bind_mount_inner pl source target r f)" for source target r f
    by (rule record_inner)
  show "state_io_rel keeps_record (bind_mount_read_only pl source target r)"
    "state_io_rel keeps_record (bind_mount_read_write_overlay pl source target r)" for source target r
    by (rule record_remounted_binds)+
  show "state_io_rel keeps_record (ensure_app_owned_mapping_target pl path uid)" for path uid
    by (rule owned_from_steps [OF record_order record_syscall]) (rule steps)+
qed

section \<open>A bind that is to be read-only\<close>

definition adds_no_record :: "bytes \<Rightarrow> mount_state \<Rightarrow> mount_state \<Rightarrow> bool" where
  "adds_no_record target s t \<longleftrightarrow> (target \<in> set (ms_mounted_targets t) \<longrightarrow> target \<in> set (ms_mounted_targets s))"

interpretation unrecorded: bind_steps "adds_no_record target" pl source target for pl source target
proof unfold_locales
  have order: "step_order (adds_no_record target)" by unfold_locales (auto simp: adds_no_record_def)
  show "state_io_rel (adds_no_record target) m \<Longrightarrow> state_io_rel (adds_no_record target) (with_app_credentials pl m)"
    for m :: "bool planner_m"
    by (rule credentials_from_steps [OF order])
      (auto simp: adds_no_record_def state_io_rel_def syscall_def Let_def)
qed (auto simp: adds_no_record_def)

lemma storage_parent_is_not_the_target: "storage_emulated_repair_mount target user_id = Some (source, point) \<Longrightarrow> point \<noteq> target"
proof
  assume repair: "storage_emulated_repair_mount target user_id = Some (source, point)" and "point = target"
  then have target: "target = ''/storage/emulated''" by (auto simp: storage_emulated_repair_mount_def Let_def split: if_splits)
  have "normalize ''/storage/emulated'' = ''/storage/emulated''" by code_simp
  moreover have "length (storage_user_root_for_user user_id) > length ''/storage/emulated''"
    by (simp add: storage_user_root_for_user_def STORAGE_EMULATED_PREFIX_def)
  ultimately show False
    using repair target
    by (auto simp: storage_emulated_repair_mount_def Let_def eq_ignore_case_def eq_ignore_ascii_case_def is_child_def
        child_suffix_def to_ascii_lowercase_def dest: arg_cong [of _ _ length] split: if_splits option.splits)
qed

lemma unrecorded_attempts: "state_io_rel (adds_no_record target) (bind_attempts pl source target is_recursive)"
proof -
  have other: "state_io_rel (adds_no_record target) (do { record_mounted_target point; ret True })" if "point \<noteq> target" for point
    unfolding record_mounted_target_def
    by (rule unrecorded.io_bind [OF io_modifies unrecorded.io_return]) (use that in \<open>auto simp: adds_no_record_def\<close>)
  have "state_io_rel (adds_no_record target) (syscall w c)" for w c
    by (auto simp: adds_no_record_def state_io_rel_def syscall_def Let_def)
  note call = this
  have "state_io_rel (adds_no_record target) (repair_disconnected_storage_parent pl target)"
    unfolding repair_disconnected_storage_parent_def
    by (rule unrecorded.io_option, rule unrecorded.io_return, rule unrecorded.io_prod,
        rule unrecorded.io_bind [OF unrecorded.io_stat(4)], rule unrecorded.io_if, rule unrecorded.io_return,
        rule unrecorded.io_bind [OF call], rule unrecorded.io_bind [OF call], rule unrecorded.io_if, rule unrecorded.io_return,
        rule other) (auto dest: storage_parent_is_not_the_target)
  then show ?thesis
    unfolding bind_attempts_def
    by (intro unrecorded.io_structure unrecorded.io_via_fds unrecorded.io_cells call)
qed

lemma failed_bind_records_nothing:
  assumes "run_state (bind_mount_inner pl source target is_recursive shortcut) s = (False, t)"
  shows "adds_no_record target s t"
proof -
  let ?R = "adds_no_record target"
  have shortcut: "?R s u" if "run_state (same_inode_shortcut pl source target r) s = (ok, u)" for r s ok u
    using unrecorded.io_shortcut that by (rule io_run)
  have inode: "?R s u" if "run_state (stat_inode w target) s = (i, u)" for w s i u
    using unrecorded.io_stat(2) that by (rule io_run)
  have attempts: "?R s u" if "run_state (bind_attempts pl source target r) s = (ok, u)" for r s ok u
    using unrecorded_attempts that by (rule io_run)
  have verify: "?R s u" if "run_state (verify_fuse_backed_bind_landing pl target) s = (ok, u)" for s ok u
    using unrecorded.io_verify that by (rule io_run)
  show ?thesis
    using assms
    by (auto simp: bind_mount_inner_def Let_def unrecorded.same split: prod.splits if_splits
        dest!: shortcut inode attempts verify) (auto simp: adds_no_record_def)
qed

end
