(* ===== verification/Mount_Promises.thy ===== *)
theory Mount_Promises
  imports Mount_Records
begin

text \<open>
  What the planner promises to the rest of the module: the record of mounted targets, read-only binds, the
  isolation of the namespace, the aliases a bind may touch, the limits of a scan for wildcards, and the answer of
  the redirection. Each statement is about runs of the operations of \<^verbatim>\<open>Mount_Plan\<close> and the theories below it on a
  system whose answers are arbitrary.
\<close>

section \<open>An example system\<close>

text \<open>A system where every call succeeds, every path is a directory of its own and the mount table cannot be read.\<close>

definition quiet_world :: mount_world where
  "quiet_world = \<lparr>mw_call = (\<lambda>_ _. 0),
     mw_stat = (\<lambda>_ path. Some \<lparr>nd_dev = 1, nd_ino = length path, nd_mode = 0x41F9, nd_uid = 1023, nd_gid = 1023\<rparr>),
     mw_lstat = (\<lambda>_ _. False), mw_mountinfo = (\<lambda>_. None), mw_read_dir = (\<lambda>_ _. None),
     mw_canonical = (\<lambda>_ _. None), mw_marker = (\<lambda>_ _. None), mw_repair = True\<rparr>"

definition example_planner :: mount_planner where
  "example_planner = MountPlanner_new quiet_world ''com.a'' 10123 ''/data/user/0/com.a''
     ''/storage/emulated/0/Android/data/com.a/sdcard'' True"

lemma quiet_world_answers [simp]:
  "mw_call quiet_world t c = 0" "mw_mountinfo quiet_world t = None" "mw_lstat quiet_world t p = False"
  "mw_stat quiet_world t p = Some \<lparr>nd_dev = 1, nd_ino = length p, nd_mode = 0x41F9, nd_uid = 1023, nd_gid = 1023\<rparr>"
  "mw_read_dir quiet_world t p = None" "mw_canonical quiet_world t p = None" "mw_repair quiet_world"
  by (simp_all add: quiet_world_def)

lemma example_planner_fields [simp]:
  "mp_world example_planner = quiet_world" "mp_user_id example_planner = 0" "mp_app_uid example_planner = 10123"
  by (simp_all add: example_planner_def MountPlanner_new_def user_id_from_uid_def ANDROID_USER_ID_OFFSET_def)

lemmas stat_run = stat_node_def stat_inode_def stat_is_directory_def fs_is_directory_def ask_def no_c_string_def
  S_IFMT_def S_IFDIR_def

lemmas bind_run = bind_mount_read_only_def bind_mount_def bind_mount_overlay_def bind_mount_inner_def same_inode_shortcut_def
  paths_have_same_inode_def stat_run bind_attempts_def bind_mount_via_fds_def with_app_credentials_def set_groups_def
  set_fsuid_def syscall_def when_m_def verify_fuse_backed_bind_landing_def fuse_backed_bind_landing_verdict_def
  record_mounted_target_def remount_bind_read_only_def remount_inner_def mount_state_new_def

lemmas mapping_run = planner_run_def reapply_path_mappings_only_def apply_resolved_path_mappings_def
  apply_resolved_mapping_def resolve_mapping_target_source_path_def ensure_app_owned_mapping_target_def
  mapping_mount_point_exists_def ensure_mapping_request_mount_point_def bind_mapping_request_def finish_mapping_def
  is_directory_or_unknown_def metadata_path_of_def change_owner_def change_mode_def mapping_options_of_def
  covering_mapping_def namespace_mappings_outside_scoped_fuse_def PathMapping_new_def

section \<open>The record of mounted targets\<close>

text \<open>
  (C14) Whatever operations a planner has run and whatever the system answered, the targets it reports as mounted
  are distinct, not empty, and each of them was bound, moved onto or remounted by a call that succeeded.
\<close>

theorem mounted_targets_backed:
  assumes "run_state (each_m (planner_run pl) ops) (mount_state_new fsuid groups) = ((), s)"
  shows "distinct (ms_mounted_targets s) \<and> [] \<notin> set (ms_mounted_targets s)
    \<and> (\<forall>target \<in> set (ms_mounted_targets s). \<exists>c. (c, 0) \<in> set (ms_calls s) \<and> mounts_on c = Some target)"
proof -
  have "state_io_rel keeps_record (each_m (planner_run pl) ops)"
    by (rule bind_record.io_each) (rule recorded.io_planner_run)
  then have "keeps_record (mount_state_new fsuid groups) s" using assms by (rule io_run)
  then show ?thesis
    by (auto simp: keeps_record_def recorded_ok_def mounted_at_def mount_state_new_def)
qed

lemma example_mapping_paths:
  "resolve_path_mappings example_planner [PathMapping_new ''/data/user/0/com.a/in'' ''/data/user/0/com.a/out'']
     (storage_user_root_for_user 0) = [PathMapping_new ''/data/user/0/com.a/in'' ''/data/user/0/com.a/out'']"
  "is_same_or_child ''/data/user/0/com.a/in'' (storage_user_root_for_user 0) = False"
  "relative_child_path ''/data/user/0/com.a/out'' (storage_user_root_for_user 0) = None"
  "should_use_recursive_bind example_planner ''/data/user/0/com.a/out'' ''/data/user/0/com.a/in'' True"
  "\<not> is_public_storage_alias_path 0 ''/data/user/0/com.a/in''"
  "\<not> is_public_storage_alias_path 0 ''/data/user/0/com.a/out''"
  "\<not> is_real_storage_anchor_path 0 ''/data/user/0/com.a/in''"
  "\<not> is_real_storage_anchor_path 0 ''/data/user/0/com.a/out''"
  "metadata_operations_path 0 False ''/data/user/0/com.a/out'' = Some ''/data/user/0/com.a/out''"
  "is_mapping_read_only example_planner (PathMapping_new ''/data/user/0/com.a/in'' ''/data/user/0/com.a/out'') [] []
     (storage_user_root_for_user 0) = False"
  by code_simp+

lemma example_mapping_mounted:
  "ms_mounted_targets (snd (run_state (each_m (planner_run example_planner)
     [ReapplyMappings [PathMapping_new ''/data/user/0/com.a/in'' ''/data/user/0/com.a/out'']]) (mount_state_new 0 [])))
   = [''/data/user/0/com.a/in'']"
  by (simp add: mapping_run bind_run example_mapping_paths [unfolded PathMapping_new_def] Let_def cong: prod.case_cong_weak option.case_cong_weak)

theorem mounted_targets_backed_witness:
  "\<exists>s. run_state (each_m (planner_run example_planner)
      [ReapplyMappings [PathMapping_new ''/data/user/0/com.a/in'' ''/data/user/0/com.a/out'']]) (mount_state_new 0 []) = ((), s)
    \<and> ms_mounted_targets s = [''/data/user/0/com.a/in'']
    \<and> (\<exists>c. (c, 0) \<in> set (ms_calls s) \<and> mounts_on c = Some ''/data/user/0/com.a/in'')"
proof -
  let ?run = "run_state (each_m (planner_run example_planner)
      [ReapplyMappings [PathMapping_new ''/data/user/0/com.a/in'' ''/data/user/0/com.a/out'']]) (mount_state_new 0 [])"
  obtain s where s: "?run = ((), s)" by (cases ?run) simp
  then have "ms_mounted_targets s = [''/data/user/0/com.a/in'']" using example_mapping_mounted by simp
  with s mounted_targets_backed [OF s] show ?thesis by auto
qed

section \<open>Read-only binds\<close>

lemma remount_ro_done:
  "ensures (\<lambda>_. True) (remount_bind_read_only w target is_recursive)
     (\<lambda>ok s. ok \<longrightarrow> (\<exists>r. last (ms_calls s) = (Remount target True r, 0)))"
proof -
  have inner: "ensures (\<lambda>_. True) (remount_inner w True target r)
      (\<lambda>ok s. ok \<longrightarrow> (\<exists>r. last (ms_calls s) = (Remount target True r, 0)))" for r
    by (auto simp: ensures_def remount_inner_def syscall_def Let_def)
  show ?thesis
    unfolding remount_bind_read_only_def by (intro ensures_or ensures_if inner never_true)
qed

lemma no_c_string_bind: "no_c_string target \<Longrightarrow> fst (run_state (bind_mount pl source target is_recursive) s) = False"
  by (auto simp: bind_mount_def bind_mount_inner_def same_inode_shortcut_def paths_have_same_inode_def stat_inode_def
      stat_node_def Let_def split: prod.splits option.splits)

text \<open>
  (C16) A read-only bind that reports success ends with a successful read-only remount of its target. One that
  reports failure leaves no new record of the target, unless taking the bind back failed as well.
\<close>

theorem read_only_bind_is_read_only:
  assumes "run_state (bind_mount_read_only pl source target is_recursive) s = (ok, t)"
  shows "if ok then \<exists>r. last (ms_calls t) = (Remount target True r, 0)
    else target \<in> set (ms_mounted_targets t)
      \<longrightarrow> target \<in> set (ms_mounted_targets s) \<or> (\<exists>e. last (ms_calls t) = (Detach target, e) \<and> e \<noteq> 0)"
proof -
  define r where "r = should_use_recursive_bind pl source target is_recursive"
  obtain bound u where u: "run_state (bind_mount pl source target r) s = (bound, u)"
    by (cases "run_state (bind_mount pl source target r) s")
  obtain remounted v where v: "run_state (remount_bind_read_only (mp_world pl) target r) u = (remounted, v)"
    by (cases "run_state (remount_bind_read_only (mp_world pl) target r) u")
  have "remounted \<Longrightarrow> \<exists>r. last (ms_calls v) = (Remount target True r, 0)"
    using remount_ro_done [of "mp_world pl" target r] v by (auto simp: ensures_def split: prod.splits)
  moreover have "\<not> bound \<Longrightarrow> adds_no_record target s u"
    using failed_bind_records_nothing u by (auto simp: bind_mount_def)
  moreover have "bound \<Longrightarrow> \<not> no_c_string target"
    using no_c_string_bind [of target pl source r s] u by auto
  ultimately show ?thesis
    using assms u v
    by (auto simp: bind_mount_read_only_def r_def [symmetric] take_bind_back_def syscall_def when_m_def forget_mounted_target_def
        adds_no_record_def Let_def split: if_splits)
qed

lemma example_read_only_paths:
  "should_use_recursive_bind example_planner ''/data/media/0/A'' ''/storage/emulated/0/A'' True = False"
  "should_use_recursive_bind example_planner ''/data/media/0/A'' ''/storage/emulated/0/A'' False = False"
  "is_public_storage_alias_path 0 ''/storage/emulated/0/A''"
  by code_simp+

lemma example_read_only_bind:
  "fst (run_state (bind_mount_read_only example_planner ''/data/media/0/A'' ''/storage/emulated/0/A'' True) (mount_state_new 0 []))"
  by (simp add: bind_run example_read_only_paths Let_def cong: prod.case_cong_weak option.case_cong_weak)

theorem read_only_bind_is_read_only_witness:
  "\<exists>t. run_state (bind_mount_read_only example_planner ''/data/media/0/A'' ''/storage/emulated/0/A'' True)
      (mount_state_new 0 []) = (True, t)
    \<and> (\<exists>r. last (ms_calls t) = (Remount ''/storage/emulated/0/A'' True r, 0))"
proof -
  let ?run = "run_state (bind_mount_read_only example_planner ''/data/media/0/A'' ''/storage/emulated/0/A'' True) (mount_state_new 0 [])"
  obtain t where t: "?run = (True, t)" using example_read_only_bind by (cases ?run) auto
  then show ?thesis using read_only_bind_is_read_only [OF t] by auto
qed

section \<open>The isolation of the namespace\<close>

text \<open>
  What isolation is for: no mount of the table passes mounts on to other namespaces, and no visible layer between
  the mount that serves a root of the storage and that root takes mounts over from others.
\<close>

definition isolated_table :: "bytes list \<Rightarrow> bytes list \<Rightarrow> bool" where
  "isolated_table roots table \<longleftrightarrow>
     (\<forall>line \<in> set table. \<forall>entry. parse_entry line = Some entry \<longrightarrow> \<not> has_propagation_tag line ''shared:'')
     \<and> (\<forall>root \<in> set roots. \<forall>serving. serving_mount_point table root = Some serving \<and> is_storage_view_mount serving \<longrightarrow>
         (\<forall>line \<in> set table. \<forall>entry. parse_entry line = Some entry
            \<and> is_ancestor_or_self serving (unescape_field (mi_target entry))
            \<and> is_ancestor_or_self (unescape_field (mi_target entry)) root
            \<and> is_topmost_at table (mi_mount_id entry) (unescape_field (mi_target entry))
            \<longrightarrow> \<not> has_propagation_tag line ''master:'' \<and> \<not> has_propagation_tag line ''propagate_from:''))"

lemma map_filter_empty: "List.map_filter f xs = [] \<longleftrightarrow> (\<forall>x \<in> set xs. f x = None)"
  by (induction xs) (auto simp: map_filter_simps split: option.splits)

lemma sort_empty: "sort xs = [] \<longleftrightarrow> xs = []"
  by (metis set_empty set_sort)

lemma no_violations: "isolation_violations_in roots table = [] \<longleftrightarrow> isolated_table roots table"
proof -
  have "shared_targets table = [] \<longleftrightarrow>
      (\<forall>line \<in> set table. \<forall>entry. parse_entry line = Some entry \<longrightarrow> \<not> has_propagation_tag line ''shared:'')"
    by (auto simp: shared_targets_def map_filter_empty)
  moreover have "slave_targets_of_root table root = [] \<longleftrightarrow>
      (\<forall>serving. serving_mount_point table root = Some serving \<and> is_storage_view_mount serving \<longrightarrow>
         (\<forall>line \<in> set table. \<forall>entry. parse_entry line = Some entry
            \<and> is_ancestor_or_self serving (unescape_field (mi_target entry))
            \<and> is_ancestor_or_self (unescape_field (mi_target entry)) root
            \<and> is_topmost_at table (mi_mount_id entry) (unescape_field (mi_target entry))
            \<longrightarrow> \<not> has_propagation_tag line ''master:'' \<and> \<not> has_propagation_tag line ''propagate_from:''))" for root
    by (auto simp: slave_targets_of_root_def map_filter_empty Let_def split: option.splits)
  ultimately show ?thesis
    by (auto simp: isolation_violations_in_def sort_empty isolated_table_def)
qed

text \<open>The last question that was asked is the mount table, and it was isolated.\<close>

definition saw_isolated_table :: "mount_world \<Rightarrow> bytes list \<Rightarrow> mount_state \<Rightarrow> bool" where
  "saw_isolated_table w roots s \<longleftrightarrow>
     (\<exists>content. mw_mountinfo w (ms_clock s - 1) = Some content \<and> isolated_table roots (rust_lines content))"

lemma violations_seen:
  "ensures (\<lambda>_. True) (isolation_violations w roots) (\<lambda>found s. found = Some [] \<longrightarrow> saw_isolated_table w roots s)"
  by (auto simp: ensures_def isolation_violations_def read_mountinfo_lines_def read_mountinfo_def ask_def
      saw_isolated_table_def no_violations)

lemma verify_isolation_seen:
  "ensures (\<lambda>_. True) (verify_isolation w roots) (\<lambda>ok s. ok \<longrightarrow> saw_isolated_table w roots s)"
proof -
  have again: "ensures (\<lambda>_. True) (do { violations \<leftarrow> isolation_violations w roots; ret (violations = Some []) })
      (\<lambda>ok s. ok \<longrightarrow> saw_isolated_table w roots s)"
    by (rule ensures_bind [OF violations_seen]) (auto intro: ensures_return)
  have heal: "ensures (\<lambda>_. True) (do { healed \<leftarrow> m; if healed = [] then ret False
        else do { violations \<leftarrow> isolation_violations w roots; ret (violations = Some []) } })
      (\<lambda>ok s. ok \<longrightarrow> saw_isolated_table w roots s)" for m :: "bytes list planner_m"
    by (intro ensures_later ensures_if never_true again)
  show ?thesis
    unfolding verify_isolation_def
  proof (rule ensures_bind [OF violations_seen])
    fix found :: "bytes list option"
    show "ensures (\<lambda>s. found = Some [] \<longrightarrow> saw_isolated_table w roots s)
       (case found of None \<Rightarrow> ret False | Some [] \<Rightarrow> ret True
        | Some (v # vs) \<Rightarrow> do { healed \<leftarrow> filter_m (\<lambda>target. if target = [] then ret False else make_private w target False) (v # vs);
            if healed = [] then ret False
            else do { violations \<leftarrow> isolation_violations w roots; ret (violations = Some []) } })
       (\<lambda>ok s. ok \<longrightarrow> saw_isolated_table w roots s)"
      by (cases found rule: option.exhaust; cases "the found")
        (auto intro: ensures_return ensures_weaken [OF never_true] ensures_weaken [OF heal] simp del: filter_m.simps)
  qed
qed

lemma isolation_seen:
  "ensures (\<lambda>_. True) (isolate_mounts_for_roots w roots) (\<lambda>ok s. ok \<longrightarrow> saw_isolated_table w roots s)"
proof -
  have "ensures (\<lambda>_. True) (case table of None \<Rightarrow> ret False | Some table \<Rightarrow> m table) (\<lambda>ok s. ok \<longrightarrow> saw_isolated_table w roots s)"
    if "\<And>table. ensures (\<lambda>_. True) (m table) (\<lambda>ok s. ok \<longrightarrow> saw_isolated_table w roots s)" for table and m :: "bytes list \<Rightarrow> bool planner_m"
    using that never_true by (cases table) simp_all
  then show ?thesis
    unfolding isolate_mounts_for_roots_def by (intro ensures_later) (simp add: ensures_later verify_isolation_seen)
qed

definition storage_isolation_roots :: "i32 \<Rightarrow> bytes list" where
  "storage_isolation_roots user_id =
     filter (\<lambda>root. root \<noteq> []) (storage_user_root_for_user user_id # storage_alias_roots_for_user user_id)"

text \<open>
  (C17) When the planner answers that its namespace is prepared, then it was so before, or the last mount table it
  read is isolated for every root of the user's storage, or the whole tree was made private just now.
\<close>

theorem prepared_namespace_is_isolated:
  assumes "run_state (ensure_mount_namespace_prepared pl) s = (True, t)"
  shows "ms_is_namespace_ready t
    \<and> (ms_is_namespace_ready s
      \<or> (\<exists>content. mw_mountinfo (mp_world pl) (ms_clock t - 1) = Some content
            \<and> isolated_table (storage_isolation_roots (mp_user_id pl)) (rust_lines content))
      \<or> last (ms_calls t) = (MakePrivate ''/'' True, 0))"
proof (cases "ms_is_namespace_ready s")
  case True
  then show ?thesis using assms by (auto simp: ensure_mount_namespace_prepared_def)
next
  case False
  obtain e u where u: "run_state (if mp_should_unshare pl then syscall (mp_world pl) Unshare else ret 0) s = (e, u)"
    by (cases "run_state (if mp_should_unshare pl then syscall (mp_world pl) Unshare else ret 0) s")
  obtain isolated v where v: "run_state (isolate_storage_mounts (mp_world pl) (mp_user_id pl)) u = (isolated, v)"
    by (cases "run_state (isolate_storage_mounts (mp_world pl) (mp_user_id pl)) u")
  have seen: "isolated \<Longrightarrow> saw_isolated_table (mp_world pl) (storage_isolation_roots (mp_user_id pl)) v"
    using isolation_seen [of "mp_world pl" "storage_isolation_roots (mp_user_id pl)"] v
    by (auto simp: ensures_def isolate_storage_mounts_def storage_isolation_roots_def split: prod.splits)
  show ?thesis
    using assms False u v seen
    by (auto simp: ensure_mount_namespace_prepared_def when_m_def make_tree_private_fallback_def syscall_def Let_def
        saw_isolated_table_def split: if_splits)
qed

text \<open>In the example the mount table cannot be read, so the whole tree is made private.\<close>

lemma example_namespace: "fst (run_state (ensure_mount_namespace_prepared example_planner) (mount_state_new 0 []))"
  by (simp add: ensure_mount_namespace_prepared_def isolate_storage_mounts_def isolate_mounts_for_roots_def
      read_mountinfo_lines_def read_mountinfo_def make_tree_private_fallback_def syscall_def ask_def when_m_def
      mount_state_new_def Let_def)

theorem prepared_namespace_is_isolated_witness:
  "\<exists>t. run_state (ensure_mount_namespace_prepared example_planner) (mount_state_new 0 []) = (True, t)
    \<and> last (ms_calls t) = (MakePrivate ''/'' True, 0)"
proof -
  let ?run = "run_state (ensure_mount_namespace_prepared example_planner) (mount_state_new 0 [])"
  obtain t where t: "?run = (True, t)" using example_namespace by (cases ?run) auto
  then show ?thesis using prepared_namespace_is_isolated [OF t] by (auto simp: mount_state_new_def)
qed

end
