(* ===== verification/Mount_Reach.thy ===== *)
theory Mount_Reach
  imports Mount_Promises
begin

text \<open>
  How far the planner reaches: the limits of the scan for wildcard rules, the paths that a bind onto a target and
  its aliases may touch, and what the answer of the redirection says.
\<close>

section \<open>The scan for wildcard rules\<close>

definition scan_within_limits :: "bytes \<Rightarrow> bytes \<Rightarrow> scan_acc \<Rightarrow> bool" where
  "scan_within_limits rule_path storage_path acc \<longleftrightarrow>
     length (fst acc) \<le> MAX_WILDCARD_MOUNT_MATCHES \<and> snd acc \<le> MAX_WILDCARD_SCAN_DIRS
     \<and> (\<forall>found \<in> set (fst acc). is_child found storage_path \<and> matches rule_path found True)"

text \<open>Every directory of a scan costs one question, and counts.\<close>

lemma scan_limits:
  "ensures (\<lambda>s. ms_clock s + 1 \<le> K + snd acc \<and> scan_within_limits rule_path storage_path acc)
     (scan_wildcard_mount_matches depth w current_dir rule_path storage_path acc)
     (\<lambda>acc s. ms_clock s \<le> K + snd acc \<and> scan_within_limits rule_path storage_path acc)"
proof (induction depth arbitrary: current_dir acc)
  case (Suc deeper)
  let ?I = "\<lambda>acc s. ms_clock s \<le> K + snd acc \<and> scan_within_limits rule_path storage_path acc"
  have child: "ensures (?I acc) (if scan_is_full acc \<or> dc_is_dir child \<noteq> Some True then ret acc
       else let acc = (fst acc, Suc (snd acc)); candidate = normalize_host_path (dc_path child)
         in if \<not> is_child candidate storage_path \<or> \<not> wildcard_prefix_matches rule_path candidate then ret acc
            else if deeper = 0
            then ret (if matches rule_path candidate True then (fst acc @ [candidate], snd acc) else acc)
            else scan_wildcard_mount_matches deeper w candidate rule_path storage_path acc) ?I" for child acc
    unfolding Let_def
    by (intro ensures_if ensures_return ensures_weaken [OF Suc.IH])
      (auto simp: scan_within_limits_def scan_is_full_def)
  have list: "ensures (\<lambda>s. ms_clock s + 1 \<le> K + snd acc \<and> scan_within_limits rule_path storage_path acc)
      (list_directory w current_dir) (\<lambda>_. ?I acc)"
    by (auto simp: ensures_def list_directory_def ask_def)
  show ?case
    unfolding scan_wildcard_mount_matches.simps
    by (intro ensures_if ensures_return ensures_bind [OF list] ensures_fold child) auto
qed (auto intro!: ensures_return)

text \<open>Where a directory that a rule resolves to comes from: a directory below a root, which matches the rule there.\<close>

definition wildcard_origin :: "bytes \<Rightarrow> bytes \<Rightarrow> bytes \<Rightarrow> bool" where
  "wildcard_origin relative_rule storage_path target \<longleftrightarrow>
     (\<exists>root found relative. is_child found root \<and> matches (path_join root relative_rule) found True
        \<and> relative_child_path found root = Some relative \<and> target = path_join storage_path relative)"

lemma append_limits:
  "ensures (\<lambda>s. ms_clock s \<le> K \<and> length found \<le> N \<and> (\<forall>target \<in> set found. wildcard_origin rule storage_path target))
     (append_concrete_wildcard_mount_matches_from_root w (path_join root rule) storage_path root found)
     (\<lambda>found s. ms_clock s \<le> K + 514 \<and> length found \<le> N + MAX_WILDCARD_MOUNT_MATCHES
        \<and> (\<forall>target \<in> set found. wildcard_origin rule storage_path target))"
proof -
  let ?P = "\<lambda>s :: mount_state. ms_clock s \<le> K \<and> length found \<le> N \<and> (\<forall>target \<in> set found. wildcard_origin rule storage_path target)"
  let ?scan = "scan_wildcard_mount_matches (path_segment_count (path_join root rule)
      - path_segment_count (concrete_prefix_before_wildcard_preserving_alias (path_join root rule)))
      w (concrete_prefix_before_wildcard_preserving_alias (path_join root rule)) (path_join root rule) root ([], 0)"
  have stat: "ensures ?P (stat_is_directory w path) (\<lambda>_ s. ms_clock s + 1 \<le> (K + 2) + snd ([] :: bytes list, 0 :: nat)
      \<and> scan_within_limits (path_join root rule) root ([], 0) \<and> length found \<le> N
      \<and> (\<forall>target \<in> set found. wildcard_origin rule storage_path target))" for path
    by (auto simp: ensures_def stat_is_directory_def stat_node_def ask_def scan_within_limits_def)
  have scan: "ensures (\<lambda>s. ms_clock s + 1 \<le> (K + 2) + snd ([] :: bytes list, 0 :: nat)
        \<and> scan_within_limits (path_join root rule) root ([], 0) \<and> length found \<le> N
        \<and> (\<forall>target \<in> set found. wildcard_origin rule storage_path target))
      ?scan (\<lambda>acc s. (ms_clock s \<le> (K + 2) + snd acc \<and> scan_within_limits (path_join root rule) root acc)
        \<and> length found \<le> N \<and> (\<forall>target \<in> set found. wildcard_origin rule storage_path target))"
    using scan_limits [of "K + 2" "([], 0)"] by (fastforce simp: ensures_def split: prod.splits)
  have origin: "wildcard_origin rule storage_path target"
    if "target \<in> path_join storage_path ` set (List.map_filter (\<lambda>source_match. relative_child_path source_match root) (fst acc))"
      "scan_within_limits (path_join root rule) root acc" for target acc
    using that by (auto simp: scan_within_limits_def wildcard_origin_def set_map_filter)
  have "length (List.map_filter (\<lambda>source_match. relative_child_path source_match root) xs) \<le> length xs" for xs
    by (induction xs) (auto simp: map_filter_simps split: option.splits)
  note short = le_trans [OF this]
  show ?thesis
    unfolding append_concrete_wildcard_mount_matches_from_root_def Let_def
    by (intro ensures_if ensures_return ensures_bind [OF stat] ensures_bind [OF scan])
      (auto simp: MAX_WILDCARD_SCAN_DIRS_def scan_within_limits_def intro: origin intro!: short add_mono)
qed

lemma roots_limits:
  "ensures (\<lambda>s. ms_clock s \<le> K \<and> length found \<le> N \<and> (\<forall>target \<in> set found. wildcard_origin rule storage_path target))
     (fold_m (\<lambda>root found. append_concrete_wildcard_mount_matches_from_root w (path_join root rule) storage_path root found)
        roots found)
     (\<lambda>found s. ms_clock s \<le> K + length roots * 514 \<and> length found \<le> N + length roots * MAX_WILDCARD_MOUNT_MATCHES
        \<and> (\<forall>target \<in> set found. wildcard_origin rule storage_path target))"
proof (induction roots arbitrary: found K N)
  case (Cons root roots)
  show ?case
    unfolding fold_m.simps
    by (rule ensures_bind [OF append_limits], rule ensures_weaken [OF Cons.IH]) (auto simp: algebra_simps)
qed (auto intro!: ensures_return)

lemma scan_roots_at_most: "length (foldl append_unique_scan_root roots xs) \<le> length roots + length xs"
proof (induction xs arbitrary: roots)
  case (Cons x xs)
  have "length (append_unique_scan_root roots x) \<le> Suc (length roots)" by (simp add: append_unique_scan_root_def)
  with Cons [of "append_unique_scan_root roots x"] show ?case by simp
qed simp

lemma sort_dedup_le: "length (sort_dedup_paths_case_insensitive xs) \<le> length xs"
  "set (sort_dedup_paths_case_insensitive xs) \<subseteq> set xs"
  using list_emb_length [OF dedup_by_subseq [of eq_ignore_case "sort_key (\<lambda>a. (match_key a, a)) xs"]]
    dedup_by_subset [of eq_ignore_case "sort_key (\<lambda>a. (match_key a, a)) xs"]
  by (auto simp: sort_dedup_paths_case_insensitive_def)


definition listing_world :: mount_world where
  "listing_world = quiet_world\<lparr>mw_read_dir := (\<lambda>_ path. if path = ''/storage/emulated/0''
     then Some [\<lparr>dc_path = ''/storage/emulated/0/A1'', dc_is_dir = Some True\<rparr>,
                \<lparr>dc_path = ''/storage/emulated/0/B'', dc_is_dir = Some True\<rparr>,
                \<lparr>dc_path = ''/storage/emulated/0/A2'', dc_is_dir = Some False\<rparr>] else None)\<rparr>"

definition listing_planner :: mount_planner where
  "listing_planner = example_planner\<lparr>mp_world := listing_world\<rparr>"

lemma example_listing:
  "fst (run_state (concrete_wildcard_mount_matches listing_planner ''/storage/emulated/0/A*'' ''/storage/emulated/0'')
     (mount_state_new 0 [])) = [''/storage/emulated/0/A1'']"
  by code_simp


section \<open>Binding a target and its aliases\<close>

text \<open>All calls made between two states satisfy a predicate.\<close>

definition calls_only :: "(mount_call \<Rightarrow> bool) \<Rightarrow> mount_state \<Rightarrow> mount_state \<Rightarrow> bool" where
  "calls_only P s t \<longleftrightarrow> (\<exists>new. ms_calls t = ms_calls s @ new \<and> (\<forall>(c, e) \<in> set new. P c))"

lemma calls_only_I: "ms_calls t = ms_calls s \<Longrightarrow> calls_only P s t"
  by (simp add: calls_only_def)

interpretation only: step_order "calls_only P" for P
  by unfold_locales (fastforce simp: calls_only_def)+

interpretation binds_only: recording_binds "calls_only (bind_call source target)" pl source target for pl source target
proof unfold_locales
  let ?R = "calls_only (bind_call source target)"
  show called: "bind_call source target c \<Longrightarrow> ?R s (s\<lparr>ms_calls := ms_calls s @ [(c, e)]\<rparr>)" for s c e
    by (simp add: calls_only_def)
  have "state_io_rel ?R (syscall w (SetGroups groups))" for w groups
    by (auto simp: state_io_rel_def syscall_def Let_def calls_only_def)
  then show "state_io_rel ?R m \<Longrightarrow> state_io_rel ?R (with_app_credentials pl m)" for m :: "bool planner_m"
    by (intro credentials_from_steps [OF only.step_order_axioms]) (auto intro: calls_only_I)
qed (auto intro: calls_only_I)

lemma alias_loop_only:
  assumes "\<And>target. target \<in> set targets \<Longrightarrow> \<not> skip target \<Longrightarrow> state_io_rel (calls_only P) (bind_to target)"
  shows "state_io_rel (calls_only P) (alias_loop w skip_first skip bind_to failure_mode primary_target targets bound_keys mounted)"
  using assms
proof (induction targets arbitrary: bound_keys mounted)
  case (Cons target targets)
  have ask: "state_io_rel (calls_only P) (ask f)" for f :: "nat \<Rightarrow> 'b"
    by (auto simp: state_io_rel_def ask_def calls_only_def)
  show ?case
    unfolding alias_loop.simps Let_def path_exists_def bind_target_key_def
    by (intro only.io_structure ask Cons.IH Cons.prems) (auto intro: Cons.prems)
qed (simp add: only.io_return)


text \<open>On the example system no other alias exists, so only the target itself is bound.\<close>

lemma quiet_aliases:
  "primary \<notin> set targets \<Longrightarrow> \<exists>n. run_state (alias_loop quiet_world skip_first skip bind_to failure primary targets keys mounted) s
     = ((True, mounted), s\<lparr>ms_clock := n\<rparr>)"
proof (induction targets arbitrary: s)
  case Nil
  show ?case by (auto intro: exI [of _ "ms_clock s"])
next
  case (Cons target targets)
  let ?loop = "\<lambda>targets. run_state (alias_loop quiet_world skip_first skip bind_to failure primary targets keys mounted)"
  have "\<exists>k. ?loop (target # targets) s = ?loop targets (s\<lparr>ms_clock := k\<rparr>)"
  proof (cases "skip_first target")
    case True
    then show ?thesis by (auto simp: Let_def intro: exI [of _ "ms_clock s"])
  next
    case False
    then show ?thesis using Cons.prems by (auto simp: bind_target_key_def path_exists_def ask_def Let_def)
  qed
  then obtain k where "?loop (target # targets) s = ?loop targets (s\<lparr>ms_clock := k\<rparr>)" ..
  moreover obtain n where "?loop targets (s\<lparr>ms_clock := k\<rparr>) = ((True, mounted), (s\<lparr>ms_clock := k\<rparr>)\<lparr>ms_clock := n\<rparr>)"
    using Cons.IH [of "s\<lparr>ms_clock := k\<rparr>"] Cons.prems by auto
  ultimately show ?case by auto
qed

lemma example_aliases:
  "hd (expand_storage_alias_paths ''/storage/emulated/0/A'' 0) = ''/storage/emulated/0/A''
   \<and> expand_storage_alias_paths ''/storage/emulated/0/A'' 0 \<noteq> []
   \<and> ''/storage/emulated/0/A'' \<notin> set (tl (expand_storage_alias_paths ''/storage/emulated/0/A'' 0))"
  by code_simp

lemma example_alias_binds:
  "\<exists>t. run_state (bind_read_only_mount_with_storage_aliases example_planner ''/data/media/0/A'' ''/storage/emulated/0/A''
      True StopCurrentTarget) (mount_state_new 0 []) = ((True, True), t) \<and> ms_calls t \<noteq> []"
proof -
  let ?primary = "''/storage/emulated/0/A''"
  obtain rest where rest: "expand_storage_alias_paths ?primary 0 = ?primary # rest" "?primary \<notin> set rest"
    using example_aliases by (cases "expand_storage_alias_paths ?primary 0") auto
  let ?run = "run_state (bind_mount_read_only example_planner ''/data/media/0/A'' ?primary True) ((mount_state_new 0 [])\<lparr>ms_clock := 1\<rparr>)"
  obtain u where u: "?run = (True, u)" "ms_calls u \<noteq> []"
    by (cases ?run)
      (use example_read_only_paths in \<open>auto simp: bind_run Let_def cong: prod.case_cong_weak option.case_cong_weak\<close>)
  let ?rest = "alias_loop quiet_world (\<lambda>_. False)"
  have "ms_clock (mount_state_new 0 []) = 0" by (simp add: mount_state_new_def)
  then have "\<exists>skip keys. run_state (bind_read_only_mount_with_storage_aliases example_planner ''/data/media/0/A'' ?primary True
        StopCurrentTarget) (mount_state_new 0 [])
      = run_state (?rest skip (\<lambda>target. bind_mount_read_only example_planner ''/data/media/0/A'' target True) StopCurrentTarget
          ?primary rest keys True) u"
    using u
    by (simp add: bind_read_only_mount_with_storage_aliases_def bind_read_only_mount_with_storage_aliases_inner_def rest(1)
        bind_target_key_def ask_def Let_def) blast
  with quiet_aliases [OF rest(2)] u(2) show ?thesis by fastforce
qed


end
