(* ===== verification/Mount_Redirect.thy ===== *)
theory Mount_Redirect
  imports Mount_Reach
begin

text \<open>What the answer of \<^verbatim>\<open>apply_sdcard_redirect\<close> says about the storage of the application.\<close>

section \<open>A bind that reports success\<close>

text \<open>What has been mounted stays in the list of calls.\<close>

lemma still_mounted:
  assumes "state_io_rel keeps_record m"
  shows "ensures (mounted_at target) m (\<lambda>_. mounted_at target)"
  unfolding ensures_def
proof (intro allI impI)
  fix s
  assume "mounted_at target s"
  moreover obtain a t where t: "run_state m s = (a, t)" by (cases "run_state m s")
  moreover have "keeps_record s t" using assms t by (rule io_run)
  ultimately show "case run_state m s of (a, t) \<Rightarrow> mounted_at target t"
    using mounted_at_mono by (auto simp: keeps_record_def)
qed

lemma bind_mount_done:
  "ensures (\<lambda>_. True) (bind_mount pl source target is_recursive) (\<lambda>ok s. ok \<longrightarrow> mounted_at target s)"
proof -
  let ?Q = "\<lambda>ok s. ok \<longrightarrow> mounted_at target s"
  have noted: "ensures (mounted_at target) (do { record_mounted_target target; ret True }) ?Q"
    by (auto simp: ensures_def record_mounted_target_def mounted_at_def)
  have verify: "ensures (mounted_at target) (do { verified \<leftarrow> (if fuse then verify_fuse_backed_bind_landing pl target else ret True);
      if \<not> verified then ret False else do { record_mounted_target target; ret True } }) ?Q" for fuse
    by (rule ensures_bind [OF still_mounted], intro bind_record.io_if bind_record.io_verify bind_record.io_return)
      (intro ensures_if noted ensures_return; simp)
  have bound: "ensures (\<lambda>_. True) (do { bound \<leftarrow> bind_attempts pl source target r; if \<not> bound then ret False
      else do { verified \<leftarrow> (if fuse then verify_fuse_backed_bind_landing pl target else ret True);
        if \<not> verified then ret False else do { record_mounted_target target; ret True } } }) ?Q" for r fuse
    by (rule ensures_bind [OF bind_attempts_done], rule ensures_if, rule ensures_return, simp,
        rule ensures_weaken [OF verify], simp_all)
  have rest: "ensures (\<lambda>s. skipped \<longrightarrow> mounted_at target s)
      (if skipped then do { record_mounted_target target; ret True } else n) ?Q"
    if "ensures (\<lambda>_. True) n ?Q" for skipped n
    by (rule ensures_if; rule ensures_weaken [OF noted] ensures_weaken [OF that]) simp_all
  show ?thesis
    unfolding bind_mount_def bind_mount_inner_def Let_def if_True
    by (rule ensures_bind [OF shortcut_done], rule rest, intro ensures_if ensures_later bound never_true)
qed

lemma alias_loop_mounts:
  assumes "\<And>target. state_io_rel keeps_record (bind_to target)"
    and "\<And>target. ensures (\<lambda>_. True) (bind_to target) (\<lambda>ok s. ok \<longrightarrow> mounted_at target s)"
  shows "ensures (\<lambda>s. mounted \<longrightarrow> (\<exists>target \<in> A. mounted_at target s))
     (alias_loop w skip_first skip bind_to failure_mode primary_target targets bound_keys mounted)
     (\<lambda>(_, mounted) s. mounted \<longrightarrow> (\<exists>target \<in> A \<union> set targets. mounted_at target s))"
proof (induction targets arbitrary: A bound_keys mounted)
  case (Cons target targets)
  let ?Q = "\<lambda>(_ :: bool, mounted) s. mounted \<longrightarrow> (\<exists>target \<in> A \<union> set (target # targets). mounted_at target s)"
  let ?P = "\<lambda>s. mounted \<longrightarrow> (\<exists>target \<in> A. mounted_at target s)"
  have continue: "ensures ?P (alias_loop w skip_first skip bind_to failure_mode primary_target targets keys mounted) ?Q" for keys
    by (rule ensures_weaken [OF Cons.IH]) auto
  have later: "ensures (\<lambda>s. \<exists>target \<in> insert target A. mounted_at target s)
      (alias_loop w skip_first skip bind_to failure_mode primary_target targets keys True) ?Q" for keys
    by (rule ensures_weaken [OF Cons.IH [where A = "insert target A"]]) auto
  have ask: "ensures ?P (ask f) (\<lambda>_. ?P)" for f :: "nat \<Rightarrow> 'b"
    by (auto simp: ensures_def ask_def mounted_at_def)
  have exists: "ensures ?P (path_exists w target) (\<lambda>_. ?P)"
    by (auto simp: ensures_def path_exists_def ask_def mounted_at_def)
  have key: "ensures ?P (bind_target_key w target) (\<lambda>_. ?P)"
    by (auto simp: ensures_def bind_target_key_def ask_def mounted_at_def)
  have bind: "ensures ?P (bind_to target) (\<lambda>ok s. (ok \<longrightarrow> mounted_at target s) \<and> ?P s)"
    unfolding ensures_def
  proof (intro allI impI)
    fix s
    assume P: "?P s"
    obtain ok t where t: "run_state (bind_to target) s = (ok, t)" by (cases "run_state (bind_to target) s")
    have "set (ms_calls s) \<subseteq> set (ms_calls t)" using io_run [OF assms(1) t] by (simp add: keeps_record_def)
    then have "?P t" using P mounted_at_mono by blast
    then show "case run_state (bind_to target) s of (ok, t) \<Rightarrow> (ok \<longrightarrow> mounted_at target t) \<and> ?P t"
      using assms(2) [of target] t by (auto simp: ensures_def split: prod.splits)
  qed
  have stop: "ensures ?P (ret (r, mounted)) ?Q" for r
    by (auto intro: ensures_return)
  have after: "ensures (\<lambda>s. (ok \<longrightarrow> mounted_at target s) \<and> ?P s)
      (if ok then alias_loop w skip_first skip bind_to failure_mode primary_target targets (bound_keys @ [key]) True
       else if target = primary_target \<and> failure_mode = AbortAll then ret (False, mounted)
       else if target = primary_target \<and> failure_mode = StopCurrentTarget then ret (True, mounted)
       else alias_loop w skip_first skip bind_to failure_mode primary_target targets bound_keys mounted) ?Q" for ok key
    by (intro ensures_if ensures_weaken [OF later] ensures_weaken [OF stop] ensures_weaken [OF continue]) auto
  have present: "ensures ?P (if target = primary_target then ret True else path_exists w target) (\<lambda>_. ?P)"
    by (intro ensures_if exists ensures_return)
  show ?case
    unfolding alias_loop.simps Let_def
    by (intro ensures_if continue ensures_bind [OF key] ensures_bind [OF present] ensures_bind [OF bind] after)
qed (auto intro!: ensures_return)

section \<open>The cell that tells that the storage is redirected\<close>

definition keeps_redirection :: "mount_state \<Rightarrow> mount_state \<Rightarrow> bool" where
  "keeps_redirection s t \<longleftrightarrow> ms_is_storage_root_redirected t = ms_is_storage_root_redirected s
     \<and> (ms_is_namespace_ready s \<longrightarrow> ms_is_namespace_ready t)"

interpretation redirection: step_order keeps_redirection
  by unfold_locales (auto simp: keeps_redirection_def)

lemma redirection_syscall: "state_io_rel keeps_redirection (syscall w c)"
  by (auto simp: state_io_rel_def syscall_def Let_def keeps_redirection_def)

interpretation redirection_binds: recording_binds keeps_redirection pl source target for pl source target
proof unfold_locales
  show "state_io_rel keeps_redirection m \<Longrightarrow> state_io_rel keeps_redirection (with_app_credentials pl m)" for m :: "bool planner_m"
    by (rule credentials_from_steps [OF redirection.step_order_axioms _ _ redirection_syscall])
      (auto simp: keeps_redirection_def)
qed (auto simp: keeps_redirection_def)

interpretation redirection_steps: mapping_steps keeps_redirection pl for pl
proof unfold_locales
  show "state_io_rel keeps_redirection (ensure_app_owned_mapping_target pl path uid)" for path uid
    by (rule owned_from_steps [OF redirection.step_order_axioms redirection_syscall]) (simp_all add: keeps_redirection_def)
  show "state_io_rel keeps_redirection (bind_mount_inner pl source target r f)"
    "state_io_rel keeps_redirection (bind_mount_read_only pl source target r)"
    "state_io_rel keeps_redirection (bind_mount_read_write_overlay pl source target r)" for source target r f
    by (rule redirection_binds.io_inner redirection_binds.io_bind_mounts)+
qed (auto simp: keeps_redirection_def)

section \<open>The answer\<close>

definition storage_bound :: "mount_planner \<Rightarrow> mount_state \<Rightarrow> bool" where
  "storage_bound pl s \<longleftrightarrow> (\<exists>target \<in> set (expand_storage_alias_paths (storage_user_root_for_user (mp_user_id pl)) (mp_user_id pl)).
     mounted_at target s)"

lemma storage_bound_update: "storage_bound pl (s\<lparr>ms_is_storage_root_redirected := b\<rparr>) = storage_bound pl s"
  by (simp add: storage_bound_def mounted_at_def)

lemma redirect_root_done:
  assumes "run_state (redirect_storage_root pl resolved_target (storage_user_root_for_user (mp_user_id pl))) s = (ok, t)"
  shows "(ok \<longrightarrow> storage_bound pl t) \<and> ms_is_storage_root_redirected t = (ms_is_storage_root_redirected s \<or> ok)
    \<and> (ms_is_namespace_ready s \<longrightarrow> ms_is_namespace_ready t)"
proof -
  let ?root = "storage_user_root_for_user (mp_user_id pl)"
  let ?bind = "bind_mount_with_storage_aliases pl resolved_target ?root True AbortAll"
  obtain a b u where u: "run_state ?bind s = ((a, b), u)" by (metis surj_pair)
  have "keeps_redirection s u"
    using redirection_steps.io_aliases(3) u by (rule io_run)
  moreover have "b \<longrightarrow> storage_bound pl u"
  proof -
    have "ensures (\<lambda>s. False \<longrightarrow> (\<exists>target \<in> {}. mounted_at target s)) ?bind
        (\<lambda>(_, mounted) s. mounted \<longrightarrow> (\<exists>target \<in> {} \<union> set (expand_storage_alias_paths ?root (mp_user_id pl)). mounted_at target s))"
      unfolding bind_mount_with_storage_aliases_def
      by (rule alias_loop_mounts) (auto intro: recorded.io_aliases bind_mount_done)
    from ensures_run [OF this _ u] show ?thesis by (simp add: storage_bound_def)
  qed
  ultimately show ?thesis
    using assms u
    by (auto simp: redirect_storage_root_def when_m_def keeps_redirection_def storage_bound_update split: if_splits)
qed

lemma prepared_is_ready: "run_state (ensure_mount_namespace_prepared pl) s = (True, t) \<Longrightarrow> ms_is_namespace_ready t"
  by (auto simp: ensure_mount_namespace_prepared_def when_m_def split: prod.splits if_splits)

lemma below_redirect_keeps:
  assumes "run_state (apply_below_redirect pl allowed excluded ro mappings scoped anchor target data_root storage_path) s = ((), t)"
    and "storage_bound pl s"
  shows "storage_bound pl t"
  using io_run [OF recorded.io_below_redirect assms(1)] assms(2) mounted_at_mono
  by (auto simp: keeps_record_def storage_bound_def)

text \<open>The stages of the redirection: refused before the storage is bound, not bound, or bound and filled.\<close>

lemma redirect_stages:
  fixes pl
  defines "target \<equiv> to_data_media_backend_path pl (resolve_user_path (normalize (mp_redirect_target pl)) (mp_user_id pl))"
    and "root \<equiv> storage_user_root_for_user (mp_user_id pl)" and "data_root \<equiv> data_media_user_root_for_user (mp_user_id pl)"
  assumes run: "run_state (apply_sdcard_redirect pl allowed excluded ro mappings scoped) s = (ok, t)"
  obtains (refused) "\<not> ok" "keeps_redirection s t"
    | (unbound) y where "\<not> ok" "keeps_redirection s y" "run_state (redirect_storage_root pl target root) y = (False, t)"
    | (filled) y z anchor where "ok" "keeps_redirection s y" "ms_is_namespace_ready y"
        "run_state (redirect_storage_root pl target root) y = (True, z)"
        "run_state (apply_below_redirect pl allowed excluded ro mappings scoped anchor target data_root root) z = ((), t)"
proof -
  obtain prepared u where u: "run_state (ensure_mount_namespace_prepared pl) s = (prepared, u)"
    by (cases "run_state (ensure_mount_namespace_prepared pl) s")
  obtain anchor v where v: "run_state (prepare_real_storage_anchor pl) u = (anchor, v)"
    by (cases "run_state (prepare_real_storage_anchor pl) u")
  obtain present x where x: "run_state (fs_is_directory (mp_world pl) data_root) v = (present, x)"
    by (cases "run_state (fs_is_directory (mp_world pl) data_root) v")
  obtain ready y where y: "run_state (if present then prepare_redirect_target pl target else ret False) x = (ready, y)"
    by (cases "run_state (if present then prepare_redirect_target pl target else ret False) x")
  obtain redirected z where z: "run_state (redirect_storage_root pl target root) y = (redirected, z)"
    by (cases "run_state (redirect_storage_root pl target root) y")
  have su: "keeps_redirection s u" using redirection_steps.io_namespace u by (rule io_run)
  have uv: "keeps_redirection u v" using redirection_steps.io_anchor(1) v by (rule io_run)
  have vx: "keeps_redirection v x" using redirection_steps.io_stat(4) x by (rule io_run)
  have "keeps_redirection x y"
    by (rule io_run [OF _ y]) (intro redirection.io_if redirection_steps.io_redirect redirection.io_return)
  then have uy: "keeps_redirection u y" using uv vx redirection.chained by blast
  then have sy: "keeps_redirection s y" using su redirection.chained by blast
  have ready: "prepared \<Longrightarrow> ms_is_namespace_ready y"
    using prepared_is_ready [of pl s u] u uy by (auto simp: keeps_redirection_def)
  show thesis
    using run u v x y z su sy ready redirection.same [of s] that
    by (auto simp: apply_sdcard_redirect_def target_def root_def data_root_def Let_def split: if_splits prod.splits)
qed


section \<open>The answer on the example system\<close>

text \<open>On the quiet system every proper path is a directory.\<close>

definition plain_path :: "bytes \<Rightarrow> bool" where
  "plain_path path \<longleftrightarrow> starts_with_str path ''/'' \<and> \<not> no_c_string path \<and> path \<noteq> []
     \<and> metadata_operations_path 0 True path = Some path \<and> metadata_operations_path 0 False path = Some path"

lemma plain_metadata_path: "plain_path path \<Longrightarrow> yields (metadata_path_of example_planner path) (\<lambda>p. p = Some path)"
  by (auto simp: ensures_def metadata_path_of_def plain_path_def) (metis (full_types))

lemma plain_directory: "plain_path path \<Longrightarrow> yields (fs_is_directory quiet_world path) (\<lambda>present. present = True)"
  by (simp add: ensures_def stat_run plain_path_def)

lemma quiet_create: "plain_path path \<Longrightarrow> yields (create_directory quiet_world path uid) (\<lambda>made. made = True)"
  unfolding create_directory_def
  by (rule yields_if, simp add: plain_path_def, rule yields_known [OF plain_directory], assumption, simp only: if_True,
      rule yields_bind, rule yields_return, rule refl)

lemma quiet_ensure: "plain_path path \<Longrightarrow> yields (ensure_directory_exists example_planner path chown) (\<lambda>made. made = True)"
  unfolding ensure_directory_exists_def
  by (rule yields_if, simp add: plain_path_def, rule yields_known [OF plain_metadata_path], assumption,
      simp only: option.case example_planner_fields, rule yields_known [OF quiet_create], assumption,
      simp only: not_True_eq_False if_False, rule yields_bind, rule yields_return, rule refl)

lemma quiet_mapped: "plain_path path \<Longrightarrow> yields (ensure_writable_mapped_directory example_planner path uid) (\<lambda>made. made = True)"
  unfolding ensure_writable_mapped_directory_def Let_def
  by (rule yields_if, simp add: plain_path_def, rule yields_known [OF plain_metadata_path], assumption,
      simp only: option.case example_planner_fields, rule yields_known [OF plain_directory], assumption,
      simp only: if_True, rule yields_known [OF yields_return], rule refl)
    (auto simp: plain_path_def intro!: yields_bind yields_return yields_if)

lemma example_sandbox_paths:
  "list_all plain_path (map ((@) ''/data/media/0/Android/data/com.a/sdcard'')
     [[], ''/Android'', ''/Android/data/com.a/files'', ''/Android/data/com.a/cache'', ''/Android/media/com.a''])"
  by code_simp

abbreviation example_sandbox :: bytes where
  "example_sandbox \<equiv> ''/data/media/0/Android/data/com.a/sdcard''"

lemma example_joins:
  "path_join example_sandbox ''Android'' = example_sandbox @ ''/Android''"
  "path_join (path_join (path_join (example_sandbox @ ''/Android'') ''data'') (mp_package_name example_planner)) ''files''
     = example_sandbox @ ''/Android/data/com.a/files''"
  "path_join (path_join (path_join (example_sandbox @ ''/Android'') ''data'') (mp_package_name example_planner)) ''cache''
     = example_sandbox @ ''/Android/data/com.a/cache''"
  "path_join (path_join (example_sandbox @ ''/Android'') ''media'') (mp_package_name example_planner)
     = example_sandbox @ ''/Android/media/com.a''"
  by code_simp+

lemma example_prepared: "yields (prepare_redirect_target example_planner example_sandbox) (\<lambda>ready. ready = True)"
proof -
  have each: "yields (do { made \<leftarrow> ensure_writable_mapped_directory example_planner path uid; when_m made chain; ret (\<not> made) })
      (\<lambda>b. b = False)" if "plain_path path" for path uid and chain :: "unit planner_m"
    by (rule yields_known [OF quiet_mapped [OF that]], rule yields_bind, rule yields_return, simp)
  have apps: "yields (prepare_redirect_android_app_directories example_planner (example_sandbox @ ''/Android'')) (\<lambda>ok. ok = True)"
    unfolding prepare_redirect_android_app_directories_def Let_def example_joins
    by (rule yields_known [OF yields_find_none], rule each, use example_sandbox_paths in fastforce, rule yields_return, simp)
  show ?thesis
    unfolding prepare_redirect_target_def Let_def example_joins
    by (rule yields_known [OF quiet_ensure], use example_sandbox_paths in simp, simp only: not_True_eq_False if_False,
        rule yields_bind, rule yields_bind, rule yields_known [OF quiet_ensure], use example_sandbox_paths in simp,
        simp only: not_True_eq_False if_False, rule yields_bind, rule apps)
qed

lemma example_root:
  "should_use_recursive_bind example_planner example_sandbox ''/storage/emulated/0'' True = False"
  "eq_ignore_case example_sandbox ''/storage/emulated/0'' = False"
  "storage_user_root_for_user 0 = ''/storage/emulated/0''"
  "hd (expand_storage_alias_paths ''/storage/emulated/0'' 0) = ''/storage/emulated/0''
   \<and> expand_storage_alias_paths ''/storage/emulated/0'' 0 \<noteq> []
   \<and> ''/storage/emulated/0'' \<notin> set (tl (expand_storage_alias_paths ''/storage/emulated/0'' 0))"
  by code_simp+

lemma example_bound: "yields (bind_mount example_planner example_sandbox ''/storage/emulated/0'' True) (\<lambda>ok. ok = True)"
  by (simp add: ensures_def bind_run example_root Let_def cong: prod.case_cong_weak option.case_cong_weak)

lemma example_root_bound:
  "yields (bind_mount_with_storage_aliases example_planner example_sandbox ''/storage/emulated/0'' True AbortAll)
     (\<lambda>r. r = (True, True))"
proof -
  let ?root = "''/storage/emulated/0''"
  obtain rest where rest: "expand_storage_alias_paths ?root 0 = ?root # rest" "?root \<notin> set rest"
    using example_root(4) by (cases "expand_storage_alias_paths ?root 0") auto
  let ?skip = "\<lambda>target. target \<noteq> ?root \<and> should_skip_self_shadowing_alias example_sandbox target"
  show ?thesis
    unfolding ensures_def
  proof (intro allI impI)
    fix s
    obtain u where u: "run_state (bind_mount example_planner example_sandbox ?root True) (s\<lparr>ms_clock := Suc (ms_clock s)\<rparr>) = (True, u)"
      using example_bound by (cases "run_state (bind_mount example_planner example_sandbox ?root True) (s\<lparr>ms_clock := Suc (ms_clock s)\<rparr>)")
        (auto simp: ensures_def split: prod.splits)
    have "run_state (bind_mount_with_storage_aliases example_planner example_sandbox ?root True AbortAll) s
        = run_state (alias_loop quiet_world (eq_ignore_case example_sandbox) ?skip
            (\<lambda>target. bind_mount example_planner example_sandbox target True) AbortAll ?root rest [?root] True) u"
      using u example_root(2)
      by (simp add: bind_mount_with_storage_aliases_def rest(1) bind_target_key_def ask_def Let_def)
    then show "case run_state (bind_mount_with_storage_aliases example_planner example_sandbox ?root True AbortAll) s
        of (r, t) \<Rightarrow> r = (True, True)"
      using quiet_aliases [OF rest(2), of "eq_ignore_case example_sandbox" ?skip
          "\<lambda>target. bind_mount example_planner example_sandbox target True" AbortAll "[?root]" True u] by auto
  qed
qed

lemma example_redirected: "yields (apply_sdcard_redirect example_planner [] [] [] [] []) (\<lambda>ok. ok = True)"
proof -
  have target: "resolve_user_path (normalize (mp_redirect_target example_planner)) 0 \<noteq> []"
    "to_data_media_backend_path example_planner (resolve_user_path (normalize (mp_redirect_target example_planner)) 0) = example_sandbox"
    "data_media_user_root_for_user 0 = ''/data/media/0''"
    by code_simp+
  have namespace: "yields (ensure_mount_namespace_prepared example_planner) (\<lambda>ready. ready = True)"
    by (auto simp: ensures_def ensure_mount_namespace_prepared_def isolate_storage_mounts_def isolate_mounts_for_roots_def
        read_mountinfo_lines_def read_mountinfo_def make_tree_private_fallback_def syscall_def ask_def when_m_def Let_def)
  have data: "yields (fs_is_directory quiet_world ''/data/media/0'') (\<lambda>present. present = True)"
    by (simp add: ensures_def stat_run)
  have root: "yields (redirect_storage_root example_planner example_sandbox ''/storage/emulated/0'') (\<lambda>ok. ok = True)"
    unfolding redirect_storage_root_def
    by (rule yields_known [OF example_root_bound]) (auto intro!: yields_bind yields_return)
  show ?thesis
    unfolding apply_sdcard_redirect_def Let_def example_planner_fields target example_root(3)
    by (rule yields_if, simp add: target, rule yields_known [OF namespace], simp only: not_True_eq_False if_False,
        rule yields_bind, rule yields_known [OF data], simp only: if_True, rule yields_known [OF example_prepared],
        simp only: not_True_eq_False if_False, rule yields_known [OF root], simp only: not_True_eq_False if_False,
        rule yields_bind, rule yields_return, rule refl)
qed


end
