(* ===== verification/Spec2Isabelle.thy ===== *)
theory Spec2Isabelle
  imports Engine Fuse_Effects Mount_Redirect
begin

text \<open>
  Verification of the storage redirection module (Rust, under \<^verbatim>\<open>src/src\<close>).

  The program. A privileged module runs inside Android processes and beside them. It gives every configured
  application a private view of the shared storage: paths that the application's rules do not allow are
  redirected into a sandbox directory, configured request paths are mapped to other directories, and some
  directories are read-only. It does so in three ways, which have to agree: hooks inside the processes rewrite
  the path of a call, a FUSE file system serves a view of the storage, and bind mounts put the sandbox over the
  storage in the application's mount namespace. All three decide from the path, brought into one canonical form,
  the application the access is made for, and the profile that the configuration directory holds for this
  application and Android user. This development models that decision core and the three mechanisms above it,
  up to the system calls they make.

  The theories, from the bottom (each imports what it calls).

  Foundations:
  \<^item> \<^verbatim>\<open>Prelude\<close>: the names of the model's types (\<^verbatim>\<open>bytes\<close> for \<^verbatim>\<open>String\<close> and \<^verbatim>\<open>&str\<close>, \<^verbatim>\<open>i32\<close> as an integer with
    its wrap-around written out), the hint collections and shared facts about lists and association lists.
  \<^item> \<^verbatim>\<open>State_Logic\<close>: reasoning about code in the state monad of the library: loops, pre- and postconditions
    (\<^verbatim>\<open>ensures\<close>, \<^verbatim>\<open>yields\<close>), and the locale \<^verbatim>\<open>step_order\<close>, by which a reflexive and transitive relation between
    the states before and after is carried through sequences, branches and loops.
  \<^item> \<^verbatim>\<open>Rust_Str\<close>: what the program uses of Rust's string library.
  \<^item> \<^verbatim>\<open>Lru_Cache\<close>: \<^verbatim>\<open>platform/lru_cache.rs\<close>, with the locale \<^verbatim>\<open>memo_cache\<close>, the contract of a cache that memoises
    a function, and its interpretation on the code's cache.

  Paths and rules:
  \<^item> \<^verbatim>\<open>Paths\<close>, \<^verbatim>\<open>Paths_Alias\<close>, \<^verbatim>\<open>Paths_Normalize\<close>, \<^verbatim>\<open>Paths_Roots\<close>, \<^verbatim>\<open>Paths_Safety\<close>, \<^verbatim>\<open>Paths_Rules\<close>:
    \<^verbatim>\<open>platform/paths*.rs\<close> and \<^verbatim>\<open>platform/uid.rs\<close>: slash and dot folding, the aliases of shared storage, the
    cached \<^verbatim>\<open>normalize\<close>, user roots, the safety predicates, and wildcard rule matching.
  \<^item> \<^verbatim>\<open>Domain\<close>: \<^verbatim>\<open>domain.rs\<close>: path mappings, chains of mappings followed to their end, the expansion of chains
    into mount points and the filter for cyclic and too deep chains.
  \<^item> \<^verbatim>\<open>Shared_Uid\<close>: \<^verbatim>\<open>redirect/policy.rs\<close>: package classes and the table of the packages that share a uid, as a
    state machine over the package list file.

  Configuration:
  \<^item> \<^verbatim>\<open>Settings\<close>: the records of \<^verbatim>\<open>config.rs\<close>, \<^verbatim>\<open>config/consensus.rs\<close> and the probe state file.
  \<^item> \<^verbatim>\<open>Ingest\<close>, \<^verbatim>\<open>Fingerprint\<close>, \<^verbatim>\<open>Source\<close>: the state parsed from JSON values, the hash that tells whether the
    directory changed, and the loading and reloading of the settings hub.
  \<^item> \<^verbatim>\<open>Raw_Scan\<close>, \<^verbatim>\<open>Merge\<close>, \<^verbatim>\<open>Inspect\<close>: reading one application's file past the hub, merging the mappings of all
    applications and finding the owner of a path, and the questions other parts ask of the hub.

  Hooks:
  \<^item> \<^verbatim>\<open>Writer\<close>: \<^verbatim>\<open>redirect/writer.rs\<close>: rules, mappings and redirect target of the caller a system process writes
    for, behind three per-thread caches. The locale \<^verbatim>\<open>slot_cache\<close> is the contract of a one-entry cache.
  \<^item> \<^verbatim>\<open>Router\<close>: \<^verbatim>\<open>redirect/router.rs\<close>: the router of an application process with its rule index.
  \<^item> \<^verbatim>\<open>Hook_Context\<close>: \<^verbatim>\<open>hook/context.rs\<close>: what a hooked thread knows of the request it serves.
  \<^item> \<^verbatim>\<open>Engine_State\<close>, \<^verbatim>\<open>Engine_Caller\<close>, \<^verbatim>\<open>Engine_Policy\<close>, \<^verbatim>\<open>Engine\<close>: \<^verbatim>\<open>redirect/engine.rs\<close> and
    \<^verbatim>\<open>redirect/engine/\<close>, with the reload throttle of \<^verbatim>\<open>hook/reload.rs\<close>: the decision on an intercepted path, in
    the state monad over the thread's caches, the uid table, the hub and the router.

  FUSE:
  \<^item> \<^verbatim>\<open>Fuse_Rules\<close>, \<^verbatim>\<open>Fuse_Policy\<close>, \<^verbatim>\<open>Fuse_Routing\<close>: \<^verbatim>\<open>fuse_redirect/rules.rs\<close> and \<^verbatim>\<open>policy.rs\<close>: rule indexes, the
    construction of a policy, the registry of policies by uid and namespace, the routing of a relative path to a
    back end, and what the routing guarantees.
  \<^item> \<^verbatim>\<open>Fuse_Capability\<close>: \<^verbatim>\<open>fuse_redirect/config.rs\<close>: the snapshot file that decides whether a mount is tried.
  \<^item> \<^verbatim>\<open>Mountinfo\<close>: \<^verbatim>\<open>platform/mountinfo.rs\<close> and \<^verbatim>\<open>backend_overlay.rs\<close>: lines of the mount table, and paths below
    overlay mounts.
  \<^item> \<^verbatim>\<open>Fuse_Inode\<close>, \<^verbatim>\<open>Fuse_Table\<close>: \<^verbatim>\<open>fuse_redirect/inode.rs\<close> with the tables of \<^verbatim>\<open>mod.rs\<close>: inodes, references,
    handles, the directory cache; the table refines a map from inode numbers to paths.
  \<^item> \<^verbatim>\<open>Fuse_Metadata\<close>, \<^verbatim>\<open>Fuse_Session\<close>: \<^verbatim>\<open>metadata.rs\<close>, \<^verbatim>\<open>attrs.rs\<close>, \<^verbatim>\<open>helpers.rs\<close> and the rest of \<^verbatim>\<open>mod.rs\<close>:
    modes, open flags, which policy and which back end answer a request.
  \<^item> \<^verbatim>\<open>Fuse_Callbacks\<close>, \<^verbatim>\<open>Fuse_File_Ops\<close>, \<^verbatim>\<open>Fuse_Handlers\<close>, \<^verbatim>\<open>Fuse_Effects\<close>: \<^verbatim>\<open>callbacks.rs\<close>: one definition per
    handler, as a function of the answers of the system with the list of its system calls; what the handlers do
    to the tables, and which calls they make.

  Mounts:
  \<^item> \<^verbatim>\<open>Mount_Paths\<close>: \<^verbatim>\<open>mount/planner_paths.rs\<close>, \<^verbatim>\<open>mount/apply_targets.rs\<close> and the pure helpers of \<^verbatim>\<open>mount.rs\<close> and
    \<^verbatim>\<open>mount/alias.rs\<close>, on paths and on the text of the mount table.
  \<^item> \<^verbatim>\<open>Mount_State\<close>: the planner (\<^verbatim>\<open>MountPlanner\<close> of \<^verbatim>\<open>mount.rs\<close>), the system it runs on, and the directory
    helpers of \<^verbatim>\<open>platform/fs.rs\<close>. Every question and call is answered by a function of the time it is asked at, so
    nothing is assumed about what calls do to later answers or about other processes; calls that change
    something are kept in the state with their results.
  \<^item> \<^verbatim>\<open>Mount_Bind\<close>, \<^verbatim>\<open>Mount_Dirs\<close>: \<^verbatim>\<open>mount/planner.rs\<close>: binds with all they fall back to, remounts, the credentials
    of the application; creating directories and repairing owner and mode.
  \<^item> \<^verbatim>\<open>Mount_Scan\<close>, \<^verbatim>\<open>Mount_Alias\<close>, \<^verbatim>\<open>Mount_Map\<close>, \<^verbatim>\<open>Mount_Propagation\<close>: the scan for wildcard rules, binding a
    target with its aliases, path mappings as mounts, and the isolation of the namespace.
  \<^item> \<^verbatim>\<open>Mount_Apply\<close>, \<^verbatim>\<open>Mount_Plan\<close>: \<^verbatim>\<open>mount/apply.rs\<close> and \<^verbatim>\<open>mount/own_private_pending.rs\<close>: anchors, rules resolved
    to directories, retry markers, and the entry points; \<^verbatim>\<open>planner_run\<close> is one operation of a planner.
  \<^item> \<^verbatim>\<open>Mount_Steps\<close>, \<^verbatim>\<open>Mount_Bind_Steps\<close>: the locales \<^verbatim>\<open>planner_steps\<close>, \<^verbatim>\<open>mapping_steps\<close>, \<^verbatim>\<open>redirect_steps\<close>,
    \<^verbatim>\<open>bind_steps\<close> and \<^verbatim>\<open>recording_binds\<close>: what holds of every operation because it holds of its steps.
  \<^item> \<^verbatim>\<open>Mount_Records\<close>, \<^verbatim>\<open>Mount_Promises\<close>, \<^verbatim>\<open>Mount_Reach\<close>, \<^verbatim>\<open>Mount_Redirect\<close>: their interpretations on the
    model and the properties that rest on them.

  How the parts interact. \<^verbatim>\<open>Source\<close> fills the settings hub from the directory through \<^verbatim>\<open>Ingest\<close>; every other part
  reads the hub. The configuration version of the hub (a 64-bit word, stored as the code stores it) is the only
  link between the hub and the caches of \<^verbatim>\<open>Writer\<close>, \<^verbatim>\<open>Inspect\<close> and \<^verbatim>\<open>Raw_Scan\<close>; that it changes with every change
  of the settings is a lemma of \<^verbatim>\<open>Source\<close>, and that the caches are then invisible is one of each of the other
  three. \<^verbatim>\<open>Writer\<close>, \<^verbatim>\<open>Router\<close>, \<^verbatim>\<open>Fuse_Policy\<close> and \<^verbatim>\<open>Mount_Map\<close> use the rules of \<^verbatim>\<open>Paths_Rules\<close> and the chains of
  \<^verbatim>\<open>Domain\<close> on profiles resolved by \<^verbatim>\<open>Settings\<close>; \<^verbatim>\<open>Fuse_Routing\<close> compares the mapping of the FUSE policy with that of
  the engine. The engine asks \<^verbatim>\<open>Hook_Context\<close>, \<^verbatim>\<open>Shared_Uid\<close>, \<^verbatim>\<open>Writer\<close> and \<^verbatim>\<open>Router\<close>; a session asks its
  policies for a back end and keeps the tables of \<^verbatim>\<open>Fuse_Inode\<close>; the planner resolves rules with \<^verbatim>\<open>Paths_Rules\<close>
  and reads the mount table with \<^verbatim>\<open>Mountinfo\<close>.

  Representation. A Rust struct is a record with prefixed field names where two structs share a name; a
  \<^verbatim>\<open>HashMap\<close> is an association list, and wherever the code iterates one, the order is a parameter the theorems
  quantify over; a thread-local or global cell is a field of a state record that the operations take and return;
  a lock that may fail to be taken is a boolean argument; an operation of the hub, or \<^verbatim>\<open>opendir\<close>, that releases
  its lock in between is one definition per critical section, and what other threads do there is interleaved.

  Parameters. What the program takes from outside is an argument of the definitions: the JSON parser
  (\<^verbatim>\<open>serde_json\<close>), Unicode lower-casing, the file system, the process table and the kernel as they answer
  (\<^verbatim>\<open>config_env\<close>, \<^verbatim>\<open>raw_env\<close>, \<^verbatim>\<open>uid_file_view\<close>, \<^verbatim>\<open>engine_world\<close>, \<^verbatim>\<open>system\<close>, \<^verbatim>\<open>mount_world\<close>), the clock, and call
  stacks.

  Bounds and fuel. A mapping chain is followed for \<^verbatim>\<open>MAX_PATH_MAPPING_DEPTH + 1\<close> iterations, the bound in the code.
  The wildcard scanner is a function with a termination proof; a theorem bounds its iterations by a quadratic of
  the two lengths. \<^verbatim>\<open>opendir\<close> tries again as long as its directory is renamed meanwhile: the model has fuel for its
  rounds, and a theorem says that one undisturbed round is enough. The depth of the wildcard scan for mounts is the
  number of components the rule has below its root, as in the code; its limits (128 matches, 512
  directories) and those of the metadata scans (256 and 512 directories) are the code's. Walking up a path ends
  because the parent is shorter. No other fuel is used.

  What the theorems show, by kind. Safety: writes of an application go to its sandbox, its mappings, or where the
  unmodified system lets it write; unregistered callers of the shared FUSE host are denied; new entries are
  made at the routed path only; read-only binds are remounted read-only; binds reach the aliases of their target
  only. Invariants: settings, uid table, inode tables with the directory cache, recorded mounts. Refinements:
  caches never change an answer; a rename moves a subtree; handlers are runs of table steps. Equivalences: the
  scanner decides recursive glob matching, rule indexes are scans, the FUSE mapping follows the engine's.
  Functional: mapping chains and their filter, ownership of a path, the engine's decision, short writes, the
  answer of the redirection. Errors: damaged configuration files, read-only back ends. Liveness: a reload reaches
  the directory's state, the FUSE gate opens again. Bounds: cached raw settings, wildcard mounts. Several theorems
  record where the code departs from its own comments; they are findings of the manifest.

  Not modelled, and why. The host process of the FUSE session, its supervision and the mount calls of
  \<^verbatim>\<open>fuse_redirect/config.rs\<close> are fork, sockets, poll loops and timeouts; the daemon and the process life cycle are
  threads, sockets and \<^verbatim>\<open>/proc\<close> scans around the operations modelled here; native and Java hooks are raw pointers
  and JNI, whose decisions are the engine's; the file monitor and the logs are input and output; the repair of
  owners walks trees with \<^verbatim>\<open>chown\<close>; the mount ledgers outside the planner and the event deduplication of
  \<^verbatim>\<open>platform/paths.rs\<close> are left out. In the mount planner the functions that only write to the log are left out
  (the scan for unserviceable entries and the description of the view), in the FUSE handlers \<^verbatim>\<open>statfs\<close> and the
  records for the monitor.
\<close>

end
